(* ===== verification/Prelude.thy ===== *)
theory Prelude
  imports Complex_Main
begin

text \<open>
  What every component of the development shares: Python strings as lists of code points,
  JSON values, exceptions as values of a sum type, the string methods the code calls, and
  the library facts about them.

  A Python \<open>str\<close> is a list of code points (\<open>pystr\<close>); \<open>u ''abc''\<close> is the literal
  \<open>"abc"\<close>. What the Unicode database says beyond ASCII (word characters, case mappings,
  digits), the text that \<open>str()\<close> produces for floats and containers, SHA-256, the
  process environment, the platform's \<open>basename\<close> and the test \<open>urlsplit\<close> makes of a
  bracketed or non-ASCII network location are fields of the record \<open>pyhost\<close>, an argument
  of every definition that uses them; on ASCII text the definitions compute without them.
\<close>

named_theorems py_simps \<open>unfolding of the models of Python built-ins\<close>

subsection \<open>Strings\<close>

type_synonym pystr = "nat list"

definition u :: "string \<Rightarrow> pystr" where
  "u s = map of_char s"

lemma u_eq_iff [simp]: "u s = u t \<longleftrightarrow> s = t"
  unfolding u_def by (rule inj_map_eq_map) (rule injI, simp)

lemma u_Nil_iff [simp]: "u s = [] \<longleftrightarrow> s = []" "[] = u s \<longleftrightarrow> s = []"
  by (auto simp: u_def)

lemma length_u [simp]: "length (u s) = length s"
  by (simp add: u_def)

lemma u_ascii_bound: "c \<in> set (u s) \<Longrightarrow> c < 256"
  by (auto simp: u_def)

datatype pyfloat = Fin rat | NaN | PosInf | NegInf

datatype json =
    JNull
  | JBool bool
  | JInt int
  | JFloat pyfloat
  | JStr pystr
  | JList "json list"
  | JObj "(pystr \<times> json) list"

type_synonym pydict = "(pystr \<times> json) list"

record pyhost =
  uni_word :: "nat \<Rightarrow> bool"
  uni_lower :: "pystr \<Rightarrow> pystr"
  uni_upper :: "pystr \<Rightarrow> pystr"
  uni_fold :: "pystr \<Rightarrow> pystr"
  uni_int :: "pystr \<Rightarrow> int option"
  netloc_unsafe :: "pystr \<Rightarrow> bool"
  basename :: "pystr \<Rightarrow> pystr"
  environ :: "pystr \<Rightarrow> pystr option"
  repr_of :: "json \<Rightarrow> pystr"
  sha256_hex :: "pystr \<Rightarrow> pystr"

definition ascii_host :: pyhost where
  "ascii_host = \<lparr>uni_word = (\<lambda>_. False), uni_lower = id, uni_upper = id, uni_fold = id,
     uni_int = (\<lambda>_. None), netloc_unsafe = (\<lambda>_. False), basename = id,
     environ = (\<lambda>_. None), repr_of = (\<lambda>_. []), sha256_hex = id\<rparr>"

definition is_ascii :: "pystr \<Rightarrow> bool" where
  "is_ascii s \<longleftrightarrow> list_all (\<lambda>c. c < 128) s"

definition lower_cp :: "nat \<Rightarrow> nat" where
  "lower_cp c = (if 65 \<le> c \<and> c \<le> 90 then c + 32 else c)"

definition upper_cp :: "nat \<Rightarrow> nat" where
  "upper_cp c = (if 97 \<le> c \<and> c \<le> 122 then c - 32 else c)"

definition py_lower :: "pyhost \<Rightarrow> pystr \<Rightarrow> pystr" where
  "py_lower H s = (if is_ascii s then map lower_cp s else uni_lower H s)"

definition py_upper :: "pyhost \<Rightarrow> pystr \<Rightarrow> pystr" where
  "py_upper H s = (if is_ascii s then map upper_cp s else uni_upper H s)"

definition casefold :: "pyhost \<Rightarrow> pystr \<Rightarrow> pystr" where
  "casefold H s = (if is_ascii s then map lower_cp s else uni_fold H s)"

definition is_alpha_cp :: "nat \<Rightarrow> bool" where
  "is_alpha_cp c \<longleftrightarrow> 65 \<le> c \<and> c \<le> 90 \<or> 97 \<le> c \<and> c \<le> 122"

definition is_digit_cp :: "nat \<Rightarrow> bool" where
  "is_digit_cp c \<longleftrightarrow> 48 \<le> c \<and> c \<le> 57"

text \<open>The class \<open>\w\<close> of a \<open>str\<close> pattern: alphanumeric in the Unicode sense, or underscore.\<close>

definition word_cp :: "pyhost \<Rightarrow> nat \<Rightarrow> bool" where
  "word_cp H c \<longleftrightarrow>
     (if c < 128 then is_alpha_cp c \<or> is_digit_cp c \<or> c = 95 else uni_word H c)"

text \<open>\<open>str.isspace\<close>, which is also what \<open>strip()\<close>, \<open>split()\<close> and the class \<open>\s\<close> use.\<close>

definition space_cp :: "nat \<Rightarrow> bool" where
  "space_cp c \<longleftrightarrow> 9 \<le> c \<and> c \<le> 13 \<or> 28 \<le> c \<and> c \<le> 32 \<or> c = 133 \<or> c = 160 \<or> c = 5760
     \<or> 8192 \<le> c \<and> c \<le> 8202 \<or> c = 8232 \<or> c = 8233 \<or> c = 8239 \<or> c = 8287 \<or> c = 12288"

definition strip :: "pystr \<Rightarrow> pystr" where
  "strip s = rev (dropWhile space_cp (rev (dropWhile space_cp s)))"

definition starts_with :: "pystr \<Rightarrow> pystr \<Rightarrow> bool" where
  "starts_with s p \<longleftrightarrow> take (length p) s = p"

definition ends_with :: "pystr \<Rightarrow> pystr \<Rightarrow> bool" where
  "ends_with s p \<longleftrightarrow> length p \<le> length s \<and> drop (length s - length p) s = p"

fun has_sub :: "pystr \<Rightarrow> pystr \<Rightarrow> bool" where
  "has_sub p [] = (p = [])"
| "has_sub p (c # s) = (starts_with (c # s) p \<or> has_sub p s)"

text \<open>\<open>str.split()\<close> with no argument, and \<open>" ".join(s.split())\<close>.\<close>

fun words_acc :: "pystr \<Rightarrow> pystr \<Rightarrow> pystr list" where
  "words_acc acc [] = (if acc = [] then [] else [rev acc])"
| "words_acc acc (c # s) =
     (if space_cp c then (if acc = [] then words_acc [] s else rev acc # words_acc [] s)
      else words_acc (c # acc) s)"

definition py_split :: "pystr \<Rightarrow> pystr list" where
  "py_split s = words_acc [] s"

fun join :: "pystr \<Rightarrow> pystr list \<Rightarrow> pystr" where
  "join sep [] = []"
| "join sep [x] = x"
| "join sep (x # y # xs) = x @ sep @ join sep (y # xs)"

text \<open>\<open>s.split(ch)\<close> on one separating character.\<close>

fun split_on :: "nat \<Rightarrow> pystr \<Rightarrow> pystr list" where
  "split_on d [] = [[]]"
| "split_on d (c # s) =
     (if c = d then [] # split_on d s
      else (case split_on d s of [] \<Rightarrow> [[c]] | w # ws \<Rightarrow> (c # w) # ws))"

text \<open>Strings compare by code points.\<close>

fun str_lt :: "pystr \<Rightarrow> pystr \<Rightarrow> bool" where
  "str_lt s [] = False"
| "str_lt [] (b # t) = True"
| "str_lt (a # s) (b # t) = (a < b \<or> a = b \<and> str_lt s t)"

definition str_le :: "pystr \<Rightarrow> pystr \<Rightarrow> bool" where
  "str_le s t \<longleftrightarrow> \<not> str_lt t s"

fun insert_str :: "pystr \<Rightarrow> pystr list \<Rightarrow> pystr list" where
  "insert_str x [] = [x]"
| "insert_str x (y # ys) = (if str_le x y then x # y # ys else y # insert_str x ys)"

definition sorted_strs :: "pystr list \<Rightarrow> pystr list" where
  "sorted_strs xs = foldr insert_str xs []"

lemma str_lt_irrefl [simp]: "\<not> str_lt s s"
  by (induction s) auto

lemma set_insert_str [simp]: "set (insert_str x ys) = insert x (set ys)"
  by (induction ys) auto

lemma set_sorted_strs [simp]: "set (sorted_strs xs) = set xs"
  by (induction xs) (auto simp: sorted_strs_def)

fun dec_digits :: "nat \<Rightarrow> pystr" where
  "dec_digits n = (if n < 10 then [48 + n] else dec_digits (n div 10) @ [48 + n mod 10])"

declare dec_digits.simps [simp del]

definition dec :: "int \<Rightarrow> pystr" where
  "dec i = (if i < 0 then 45 # dec_digits (nat (- i)) else dec_digits (nat i))"

subsection \<open>Values, truth and dictionaries\<close>

fun truthy :: "json \<Rightarrow> bool" where
  "truthy JNull = False"
| "truthy (JBool b) = b"
| "truthy (JInt i) = (i \<noteq> 0)"
| "truthy (JFloat (Fin q)) = (q \<noteq> 0)"
| "truthy (JFloat _) = True"
| "truthy (JStr s) = (s \<noteq> [])"
| "truthy (JList xs) = (xs \<noteq> [])"
| "truthy (JObj d) = (d \<noteq> [])"

fun py_str :: "pyhost \<Rightarrow> json \<Rightarrow> pystr" where
  "py_str H JNull = u ''None''"
| "py_str H (JBool b) = (if b then u ''True'' else u ''False'')"
| "py_str H (JInt i) = dec i"
| "py_str H (JStr s) = s"
| "py_str H v = repr_of H v"

text \<open>\<open>repr_of\<close> is also \<open>repr()\<close> of a string.\<close>

definition repr_text :: "pyhost \<Rightarrow> pystr \<Rightarrow> pystr" where
  "repr_text H s = repr_of H (JStr s)"

definition dget :: "pydict \<Rightarrow> pystr \<Rightarrow> json option" where
  "dget d k = map_of d k"

text \<open>\<open>d.get(k)\<close> with the default \<open>None\<close> read as the value \<open>None\<close>.\<close>

definition dget_null :: "pydict \<Rightarrow> pystr \<Rightarrow> json" where
  "dget_null d k = (case map_of d k of None \<Rightarrow> JNull | Some v \<Rightarrow> v)"

text \<open>\<open>d[k] = v\<close>: an entry is replaced in its place, a new one goes to the end.\<close>

fun dset :: "pydict \<Rightarrow> pystr \<Rightarrow> json \<Rightarrow> pydict" where
  "dset [] k v = [(k, v)]"
| "dset ((k', w) # d) k v = (if k' = k then (k, v) # d else (k', w) # dset d k v)"

lemma dget_dset [simp]: "dget (dset d k v) k' = (if k' = k then Some v else dget d k')"
  by (induction d k v rule: dset.induct) (auto simp: dget_def)

lemma dget_null_dget: "dget_null d k = (case dget d k of None \<Rightarrow> JNull | Some v \<Rightarrow> v)"
  by (simp add: dget_null_def dget_def)

text \<open>\<open>str(v or "")\<close>.\<close>

definition str_or_empty :: "pyhost \<Rightarrow> json \<Rightarrow> pystr" where
  "str_or_empty H v = (if truthy v then py_str H v else [])"

text \<open>\<open>a or b\<close> on strings and on JSON values.\<close>

definition or_str :: "pystr \<Rightarrow> pystr \<Rightarrow> pystr" where
  "or_str a b = (if a = [] then b else a)"

definition or_json :: "json \<Rightarrow> json \<Rightarrow> json" where
  "or_json a b = (if truthy a then a else b)"

subsection \<open>Exceptions as values\<close>

text \<open>\<open>OtherError\<close> stands for the exception classes no handler of the model names.\<close>

datatype exc =
    ValueError string
  | TypeError string
  | KeyError string
  | RuntimeError string
  | OtherError string

type_synonym 'a result = "exc + 'a"

definition bind_result :: "('e + 'a) \<Rightarrow> ('a \<Rightarrow> 'e + 'b) \<Rightarrow> 'e + 'b" where
  "bind_result m f = (case m of Inl e \<Rightarrow> Inl e | Inr x \<Rightarrow> f x)"

lemma bind_result_simps [simp]:
  "bind_result (Inl e) f = Inl e"
  "bind_result (Inr x) f = f x"
  by (simp_all add: bind_result_def)

lemma bind_result_Inr_iff:
  "bind_result m f = Inr y \<longleftrightarrow> (\<exists>x. m = Inr x \<and> f x = Inr y)"
  by (cases m) auto

fun is_ok :: "'e + 'a \<Rightarrow> bool" where
  "is_ok (Inl _) = False"
| "is_ok (Inr _) = True"

subsection \<open>\<open>int(v)\<close>\<close>

text \<open>
  \<open>int()\<close> of a JSON value: \<open>bool\<close> is an integer, a finite float is truncated towards
  zero, an infinite one raises \<open>OverflowError\<close>, a string is stripped and read as a signed
  decimal with single underscores between digits, anything else is a \<open>TypeError\<close>.
\<close>

fun digits_val :: "nat \<Rightarrow> bool \<Rightarrow> pystr \<Rightarrow> nat option" where
  "digits_val acc d [] = (if d then Some acc else None)"
| "digits_val acc d (c # s) =
     (if is_digit_cp c then digits_val (10 * acc + (c - 48)) True s
      else if c = 95 \<and> d then digits_val acc False s
      else None)"

definition int_of_text :: "pystr \<Rightarrow> int option" where
  "int_of_text s =
     (case s of
        [] \<Rightarrow> None
      | c # t \<Rightarrow>
          if c = 45 then map_option (\<lambda>n. - int n) (digits_val 0 False t)
          else if c = 43 then map_option int (digits_val 0 False t)
          else map_option int (digits_val 0 False s))"

definition trunc_rat :: "rat \<Rightarrow> int" where
  "trunc_rat q = (if 0 \<le> q then \<lfloor>q\<rfloor> else \<lceil>q\<rceil>)"

fun py_int :: "pyhost \<Rightarrow> json \<Rightarrow> int result" where
  "py_int H (JInt i) = Inr i"
| "py_int H (JBool b) = Inr (if b then 1 else 0)"
| "py_int H (JFloat (Fin q)) = Inr (trunc_rat q)"
| "py_int H (JFloat NaN) = Inl (ValueError ''cannot convert float NaN to integer'')"
| "py_int H (JFloat _) = Inl (OtherError ''OverflowError'')"
| "py_int H (JStr s) =
     (case (if is_ascii s then int_of_text (strip s) else uni_int H s) of
        None \<Rightarrow> Inl (ValueError ''invalid literal for int()'')
      | Some i \<Rightarrow> Inr i)"
| "py_int H _ = Inl (TypeError ''int() argument'')"

text \<open>\<open>round\<close> to the nearest integer, ties to the even one.\<close>

definition round_half_even :: "rat \<Rightarrow> int" where
  "round_half_even q =
     (let f = \<lfloor>q\<rfloor>; d = q - of_int f in
      if 2 * d < 1 \<or> 2 * d = 1 \<and> even f then f else f + 1)"

subsection \<open>\<open>dict.fromkeys\<close>: duplicates removed, first occurrence kept\<close>

fun dedup_acc :: "'a list \<Rightarrow> 'a list \<Rightarrow> 'a list" where
  "dedup_acc seen [] = []"
| "dedup_acc seen (x # xs) =
     (if List.member seen x then dedup_acc seen xs else x # dedup_acc (x # seen) xs)"

definition dedup :: "'a list \<Rightarrow> 'a list" where
  "dedup xs = dedup_acc [] xs"

lemma set_dedup_acc: "set (dedup_acc seen xs) = set xs - set seen"
  by (induction seen xs rule: dedup_acc.induct) auto

lemma set_dedup [simp]: "set (dedup xs) = set xs"
  by (simp add: dedup_def set_dedup_acc)

lemma distinct_dedup_acc: "distinct (dedup_acc seen xs)"
  by (induction seen xs rule: dedup_acc.induct) (auto simp: set_dedup_acc)

lemma distinct_dedup [simp]: "distinct (dedup xs)"
  by (simp add: dedup_def distinct_dedup_acc)

lemma dedup_Nil_iff [simp]: "dedup xs = [] \<longleftrightarrow> xs = []"
  by (metis set_dedup set_empty)

lemma dedup_acc_distinct: "distinct xs \<Longrightarrow> set xs \<inter> set seen = {} \<Longrightarrow> dedup_acc seen xs = xs"
  by (induction seen xs rule: dedup_acc.induct) auto

lemma dedup_distinct [simp]: "distinct xs \<Longrightarrow> dedup xs = xs"
  by (simp add: dedup_def dedup_acc_distinct)

subsection \<open>Facts about the string methods\<close>

lemma py_lower_ascii: "is_ascii s \<Longrightarrow> py_lower H s = map lower_cp s"
  by (simp add: py_lower_def)

lemma casefold_ascii: "is_ascii s \<Longrightarrow> casefold H s = map lower_cp s"
  by (simp add: casefold_def)

lemma is_ascii_Nil [simp]: "is_ascii []"
  by (simp add: is_ascii_def)

lemma is_ascii_Cons [simp]: "is_ascii (c # s) \<longleftrightarrow> c < 128 \<and> is_ascii s"
  by (simp add: is_ascii_def)

lemma py_lower_Nil [simp]: "py_lower H [] = []"
  by (simp add: py_lower_def)

lemma casefold_Nil [simp]: "casefold H [] = []"
  by (simp add: casefold_def)

lemma is_ascii_lower: "is_ascii s \<Longrightarrow> is_ascii (map lower_cp s)"
  by (auto simp: is_ascii_def list_all_iff lower_cp_def)

lemma lower_cp_idem [simp]: "lower_cp (lower_cp c) = lower_cp c"
  by (auto simp: lower_cp_def)

lemma casefold_idem_ascii: "is_ascii s \<Longrightarrow> casefold H (casefold H s) = casefold H s"
  by (simp add: casefold_def is_ascii_lower comp_def)

lemma strip_Nil [simp]: "strip [] = []"
  by (simp add: strip_def)

lemma set_strip: "set (strip s) \<subseteq> set s"
proof
  fix x
  assume "x \<in> set (strip s)"
  then have "x \<in> set (rev (dropWhile space_cp s))"
    unfolding strip_def by (metis set_dropWhileD set_rev)
  then show "x \<in> set s" by (auto dest: set_dropWhileD)
qed

lemma length_strip: "length (strip s) \<le> length s"
  by (simp add: strip_def) (metis length_dropWhile_le length_rev order_trans)

lemma strip_no_space: "(\<forall>c \<in> set s. \<not> space_cp c) \<Longrightarrow> strip s = s"
proof -
  assume a: "\<forall>c \<in> set s. \<not> space_cp c"
  have drop: "dropWhile space_cp t = t" if "\<forall>c \<in> set t. \<not> space_cp c" for t
    using that by (cases t) auto
  from a have "dropWhile space_cp s = s" "dropWhile space_cp (rev s) = rev s"
    by (auto intro: drop)
  then show ?thesis by (simp add: strip_def)
qed

lemma starts_with_append [simp]: "starts_with (p @ s) p"
  by (simp add: starts_with_def)

lemma starts_with_iff: "starts_with s p \<longleftrightarrow> (\<exists>t. s = p @ t)"
  by (metis append_take_drop_id starts_with_append starts_with_def)

lemma ends_with_iff: "ends_with s p \<longleftrightarrow> (\<exists>t. s = t @ p)"
proof
  assume "ends_with s p"
  then have "s = take (length s - length p) s @ p"
    by (metis append_take_drop_id ends_with_def)
  then show "\<exists>t. s = t @ p" ..
qed (auto simp: ends_with_def)

lemma has_sub_iff: "has_sub p s \<longleftrightarrow> (\<exists>a b. s = a @ p @ b)"
proof (induction s)
  case Nil
  then show ?case by auto
next
  case (Cons c s)
  have "(\<exists>a b. c # s = a @ p @ b) \<longleftrightarrow> (\<exists>b. c # s = p @ b) \<or> (\<exists>a b. s = a @ p @ b)"
    by (metis (no_types, lifting) append_Cons append_Nil list.exhaust list.inject)
  with Cons show ?case by (auto simp: starts_with_iff)
qed

lemma dget_null_simps [simp]:
  "dget_null [] k = JNull"
  "dget_null ((k', v) # d) k = (if k = k' then v else dget_null d k)"
  by (simp_all add: dget_null_def)

lemma or_str_simps [simp]: "or_str [] b = b" "a \<noteq> [] \<Longrightarrow> or_str a b = a"
  by (simp_all add: or_str_def)

lemma str_or_empty_simps [simp]:
  "str_or_empty H JNull = []"
  "str_or_empty H (JStr s) = s"
  by (simp_all add: str_or_empty_def)

end
