(* ===== verification/Regex.thy ===== *)
theory Regex
  imports Prelude
begin

text \<open>
  The regular expressions of \<open>harness/authority.py\<close> and \<open>harness/browserpolicy.py\<close> as a
  datatype and \<open>re.search\<close> as a search for a position with a match. Only the existence
  of a match is read by the code, so a matcher that lists the end positions of the matches
  that start at a position is exact whatever the greediness. Literals are matched with the
  flag \<open>re.I\<close>: beside the two cases of an ASCII letter, CPython lets U+0130 and U+0131
  match \<open>i\<close>, U+017F match \<open>s\<close> and U+212A match \<open>k\<close>.
\<close>

datatype rex =
    RLit pystr
  | ROne "nat list"
  | RSpace bool
  | RWordB
  | RBegin
  | REnd
  | REps
  | RFail
  | RAlt rex rex
  | RSeq rex rex

definition ieq :: "nat \<Rightarrow> nat \<Rightarrow> bool" where
  "ieq p c \<longleftrightarrow> c = p \<or> 97 \<le> p \<and> p \<le> 122 \<and>
     (c + 32 = p \<or> p = 105 \<and> (c = 304 \<or> c = 305) \<or> p = 115 \<and> c = 383 \<or> p = 107 \<and> c = 8490)"

fun lit_at :: "pystr \<Rightarrow> pystr \<Rightarrow> bool" where
  "lit_at [] s = True"
| "lit_at (p # ps) [] = False"
| "lit_at (p # ps) (c # s) = (ieq p c \<and> lit_at ps s)"

definition word_at :: "pyhost \<Rightarrow> pystr \<Rightarrow> nat \<Rightarrow> bool" where
  "word_at H s i \<longleftrightarrow> i < length s \<and> word_cp H (s ! i)"

definition boundary :: "pyhost \<Rightarrow> pystr \<Rightarrow> nat \<Rightarrow> bool" where
  "boundary H s i \<longleftrightarrow> (0 < i \<and> word_at H s (i - 1)) \<noteq> word_at H s i"

text \<open>\<open>RSpace True\<close> is \<open>\s+\<close>, \<open>RSpace False\<close> is \<open>\s*\<close>; \<open>ROne cs\<close> is one character of \<open>cs\<close>.\<close>

fun ends :: "pyhost \<Rightarrow> rex \<Rightarrow> pystr \<Rightarrow> nat \<Rightarrow> nat list" where
  "ends H (RLit p) s i = (if lit_at p (drop i s) then [i + length p] else [])"
| "ends H (ROne cs) s i = (if i < length s \<and> List.member cs (s ! i) then [Suc i] else [])"
| "ends H (RSpace one) s i =
     (let n = length (takeWhile space_cp (drop i s)) in
      [(if one then Suc i else i) ..< i + n + 1])"
| "ends H RWordB s i = (if boundary H s i then [i] else [])"
| "ends H RBegin s i = (if i = 0 then [i] else [])"
| "ends H REnd s i = (if i = length s \<or> Suc i = length s \<and> s ! i = 10 then [i] else [])"
| "ends H REps s i = [i]"
| "ends H RFail s i = []"
| "ends H (RAlt r1 r2) s i = ends H r1 s i @ ends H r2 s i"
| "ends H (RSeq r1 r2) s i = concat (map (ends H r2 s) (ends H r1 s i))"

definition search :: "pyhost \<Rightarrow> rex \<Rightarrow> pystr \<Rightarrow> bool" where
  "search H r s \<longleftrightarrow> list_ex (\<lambda>i. ends H r s i \<noteq> []) [0..<Suc (length s)]"

definition ralts :: "rex list \<Rightarrow> rex" where
  "ralts rs = foldr RAlt rs RFail"

definition rseqs :: "rex list \<Rightarrow> rex" where
  "rseqs rs = foldr RSeq rs REps"

definition words_re :: "string list \<Rightarrow> rex" where
  "words_re ws = ralts (map (\<lambda>w. RLit (u w)) ws)"

text \<open>\<open>\b(w1|w2|...)\b\<close>, the shape of most patterns.\<close>

definition whole_words :: "string list \<Rightarrow> rex" where
  "whole_words ws = rseqs [RWordB, words_re ws, RWordB]"

definition opt_re :: "rex \<Rightarrow> rex" where
  "opt_re r = RAlt r REps"

lemma ends_ralts: "ends H (ralts rs) s i = concat (map (\<lambda>r. ends H r s i) rs)"
  by (induction rs) (simp_all add: ralts_def)

lemma search_ralts: "search H (ralts rs) s \<longleftrightarrow> (\<exists>r \<in> set rs. search H r s)"
  by (auto simp: search_def ends_ralts list_ex_iff)

lemma search_Nil_lit [simp]: "search H (RLit p) [] \<longleftrightarrow> p = []"
  by (cases p) (auto simp: search_def)

lemma ieq_refl [simp]: "ieq p p"
  by (simp add: ieq_def)

lemma lit_at_self: "lit_at p (p @ s)"
  by (induction p) auto

lemma search_lit_sub: "has_sub p s \<Longrightarrow> search H (RLit p) s"
proof -
  assume "has_sub p s"
  then obtain a b where s: "s = a @ p @ b" by (auto simp: has_sub_iff)
  then have "lit_at p (drop (length a) s)" by (simp add: lit_at_self)
  moreover have "length a \<in> set [0..<Suc (length s)]" by (simp add: s del: upt_Suc)
  ultimately show ?thesis unfolding search_def list_ex_iff by (intro bexI [of _ "length a"]) simp_all
qed

end
