(* ===== verification/Latch.thy ===== *)
theory Latch
  imports Prelude
begin

text \<open>
  The contract behind every "first answer wins" update of the program (a one-shot grant, a
  parked approval, a claimed wait, an action's executor): an operation may report that it
  won a key, it only wins a live key, winning kills the key, and nothing revives a dead one.
  A run of such operations, whoever issues them and in whatever order, wins each key at
  most once. The stores interpret the locale on their own operations.
\<close>

fun run_ops :: "('a \<Rightarrow> 's \<Rightarrow> 'o \<times> 's) \<Rightarrow> 'a list \<Rightarrow> 's \<Rightarrow> 'o list \<times> 's" where
  "run_ops f [] s = ([], s)"
| "run_ops f (a # as) s =
     (let (x, s') = f a s; (xs, s'') = run_ops f as s' in (x # xs, s''))"

locale once_latch =
  fixes op_step :: "'a \<Rightarrow> 's \<Rightarrow> 'k option \<times> 's"
    and live :: "'s \<Rightarrow> 'k \<Rightarrow> bool"
    and inv :: "'s \<Rightarrow> bool"
  assumes op_inv: "op_step a s = (r, s') \<Longrightarrow> inv s \<Longrightarrow> inv s'"
    and win_live: "op_step a s = (Some k, s') \<Longrightarrow> inv s \<Longrightarrow> live s k"
    and win_kills: "op_step a s = (Some k, s') \<Longrightarrow> inv s \<Longrightarrow> \<not> live s' k"
    and dead_stays: "op_step a s = (r, s') \<Longrightarrow> inv s \<Longrightarrow> \<not> live s k \<Longrightarrow> \<not> live s' k"
begin

lemma run_inv: "inv s \<Longrightarrow> inv (snd (run_ops op_step as s))"
proof (induction as arbitrary: s)
  case (Cons a as)
  obtain r s' where rs: "op_step a s = (r, s')" by fastforce
  have "inv (snd (run_ops op_step as s'))"
    using Cons.IH op_inv [OF rs Cons.prems] by blast
  then show ?case using rs by (cases "run_ops op_step as s'") simp
qed simp

lemma dead_never_wins:
  "inv s \<Longrightarrow> \<not> live s k \<Longrightarrow> Some k \<notin> set (fst (run_ops op_step as s))"
proof (induction as arbitrary: s)
  case (Cons a as)
  obtain r s' where rs: "op_step a s = (r, s')" by fastforce
  have "r \<noteq> Some k" using win_live rs Cons.prems by blast
  moreover have "Some k \<notin> set (fst (run_ops op_step as s'))"
    using Cons.IH op_inv [OF rs Cons.prems(1)] dead_stays [OF rs Cons.prems] by blast
  ultimately show ?case using rs by (auto simp: Let_def split: prod.splits)
qed simp

lemma wins_at_most_once:
  "inv s \<Longrightarrow> count_list (fst (run_ops op_step as s)) (Some k) \<le> 1"
proof (induction as arbitrary: s)
  case (Cons a as)
  obtain r s' where rs: "op_step a s = (r, s')" by fastforce
  have inv': "inv s'" using op_inv [OF rs Cons.prems] .
  obtain xs t where xs: "run_ops op_step as s' = (xs, t)" by fastforce
  have run: "fst (run_ops op_step (a # as) s) = r # xs" using rs xs by simp
  show ?case
  proof (cases "r = Some k")
    case True
    then have "\<not> live s' k" using win_kills rs Cons.prems by blast
    then have "Some k \<notin> set xs" using dead_never_wins [OF inv'] xs by (metis fst_conv)
    then show ?thesis unfolding run by (simp add: True count_list_0_iff)
  next
    case False
    then show ?thesis unfolding run using Cons.IH [OF inv'] xs by simp
  qed
qed simp

lemma later_runs_lose:
  assumes "inv s" "op_step a s = (Some k, s')"
  shows "Some k \<notin> set (fst (run_ops op_step as s'))"
  using assms by (intro dead_never_wins) (auto dest: op_inv win_kills)

end

text \<open>
  The contract of a store whose rows only evolve: every operation of a run keeps the
  invariant and moves the store along a preorder, so the whole run does.
\<close>

fun run_steps :: "('a \<Rightarrow> 's \<Rightarrow> 's) \<Rightarrow> 'a list \<Rightarrow> 's \<Rightarrow> 's" where
  "run_steps f [] s = s"
| "run_steps f (a # as) s = run_steps f as (f a s)"

lemma run_steps_append [simp]: "run_steps f (as @ bs) s = run_steps f bs (run_steps f as s)"
  by (induction as arbitrary: s) simp_all

locale evolving_store =
  fixes step :: "'a \<Rightarrow> 's \<Rightarrow> 's"
    and inv :: "'s \<Rightarrow> bool"
    and evolves :: "'s \<Rightarrow> 's \<Rightarrow> bool"
  assumes step_inv: "inv s \<Longrightarrow> inv (step a s)"
    and step_evolves: "inv s \<Longrightarrow> evolves s (step a s)"
    and evolves_refl: "evolves s s"
    and evolves_trans: "evolves s t \<Longrightarrow> evolves t v \<Longrightarrow> evolves s v"
begin

lemma run_inv: "inv s \<Longrightarrow> inv (run_steps step as s)"
  by (induction as arbitrary: s) (simp_all add: step_inv)

lemma run_evolves: "inv s \<Longrightarrow> evolves s (run_steps step as s)"
proof (induction as arbitrary: s)
  case (Cons a as)
  have "evolves (step a s) (run_steps step as (step a s))" using Cons step_inv by blast
  with step_evolves [OF Cons.prems] show ?case by (auto intro: evolves_trans)
qed (simp add: evolves_refl)

lemma later_evolves:
  "inv s \<Longrightarrow> evolves (run_steps step as s) (run_steps step (as @ bs) s)"
  by (simp add: run_inv run_evolves)

end

text \<open>
  The same with a relation that depends on the operations of the run, for a store whose clients
  keep to the allowed operations.
\<close>

locale labelled_store =
  fixes step :: "'a \<Rightarrow> 's \<Rightarrow> 's"
    and allowed :: "'a \<Rightarrow> bool"
    and inv :: "'s \<Rightarrow> bool"
    and evolves :: "'a set \<Rightarrow> 's \<Rightarrow> 's \<Rightarrow> bool"
  assumes step_inv: "allowed a \<Longrightarrow> inv s \<Longrightarrow> inv (step a s)"
    and step_evolves: "allowed a \<Longrightarrow> inv s \<Longrightarrow> evolves {a} s (step a s)"
    and evolves_refl: "evolves A s s"
    and evolves_mono: "evolves A s t \<Longrightarrow> A \<subseteq> B \<Longrightarrow> evolves B s t"
    and evolves_trans: "evolves A s t \<Longrightarrow> evolves A t v \<Longrightarrow> evolves A s v"
begin

lemma run_inv: "list_all allowed as \<Longrightarrow> inv s \<Longrightarrow> inv (run_steps step as s)"
  by (induction as arbitrary: s) (simp_all add: step_inv)

lemma run_evolves: "list_all allowed as \<Longrightarrow> inv s \<Longrightarrow> evolves (set as) s (run_steps step as s)"
proof (induction as arbitrary: s)
  case (Cons a as)
  then have "evolves (set as) (step a s) (run_steps step as (step a s))" using step_inv by simp
  then have "evolves (set (a # as)) (step a s) (run_steps step (a # as) s)" using evolves_mono by (metis run_steps.simps(2) set_subset_Cons)
  moreover have "evolves (set (a # as)) s (step a s)" using Cons.prems evolves_mono [OF step_evolves] by simp
  ultimately show ?case by (blast intro: evolves_trans)
qed (simp add: evolves_refl)

lemma later_evolves:
  assumes "list_all allowed (as @ bs)" "inv s"
  shows "evolves (set bs) (run_steps step as s) (run_steps step (as @ bs) s)"
  using assms run_evolves [of bs "run_steps step as s"] run_inv [of as s] by simp

end

text \<open>A table whose rows change by a relation, in place, and which gets new rows at its end.\<close>

definition grown :: "('a \<Rightarrow> 'a \<Rightarrow> bool) \<Rightarrow> 'a list \<Rightarrow> 'a list \<Rightarrow> bool" where
  "grown R xs ys \<longleftrightarrow> list_all2 R xs (take (length xs) ys)"

lemma grown_length: "grown R xs ys \<Longrightarrow> length xs \<le> length ys"
  by (auto simp: grown_def dest: list_all2_lengthD)

lemma grown_nth: "grown R xs ys \<Longrightarrow> i < length xs \<Longrightarrow> R (xs ! i) (ys ! i)"
  by (auto simp: grown_def dest: list_all2_nthD)

lemma grown_iff: "grown R xs ys \<longleftrightarrow> length xs \<le> length ys \<and> (\<forall>i < length xs. R (xs ! i) (ys ! i))"
  by (auto simp: grown_def list_all2_conv_all_nth)

lemma grown_refl: "(\<And>x. x \<in> set xs \<Longrightarrow> R x x) \<Longrightarrow> grown R xs xs"
  by (simp add: grown_iff)

lemma grown_trans: "(\<And>x y z. R x y \<Longrightarrow> R y z \<Longrightarrow> R x z) \<Longrightarrow> grown R xs ys \<Longrightarrow> grown R ys zs \<Longrightarrow> grown R xs zs"
  by (auto simp: grown_iff intro: order_trans)

lemma grown_append: "grown R xs ys \<Longrightarrow> grown R xs (ys @ zs)"
  by (auto simp: grown_iff nth_append)

lemma grown_map: "(\<And>x. x \<in> set xs \<Longrightarrow> R x (f x)) \<Longrightarrow> grown R xs (map f xs)"
  by (simp add: grown_iff)

lemma grown_member: "grown R xs ys \<Longrightarrow> x \<in> set xs \<Longrightarrow> \<exists>y \<in> set ys. R x y"
  by (metis grown_iff in_set_conv_nth less_le_trans)

lemma grown_mono: "grown R xs ys \<Longrightarrow> (\<And>x y. R x y \<Longrightarrow> S x y) \<Longrightarrow> grown S xs ys"
  by (auto simp: grown_iff)

lemma grown_eq: "grown (=) xs ys \<longleftrightarrow> (\<exists>zs. ys = xs @ zs)"
proof
  assume "grown (=) xs ys"
  then have "xs = take (length xs) ys" by (simp add: grown_def list_all2_eq)
  then show "\<exists>zs. ys = xs @ zs" by (metis append_take_drop_id)
qed (auto simp: grown_iff nth_append)

lemma all2_grown: "list_all2 R xs ys \<Longrightarrow> grown R xs ys"
  by (simp add: grown_def list_all2_lengthD [symmetric])

lemma grown_same_length: "grown R xs ys \<Longrightarrow> length ys \<le> length xs \<Longrightarrow> list_all2 R xs ys"
  by (simp add: grown_def)

text \<open>A table whose key counts the rows from one.\<close>

definition numbered :: "('a \<Rightarrow> nat) \<Rightarrow> 'a list \<Rightarrow> bool" where
  "numbered f xs \<longleftrightarrow> map f xs = [1..<length xs + 1]"

lemma numbered_Nil [simp]: "numbered f []"
  by (simp add: numbered_def)

lemma numbered_append: "numbered f xs \<Longrightarrow> f x = length xs + 1 \<Longrightarrow> numbered f (xs @ [x])"
  by (simp add: numbered_def)

lemma numbered_same: "map f ys = map f xs \<Longrightarrow> numbered f xs \<Longrightarrow> numbered f ys"
  by (metis numbered_def length_map)

lemma numbered_distinct: "numbered f xs \<Longrightarrow> distinct (map f xs)"
  by (simp add: numbered_def)

lemma numbered_nth: "numbered f xs \<Longrightarrow> i < length xs \<Longrightarrow> f (xs ! i) = i + 1"
  unfolding numbered_def by (drule arg_cong [where f = "\<lambda>ys. ys ! i"]) (simp del: upt_Suc)

lemma numbered_sorted: "numbered f xs \<Longrightarrow> sorted_wrt (<) (map f xs)"
  by (simp add: numbered_def del: upt_Suc)

lemma numbered_bound: "numbered f xs \<Longrightarrow> x \<in> set xs \<Longrightarrow> f x \<le> length xs"
  by (auto simp: in_set_conv_nth numbered_nth)

end
