(* ===== verification/Authority.thy ===== *)
theory Authority
  imports Regex Latch
begin

text \<open>
  Outcome-based authorization, \<open>harness/authority.py\<close>: the bounded description of a proposed
  call (\<open>ActionIntent\<close>), what an authenticated request authorizes (\<open>RequestAuthority\<close>),
  stored grants and their ledger (\<open>AuthorizationGrant\<close>, \<open>AuthorityStore\<close>), and the engine
  that decides (\<open>AuthorityEngine\<close>).
\<close>

subsection \<open>Effects, decisions, scopes\<close>

datatype effect = OBSERVE | PREPARE | ACT | COMMIT | RESTRICTED

datatype auth_decision = ALLOW_SILENT | ALLOW_NOTIFY | ASK | DENY | NEEDS_PERSON

datatype grant_scope = S_ONCE | S_MISSION | S_WORKFLOW | S_PROJECT | S_CONNECTION

definition effect_value :: "effect \<Rightarrow> pystr" where
  "effect_value e = (case e of OBSERVE \<Rightarrow> u ''observe'' | PREPARE \<Rightarrow> u ''prepare'' | ACT \<Rightarrow> u ''act''
     | COMMIT \<Rightarrow> u ''commit'' | RESTRICTED \<Rightarrow> u ''restricted'')"

definition scope_value :: "grant_scope \<Rightarrow> pystr" where
  "scope_value s = (case s of S_ONCE \<Rightarrow> u ''once'' | S_MISSION \<Rightarrow> u ''mission''
     | S_WORKFLOW \<Rightarrow> u ''workflow'' | S_PROJECT \<Rightarrow> u ''project'' | S_CONNECTION \<Rightarrow> u ''connection'')"

subsection \<open>Action intents\<close>

text \<open>
  An amount is absent, a float, or a \<open>bool\<close> (which Python accepts where a float is expected
  and \<open>bounded\<close> discards). The confidence of a float NaN is clamped to 1 by
  \<open>max(0.0, min(1.0, c))\<close>, as \<open>min\<close> keeps its first argument.
\<close>

datatype amount = NoAmount | AmountBool bool | Amount pyfloat

record action_intent =
  ai_action :: pystr
  ai_effect :: effect
  ai_target :: pystr
  ai_account :: pystr
  ai_recipients :: "pystr list"
  ai_resource :: pystr
  ai_connection_id :: pystr
  ai_amount :: amount
  ai_currency :: pystr
  ai_reversible :: bool
  ai_confidence :: pyfloat
  ai_reason :: pystr
  ai_metadata :: pydict

definition intent0 :: "pystr \<Rightarrow> effect \<Rightarrow> action_intent" where
  "intent0 a e = \<lparr>ai_action = a, ai_effect = e, ai_target = [], ai_account = [],
     ai_recipients = [], ai_resource = [], ai_connection_id = [], ai_amount = NoAmount,
     ai_currency = [], ai_reversible = False, ai_confidence = Fin 1, ai_reason = [],
     ai_metadata = []\<rparr>"

definition short_text :: "pystr \<Rightarrow> nat \<Rightarrow> pystr" where
  "short_text s limit = take limit (strip s)"

definition bounded_amount :: "amount \<Rightarrow> amount" where
  "bounded_amount a =
     (case a of
        Amount (Fin q) \<Rightarrow> if - 1000000000000 < q \<and> q < 1000000000000 then a else NoAmount
      | _ \<Rightarrow> NoAmount)"

definition clamp01 :: "pyfloat \<Rightarrow> pyfloat" where
  "clamp01 c = (case c of Fin q \<Rightarrow> Fin (max 0 (min 1 q)) | NaN \<Rightarrow> Fin 1 | PosInf \<Rightarrow> Fin 1 | NegInf \<Rightarrow> Fin 0)"

definition bounded :: "pyhost \<Rightarrow> action_intent \<Rightarrow> action_intent" where
  "bounded H i = \<lparr>
     ai_action = short_text (ai_action i) 100, ai_effect = ai_effect i,
     ai_target = short_text (ai_target i) 300, ai_account = short_text (ai_account i) 200,
     ai_recipients = filter (\<lambda>x. x \<noteq> []) (map (\<lambda>x. short_text x 200) (take 100 (ai_recipients i))),
     ai_resource = short_text (ai_resource i) 300,
     ai_connection_id = short_text (ai_connection_id i) 160,
     ai_amount = bounded_amount (ai_amount i),
     ai_currency = py_upper H (short_text (ai_currency i) 12),
     ai_reversible = ai_reversible i,
     ai_confidence = clamp01 (ai_confidence i),
     ai_reason = short_text (ai_reason i) 500, ai_metadata = []\<rparr>"

lemma length_short_text: "length (short_text s n) \<le> n"
  by (simp add: short_text_def)

lemma bounded_simps [simp]:
  "ai_effect (bounded H i) = ai_effect i"
  "ai_reversible (bounded H i) = ai_reversible i"
  "ai_metadata (bounded H i) = []"
  by (simp_all add: bounded_def)

subsection \<open>What one authenticated request authorizes\<close>

text \<open>The words of \<open>_ACTION_PATTERNS\<close>; the Chinese alternatives are code-point lists.\<close>

definition cjk :: "nat list list \<Rightarrow> rex" where
  "cjk ws = ralts (map RLit ws)"

definition an_opt :: rex where
  "an_opt = opt_re (rseqs [RLit (u ''a''), opt_re (RLit (u ''n'')), RSpace True])"

definition action_patterns :: "(pystr \<times> rex) list" where
  "action_patterns =
    [(u ''send'', RAlt (whole_words [''send'', ''forward'', ''deliver''])
        (cjk [[0x53d1, 0x9001], [0x767c, 0x9001], [0x53d1, 0x7ed9], [0x767c, 0x7d66],
              [0x5bc4, 0x7ed9], [0x5bc4, 0x7d66]])),
     (u ''publish'', RAlt (whole_words [''publish'', ''post'', ''release'', ''deploy''])
        (cjk [[0x53d1, 0x5e03], [0x767c, 0x4f48], [0x53d1, 0x5e16], [0x767c, 0x5e16],
              [0x4e0a, 0x7ebf], [0x4e0a, 0x7dda]])),
     (u ''submit'', RAlt (RAlt (whole_words [''submit'']) (whole_words [''apply'']))
        (cjk [[0x63d0, 0x4ea4], [0x7533, 0x8bf7], [0x7533, 0x8acb], [0x62a5, 0x540d], [0x5831, 0x540d]])),
     (u ''merge'', RAlt (whole_words [''merge'']) (cjk [[0x5408, 0x5e76], [0x5408, 0x4f75]])),
     (u ''invite'', RAlt (whole_words [''invite'']) (cjk [[0x9080, 0x8bf7], [0x9080, 0x8acb]])),
     (u ''delete'', RAlt (whole_words [''delete'', ''remove'', ''trash'', ''uninstall''])
        (cjk [[0x5220, 0x9664], [0x522a, 0x9664], [0x79fb, 0x9664], [0x5378, 0x8f7d],
              [0x89e3, 0x9664, 0x5b89, 0x88c5]])),
     (u ''upload'', RAlt (whole_words [''upload'', ''attach''])
        (cjk [[0x4e0a, 0x4f20], [0x4e0a, 0x50b3], [0x9644, 0x4ef6], [0x9644, 0x4e0a]])),
     (u ''connect'', RAlt
        (rseqs [RWordB, ralts [words_re [''connect'', ''authorize'', ''link''],
            rseqs [RLit (u ''sign''), opt_re (ROne [32, 45]), RLit (u ''in'')],
            rseqs [RLit (u ''log''), opt_re (ROne [32, 45]), RLit (u ''in'')]], RWordB])
        (cjk [[0x8fde, 0x63a5], [0x9023, 0x63a5], [0x6388, 0x6743], [0x6388, 0x6b0a],
              [0x767b, 0x5f55], [0x767b, 0x5165]])),
     (u ''register'', RAlt
        (rseqs [RWordB, ralts [words_re [''register''],
            rseqs [RLit (u ''sign''), opt_re (ROne [32, 45]), RLit (u ''up'')],
            rseqs [RLit (u ''create''), RSpace True, an_opt, RLit (u ''account'')]], RWordB])
        (cjk [[0x6ce8, 0x518c], [0x8a3b, 0x518a], [0x521b, 0x5efa, 0x8d26, 0x53f7],
              [0x5efa, 0x7acb, 0x5e33, 0x865f]])),
     (u ''verify'', RAlt
        (rseqs [RWordB, ralts [words_re [''verify'', ''verification'', ''otp''],
            rseqs [RLit (u ''one''), opt_re (ROne [32, 45]), RLit (u ''time code'')]], RWordB])
        (cjk [[0x9a8c, 0x8bc1], [0x9a57, 0x8b49], [0x9a8c, 0x8bc1, 0x7801], [0x9a57, 0x8b49, 0x78bc]])),
     (u ''purchase'', RAlt
        (whole_words [''buy'', ''purchase'', ''pay'', ''checkout'', ''subscribe'', ''order''])
        (cjk [[0x8d2d, 0x4e70], [0x8cfc, 0x8cb7], [0x4ed8, 0x6b3e], [0x652f, 0x4ed8],
              [0x8ba2, 0x9605], [0x8a02, 0x95b1], [0x4e0b, 0x5355], [0x4e0b, 0x55ae]])),
     (u ''grant_access'', RAlt
        (rseqs [RWordB, words_re [''grant'', ''approve'', ''allow''], RSpace True,
            words_re [''access'', ''permission'', ''admin''], RWordB])
        (cjk [[0x6388, 0x4e88, 0x6743, 0x9650], [0x6388, 0x4e88, 0x6b0a, 0x9650],
              [0x7ba1, 0x7406, 0x5458], [0x7ba1, 0x7406, 0x54e1]])),
     (u ''security_change'', RAlt
        (rseqs [RWordB, words_re [''change'', ''reset'', ''remove''], RSpace True,
            words_re [''password'', ''passkey'', ''mfa'', ''2fa'', ''security''], RWordB])
        (cjk [[0x4fee, 0x6539, 0x5bc6, 0x7801], [0x4fee, 0x6539, 0x5bc6, 0x78bc],
              [0x91cd, 0x7f6e, 0x5bc6, 0x7801], [0x91cd, 0x8a2d, 0x5bc6, 0x78bc],
              [0x5b89, 0x5168, 0x8bbe, 0x7f6e], [0x5b89, 0x5168, 0x8a2d, 0x5b9a]]))]"

text \<open>\<open>_plain_user_text\<close>: the text of one user message, a string or a list of content blocks.\<close>

definition block_text :: "pyhost \<Rightarrow> json \<Rightarrow> pystr list" where
  "block_text H b =
     (case b of
        JObj d \<Rightarrow>
          if List.member [JStr (u ''text''), JStr (u ''input_text'')] (dget_null d (u ''type''))
          then [str_or_empty H (dget_null d (u ''text''))] else []
      | _ \<Rightarrow> [])"

definition plain_user_text :: "pyhost \<Rightarrow> json \<Rightarrow> pystr" where
  "plain_user_text H v =
     (case v of
        JStr s \<Rightarrow> s
      | JList bs \<Rightarrow> join [10] (concat (map (block_text H) bs))
      | _ \<Rightarrow> [])"

text \<open>
  \<open>_email_addresses\<close>. The pattern \<open>(?<![\w.+-])[\w.+-]+@[\w.-]+\.[A-Za-z]{2,}(?![\w.-])\<close>
  can only match a whole run of local characters, an at sign, and a whole run of domain
  characters whose part after the last dot is at least two letters and whose part before
  it is not empty; \<open>findall\<close> goes on after the domain.
\<close>

definition local_cp :: "pyhost \<Rightarrow> nat \<Rightarrow> bool" where
  "local_cp H c \<longleftrightarrow> word_cp H c \<or> c = 46 \<or> c = 43 \<or> c = 45"

definition domain_cp :: "pyhost \<Rightarrow> nat \<Rightarrow> bool" where
  "domain_cp H c \<longleftrightarrow> word_cp H c \<or> c = 46 \<or> c = 45"

definition domain_ok :: "pystr \<Rightarrow> bool" where
  "domain_ok d =
     (let tld = rev (takeWhile (\<lambda>c. c \<noteq> 46) (rev d)) in
      2 \<le> length tld \<and> list_all is_alpha_cp tld \<and> length tld + 1 < length d)"

definition email_at :: "pyhost \<Rightarrow> pystr \<Rightarrow> (pystr \<times> pystr) option" where
  "email_at H s =
     (let l = takeWhile (local_cp H) s; r = dropWhile (local_cp H) s in
      if l = [] \<or> r = [] \<or> hd r \<noteq> 64 then None
      else
        let d = takeWhile (domain_cp H) (tl r) in
        if domain_ok d then Some (l @ 64 # d, dropWhile (domain_cp H) (tl r)) else None)"

lemma email_at_shorter: "email_at H s = Some (m, r) \<Longrightarrow> length r < length s"
proof -
  assume "email_at H s = Some (m, r)"
  then have "r = dropWhile (domain_cp H) (tl (dropWhile (local_cp H) s))" "dropWhile (local_cp H) s \<noteq> []"
    by (auto simp: email_at_def Let_def split: if_splits)
  then show ?thesis
    by (metis diff_less le_less_trans length_dropWhile_le length_greater_0_conv length_tl
        less_le_trans zero_less_one)
qed

function email_scan :: "pyhost \<Rightarrow> bool \<Rightarrow> pystr \<Rightarrow> pystr list" where
  "email_scan H before [] = []"
| "email_scan H before (c # s) =
     (if before then email_scan H (local_cp H c) s
      else (case email_at H (c # s) of
              None \<Rightarrow> email_scan H (local_cp H c) s
            | Some (m, r) \<Rightarrow> m # email_scan H True r))"
  by pat_completeness auto
termination
  by (relation "measure (\<lambda>(H, b, s). length s)") (auto dest: email_at_shorter)

definition email_addresses :: "pyhost \<Rightarrow> pystr \<Rightarrow> pystr list" where
  "email_addresses H s = dedup (map (py_lower H) (email_scan H False s))"

record request_authority =
  ra_actions :: "pystr set"
  ra_recipients :: "pystr list"
  ra_request_sha256 :: pystr
  ra_explicit :: bool

definition no_request :: request_authority where
  "no_request = \<lparr>ra_actions = {}, ra_recipients = [], ra_request_sha256 = [], ra_explicit = False\<rparr>"

definition compile_request :: "pyhost \<Rightarrow> json \<Rightarrow> request_authority" where
  "compile_request H user_message =
     (let text = strip (plain_user_text H user_message); normalized = casefold H text in
      \<lparr>ra_actions = set (map fst (filter (\<lambda>(_, re). search H re normalized) action_patterns)),
       ra_recipients = email_addresses H text,
       ra_request_sha256 = (if text = [] then [] else sha256_hex H text),
       ra_explicit = (text \<noteq> [])\<rparr>)"

definition request_allows :: "pyhost \<Rightarrow> request_authority \<Rightarrow> action_intent \<Rightarrow> bool" where
  "request_allows H req i =
     (if ai_action i \<notin> ra_actions req then False
      else if ra_recipients req \<noteq> [] \<and> ai_recipients i \<noteq> []
         \<and> \<not> casefold H ` set (ai_recipients i) \<subseteq> set (ra_recipients req)
      then False else True)"

record authority_context =
  cx_request :: request_authority
  cx_project :: pystr
  cx_mission_id :: pystr
  cx_workflow_id :: pystr
  cx_mode :: pystr

subsection \<open>Grants\<close>

record grant =
  g_id :: pystr
  g_scope :: grant_scope
  g_action :: pystr
  g_project :: pystr
  g_mission_id :: pystr
  g_workflow_id :: pystr
  g_connection_id :: pystr
  g_target :: pystr
  g_account :: pystr
  g_recipients :: "pystr list"
  g_max_amount :: "rat option"
  g_currency :: pystr
  g_expires_at :: int
  g_uses_left :: int
  g_source :: pystr
  g_created_at :: int
  g_revoked_at :: int

definition same_or_unset :: "pyhost \<Rightarrow> pystr \<Rightarrow> pystr \<Rightarrow> bool" where
  "same_or_unset H bound actual \<longleftrightarrow>
     bound = [] \<or> actual \<noteq> [] \<and> casefold H bound = casefold H actual"

text \<open>\<open>amount is None or amount > limit\<close>; a comparison with NaN is false.\<close>

definition exceeds :: "amount \<Rightarrow> rat \<Rightarrow> bool" where
  "exceeds a limit =
     (case a of
        NoAmount \<Rightarrow> True
      | AmountBool b \<Rightarrow> limit < (if b then 1 else 0)
      | Amount (Fin q) \<Rightarrow> limit < q
      | Amount PosInf \<Rightarrow> True
      | Amount _ \<Rightarrow> False)"

definition recipients_match :: "pyhost \<Rightarrow> grant \<Rightarrow> action_intent \<Rightarrow> authority_context \<Rightarrow> bool" where
  "recipients_match H g i cx =
     (if g_recipients g = [] then True
      else
        let actual = (if ai_recipients i \<noteq> [] then ai_recipients i
                      else ra_recipients (cx_request cx)) in
        actual \<noteq> [] \<and> casefold H ` set actual \<subseteq> casefold H ` set (g_recipients g))"

definition amount_matches :: "pyhost \<Rightarrow> grant \<Rightarrow> action_intent \<Rightarrow> bool" where
  "amount_matches H g i =
     (case g_max_amount g of
        None \<Rightarrow> True
      | Some limit \<Rightarrow>
          \<not> exceeds (ai_amount i) limit
          \<and> (g_currency g = [] \<or> casefold H (g_currency g) = casefold H (ai_currency i)))"

definition grant_matches :: "pyhost \<Rightarrow> grant \<Rightarrow> action_intent \<Rightarrow> authority_context \<Rightarrow> int \<Rightarrow> bool" where
  "grant_matches H g i cx now =
     (if g_revoked_at g \<noteq> 0 \<or> g_expires_at g \<noteq> 0 \<and> g_expires_at g \<le> now then False
      else if g_uses_left g < 0 \<or> g_action g \<noteq> ai_action i then False
      else if \<not> same_or_unset H (g_project g) (cx_project cx) then False
      else if \<not> same_or_unset H (g_mission_id g) (cx_mission_id cx) then False
      else if \<not> same_or_unset H (g_workflow_id g) (cx_workflow_id cx) then False
      else if \<not> same_or_unset H (g_connection_id g) (ai_connection_id i) then False
      else if \<not> same_or_unset H (g_target g) (ai_target i) then False
      else if \<not> same_or_unset H (g_account g) (ai_account i) then False
      else if \<not> recipients_match H g i cx then False
      else amount_matches H g i)"

subsection \<open>The ledger\<close>

text \<open>
  The table \<open>authority_grants\<close>: the rows in insertion order. The column \<open>recipients_json\<close>
  is the list it encodes, or \<open>None\<close> when it does not decode; \<open>_row\<close> reads that as no
  recipients. Times are the values of \<open>int(time.time())\<close> at the call, and the new id is
  the \<open>uuid4().hex\<close> drawn.
\<close>

record grant_row =
  row_grant :: grant
  row_recipients :: "pystr list option"

type_synonym grant_db = "grant_row list"

definition decode_row :: "grant_row \<Rightarrow> grant" where
  "decode_row r = (row_grant r)\<lparr>g_recipients := (case row_recipients r of None \<Rightarrow> [] | Some xs \<Rightarrow> xs)\<rparr>"

record grant_request =
  gr_scope :: grant_scope
  gr_action :: pystr
  gr_project :: pystr
  gr_mission_id :: pystr
  gr_workflow_id :: pystr
  gr_connection_id :: pystr
  gr_target :: pystr
  gr_account :: pystr
  gr_recipients :: "pystr list"
  gr_max_amount :: "rat option"
  gr_currency :: pystr
  gr_expires_at :: int
  gr_uses_left :: int
  gr_source :: pystr

definition make_grant :: "pyhost \<Rightarrow> grant_request \<Rightarrow> pystr \<Rightarrow> int \<Rightarrow> grant" where
  "make_grant H r new_id now = \<lparr>
     g_id = new_id, g_scope = gr_scope r, g_action = take 100 (gr_action r),
     g_project = take 200 (gr_project r), g_mission_id = take 200 (gr_mission_id r),
     g_workflow_id = take 200 (gr_workflow_id r),
     g_connection_id = take 200 (gr_connection_id r), g_target = take 300 (gr_target r),
     g_account = take 200 (gr_account r),
     g_recipients = dedup (map (take 200) (filter (\<lambda>x. x \<noteq> []) (gr_recipients r))),
     g_max_amount = gr_max_amount r, g_currency = py_upper H (take 12 (gr_currency r)),
     g_expires_at = gr_expires_at r, g_uses_left = gr_uses_left r,
     g_source = take 80 (or_str (gr_source r) (u ''user'')),
     g_created_at = now, g_revoked_at = 0\<rparr>"

lemma make_grant_simps [simp]:
  "g_id (make_grant H r gid now) = gid" "g_scope (make_grant H r gid now) = gr_scope r"
  "g_action (make_grant H r gid now) = take 100 (gr_action r)"
  "g_project (make_grant H r gid now) = take 200 (gr_project r)"
  "g_mission_id (make_grant H r gid now) = take 200 (gr_mission_id r)"
  "g_workflow_id (make_grant H r gid now) = take 200 (gr_workflow_id r)"
  "g_connection_id (make_grant H r gid now) = take 200 (gr_connection_id r)"
  "g_target (make_grant H r gid now) = take 300 (gr_target r)"
  "g_account (make_grant H r gid now) = take 200 (gr_account r)"
  "g_max_amount (make_grant H r gid now) = gr_max_amount r"
  "g_expires_at (make_grant H r gid now) = gr_expires_at r"
  "g_uses_left (make_grant H r gid now) = gr_uses_left r" "g_revoked_at (make_grant H r gid now) = 0"
  by (simp_all add: make_grant_def)

definition add_grant :: "pyhost \<Rightarrow> grant_db \<Rightarrow> grant_request \<Rightarrow> pystr \<Rightarrow> int
    \<Rightarrow> (grant \<times> grant_db) result" where
  "add_grant H db r new_id now =
     (let g = make_grant H r new_id now in
      if g_action g = [] then Inl (ValueError ''grant action is required'')
      else if new_id \<in> g_id ` row_grant ` set db then Inl (OtherError ''IntegrityError'')
      else Inr (g, db @ [\<lparr>row_grant = g, row_recipients = Some (g_recipients g)\<rparr>]))"

text \<open>
  \<open>UPDATE authority_grants SET uses_left=0 WHERE id=? AND uses_left=1\<close>: whether a row
  changed, and the table after it.
\<close>

definition row_is :: "pystr \<Rightarrow> (grant \<Rightarrow> bool) \<Rightarrow> grant_row \<Rightarrow> bool" where
  "row_is gid P r \<longleftrightarrow> g_id (row_grant r) = gid \<and> P (row_grant r)"

definition update_grants :: "pystr \<Rightarrow> (grant \<Rightarrow> bool) \<Rightarrow> (grant \<Rightarrow> grant) \<Rightarrow> grant_db \<Rightarrow> bool \<times> grant_db" where
  "update_grants gid P f db =
     (length (filter (row_is gid P) db) = 1,
      map (\<lambda>r. if row_is gid P r then r\<lparr>row_grant := f (row_grant r)\<rparr> else r) db)"

definition consume_once :: "pystr \<Rightarrow> grant_db \<Rightarrow> bool \<times> grant_db" where
  "consume_once gid db = update_grants gid (\<lambda>g. g_uses_left g = 1) (\<lambda>g. g\<lparr>g_uses_left := 0\<rparr>) db"

text \<open>
  The loop of \<open>matching\<close> over the rows its query returned. The table it updates need not
  be the one it read: another process may have changed it in between.
\<close>

fun match_loop :: "pyhost \<Rightarrow> action_intent \<Rightarrow> authority_context \<Rightarrow> int \<Rightarrow> grant_row list \<Rightarrow> grant_db
    \<Rightarrow> grant option \<times> grant_db" where
  "match_loop H i cx now [] db = (None, db)"
| "match_loop H i cx now (row # rows) db =
     (let g = decode_row row in
      if \<not> grant_matches H g i cx now then match_loop H i cx now rows db
      else if g_scope g = S_ONCE then
        (if g_uses_left g \<noteq> 1 then match_loop H i cx now rows db
         else case consume_once (g_id g) db of
                (changed, db') \<Rightarrow> if changed then (Some g, db') else match_loop H i cx now rows db')
      else (Some g, db))"

definition match_rows :: "grant_db \<Rightarrow> pystr \<Rightarrow> grant_row list" where
  "match_rows db act = sort_key (\<lambda>r. - g_created_at (row_grant r))
     (filter (\<lambda>r. g_action (row_grant r) = act \<and> g_revoked_at (row_grant r) = 0) db)"

definition matching :: "pyhost \<Rightarrow> grant_db \<Rightarrow> action_intent \<Rightarrow> authority_context \<Rightarrow> int
    \<Rightarrow> grant option \<times> grant_db" where
  "matching H db i cx now = match_loop H i cx now (match_rows db (ai_action i)) db"

definition revoke_grant :: "pystr \<Rightarrow> int \<Rightarrow> grant_db \<Rightarrow> bool \<times> grant_db" where
  "revoke_grant gid now db = update_grants gid (\<lambda>g. g_revoked_at g = 0) (\<lambda>g. g\<lparr>g_revoked_at := now\<rparr>) db"

definition list_grants :: "grant_db \<Rightarrow> bool \<Rightarrow> grant list" where
  "list_grants db include_revoked = map decode_row (sort_key (\<lambda>r. - g_created_at (row_grant r))
     (filter (\<lambda>r. include_revoked \<or> g_revoked_at (row_grant r) = 0) db))"

subsection \<open>The engine\<close>

record authority_result =
  ar_decision :: auth_decision
  ar_reason :: pystr
  ar_basis :: pystr
  ar_grant_id :: pystr

definition auth_result :: "auth_decision \<Rightarrow> pystr \<Rightarrow> authority_result" where
  "auth_result d why = \<lparr>ar_decision = d, ar_reason = why, ar_basis = [], ar_grant_id = []\<rparr>"

text \<open>
  The engine asks its store one thing, \<open>matching\<close>; the store is an argument, \<open>None\<close>
  when the engine has none, and so is its lookup.
\<close>

type_synonym 's grant_lookup =
  "'s \<Rightarrow> action_intent \<Rightarrow> authority_context \<Rightarrow> int \<Rightarrow> grant option \<times> 's"

definition decide :: "pyhost \<Rightarrow> 's grant_lookup \<Rightarrow> 's option \<Rightarrow> action_intent \<Rightarrow> authority_context
    \<Rightarrow> int \<Rightarrow> authority_result \<times> 's option" where
  "decide H lookup store intent cx now =
     (let i = bounded H intent in
      if ai_effect i = OBSERVE then (auth_result ALLOW_SILENT (u ''observational action''), store)
      else if cx_mode cx = u ''review''
      then (auth_result ASK (u ''review mode examines every external change''), store)
      else if ai_effect i = PREPARE then (auth_result ALLOW_SILENT (u ''reversible preparation''), store)
      else if ai_effect i = ACT
      then ((auth_result ALLOW_NOTIFY (u ''scoped reversible action''))\<lparr>ar_basis := u ''task scope''\<rparr>, store)
      else
        let (found, store') =
          (case store of
             None \<Rightarrow> (None, None)
           | Some db \<Rightarrow> (case lookup db i cx now of (g, db') \<Rightarrow> (g, Some db'))) in
        case found of
          Some g \<Rightarrow>
            (\<lparr>ar_decision = ALLOW_NOTIFY,
              ar_reason = u ''allowed by stored '' @ scope_value (g_scope g) @ u '' grant'',
              ar_basis = u ''stored grant'', ar_grant_id = g_id g\<rparr>, store')
        | None \<Rightarrow>
            if ai_effect i = COMMIT \<and> request_allows H (cx_request cx) i
            then ((auth_result ALLOW_NOTIFY (u ''the authenticated user explicitly requested this result''))
                    \<lparr>ar_basis := u ''user request:'' @ take 12 (ra_request_sha256 (cx_request cx))\<rparr>, store')
            else if ai_effect i = RESTRICTED
            then (auth_result NEEDS_PERSON
                    (or_str (ai_reason i) (u ''identity, legal, security, or spending boundary'')), store')
            else (auth_result ASK
                    (u ''the result was not explicitly authorized by the user or a stored policy''), store'))"

subsection \<open>Bounds\<close>

lemma set_filter_map_short:
  "x \<in> set (filter (\<lambda>x. x \<noteq> []) (map (\<lambda>x. short_text x n) xs)) \<Longrightarrow> x \<noteq> [] \<and> length x \<le> n"
  by (auto simp: length_short_text)

lemma length_py_upper_ascii: "is_ascii s \<Longrightarrow> length (py_upper H s) = length s"
  by (simp add: py_upper_def)

lemma is_ascii_short: "is_ascii s \<Longrightarrow> is_ascii (short_text s n)"
  by (auto simp: is_ascii_def list_all_iff short_text_def dest!: in_set_takeD subsetD [OF set_strip])

lemma bounded_limits:
  "length (ai_action (bounded H i)) \<le> 100 \<and> length (ai_target (bounded H i)) \<le> 300
   \<and> length (ai_account (bounded H i)) \<le> 200 \<and> length (ai_resource (bounded H i)) \<le> 300
   \<and> length (ai_connection_id (bounded H i)) \<le> 160 \<and> length (ai_reason (bounded H i)) \<le> 500
   \<and> length (ai_recipients (bounded H i)) \<le> 100
   \<and> list_all (\<lambda>x. x \<noteq> [] \<and> length x \<le> 200) (ai_recipients (bounded H i))
   \<and> (ai_amount (bounded H i) = NoAmount
      \<or> (\<exists>q. ai_amount (bounded H i) = Amount (Fin q) \<and> \<bar>q\<bar> < 1000000000000))
   \<and> (\<exists>q. ai_confidence (bounded H i) = Fin q \<and> 0 \<le> q \<and> q \<le> 1)
   \<and> (is_ascii (ai_currency i) \<longrightarrow> length (ai_currency (bounded H i)) \<le> 12)
   \<and> ai_effect (bounded H i) = ai_effect i \<and> ai_metadata (bounded H i) = []"
proof -
  have n: "length (filter (\<lambda>x. x \<noteq> []) (map (\<lambda>x. short_text x 200) (take 100 (ai_recipients i)))) \<le> 100"
    by (rule order_trans [OF length_filter_le]) simp
  have r: "list_all (\<lambda>x. x \<noteq> [] \<and> length x \<le> 200)
      (filter (\<lambda>x. x \<noteq> []) (map (\<lambda>x. short_text x 200) (take 100 (ai_recipients i))))"
    unfolding list_all_iff using set_filter_map_short by blast
  have a: "bounded_amount (ai_amount i) = NoAmount
      \<or> (\<exists>q. bounded_amount (ai_amount i) = Amount (Fin q) \<and> \<bar>q\<bar> < 1000000000000)"
    by (auto simp: bounded_amount_def abs_less_iff split: amount.splits pyfloat.splits)
  have c: "\<exists>q. clamp01 (ai_confidence i) = Fin q \<and> 0 \<le> q \<and> q \<le> 1"
    by (cases "ai_confidence i") (auto simp: clamp01_def)
  have cur: "is_ascii (ai_currency i) \<longrightarrow> length (py_upper H (short_text (ai_currency i) 12)) \<le> 12"
    by (simp add: length_py_upper_ascii is_ascii_short length_short_text)
  show ?thesis
    using n r a c cur by (simp add: bounded_def length_short_text)
qed

text \<open>
  \<open>bounded\<close> bounds every field that policy and audit keep: the texts by
  their limits, at most 100 recipients of at most 200 characters and none empty, an amount
  that is absent or a number strictly within \<open>\<plusminus>10^12\<close>, a confidence between 0
  and 1, no metadata; and the effect is never changed. (An ASCII currency is at most 12
  characters; \<open>upper()\<close> can lengthen others.)
\<close>

theorem bounded_within_limits:
  "length (ai_action (bounded H i)) \<le> 100 \<and> length (ai_target (bounded H i)) \<le> 300
   \<and> length (ai_account (bounded H i)) \<le> 200 \<and> length (ai_resource (bounded H i)) \<le> 300
   \<and> length (ai_connection_id (bounded H i)) \<le> 160 \<and> length (ai_reason (bounded H i)) \<le> 500
   \<and> length (ai_recipients (bounded H i)) \<le> 100
   \<and> list_all (\<lambda>x. x \<noteq> [] \<and> length x \<le> 200) (ai_recipients (bounded H i))
   \<and> (ai_amount (bounded H i) = NoAmount
      \<or> (\<exists>q. ai_amount (bounded H i) = Amount (Fin q) \<and> \<bar>q\<bar> < 1000000000000))
   \<and> (\<exists>q. ai_confidence (bounded H i) = Fin q \<and> 0 \<le> q \<and> q \<le> 1)
   \<and> (is_ascii (ai_currency i) \<longrightarrow> length (ai_currency (bounded H i)) \<le> 12)
   \<and> ai_effect (bounded H i) = ai_effect i \<and> ai_metadata (bounded H i) = []"
  by (rule bounded_limits)

theorem bounded_within_limits_witness:
  "length (ai_currency (bounded ascii_host ((intent0 (u ''send'') COMMIT)
      \<lparr>ai_currency := u ''  dollars of account''\<rparr>))) \<le> 12"
  using bounded_within_limits [of ascii_host "(intent0 (u ''send'') COMMIT)
      \<lparr>ai_currency := u ''  dollars of account''\<rparr>"]
  by (simp add: is_ascii_def u_def)

subsection \<open>Grants: what a match means\<close>

lemmas grant_match_defs = grant_matches_def recipients_match_def amount_matches_def

lemma grant_matches_unrevoked: "grant_matches H g i cx now \<Longrightarrow> g_revoked_at g = 0"
  by (auto simp: grant_matches_def split: if_splits)

lemma grant_matches_D:
  assumes "grant_matches H g i cx now"
  shows "g_revoked_at g = 0" "g_expires_at g = 0 \<or> now < g_expires_at g" "0 \<le> g_uses_left g"
    "g_action g = ai_action i" "same_or_unset H (g_project g) (cx_project cx)"
    "same_or_unset H (g_mission_id g) (cx_mission_id cx)"
    "same_or_unset H (g_workflow_id g) (cx_workflow_id cx)"
    "same_or_unset H (g_connection_id g) (ai_connection_id i)"
    "same_or_unset H (g_target g) (ai_target i)" "same_or_unset H (g_account g) (ai_account i)"
    "recipients_match H g i cx" "amount_matches H g i"
  using assms unfolding grant_matches_def by (auto split: if_splits)

text \<open>
  What a stored grant can authorize: a grant that names a target, an account,
  a mission, recipients or a limit only matches an intent with that target, account and
  mission (up to case), whose recipients are among the grant's, and whose amount is known
  and not above the limit; a revoked or expired grant matches nothing.
\<close>

theorem grant_scope_bounds_use:
  assumes "grant_matches H g i cx now"
  shows "g_revoked_at g = 0 \<and> (g_expires_at g = 0 \<or> now < g_expires_at g)
    \<and> (g_target g \<noteq> [] \<longrightarrow> casefold H (ai_target i) = casefold H (g_target g))
    \<and> (g_account g \<noteq> [] \<longrightarrow> casefold H (ai_account i) = casefold H (g_account g))
    \<and> (g_mission_id g \<noteq> [] \<longrightarrow> casefold H (cx_mission_id cx) = casefold H (g_mission_id g))
    \<and> (g_recipients g \<noteq> [] \<longrightarrow> (\<forall>x \<in> set (ai_recipients i). casefold H x \<in> casefold H ` set (g_recipients g)))
    \<and> (\<forall>limit q. g_max_amount g = Some limit \<longrightarrow> ai_amount i = Amount (Fin q) \<longrightarrow> q \<le> limit)
    \<and> (g_max_amount g \<noteq> None \<longrightarrow> ai_amount i \<noteq> NoAmount)"
proof -
  note D = grant_matches_D [OF assms]
  have same: "casefold H a = casefold H b" if "same_or_unset H b a" "b \<noteq> []" for a b
    using that by (simp add: same_or_unset_def)
  have rec: "\<forall>x \<in> set (ai_recipients i). casefold H x \<in> casefold H ` set (g_recipients g)"
    if "g_recipients g \<noteq> []"
    using D(11) that by (auto simp: recipients_match_def Let_def split: if_splits)
  have amt: "\<not> exceeds (ai_amount i) limit" if "g_max_amount g = Some limit" for limit
    using D(12) that by (simp add: amount_matches_def)
  show ?thesis
    using D(1,2) same [OF D(9)] same [OF D(10)] same [OF D(6)] rec amt
    by (auto simp: exceeds_def)
qed

subsection \<open>The ledger: where a returned grant comes from\<close>

definition grants_of :: "grant_db \<Rightarrow> grant set" where
  "grants_of db = decode_row ` set db"

lemma match_loop_in:
  "match_loop H i cx now rows db = (Some g, db') \<Longrightarrow>
     g \<in> decode_row ` set rows \<and> grant_matches H g i cx now"
  by (induction H i cx now rows db rule: match_loop.induct)
    (auto simp: Let_def split: if_splits prod.splits)

lemma matching_in:
  "matching H db i cx now = (Some g, db') \<Longrightarrow> g \<in> grants_of db \<and> grant_matches H g i cx now"
  by (auto simp: matching_def match_rows_def grants_of_def dest!: match_loop_in)

subsection \<open>The engine over any ledger\<close>

text \<open>
  The contract the engine relies on: what the ledger's lookup returns is a grant of the
  ledger that matches the intent. The engine's lemmas hold over any such ledger.
\<close>

definition allows :: "authority_result \<Rightarrow> bool" where
  "allows r \<longleftrightarrow> ar_decision r = ALLOW_SILENT \<or> ar_decision r = ALLOW_NOTIFY"

lemma allows_simps [simp]:
  "allows (auth_result d w) \<longleftrightarrow> d = ALLOW_SILENT \<or> d = ALLOW_NOTIFY"
  "allows (r\<lparr>ar_basis := b\<rparr>) \<longleftrightarrow> allows r"
  by (simp_all add: allows_def auth_result_def)

locale grant_ledger =
  fixes H :: pyhost
    and lookup :: "'s grant_lookup"
    and holds :: "'s \<Rightarrow> grant \<Rightarrow> bool"
  assumes lookup_sound:
    "lookup s i cx now = (Some g, s') \<Longrightarrow> holds s g \<and> grant_matches H g i cx now"
begin

lemma allow_reasons:
  assumes "decide H lookup store i cx now = (r, store')" "allows r"
  shows "ai_effect i = OBSERVE
    \<or> (ai_effect i = PREPARE \<or> ai_effect i = ACT) \<and> cx_mode cx \<noteq> u ''review''
    \<or> cx_mode cx \<noteq> u ''review'' \<and> (\<exists>s g. store = Some s \<and> holds s g
         \<and> grant_matches H g (bounded H i) cx now \<and> ar_grant_id r = g_id g)
    \<or> ai_effect i = COMMIT \<and> cx_mode cx \<noteq> u ''review''
        \<and> request_allows H (cx_request cx) (bounded H i)"
proof (cases store)
  case None
  with assms show ?thesis
    by (auto simp: decide_def Let_def auth_result_def allows_def split: if_splits)
next
  case (Some s)
  obtain f s' where l: "lookup s (bounded H i) cx now = (f, s')" by fastforce
  show ?thesis
  proof (cases f)
    case None
    with Some l assms show ?thesis
      by (auto simp: decide_def Let_def auth_result_def allows_def split: if_splits)
  next
    case g: (Some g)
    with lookup_sound l have "holds s g" "grant_matches H g (bounded H i) cx now" by blast+
    with Some l g assms show ?thesis
      by (cases "ai_effect i")
        (auto simp: decide_def Let_def auth_result_def allows_def split: if_splits)
  qed
qed

lemma never_denies: "ar_decision (fst (decide H lookup store i cx now)) \<noteq> DENY"
  by (auto simp: decide_def Let_def auth_result_def split: if_splits option.splits prod.splits)

lemma review_asks:
  assumes "cx_mode cx = u ''review''" "ai_effect i \<noteq> OBSERVE"
  shows "decide H lookup store i cx now
    = (auth_result ASK (u ''review mode examines every external change''), store)"
  using assms by (simp add: decide_def Let_def)

lemma restricted_without_grant:
  assumes "ai_effect i = RESTRICTED" "cx_mode cx \<noteq> u ''review''"
    and "\<forall>s g. store = Some s \<longrightarrow> holds s g \<longrightarrow> \<not> grant_matches H g (bounded H i) cx now"
  shows "ar_decision (fst (decide H lookup store i cx now)) = NEEDS_PERSON"
proof (cases store)
  case None
  with assms show ?thesis by (simp add: decide_def Let_def auth_result_def)
next
  case (Some s)
  obtain f s' where l: "lookup s (bounded H i) cx now = (f, s')" by fastforce
  with lookup_sound assms(3) Some have "f = None" by (metis option.exhaust)
  with l Some assms(1,2) show ?thesis by (simp add: decide_def Let_def auth_result_def)
qed

end

interpretation ledger: grant_ledger H "matching H" "\<lambda>db g. g \<in> grants_of db" for H
  by unfold_locales (rule matching_in)

abbreviation engine :: "pyhost \<Rightarrow> grant_db option \<Rightarrow> action_intent \<Rightarrow> authority_context \<Rightarrow> int
    \<Rightarrow> authority_result \<times> grant_db option" where
  "engine H \<equiv> decide H (matching H)"

text \<open>
  Why the engine ever allows a call: it only observes, or outside review mode
  it prepares or acts reversibly, or a stored grant that matches it is in the ledger, or it
  is a commit the authenticated request asked for. The engine never answers \<open>DENY\<close>.
\<close>

theorem engine_allow_reasons:
  assumes "allows (fst (engine H store i cx now))"
  shows "(ai_effect i = OBSERVE
      \<or> (ai_effect i = PREPARE \<or> ai_effect i = ACT) \<and> cx_mode cx \<noteq> u ''review''
      \<or> cx_mode cx \<noteq> u ''review'' \<and> (\<exists>db g. store = Some db \<and> g \<in> grants_of db
           \<and> grant_matches H g (bounded H i) cx now
           \<and> ar_grant_id (fst (engine H store i cx now)) = g_id g)
      \<or> ai_effect i = COMMIT \<and> cx_mode cx \<noteq> u ''review''
          \<and> request_allows H (cx_request cx) (bounded H i))
    \<and> ar_decision (fst (engine H store i cx now)) \<noteq> DENY"
  using ledger.allow_reasons [of H store i cx now, OF prod.collapse [symmetric] assms]
    ledger.never_denies by auto

definition send_ctx :: authority_context where
  "send_ctx = \<lparr>cx_request = no_request\<lparr>ra_actions := {u ''send''}\<rparr>, cx_project = [], cx_mission_id = [],
     cx_workflow_id = [], cx_mode = u ''hands_off''\<rparr>"

lemma bounded_send [simp]: "ai_action (bounded H (intent0 (u ''send'') COMMIT)) = u ''send''"
  by (simp add: bounded_def intent0_def short_text_def strip_def space_cp_def u_def)

lemma bounded_send_recipients [simp]: "ai_recipients (bounded H (intent0 a e)) = []"
  by (simp add: bounded_def intent0_def)

lemma intent0_simps [simp]: "ai_effect (intent0 a e) = e" "ai_action (intent0 a e) = a"
  by (simp_all add: intent0_def)

theorem engine_allow_reasons_witness:
  "allows (fst (engine ascii_host None (intent0 (u ''send'') COMMIT) send_ctx 0))
   \<and> request_allows ascii_host (cx_request send_ctx) (bounded ascii_host (intent0 (u ''send'') COMMIT))"
proof -
  have a: "allows (fst (engine ascii_host None (intent0 (u ''send'') COMMIT) send_ctx 0))"
    by (simp add: decide_def Let_def send_ctx_def request_allows_def)
  from engine_allow_reasons [OF a] a show ?thesis by auto
qed

text \<open>
  Restricted effects (identity, legal, security, spending) are never allowed by
  the request's words: without a matching grant in the ledger the engine asks for the person.
\<close>

theorem restricted_needs_person:
  assumes "ai_effect i = RESTRICTED" "cx_mode cx \<noteq> u ''review''"
    and "\<forall>db g. store = Some db \<longrightarrow> g \<in> grants_of db \<longrightarrow> \<not> grant_matches H g (bounded H i) cx now"
  shows "ar_decision (fst (engine H store i cx now)) = NEEDS_PERSON"
  using ledger.restricted_without_grant [OF assms] .

theorem restricted_needs_person_witness:
  "ar_decision (fst (engine ascii_host (Some [])
      (intent0 (u ''send'') RESTRICTED) send_ctx 0)) = NEEDS_PERSON"
  by (rule restricted_needs_person) (simp_all add: send_ctx_def grants_of_def)

text \<open>
  Review mode examines every effect but observation: the answer is to ask, no
  grant is consulted and none is consumed.
\<close>

theorem review_mode_asks:
  assumes "cx_mode cx = u ''review''" "ai_effect i \<noteq> OBSERVE"
  shows "engine H store i cx now
    = (auth_result ASK (u ''review mode examines every external change''), store)"
  using assms by (rule ledger.review_asks)

theorem review_mode_asks_witness:
  "engine ascii_host (Some []) (intent0 (u ''send'') ACT) (send_ctx\<lparr>cx_mode := u ''review''\<rparr>) 0
   = (auth_result ASK (u ''review mode examines every external change''), Some [])"
  by (rule review_mode_asks) simp_all

subsection \<open>One-shot grants\<close>

definition ids_distinct :: "grant_db \<Rightarrow> bool" where
  "ids_distinct db \<longleftrightarrow> distinct (map (\<lambda>r. g_id (row_grant r)) db)"

definition has_row :: "grant_db \<Rightarrow> pystr \<Rightarrow> (grant \<Rightarrow> bool) \<Rightarrow> bool" where
  "has_row db gid Q \<longleftrightarrow> (\<exists>r \<in> set db. g_id (row_grant r) = gid \<and> Q (row_grant r))"

definition unspent :: "grant_db \<Rightarrow> pystr \<Rightarrow> bool" where
  "unspent db gid \<longleftrightarrow> \<not> has_row db gid (\<lambda>g. g_uses_left g \<noteq> 1)"

definition revoked_in :: "grant_db \<Rightarrow> pystr \<Rightarrow> bool" where
  "revoked_in db gid \<longleftrightarrow> has_row db gid (\<lambda>g. g_revoked_at g \<noteq> 0)"

lemma update_grants_ids:
  assumes "\<And>g. g_id (f g) = g_id g"
  shows "map (\<lambda>r. g_id (row_grant r)) (snd (update_grants gid P f db)) = map (\<lambda>r. g_id (row_grant r)) db"
  using assms by (simp add: update_grants_def)

lemma count_row_is:
  "ids_distinct db \<Longrightarrow> length (filter (row_is gid P) db) \<noteq> 1 \<Longrightarrow> filter (row_is gid P) db = []"
proof (induction db)
  case (Cons r db)
  show ?case
  proof (cases "row_is gid P r")
    case True
    with Cons.prems(1) have "filter (row_is gid P) db = []"
      by (auto simp: ids_distinct_def row_is_def filter_empty_conv image_iff)
    with True Cons.prems(2) show ?thesis by simp
  next
    case False
    with Cons show ?thesis by (simp add: ids_distinct_def)
  qed
qed simp

lemma update_grants_False:
  "ids_distinct db \<Longrightarrow> update_grants gid P f db = (False, db') \<Longrightarrow> db' = db"
proof -
  assume a: "ids_distinct db" "update_grants gid P f db = (False, db')"
  then have "length (filter (row_is gid P) db) \<noteq> 1" by (simp add: update_grants_def)
  with a(1) have "filter (row_is gid P) db = []" by (rule count_row_is)
  then have "\<forall>r \<in> set db. \<not> row_is gid P r" by (simp add: filter_empty_conv)
  then have "map (\<lambda>r. if row_is gid P r then r\<lparr>row_grant := f (row_grant r)\<rparr> else r) db = db"
    by (intro map_idI) simp
  with a(2) show ?thesis by (simp add: update_grants_def)
qed

lemma update_grants_True:
  assumes "update_grants gid P f db = (True, db')"
  shows "\<exists>r \<in> set db. row_is gid P r"
proof -
  have "filter (row_is gid P) db \<noteq> []" using assms by (auto simp: update_grants_def)
  then show ?thesis by (auto simp: filter_empty_conv)
qed

lemma set_update_grants:
  "set (snd (update_grants gid P f db))
   = (\<lambda>r. if row_is gid P r then r\<lparr>row_grant := f (row_grant r)\<rparr> else r) ` set db"
  by (simp add: update_grants_def)

lemma ids_distinct_same:
  "ids_distinct db \<Longrightarrow> r \<in> set db \<Longrightarrow> r' \<in> set db \<Longrightarrow> g_id (row_grant r) = g_id (row_grant r') \<Longrightarrow> r = r'"
  by (auto simp: ids_distinct_def distinct_map inj_on_def)

lemma match_loop_cases:
  "ids_distinct db \<Longrightarrow> match_loop H i cx now rows db = (res, db') \<Longrightarrow>
     db' = db \<and> (\<forall>g. res = Some g \<longrightarrow> g_scope g \<noteq> S_ONCE)
     \<or> (\<exists>g. res = Some g \<and> g_scope g = S_ONCE \<and> consume_once (g_id g) db = (True, db'))"
proof (induction H i cx now rows db rule: match_loop.induct)
  case (2 H i cx now row rows db)
  let ?g = "decode_row row"
  let ?c = "grant_matches H ?g i cx now" and ?o = "g_scope ?g = S_ONCE" and ?n = "g_uses_left ?g = 1"
  consider "\<not> ?c" | "?c" "?o" "\<not> ?n" | "?c" "?o" "?n" | "?c" "\<not> ?o" by blast
  then show ?case
  proof cases
    case 1
    then show ?thesis using 2 by (simp add: Let_def)
  next
    case c: 2
    then show ?thesis using 2 by (simp add: Let_def)
  next
    case c: 3
    obtain w d where w: "consume_once (g_id ?g) db = (w, d)" by fastforce
    show ?thesis
    proof (cases w)
      case True
      with c w 2 show ?thesis by (auto simp: Let_def)
    next
      case False
      with w "2.prems"(1) have "d = db"
        by (auto simp: consume_once_def dest: update_grants_False)
      with False c w 2 show ?thesis by (simp add: Let_def)
    qed
  next
    case 4
    then show ?thesis using 2 by (auto simp: Let_def)
  qed
qed simp

text \<open>
  What can happen to the ledger, in any order: a lookup by a process whose query returned
  \<open>rows\<close> (possibly out of date), a new grant, a revocation. A lookup that returns a
  one-shot grant wins its id.
\<close>

datatype ledger_op =
    LMatch action_intent authority_context int "grant_row list"
  | LAdd grant_request pystr int
  | LRevoke pystr int

fun ledger_step :: "pyhost \<Rightarrow> ledger_op \<Rightarrow> grant_db \<Rightarrow> pystr option \<times> grant_db" where
  "ledger_step H (LMatch i cx now rows) db =
     (case match_loop H i cx now rows db of
        (Some g, db') \<Rightarrow> (if g_scope g = S_ONCE then Some (g_id g) else None, db')
      | (None, db') \<Rightarrow> (None, db'))"
| "ledger_step H (LAdd r gid now) db =
     (case add_grant H db r gid now of Inl _ \<Rightarrow> (None, db) | Inr (_, db') \<Rightarrow> (None, db'))"
| "ledger_step H (LRevoke gid now) db = (None, snd (revoke_grant gid now db))"

lemma has_row_update:
  assumes "\<And>g. g_id (f g) = g_id g" "\<And>g. P g \<Longrightarrow> Q g \<Longrightarrow> Q (f g)" "has_row db k Q"
  shows "has_row (snd (update_grants gid P f db)) k Q"
proof -
  obtain r where r: "r \<in> set db" "g_id (row_grant r) = k" "Q (row_grant r)"
    using assms(3) by (auto simp: has_row_def)
  let ?r = "if row_is gid P r then r\<lparr>row_grant := f (row_grant r)\<rparr> else r"
  have "?r \<in> set (snd (update_grants gid P f db))"
    unfolding set_update_grants using r(1) by (rule imageI)
  moreover have "g_id (row_grant ?r) = k" "Q (row_grant ?r)"
    using r assms(1,2) by (auto simp: row_is_def)
  ultimately show ?thesis unfolding has_row_def by blast
qed

lemma has_row_updated:
  assumes "update_grants gid P f db = (True, db')" "\<And>g. g_id (f g) = g_id g" "\<And>g. Q (f g)"
  shows "has_row db' gid Q"
proof -
  obtain r where r: "r \<in> set db" "row_is gid P r" using update_grants_True [OF assms(1)] ..
  have "db' = snd (update_grants gid P f db)" using assms(1) by simp
  with r have "r\<lparr>row_grant := f (row_grant r)\<rparr> \<in> set db'"
    by (auto simp: set_update_grants image_iff intro!: bexI [of _ r])
  moreover have "g_id (f (row_grant r)) = gid" using r(2) assms(2) by (simp add: row_is_def)
  ultimately show ?thesis using assms(3) unfolding has_row_def
    by (intro bexI [of _ "r\<lparr>row_grant := f (row_grant r)\<rparr>"]) simp_all
qed

lemma ids_distinct_update:
  "ids_distinct db \<Longrightarrow> (\<And>g. g_id (f g) = g_id g) \<Longrightarrow> ids_distinct (snd (update_grants gid P f db))"
  using update_grants_ids [of f gid P db] by (simp add: ids_distinct_def)

lemma add_grant_facts:
  assumes "ids_distinct db" "add_grant H db r gid now = Inr (g, db')"
  shows "ids_distinct db'" "has_row db k Q \<Longrightarrow> has_row db' k Q"
  using assms by (auto simp: add_grant_def Let_def ids_distinct_def has_row_def make_grant_def
      image_iff split: if_splits)

text \<open>Every step keeps the ids distinct and keeps a row property that its updates keep.\<close>

lemma ledger_step_keeps:
  assumes inv: "ids_distinct db" and st: "ledger_step H a db = (r, db')"
    and spend: "\<And>g. g_uses_left g = 1 \<Longrightarrow> Q g \<Longrightarrow> Q (g\<lparr>g_uses_left := 0\<rparr>)"
    and revoke: "\<And>g now. g_revoked_at g = 0 \<Longrightarrow> Q g \<Longrightarrow> Q (g\<lparr>g_revoked_at := now\<rparr>)"
  shows "ids_distinct db' \<and> (has_row db k Q \<longrightarrow> has_row db' k Q)"
proof (cases a)
  case (LMatch i cx now rows)
  obtain res d where m: "match_loop H i cx now rows db = (res, d)" by fastforce
  with LMatch st have d: "db' = d" by (auto split: option.splits if_splits)
  from match_loop_cases [OF inv m] show ?thesis
  proof
    assume "\<exists>g. res = Some g \<and> g_scope g = S_ONCE \<and> consume_once (g_id g) db = (True, d)"
    then obtain gid where c: "d = snd (consume_once gid db)" by (metis snd_conv)
    have "ids_distinct d"
      unfolding c consume_once_def by (rule ids_distinct_update [OF inv]) simp
    moreover have "has_row db k Q \<Longrightarrow> has_row d k Q"
      unfolding c consume_once_def using spend by (rule has_row_update [rotated]) simp_all
    ultimately show ?thesis using d by blast
  qed (simp add: d inv)
next
  case (LAdd q gid now)
  with st inv show ?thesis
    by (auto split: sum.splits prod.splits dest: add_grant_facts)
next
  case (LRevoke gid now)
  with st have d: "db' = snd (revoke_grant gid now db)" by simp
  have "ids_distinct db'"
    unfolding d revoke_grant_def by (rule ids_distinct_update [OF inv]) simp
  moreover have "has_row db k Q \<Longrightarrow> has_row db' k Q"
    unfolding d revoke_grant_def using revoke by (rule has_row_update [rotated]) simp_all
  ultimately show ?thesis by blast
qed

lemma consume_facts:
  assumes "ids_distinct db" "consume_once gid db = (True, db')"
  shows "unspent db gid" "\<not> unspent db' gid"
proof -
  obtain r where r: "r \<in> set db" "row_is gid (\<lambda>g. g_uses_left g = 1) r"
    using update_grants_True assms(2) unfolding consume_once_def by blast
  then show "unspent db gid"
    using ids_distinct_same [OF assms(1)] by (fastforce simp: unspent_def has_row_def row_is_def)
  show "\<not> unspent db' gid"
    using assms(2) unfolding consume_once_def unspent_def not_not
    by (rule has_row_updated) simp_all
qed

interpretation once_grants: once_latch "ledger_step H" unspent ids_distinct for H
proof unfold_locales
  fix a s r s' k
  assume st: "ledger_step H a s = (r, s')" and inv: "ids_distinct s"
  from ledger_step_keeps [OF inv st, of "\<lambda>g. g_uses_left g \<noteq> 1" k]
  have both: "ids_distinct s' \<and> (\<not> unspent s k \<longrightarrow> \<not> unspent s' k)" by (simp add: unspent_def)
  then show "ids_distinct s'" and "\<not> unspent s k \<Longrightarrow> \<not> unspent s' k" by blast+
next
  fix a s s' k
  assume st: "ledger_step H a s = (Some k, s')" and inv: "ids_distinct s"
  then obtain i cx now rows where a: "a = LMatch i cx now rows"
    by (cases a) (auto split: sum.splits prod.splits)
  obtain res d where m: "match_loop H i cx now rows s = (res, d)" by fastforce
  with a st obtain g where g: "res = Some g" "g_scope g = S_ONCE" "g_id g = k" "d = s'"
    by (auto split: option.splits if_splits)
  with match_loop_cases [OF inv m] have "consume_once k s = (True, s')" by blast
  from consume_facts [OF inv this] show "unspent s k" and "\<not> unspent s' k" by blast+
qed

text \<open>
  Property C22. A one-shot grant authorizes at most one call: over any sequence of lookups,
  additions and revocations, by any number of processes and even from stale query results,
  \<open>matching\<close> returns each one-shot grant at most once.
\<close>

theorem once_grant_used_once:
  assumes "ids_distinct db"
  shows "count_list (fst (run_ops (ledger_step H) ops db)) (Some gid) \<le> 1"
  using once_grants.wins_at_most_once [OF assms] .

definition once_request :: grant_request where
  "once_request = \<lparr>gr_scope = S_ONCE, gr_action = u ''send'', gr_project = [], gr_mission_id = [],
     gr_workflow_id = [], gr_connection_id = [], gr_target = [], gr_account = [], gr_recipients = [],
     gr_max_amount = None, gr_currency = [], gr_expires_at = 0, gr_uses_left = 1, gr_source = u ''user''\<rparr>"

definition once_row :: grant_row where
  "once_row = (let g = make_grant ascii_host once_request (u ''g1'') 5 in
     \<lparr>row_grant = g, row_recipients = Some (g_recipients g)\<rparr>)"

lemma once_row_matches:
  "grant_matches ascii_host (decode_row once_row) (intent0 (u ''send'') COMMIT) send_ctx 9"
  by (simp add: once_row_def decode_row_def make_grant_def once_request_def grant_match_defs
      same_or_unset_def Let_def dedup_def u_def intent0_def)

theorem grant_scope_bounds_use_witness:
  "let g = (decode_row once_row)\<lparr>g_target := u ''Bank'', g_max_amount := Some 50\<rparr>;
       i = (intent0 (u ''send'') COMMIT)\<lparr>ai_target := u ''bank'', ai_amount := Amount (Fin 20)\<rparr> in
     grant_matches ascii_host g i send_ctx 9
     \<and> casefold ascii_host (ai_target i) = casefold ascii_host (g_target g) \<and> (20::rat) \<le> 50"
proof -
  let ?g = "(decode_row once_row)\<lparr>g_target := u ''Bank'', g_max_amount := Some 50\<rparr>"
  let ?i = "(intent0 (u ''send'') COMMIT)\<lparr>ai_target := u ''bank'', ai_amount := Amount (Fin 20)\<rparr>"
  have m: "grant_matches ascii_host ?g ?i send_ctx 9"
    by (simp add: once_row_def decode_row_def make_grant_def once_request_def grant_match_defs
        same_or_unset_def exceeds_def casefold_def py_upper_def is_ascii_def lower_cp_def Let_def dedup_def u_def intent0_def)
  from grant_scope_bounds_use [OF m] m show ?thesis by (simp add: Let_def)
qed

theorem once_grant_used_once_witness:
  "let op = LMatch (intent0 (u ''send'') COMMIT) send_ctx 9 [once_row] in
     fst (run_ops (ledger_step ascii_host) [op, op] [once_row]) = [Some (u ''g1''), None]
     \<and> count_list (fst (run_ops (ledger_step ascii_host) [op, op] [once_row])) (Some (u ''g1'')) \<le> 1"
proof -
  have d: "ids_distinct [once_row]" by (simp add: ids_distinct_def)
  have s: "g_scope (decode_row once_row) = S_ONCE" "g_uses_left (decode_row once_row) = 1"
      "g_id (decode_row once_row) = u ''g1''" "g_id (row_grant once_row) = u ''g1''"
      "g_uses_left (row_grant once_row) = 1"
    by (simp_all add: once_row_def decode_row_def make_grant_def once_request_def Let_def)
  have "fst (run_ops (ledger_step ascii_host)
      [LMatch (intent0 (u ''send'') COMMIT) send_ctx 9 [once_row],
       LMatch (intent0 (u ''send'') COMMIT) send_ctx 9 [once_row]] [once_row]) = [Some (u ''g1''), None]"
    by (simp add: once_row_matches s Let_def consume_once_def update_grants_def row_is_def)
  moreover note once_grant_used_once [OF d, of ascii_host
      "[LMatch (intent0 (u ''send'') COMMIT) send_ctx 9 [once_row],
        LMatch (intent0 (u ''send'') COMMIT) send_ctx 9 [once_row]]" "u ''g1''"]
  ultimately show ?thesis unfolding Let_def by (rule conjI)
qed

lemma revoked_run:
  "ids_distinct db \<Longrightarrow> revoked_in db gid \<Longrightarrow> revoked_in (snd (run_ops (ledger_step H) ops db)) gid
     \<and> ids_distinct (snd (run_ops (ledger_step H) ops db))"
proof (induction ops arbitrary: db)
  case (Cons a ops)
  obtain r db' where st: "ledger_step H a db = (r, db')" by fastforce
  from ledger_step_keeps [OF Cons.prems(1) st, of "\<lambda>g. g_revoked_at g \<noteq> 0" gid] Cons.prems
  have "ids_distinct db'" "revoked_in db' gid" by (simp_all add: revoked_in_def)
  from Cons.IH [OF this] st show ?case by (cases "run_ops (ledger_step H) ops db'") simp
qed simp

text \<open>
  Property C23. Revocation takes effect at the next lookup and is final: once \<open>revoke\<close> has
  reported success, no later lookup that reads the table returns that grant, whatever
  happened to the ledger in between.
\<close>

theorem revocation_is_final:
  assumes "ids_distinct db" "revoke_grant gid now db = (True, db1)" "now \<noteq> 0"
    and "matching H (snd (run_ops (ledger_step H) ops db1)) i cx t = (Some g, db2)"
  shows "g_id g \<noteq> gid"
proof
  assume g: "g_id g = gid"
  let ?db = "snd (run_ops (ledger_step H) ops db1)"
  have "revoked_in db1 gid"
    unfolding revoked_in_def
    by (rule has_row_updated [OF assms(2) [unfolded revoke_grant_def]]) (simp_all add: assms(3))
  moreover have "ids_distinct db1"
    using ids_distinct_update [OF assms(1), of "\<lambda>g. g\<lparr>g_revoked_at := now\<rparr>" gid
        "\<lambda>g. g_revoked_at g = 0"] assms(2) by (simp add: revoke_grant_def)
  ultimately have r: "revoked_in ?db gid" "ids_distinct ?db" using revoked_run by blast+
  from matching_in [OF assms(4)] obtain row where row: "row \<in> set ?db" "g = decode_row row"
      "grant_matches H g i cx t"
    by (auto simp: grants_of_def)
  then have "g_revoked_at (row_grant row) = 0" "g_id (row_grant row) = gid"
    using grant_matches_unrevoked g by (fastforce simp: decode_row_def)+
  with r row(1) show False
    using ids_distinct_same [OF r(2)] unfolding revoked_in_def has_row_def by blast
qed

theorem revocation_is_final_witness:
  "let db = [once_row, once_row\<lparr>row_grant := (row_grant once_row)\<lparr>g_id := u ''g2''\<rparr>\<rparr>];
       db1 = snd (revoke_grant (u ''g2'') 7 db);
       r = matching ascii_host db1 (intent0 (u ''send'') COMMIT) send_ctx 9 in
     map_option g_id (fst r) = Some (u ''g1'') \<and> map_option g_id (fst r) \<noteq> Some (u ''g2'')"
proof -
  let ?db = "[once_row, once_row\<lparr>row_grant := (row_grant once_row)\<lparr>g_id := u ''g2''\<rparr>\<rparr>]"
  let ?i = "intent0 (u ''send'') COMMIT"
  have s: "g_id (row_grant once_row) = u ''g1''" "g_revoked_at (row_grant once_row) = 0"
      "g_action (row_grant once_row) = u ''send''" "g_scope (decode_row once_row) = S_ONCE"
      "g_uses_left (decode_row once_row) = 1" "g_id (decode_row once_row) = u ''g1''"
      "g_uses_left (row_grant once_row) = 1"
    by (simp_all add: once_row_def decode_row_def make_grant_def once_request_def Let_def u_def)
  have d: "ids_distinct ?db" by (simp add: ids_distinct_def s)
  obtain db1 where r: "revoke_grant (u ''g2'') 7 ?db = (True, db1)"
    by (simp add: revoke_grant_def update_grants_def row_is_def s)
  then have db1: "db1 = [once_row, once_row\<lparr>row_grant := (row_grant once_row)
      \<lparr>g_id := u ''g2'', g_revoked_at := 7\<rparr>\<rparr>]"
    by (simp add: revoke_grant_def update_grants_def row_is_def s)
  have "fst (matching ascii_host db1 ?i send_ctx 9) = Some (decode_row once_row)"
    by (simp add: matching_def match_rows_def db1 s once_row_matches consume_once_def
        update_grants_def row_is_def)
  then obtain db2 where m: "matching ascii_host db1 ?i send_ctx 9 = (Some (decode_row once_row), db2)"
    by (metis prod.collapse)
  from revocation_is_final [OF d r, of ascii_host "[]"] m
  have "g_id (decode_row once_row) \<noteq> u ''g2''" by simp
  with m r s show ?thesis by simp
qed

end
