(* ===== verification/Glob.thy ===== *)
theory Glob
  imports Prelude
begin

text \<open>
  \<open>fnmatch.fnmatchcase\<close>, the shell-style matcher that tool patterns
  (\<open>harness/risk.py\<close>, \<open>harness/overrides.py\<close>), capability allowlists
  (\<open>harness/leash.py\<close>) and site lists (\<open>harness/browserpolicy.py\<close>) use. A pattern is
  parsed into tokens as \<open>fnmatch.translate\<close> does (an unclosed bracket is a literal
  bracket, an empty range matches nothing, a negated empty range matches any character)
  and matched against the whole string.
\<close>

datatype gtok = GStar | GAny | GLit nat | GSet bool "(nat \<times> nat) list"

text \<open>The items of a bracket expression, read from the left: \<open>a-b\<close> is a range, anything else one character.\<close>

fun set_items :: "pystr \<Rightarrow> (nat \<times> nat) list" where
  "set_items [] = []"
| "set_items (a # m # b # s) =
     (if m = 45 then (a, b) # set_items s else (a, a) # set_items (m # b # s))"
| "set_items (a # s) = (a, a) # set_items s"

text \<open>Splits at the closing bracket, which does not count as the first character of the body.\<close>

fun upto_close :: "pystr \<Rightarrow> (pystr \<times> pystr) option" where
  "upto_close [] = None"
| "upto_close (c # s) =
     (if c = 93 then Some ([], s) else map_option (\<lambda>(b, r). (c # b, r)) (upto_close s))"

definition bracket_body :: "pystr \<Rightarrow> (pystr \<times> pystr) option" where
  "bracket_body s =
     (case s of
        c # t \<Rightarrow> if c = 93 then map_option (\<lambda>(b, r). (93 # b, r)) (upto_close t) else upto_close s
      | [] \<Rightarrow> None)"

definition bracket :: "pystr \<Rightarrow> (gtok \<times> pystr) option" where
  "bracket s =
     (case s of
        c # t \<Rightarrow>
          if c = 33 then map_option (\<lambda>(b, r). (GSet True (set_items b), r)) (bracket_body t)
          else map_option (\<lambda>(b, r). (GSet False (set_items b), r)) (bracket_body s)
      | [] \<Rightarrow> None)"

lemma upto_close_shorter: "upto_close s = Some (b, r) \<Longrightarrow> length r < length s"
  by (induction s arbitrary: b) (auto split: if_splits)

lemma bracket_body_shorter: "bracket_body s = Some (b, r) \<Longrightarrow> length r < length s"
  by (cases s) (auto simp: bracket_body_def split: if_splits dest!: upto_close_shorter)

lemma bracket_shorter: "bracket s = Some (t, r) \<Longrightarrow> length r < length s"
  by (cases s) (auto simp: bracket_def split: if_splits dest!: bracket_body_shorter)

function glob_parse :: "pystr \<Rightarrow> gtok list" where
  "glob_parse [] = []"
| "glob_parse (c # s) =
     (if c = 42 then GStar # glob_parse s
      else if c = 63 then GAny # glob_parse s
      else if c = 91 then
        (case bracket s of
           None \<Rightarrow> GLit 91 # glob_parse s
         | Some (t, r) \<Rightarrow> t # glob_parse r)
      else GLit c # glob_parse s)"
  by pat_completeness auto
termination
  by (relation "measure length") (auto dest: bracket_shorter)

fun tok_matches :: "gtok \<Rightarrow> nat \<Rightarrow> bool" where
  "tok_matches (GLit a) c = (a = c)"
| "tok_matches (GSet neg items) c = (list_ex (\<lambda>(a, b). a \<le> c \<and> c \<le> b) items \<noteq> neg)"
| "tok_matches _ c = True"

fun glob_match :: "gtok list \<Rightarrow> pystr \<Rightarrow> bool" where
  "glob_match [] s = (s = [])"
| "glob_match (GStar # ts) [] = glob_match ts []"
| "glob_match (GStar # ts) (c # s) = (glob_match ts (c # s) \<or> glob_match (GStar # ts) s)"
| "glob_match (t # ts) [] = False"
| "glob_match (t # ts) (c # s) = (tok_matches t c \<and> glob_match ts s)"

definition fnmatchcase :: "pystr \<Rightarrow> pystr \<Rightarrow> bool" where
  "fnmatchcase name pat = glob_match (glob_parse pat) name"

text \<open>A pattern without wildcards matches exactly itself; a trailing star is a prefix test.\<close>

definition wild_cp :: "nat \<Rightarrow> bool" where
  "wild_cp c \<longleftrightarrow> c = 42 \<or> c = 63 \<or> c = 91"

lemma glob_parse_literal: "list_all (\<lambda>c. \<not> wild_cp c) p \<Longrightarrow> glob_parse p = map GLit p"
  by (induction p) (auto simp: wild_cp_def)

lemma glob_parse_literal_append:
  "list_all (\<lambda>c. \<not> wild_cp c) p \<Longrightarrow> glob_parse (p @ q) = map GLit p @ glob_parse q"
  by (induction p) (auto simp: wild_cp_def)

lemma glob_match_literals: "glob_match (map GLit p) s \<longleftrightarrow> s = p"
  by (induction p arbitrary: s) (case_tac s; auto)+

lemma glob_match_star_end: "glob_match [GStar] s"
  by (induction s) auto

lemma glob_match_prefix_star: "glob_match (map GLit p @ [GStar]) s \<longleftrightarrow> starts_with s p"
proof (induction p arbitrary: s)
  case Nil
  then show ?case by (simp add: glob_match_star_end starts_with_def)
next
  case (Cons a p)
  then show ?case by (cases s) (auto simp: starts_with_def)
qed

lemma fnmatchcase_literal: "list_all (\<lambda>c. \<not> wild_cp c) p \<Longrightarrow> fnmatchcase s p \<longleftrightarrow> s = p"
  by (simp add: fnmatchcase_def glob_parse_literal glob_match_literals)

lemma fnmatchcase_prefix_star:
  "list_all (\<lambda>c. \<not> wild_cp c) p \<Longrightarrow> fnmatchcase s (p @ [42]) \<longleftrightarrow> starts_with s p"
  by (simp add: fnmatchcase_def glob_parse_literal_append glob_match_prefix_star)

text \<open>
  A pattern read as a text can be matched by another pattern. When the other one has no
  wildcard but the star and the text has no bracket, everything the first matches is matched
  by the second.
\<close>

definition star_token :: "gtok \<Rightarrow> bool" where
  "star_token t \<longleftrightarrow> t = GStar \<or> (\<exists>c. t = GLit c \<and> \<not> wild_cp c)"

definition star_pattern :: "pystr \<Rightarrow> bool" where
  "star_pattern p \<longleftrightarrow> list_all (\<lambda>c. c \<noteq> 63 \<and> c \<noteq> 91) p"

lemma star_tokenE:
  "glob_match (if v = 42 then a else if v = 63 then b else if v = 91 then c else GLit v # ts) n \<Longrightarrow> \<not> wild_cp v
   \<Longrightarrow> (\<And>m. n = v # m \<Longrightarrow> glob_match ts m \<Longrightarrow> P) \<Longrightarrow> P"
  by (cases n) (auto simp: wild_cp_def)

lemma glob_match_star: "glob_match (GStar # ts) s \<longleftrightarrow> (\<exists>a b. s = a @ b \<and> glob_match ts b)"
proof (induction s)
  case (Cons c s)
  have "(\<exists>a b. c # s = a @ b \<and> glob_match ts b) \<longleftrightarrow> glob_match ts (c # s) \<or> (\<exists>a b. s = a @ b \<and> glob_match ts b)"
    by (metis append_Cons append_Nil list.exhaust list.inject)
  with Cons show ?case by simp
qed simp

lemma glob_match_one: "t \<noteq> GStar \<Longrightarrow> glob_match (t # ts) s \<longleftrightarrow> (\<exists>c r. s = c # r \<and> tok_matches t c \<and> glob_match ts r)"
  by (cases t; cases s) auto

lemma glob_parse_no_bracket:
  "c \<noteq> 91 \<Longrightarrow> glob_parse (c # s) = (if c = 42 then GStar else if c = 63 then GAny else GLit c) # glob_parse s"
  by simp

lemma star_tokens: "star_pattern p \<Longrightarrow> list_all star_token (glob_parse p)"
  by (induction p) (auto simp: star_pattern_def star_token_def wild_cp_def)

lemma glob_match_covers:
  assumes "glob_match qs p" "list_all star_token qs" "91 \<notin> set p" "glob_match (glob_parse p) n"
  shows "glob_match qs n"
  using assms
proof (induction qs p arbitrary: n rule: glob_match.induct)
  case (3 ts c s)
  show ?case
  proof (cases "glob_match ts (c # s)")
    case True
    with 3 have "glob_match ts n" by simp
    then show ?thesis unfolding glob_match_star by (metis append_Nil)
  next
    case False
    with "3.prems" have rest: "glob_match (GStar # ts) s" by simp
    have "c \<noteq> 91" using "3.prems" by auto
    from "3.prems"(4) [unfolded glob_parse_no_bracket [OF this]]
    obtain a m where "n = a @ m" "glob_match (glob_parse s) m"
      by (cases "c = 42") (auto simp: glob_match_star glob_match_one intro: that [of "[_]"])
    moreover from this(2) "3.IH"(2) [OF rest] "3.prems" have "glob_match (GStar # ts) m" by simp
    ultimately show ?thesis unfolding glob_match_star by (metis append.assoc)
  qed
qed (auto simp: star_token_def wild_cp_def glob_match_one elim: star_tokenE)

lemma fnmatchcase_covers:
  "fnmatchcase p q \<Longrightarrow> star_pattern q \<Longrightarrow> 91 \<notin> set p \<Longrightarrow> fnmatchcase n p \<Longrightarrow> fnmatchcase n q"
  unfolding fnmatchcase_def by (rule glob_match_covers [OF _ star_tokens])

end
