(* ===== verification/Url.thy ===== *)
theory Url
  imports Prelude
begin

text \<open>
  The part of \<open>urllib.parse.urlsplit\<close> that \<open>harness/risk.py\<close> (\<open>origin_of\<close>) and
  \<open>harness/browserpolicy.py\<close> (\<open>hostname\<close>) rely on: scheme, network location and host
  name of a URL. The library's two extra tests of the network location (the address inside
  brackets, the NFKC test of a non-ASCII one) are the host parameter \<open>netloc_unsafe\<close>.
\<close>

definition scheme_cp :: "nat \<Rightarrow> bool" where
  "scheme_cp c \<longleftrightarrow> is_alpha_cp c \<or> is_digit_cp c \<or> c = 43 \<or> c = 45 \<or> c = 46"

definition url_delim :: "nat \<Rightarrow> bool" where
  "url_delim c \<longleftrightarrow> c = 47 \<or> c = 63 \<or> c = 35"

definition url_clean :: "pystr \<Rightarrow> pystr" where
  "url_clean s = filter (\<lambda>c. c \<noteq> 9 \<and> c \<noteq> 10 \<and> c \<noteq> 13) (dropWhile (\<lambda>c. c \<le> 32) s)"

text \<open>Scheme (already lowered, empty when there is none) and the rest after its colon.\<close>

definition url_scheme :: "pystr \<Rightarrow> pystr \<times> pystr" where
  "url_scheme s =
     (let sch = takeWhile (\<lambda>c. c \<noteq> 58) s; rest = dropWhile (\<lambda>c. c \<noteq> 58) s in
      if rest \<noteq> [] \<and> sch \<noteq> [] \<and> is_alpha_cp (hd sch) \<and> list_all scheme_cp sch
      then (map lower_cp sch, tl rest) else ([], s))"

definition url_netloc :: "pystr \<Rightarrow> pystr" where
  "url_netloc rest =
     (if take 2 rest = [47, 47] then takeWhile (\<lambda>c. \<not> url_delim c) (drop 2 rest) else [])"

text \<open>\<open>None\<close> is the \<open>ValueError\<close> that both callers handle.\<close>

definition urlsplit :: "pyhost \<Rightarrow> pystr \<Rightarrow> (pystr \<times> pystr) option" where
  "urlsplit H s =
     (let (sch, rest) = url_scheme (url_clean s); net = url_netloc rest in
      if (91 \<in> set net) \<noteq> (93 \<in> set net) then None
      else if (91 \<in> set net \<or> \<not> is_ascii net) \<and> netloc_unsafe H net then None
      else Some (sch, net))"

definition host_of_netloc :: "pystr \<Rightarrow> pystr" where
  "host_of_netloc net =
     (let hostinfo = rev (takeWhile (\<lambda>c. c \<noteq> 64) (rev net)) in
      if 91 \<in> set hostinfo
      then takeWhile (\<lambda>c. c \<noteq> 93) (tl (dropWhile (\<lambda>c. c \<noteq> 91) hostinfo))
      else takeWhile (\<lambda>c. c \<noteq> 58) hostinfo)"

definition url_hostname :: "pyhost \<Rightarrow> pystr \<Rightarrow> pystr" where
  "url_hostname H net =
     (let h = host_of_netloc net in
      py_lower H (takeWhile (\<lambda>c. c \<noteq> 37) h) @ dropWhile (\<lambda>c. c \<noteq> 37) h)"

lemma url_netloc_no_delim: "c \<in> set (url_netloc r) \<Longrightarrow> \<not> url_delim c"
  by (auto simp: url_netloc_def dest: set_takeWhileD split: if_splits)

lemma lower_cp_other: "\<not> (65 \<le> c \<and> c \<le> 90) \<Longrightarrow> lower_cp c = c"
  by (auto simp: lower_cp_def)

lemma lower_cp_in_iff [simp]:
  "lower_cp c = 9 \<longleftrightarrow> c = 9" "lower_cp c = 10 \<longleftrightarrow> c = 10" "lower_cp c = 13 \<longleftrightarrow> c = 13"
  "lower_cp c = 35 \<longleftrightarrow> c = 35" "lower_cp c = 47 \<longleftrightarrow> c = 47" "lower_cp c = 63 \<longleftrightarrow> c = 63"
  "lower_cp c = 91 \<longleftrightarrow> c = 91" "lower_cp c = 93 \<longleftrightarrow> c = 93" "lower_cp c = 58 \<longleftrightarrow> c = 58"
  by (auto simp: lower_cp_def)

lemma scheme_cp_lower [simp]: "scheme_cp (lower_cp c) \<longleftrightarrow> scheme_cp c"
  unfolding scheme_cp_def is_alpha_cp_def is_digit_cp_def lower_cp_def by (simp; presburger)

lemma is_alpha_cp_lower [simp]: "is_alpha_cp (lower_cp c) \<longleftrightarrow> is_alpha_cp c"
  unfolding is_alpha_cp_def lower_cp_def by (simp; presburger)

lemma map_lower_idem [simp]: "map lower_cp (map lower_cp s) = map lower_cp s"
  by (simp add: comp_def)

lemma scheme_cp_no_colon: "list_all scheme_cp s \<Longrightarrow> 58 \<notin> set s"
  by (induction s) (auto simp: scheme_cp_def is_alpha_cp_def is_digit_cp_def)

lemma url_scheme_shape:
  assumes "url_scheme s = (sch, r)" "sch \<noteq> []"
  shows "is_alpha_cp (hd sch)" "list_all scheme_cp sch" "58 \<notin> set sch" "map lower_cp sch = sch"
proof -
  let ?t = "takeWhile (\<lambda>c. c \<noteq> 58) s"
  have t: "sch = map lower_cp ?t" "?t \<noteq> []" "is_alpha_cp (hd ?t)" "list_all scheme_cp ?t"
    using assms unfolding url_scheme_def Let_def by (simp_all split: if_splits)
  from t show "is_alpha_cp (hd sch)" by (simp add: hd_map)
  from t show all: "list_all scheme_cp sch" by (simp add: list_all_iff)
  from all show "58 \<notin> set sch" by (rule scheme_cp_no_colon)
  from t show "map lower_cp sch = sch" by simp
qed

lemma url_scheme_rebuild:
  assumes "is_alpha_cp (hd sch)" "list_all scheme_cp sch" "sch \<noteq> []" "58 \<notin> set sch"
    and "map lower_cp sch = sch"
  shows "url_scheme (sch @ 58 # r) = (sch, r)"
proof -
  have "takeWhile (\<lambda>c. c \<noteq> 58) (sch @ 58 # r) = sch" "dropWhile (\<lambda>c. c \<noteq> 58) (sch @ 58 # r) = 58 # r"
    using assms(4) by (auto simp: takeWhile_append dropWhile_append)
  with assms show ?thesis by (simp add: url_scheme_def)
qed

lemma urlsplit_parts:
  assumes "urlsplit H s = Some (sch, net)"
  obtains r where "url_scheme (url_clean s) = (sch, r)" "net = url_netloc r"
    "(91 \<in> set net) = (93 \<in> set net)"
  using assms by (auto simp: urlsplit_def Let_def split: prod.splits if_splits)

lemma set_url_clean: "c \<in> set (url_clean s) \<Longrightarrow> c \<noteq> 9 \<and> c \<noteq> 10 \<and> c \<noteq> 13 \<and> c \<in> set s"
  by (auto simp: url_clean_def dest: set_dropWhileD)

lemma set_url_scheme_rest: "url_scheme s = (sch, r) \<Longrightarrow> c \<in> set r \<Longrightarrow> c \<in> set s"
proof -
  assume a: "url_scheme s = (sch, r)" "c \<in> set r"
  then have "r = s \<or> (dropWhile (\<lambda>c. c \<noteq> 58) s \<noteq> [] \<and> r = tl (dropWhile (\<lambda>c. c \<noteq> 58) s))"
    by (auto simp: url_scheme_def Let_def split: if_splits)
  with a(2) show "c \<in> set s"
    by (metis list.set_sel(2) set_dropWhileD)
qed

lemma set_url_netloc: "c \<in> set (url_netloc r) \<Longrightarrow> c \<in> set r"
  by (auto simp: url_netloc_def dest: set_takeWhileD in_set_dropD split: if_splits)

lemma urlsplit_netloc_chars:
  assumes "urlsplit H s = Some (sch, net)" "c \<in> set net"
  shows "\<not> url_delim c" "c \<noteq> 9" "c \<noteq> 10" "c \<noteq> 13" "c \<in> set s"
proof -
  obtain r where r: "url_scheme (url_clean s) = (sch, r)" "net = url_netloc r"
    using assms(1) by (rule urlsplit_parts)
  show "\<not> url_delim c" using r assms(2) by (auto dest: url_netloc_no_delim)
  have "c \<in> set (url_clean s)"
    using r assms(2) by (auto dest: set_url_netloc set_url_scheme_rest)
  then show "c \<noteq> 9" "c \<noteq> 10" "c \<noteq> 13" "c \<in> set s" by (auto dest: set_url_clean)
qed

end
