(* ===== verification/Risk.thy ===== *)
theory Risk
  imports Glob Url
begin

text \<open>
  Risk classes of tool calls: \<open>harness/risk.py\<close> (the table, \<open>classify\<close>, targets), the
  host policy of \<open>MCPTool\<close> in \<open>harness/mcpclient.py\<close> that \<open>classify\<close> and the gate ask,
  and the user's override store \<open>harness/overrides.py\<close>.

  The lemmas show that classification fails closed: a name in the table is classified by
  the table whatever the tool says of itself, an MCP tool is external unless the host pins
  it, an unknown tool is external; that an override wins and only the most specific one
  does; that the override file round-trips; and that a pinned origin carries no path.
\<close>

subsection \<open>The classes and the table\<close>

datatype risk_class = READ | WRITE_LOCAL | EXEC | EXTERNAL

definition risk_value :: "risk_class \<Rightarrow> pystr" where
  "risk_value r = (case r of READ \<Rightarrow> u ''read'' | WRITE_LOCAL \<Rightarrow> u ''write_local''
     | EXEC \<Rightarrow> u ''exec'' | EXTERNAL \<Rightarrow> u ''external'')"

definition risk_of_value :: "pystr \<Rightarrow> risk_class option" where
  "risk_of_value s =
     (if s = u ''read'' then Some READ
      else if s = u ''write_local'' then Some WRITE_LOCAL
      else if s = u ''exec'' then Some EXEC
      else if s = u ''external'' then Some EXTERNAL
      else None)"

lemma risk_of_value_inverse [simp]: "risk_of_value (risk_value r) = Some r"
  by (cases r) (simp_all add: risk_of_value_def risk_value_def)

definition risk_base :: "(pystr \<times> risk_class) list" where
  "risk_base =
    [(u ''read_file'', READ),
     (u ''glob'', READ),
     (u ''grep'', READ),
     (u ''code_search'', READ),
     (u ''memory_search'', READ),
     (u ''screenshot'', READ),
     (u ''load_tools'', READ),
     (u ''plan'', READ),
     (u ''mcpctl_status'', READ),
     (u ''mcpctl_refresh'', READ),
     (u ''mcpctl_recommend'', READ),
     (u ''live_copilot'', EXTERNAL),
     (u ''web_fetch'', READ),
     (u ''web_search'', READ),
     (u ''browser_read'', READ),
     (u ''browser_snapshot'', READ),
     (u ''browser_links'', READ),
     (u ''browser_fields'', READ),
     (u ''browser_console'', READ),
     (u ''browser_screenshot'', READ),
     (u ''browser_tabs'', READ),
     (u ''desktop_apps'', READ),
     (u ''desktop_inspect'', READ),
     (u ''desktop_read'', READ),
     (u ''desktop_wait'', READ),
     (u ''write_file'', WRITE_LOCAL),
     (u ''edit_file'', WRITE_LOCAL),
     (u ''remember'', WRITE_LOCAL),
     (u ''undo'', WRITE_LOCAL),
     (u ''bash'', EXEC),
     (u ''run_in_env'', EXEC),
     (u ''execute_code'', EXEC),
     (u ''browser_open'', EXTERNAL),
     (u ''browser_click'', EXTERNAL),
     (u ''browser_advance'', EXTERNAL),
     (u ''browser_type'', EXTERNAL),
     (u ''browser_press'', EXTERNAL),
     (u ''browser_hover'', EXTERNAL),
     (u ''browser_drag'', EXTERNAL),
     (u ''browser_pick'', EXTERNAL),
     (u ''browser_upload'', EXTERNAL),
     (u ''browser_eval'', EXTERNAL),
     (u ''browser_script'', EXTERNAL),
     (u ''browser_reload_extension'', EXTERNAL),
     (u ''desktop_click'', EXTERNAL),
     (u ''desktop_type'', EXTERNAL),
     (u ''desktop_range'', EXTERNAL),
     (u ''desktop_uia'', EXTERNAL),
     (u ''desktop_win32'', EXTERNAL),
     (u ''desktop_mouse'', EXTERNAL),
     (u ''desktop_drag'', EXTERNAL),
     (u ''desktop_key'', EXTERNAL),
     (u ''desktop_window'', EXTERNAL),
     (u ''desktop_clipboard'', EXTERNAL),
     (u ''desktop_script'', EXTERNAL),
     (u ''desktop_launch'', EXTERNAL),
     (u ''desktop_focus'', EXTERNAL),
     (u ''desktop_menu'', EXTERNAL),
     (u ''enable_capability'', EXTERNAL),
     (u ''delegate'', READ),
     (u ''mcpctl_add'', EXTERNAL),
     (u ''mcpctl_connect'', EXTERNAL),
     (u ''mcpctl_connect_candidate'', EXTERNAL),
     (u ''mcpctl_remove'', EXTERNAL),
     (u ''mcpctl_set_enabled'', EXTERNAL)]"

definition risk_patterns :: "(pystr \<times> risk_class) list" where
  "risk_patterns = [(u ''mcp__*'', EXTERNAL)]"

definition no_standing_rule :: "pystr list" where
  "no_standing_rule =
    [u ''browser_eval'', u ''browser_script'', u ''bash'', u ''run_in_env'',
     u ''execute_code'', u ''enable_capability'', u ''mcpctl_add'', u ''mcpctl_remove'',
     u ''mcpctl_set_enabled'']"

subsection \<open>Specificity and the most specific matching rule\<close>

definition specificity :: "pystr \<Rightarrow> nat" where
  "specificity pat =
     length (filter (\<lambda>c. c \<noteq> 42 \<and> c \<noteq> 63 \<and> c \<noteq> 91 \<and> c \<noteq> 93) pat)
       + (if list_ex wild_cp pat then 0 else 1000)"

text \<open>
  The loop over rules that \<open>classify\<close> and \<open>RiskOverrideStore.lookup\<close> share: a later
  rule replaces the best one only with a strictly larger score; \<open>None\<close> is the score -1.
\<close>

fun best_rule :: "pystr \<Rightarrow> (risk_class \<times> nat) option \<Rightarrow> (pystr \<times> risk_class) list
    \<Rightarrow> (risk_class \<times> nat) option" where
  "best_rule name best [] = best"
| "best_rule name best ((pat, r) # rules) =
     (if fnmatchcase name pat
         \<and> (case best of None \<Rightarrow> True | Some (_, sc) \<Rightarrow> sc < specificity pat)
      then best_rule name (Some (r, specificity pat)) rules
      else best_rule name best rules)"

definition most_specific :: "pystr \<Rightarrow> (pystr \<times> risk_class) list \<Rightarrow> risk_class option" where
  "most_specific name rules = map_option fst (best_rule name None rules)"

subsection \<open>MCP tools: the host's policy for pinned connections\<close>

record mcp_tool =
  mt_server :: pystr
  mt_cfg :: pydict
  mt_remote :: pystr
  mt_annotations :: pydict

definition comfy_cloud_url :: pystr where
  "comfy_cloud_url = u ''https://cloud.comfy.org/mcp''"

definition comfy_cloud_readonly :: "pystr list" where
  "comfy_cloud_readonly =
    [u ''get_job_status'', u ''wait_for_job'', u ''get_output'', u ''get_queue'',
     u ''get_batch_status'', u ''get_batch_output'', u ''wait_for_batch'',
     u ''get_prompting_guide'', u ''get_creative_technique'', u ''search_models'',
     u ''search_nodes'', u ''get_node'', u ''search_templates'', u ''get_catalog_overview'',
     u ''get_template'', u ''cql'', u ''get_template_schema'', u ''apply_slots'',
     u ''estimate_credits'', u ''list_saved_workflows'', u ''get_saved_workflow'',
     u ''get_usage_report'', u ''get_billing_activity'']"

definition comfy_local_readonly :: "pystr list" where
  "comfy_local_readonly =
    [u ''server_info'', u ''auth_status'', u ''list_partner_models'',
     u ''partner_model_schema'', u ''system_stats'', u ''get_logs'', u ''discover'',
     u ''which'', u ''search_templates'', u ''get_template'', u ''nodes'',
     u ''node_dependencies'', u ''workflow_deps'', u ''search_models'',
     u ''validate_workflow'', u ''list_workflow_slots'', u ''list_workflow_notes'']"

definition comfy_local_write_paths :: "(pystr \<times> pystr) list" where
  "comfy_local_write_paths =
    [(u ''emit_partner_workflow'', u ''out_path''), (u ''fetch_template'', u ''out_path''),
     (u ''fetch_outputs'', u ''out_dir'')]"

definition comfy_local_exec :: "pystr list" where
  "comfy_local_exec = [u ''generate_image'', u ''free_memory'']"

definition official_comfy_local :: "pyhost \<Rightarrow> mcp_tool \<Rightarrow> bool" where
  "official_comfy_local H t \<longleftrightarrow>
     (if \<not> List.member [u ''comfy-local'', u ''comfy-mcp''] (mt_server t) then False
      else List.member [u ''comfy-mcp'', u ''comfy-mcp.exe'']
             (py_lower H (basename H (str_or_empty H (dget_null (mt_cfg t) (u ''command''))))))"

definition local_target_is_this_machine :: "pyhost \<Rightarrow> mcp_tool \<Rightarrow> bool" where
  "local_target_is_this_machine H t =
     (let cfg_env = (case dget_null (mt_cfg t) (u ''env'') of JObj d \<Rightarrow> d | _ \<Rightarrow> []) in
      \<not> list_ex (\<lambda>key. strip (str_or_empty H (or_json (dget_null cfg_env key)
            (case environ H key of None \<Rightarrow> JNull | Some s \<Rightarrow> JStr s))) \<noteq> [])
         [u ''COMFYUI_URL'', u ''COMFYUI_HOST''])"

text \<open>\<open>args.get("stdout", True) is False\<close>.\<close>

definition stdout_false :: "pydict \<Rightarrow> bool" where
  "stdout_false args \<longleftrightarrow> dget args (u ''stdout'') = Some (JBool False)"

definition action_or_status :: "pyhost \<Rightarrow> pydict \<Rightarrow> pystr" where
  "action_or_status H args =
     py_lower H (py_str H (or_json (dget_null args (u ''action'')) (JStr (u ''status''))))"

definition trusted_risk :: "pyhost \<Rightarrow> mcp_tool \<Rightarrow> pydict \<Rightarrow> risk_class option" where
  "trusted_risk H t args =
     (if mt_server t = u ''comfy-cloud'' \<and> dget_null (mt_cfg t) (u ''url'') = JStr comfy_cloud_url
         \<and> List.member comfy_cloud_readonly (mt_remote t)
         \<and> dget_null (mt_annotations t) (u ''readOnlyHint'') = JBool True
      then Some READ
      else if \<not> official_comfy_local H t then None
      else if List.member comfy_local_readonly (mt_remote t) then Some READ
      else if mt_remote t = u ''job''
         \<and> List.member [u ''status'', u ''error'', u ''wait'', u ''watch'', u ''queue'']
              (action_or_status H args)
      then Some READ
      else if mt_remote t = u ''download''
         \<and> List.member [u ''status'', u ''wait''] (action_or_status H args)
      then Some READ
      else if mt_remote t = u ''project'' \<and> action_or_status H args = u ''status'' then Some READ
      else if mt_remote t = u ''set_workflow_slot'' \<and> \<not> stdout_false args then Some READ
      else if mt_remote t = u ''vary_workflow'' \<and> \<not> truthy (dget_null args (u ''out_dir''))
      then Some READ
      else if map_of comfy_local_write_paths (mt_remote t) \<noteq> None then Some WRITE_LOCAL
      else if mt_remote t = u ''set_workflow_slot'' \<and> stdout_false args then Some WRITE_LOCAL
      else if List.member comfy_local_exec (mt_remote t) \<and> local_target_is_this_machine H t
      then Some EXEC
      else None)"

definition mcp_write_path :: "pyhost \<Rightarrow> mcp_tool \<Rightarrow> pydict \<Rightarrow> pystr option" where
  "mcp_write_path H t args =
     (if \<not> official_comfy_local H t then None
      else
        let field = (if mt_remote t = u ''set_workflow_slot'' \<and> stdout_false args
                     then Some (u ''workflow_path'')
                     else map_of comfy_local_write_paths (mt_remote t)) in
        case field of
          None \<Rightarrow> None
        | Some f \<Rightarrow>
            let p = str_or_empty H (dget_null args f) in if p = [] then None else Some p)"

definition trusted_target :: "pyhost \<Rightarrow> mcp_tool \<Rightarrow> pystr option" where
  "trusted_target H t =
     (if mt_server t = u ''comfy-cloud'' \<and> dget_null (mt_cfg t) (u ''url'') = JStr comfy_cloud_url
      then Some comfy_cloud_url
      else if official_comfy_local H t then Some (u ''local ComfyUI'')
      else None)"

subsection \<open>Tool objects and \<open>classify\<close>\<close>

text \<open>
  What the authority code reads of a tool object: whether it is an \<open>MCPTool\<close>, and its own
  \<open>risk\<close> attribute (absent, a \<open>RiskClass\<close>, or anything else, of which only \<open>str()\<close> is read).
\<close>

datatype declared = Undeclared | DeclaredRisk risk_class | DeclaredText pystr

record tool_obj =
  tool_mcp :: "mcp_tool option"
  tool_risk :: declared

type_synonym risk_overrides = "pystr \<Rightarrow> (risk_class option) result"

definition declared_risk :: "declared \<Rightarrow> risk_class" where
  "declared_risk d =
     (case d of
        DeclaredRisk r \<Rightarrow> r
      | DeclaredText s \<Rightarrow> (case risk_of_value s of Some r \<Rightarrow> r | None \<Rightarrow> EXTERNAL)
      | Undeclared \<Rightarrow> EXTERNAL)"

definition live_copilot_risk :: "pyhost \<Rightarrow> pydict \<Rightarrow> risk_class" where
  "live_copilot_risk H args =
     (let action = casefold H (strip (str_or_empty H (dget_null args (u ''action'')))) in
      if action = u ''status'' then READ
      else if List.member [u ''stop'', u ''note'', u ''diagram_preview''] action then WRITE_LOCAL
      else EXTERNAL)"

definition classify_builtin :: "pyhost \<Rightarrow> pystr \<Rightarrow> ('a) tool_obj_scheme \<Rightarrow> pydict \<Rightarrow> risk_class" where
  "classify_builtin H name tool args =
     (if name = u ''live_copilot'' then live_copilot_risk H args
      else case map_of risk_base name of
        Some r \<Rightarrow> r
      | None \<Rightarrow>
          (case Option.bind (tool_mcp tool) (\<lambda>t. trusted_risk H t args) of
             Some r \<Rightarrow> r
           | None \<Rightarrow>
               (case most_specific name risk_patterns of
                  Some r \<Rightarrow> r
                | None \<Rightarrow> declared_risk (tool_risk tool))))"

definition classify :: "pyhost \<Rightarrow> pystr \<Rightarrow> ('a) tool_obj_scheme \<Rightarrow> risk_overrides option
    \<Rightarrow> pydict \<Rightarrow> risk_class result" where
  "classify H name tool overrides args =
     (case overrides of
        None \<Rightarrow> Inr (classify_builtin H name tool args)
      | Some f \<Rightarrow>
          bind_result (f name) (\<lambda>ov. case ov of
             Some r \<Rightarrow> Inr r
           | None \<Rightarrow> Inr (classify_builtin H name tool args)))"

definition is_classified :: "pystr \<Rightarrow> bool" where
  "is_classified name \<longleftrightarrow>
     map_of risk_base name \<noteq> None \<or> list_ex (\<lambda>(p, _). fnmatchcase name p) risk_patterns"

definition is_consequential :: "risk_class \<Rightarrow> bool" where
  "is_consequential r \<longleftrightarrow> r \<noteq> READ"

subsection \<open>Targets\<close>

definition origin_of :: "pyhost \<Rightarrow> pystr \<Rightarrow> pystr" where
  "origin_of H url =
     (case urlsplit H (strip url) of
        None \<Rightarrow> []
      | Some (sch, net) \<Rightarrow>
          if sch = [] \<or> net = [] then [] else sch @ u ''://'' @ py_lower H net)"

definition opt_str :: "pystr \<Rightarrow> pystr option" where
  "opt_str s = (if s = [] then None else Some s)"

text \<open>\<open>int(v or 0)\<close> where \<open>TypeError\<close> and \<open>ValueError\<close> give 0.\<close>

definition int_or_zero :: "pyhost \<Rightarrow> json \<Rightarrow> int result" where
  "int_or_zero H v =
     (case py_int H (or_json v (JInt 0)) of
        Inr i \<Rightarrow> Inr i
      | Inl (TypeError _) \<Rightarrow> Inr 0
      | Inl (ValueError _) \<Rightarrow> Inr 0
      | Inl e \<Rightarrow> Inl e)"

definition desktop_target :: "pyhost \<Rightarrow> pystr \<Rightarrow> pydict \<Rightarrow> (pystr option) result" where
  "desktop_target H name args =
     (if name = u ''desktop_clipboard'' then Inr (Some (u ''windows-clipboard''))
      else if name = u ''desktop_launch''
      then Inr (opt_str (py_lower H (strip (str_or_empty H (dget_null args (u ''target''))))))
      else
        let app0 = strip (str_or_empty H
              (or_json (dget_null args (u ''app'')) (or_json (dget_null args (u ''process''))
                (or_json (dget_null args (u ''window'')) (dget_null args (u ''match''))))));
            app = (if app0 = [] \<and> List.member [u ''desktop_focus'', u ''desktop_menu''] name
                   then strip (str_or_empty H (dget_null args (u ''name''))) else app0) in
        if app \<noteq> [] then Inr (Some (py_lower H app))
        else bind_result (int_or_zero H (dget_null args (u ''hwnd''))) (\<lambda>hwnd.
          if hwnd \<noteq> 0 then Inr (Some (u ''hwnd:'' @ dec hwnd))
          else bind_result (int_or_zero H (dget_null args (u ''pid''))) (\<lambda>pid.
            Inr (if pid \<noteq> 0 then Some (u ''pid:'' @ dec pid) else None))))"

text \<open>
  The page's origin is looked up live: \<open>origin_lookup\<close> is the answer of this call's lookup,
  an exception or a string (a falsy answer is the empty string).
\<close>

definition target_for :: "pyhost \<Rightarrow> pystr \<Rightarrow> pydict \<Rightarrow> (pystr result) option
    \<Rightarrow> (pystr option) result" where
  "target_for H name args origin_lookup =
     (if List.member no_standing_rule name then Inr None
      else if name = u ''browser_open''
      then Inr (opt_str (origin_of H (str_or_empty H (dget_null args (u ''url'')))))
      else if starts_with name (u ''browser_'')
      then (case origin_lookup of
              None \<Rightarrow> Inr None
            | Some (Inl _) \<Rightarrow> Inr None
            | Some (Inr url) \<Rightarrow> Inr (opt_str (origin_of H url)))
      else if starts_with name (u ''desktop_'') then desktop_target H name args
      else Inr None)"

subsection \<open>The override store\<close>

text \<open>
  The file \<open>risk_overrides.json\<close> is a JSON value, or \<open>None\<close> when it cannot be read or
  parsed. A rule without \<open>"pattern"\<close> raises \<open>KeyError\<close> out of \<open>_load\<close>: the
  \<open>try\<close> of the source covers only \<open>r["risk"]\<close>.
\<close>

type_synonym override_file = "json option"

definition as_risk :: "pyhost \<Rightarrow> json \<Rightarrow> risk_class option" where
  "as_risk H v = risk_of_value (py_str H v)"

fun load_rules_from :: "pyhost \<Rightarrow> json list \<Rightarrow> ((pystr \<times> risk_class) list) result" where
  "load_rules_from H [] = Inr []"
| "load_rules_from H (JObj d # rs) =
     (case dget d (u ''risk'') of
        None \<Rightarrow> load_rules_from H rs
      | Some v \<Rightarrow>
          (case as_risk H v of
             None \<Rightarrow> load_rules_from H rs
           | Some risk \<Rightarrow>
               (case dget d (u ''pattern'') of
                  None \<Rightarrow> Inl (KeyError ''pattern'')
                | Some p \<Rightarrow> bind_result (load_rules_from H rs) (\<lambda>out. Inr ((py_str H p, risk) # out)))))"
| "load_rules_from H (_ # rs) = load_rules_from H rs"

definition load_overrides :: "pyhost \<Rightarrow> override_file \<Rightarrow> ((pystr \<times> risk_class) list) result" where
  "load_overrides H f =
     (case f of
        Some (JObj d) \<Rightarrow>
          (case dget d (u ''rules'') of Some (JList raw) \<Rightarrow> load_rules_from H raw | _ \<Rightarrow> Inr [])
      | _ \<Rightarrow> Inr [])"

definition rule_json :: "pystr \<times> risk_class \<Rightarrow> json" where
  "rule_json pr = JObj [(u ''pattern'', JStr (fst pr)), (u ''risk'', JStr (risk_value (snd pr)))]"

definition save_overrides :: "(pystr \<times> risk_class) list \<Rightarrow> override_file" where
  "save_overrides rules = Some (JObj [(u ''rules'', JList (map rule_json rules))])"

definition set_override :: "pyhost \<Rightarrow> override_file \<Rightarrow> pystr \<Rightarrow> json \<Rightarrow> override_file result" where
  "set_override H f pattern risk =
     (case as_risk H risk of
        None \<Rightarrow> Inl (ValueError ''unknown risk class'')
      | Some r \<Rightarrow>
          bind_result (load_overrides H f) (\<lambda>rules.
            Inr (save_overrides (filter (\<lambda>x. fst x \<noteq> pattern) rules @ [(pattern, r)]))))"

definition unset_override :: "pyhost \<Rightarrow> override_file \<Rightarrow> pystr \<Rightarrow> (override_file \<times> bool) result" where
  "unset_override H f pattern =
     bind_result (load_overrides H f) (\<lambda>rules.
       let kept = filter (\<lambda>x. fst x \<noteq> pattern) rules in
       if length kept = length rules then Inr (f, False) else Inr (save_overrides kept, True))"

definition lookup_override :: "pyhost \<Rightarrow> override_file \<Rightarrow> risk_overrides" where
  "lookup_override H f name =
     bind_result (load_overrides H f) (\<lambda>rules. Inr (most_specific name rules))"

subsection \<open>Which calls can be a read\<close>

text \<open>The classes are ordered by what they can reach.\<close>

instantiation risk_class :: linorder
begin

definition risk_rank :: "risk_class \<Rightarrow> nat" where
  "risk_rank r = (case r of READ \<Rightarrow> 0 | WRITE_LOCAL \<Rightarrow> 1 | EXEC \<Rightarrow> 2 | EXTERNAL \<Rightarrow> 3)"

definition less_eq_risk_class :: "risk_class \<Rightarrow> risk_class \<Rightarrow> bool" where
  "less_eq_risk_class a b \<longleftrightarrow> risk_rank a \<le> risk_rank b"

definition less_risk_class :: "risk_class \<Rightarrow> risk_class \<Rightarrow> bool" where
  "less_risk_class a b \<longleftrightarrow> risk_rank a < risk_rank b"

instance
  by standard
    (auto simp: less_eq_risk_class_def less_risk_class_def risk_rank_def split: risk_class.splits)

end

lemma consequential_iff: "is_consequential r \<longleftrightarrow> READ < r"
  by (cases r) (simp_all add: is_consequential_def less_risk_class_def risk_rank_def)

lemma risk_base_no_mcp: "(name, r) \<in> set risk_base \<Longrightarrow> \<not> starts_with name (u ''mcp__'')"
proof -
  have "list_all (\<lambda>(n, _). \<not> starts_with n (u ''mcp__'')) risk_base"
    by (simp add: risk_base_def starts_with_def u_def)
  then show "(name, r) \<in> set risk_base \<Longrightarrow> \<not> starts_with name (u ''mcp__'')"
    by (auto simp: list_all_iff)
qed

lemma mcp_pattern: "fnmatchcase name (u ''mcp__*'') \<longleftrightarrow> starts_with name (u ''mcp__'')"
proof -
  have "u ''mcp__*'' = u ''mcp__'' @ [42]" "list_all (\<lambda>c. \<not> wild_cp c) (u ''mcp__'')"
    by (simp_all add: u_def wild_cp_def)
  then show ?thesis
    by (simp only: fnmatchcase_prefix_star)
qed

lemma most_specific_patterns:
  "most_specific name risk_patterns =
     (if starts_with name (u ''mcp__'') then Some EXTERNAL else None)"
  by (simp add: most_specific_def risk_patterns_def mcp_pattern)

lemma mcp_name_not_copilot: "starts_with name (u ''mcp__'') \<Longrightarrow> name \<noteq> u ''live_copilot''"
  by (auto simp: starts_with_def u_def)

text \<open>
  MCP tools fail closed: whatever the tool object declares about itself, a
  tool in the \<open>mcp__\<close> name space is classified external unless the host's own pinned
  policy (\<open>_trusted_risk\<close>) speaks for it.
\<close>

theorem mcp_fails_closed:
  assumes "starts_with name (u ''mcp__'')"
    and "Option.bind (tool_mcp tool) (\<lambda>t. trusted_risk H t args) = None"
  shows "classify H name tool None args = Inr EXTERNAL"
proof -
  have "map_of risk_base name = None"
    using assms(1) by (auto simp: map_of_eq_None_iff dest: risk_base_no_mcp)
  with assms show ?thesis
    by (simp add: classify_def classify_builtin_def mcp_name_not_copilot most_specific_patterns)
qed

definition plain_tool :: tool_obj where
  "plain_tool = \<lparr>tool_mcp = None, tool_risk = Undeclared\<rparr>"

theorem mcp_fails_closed_witness:
  "classify ascii_host (u ''mcp__fs__read_file'') (plain_tool\<lparr>tool_risk := DeclaredRisk READ\<rparr>) None []
     = Inr EXTERNAL"
  by (rule mcp_fails_closed) (simp_all add: starts_with_def u_def plain_tool_def)

text \<open>
  The complete list of ways a call is classified as a read, the one class the
  gate never questions: the table says so, it is a \<open>live_copilot\<close> status call, the host
  pinned the MCP connection, or a tool outside the table and outside the MCP name space
  declares itself a read.
\<close>

theorem read_sources:
  assumes "classify H name tool None args = Inr READ"
  shows "map_of risk_base name = Some READ
    \<or> name = u ''live_copilot'' \<and> live_copilot_risk H args = READ
    \<or> (\<exists>t. tool_mcp tool = Some t \<and> trusted_risk H t args = Some READ)
    \<or> map_of risk_base name = None \<and> \<not> starts_with name (u ''mcp__'')
        \<and> declared_risk (tool_risk tool) = READ"
  using assms
  by (auto simp: classify_def classify_builtin_def most_specific_patterns bind_eq_None_conv
      bind_eq_Some_conv split: if_splits option.splits)

theorem read_sources_witness:
  "classify ascii_host (u ''grep'') plain_tool None [] = Inr READ
   \<and> map_of risk_base (u ''grep'') = Some READ"
proof -
  have c: "classify ascii_host (u ''grep'') plain_tool None [] = Inr READ"
    by (simp add: classify_def classify_builtin_def risk_base_def)
  from read_sources [OF c] show ?thesis using c
    by (auto simp: risk_base_def plain_tool_def declared_risk_def)
qed

lemma trusted_risk_read_pinned:
  "trusted_risk H t args = Some r \<Longrightarrow>
     mt_server t = u ''comfy-cloud'' \<and> dget_null (mt_cfg t) (u ''url'') = JStr comfy_cloud_url
       \<and> dget_null (mt_annotations t) (u ''readOnlyHint'') = JBool True \<and> r = READ
     \<or> official_comfy_local H t"
  by (auto simp: trusted_risk_def split: if_splits)

lemma trusted_risk_never_external: "trusted_risk H t args \<noteq> Some EXTERNAL"
  by (simp add: trusted_risk_def)

subsection \<open>The most specific rule\<close>

definition better_than :: "(risk_class \<times> nat) option \<Rightarrow> nat \<Rightarrow> bool" where
  "better_than best n \<longleftrightarrow> (case best of None \<Rightarrow> False | Some (_, sc) \<Rightarrow> n \<le> sc)"

lemma best_rule_dominates:
  "best_rule name best rules = res \<Longrightarrow>
     (\<forall>n. better_than best n \<longrightarrow> better_than res n)
     \<and> (\<forall>p r. (p, r) \<in> set rules \<longrightarrow> fnmatchcase name p \<longrightarrow> better_than res (specificity p))
     \<and> (res = best \<or> (\<exists>p r. (p, r) \<in> set rules \<and> fnmatchcase name p \<and> res = Some (r, specificity p)))"
proof (induction name best rules rule: best_rule.induct)
  case (1 name best)
  then show ?case by auto
next
  case (2 name best pat r rules)
  let ?c = "fnmatchcase name pat
      \<and> (case best of None \<Rightarrow> True | Some (_, sc) \<Rightarrow> sc < specificity pat)"
  show ?case
  proof (cases ?c)
    case True
    have step: "better_than best n \<Longrightarrow> better_than (Some (r, specificity pat)) n" for n
      using True by (auto simp: better_than_def split: option.splits)
    have self: "better_than (Some (r, specificity pat)) (specificity pat)"
      by (simp add: better_than_def)
    from True "2.prems" have "best_rule name (Some (r, specificity pat)) rules = res" by simp
    from "2.IH"(1) [OF True this] show ?thesis
      using True step self by (metis list.set_intros(2) set_ConsD prod.inject list.set_intros(1))
  next
    case False
    then have keep: "fnmatchcase name pat \<Longrightarrow> better_than best (specificity pat)"
      by (auto simp: better_than_def split: option.splits)
    from "2.prems" have "best_rule name best rules = res"
      by (simp only: best_rule.simps if_not_P [OF False])
    from "2.IH"(2) [OF False this] show ?thesis
      using keep by (metis set_ConsD list.set_intros(2) prod.inject)
  qed
qed

lemma most_specific_spec:
  "(most_specific name rules = None \<longleftrightarrow> (\<forall>p r. (p, r) \<in> set rules \<longrightarrow> \<not> fnmatchcase name p))
   \<and> (\<forall>r. most_specific name rules = Some r \<longrightarrow>
        (\<exists>p. (p, r) \<in> set rules \<and> fnmatchcase name p
           \<and> (\<forall>p' r'. (p', r') \<in> set rules \<longrightarrow> fnmatchcase name p' \<longrightarrow> specificity p' \<le> specificity p)))"
proof -
  obtain res where res: "best_rule name None rules = res" by blast
  note dom = best_rule_dominates [OF this]
  show ?thesis
  proof (cases res)
    case None
    with dom have "\<forall>p r. (p, r) \<in> set rules \<longrightarrow> \<not> fnmatchcase name p"
      by (simp add: better_than_def)
    with None res show ?thesis by (simp add: most_specific_def)
  next
    case (Some rs)
    with dom obtain p r where "(p, r) \<in> set rules" "fnmatchcase name p" "rs = (r, specificity p)"
      by auto
    moreover have "\<forall>p' r'. (p', r') \<in> set rules \<longrightarrow> fnmatchcase name p' \<longrightarrow> specificity p' \<le> snd rs"
      using dom Some by (auto simp: better_than_def split: prod.splits)
    ultimately show ?thesis
      using Some res by (auto simp: most_specific_def)
  qed
qed

lemma most_specific_unique_top:
  assumes "(p, r) \<in> set rules" "fnmatchcase name p"
    and "\<And>p' r'. (p', r') \<in> set rules \<Longrightarrow> fnmatchcase name p' \<Longrightarrow> specificity p \<le> specificity p'
          \<Longrightarrow> r' = r"
  shows "most_specific name rules = Some r"
proof -
  have "most_specific name rules \<noteq> None"
    using most_specific_spec [of name rules] assms(1,2) by auto
  then obtain r0 where r0: "most_specific name rules = Some r0" by blast
  then obtain p0 where "(p0, r0) \<in> set rules" "fnmatchcase name p0" "specificity p \<le> specificity p0"
    using most_specific_spec [of name rules] assms(1,2) by fastforce
  with assms(3) r0 show ?thesis by blast
qed

text \<open>
  Override precedence: the class that \<open>lookup\<close> returns is the class of a
  stored rule that matches the tool's name and whose score no other matching rule exceeds,
  and it returns a class exactly when some stored rule matches.
\<close>

theorem lookup_most_specific:
  assumes "load_overrides H f = Inr rules"
  shows "(lookup_override H f name = Inr None \<longleftrightarrow> (\<forall>p r. (p, r) \<in> set rules \<longrightarrow> \<not> fnmatchcase name p))
    \<and> (\<forall>r. lookup_override H f name = Inr (Some r) \<longrightarrow>
        (\<exists>p. (p, r) \<in> set rules \<and> fnmatchcase name p
           \<and> (\<forall>p' r'. (p', r') \<in> set rules \<longrightarrow> fnmatchcase name p' \<longrightarrow> specificity p' \<le> specificity p)))"
  using most_specific_spec [of name rules] assms by (simp add: lookup_override_def)

subsection \<open>The override file\<close>

lemma load_rules_from_json: "load_rules_from H (map rule_json rules) = Inr rules"
proof (induction rules)
  case (Cons pr rules)
  then show ?case
    by (cases pr) (simp add: rule_json_def dget_def as_risk_def)
qed simp

lemma load_save: "load_overrides H (save_overrides rules) = Inr rules"
  by (simp add: load_overrides_def save_overrides_def dget_def load_rules_from_json)

theorem lookup_most_specific_witness:
  "lookup_override ascii_host (save_overrides [(u ''mcp__fs__*'', READ), (u ''mcp__fs__write'', EXTERNAL)])
     (u ''mcp__fs__write'') = Inr (Some EXTERNAL)"
proof -
  let ?rules = "[(u ''mcp__fs__*'', READ), (u ''mcp__fs__write'', EXTERNAL)]"
  have m: "fnmatchcase (u ''mcp__fs__write'') (u ''mcp__fs__write'')"
    by (simp add: fnmatchcase_literal wild_cp_def u_def)
  have sp: "specificity (u ''mcp__fs__*'') = 9" "specificity (u ''mcp__fs__write'') = 1014"
    by (simp_all add: specificity_def wild_cp_def u_def)
  note L = lookup_most_specific [OF load_save [of ascii_host ?rules], of "u ''mcp__fs__write''"]
  from L m obtain r where r: "lookup_override ascii_host (save_overrides ?rules) (u ''mcp__fs__write'')
      = Inr (Some r)"
    by (auto simp: lookup_override_def load_save)
  with L m sp show ?thesis by auto
qed

text \<open>
  What \<open>_save\<close> writes, \<open>_load\<close> reads back unchanged and in the same order.
\<close>

theorem override_roundtrip: "load_overrides H (save_overrides rules) = Inr rules"
  by (rule load_save)

lemma specificity_literal: "list_all (\<lambda>c. \<not> wild_cp c) p \<Longrightarrow> 1000 \<le> specificity p"
  by (auto simp: specificity_def list_all_iff list_ex_iff)

lemma specificity_short_glob: "\<not> list_all (\<lambda>c. \<not> wild_cp c) p \<Longrightarrow> length p < 1000 \<Longrightarrow> specificity p < 1000"
  by (auto simp: specificity_def list_all_iff list_ex_iff intro: le_less_trans [OF length_filter_le])

text \<open>
  Property C40. Setting an override for one exact tool name decides that tool at the next
  lookup, whatever globs the file holds (patterns of fewer than 1000 characters, the bound
  built into the score), and unsetting it gives the decision back to the remaining rules.
\<close>

theorem override_set_lookup_unset:
  assumes set: "set_override H f name (JStr (risk_value r)) = Inr f'"
    and literal: "list_all (\<lambda>c. \<not> wild_cp c) name"
    and short: "\<forall>rules p x. load_overrides H f = Inr rules \<longrightarrow> (p, x) \<in> set rules \<longrightarrow> length p < 1000"
  shows "lookup_override H f' name = Inr (Some r)
    \<and> (\<exists>rules f''. load_overrides H f = Inr rules \<and> unset_override H f' name = Inr (f'', True)
        \<and> lookup_override H f'' other = Inr (most_specific other (filter (\<lambda>x. fst x \<noteq> name) rules)))"
proof -
  have "as_risk H (JStr (risk_value r)) = Some r" by (simp add: as_risk_def)
  with set obtain rules where rules: "load_overrides H f = Inr rules"
    and f': "f' = save_overrides (filter (\<lambda>x. fst x \<noteq> name) rules @ [(name, r)])"
    by (auto simp: set_override_def bind_result_Inr_iff)
  have top: "most_specific name (filter (\<lambda>x. fst x \<noteq> name) rules @ [(name, r)]) = Some r"
  proof (rule most_specific_unique_top)
    show "(name, r) \<in> set (filter (\<lambda>x. fst x \<noteq> name) rules @ [(name, r)])" by simp
    show "fnmatchcase name name" using literal by (simp add: fnmatchcase_literal)
    fix p' r'
    assume a: "(p', r') \<in> set (filter (\<lambda>x. fst x \<noteq> name) rules @ [(name, r)])"
      "fnmatchcase name p'" "specificity name \<le> specificity p'"
    show "r' = r"
    proof (rule ccontr)
      assume "r' \<noteq> r"
      with a have p': "(p', r') \<in> set rules" "p' \<noteq> name" by auto
      with a(2) have "\<not> list_all (\<lambda>c. \<not> wild_cp c) p'" by (auto simp: fnmatchcase_literal)
      then have "specificity p' < 1000"
        using short rules p'(1) by (metis specificity_short_glob)
      with a(3) specificity_literal [OF literal] show False by simp
    qed
  qed
  have kept: "filter (\<lambda>x. fst x \<noteq> name) (filter (\<lambda>x. fst x \<noteq> name) rules @ [(name, r)])
      = filter (\<lambda>x. fst x \<noteq> name) rules" by simp
  have un: "unset_override H f' name = Inr (save_overrides (filter (\<lambda>x. fst x \<noteq> name) rules), True)"
    unfolding unset_override_def f' load_save bind_result_simps kept Let_def
    by simp
  show ?thesis using top rules un
    by (simp add: lookup_override_def f' load_save)
qed

theorem override_set_lookup_unset_witness:
  "\<exists>f'. set_override ascii_host (save_overrides [(u ''mcp__fs__*'', EXTERNAL)]) (u ''mcp__fs__read'')
        (JStr (risk_value READ)) = Inr f'
     \<and> lookup_override ascii_host f' (u ''mcp__fs__read'') = Inr (Some READ)"
proof -
  let ?f = "save_overrides [(u ''mcp__fs__*'', EXTERNAL)]"
  have "as_risk ascii_host (JStr (risk_value READ)) = Some READ" by (simp add: as_risk_def)
  then obtain f' where f': "set_override ascii_host ?f (u ''mcp__fs__read'') (JStr (risk_value READ)) = Inr f'"
    by (auto simp: set_override_def load_save)
  have lit: "list_all (\<lambda>c. \<not> wild_cp c) (u ''mcp__fs__read'')" by (simp add: wild_cp_def u_def)
  have short: "\<forall>rules p x. load_overrides ascii_host ?f = Inr rules \<longrightarrow> (p, x) \<in> set rules
      \<longrightarrow> length p < 1000"
    by (auto simp: load_save)
  show ?thesis
    using override_set_lookup_unset [OF f' lit short] f' by blast
qed

text \<open>
  A rule without a pattern raises out of \<open>_load\<close>, and with it every lookup, although the
  source means to skip a malformed rule "rather than fail the whole store".
\<close>

lemma one_bad_rule_fails_the_store:
  "lookup_override H (Some (JObj [(u ''rules'', JList
     [rule_json (u ''mcp__fs__read'', READ), JObj [(u ''risk'', JStr (u ''read''))]])])) name
   = Inl (KeyError ''pattern'')"
  by (simp add: lookup_override_def load_overrides_def dget_def rule_json_def as_risk_def
      risk_value_def risk_of_value_def)

subsection \<open>Origins\<close>

lemma origin_of_cases:
  obtains "origin_of H url = []"
  | sch net where "urlsplit H (strip url) = Some (sch, net)" "sch \<noteq> []" "net \<noteq> []"
      "origin_of H url = sch @ u ''://'' @ py_lower H net"
proof (cases "urlsplit H (strip url)")
  case None
  then show ?thesis by (auto simp: origin_of_def intro: that(1))
next
  case (Some sn)
  then obtain sch net where "urlsplit H (strip url) = Some (sch, net)" by (cases sn) auto
  then show ?thesis
    by (cases "sch = [] \<or> net = []") (auto simp: origin_of_def intro: that)
qed

lemma is_ascii_iff: "is_ascii s \<longleftrightarrow> (\<forall>c \<in> set s. c < 128)"
  by (simp add: is_ascii_def list_all_iff)

lemma scheme_cp_range: "scheme_cp c \<Longrightarrow> 33 \<le> c \<and> c < 128"
  by (auto simp: scheme_cp_def is_alpha_cp_def is_digit_cp_def)

lemma space_cp_ascii: "space_cp c \<Longrightarrow> c < 128 \<Longrightarrow> c \<le> 32"
  by (auto simp: space_cp_def)

lemma dropWhile_hd: "s \<noteq> [] \<Longrightarrow> \<not> P (hd s) \<Longrightarrow> dropWhile P s = s"
  by (cases s) auto

lemma takeWhile_all: "(\<And>c. c \<in> set s \<Longrightarrow> P c) \<Longrightarrow> takeWhile P s = s"
  by (simp add: takeWhile_eq_all_conv)

lemma bracket_in_lower [simp]:
  "91 \<in> lower_cp ` A \<longleftrightarrow> 91 \<in> A" "93 \<in> lower_cp ` A \<longleftrightarrow> 93 \<in> A"
  by (auto simp: image_iff)

lemma urlsplit_chars:
  assumes "urlsplit H s = Some (sch, net)" "is_ascii s"
  shows "is_ascii net" "is_ascii (map lower_cp net)"
  using assms urlsplit_netloc_chars(5) [OF assms(1)] by (auto simp: is_ascii_iff lower_cp_def)

lemma url_clean_id:
  assumes "s \<noteq> []" "32 < hd s" "9 \<notin> set s" "10 \<notin> set s" "13 \<notin> set s"
  shows "url_clean s = s"
  using assms by (auto simp: url_clean_def dropWhile_hd filter_id_conv)

lemma strip_id:
  assumes "s \<noteq> []" "\<not> space_cp (hd s)" "\<not> space_cp (last s)"
  shows "strip s = s"
  using assms by (simp add: strip_def dropWhile_hd hd_rev)

lemma url_netloc_plain:
  "(\<And>c. c \<in> set n \<Longrightarrow> \<not> url_delim c) \<Longrightarrow> url_netloc (47 # 47 # n) = n"
  by (simp add: url_netloc_def takeWhile_all)

text \<open>
  Splitting an origin again: no path, no query, the same scheme and the same network location.
\<close>

lemma urlsplit_origin:
  assumes "urlsplit H s = Some (sch, net)" "sch \<noteq> []" "is_ascii s" "91 \<notin> set net"
  shows "urlsplit H (sch @ u ''://'' @ map lower_cp net) = Some (sch, map lower_cp net)"
proof -
  let ?n = "map lower_cp net"
  obtain r where r: "url_scheme (url_clean s) = (sch, r)" "net = url_netloc r"
      "(91 \<in> set net) = (93 \<in> set net)"
    using assms(1) by (rule urlsplit_parts)
  note shape = url_scheme_shape [OF r(1) assms(2)]
  have sch_cp: "scheme_cp c" if "c \<in> set sch" for c
    using shape(2) that by (simp add: list_all_iff)
  let ?o = "sch @ 58 # 47 # 47 # ?n"
  have o: "sch @ u ''://'' @ ?n = ?o" by (simp add: u_def)
  have hd: "32 < hd ?o"
    using assms(2) scheme_cp_range [OF sch_cp [of "hd sch"]] by simp
  have no: "k \<notin> set ?o" if "k = 9 \<or> k = 10 \<or> k = 13" for k
    using that urlsplit_netloc_chars [OF assms(1)] sch_cp scheme_cp_range by fastforce
  have clean: "url_clean ?o = ?o"
    using hd no by (intro url_clean_id) auto
  have delim: "\<not> url_delim c" if "c \<in> set ?n" for c
    using that urlsplit_netloc_chars(1) [OF assms(1)] by (auto simp: url_delim_def)
  have "is_ascii ?n" using urlsplit_chars [OF assms(1,3)] by simp
  moreover have "91 \<notin> set ?n" "93 \<notin> set ?n" using assms(4) r(3) by simp_all
  moreover have "url_scheme ?o = (sch, 47 # 47 # ?n)"
    by (rule url_scheme_rebuild [OF shape(1,2) assms(2) shape(3,4)])
  moreover have "url_netloc (47 # 47 # ?n) = ?n"
    using delim by (rule url_netloc_plain)
  ultimately show ?thesis
    unfolding o urlsplit_def by (simp add: clean)
qed

lemma last_netloc_not_space:
  assumes "urlsplit H (strip s) = Some (sch, net)" "is_ascii s" "net \<noteq> []" "32 \<notin> set net"
    "\<And>c. c \<in> set net \<Longrightarrow> 32 \<le> c"
  shows "\<not> space_cp (last net)"
  using assms by (metis is_ascii_iff last_in_set le_antisym set_strip space_cp_ascii subsetD
      urlsplit_netloc_chars(5))

text \<open>
  A page's origin, the thing a standing rule is pinned to, is a normal form:
  for a printable ASCII URL without brackets, \<open>origin_of\<close> is the lower-case scheme and network
  location and nothing after them (no \<open>/\<close>, \<open>?\<close> or \<open>#\<close>), and taking the origin
  of the origin changes nothing.
\<close>

theorem origin_normal_form:
  assumes "\<forall>c \<in> set url. 32 < c \<and> c < 128 \<and> c \<noteq> 91" "origin_of H url \<noteq> []"
  shows "origin_of H (origin_of H url) = origin_of H url
    \<and> (\<exists>sch net. origin_of H url = sch @ u ''://'' @ net \<and> (\<forall>c \<in> set net. \<not> url_delim c)
          \<and> map lower_cp net = net)"
proof -
  have asc: "is_ascii url" using assms(1) by (simp add: is_ascii_iff)
  have sp: "\<not> space_cp c" if "c \<in> set url" for c
    using assms(1) that space_cp_ascii by fastforce
  have strip: "strip url = url" using sp by (simp add: strip_no_space)
  from assms(2) obtain sch net where sn: "urlsplit H url = Some (sch, net)" "sch \<noteq> []" "net \<noteq> []"
      "origin_of H url = sch @ u ''://'' @ py_lower H net"
    by (metis origin_of_cases strip)
  note ch = urlsplit_netloc_chars [OF sn(1)]
  let ?n = "map lower_cp net"
  have low: "py_lower H net = ?n" using urlsplit_chars(1) [OF sn(1) asc] by (rule py_lower_ascii)
  have "91 \<notin> set net" using ch(5) assms(1) by blast
  note split = urlsplit_origin [OF sn(1,2) asc this]
  obtain r where r: "url_scheme (url_clean url) = (sch, r)" by (rule urlsplit_parts [OF sn(1)])
  have "scheme_cp (hd sch)"
    using url_scheme_shape(2) [OF r sn(2)] sn(2) by (simp add: list_all_iff)
  then have hd: "\<not> space_cp (hd sch)" using scheme_cp_range [of "hd sch"] space_cp_ascii by fastforce
  have lr: "33 \<le> last net \<and> last net < 128" using ch(5) [of "last net"] sn(3) assms(1) by auto
  then have "\<not> space_cp (lower_cp (last net))"
    using space_cp_ascii [of "lower_cp (last net)"] by (auto simp: lower_cp_def)
  then have st: "strip (sch @ u ''://'' @ ?n) = sch @ u ''://'' @ ?n"
    using sn(2,3) hd by (intro strip_id) (simp_all add: last_map)
  have "origin_of H (sch @ u ''://'' @ ?n) = sch @ u ''://'' @ ?n"
    using split sn(2,3) urlsplit_chars(2) [OF sn(1) asc]
    by (simp add: origin_of_def st py_lower_ascii)
  moreover have "\<not> url_delim c" if "c \<in> set ?n" for c
    using that ch(1) by (auto simp: url_delim_def)
  ultimately show ?thesis
    unfolding sn(4) low using map_lower_idem [of net] by blast
qed

theorem origin_normal_form_witness:
  "origin_of ascii_host (u ''HTTPS://Bank.example/pay?to=x'') = u ''https://bank.example''
   \<and> origin_of ascii_host (u ''https://bank.example'') = u ''https://bank.example''"
proof -
  have o: "origin_of ascii_host (u ''HTTPS://Bank.example/pay?to=x'') = u ''https://bank.example''"
    by (simp add: origin_of_def urlsplit_def url_scheme_def url_clean_def url_netloc_def strip_def
        u_def url_delim_def scheme_cp_def is_alpha_cp_def is_digit_cp_def space_cp_def
        lower_cp_def py_lower_def)
  have "\<forall>c \<in> set (u ''HTTPS://Bank.example/pay?to=x''). 32 < c \<and> c < 128 \<and> c \<noteq> 91"
    by (simp add: u_def)
  from origin_normal_form [OF this, of ascii_host] o show ?thesis by simp
qed

end
