(* ===== verification/Intent.thy ===== *)
theory Intent
  imports Authority Risk
begin

text \<open>
  The host's intent classifier of \<open>harness/authority.py\<close>: \<open>_semantic_text\<close>, \<open>_classify\<close>,
  \<open>intent_for\<close> and \<open>intent_dict\<close>, and the reviewed manifests of \<open>harness/mcpbroker.py\<close>
  that may propose an intent. The lemmas show that the classifier is conservative: what it
  does not recognise is a commit, what needs a person or spends is restricted, and answering
  a page's confirmation box is never below a commit.
\<close>

subsection \<open>Vocabulary\<close>

definition word_or_edge :: "rex list \<Rightarrow> rex" where
  "word_or_edge rs = rseqs [RAlt RBegin RWordB, ralts rs, RAlt RWordB REnd]"

definition commit_words :: rex where
  "commit_words = RAlt (word_or_edge
     [words_re [''send'', ''publish'', ''post'', ''submit'', ''merge'', ''invite'', ''save'', ''confirm''],
      rseqs [RLit (u ''create''), RSpace True, words_re [''account'', ''page'']],
      RLit (u ''register''), rseqs [RLit (u ''sign''), RSpace False, RLit (u ''up'')],
      words_re [''authorize'', ''approve'', ''delete'', ''remove'', ''unsubscribe'']])
     (cjk [[0x53d1, 0x9001], [0x767c, 0x9001], [0x53d1, 0x5e03], [0x767c, 0x4f48], [0x53d1, 0x5e16],
       [0x767c, 0x5e16], [0x63d0, 0x4ea4], [0x5408, 0x5e76], [0x5408, 0x4f75], [0x9080, 0x8bf7],
       [0x9080, 0x8acb], [0x786e, 0x8ba4], [0x78ba, 0x8a8d], [0x6ce8, 0x518c], [0x8a3b, 0x518a],
       [0x5220, 0x9664], [0x522a, 0x9664], [0x9000, 0x8ba2], [0x9000, 0x8a02]])"

definition purchase_words :: rex where
  "purchase_words = RAlt (word_or_edge
     [words_re [''pay'', ''buy'', ''purchase'', ''checkout''],
      rseqs [RLit (u ''place''), RSpace True, RLit (u ''order'')], RLit (u ''subscribe'')])
     (cjk [[0x4ed8, 0x6b3e], [0x652f, 0x4ed8], [0x8d2d, 0x4e70], [0x8cfc, 0x8cb7], [0x7ed3, 0x8d26],
       [0x7d50, 0x5e33], [0x4e0b, 0x5355], [0x4e0b, 0x55ae], [0x8ba2, 0x9605], [0x8a02, 0x95b1]])"

definition person_words :: rex where
  "person_words = ralts
     [words_re [''captcha'', ''recaptcha'', ''hcaptcha'', ''biometric''],
      rseqs [RLit (u ''face''), RSpace False, RLit (u ''id'')],
      rseqs [RLit (u ''touch''), RSpace False, RLit (u ''id'')], RLit (u ''passkey''),
      rseqs [RLit (u ''security''), RSpace False, RLit (u ''key'')],
      rseqs [RLit (u ''hardware''), RSpace False, RLit (u ''key'')], RLit (u ''kyc''),
      rseqs [RLit (u ''legal''), RSpace True, RLit (u ''signature'')],
      rseqs [RLit (u ''verify''), RSpace True, RLit (u ''you''),
        RAlt (RLit [39, 114, 101]) (rseqs [RSpace True, RLit (u ''are'')]), RSpace True, RLit (u ''human'')],
      cjk [[0x9a8c, 0x8bc1, 0x7801, 0x56fe, 0x7247], [0x5716, 0x5f62, 0x9a57, 0x8b49, 0x78bc],
       [0x4eba, 0x8138], [0x4eba, 0x81c9], [0x6307, 0x7eb9], [0x6307, 0x7d0b],
       [0x751f, 0x7269, 0x8bc6, 0x522b], [0x751f, 0x7269, 0x8b58, 0x5225],
       [0x5b9e, 0x540d, 0x8ba4, 0x8bc1], [0x5be6, 0x540d, 0x8a8d, 0x8b49],
       [0x6cd5, 0x5f8b, 0x7b7e, 0x540d], [0x6cd5, 0x5f8b, 0x7c3d, 0x540d]]]"

definition security_words :: rex where
  "security_words = ralts
     [rseqs [RLit (u ''change''), RSpace True, RLit (u ''password'')],
      rseqs [RLit (u ''reset''), RSpace True, RLit (u ''password'')],
      rseqs [RLit (u ''remove''), RSpace True, words_re [''mfa'', ''2fa'']],
      rseqs [RLit (u ''grant''), RSpace True, RLit (u ''admin'')],
      cjk [[0x4fee, 0x6539, 0x5bc6, 0x7801], [0x4fee, 0x6539, 0x5bc6, 0x78bc],
       [0x91cd, 0x7f6e, 0x5bc6, 0x7801], [0x91cd, 0x8a2d, 0x5bc6, 0x78bc],
       [0x5173, 0x95ed, 0x53cc, 0x91cd, 0x9a8c, 0x8bc1], [0x95dc, 0x9589, 0x96d9, 0x91cd, 0x9a57, 0x8b49],
       [0x6388, 0x4e88, 0x7ba1, 0x7406, 0x5458], [0x6388, 0x4e88, 0x7ba1, 0x7406, 0x54e1]]]"

subsection \<open>Tools\<close>

text \<open>
  What the classifier and the gate read of a tool beside its risk: the answer of its
  \<open>_collie_intent\<close> for given arguments (an exception, something that is not an intent, or
  an intent), its annotations, manifest flag and server, and the answer of its
  \<open>_local_write_path\<close>. \<open>None\<close> is a method the tool does not have.
\<close>

datatype proposal = ProposalRaised | NoProposal | Proposed action_intent

record tool = tool_obj +
  tool_intent :: "(pydict \<Rightarrow> proposal) option"
  tool_annotations :: pydict
  tool_manifest_approved :: bool
  tool_server :: pystr
  tool_write_path :: "(pydict \<Rightarrow> (pystr option) result) option"

definition bare_tool :: tool where
  "bare_tool = \<lparr>tool_mcp = None, tool_risk = Undeclared, tool_intent = None, tool_annotations = [],
     tool_manifest_approved = False, tool_server = [], tool_write_path = None\<rparr>"

text \<open>\<open>BrokerMCPTool\<close>: the intent of a reviewed Collie Online manifest entry.\<close>

definition broker_effects :: "(pystr \<times> effect) list" where
  "broker_effects = [(u ''observe'', OBSERVE), (u ''prepare'', PREPARE), (u ''act'', ACT),
     (u ''commit'', COMMIT), (u ''restricted'', RESTRICTED)]"

definition broker_intent :: "pyhost \<Rightarrow> pydict \<Rightarrow> pystr \<Rightarrow> action_intent" where
  "broker_intent H manifest server =
     (let e = (case map_of broker_effects (str_or_empty H (dget_null manifest (u ''effect''))) of
                 Some e \<Rightarrow> e | None \<Rightarrow> RESTRICTED);
          a = take 100 (py_str H (or_json (dget_null manifest (u ''action'')) (JStr (u ''external_change'')))) in
      (intent0 a e)\<lparr>ai_target := u ''connection:'' @ server, ai_connection_id := server,
        ai_reversible := (e = OBSERVE \<or> e = PREPARE \<or> e = ACT),
        ai_reason := u ''reviewed Collie Online connection manifest''\<rparr>)"

subsection \<open>The classifier\<close>

definition semantic_keys :: "pystr list" where
  "semantic_keys = [u ''text'', u ''label'', u ''name'', u ''title'', u ''selector'', u ''action'',
     u ''operation'', u ''option'', u ''key'', u ''target'', u ''href'', u ''url'']"

definition scalar_text :: "pyhost \<Rightarrow> json option \<Rightarrow> pystr list" where
  "scalar_text H v =
     (case v of
        Some (JStr s) \<Rightarrow> [s]
      | Some (JInt i) \<Rightarrow> [py_str H (JInt i)]
      | Some (JBool b) \<Rightarrow> [py_str H (JBool b)]
      | Some (JFloat x) \<Rightarrow> [py_str H (JFloat x)]
      | _ \<Rightarrow> [])"

definition semantic_text :: "pyhost \<Rightarrow> pydict \<Rightarrow> pystr" where
  "semantic_text H args =
     take 2000 (join [32] (concat (map (\<lambda>k. scalar_text H (dget args k)) semantic_keys)))"

definition mk_intent :: "string \<Rightarrow> effect \<Rightarrow> pystr \<Rightarrow> action_intent" where
  "mk_intent a e target = (intent0 (u a) e)\<lparr>ai_target := target\<rparr>"

definition because :: "string \<Rightarrow> action_intent \<Rightarrow> action_intent" where
  "because why i = i\<lparr>ai_reason := u why\<rparr>"

definition reversibly :: "action_intent \<Rightarrow> action_intent" where
  "reversibly i = i\<lparr>ai_reversible := True\<rparr>"

definition on_connection :: "pystr \<Rightarrow> action_intent \<Rightarrow> action_intent" where
  "on_connection c i = i\<lparr>ai_connection_id := c\<rparr>"

definition click_candidates :: "pystr list" where
  "click_candidates = [u ''send'', u ''publish'', u ''submit'', u ''merge'', u ''invite'', u ''delete'',
     u ''register'', u ''grant_access'']"

definition arg_text :: "pyhost \<Rightarrow> pydict \<Rightarrow> string \<Rightarrow> pystr" where
  "arg_text H args k = str_or_empty H (dget_null args (u k))"

definition click_intent :: "pyhost \<Rightarrow> pydict \<Rightarrow> pystr \<Rightarrow> action_intent" where
  "click_intent H args target =
     (let semantic = semantic_text H args in
      if search H person_words semantic
      then because ''this control appears to require the person'' (mk_intent ''person_verification'' RESTRICTED target)
      else if search H purchase_words semantic
      then because ''spending requires an explicit bounded grant'' (mk_intent ''purchase'' RESTRICTED target)
      else if search H security_words semantic
      then because ''account security changes require the person'' (mk_intent ''security_change'' RESTRICTED target)
      else if search H commit_words semantic
      then
        let acts = ra_actions (compile_request H (JStr semantic)) in
        (case List.find (\<lambda>c. c \<in> acts) click_candidates of
           Some a \<Rightarrow> (intent0 a COMMIT)\<lparr>ai_target := target\<rparr>
         | None \<Rightarrow> mk_intent ''external_change'' COMMIT target)
      else
        let has = list_ex (\<lambda>k. strip (str_or_empty H (dget_null args k)) \<noteq> [])
              [u ''text'', u ''label'', u ''name'', u ''title'', u ''selector'', u ''action'', u ''operation''] in
        if has then (reversibly (mk_intent ''external_change'' ACT target))\<lparr>ai_confidence := Fin (4/5)\<rparr>
        else (because ''snapshot ref needs semantic resolution'' (mk_intent ''external_change'' COMMIT target))
               \<lparr>ai_confidence := Fin (3/10)\<rparr>)"

definition mcp_intent :: "pyhost \<Rightarrow> 'a tool_scheme \<Rightarrow> pystr \<Rightarrow> action_intent" where
  "mcp_intent H tool target =
     (if dget_null (tool_annotations tool) (u ''readOnlyHint'') = JBool True \<and> tool_manifest_approved tool
      then reversibly (on_connection (tool_server tool) (mk_intent ''observe'' OBSERVE target))
      else if dget_null (tool_annotations tool) (u ''destructiveHint'') = JBool True
      then because ''MCP declares this action destructive''
             (on_connection (tool_server tool) (mk_intent ''external_change'' RESTRICTED target))
      else because ''MCP effect manifest has not been approved''
             (on_connection (tool_server tool) (mk_intent ''external_change'' COMMIT target)))"

text \<open>The branches of \<open>_classify\<close> after the resolver and the local risks, in the source's order.\<close>

definition classify_external :: "pyhost \<Rightarrow> pystr \<Rightarrow> pydict \<Rightarrow> 'a tool_scheme \<Rightarrow> pystr \<Rightarrow> action_intent" where
  "classify_external H lower_name args tool target =
     (let semantic = semantic_text H args; is_in = (\<lambda>ns. List.member (map u ns) lower_name) in
      if is_in [''browser_open''] then reversibly (mk_intent ''navigate'' PREPARE target)
      else if is_in [''browser_advance'', ''browser_hover''] then reversibly (mk_intent ''navigate'' PREPARE target)
      else if is_in [''browser_type'', ''desktop_type''] then
        (if search H person_words semantic
         then because ''this verification method requires the person'' (mk_intent ''person_verification'' RESTRICTED target)
         else if truthy (dget_null args (u ''submit'')) then mk_intent ''submit'' COMMIT target
         else reversibly (mk_intent ''enter_data'' PREPARE target))
      else if is_in [''browser_pick'', ''browser_hover'', ''desktop_focus'', ''desktop_menu'']
      then reversibly (mk_intent ''prepare'' PREPARE target)
      else if is_in [''browser_press''] then
        (if List.member [u ''enter'', u ''return'', u ''space''] (casefold H (arg_text H args ''key''))
         then because ''the focused control may commit the form'' (mk_intent ''submit'' COMMIT target)
         else reversibly (mk_intent ''navigate'' PREPARE target))
      else if is_in [''browser_upload''] then
        (mk_intent ''upload'' COMMIT target)\<lparr>ai_resource :=
           take 300 (str_or_empty H (or_json (dget_null args (u ''path'')) (dget_null args (u ''paths''))))\<rparr>
      else if is_in [''browser_drag'', ''desktop_drag''] then
        (if search H person_words semantic
         then because ''CAPTCHA and human verification cannot be delegated'' (mk_intent ''person_verification'' RESTRICTED target)
         else mk_intent ''external_change'' COMMIT target)
      else if is_in [''browser_eval'', ''browser_script'', ''desktop_script'']
      then because ''a script can combine multiple external effects'' (mk_intent ''external_change'' COMMIT target)
      else if is_in [''browser_click'', ''desktop_click'', ''desktop_uia'', ''desktop_win32'', ''desktop_mouse'',
                     ''desktop_key'', ''desktop_window'']
      then click_intent H args target
      else if is_in [''mcpctl_connect'']
      then on_connection (arg_text H args ''name'') (mk_intent ''connect'' COMMIT target)
      else if is_in [''mcpctl_connect_candidate'']
      then because ''public Registry candidates are unreviewed capability expansion''
             (on_connection (arg_text H args ''candidate_id'') (mk_intent ''connect'' COMMIT target))
      else if is_in [''mcpctl_recommend'']
      then reversibly (mk_intent ''observe'' OBSERVE
             (if dget_null args (u ''search_registry'') = JBool True then u ''MCP Registry'' else u ''local MCP catalog''))
      else if is_in [''mcpctl_add'', ''mcpctl_remove'']
      then on_connection (arg_text H args ''name'') (mk_intent ''connect'' COMMIT target)
      else if is_in [''mcpctl_set_enabled'']
      then reversibly (on_connection (arg_text H args ''name'')
             (mk_intent ''connect'' (if dget_null args (u ''enabled'') = JBool False then ACT else COMMIT) target))
      else if starts_with lower_name (u ''mcp__'') then mcp_intent H tool target
      else if is_in [''delegate''] then reversibly (mk_intent ''delegate'' ACT target)
      else if is_in [''enable_capability''] then mk_intent ''grant_access'' COMMIT target
      else (because ''unknown external effect'' (mk_intent ''external_change'' COMMIT target))
             \<lparr>ai_confidence := Fin 0\<rparr>)"

definition proposed_intent :: "pyhost \<Rightarrow> pydict \<Rightarrow> 'a tool_scheme \<Rightarrow> pystr \<Rightarrow> action_intent option" where
  "proposed_intent H args tool target =
     (case tool_intent tool of
        None \<Rightarrow> None
      | Some f \<Rightarrow>
          (case f args of
             Proposed p \<Rightarrow>
               Some (bounded H (if target \<noteq> [] \<and> ai_target p = [] then p\<lparr>ai_target := target\<rparr> else p))
           | _ \<Rightarrow> None))"

definition classify_intent :: "pyhost \<Rightarrow> pystr \<Rightarrow> pydict \<Rightarrow> pystr \<Rightarrow> pystr \<Rightarrow> 'a tool_scheme \<Rightarrow> action_intent" where
  "classify_intent H tool_name args risk target tool =
     (case proposed_intent H args tool target of
        Some i \<Rightarrow> i
      | None \<Rightarrow>
          if risk = u ''read'' then reversibly (mk_intent ''observe'' OBSERVE target)
          else if List.member [u ''write_local'', u ''exec''] risk
          then reversibly (mk_intent ''local_change'' ACT target)
          else classify_external H (casefold H tool_name) args tool target)"

definition accepts_dialog :: "pyhost \<Rightarrow> pystr \<Rightarrow> pydict \<Rightarrow> bool" where
  "accepts_dialog H tool_name args \<longleftrightarrow>
     (let name = casefold H tool_name in
      starts_with name (u ''browser_'') \<and> name \<noteq> u ''browser_open''
      \<and> casefold H (strip (arg_text H args ''dialog'')) = u ''accept'')"

definition below_commit :: "effect \<Rightarrow> bool" where
  "below_commit e \<longleftrightarrow> e = OBSERVE \<or> e = PREPARE \<or> e = ACT"

definition intent_for :: "pyhost \<Rightarrow> pystr \<Rightarrow> pydict \<Rightarrow> pystr \<Rightarrow> pystr \<Rightarrow> 'a tool_scheme \<Rightarrow> action_intent" where
  "intent_for H tool_name args risk target tool =
     (let i = classify_intent H tool_name args risk target tool in
      if accepts_dialog H tool_name args \<and> below_commit (ai_effect i)
      then bounded H (i\<lparr>
             ai_action := (if List.member [u ''observe'', u ''navigate'', u ''prepare'', u ''enter_data''] (ai_action i)
                           then u ''external_change'' else ai_action i),
             ai_effect := COMMIT, ai_reversible := False,
             ai_reason := u ''answers OK to a confirmation the page asks for''\<rparr>)
      else i)"

text \<open>\<open>intent_dict\<close>: the bounded intent as the dictionary a decision and the audit carry.\<close>

definition intent_dict :: "pyhost \<Rightarrow> action_intent \<Rightarrow> action_intent" where
  "intent_dict H i = bounded H i"

subsection \<open>The classifier is conservative\<close>

lemma intent_builders [simp]:
  "ai_effect (mk_intent a e t) = e" "ai_effect (because w i) = ai_effect i"
  "ai_effect (reversibly i) = ai_effect i" "ai_effect (on_connection c i) = ai_effect i"
  "ai_action (mk_intent a e t) = u a" "ai_action (because w i) = ai_action i"
  "ai_action (reversibly i) = ai_action i" "ai_action (on_connection c i) = ai_action i"
  "ai_target (mk_intent a e t) = t" "ai_target (because w i) = ai_target i"
  "ai_target (reversibly i) = ai_target i" "ai_target (on_connection c i) = ai_target i"
  by (simp_all add: mk_intent_def because_def reversibly_def on_connection_def intent0_def)

lemma below_commit_simps [simp]:
  "below_commit OBSERVE" "below_commit PREPARE" "below_commit ACT"
  "\<not> below_commit COMMIT" "\<not> below_commit RESTRICTED"
  by (simp_all add: below_commit_def)

definition click_tools :: "string list" where
  "click_tools = [''browser_click'', ''desktop_click'', ''desktop_uia'', ''desktop_win32'', ''desktop_mouse'',
     ''desktop_key'', ''desktop_window'']"

definition routine_tools :: "string list" where
  "routine_tools = [''browser_open'', ''browser_advance'', ''browser_hover'', ''browser_type'', ''desktop_type'',
     ''browser_pick'', ''desktop_focus'', ''desktop_menu'', ''browser_press'', ''mcpctl_recommend'',
     ''mcpctl_set_enabled'', ''delegate'']"

lemma click_intent_below_commit:
  assumes "below_commit (ai_effect (click_intent H args target))"
  shows "ai_effect (click_intent H args target) = ACT"
    "\<not> search H person_words (semantic_text H args)" "\<not> search H purchase_words (semantic_text H args)"
    "\<not> search H security_words (semantic_text H args)" "\<not> search H commit_words (semantic_text H args)"
    "list_ex (\<lambda>k. strip (str_or_empty H (dget_null args k)) \<noteq> [])
       [u ''text'', u ''label'', u ''name'', u ''title'', u ''selector'', u ''action'', u ''operation'']"
  using assms unfolding click_intent_def Let_def
  by (simp_all split: if_splits option.splits)

lemma mcp_intent_below_commit:
  "below_commit (ai_effect (mcp_intent H tool target)) \<Longrightarrow>
     dget_null (tool_annotations tool) (u ''readOnlyHint'') = JBool True \<and> tool_manifest_approved tool"
  by (auto simp: mcp_intent_def split: if_splits)

lemma classify_external_below_commit:
  assumes "below_commit (ai_effect (classify_external H name args tool target))"
  shows "name \<in> u ` set routine_tools
    \<or> name \<in> u ` set click_tools \<and> below_commit (ai_effect (click_intent H args target))
    \<or> starts_with name (u ''mcp__'') \<and> below_commit (ai_effect (mcp_intent H tool target))"
  using assms unfolding classify_external_def Let_def
  by (auto simp: routine_tools_def click_tools_def split: if_splits)

text \<open>
  A call of an external tool that proposes no intent of its own is classified
  below a commit only in three cases: it is one of the listed navigation, preparation and
  local-control tools; it is a click whose text names no commit, purchase, security or
  person-only control and does name something; or it is an MCP tool with a reviewed
  manifest that is read-only. Every unknown tool is a commit or restricted.
\<close>

theorem below_commit_sources:
  assumes "tool_intent tool = None" "risk = u ''external''"
    and "below_commit (ai_effect (classify_intent H tool_name args risk target tool))"
  shows "casefold H tool_name \<in> u ` set routine_tools
    \<or> casefold H tool_name \<in> u ` set click_tools
        \<and> \<not> search H person_words (semantic_text H args) \<and> \<not> search H purchase_words (semantic_text H args)
        \<and> \<not> search H security_words (semantic_text H args) \<and> \<not> search H commit_words (semantic_text H args)
    \<or> starts_with (casefold H tool_name) (u ''mcp__'') \<and> tool_manifest_approved tool
        \<and> dget_null (tool_annotations tool) (u ''readOnlyHint'') = JBool True"
proof -
  have "below_commit (ai_effect (classify_external H (casefold H tool_name) args tool target))"
    using assms by (simp add: classify_intent_def proposed_intent_def)
  from classify_external_below_commit [OF this] show ?thesis
    using click_intent_below_commit [of H args target] mcp_intent_below_commit [of H tool target] by blast
qed

theorem below_commit_sources_witness:
  "below_commit (ai_effect (classify_intent ascii_host (u ''Browser_Open'') [] (u ''external'') [] bare_tool))
   \<and> casefold ascii_host (u ''Browser_Open'') \<in> u ` set routine_tools"
proof -
  have cf: "casefold ascii_host (u ''Browser_Open'') = u ''browser_open''"
    by (simp add: casefold_def is_ascii_def u_def lower_cp_def)
  have b: "below_commit (ai_effect (classify_intent ascii_host (u ''Browser_Open'') [] (u ''external'') [] bare_tool))"
    by (simp add: classify_intent_def proposed_intent_def bare_tool_def classify_external_def cf)
  have "casefold ascii_host (u ''Browser_Open'') \<notin> u ` set click_tools"
    "\<not> tool_manifest_approved bare_tool"
    by (simp_all add: cf click_tools_def bare_tool_def)
  then show ?thesis
    using below_commit_sources [of bare_tool "u ''external''" ascii_host "u ''Browser_Open''" "[]" "[]"] b
    by (auto simp: bare_tool_def)
qed

text \<open>
  Answering OK to a page's confirmation box is never routine: whatever the tool
  proposes and whatever risk the call was given, a browser call other than \<open>browser_open\<close>
  that accepts a dialog is at least a commit, and is then not marked reversible.
\<close>

theorem dialog_accept_is_commit:
  assumes "accepts_dialog H tool_name args"
  shows "\<not> below_commit (ai_effect (intent_for H tool_name args risk target tool))
    \<and> (below_commit (ai_effect (classify_intent H tool_name args risk target tool)) \<longrightarrow>
        ai_effect (intent_for H tool_name args risk target tool) = COMMIT
        \<and> \<not> ai_reversible (intent_for H tool_name args risk target tool))"
  using assms by (simp add: intent_for_def Let_def)

theorem dialog_accept_is_commit_witness:
  "\<not> below_commit (ai_effect (intent_for ascii_host (u ''browser_advance'')
      [(u ''dialog'', JStr (u '' Accept''))] (u ''external'') [] bare_tool))"
proof -
  have "accepts_dialog ascii_host (u ''browser_advance'') [(u ''dialog'', JStr (u '' Accept''))]"
    by (simp add: accepts_dialog_def arg_text_def casefold_def is_ascii_def starts_with_def strip_def
        space_cp_def lower_cp_def u_def)
  from dialog_accept_is_commit [OF this] show ?thesis by blast
qed

end
