(* ===== verification/BrowserPolicy.thy ===== *)
theory BrowserPolicy
  imports Regex Url Glob
begin

text \<open>
  \<open>harness/browserpolicy.py\<close>: may the agent navigate to an origin without another prompt?
  The lemmas show that an unreadable origin or an unknown policy never skips the prompt and
  that a domain the user listed keeps it for every subdomain.
\<close>

definition sensitive_suffixes :: "pystr list" where
  "sensitive_suffixes = map u
     [''paypal.com'', ''venmo.com'', ''cash.app'', ''wise.com'', ''revolut.com'', ''stripe.com'',
      ''coinbase.com'', ''binance.com'', ''kraken.com'', ''gemini.com'', ''robinhood.com'',
      ''webull.com'', ''fidelity.com'', ''schwab.com'', ''etrade.com'', ''interactivebrokers.com'',
      ''bankofamerica.com'', ''chase.com'', ''wellsfargo.com'', ''citi.com'', ''capitalone.com'',
      ''americanexpress.com'', ''discover.com'']"

definition sensitive_labels :: rex where
  "sensitive_labels = rseqs
     [RAlt RBegin (ROne [45, 46]),
      ralts [rseqs [RLit (u ''bank''), opt_re (RLit (u ''ing''))], RLit (u ''creditunion''),
        rseqs [RLit (u ''broker''), opt_re (RLit (u ''age''))], RLit (u ''crypto''), RLit (u ''wallet''),
        rseqs [RLit (u ''payment''), opt_re (RLit (u ''s''))]],
      RAlt (ROne [45, 46]) REnd]"

definition strip_dots :: "pystr \<Rightarrow> pystr" where
  "strip_dots s = rev (dropWhile (\<lambda>c. c = 46) (rev (dropWhile (\<lambda>c. c = 46) s)))"

definition hostname :: "pyhost \<Rightarrow> pystr \<Rightarrow> pystr" where
  "hostname H v =
     (case urlsplit H (strip v) of
        None \<Rightarrow> []
      | Some (_, net) \<Rightarrow> py_lower H (strip_dots (url_hostname H net)))"

text \<open>The user's extra hosts: one comma-separated text or a sequence of values.\<close>

datatype site_list = SiteText pystr | SiteItems "json list"

definition extra_patterns :: "pyhost \<Rightarrow> site_list \<Rightarrow> pystr list" where
  "extra_patterns H v =
     (let items = (case v of SiteText s \<Rightarrow> map JStr (split_on 44 s) | SiteItems xs \<Rightarrow> xs);
          texts = map (\<lambda>i. strip (str_or_empty H i)) items in
      map (py_lower H) (filter (\<lambda>t. t \<noteq> []) texts))"

definition in_domain :: "pystr \<Rightarrow> pystr \<Rightarrow> bool" where
  "in_domain host suffix \<longleftrightarrow> host = suffix \<or> ends_with host (46 # suffix)"

definition local_host :: "pystr \<Rightarrow> bool" where
  "local_host host \<longleftrightarrow> List.member [u ''localhost'', u ''127.0.0.1'', u ''::1''] host
     \<or> ends_with host (u ''.localhost'')"

definition is_sensitive_site :: "pyhost \<Rightarrow> pystr \<Rightarrow> site_list \<Rightarrow> bool" where
  "is_sensitive_site H v extra =
     (let host = hostname H v in
      if host = [] then True
      else if local_host host then False
      else if ends_with host (u ''.bank'') \<or> search H sensitive_labels host then True
      else if list_ex (in_domain host) sensitive_suffixes then True
      else list_ex (\<lambda>pat. if list_ex wild_cp pat then fnmatchcase host pat else in_domain host pat)
             (extra_patterns H extra))"

definition navigation_allowed_without_prompt :: "pyhost \<Rightarrow> pystr \<Rightarrow> pystr \<Rightarrow> site_list \<Rightarrow> bool" where
  "navigation_allowed_without_prompt H policy target extra =
     (let p = py_lower H (strip (or_str policy (u ''ask_every_site''))) in
      if p = u ''all_sites'' then hostname H target \<noteq> []
      else if p = u ''all_except_sensitive''
      then hostname H target \<noteq> [] \<and> \<not> is_sensitive_site H target extra
      else False)"

lemma navigation_needs_host:
  "navigation_allowed_without_prompt H policy target extra \<Longrightarrow> hostname H target \<noteq> []"
  by (auto simp: navigation_allowed_without_prompt_def Let_def split: if_splits)

lemma unreadable_site_is_sensitive: "hostname H v = [] \<Longrightarrow> is_sensitive_site H v extra"
  by (simp add: is_sensitive_site_def)

lemma in_domain_trans: "in_domain h d \<Longrightarrow> in_domain d e \<Longrightarrow> in_domain h e"
proof -
  assume "in_domain h d" "in_domain d e"
  then consider "h = d" "in_domain d e" | "d = e" "in_domain h d"
    | a b where "h = a @ 46 # d" "d = b @ 46 # e"
    by (auto simp: in_domain_def ends_with_iff)
  then show "in_domain h e"
  proof cases
    case 3
    then have "h = (a @ 46 # b) @ 46 # e" by simp
    then show ?thesis unfolding in_domain_def ends_with_iff by blast
  qed auto
qed

text \<open>
  A listed domain protects its subdomains: when the user's list (or the
  built-in one) has a plain domain, every non-local URL whose host is that domain or a
  subdomain of it is sensitive, so under every policy but \<open>all_sites\<close> opening it keeps
  the prompt; and a policy that is neither \<open>all_sites\<close> nor \<open>all_except_sensitive\<close> never
  skips it.
\<close>

theorem listed_domain_keeps_prompt:
  assumes "domain \<in> set (extra_patterns H extra) \<union> set sensitive_suffixes" "\<not> list_ex wild_cp domain"
    and "in_domain (hostname H url) domain" "\<not> local_host (hostname H url)"
    and "py_lower H (strip (or_str policy (u ''ask_every_site''))) \<noteq> u ''all_sites''"
  shows "is_sensitive_site H url extra \<and> \<not> navigation_allowed_without_prompt H policy url extra"
proof -
  have s: "is_sensitive_site H url extra"
    using assms(1-4) by (auto simp: is_sensitive_site_def Let_def list_ex_iff)
  then show ?thesis using assms(5) by (simp add: navigation_allowed_without_prompt_def Let_def)
qed

theorem listed_domain_keeps_prompt_witness:
  "\<not> navigation_allowed_without_prompt ascii_host (u '' All_Except_Sensitive'')
      (u ''https://a.corp.example'') (SiteText (u ''x.y, Corp.example''))"
proof -
  have h: "hostname ascii_host (u ''https://a.corp.example'') = u ''a.corp.example''"
    by (simp add: hostname_def urlsplit_def url_scheme_def url_clean_def url_netloc_def strip_def
        u_def url_delim_def scheme_cp_def is_alpha_cp_def is_digit_cp_def space_cp_def
        lower_cp_def py_lower_def url_hostname_def host_of_netloc_def strip_dots_def)
  have e: "u ''corp.example'' \<in> set (extra_patterns ascii_host (SiteText (u ''x.y, Corp.example'')))"
    by (simp add: extra_patterns_def u_def strip_def space_cp_def lower_cp_def py_lower_def)
  have w: "\<not> list_ex wild_cp (u ''corp.example'')" by (simp add: u_def wild_cp_def)
  have d: "in_domain (u ''a.corp.example'') (u ''corp.example'')"
    by (simp add: in_domain_def ends_with_def u_def)
  have l: "\<not> local_host (u ''a.corp.example'')" by (simp add: local_host_def ends_with_def u_def)
  have p: "py_lower ascii_host (strip (or_str (u '' All_Except_Sensitive'') (u ''ask_every_site''))) \<noteq> u ''all_sites''"
    by (simp add: u_def strip_def space_cp_def lower_cp_def py_lower_def or_str_def)
  show ?thesis
    using listed_domain_keeps_prompt [of "u ''corp.example''" ascii_host _ "u ''https://a.corp.example''"] e w d l p
    unfolding h by blast
qed

end
