(* ===== verification/Shlex.thy ===== *)
theory Shlex
  imports Prelude
begin

text \<open>
  \<open>shlex.split(s)\<close> in its default POSIX mode without comments, the tokenizer of the command
  allowlists in \<open>harness/gate.py\<close> and \<open>harness/actions.py\<close>: the library's state machine as a
  function on the rest of the text, with the token read so far (reversed) and whether a
  quote was opened in it.
\<close>

datatype shlex_state = SBlank | SWord | SQuote nat | SEscape | SQuoteEscape

definition shlex_space :: "nat \<Rightarrow> bool" where
  "shlex_space c \<longleftrightarrow> c = 32 \<or> c = 9 \<or> c = 13 \<or> c = 10"

definition shlex_emit :: "pystr \<Rightarrow> bool \<Rightarrow> (pystr list) result \<Rightarrow> (pystr list) result" where
  "shlex_emit tok quoted rest =
     bind_result rest (\<lambda>ts. Inr (if tok \<noteq> [] \<or> quoted then rev tok # ts else ts))"

fun shlex_go :: "shlex_state \<Rightarrow> pystr \<Rightarrow> bool \<Rightarrow> pystr \<Rightarrow> (pystr list) result" where
  "shlex_go SBlank tok q [] = Inr []"
| "shlex_go SWord tok q [] = shlex_emit tok q (Inr [])"
| "shlex_go (SQuote d) tok q [] = Inl (ValueError ''No closing quotation'')"
| "shlex_go SEscape tok q [] = Inl (ValueError ''No escaped character'')"
| "shlex_go SQuoteEscape tok q [] = Inl (ValueError ''No escaped character'')"
| "shlex_go SBlank tok q (c # s) =
     (if shlex_space c then shlex_go SBlank [] False s
      else if c = 92 then shlex_go SEscape [] False s
      else if c = 34 \<or> c = 39 then shlex_go (SQuote c) [] True s
      else shlex_go SWord [c] False s)"
| "shlex_go SWord tok q (c # s) =
     (if shlex_space c then shlex_emit tok q (shlex_go SBlank [] False s)
      else if c = 34 \<or> c = 39 then shlex_go (SQuote c) tok True s
      else if c = 92 then shlex_go SEscape tok q s
      else shlex_go SWord (c # tok) q s)"
| "shlex_go (SQuote d) tok q (c # s) =
     (if c = d then shlex_go SWord tok q s
      else if c = 92 \<and> d = 34 then shlex_go SQuoteEscape tok q s
      else shlex_go (SQuote d) (c # tok) q s)"
| "shlex_go SEscape tok q (c # s) = shlex_go SWord (c # tok) q s"
| "shlex_go SQuoteEscape tok q (c # s) =
     (if c \<noteq> 92 \<and> c \<noteq> 34 then shlex_go (SQuote 34) (c # 92 # tok) q s
      else shlex_go (SQuote 34) (c # tok) q s)"

definition shlex_split :: "pystr \<Rightarrow> (pystr list) result" where
  "shlex_split s = shlex_go SBlank [] False s"

text \<open>A quoted word reads back as that word: what an allowlist entry with a quoted path means.\<close>

definition plain_word :: "pystr \<Rightarrow> bool" where
  "plain_word w \<longleftrightarrow> w \<noteq> [] \<and> list_all (\<lambda>c. \<not> shlex_space c \<and> c \<noteq> 92 \<and> c \<noteq> 34 \<and> c \<noteq> 39) w"

lemma shlex_word_run:
  "list_all (\<lambda>c. \<not> shlex_space c \<and> c \<noteq> 92 \<and> c \<noteq> 34 \<and> c \<noteq> 39) w \<Longrightarrow>
     shlex_go SWord tok q (w @ s) = shlex_go SWord (rev w @ tok) q s"
  by (induction w arbitrary: tok) auto

lemma shlex_plain_words:
  "list_all plain_word ws \<Longrightarrow> shlex_split (join [32] ws) = Inr ws"
proof (induction ws rule: induct_list012)
  case 1
  then show ?case by (simp add: shlex_split_def)
next
  case (2 w)
  then show ?case
    using shlex_word_run [of "tl w" "[hd w]" False "[]"]
    by (cases w) (auto simp: shlex_split_def plain_word_def shlex_emit_def)
next
  case (3 w v ws)
  obtain c t where w: "w = c # t" using 3 by (cases w) (auto simp: plain_word_def)
  have "shlex_go SWord [c] False (t @ 32 # join [32] (v # ws))
      = shlex_emit (rev t @ [c]) False (shlex_split (join [32] (v # ws)))"
    using 3(3) w shlex_word_run [of t "[c]" False "32 # join [32] (v # ws)"]
    by (simp add: plain_word_def shlex_split_def shlex_space_def)
  moreover have "shlex_split (join [32] (v # ws)) = Inr (v # ws)"
    using 3 by simp
  ultimately show ?case
    using 3(3) w by (simp add: shlex_split_def plain_word_def shlex_emit_def)
qed

end
