(* ===== verification/Gate.thy ===== *)
theory Gate
  imports Intent BrowserPolicy Shlex
begin

text \<open>
  \<open>harness/gate.py\<close>: allow, deny or ask for one proposed tool call. A \<open>gate\<close> is the
  run's \<open>Gate\<close> object, with the grant ledger of its authority engine beside it (\<open>None\<close>
  when the engine has no store); \<open>evaluate\<close>, \<open>apply_outcome\<close>, \<open>begin_request\<close> and
  \<open>extend_request\<close> are its operations. The file system is the parameter \<open>pyfs\<close>:
  \<open>fs_expand\<close> is \<open>Path(p).expanduser()\<close> (whether the result is absolute, and its parts) and
  \<open>fs_resolve\<close> is \<open>resolve()\<close> of an absolute path.
\<close>

subsection \<open>Modes, outcomes, decisions\<close>

datatype mode = M_PLAN | M_REVIEW | M_TEST | M_PROJECT | M_INTERACTIVE | M_AUTO

definition mode_value :: "mode \<Rightarrow> pystr" where
  "mode_value m = (case m of M_PLAN \<Rightarrow> u ''plan'' | M_REVIEW \<Rightarrow> u ''review'' | M_TEST \<Rightarrow> u ''test''
     | M_PROJECT \<Rightarrow> u ''project'' | M_INTERACTIVE \<Rightarrow> u ''interactive'' | M_AUTO \<Rightarrow> u ''auto'')"

definition all_modes :: "mode list" where
  "all_modes = [M_PLAN, M_REVIEW, M_TEST, M_PROJECT, M_INTERACTIVE, M_AUTO]"

definition mode_of_value :: "pystr \<Rightarrow> mode option" where
  "mode_of_value s = List.find (\<lambda>m. mode_value m = s) all_modes"

definition read_only_mode :: "mode \<Rightarrow> bool" where
  "read_only_mode m \<longleftrightarrow> m = M_PLAN \<or> m = M_REVIEW"

datatype outcome =
    ALLOW_ONCE
  | ALLOW_ALWAYS
  | ALLOW_MISSION
  | ALLOW_WORKFLOW
  | ALLOW_PROJECT
  | ALLOW_CONNECTION
  | REJECT_ONCE
  | REJECT_ALWAYS

definition outcome_value :: "outcome \<Rightarrow> pystr" where
  "outcome_value x = (case x of ALLOW_ONCE \<Rightarrow> u ''allow_once'' | ALLOW_ALWAYS \<Rightarrow> u ''allow_always''
     | ALLOW_MISSION \<Rightarrow> u ''allow_mission'' | ALLOW_WORKFLOW \<Rightarrow> u ''allow_workflow''
     | ALLOW_PROJECT \<Rightarrow> u ''allow_project'' | ALLOW_CONNECTION \<Rightarrow> u ''allow_connection''
     | REJECT_ONCE \<Rightarrow> u ''reject_once'' | REJECT_ALWAYS \<Rightarrow> u ''reject_always'')"

definition all_outcomes :: "outcome list" where
  "all_outcomes = [ALLOW_ONCE, ALLOW_ALWAYS, ALLOW_MISSION, ALLOW_WORKFLOW, ALLOW_PROJECT,
     ALLOW_CONNECTION, REJECT_ONCE, REJECT_ALWAYS]"

definition outcome_of_value :: "pystr \<Rightarrow> outcome option" where
  "outcome_of_value s = List.find (\<lambda>x. outcome_value x = s) all_outcomes"

definition allowing :: "outcome \<Rightarrow> bool" where
  "allowing x \<longleftrightarrow> x \<noteq> REJECT_ONCE \<and> x \<noteq> REJECT_ALWAYS"

record decision =
  dn_allowed :: bool
  dn_reason :: pystr
  dn_needs_user :: bool
  dn_rule :: pystr
  dn_risk :: pystr
  dn_target :: "pystr option"
  dn_rule_offer :: pystr
  dn_call_id :: pystr
  dn_effect :: pystr
  dn_action :: pystr
  dn_basis :: pystr
  dn_notify :: bool
  dn_intent :: "action_intent option"
  dn_grant_options :: "pystr list"

definition decision0 :: "risk_class \<Rightarrow> bool \<Rightarrow> pystr \<Rightarrow> decision" where
  "decision0 risk ok why = \<lparr>dn_allowed = ok, dn_reason = why, dn_needs_user = False, dn_rule = [],
     dn_risk = risk_value risk, dn_target = None, dn_rule_offer = [], dn_call_id = [], dn_effect = [],
     dn_action = [], dn_basis = [], dn_notify = False, dn_intent = None, dn_grant_options = []\<rparr>"

definition asking :: "risk_class \<Rightarrow> pystr \<Rightarrow> pystr option \<Rightarrow> pystr \<Rightarrow> decision" where
  "asking risk why target offer =
     (decision0 risk False why)\<lparr>dn_needs_user := True, dn_target := target, dn_rule_offer := offer\<rparr>"

subsection \<open>The gate's state and the file system\<close>

record gate =
  gt_cwd :: "pystr list"
  gt_mode :: mode
  gt_roots :: "pystr list"
  gt_allowed_commands :: "pystr list"
  gt_session_rules :: "(pystr \<times> pystr) set"
  gt_session_denied :: "pystr set"
  gt_overrides :: "risk_overrides option"
  gt_site_access :: pystr
  gt_sensitive_hosts :: site_list
  gt_authority_enabled :: bool
  gt_authority_mode :: pystr
  gt_context :: authority_context

record pyfs =
  fs_expand :: "pystr \<Rightarrow> (bool \<times> pystr list) result"
  fs_resolve :: "pystr list \<Rightarrow> (pystr list) result"

definition path_text :: "pystr list \<Rightarrow> pystr" where
  "path_text parts = 47 # join [47] parts"

text \<open>\<open>except (OSError, ValueError)\<close>; \<open>expanduser\<close> can also raise \<open>RuntimeError\<close>, which is not caught.\<close>

definition os_or_value :: "exc \<Rightarrow> bool" where
  "os_or_value e = (case e of ValueError _ \<Rightarrow> True | OtherError s \<Rightarrow> s = ''OSError'' | _ \<Rightarrow> False)"

definition full_path :: "pyfs \<Rightarrow> gate \<Rightarrow> pystr \<Rightarrow> (pystr list) result" where
  "full_path F g path =
     bind_result (fs_expand F path) (\<lambda>(absolute, parts).
       fs_resolve F (if absolute then parts else gt_cwd g @ parts))"

text \<open>\<open>Path(r).expanduser().resolve()\<close>: a relative root is resolved against the process's own directory.\<close>

definition root_path :: "pyfs \<Rightarrow> pystr list \<Rightarrow> pystr \<Rightarrow> (pystr list) result" where
  "root_path F process_cwd r =
     bind_result (fs_expand F r) (\<lambda>(absolute, parts).
       fs_resolve F (if absolute then parts else process_cwd @ parts))"

fun writable_roots_from :: "pyfs \<Rightarrow> pystr list \<Rightarrow> pystr list \<Rightarrow> (pystr list list) result" where
  "writable_roots_from F pc [] = Inr []"
| "writable_roots_from F pc (r # rs) =
     (case root_path F pc r of
        Inl e \<Rightarrow> if os_or_value e then writable_roots_from F pc rs else Inl e
      | Inr p \<Rightarrow> bind_result (writable_roots_from F pc rs) (\<lambda>ps. Inr (p # ps)))"

definition writable_roots :: "pyfs \<Rightarrow> pystr list \<Rightarrow> gate \<Rightarrow> (pystr list list) result" where
  "writable_roots F pc g =
     bind_result (writable_roots_from F pc (gt_roots g)) (\<lambda>ps. Inr (gt_cwd g # ps))"

text \<open>\<open>cand.relative_to(root)\<close> succeeds exactly when the root's parts are a prefix.\<close>

definition under :: "pystr list \<Rightarrow> pystr list \<Rightarrow> bool" where
  "under base cand \<longleftrightarrow> take (length base) cand = base"

definition under_root :: "pyfs \<Rightarrow> pystr list \<Rightarrow> gate \<Rightarrow> pystr \<Rightarrow> bool result" where
  "under_root F pc g path =
     (case full_path F g path of
        Inl e \<Rightarrow> if os_or_value e then Inr False else Inl e
      | Inr cand \<Rightarrow>
          bind_result (writable_roots F pc g) (\<lambda>roots. Inr (list_ex (\<lambda>r. under r cand) roots)))"

subsection \<open>The command allowlist\<close>

definition shell_operators :: "pystr list" where
  "shell_operators = [[59], [38], [124], [62], [60], [96], [36, 40], [40], [10], [13]]"

definition has_shell_operators :: "pystr \<Rightarrow> bool" where
  "has_shell_operators command = list_ex (\<lambda>op. has_sub op command) shell_operators"

definition entry_allows :: "pystr list \<Rightarrow> pystr \<Rightarrow> bool" where
  "entry_allows argv entry =
     (case shlex_split entry of
        Inl _ \<Rightarrow> False
      | Inr prefix \<Rightarrow> prefix \<noteq> [] \<and> take (length prefix) argv = prefix)"

definition command_allowed :: "gate \<Rightarrow> pystr \<Rightarrow> bool" where
  "command_allowed g command =
     (if command = [] \<or> has_shell_operators command then False
      else (case shlex_split command of
              Inl _ \<Rightarrow> False
            | Inr argv \<Rightarrow> argv \<noteq> [] \<and> list_ex (entry_allows argv) (gt_allowed_commands g)))"

subsection \<open>One request\<close>

definition begin_request :: "pyhost \<Rightarrow> json \<Rightarrow> pystr \<Rightarrow> pystr \<Rightarrow> pystr \<Rightarrow> gate \<Rightarrow> gate" where
  "begin_request H user_message project mission_id workflow_id g =
     g\<lparr>gt_context := \<lparr>cx_request = compile_request H user_message, cx_project = project,
         cx_mission_id = mission_id, cx_workflow_id = workflow_id, cx_mode = gt_authority_mode g\<rparr>\<rparr>"

definition merge_request :: "request_authority \<Rightarrow> request_authority \<Rightarrow> request_authority" where
  "merge_request current extra =
     \<lparr>ra_actions = ra_actions current \<union> ra_actions extra,
      ra_recipients = dedup (ra_recipients current @ ra_recipients extra),
      ra_request_sha256 = take 32 (ra_request_sha256 current) @ take 32 (ra_request_sha256 extra),
      ra_explicit = (ra_explicit current \<or> ra_explicit extra)\<rparr>"

definition extend_request :: "pyhost \<Rightarrow> json \<Rightarrow> gate \<Rightarrow> gate" where
  "extend_request H user_message g =
     g\<lparr>gt_context := (gt_context g)\<lparr>cx_request :=
         merge_request (cx_request (gt_context g)) (compile_request H user_message)\<rparr>\<rparr>"

text \<open>\<open>__post_init__\<close>: the working directory is resolved and the context takes the gate's authority mode.\<close>

definition gate_init :: "pyfs \<Rightarrow> pystr list \<Rightarrow> pystr \<Rightarrow> gate \<Rightarrow> gate result" where
  "gate_init F process_cwd cwd g =
     bind_result (root_path F process_cwd cwd) (\<lambda>p.
       Inr (g\<lparr>gt_cwd := p, gt_context := (gt_context g)\<lparr>cx_mode := gt_authority_mode g\<rparr>\<rparr>))"

subsection \<open>The decision\<close>

definition arrow_rule :: "pystr \<Rightarrow> pystr \<Rightarrow> pystr" where
  "arrow_rule tool_name target = tool_name @ [32, 0x2192, 32] @ target"

definition standing_rule_offer :: "pystr \<Rightarrow> pystr option \<Rightarrow> pystr option" where
  "standing_rule_offer tool_name target =
     (case target of
        None \<Rightarrow> None
      | Some t \<Rightarrow>
          if t = [] \<or> List.member no_standing_rule tool_name then None else Some (arrow_rule tool_name t))"

definition offer_text :: "pystr \<Rightarrow> pystr option \<Rightarrow> pystr" where
  "offer_text tool_name target = (case standing_rule_offer tool_name target of None \<Rightarrow> [] | Some s \<Rightarrow> s)"

definition grant_options :: "authority_context \<Rightarrow> grant_db option \<Rightarrow> action_intent \<Rightarrow> pystr list" where
  "grant_options cx store i =
     (if cx_mode cx = u ''review'' then []
      else if ai_effect i \<noteq> COMMIT \<or> ai_action i = [] \<or> ai_action i = u ''external_change'' \<or> store = None then []
      else (if cx_mission_id cx \<noteq> [] then [scope_value S_MISSION] else [])
         @ (if cx_workflow_id cx \<noteq> [] then [scope_value S_WORKFLOW] else [])
         @ (if cx_project cx \<noteq> [] then [scope_value S_PROJECT] else [])
         @ (if ai_connection_id i \<noteq> [] then [scope_value S_CONNECTION] else []))"

definition command_of :: "pyhost \<Rightarrow> pydict \<Rightarrow> pystr" where
  "command_of H args = str_or_empty H (or_json (dget_null args (u ''command'')) (dget_null args (u ''cmd'')))"

definition write_path_of :: "pyhost \<Rightarrow> pydict \<Rightarrow> 'a tool_scheme \<Rightarrow> (pystr option) result" where
  "write_path_of H args tool =
     (case dget_null args (u ''path'') of
        JNull \<Rightarrow> (case tool_write_path tool of None \<Rightarrow> Inr None | Some f \<Rightarrow> f args)
      | v \<Rightarrow> Inr (Some (py_str H v)))"

text \<open>The refusal of a local write, if there is one.\<close>

definition path_scope :: "pyhost \<Rightarrow> pyfs \<Rightarrow> pystr list \<Rightarrow> gate \<Rightarrow> pydict \<Rightarrow> 'a tool_scheme
    \<Rightarrow> (decision option) result" where
  "path_scope H F pc g args tool =
     (case write_path_of H args tool of
        Inl _ \<Rightarrow> Inr (Some ((decision0 WRITE_LOCAL False (u ''write target could not be resolved''))
                   \<lparr>dn_needs_user := gt_mode g \<noteq> M_AUTO\<rparr>))
      | Inr None \<Rightarrow> Inr None
      | Inr (Some path) \<Rightarrow>
          bind_result (under_root F pc g path) (\<lambda>ok.
            Inr (if ok then None
                 else if gt_mode g = M_AUTO
                 then Some (decision0 WRITE_LOCAL False (u ''path is outside the writable roots: '' @ path))
                 else Some (asking WRITE_LOCAL
                        (u ''writes outside '' @ path_text (gt_cwd g) @ u '' need approval'') (Some path) []))))"

definition external_target :: "pyhost \<Rightarrow> pystr \<Rightarrow> pydict \<Rightarrow> 'a tool_scheme \<Rightarrow> (pystr result) option
    \<Rightarrow> (pystr option) result" where
  "external_target H tool_name args tool origin =
     (case Option.bind (tool_mcp tool) (trusted_target H) of
        Some t \<Rightarrow> Inr (Some t)
      | None \<Rightarrow> target_for H tool_name args origin)"

definition target_text :: "pystr option \<Rightarrow> pystr" where
  "target_text target = (case target of None \<Rightarrow> [] | Some t \<Rightarrow> t)"

definition authority_verdict :: "pyhost \<Rightarrow> gate \<Rightarrow> grant_db option \<Rightarrow> pystr \<Rightarrow> pydict \<Rightarrow> 'a tool_scheme
    \<Rightarrow> pystr option \<Rightarrow> int \<Rightarrow> decision \<times> grant_db option" where
  "authority_verdict H g store tool_name args tool target now =
     (let i = intent_for H tool_name args (risk_value EXTERNAL) (target_text target) tool;
          (r, store') = engine H store i (gt_context g) now;
          d = (decision0 EXTERNAL False (ar_reason r))\<lparr>dn_target := target, dn_effect := effect_value (ai_effect i),
                dn_action := ai_action i, dn_basis := ar_basis r, dn_intent := Some (intent_dict H i),
                dn_grant_options := grant_options (gt_context g) store' i\<rparr> in
      if ar_decision r = ALLOW_SILENT \<or> ar_decision r = ALLOW_NOTIFY
      then (d\<lparr>dn_allowed := True, dn_notify := (ar_decision r = ALLOW_NOTIFY),
              dn_rule := (if ar_basis r \<noteq> [] then u ''authority: '' @ ar_basis r else [])\<rparr>, store')
      else if ar_decision r = DENY then (d, store')
      else (d\<lparr>dn_needs_user := True, dn_rule_offer := offer_text tool_name target\<rparr>, store'))"

definition external_verdict :: "pyhost \<Rightarrow> gate \<Rightarrow> grant_db option \<Rightarrow> pystr \<Rightarrow> pydict \<Rightarrow> 'a tool_scheme
    \<Rightarrow> pystr option \<Rightarrow> int \<Rightarrow> decision \<times> grant_db option" where
  "external_verdict H g store tool_name args tool target now =
     (let t = target_text target; offer = offer_text tool_name target in
      if tool_name = u ''browser_open'' \<and> t \<noteq> [] then
        (if navigation_allowed_without_prompt H (gt_site_access g) t (gt_sensitive_hosts g)
         then ((decision0 EXTERNAL True (u ''allowed by persistent browser site-access policy''))
                 \<lparr>dn_rule := arrow_rule (u ''browser site access'') t, dn_target := target\<rparr>, store)
         else (asking EXTERNAL (u ''browser site-access policy requires approval for '' @ t) target offer, store))
      else if t \<noteq> [] \<and> (tool_name, t) \<in> gt_session_rules g
      then ((decision0 EXTERNAL True (u ''allowed by rule: '' @ arrow_rule tool_name t))
              \<lparr>dn_rule := arrow_rule tool_name t, dn_target := target\<rparr>, store)
      else if gt_mode g = M_INTERACTIVE
      then (asking EXTERNAL (u ''interactive mode reviews every consequential action'') target offer, store)
      else if gt_authority_enabled g
      then authority_verdict H g store tool_name args tool target now
      else (asking EXTERNAL (u ''acts outside this machine'') target offer, store))"

definition evaluate :: "pyhost \<Rightarrow> pyfs \<Rightarrow> pystr list \<Rightarrow> gate \<Rightarrow> grant_db option \<Rightarrow> pystr \<Rightarrow> pydict
    \<Rightarrow> 'a tool_scheme \<Rightarrow> (pystr result) option \<Rightarrow> int \<Rightarrow> (decision \<times> grant_db option) result" where
  "evaluate H F pc g store tool_name args tool origin now =
     bind_result (classify H tool_name tool (gt_overrides g) args) (\<lambda>risk.
       let d = (\<lambda>ok why. Inr (decision0 risk ok (u why), store));
           command = command_of H args;
           place = path_text (gt_cwd g);
           writes = (if risk = WRITE_LOCAL then path_scope H F pc g args tool else Inr None) in
       if \<not> is_consequential risk then d True ''read''
       else if read_only_mode (gt_mode g)
       then Inr (decision0 risk False (mode_value (gt_mode g) @ u '' mode is read-only''), store)
       else if gt_mode g = M_TEST then
         (if risk = EXEC then
            (if command_allowed g command then d True ''test mode: detected verification command''
             else d False ''test mode only runs the proposed verification command'')
          else d False ''test mode is read-only except for verification'')
       else if tool_name \<in> gt_session_denied g then d False ''denied for this run''
       else bind_result writes (\<lambda>refusal.
         case refusal of
           Some dn \<Rightarrow> Inr (dn, store)
         | None \<Rightarrow>
             if gt_mode g = M_AUTO then d True ''auto mode''
             else if risk = EXEC then
               (if command_allowed g command then d True ''command on allowlist''
                else if gt_mode g = M_PROJECT
                then Inr (decision0 risk True (u ''project mode: commands run in '' @ place), store)
                else Inr (asking risk (u ''running commands needs approval'') None [], store))
             else if risk = WRITE_LOCAL then
               (if gt_mode g = M_PROJECT
                then Inr (decision0 risk True (u ''project mode: writes inside '' @ place), store)
                else Inr (asking risk (u ''writing files needs approval'') None [], store))
             else
               bind_result (external_target H tool_name args tool origin) (\<lambda>target.
                 Inr (external_verdict H g store tool_name args tool target now))))"

subsection \<open>What the human chose\<close>

definition scope_of_outcome :: "outcome \<Rightarrow> grant_scope option" where
  "scope_of_outcome x = (case x of ALLOW_MISSION \<Rightarrow> Some S_MISSION | ALLOW_WORKFLOW \<Rightarrow> Some S_WORKFLOW
     | ALLOW_PROJECT \<Rightarrow> Some S_PROJECT | ALLOW_CONNECTION \<Rightarrow> Some S_CONNECTION | _ \<Rightarrow> None)"

text \<open>The limit of a stored grant; a bounded intent carries no other amounts than these two.\<close>

definition amount_limit :: "amount \<Rightarrow> rat option" where
  "amount_limit a = (case a of Amount (Fin q) \<Rightarrow> Some q | _ \<Rightarrow> None)"

definition outcome_grant :: "authority_context \<Rightarrow> grant_scope \<Rightarrow> action_intent \<Rightarrow> pystr option \<Rightarrow> grant_request" where
  "outcome_grant cx wanted i target = \<lparr>
     gr_scope = wanted, gr_action = ai_action i,
     gr_project = (if wanted = S_PROJECT \<or> wanted = S_WORKFLOW \<or> wanted = S_MISSION then cx_project cx else []),
     gr_mission_id = (if wanted = S_MISSION then cx_mission_id cx else []),
     gr_workflow_id = (if wanted = S_WORKFLOW then cx_workflow_id cx else []),
     gr_connection_id = (if wanted = S_CONNECTION then ai_connection_id i else []),
     gr_target = or_str (ai_target i) (target_text target), gr_account = ai_account i,
     gr_recipients = (if ai_recipients i \<noteq> [] then ai_recipients i else ra_recipients (cx_request cx)),
     gr_max_amount = amount_limit (ai_amount i), gr_currency = ai_currency i,
     gr_expires_at = 0, gr_uses_left = 0, gr_source = u ''approval''\<rparr>"

lemma outcome_grant_simps:
  "gr_scope (outcome_grant cx wanted i target) = wanted" "gr_action (outcome_grant cx wanted i target) = ai_action i"
  "gr_project (outcome_grant cx wanted i target) =
     (if wanted = S_PROJECT \<or> wanted = S_WORKFLOW \<or> wanted = S_MISSION then cx_project cx else [])"
  "gr_mission_id (outcome_grant cx wanted i target) = (if wanted = S_MISSION then cx_mission_id cx else [])"
  "gr_workflow_id (outcome_grant cx wanted i target) = (if wanted = S_WORKFLOW then cx_workflow_id cx else [])"
  "gr_connection_id (outcome_grant cx wanted i target) = (if wanted = S_CONNECTION then ai_connection_id i else [])"
  "gr_target (outcome_grant cx wanted i target) = or_str (ai_target i) (target_text target)"
  "gr_account (outcome_grant cx wanted i target) = ai_account i"
  "gr_expires_at (outcome_grant cx wanted i target) = 0" "gr_uses_left (outcome_grant cx wanted i target) = 0"
  by (simp_all add: outcome_grant_def)

definition apply_outcome :: "pyhost \<Rightarrow> outcome \<Rightarrow> pystr \<Rightarrow> pystr option \<Rightarrow> decision option
    \<Rightarrow> pystr \<Rightarrow> int \<Rightarrow> gate \<Rightarrow> grant_db option \<Rightarrow> (gate \<times> grant_db option) result" where
  "apply_outcome H x tool_name target d new_id now g store =
     (if x = ALLOW_ALWAYS then
        Inr (if target_text target \<noteq> [] \<and> \<not> List.member no_standing_rule tool_name
             then g\<lparr>gt_session_rules := insert (tool_name, target_text target) (gt_session_rules g)\<rparr>
             else g, store)
      else if x = REJECT_ALWAYS then Inr (g\<lparr>gt_session_denied := insert tool_name (gt_session_denied g)\<rparr>, store)
      else case scope_of_outcome x of
        None \<Rightarrow> Inr (g, store)
      | Some wanted \<Rightarrow>
          (case (Option.bind d dn_intent, store) of
             (Some i, Some db) \<Rightarrow>
               if \<not> List.member (case d of Some dn \<Rightarrow> dn_grant_options dn | None \<Rightarrow> []) (scope_value wanted)
               then Inl (ValueError ''the requested grant scope was not offered'')
               else bind_result (add_grant H db (outcome_grant (gt_context g) wanted i target) new_id now)
                      (\<lambda>(_, db'). Inr (g, Some db'))
           | _ \<Rightarrow> Inl (ValueError ''persistent authority needs a bounded action intent and store'')))"

definition mode_from_env :: "pyhost \<Rightarrow> mode \<Rightarrow> mode" where
  "mode_from_env H fallback =
     (let raw = py_lower H (strip (case environ H (u ''COLLIE_MODE'') of None \<Rightarrow> [] | Some s \<Rightarrow> s)) in
      case mode_of_value raw of
        None \<Rightarrow> fallback
      | Some m \<Rightarrow> if raw = [] then fallback else m)"

subsection \<open>External actions\<close>

lemma decision0_simps [simp]:
  "dn_allowed (decision0 r ok why) = ok" "dn_needs_user (decision0 r ok why) = False"
  "dn_target (decision0 r ok why) = None" "dn_rule_offer (decision0 r ok why) = []"
  "dn_risk (decision0 r ok why) = risk_value r" "dn_grant_options (decision0 r ok why) = []"
  "dn_allowed (asking r why t offer) = False" "dn_needs_user (asking r why t offer) = True"
  "dn_rule_offer (asking r why t offer) = offer" "dn_target (asking r why t offer) = t"
  "dn_risk (asking r why t offer) = risk_value r" "dn_grant_options (asking r why t offer) = []"
  by (simp_all add: decision0_def asking_def)

lemma consequential_simps [simp]:
  "is_consequential EXTERNAL" "is_consequential EXEC" "is_consequential WRITE_LOCAL" "\<not> is_consequential READ"
  by (simp_all add: is_consequential_def)

definition session_rule_covers :: "gate \<Rightarrow> pystr \<Rightarrow> pystr option \<Rightarrow> bool" where
  "session_rule_covers g tool_name target \<longleftrightarrow>
     target_text target \<noteq> [] \<and> (tool_name, target_text target) \<in> gt_session_rules g"

definition navigation_covers :: "pyhost \<Rightarrow> gate \<Rightarrow> pystr \<Rightarrow> pystr option \<Rightarrow> bool" where
  "navigation_covers H g tool_name target \<longleftrightarrow>
     tool_name = u ''browser_open'' \<and> target_text target \<noteq> []
     \<and> navigation_allowed_without_prompt H (gt_site_access g) (target_text target) (gt_sensitive_hosts g)"

text \<open>Why the engine allowed an effect, as its own lemma states it.\<close>

definition authority_reason :: "pyhost \<Rightarrow> grant_db option \<Rightarrow> authority_context \<Rightarrow> action_intent \<Rightarrow> int \<Rightarrow> bool" where
  "authority_reason H store cx i now \<longleftrightarrow>
     ai_effect i = OBSERVE
     \<or> (ai_effect i = PREPARE \<or> ai_effect i = ACT) \<and> cx_mode cx \<noteq> u ''review''
     \<or> cx_mode cx \<noteq> u ''review'' \<and> (\<exists>db g. store = Some db \<and> g \<in> grants_of db
          \<and> grant_matches H g (bounded H i) cx now)
     \<or> ai_effect i = COMMIT \<and> cx_mode cx \<noteq> u ''review'' \<and> request_allows H (cx_request cx) (bounded H i)"

definition intent_of_call :: "pyhost \<Rightarrow> pystr \<Rightarrow> pydict \<Rightarrow> 'a tool_scheme \<Rightarrow> pystr option \<Rightarrow> action_intent" where
  "intent_of_call H tool_name args tool target =
     intent_for H tool_name args (risk_value EXTERNAL) (target_text target) tool"

lemma authority_verdict_allows:
  assumes "authority_verdict H g store tool_name args tool target now = (d, store')" "dn_allowed d"
  shows "authority_reason H store (gt_context g) (intent_of_call H tool_name args tool target) now"
proof -
  let ?i = "intent_of_call H tool_name args tool target"
  obtain r s where rs: "engine H store ?i (gt_context g) now = (r, s)" by fastforce
  with assms have "allows r"
    by (auto simp: authority_verdict_def Let_def intent_of_call_def allows_def split: if_splits)
  from ledger.allow_reasons [OF rs this] show ?thesis
    unfolding authority_reason_def by blast
qed

lemma external_verdict_allows:
  assumes "external_verdict H g store tool_name args tool target now = (d, store')" "dn_allowed d"
  shows "navigation_covers H g tool_name target \<or> session_rule_covers g tool_name target
    \<or> gt_mode g \<noteq> M_INTERACTIVE \<and> gt_authority_enabled g
        \<and> authority_reason H store (gt_context g) (intent_of_call H tool_name args tool target) now"
  using assms authority_verdict_allows
  unfolding external_verdict_def Let_def navigation_covers_def session_rule_covers_def
  by (fastforce split: if_splits)

lemma evaluate_external:
  assumes "classify H tool_name tool (gt_overrides g) args = Inr EXTERNAL"
  shows "evaluate H F pc g store tool_name args tool origin now =
    (if read_only_mode (gt_mode g)
     then Inr (decision0 EXTERNAL False (mode_value (gt_mode g) @ u '' mode is read-only''), store)
     else if gt_mode g = M_TEST
     then Inr (decision0 EXTERNAL False (u ''test mode is read-only except for verification''), store)
     else if tool_name \<in> gt_session_denied g then Inr (decision0 EXTERNAL False (u ''denied for this run''), store)
     else if gt_mode g = M_AUTO then Inr (decision0 EXTERNAL True (u ''auto mode''), store)
     else bind_result (external_target H tool_name args tool origin) (\<lambda>target.
            Inr (external_verdict H g store tool_name args tool target now)))"
  using assms by (simp add: evaluate_def Let_def)

text \<open>
  Property C9. Nothing leaves the machine without a reason. A call of external class is
  allowed only in auto mode, or in project or interactive mode when the tool was not denied
  for the run and: the site-access policy covers this navigation, or a rule the user pinned
  to this tool and this very target exists, or (project mode) the effect is observation or
  a reversible step outside review mode, or a stored grant in the ledger matches it, or it
  is a commit that the authenticated request asked for.
\<close>

theorem external_needs_reason:
  assumes "classify H tool_name tool (gt_overrides g) args = Inr EXTERNAL"
    and "evaluate H F pc g store tool_name args tool origin now = Inr (d, store')" "dn_allowed d"
  shows "tool_name \<notin> gt_session_denied g \<and>
    (gt_mode g = M_AUTO
     \<or> (gt_mode g = M_PROJECT \<or> gt_mode g = M_INTERACTIVE) \<and>
       (\<exists>target. external_target H tool_name args tool origin = Inr target \<and>
         (navigation_covers H g tool_name target \<or> session_rule_covers g tool_name target
          \<or> gt_mode g = M_PROJECT \<and> gt_authority_enabled g
              \<and> authority_reason H store (gt_context g) (intent_of_call H tool_name args tool target) now)))"
proof -
  have m: "read_only_mode (gt_mode g) \<or> gt_mode g = M_TEST \<or> gt_mode g = M_AUTO
      \<or> gt_mode g = M_PROJECT \<or> gt_mode g = M_INTERACTIVE"
    by (cases "gt_mode g") (simp_all add: read_only_mode_def)
  note E = assms(2) [unfolded evaluate_external [OF assms(1)]]
  show ?thesis
  proof (cases "gt_mode g = M_AUTO")
    case True
    with E assms(3) show ?thesis by (auto simp: read_only_mode_def split: if_splits)
  next
    case False
    with E assms(3) m obtain target where
      t: "external_target H tool_name args tool origin = Inr target" "tool_name \<notin> gt_session_denied g"
        "external_verdict H g store tool_name args tool target now = (d, store')"
        "gt_mode g = M_PROJECT \<or> gt_mode g = M_INTERACTIVE"
      by (auto simp: bind_result_Inr_iff split: if_splits)
    from external_verdict_allows [OF t(3) assms(3)] t show ?thesis by blast
  qed
qed

definition tilde_fs :: pyfs where
  "tilde_fs = \<lparr>fs_expand = (\<lambda>p. Inr (take 1 p = [47], filter (\<lambda>w. w \<noteq> []) (split_on 47 p))),
     fs_resolve = (\<lambda>parts. if List.member parts [46, 46] then Inl (OtherError ''OSError'') else Inr parts)\<rparr>"

definition demo_gate :: gate where
  "demo_gate = \<lparr>gt_cwd = [u ''repo''], gt_mode = M_PROJECT, gt_roots = [],
     gt_allowed_commands = [u ''git status''], gt_session_rules = {}, gt_session_denied = {},
     gt_overrides = None, gt_site_access = u ''ask_every_site'', gt_sensitive_hosts = SiteItems [],
     gt_authority_enabled = True, gt_authority_mode = u ''hands_off'', gt_context = send_ctx\<rparr>"

lemma demo_gate_simps [simp]:
  "gt_overrides demo_gate = None" "gt_mode demo_gate = M_PROJECT" "gt_session_denied demo_gate = {}"
  "gt_cwd demo_gate = [u ''repo'']" "gt_context demo_gate = send_ctx" "gt_authority_enabled demo_gate"
  "gt_roots demo_gate = []" "gt_allowed_commands demo_gate = [u ''git status'']"
  "gt_session_rules demo_gate = {}"
  by (simp_all add: demo_gate_def)

lemma read_only_mode_simps [simp]:
  "read_only_mode M_PLAN" "read_only_mode M_REVIEW" "\<not> read_only_mode M_TEST" "\<not> read_only_mode M_PROJECT"
  "\<not> read_only_mode M_INTERACTIVE" "\<not> read_only_mode M_AUTO"
  by (simp_all add: read_only_mode_def)

lemma bare_tool_simps [simp]:
  "tool_mcp bare_tool = None" "tool_intent bare_tool = None" "tool_write_path bare_tool = None"
  "tool_risk bare_tool = Undeclared" "tool_annotations bare_tool = []" "\<not> tool_manifest_approved bare_tool"
  by (simp_all add: bare_tool_def)

lemma classify_press: "classify H (u ''browser_press'') bare_tool None args = Inr EXTERNAL"
  by (simp add: classify_def classify_builtin_def risk_base_def)

lemma press_target: "external_target H (u ''browser_press'') args bare_tool (Some (Inl e)) = Inr None"
  by (simp add: external_target_def target_for_def starts_with_def no_standing_rule_def) (simp add: u_def)

theorem external_needs_reason_witness:
  "\<exists>d. evaluate ascii_host tilde_fs [] (demo_gate\<lparr>gt_session_rules := {(u ''browser_press'', u ''https://a.example'')}\<rparr>)
         None (u ''browser_press'') [(u ''key'', JStr (u ''Enter''))] bare_tool
         (Some (Inr (u ''https://a.example/x''))) 0 = Inr (d, None) \<and> dn_allowed d
       \<and> session_rule_covers (demo_gate\<lparr>gt_session_rules := {(u ''browser_press'', u ''https://a.example'')}\<rparr>)
           (u ''browser_press'') (Some (u ''https://a.example''))"
proof -
  let ?g = "demo_gate\<lparr>gt_session_rules := {(u ''browser_press'', u ''https://a.example'')}\<rparr>"
  let ?args = "[(u ''key'', JStr (u ''Enter''))]"
  have o: "origin_of ascii_host (u ''https://a.example/x'') = u ''https://a.example''"
    by (simp add: origin_of_def urlsplit_def url_scheme_def url_clean_def url_netloc_def strip_def
        u_def url_delim_def scheme_cp_def is_alpha_cp_def is_digit_cp_def space_cp_def
        lower_cp_def py_lower_def)
  have t: "external_target ascii_host (u ''browser_press'') ?args bare_tool (Some (Inr (u ''https://a.example/x'')))
      = Inr (Some (u ''https://a.example''))"
    by (simp add: external_target_def target_for_def no_standing_rule_def o opt_str_def)
      (simp add: starts_with_def u_def)
  have c: "classify ascii_host (u ''browser_press'') bare_tool (gt_overrides ?g) ?args = Inr EXTERNAL"
    by (simp add: classify_press demo_gate_def)
  have cov: "session_rule_covers ?g (u ''browser_press'') (Some (u ''https://a.example''))"
    by (simp add: session_rule_covers_def target_text_def)
  obtain d where d: "evaluate ascii_host tilde_fs [] ?g None (u ''browser_press'') ?args bare_tool
      (Some (Inr (u ''https://a.example/x''))) 0 = Inr (d, None)" "dn_allowed d"
    unfolding evaluate_external [OF c] t
    by (simp add: external_verdict_def target_text_def demo_gate_def read_only_mode_def Let_def)
  from external_needs_reason [OF c d] d cov show ?thesis by blast
qed

subsection \<open>Read-only, test and local writes\<close>

text \<open>
  Plan and review mode change nothing and test mode only verifies: what they
  allow is a read, or in test mode a command on the allowlist; no grant is consumed.
\<close>

theorem observe_only_modes:
  assumes "evaluate H F pc g store tool_name args tool origin now = Inr (d, store')" "dn_allowed d"
    and "read_only_mode (gt_mode g) \<or> gt_mode g = M_TEST"
  shows "store' = store \<and>
    (classify H tool_name tool (gt_overrides g) args = Inr READ
     \<or> gt_mode g = M_TEST \<and> classify H tool_name tool (gt_overrides g) args = Inr EXEC
         \<and> command_allowed g (command_of H args))"
proof -
  obtain risk where r: "classify H tool_name tool (gt_overrides g) args = Inr risk"
    using assms(1) by (auto simp: evaluate_def bind_result_Inr_iff)
  show ?thesis
    using assms r by (cases risk) (auto simp: evaluate_def Let_def is_consequential_def split: if_splits)
qed

theorem observe_only_modes_witness:
  "\<exists>d. evaluate ascii_host tilde_fs [] (demo_gate\<lparr>gt_mode := M_TEST\<rparr>) None (u ''bash'')
         [(u ''command'', JStr (u ''git status -s''))] bare_tool None 0 = Inr (d, None) \<and> dn_allowed d
     \<and> command_allowed (demo_gate\<lparr>gt_mode := M_TEST\<rparr>)
         (command_of ascii_host [(u ''command'', JStr (u ''git status -s''))])"
proof -
  let ?g = "demo_gate\<lparr>gt_mode := M_TEST\<rparr>" and ?args = "[(u ''command'', JStr (u ''git status -s''))]"
  have c: "classify ascii_host (u ''bash'') bare_tool None ?args = Inr EXEC"
    by (simp add: classify_def classify_builtin_def risk_base_def)
  have cmd: "command_of ascii_host ?args = u ''git status -s''"
    by (simp add: command_of_def or_json_def)
  have ok: "command_allowed ?g (u ''git status -s'')"
    by (simp add: command_allowed_def has_shell_operators_def shell_operators_def entry_allows_def
        demo_gate_def u_def starts_with_def shlex_split_def shlex_space_def shlex_emit_def)
  obtain d where d: "evaluate ascii_host tilde_fs [] ?g None (u ''bash'') ?args bare_tool None 0 = Inr (d, None)"
      "dn_allowed d"
    using ok by (simp add: evaluate_def Let_def c cmd)
  have "gt_mode ?g = M_TEST" by simp
  with observe_only_modes [OF d] c have "command_allowed ?g (command_of ascii_host ?args)" by simp
  with d show ?thesis by blast
qed

text \<open>
  A local write is allowed without asking only in project or auto mode, and
  only when no path is known or the path, expanded and resolved, lies under the working
  directory or an extra writable root. A path outside, a path that cannot be resolved and
  a tool whose own write target cannot be computed are never allowed silently.
\<close>

theorem writes_stay_under_roots:
  assumes "classify H tool_name tool (gt_overrides g) args = Inr WRITE_LOCAL"
    and "evaluate H F pc g store tool_name args tool origin now = Inr (d, store')" "dn_allowed d"
  shows "(gt_mode g = M_PROJECT \<or> gt_mode g = M_AUTO) \<and>
    (write_path_of H args tool = Inr None
     \<or> (\<exists>path cand bases base. write_path_of H args tool = Inr (Some path) \<and> full_path F g path = Inr cand
          \<and> writable_roots F pc g = Inr bases \<and> base \<in> set bases \<and> take (length base) cand = base))"
proof -
  have m: "\<not> read_only_mode (gt_mode g) \<and> gt_mode g \<noteq> M_TEST \<and> tool_name \<notin> gt_session_denied g"
    using assms by (auto simp: evaluate_def Let_def split: if_splits)
  with assms obtain refusal where s: "path_scope H F pc g args tool = Inr refusal"
    by (auto simp: evaluate_def Let_def bind_result_Inr_iff)
  have none: "refusal = None"
  proof (cases refusal)
    case (Some dn)
    then have "\<not> dn_allowed dn"
      using s by (auto simp: path_scope_def bind_result_Inr_iff split: sum.splits option.splits if_splits)
    with Some s m assms show ?thesis by (simp add: evaluate_def Let_def)
  qed simp
  have "gt_mode g = M_PROJECT \<or> gt_mode g = M_AUTO"
    using assms m s none by (auto simp: evaluate_def Let_def split: if_splits)
  moreover have "write_path_of H args tool = Inr None
      \<or> (\<exists>path. write_path_of H args tool = Inr (Some path) \<and> under_root F pc g path = Inr True)"
    using s none by (auto simp: path_scope_def bind_result_Inr_iff split: sum.splits option.splits if_splits)
  moreover have "\<exists>cand bases base. full_path F g path = Inr cand \<and> writable_roots F pc g = Inr bases
      \<and> base \<in> set bases \<and> take (length base) cand = base"
    if "under_root F pc g path = Inr True" for path
    using that by (auto simp: under_root_def bind_result_Inr_iff list_ex_iff under_def split: sum.splits if_splits)
  ultimately show ?thesis by blast
qed

theorem writes_stay_under_roots_witness:
  "\<exists>d. evaluate ascii_host tilde_fs [] demo_gate None (u ''write_file'') [(u ''path'', JStr (u ''a/b''))]
         bare_tool None 0 = Inr (d, None) \<and> dn_allowed d
     \<and> full_path tilde_fs demo_gate (u ''a/b'') = Inr [u ''repo'', u ''a'', u ''b'']"
proof -
  let ?args = "[(u ''path'', JStr (u ''a/b''))]"
  have c: "classify ascii_host (u ''write_file'') bare_tool (gt_overrides demo_gate) ?args = Inr WRITE_LOCAL"
    by (simp add: classify_def classify_builtin_def risk_base_def)
  have f: "full_path tilde_fs demo_gate (u ''a/b'') = Inr [u ''repo'', u ''a'', u ''b'']"
    by (simp add: full_path_def tilde_fs_def u_def)
  have w: "write_path_of ascii_host ?args bare_tool = Inr (Some (u ''a/b''))"
    by (simp add: write_path_of_def)
  have p: "path_scope ascii_host tilde_fs [] demo_gate ?args bare_tool = Inr None"
    by (simp add: path_scope_def w under_root_def f writable_roots_def under_def)
  obtain d where d: "evaluate ascii_host tilde_fs [] demo_gate None (u ''write_file'') ?args bare_tool None 0
      = Inr (d, None)" "dn_allowed d"
    using c by (simp add: evaluate_def Let_def p)
  from writes_stay_under_roots [OF c d] d f show ?thesis by blast
qed

text \<open>
  The command allowlist works on words: for a command and entries made of
  plain words, the command runs without asking exactly when it carries no shell operator
  and some non-empty entry is a prefix of its word list (so an entry for \<open>git status\<close>
  covers \<open>git status -s\<close> and neither \<open>git statusfoo\<close> nor \<open>git\<close>).
\<close>

theorem allowlist_is_word_prefix:
  assumes "list_all plain_word ws" "list_all (list_all plain_word) entries"
    and "gt_allowed_commands g = map (join [32]) entries"
  shows "command_allowed g (join [32] ws) \<longleftrightarrow>
    \<not> has_shell_operators (join [32] ws) \<and> (\<exists>ps \<in> set entries. ps \<noteq> [] \<and> take (length ps) ws = ps)"
proof -
  have e: "entry_allows ws (join [32] ps) \<longleftrightarrow> ps \<noteq> [] \<and> take (length ps) ws = ps" if "ps \<in> set entries" for ps
    using that assms(2) by (simp add: entry_allows_def shlex_plain_words list_all_iff)
  have "join [32] ws = [] \<longleftrightarrow> ws = []"
    using assms(1) by (induction ws rule: induct_list012) (auto simp: plain_word_def)
  then show ?thesis
    using e assms(1,3) by (auto simp: command_allowed_def shlex_plain_words list_ex_iff)
qed

theorem allowlist_is_word_prefix_witness:
  "command_allowed demo_gate (join [32] [u ''git'', u ''status'', u ''-s''])
   \<and> \<not> command_allowed demo_gate (join [32] [u ''git'', u ''statusfoo''])"
proof -
  have w: "list_all plain_word [u ''git'', u ''status'', u ''-s'']" "list_all plain_word [u ''git'', u ''statusfoo'']"
    by (simp_all add: plain_word_def shlex_space_def u_def)
  have e: "list_all (list_all plain_word) [[u ''git'', u ''status'']]"
    by (simp add: plain_word_def shlex_space_def u_def)
  have g: "gt_allowed_commands demo_gate = map (join [32]) [[u ''git'', u ''status'']]"
    by (simp add: u_def)
  have "\<not> has_shell_operators (join [32] [u ''git'', u ''status'', u ''-s''])"
    by (simp add: has_shell_operators_def shell_operators_def u_def starts_with_def)
  then show ?thesis
    using allowlist_is_word_prefix [OF w(1) e g] allowlist_is_word_prefix [OF w(2) e g] by simp
qed

subsection \<open>The rest of the run honours the answers\<close>

text \<open>
  What the surfaces do to the gate's state during a run: record an answer, start a request,
  extend it. An operation that raises leaves the state alone.
\<close>

datatype gate_op =
    GOutcome outcome pystr "pystr option" "decision option" pystr int
  | GBegin json pystr pystr pystr
  | GExtend json

fun gate_step :: "pyhost \<Rightarrow> gate_op \<Rightarrow> gate \<times> grant_db option \<Rightarrow> gate \<times> grant_db option" where
  "gate_step H (GOutcome x tool_name target d new_id now) (g, store) =
     (case apply_outcome H x tool_name target d new_id now g store of Inl _ \<Rightarrow> (g, store) | Inr s \<Rightarrow> s)"
| "gate_step H (GBegin msg project mission workflow) (g, store) =
     (begin_request H msg project mission workflow g, store)"
| "gate_step H (GExtend msg) (g, store) = (extend_request H msg g, store)"

inductive gate_reach :: "pyhost \<Rightarrow> gate \<times> grant_db option \<Rightarrow> gate \<times> grant_db option \<Rightarrow> bool" for H s0 where
  start: "gate_reach H s0 s0"
| step: "gate_reach H s0 s \<Longrightarrow> gate_reach H s0 (gate_step H op s)"

inductive_cases gate_reachE: "gate_reach H s0 s"

lemma apply_outcome_gate:
  assumes "apply_outcome H x tool_name target d new_id now g store = Inr (g', store')"
  shows "gt_mode g' = gt_mode g" "gt_overrides g' = gt_overrides g" "gt_context g' = gt_context g"
    "gt_session_denied g \<subseteq> gt_session_denied g'"
    "gt_session_rules g' \<subseteq> gt_session_rules g
       \<union> {(tool_name, target_text target) |_. x = ALLOW_ALWAYS \<and> target_text target \<noteq> []
             \<and> \<not> List.member no_standing_rule tool_name}"
  using assms
  by (auto simp: apply_outcome_def bind_result_Inr_iff split: if_splits option.splits)

lemma gate_step_keeps:
  "gt_mode (fst (gate_step H op s)) = gt_mode (fst s)
   \<and> gt_overrides (fst (gate_step H op s)) = gt_overrides (fst s)
   \<and> gt_session_denied (fst s) \<subseteq> gt_session_denied (fst (gate_step H op s))"
proof (cases s)
  case (Pair g store)
  show ?thesis
  proof (cases op)
    case (GOutcome x tool_name target d new_id now)
    show ?thesis
    proof (cases "apply_outcome H x tool_name target d new_id now g store")
      case (Inl e)
      then show ?thesis by (simp add: Pair GOutcome)
    next
      case (Inr s')
      then obtain g' store' where
        a: "apply_outcome H x tool_name target d new_id now g store = Inr (g', store')" by (cases s') simp
      from apply_outcome_gate [OF a] a show ?thesis by (simp add: Pair GOutcome)
    qed
  qed (simp_all add: Pair begin_request_def extend_request_def)
qed

lemma gate_reach_keeps:
  "gate_reach H s0 s \<Longrightarrow> gt_mode (fst s) = gt_mode (fst s0) \<and> gt_overrides (fst s) = gt_overrides (fst s0)
     \<and> gt_session_denied (fst s0) \<subseteq> gt_session_denied (fst s)"
proof (induction rule: gate_reach.induct)
  case (step s op)
  then show ?case using gate_step_keeps [of H op s] by auto
qed simp

lemma gate_step_rules:
  assumes "r \<in> gt_session_rules (fst (gate_step H op s))" "r \<notin> gt_session_rules (fst s)"
  shows "snd r \<noteq> [] \<and> \<not> List.member no_standing_rule (fst r)"
proof (cases s)
  case (Pair g store)
  show ?thesis
  proof (cases op)
    case (GOutcome x tool_name target d new_id now)
    then obtain g' store' where a: "apply_outcome H x tool_name target d new_id now g store = Inr (g', store')"
        "r \<in> gt_session_rules g'"
      using assms Pair by (auto split: sum.splits)
    from apply_outcome_gate(5) [OF a(1)] a(2) assms(2) Pair show ?thesis by auto
  qed (use assms Pair in \<open>simp_all add: begin_request_def extend_request_def\<close>)
qed



subsection \<open>An approved scope is honoured\<close>

lemma match_loop_finds:
  "row \<in> set rows \<Longrightarrow> grant_matches H (decode_row row) i cx now \<Longrightarrow> g_scope (decode_row row) \<noteq> S_ONCE \<Longrightarrow>
     \<exists>g. fst (match_loop H i cx now rows db) = Some g"
  by (induction H i cx now rows db rule: match_loop.induct) (auto simp: Let_def split: prod.splits)

lemma take_id: "length xs \<le> n \<Longrightarrow> take n xs = xs"
  by simp

lemma upper_cp_idem [simp]: "upper_cp (upper_cp c) = upper_cp c"
  by (auto simp: upper_cp_def)

lemma py_upper_idem_ascii:
  assumes "is_ascii s" "s = py_upper H s0" "is_ascii s0 \<or> py_upper H s = s"
  shows "py_upper H s = s"
  using assms by (auto simp: py_upper_def split: if_splits)

text \<open>The contexts and intents whose texts fit the ledger's columns untruncated.\<close>

definition context_fits :: "authority_context \<Rightarrow> bool" where
  "context_fits cx \<longleftrightarrow> length (cx_project cx) \<le> 200 \<and> length (cx_mission_id cx) \<le> 200
     \<and> length (cx_workflow_id cx) \<le> 200
     \<and> list_all (\<lambda>x. x \<noteq> [] \<and> length x \<le> 200) (ra_recipients (cx_request cx))"

definition intent_fits :: "action_intent \<Rightarrow> pystr option \<Rightarrow> bool" where
  "intent_fits j target \<longleftrightarrow> (ai_target j \<noteq> [] \<or> target_text target = [])
     \<and> ai_currency j = map upper_cp (ai_currency j) \<and> is_ascii (ai_currency j) \<and> length (ai_currency j) \<le> 12"

lemma same_or_unset_refl [simp]: "same_or_unset H s s"
  by (simp add: same_or_unset_def)

lemma same_or_unset_Nil [simp]: "same_or_unset H [] s"
  by (simp add: same_or_unset_def)

lemma same_or_unset_if [simp]: "same_or_unset H (if b then s else []) s"
  by simp

lemma take_if_Nil: "length s \<le> n \<Longrightarrow> take n (if b then s else []) = (if b then s else [])"
  by simp

lemma kept_recipients:
  "list_all (\<lambda>x. x \<noteq> [] \<and> length x \<le> 200) xs \<Longrightarrow>
     dedup (map (take 200) (filter (\<lambda>x. x \<noteq> []) xs)) = dedup xs"
  by (induction xs) (auto simp: dedup_def list_all_iff filter_id_conv intro!: arg_cong [of _ _ "dedup_acc _"] map_idI)

lemma fresh_grant_matches:
  assumes j: "j = bounded H i" and cx: "context_fits cx" and fit: "intent_fits j target"
    and wanted: "wanted \<noteq> S_ONCE"
  shows "grant_matches H (make_grant H (outcome_grant cx wanted j target) gid t1) j cx t2"
proof -
  note B = bounded_limits [of H i, folded j]
  let ?g = "make_grant H (outcome_grant cx wanted j target) gid t1"
  have rec: "list_all (\<lambda>x. x \<noteq> [] \<and> length x \<le> 200) (gr_recipients (outcome_grant cx wanted j target))"
    using B cx by (simp add: outcome_grant_def context_fits_def)
  have up: "py_upper H (ai_currency j) = ai_currency j"
    using fit by (simp add: intent_fits_def py_upper_def)
  have "recipients_match H ?g j cx"
    using kept_recipients [OF rec]
    by (auto simp: recipients_match_def make_grant_def outcome_grant_def Let_def)
  moreover have "amount_matches H ?g j"
    using B fit up
    by (auto simp: amount_matches_def make_grant_def outcome_grant_def amount_limit_def exceeds_def intent_fits_def
        split: option.splits)
  moreover have "take 300 (or_str (ai_target j) (target_text target)) = ai_target j"
    using B fit by (cases "ai_target j = []") (auto simp: intent_fits_def)
  ultimately show ?thesis
    using B cx
    by (simp add: grant_matches_def outcome_grant_simps context_fits_def take_if_Nil del: take_all_iff split del: if_split)
qed

lemma matching_finds_fresh:
  assumes "add_grant H db r gid t1 = Inr (g, db')" "gr_scope r \<noteq> S_ONCE"
    and "grant_matches H (make_grant H r gid t1) j cx t2"
  shows "\<exists>g. fst (matching H db' j cx t2) = Some g"
proof -
  let ?row = "\<lparr>row_grant = make_grant H r gid t1, row_recipients = Some (g_recipients (make_grant H r gid t1))\<rparr>"
  have d: "decode_row ?row = make_grant H r gid t1" by (simp add: decode_row_def)
  have "?row \<in> set db'"
    using assms(1) by (auto simp: add_grant_def Let_def split: if_splits)
  then have "?row \<in> set (match_rows db' (ai_action j))"
    using grant_matches_D [OF assms(3)] by (simp add: match_rows_def)
  moreover have "g_scope (make_grant H r gid t1) \<noteq> S_ONCE" using assms(2) by (simp add: make_grant_def)
  ultimately show ?thesis
    unfolding matching_def using assms(3) by (intro match_loop_finds [of ?row]) (simp_all only: d not_False_eq_True)
qed

lemma grant_options_commit:
  "s \<in> set (grant_options cx store i) \<Longrightarrow> ai_effect i = COMMIT \<and> cx_mode cx \<noteq> u ''review''"
  by (auto simp: grant_options_def split: if_splits)

lemma decide_with_match:
  assumes "ai_effect i = COMMIT" "cx_mode cx \<noteq> u ''review''"
    and "fst (matching H db (bounded H i) cx t) = Some g"
  shows "allows (fst (engine H (Some db) i cx t))"
  using assms by (cases "matching H db (bounded H i) cx t") (simp add: decide_def Let_def allows_def)

lemma offered_only_by_authority:
  assumes "external_verdict H g store tool_name args tool target now = (d, store')" "dn_grant_options d \<noteq> []"
  shows "authority_verdict H g store tool_name args tool target now = (d, store')
    \<and> (\<forall>store''. external_verdict H g store'' tool_name args tool target t
         = authority_verdict H g store'' tool_name args tool target t)"
  using assms by (auto simp: external_verdict_def Let_def split: if_splits)

lemma authority_verdict_fields:
  assumes "authority_verdict H g store tool_name args tool target now = (d, store')"
  shows "dn_target d = target" "dn_intent d = Some (bounded H (intent_of_call H tool_name args tool target))"
    "\<exists>s. dn_grant_options d = grant_options (gt_context g) s (intent_of_call H tool_name args tool target)"
  using assms
  by (auto simp: authority_verdict_def Let_def intent_of_call_def intent_dict_def split: prod.splits if_splits)

lemma authority_verdict_allowed:
  assumes "allows (fst (engine H store (intent_of_call H tool_name args tool target) (gt_context g) now))"
  shows "dn_allowed (fst (authority_verdict H g store tool_name args tool target now))"
  using assms
  by (auto simp: authority_verdict_def Let_def intent_of_call_def allows_def split: prod.splits)

text \<open>
  A persistent approval is honoured. When the gate evaluated an external call
  and the user answered with a scope the decision offered (mission, workflow, project or
  connection), the same call in the same request is allowed at every later evaluation,
  whatever the time, without asking again (for contexts and intents whose texts fit the
  ledger's columns).
\<close>

theorem approved_scope_is_honoured:
  assumes cl: "classify H tool_name tool (gt_overrides g) args = Inr EXTERNAL"
    and ev: "evaluate H F pc g store0 tool_name args tool origin now = Inr (d, store1)"
    and sc: "scope_of_outcome x = Some wanted"
    and ap: "apply_outcome H x tool_name (dn_target d) (Some d) gid t1 g store1 = Inr (g2, store2)"
    and fits: "context_fits (gt_context g)"
    and jfits: "\<forall>j. dn_intent d = Some j \<longrightarrow> intent_fits j (dn_target d)"
  shows "\<exists>d2 store3. evaluate H F pc g2 store2 tool_name args tool origin t2 = Inr (d2, store3) \<and> dn_allowed d2"
proof -
  have x: "x \<noteq> ALLOW_ALWAYS" "x \<noteq> REJECT_ALWAYS" and once: "wanted \<noteq> S_ONCE"
    using sc by (cases x; auto simp: scope_of_outcome_def)+
  from ap obtain j db db2 g' where j: "dn_intent d = Some j" and st: "store1 = Some db" "store2 = Some db2"
    and off: "scope_value wanted \<in> set (dn_grant_options d)"
    and add: "add_grant H db (outcome_grant (gt_context g) wanted j (dn_target d)) gid t1 = Inr (g', db2)"
    and g2: "g2 = g"
    using x sc by (auto simp: apply_outcome_def bind_result_Inr_iff split: option.splits if_splits)
  from off have ne: "dn_grant_options d \<noteq> []" by auto
  note E = evaluate_external [OF cl]
  from ev ne obtain target where mode: "\<not> read_only_mode (gt_mode g)" "gt_mode g \<noteq> M_TEST" "gt_mode g \<noteq> M_AUTO"
      "tool_name \<notin> gt_session_denied g"
    and t: "external_target H tool_name args tool origin = Inr target"
    and v: "external_verdict H g store0 tool_name args tool target now = (d, store1)"
    unfolding E by (auto simp: bind_result_Inr_iff split: if_splits)
  let ?i = "intent_of_call H tool_name args tool target"
  note A = offered_only_by_authority [OF v ne, of t2]
  note V = authority_verdict_fields [OF conjunct1 [OF A]]
  have eff: "ai_effect ?i = COMMIT" "cx_mode (gt_context g) \<noteq> u ''review''"
    using V(3) off grant_options_commit by metis+
  have "grant_matches H (make_grant H (outcome_grant (gt_context g) wanted j (dn_target d)) gid t1) j (gt_context g) t2"
    using fresh_grant_matches [OF _ fits _ once] V(2) j jfits by simp
  from matching_finds_fresh [OF add _ this] once V(2) j
  obtain gr where "fst (matching H db2 (bounded H ?i) (gt_context g) t2) = Some gr"
    by (auto simp: outcome_grant_def)
  from authority_verdict_allowed [OF decide_with_match [OF eff this]]
  have "dn_allowed (fst (external_verdict H g store2 tool_name args tool target t2))"
    using conjunct2 [OF A] st by simp
  moreover have "evaluate H F pc g2 store2 tool_name args tool origin t2
      = Inr (external_verdict H g store2 tool_name args tool target t2)"
    unfolding g2 E using mode t by simp
  ultimately show ?thesis by (metis prod.collapse)
qed

definition project_gate :: gate where
  "project_gate = demo_gate\<lparr>gt_context := send_ctx\<lparr>cx_project := u ''demo''\<rparr>\<rparr>"

definition press_args :: pydict where
  "press_args = [(u ''key'', JStr (u ''Enter''))]"

definition submit_intent :: action_intent where
  "submit_intent = because ''the focused control may commit the form'' (mk_intent ''submit'' COMMIT [])"

lemma press_intent: "intent_of_call ascii_host (u ''browser_press'') press_args bare_tool None = submit_intent"
proof -
  have cf: "casefold ascii_host (u ''browser_press'') = u ''browser_press''"
    by (simp add: casefold_def is_ascii_def lower_cp_def u_def)
  have key: "List.member [u ''enter'', u ''return'', u ''space''] (casefold ascii_host (u ''Enter''))"
    by (simp add: casefold_def is_ascii_def lower_cp_def u_def)
  show ?thesis
    using key
    by (simp add: intent_of_call_def intent_for_def accepts_dialog_def classify_intent_def proposed_intent_def
        classify_external_def press_args_def cf submit_intent_def risk_value_def arg_text_def target_text_def Let_def)
qed

lemma submit_bounded [simp]:
  "ai_action (bounded H submit_intent) = u ''submit''" "ai_currency (bounded H submit_intent) = []"
  "ai_recipients (bounded H submit_intent) = []" "ai_effect submit_intent = COMMIT"
  "ai_action submit_intent = u ''submit''" "ai_connection_id submit_intent = []"
  by (simp_all add: submit_intent_def because_def mk_intent_def intent0_def bounded_def short_text_def strip_def
      space_cp_def u_def py_upper_def)

lemma press_verdict:
  "\<exists>d. external_verdict ascii_host project_gate (Some []) (u ''browser_press'') press_args bare_tool None 0
        = (d, Some [])
     \<and> \<not> dn_allowed d \<and> dn_grant_options d = [scope_value S_PROJECT] \<and> dn_target d = None
     \<and> dn_intent d = Some (bounded ascii_host submit_intent)"
proof -
  have e: "engine ascii_host (Some []) submit_intent (gt_context project_gate) 0
      = (auth_result ASK (u ''the result was not explicitly authorized by the user or a stored policy''), Some [])"
    by (simp add: decide_def Let_def matching_def match_rows_def project_gate_def send_ctx_def request_allows_def)
  have o: "grant_options (gt_context project_gate) (Some []) submit_intent = [scope_value S_PROJECT]"
    by (simp add: grant_options_def project_gate_def send_ctx_def)
  have v: "external_verdict ascii_host project_gate (Some []) (u ''browser_press'') press_args bare_tool None 0
      = authority_verdict ascii_host project_gate (Some []) (u ''browser_press'') press_args bare_tool None 0"
    by (simp add: external_verdict_def target_text_def project_gate_def)
  show ?thesis
    unfolding v
    using press_intent o e
    by (simp add: authority_verdict_def intent_of_call_def target_text_def auth_result_def intent_dict_def decision0_def)
qed

theorem approved_scope_is_honoured_witness:
  "\<exists>d store2 d2 store3.
     evaluate ascii_host tilde_fs [] project_gate (Some []) (u ''browser_press'') press_args bare_tool
       (Some (Inl (KeyError []))) 0 = Inr (d, Some []) \<and> \<not> dn_allowed d
     \<and> apply_outcome ascii_host ALLOW_PROJECT (u ''browser_press'') None (Some d) (u ''g9'') 1 project_gate (Some [])
         = Inr (project_gate, store2)
     \<and> evaluate ascii_host tilde_fs [] project_gate store2 (u ''browser_press'') press_args bare_tool
         (Some (Inl (KeyError []))) 2 = Inr (d2, store3) \<and> dn_allowed d2"
proof -
  let ?e = "Some (Inl (KeyError [])) :: (pystr result) option"
  obtain d where d: "external_verdict ascii_host project_gate (Some []) (u ''browser_press'') press_args bare_tool None 0
        = (d, Some [])" "\<not> dn_allowed d" "dn_grant_options d = [scope_value S_PROJECT]" "dn_target d = None"
      "dn_intent d = Some (bounded ascii_host submit_intent)"
    using press_verdict by blast
  have c: "classify ascii_host (u ''browser_press'') bare_tool (gt_overrides project_gate) press_args = Inr EXTERNAL"
    by (simp add: classify_press project_gate_def)
  have ev: "evaluate ascii_host tilde_fs [] project_gate (Some []) (u ''browser_press'') press_args bare_tool ?e 0
      = Inr (d, Some [])"
    unfolding evaluate_external [OF c] press_target using d(1) by (simp add: project_gate_def)
  obtain store2 where ap: "apply_outcome ascii_host ALLOW_PROJECT (u ''browser_press'') (dn_target d) (Some d) (u ''g9'') 1
      project_gate (Some []) = Inr (project_gate, store2)"
    by (simp add: apply_outcome_def scope_of_outcome_def d add_grant_def Let_def outcome_grant_simps)
  have fits: "context_fits (gt_context project_gate)"
    by (simp add: context_fits_def project_gate_def send_ctx_def no_request_def)
  have jf: "\<forall>j. dn_intent d = Some j \<longrightarrow> intent_fits j (dn_target d)"
    by (simp add: d intent_fits_def target_text_def)
  have "scope_of_outcome ALLOW_PROJECT = Some S_PROJECT" by (simp add: scope_of_outcome_def)
  from approved_scope_is_honoured [OF c ev this ap fits jf] ev ap d(2,4) show ?thesis by metis
qed

end
