(* ===== verification/Present.thy ===== *)
theory Present
  imports Prelude
begin

text \<open>
  What the person who approves a call is shown: \<open>describe\<close> and \<open>_card\<close> of
  \<open>harness/approve.py\<close>, and \<open>args_preview\<close>, \<open>approval_body\<close>, \<open>_script_steps\<close>,
  \<open>_step_label\<close> and \<open>notice_text\<close> of \<open>harness/inbox.py\<close>. The lemmas show that a notice is
  bounded and that it never passes for complete when steps were left out.
\<close>

subsection \<open>\<open>json.dumps(v, ensure_ascii=False, default=str)\<close>\<close>

definition hex_digit :: "nat \<Rightarrow> nat" where
  "hex_digit n = (if n < 10 then 48 + n else 87 + n)"

definition json_escape_cp :: "nat \<Rightarrow> pystr" where
  "json_escape_cp c =
     (if c = 34 then [92, 34] else if c = 92 then [92, 92] else if c = 10 then [92, 110]
      else if c = 13 then [92, 114] else if c = 9 then [92, 116] else if c = 12 then [92, 102]
      else if c = 8 then [92, 98]
      else if c < 32 then [92] @ u ''u00'' @ [hex_digit (c div 16), hex_digit (c mod 16)]
      else [c])"

definition json_quote :: "pystr \<Rightarrow> pystr" where
  "json_quote s = 34 # concat (map json_escape_cp s) @ [34]"

fun json_text :: "pyhost \<Rightarrow> json \<Rightarrow> pystr" where
  "json_text H JNull = u ''null''"
| "json_text H (JBool b) = (if b then u ''true'' else u ''false'')"
| "json_text H (JInt i) = dec i"
| "json_text H (JFloat (Fin q)) = repr_of H (JFloat (Fin q))"
| "json_text H (JFloat NaN) = u ''NaN''"
| "json_text H (JFloat PosInf) = u ''Infinity''"
| "json_text H (JFloat NegInf) = u ''-Infinity''"
| "json_text H (JStr s) = json_quote s"
| "json_text H (JList xs) = [91] @ join (u '', '') (map (json_text H) xs) @ [93]"
| "json_text H (JObj d) = [123] @ join (u '', '') (map (\<lambda>(k, v). json_quote k @ u '': '' @ json_text H v) d) @ [125]"

subsection \<open>One line about a call\<close>

text \<open>\<open>" ".join(s.split())\<close>, and a cut with an ellipsis.\<close>

definition squeeze :: "pystr \<Rightarrow> pystr" where
  "squeeze s = join [32] (py_split s)"

definition shorten :: "nat \<Rightarrow> pystr \<Rightarrow> pystr" where
  "shorten n s = (if n < length s then take (n - 1) s @ [0x2026] else s)"

definition shown :: "pyhost \<Rightarrow> json \<Rightarrow> pystr" where
  "shown H v = (case v of JStr s \<Rightarrow> s | _ \<Rightarrow> json_text H v)"

definition describe :: "pyhost \<Rightarrow> pystr \<Rightarrow> pydict \<Rightarrow> pystr" where
  "describe H tool_name args =
     take 400 (tool_name @ [40]
       @ join (u '', '') (map (\<lambda>(k, v). k @ [61] @ shorten 70 (squeeze (shown H v))) args) @ [41])"

definition card :: "pyhost \<Rightarrow> pystr \<Rightarrow> pydict \<Rightarrow> pystr \<Rightarrow> pystr option \<Rightarrow> pystr list" where
  "card H tool_name args reason target =
     [[], u ''  collie wants to: '' @ describe H tool_name args,
      u ''  why it is asking: '' @ or_str reason (u ''needs approval'')]
     @ (case target of None \<Rightarrow> [] | Some t \<Rightarrow> if t = [] then [] else [u ''  on: '' @ t])"

definition args_preview :: "pyhost \<Rightarrow> pydict \<Rightarrow> pystr" where
  "args_preview H args =
     shorten 240 (join [32, 183, 32]
       (map (\<lambda>(k, v). k @ u '': '' @ shorten 80 (squeeze (shown H v))) args))"

definition script_tools :: "pystr list" where
  "script_tools = [u ''browser_script'', u ''desktop_script'']"

definition approval_body :: "pyhost \<Rightarrow> pystr \<Rightarrow> pydict \<Rightarrow> pystr" where
  "approval_body H tool_name args =
     (if List.member script_tools tool_name then json_text H (JObj args) else args_preview H args)"

subsection \<open>The push notice\<close>

text \<open>\<open>loads\<close> is \<open>json.loads\<close>, \<open>None\<close> where it raises \<open>ValueError\<close>.\<close>

definition script_steps :: "(pystr \<Rightarrow> json option) \<Rightarrow> pystr \<Rightarrow> pystr \<Rightarrow> (json list) option" where
  "script_steps loads tool body =
     (if \<not> List.member script_tools tool then None
      else (case loads body of
              Some (JObj d) \<Rightarrow> (case dget_null d (u ''steps'') of JList xs \<Rightarrow> Some xs | _ \<Rightarrow> None)
            | _ \<Rightarrow> None))"

definition step_label :: "pyhost \<Rightarrow> json \<Rightarrow> pystr" where
  "step_label H step =
     (let label = (case step of
            JObj d \<Rightarrow>
              (let bits = join (u '', '') (map (\<lambda>(k, v). k @ u '': '' @ shown H v)
                            (filter (\<lambda>(k, _). k \<noteq> u ''action'') d)) in
               py_str H (or_json (dget_null d (u ''action'')) (JStr (u ''?'')))
                 @ (if bits \<noteq> [] then [40] @ bits @ [41] else []))
          | _ \<Rightarrow> json_text H step) in
      shorten 48 (squeeze label))"

definition nat_text :: "nat \<Rightarrow> pystr" where
  "nat_text n = dec (int n)"

definition more_steps :: "nat \<Rightarrow> pystr" where
  "more_steps n = [32, 0x2026, 32] @ nat_text n @ u '' more steps''"

definition more_chars :: "nat \<Rightarrow> pystr" where
  "more_chars n = [32, 0x2026, 32] @ nat_text n @ u '' more chars''"

fun notice_cut :: "nat \<Rightarrow> nat \<Rightarrow> nat \<Rightarrow> nat" where
  "notice_cut limit n 0 = 0"
| "notice_cut limit n (Suc c) =
     (if limit < Suc c + length (more_chars (n - Suc c)) then notice_cut limit n c else Suc c)"

definition step_piece :: "pyhost \<Rightarrow> bool \<Rightarrow> json \<Rightarrow> pystr" where
  "step_piece H first step = (if first then [32] else [32, 183, 32]) @ step_label H step"

fun notice_steps :: "pyhost \<Rightarrow> nat \<Rightarrow> bool \<Rightarrow> pystr \<Rightarrow> json list \<Rightarrow> pystr" where
  "notice_steps H limit first out [] = out"
| "notice_steps H limit first out (step # steps) =
     (let piece = step_piece H first step; left = length steps;
          tail = (if left \<noteq> 0 then more_steps left else []) in
      if limit < length out + length piece + length tail then out @ more_steps (left + 1)
      else notice_steps H limit False (out @ piece) steps)"

definition notice_header :: "pystr \<Rightarrow> nat \<Rightarrow> pystr" where
  "notice_header tool n = tool @ [32, 0x2014, 32] @ nat_text n @ u '' step'' @ (if n = 1 then [] else u ''s'') @ [58]"

definition notice_text :: "pyhost \<Rightarrow> (pystr \<Rightarrow> json option) \<Rightarrow> pystr \<Rightarrow> pystr \<Rightarrow> nat \<Rightarrow> pystr" where
  "notice_text H loads item_tool body limit =
     (let tool = or_str item_tool (u ''a tool'') in
      case script_steps loads item_tool body of
        None \<Rightarrow>
          (let text = squeeze (if body \<noteq> [] then tool @ [32, 0x2014, 32] @ body else tool) in
           if length text \<le> limit then text
           else
             let cut = notice_cut limit (length text) limit in
             take cut text @ more_chars (length text - cut))
      | Some steps \<Rightarrow> notice_steps H limit True (notice_header tool (length steps)) steps)"

subsection \<open>Bounds\<close>

lemma length_shorten: "0 < n \<Longrightarrow> length (shorten n s) \<le> n"
  by (simp add: shorten_def)

lemma length_step_label: "length (step_label H s) \<le> 48"
  by (simp add: step_label_def Let_def length_shorten)

lemma length_args_preview: "length (args_preview H args) \<le> 240"
  by (simp add: args_preview_def length_shorten)

lemma length_describe: "length (describe H t args) \<le> 400"
  by (simp add: describe_def)

lemma length_dec_digits: "n < 10 ^ k \<Longrightarrow> 0 < k \<Longrightarrow> length (dec_digits n) \<le> k"
proof (induction n arbitrary: k rule: dec_digits.induct)
  case (1 n)
  show ?case
  proof (cases "n < 10")
    case True
    with 1 show ?thesis by (subst dec_digits.simps) simp
  next
    case False
    with 1 obtain k' where k: "k = Suc k'" "0 < k'" by (cases k; cases "k - 1") auto
    with 1 False have "length (dec_digits (n div 10)) \<le> k'"
      by (intro "1.IH") (auto simp: less_mult_imp_div_less algebra_simps)
    with k False show ?thesis by (subst dec_digits.simps) simp
  qed
qed

lemma length_nat_text: "n < 10 ^ k \<Longrightarrow> 0 < k \<Longrightarrow> length (nat_text n) \<le> k"
  by (simp add: nat_text_def dec_def length_dec_digits)

lemma length_more: "n < 10 ^ k \<Longrightarrow> 0 < k \<Longrightarrow> length (more_steps n) \<le> 14 + k"
  "n < 10 ^ k \<Longrightarrow> 0 < k \<Longrightarrow> length (more_chars n) \<le> 14 + k"
  using length_nat_text [of n k] by (simp_all add: more_steps_def more_chars_def)

text \<open>The loop invariant: what is out, with the count of the steps that are left, fits.\<close>

definition steps_fit :: "nat \<Rightarrow> pystr \<Rightarrow> nat \<Rightarrow> bool" where
  "steps_fit limit out left \<longleftrightarrow> length out + (if left = 0 then 0 else length (more_steps left)) \<le> limit"

lemma notice_steps_bounded:
  "steps_fit limit out (length steps) \<Longrightarrow> length (notice_steps H limit first out steps) \<le> limit"
proof (induction H limit first out steps rule: notice_steps.induct)
  case (2 H limit first out step steps)
  then show ?case by (auto simp: Let_def steps_fit_def)
qed (simp add: steps_fit_def)

lemma notice_cut_bounded:
  "length (more_chars n) \<le> limit \<Longrightarrow>
     notice_cut limit n c + length (more_chars (n - notice_cut limit n c)) \<le> limit"
  by (induction limit n c rule: notice_cut.induct) auto

text \<open>The pieces of the steps shown first, in order.\<close>

fun pieces :: "pyhost \<Rightarrow> bool \<Rightarrow> json list \<Rightarrow> pystr" where
  "pieces H first [] = []"
| "pieces H first (s # ss) = step_piece H first s @ pieces H False ss"

lemma notice_steps_counts:
  "\<exists>k \<le> length steps. notice_steps H limit first out steps
     = out @ pieces H first (take (length steps - k) steps) @ (if k = 0 then [] else more_steps k)"
proof (induction steps arbitrary: first out)
  case (Cons step steps)
  let ?piece = "step_piece H first step"
  show ?case
  proof (cases "limit < length out + length ?piece + length (if length steps \<noteq> 0 then more_steps (length steps) else [])")
    case True
    then show ?thesis by (intro exI [of _ "Suc (length steps)"]) (simp add: Let_def)
  next
    case False
    obtain k where k: "k \<le> length steps" "notice_steps H limit False (out @ ?piece) steps
        = (out @ ?piece) @ pieces H False (take (length steps - k) steps) @ (if k = 0 then [] else more_steps k)"
      using Cons.IH [of False "out @ ?piece"] by blast
    with False show ?thesis
      by (intro exI [of _ k]) (simp add: Let_def Suc_diff_le)
  qed
qed simp

lemma words_acc_nonempty: "w \<in> set (words_acc acc s) \<Longrightarrow> w \<noteq> []"
  by (induction acc s rule: words_acc.induct) (auto split: if_splits)

lemma length_join_words: "length (join [32] (words_acc acc s)) \<le> length acc + length s"
proof (induction acc s rule: words_acc.induct)
  case (2 acc c s)
  have cons: "length (join [32] (w # ws)) \<le> length w + 1 + length (join [32] ws)" for w ws
    by (cases ws) simp_all
  show ?case
    using 2 cons [of "rev acc" "words_acc [] s"] by (auto split: if_splits)
qed simp

lemma length_squeeze: "length (squeeze s) \<le> length s"
  using length_join_words [of "[]" s] by (simp add: squeeze_def py_split_def)

lemma notice_header_fits:
  assumes "List.member script_tools tool" "n < 10 ^ 6"
  shows "steps_fit 180 (notice_header (or_str tool (u ''a tool'')) n) n"
proof -
  have "length (or_str tool (u ''a tool'')) \<le> 14"
    using assms(1) by (auto simp: script_tools_def)
  moreover have "length (nat_text n) \<le> 6" "length (more_steps n) \<le> 20"
    using length_nat_text [of n 6] length_more(1) [of n 6] assms(2) by simp_all
  ultimately show ?thesis by (auto simp: steps_fit_def notice_header_def)
qed

text \<open>
  A push notice never passes for complete when it is not. The notice of a
  parked script is its header, the labels of the first steps in order, and, exactly when
  steps were left out, the count of the ones left out; and every notice fits the limit of
  180 characters (for a script of fewer than a million steps, and for any other call whose
  tool name and body have fewer than \<open>10^60\<close> characters together).
\<close>

theorem notice_is_honest:
  "case script_steps loads tool body of
     Some steps \<Rightarrow>
       (\<exists>k \<le> length steps. notice_text H loads tool body 180
          = notice_header tool (length steps) @ pieces H True (take (length steps - k) steps)
              @ (if k = 0 then [] else more_steps k))
       \<and> (length steps < 10 ^ 6 \<longrightarrow> length (notice_text H loads tool body 180) \<le> 180)
   | None \<Rightarrow> length tool + length body + 9 < 10 ^ 60 \<longrightarrow> length (notice_text H loads tool body 180) \<le> 180"
proof (cases "script_steps loads tool body")
  case None
  let ?t = "or_str tool (u ''a tool'')"
  let ?s = "squeeze (if body \<noteq> [] then ?t @ [32, 0x2014, 32] @ body else ?t)"
  have len: "length ?t \<le> length tool + 6" by (cases "tool = []") simp_all
  have "length ?s \<le> length tool + length body + 9"
    by (rule order_trans [OF length_squeeze]) (use len in simp)
  then have "length (notice_text H loads tool body 180) \<le> 180" if "length tool + length body + 9 < 10 ^ 60"
    using that notice_cut_bounded [of "length ?s" 180 180] length_more(2) [of "length ?s" 60]
    by (auto simp: notice_text_def None Let_def)
  with None show ?thesis by simp
next
  case (Some steps)
  then have m: "List.member script_tools tool" by (simp add: script_steps_def split: if_splits)
  then have t: "or_str tool (u ''a tool'') = tool" by (cases "tool = []") (simp_all add: script_tools_def)
  have "length (notice_text H loads tool body 180) \<le> 180" if "length steps < 10 ^ 6"
    using notice_steps_bounded notice_header_fits [OF m that] by (simp add: notice_text_def Some Let_def)
  then show ?thesis
    using notice_steps_counts [of steps H 180 True] Some t by (simp add: notice_text_def)
qed

theorem notice_is_honest_witness:
  "length (notice_text ascii_host (\<lambda>_. Some (JObj [(u ''steps'', JList [JInt 1, JInt 2])]))
     (u ''browser_script'') [] 180) \<le> 180"
proof -
  have "script_steps (\<lambda>_. Some (JObj [(u ''steps'', JList [JInt 1, JInt 2])])) (u ''browser_script'') []
      = Some [JInt 1, JInt 2]"
    by (simp add: script_steps_def script_tools_def)
  with notice_is_honest [where loads = "\<lambda>_. Some (JObj [(u ''steps'', JList [JInt 1, JInt 2])])"
      and tool = "u ''browser_script''" and body = "[]" and H = ascii_host]
  show ?thesis by simp
qed

end
