(* ===== verification/Inbox.thy ===== *)
theory Inbox
  imports Gate Present
begin

text \<open>
  \<open>harness/inbox.py\<close>: the store of parked approvals. An item goes from pending to resolved
  once; the threads that wait for it are woken by its answer or by the store's closing. The
  table is a list of rows in insertion order; an event object is a number, \<open>ib_waiters\<close> the
  dictionary \<open>_waiters\<close> and \<open>ib_set\<close> the events that were set.
\<close>

subsection \<open>Items\<close>

datatype item_state = STATE_PENDING | STATE_RESOLVED

record inbox_item =
  it_id :: pystr
  it_session :: pystr
  it_kind :: pystr
  it_title :: pystr
  it_body :: pystr
  it_tool :: pystr
  it_target :: pystr
  it_risk :: pystr
  it_rule_offer :: pystr
  it_effect :: pystr
  it_action :: pystr
  it_basis :: pystr
  it_grant_options :: pystr
  it_state :: item_state
  it_resolution :: pystr
  it_visibility :: pystr
  it_call_id :: pystr
  it_created_at :: int
  it_resolved_at :: int

definition resolutions :: "(pystr \<times> outcome) list" where
  "resolutions = [(u ''allow'', ALLOW_ONCE), (u ''always'', ALLOW_ALWAYS), (u ''mission'', ALLOW_MISSION),
     (u ''workflow'', ALLOW_WORKFLOW), (u ''project'', ALLOW_PROJECT), (u ''connection'', ALLOW_CONNECTION),
     (u ''never'', REJECT_ALWAYS)]"

definition outcome_of :: "pystr \<Rightarrow> outcome" where
  "outcome_of r = (case map_of resolutions r of Some x \<Rightarrow> x | None \<Rightarrow> REJECT_ONCE)"

definition R_DENY :: pystr where
  "R_DENY = u ''deny''"

definition R_ORPHANED :: pystr where
  "R_ORPHANED = u ''orphaned''"

record inbox =
  ib_rows :: "inbox_item list"
  ib_closed :: bool
  ib_waiters :: "(pystr \<times> nat) list"
  ib_set :: "nat set"
  ib_next :: nat

definition empty_inbox :: inbox where
  "empty_inbox = \<lparr>ib_rows = [], ib_closed = False, ib_waiters = [], ib_set = {}, ib_next = 0\<rparr>"

subsection \<open>Writing\<close>

definition row_for_call :: "pystr \<Rightarrow> pystr \<Rightarrow> inbox_item \<Rightarrow> bool" where
  "row_for_call session call r \<longleftrightarrow> it_session r = session \<and> it_call_id r = call"

definition by_call :: "inbox \<Rightarrow> pystr \<Rightarrow> pystr \<Rightarrow> inbox_item option" where
  "by_call ib session call = (if ib_closed ib then None else List.find (row_for_call session call) (ib_rows ib))"

text \<open>The primary key, and the unique index on (session, call id) where the call id is not empty.\<close>

definition insert_clashes :: "inbox_item list \<Rightarrow> inbox_item \<Rightarrow> bool" where
  "insert_clashes rows it \<longleftrightarrow>
     list_ex (\<lambda>r. it_id r = it_id it \<or> it_call_id it \<noteq> [] \<and> row_for_call (it_session it) (it_call_id it) r) rows"

text \<open>The item returned, and whether the notifier \<open>on_new\<close> is called (it cannot fail the add).\<close>

definition inbox_add :: "inbox_item \<Rightarrow> inbox \<Rightarrow> (inbox_item \<times> bool \<times> inbox) result" where
  "inbox_add item ib =
     (if ib_closed ib then Inl (RuntimeError ''approval inbox is closed'')
      else if insert_clashes (ib_rows ib) item then
        (case by_call ib (it_session item) (it_call_id item) of
           Some existing \<Rightarrow> Inr (existing, False, ib)
         | None \<Rightarrow> Inl (OtherError ''IntegrityError''))
      else Inr (item, True, ib\<lparr>ib_rows := ib_rows ib @ [item]\<rparr>))"

definition is_pending :: "pystr \<Rightarrow> inbox_item \<Rightarrow> bool" where
  "is_pending i r \<longleftrightarrow> it_id r = i \<and> it_state r = STATE_PENDING"

definition answered :: "pystr \<Rightarrow> int \<Rightarrow> inbox_item \<Rightarrow> inbox_item" where
  "answered resolution now r = r\<lparr>it_state := STATE_RESOLVED, it_resolution := resolution, it_resolved_at := now\<rparr>"

definition inbox_resolve :: "pystr \<Rightarrow> pystr \<Rightarrow> int \<Rightarrow> inbox \<Rightarrow> bool \<times> inbox" where
  "inbox_resolve item_id resolution now ib =
     (if ib_closed ib then (False, ib)
      else
        let won = list_ex (is_pending item_id) (ib_rows ib) in
        (won, ib\<lparr>ib_rows := map (\<lambda>r. if is_pending item_id r then answered resolution now r else r) (ib_rows ib),
                ib_set := (case map_of (ib_waiters ib) item_id of
                             Some ev \<Rightarrow> if won then insert ev (ib_set ib) else ib_set ib
                           | None \<Rightarrow> ib_set ib)\<rparr>))"

subsection \<open>Reading\<close>

definition inbox_get :: "inbox \<Rightarrow> pystr \<Rightarrow> inbox_item option" where
  "inbox_get ib item_id = (if ib_closed ib then None else List.find (\<lambda>r. it_id r = item_id) (ib_rows ib))"

definition inbox_list :: "inbox \<Rightarrow> pystr option \<Rightarrow> item_state option \<Rightarrow> pystr option \<Rightarrow> nat \<Rightarrow> inbox_item list" where
  "inbox_list ib session state visibility limit =
     (if ib_closed ib then []
      else take limit (sort_key it_created_at
        (filter (\<lambda>r. (case session of None \<Rightarrow> True | Some s \<Rightarrow> it_session r = s)
            \<and> (case state of None \<Rightarrow> True | Some s \<Rightarrow> it_state r = s)
            \<and> (case visibility of None \<Rightarrow> True | Some v \<Rightarrow> it_visibility r = v)) (ib_rows ib))))"

definition inbox_pending :: "inbox \<Rightarrow> pystr option \<Rightarrow> inbox_item list" where
  "inbox_pending ib session = inbox_list ib session (Some STATE_PENDING) None 200"

definition reconcile_on_resume :: "inbox \<Rightarrow> pystr \<Rightarrow> inbox_item list \<times> inbox_item list" where
  "reconcile_on_resume ib session =
     (inbox_pending ib (Some session), inbox_list ib (Some session) (Some STATE_RESOLVED) None 200)"

fun resolve_each :: "pystr \<Rightarrow> int \<Rightarrow> inbox_item list \<Rightarrow> inbox \<Rightarrow> nat \<times> inbox" where
  "resolve_each resolution now [] ib = (0, ib)"
| "resolve_each resolution now (it # its) ib =
     (let (won, ib') = inbox_resolve (it_id it) resolution now ib;
          (n, ib'') = resolve_each resolution now its ib' in
      (if won then n + 1 else n, ib''))"

definition resolve_session :: "pystr \<Rightarrow> pystr \<Rightarrow> int \<Rightarrow> inbox \<Rightarrow> nat \<times> inbox" where
  "resolve_session session resolution now ib =
     resolve_each resolution now (inbox_pending ib (Some session)) ib"

subsection \<open>Waiting\<close>

text \<open>
  \<open>wait\<close> in the three pieces another thread can come between: the first read, the block
  under the lock that registers for the event and reads again, and what follows the wait. A
  blocked thread goes on when its event is set or its time is up.
\<close>

datatype wait_result = Answer pystr | Blocked nat

definition wait_look :: "pystr \<Rightarrow> inbox \<Rightarrow> pystr option" where
  "wait_look item_id ib =
     (case inbox_get ib item_id of
        None \<Rightarrow> Some (if ib_closed ib then R_ORPHANED else [])
      | Some cur \<Rightarrow> if it_state cur \<noteq> STATE_PENDING then Some (it_resolution cur) else None)"

definition event_for :: "pystr \<Rightarrow> inbox \<Rightarrow> nat \<times> inbox" where
  "event_for item_id ib =
     (case map_of (ib_waiters ib) item_id of
        Some ev \<Rightarrow> (ev, ib)
      | None \<Rightarrow> (ib_next ib, ib\<lparr>ib_waiters := (item_id, ib_next ib) # ib_waiters ib, ib_next := Suc (ib_next ib)\<rparr>))"

definition wait_enter :: "pystr \<Rightarrow> inbox \<Rightarrow> wait_result \<times> inbox" where
  "wait_enter item_id ib =
     (if ib_closed ib then (Answer R_ORPHANED, ib)
      else
        let (ev, ib') = event_for item_id ib in
        case inbox_get ib item_id of
          Some again \<Rightarrow> if it_state again \<noteq> STATE_PENDING then (Answer (it_resolution again), ib') else (Blocked ev, ib')
        | None \<Rightarrow> (Blocked ev, ib'))"

definition wait_leave :: "pystr \<Rightarrow> inbox \<Rightarrow> pystr \<times> inbox" where
  "wait_leave item_id ib =
     (let ib' = ib\<lparr>ib_waiters := filter (\<lambda>(k, _). k \<noteq> item_id) (ib_waiters ib)\<rparr> in
      (if ib_closed ib then R_ORPHANED
       else (case inbox_get ib item_id of None \<Rightarrow> [] | Some r \<Rightarrow> it_resolution r), ib'))"

definition inbox_close :: "inbox \<Rightarrow> inbox" where
  "inbox_close ib =
     (if ib_closed ib then ib
      else ib\<lparr>ib_closed := True, ib_set := ib_set ib \<union> snd ` set (ib_waiters ib)\<rparr>)"

subsection \<open>The approver\<close>

definition or_empty :: "pystr option \<Rightarrow> pystr" where
  "or_empty x = (case x of None \<Rightarrow> [] | Some s \<Rightarrow> s)"

definition approval_item :: "pyhost \<Rightarrow> pystr \<Rightarrow> pystr \<Rightarrow> pystr \<Rightarrow> pydict \<Rightarrow> decision \<Rightarrow> pystr \<Rightarrow> int \<Rightarrow> inbox_item" where
  "approval_item H session visibility tool_name args d new_id now = \<lparr>
     it_id = new_id, it_session = session, it_kind = u ''approval'',
     it_title = u ''Run '' @ tool_name @ [63], it_body = approval_body H tool_name args, it_tool = tool_name,
     it_target = or_empty (dn_target d), it_risk = dn_risk d, it_rule_offer = dn_rule_offer d,
     it_effect = dn_effect d, it_action = dn_action d, it_basis = dn_basis d,
     it_grant_options = join [44] (dn_grant_options d), it_state = STATE_PENDING, it_resolution = [],
     it_visibility = visibility, it_call_id = dn_call_id d, it_created_at = now, it_resolved_at = 0\<rparr>"

datatype approval = Decided outcome | Waiting inbox_item

definition inbox_ask :: "pyhost \<Rightarrow> pystr \<Rightarrow> pystr \<Rightarrow> pystr \<Rightarrow> pydict \<Rightarrow> decision \<Rightarrow> pystr \<Rightarrow> int \<Rightarrow> inbox
    \<Rightarrow> (approval \<times> bool \<times> inbox) result" where
  "inbox_ask H session visibility tool_name args d new_id now ib =
     bind_result (inbox_add (approval_item H session visibility tool_name args d new_id now) ib)
       (\<lambda>(item, fresh, ib'). Inr (if it_state item \<noteq> STATE_PENDING then Decided (outcome_of (it_resolution item))
                                 else Waiting item, fresh, ib'))"

text \<open>After the wait: \<open>on_timeout\<close> is what the caller's hook answers, \<open>None\<close> when there is no hook.\<close>

definition inbox_answer :: "outcome option \<Rightarrow> pystr \<Rightarrow> pystr \<Rightarrow> int \<Rightarrow> inbox \<Rightarrow> outcome \<times> inbox" where
  "inbox_answer on_timeout item_id res now ib =
     (if res = [] then
        (case on_timeout of
           Some x \<Rightarrow> (x, ib)
         | None \<Rightarrow> (outcome_of R_DENY, snd (inbox_resolve item_id R_DENY now ib)))
      else (outcome_of res, ib))"

subsection \<open>The run of a store\<close>

text \<open>
  Everything that can happen to an open store, in any order: parks, answers from any
  surface, the end of a run, threads that begin and stop waiting, the close. An answer that
  is the first for its item wins the item's id.
\<close>

datatype inbox_op =
    IAdd inbox_item
  | IResolve pystr pystr int
  | IEnter pystr
  | ILeave pystr
  | IClose

fun inbox_step :: "inbox_op \<Rightarrow> inbox \<Rightarrow> pystr option \<times> inbox" where
  "inbox_step (IAdd item) ib =
     (None, if it_state item \<noteq> STATE_PENDING \<or> it_resolution item \<noteq> [] then ib
            else case inbox_add item ib of Inl _ \<Rightarrow> ib | Inr (_, _, ib') \<Rightarrow> ib')"
| "inbox_step (IResolve i res now) ib =
     (case inbox_resolve i res now ib of (won, ib') \<Rightarrow> (if won then Some i else None, ib'))"
| "inbox_step (IEnter i) ib = (None, snd (wait_enter i ib))"
| "inbox_step (ILeave i) ib = (None, snd (wait_leave i ib))"
| "inbox_step IClose ib = (None, inbox_close ib)"

definition item_ids_distinct :: "inbox \<Rightarrow> bool" where
  "item_ids_distinct ib \<longleftrightarrow> distinct (map it_id (ib_rows ib))"

definition answered_row :: "inbox \<Rightarrow> pystr \<Rightarrow> pystr \<Rightarrow> bool" where
  "answered_row ib i res \<longleftrightarrow>
     (\<exists>r \<in> set (ib_rows ib). it_id r = i \<and> it_state r = STATE_RESOLVED \<and> it_resolution r = res)"

definition unanswered :: "inbox \<Rightarrow> pystr \<Rightarrow> bool" where
  "unanswered ib i \<longleftrightarrow> \<not> (\<exists>res. answered_row ib i res)"

lemma event_for_rows [simp]: "ib_rows (snd (event_for i ib)) = ib_rows ib" "ib_closed (snd (event_for i ib)) = ib_closed ib"
  by (simp_all add: event_for_def split: option.splits)

lemma wait_enter_rows [simp]:
  "ib_rows (snd (wait_enter i ib)) = ib_rows ib" "ib_closed (snd (wait_enter i ib)) = ib_closed ib"
  using event_for_rows [of i ib]
  by (cases "event_for i ib"; simp add: wait_enter_def split: option.splits)+

lemma wait_leave_rows [simp]:
  "ib_rows (snd (wait_leave i ib)) = ib_rows ib" "ib_closed (snd (wait_leave i ib)) = ib_closed ib"
  by (simp_all add: wait_leave_def Let_def)

lemma inbox_close_rows [simp]: "ib_rows (inbox_close ib) = ib_rows ib"
  by (simp add: inbox_close_def)

lemma answered_simps [simp]:
  "it_id (answered res now r) = it_id r" "it_state (answered res now r) = STATE_RESOLVED"
  "it_resolution (answered res now r) = res"
  by (simp_all add: answered_def)

lemma not_pending_answered: "\<not> is_pending i (if is_pending i r then answered res now r else r)"
  by (cases "is_pending i r") (simp_all, simp add: is_pending_def)

lemma resolve_rows:
  "inbox_resolve i res now ib = (won, ib') \<Longrightarrow> \<not> ib_closed ib \<Longrightarrow>
     ib_rows ib' = map (\<lambda>r. if is_pending i r then answered res now r else r) (ib_rows ib)"
  by (auto simp: inbox_resolve_def Let_def)

lemma inbox_step_keeps:
  assumes st: "inbox_step a ib = (r, ib')" and inv: "item_ids_distinct ib"
  shows "item_ids_distinct ib' \<and> (\<forall>i res. answered_row ib i res \<longrightarrow> answered_row ib' i res)"
proof (cases a)
  case (IAdd item)
  have "ib' = ib \<or> (\<not> insert_clashes (ib_rows ib) item \<and> ib' = ib\<lparr>ib_rows := ib_rows ib @ [item]\<rparr>)"
    using st by (auto simp: IAdd inbox_add_def split: if_splits sum.splits option.splits)
  with inv show ?thesis
    by (fastforce simp: item_ids_distinct_def answered_row_def insert_clashes_def list_ex_iff)
next
  case (IResolve i res now)
  show ?thesis
  proof (cases "ib_closed ib")
    case True
    with st inv show ?thesis by (simp add: IResolve inbox_resolve_def)
  next
    case False
    have rows: "ib_rows ib' = map (\<lambda>r. if is_pending i r then answered res now r else r) (ib_rows ib)"
      using resolve_rows [OF _ False] st by (simp add: IResolve split: prod.splits)
    have "map it_id (ib_rows ib') = map it_id (ib_rows ib)" unfolding rows by simp
    moreover have "answered_row ib' k v" if a: "answered_row ib k v" for k v
    proof -
      obtain q where q: "q \<in> set (ib_rows ib)" "it_id q = k" "it_state q = STATE_RESOLVED" "it_resolution q = v"
        using a by (auto simp: answered_row_def)
      then have "q \<in> set (ib_rows ib')" unfolding rows by (auto simp: is_pending_def image_iff intro!: bexI [of _ q])
      with q show ?thesis by (auto simp: answered_row_def)
    qed
    ultimately show ?thesis using inv by (simp add: item_ids_distinct_def)
  qed
qed (use st inv in \<open>auto simp: item_ids_distinct_def answered_row_def\<close>)

lemma resolve_won:
  assumes "inbox_resolve i res now ib = (True, ib')"
  shows "\<not> ib_closed ib" "\<exists>q \<in> set (ib_rows ib). is_pending i q" "answered_row ib' i res"
proof -
  show c: "\<not> ib_closed ib" using assms by (auto simp: inbox_resolve_def)
  with assms show p: "\<exists>q \<in> set (ib_rows ib). is_pending i q" by (auto simp: inbox_resolve_def list_ex_iff Let_def)
  then obtain q where "q \<in> set (ib_rows ib)" "is_pending i q" ..
  with resolve_rows [OF assms c] show "answered_row ib' i res"
    unfolding answered_row_def by (intro bexI [of _ "answered res now q"]) (auto simp: is_pending_def image_iff)
qed

lemma pending_unanswered:
  "item_ids_distinct ib \<Longrightarrow> q \<in> set (ib_rows ib) \<Longrightarrow> is_pending i q \<Longrightarrow> unanswered ib i"
  by (auto simp: unanswered_def answered_row_def is_pending_def item_ids_distinct_def distinct_map inj_on_def)

interpretation inbox_latch: once_latch inbox_step unanswered item_ids_distinct
proof unfold_locales
  fix a s r s' k
  assume st: "inbox_step a s = (r, s')" "item_ids_distinct s"
  from inbox_step_keeps [OF st] show "item_ids_distinct s'" and "\<not> unanswered s k \<Longrightarrow> \<not> unanswered s' k"
    unfolding unanswered_def by blast+
next
  fix a s s' k
  assume st: "inbox_step a s = (Some k, s')" and inv: "item_ids_distinct s"
  then obtain res now where w: "inbox_resolve k res now s = (True, s')"
    by (cases a) (auto split: prod.splits if_splits)
  from resolve_won [OF w] inv show "unanswered s k" by (auto intro: pending_unanswered)
  from resolve_won(3) [OF w] show "\<not> unanswered s' k" unfolding unanswered_def by blast
qed

lemma answered_run:
  "item_ids_distinct ib \<Longrightarrow> answered_row ib i res \<Longrightarrow> answered_row (snd (run_ops inbox_step ops ib)) i res"
proof (induction ops arbitrary: ib)
  case (Cons a ops)
  obtain r ib' where st: "inbox_step a ib = (r, ib')" by fastforce
  from inbox_step_keeps [OF st Cons.prems(1)] Cons.prems(2) Cons.IH [of ib'] st
  show ?case by (cases "run_ops inbox_step ops ib'") simp
qed simp

text \<open>
  Property C10. A parked question is answered once and the answer stands: over any sequence
  of parks, answers from any surface, threads that wait or stop, and closes, at most one
  answer to an item succeeds, and when one succeeded the item's row keeps that resolution
  whatever happens later.
\<close>

theorem first_answer_wins:
  assumes "item_ids_distinct ib"
  shows "count_list (fst (run_ops inbox_step ops ib)) (Some i) \<le> 1
    \<and> (\<forall>res now ib1. inbox_resolve i res now ib = (True, ib1) \<longrightarrow>
         Some i \<notin> set (fst (run_ops inbox_step ops ib1)) \<and> answered_row (snd (run_ops inbox_step ops ib1)) i res)"
proof -
  have "Some i \<notin> set (fst (run_ops inbox_step ops ib1)) \<and> answered_row (snd (run_ops inbox_step ops ib1)) i res"
    if w: "inbox_resolve i res now ib = (True, ib1)" for res now ib1
  proof -
    have st: "inbox_step (IResolve i res now) ib = (Some i, ib1)" using w by simp
    from inbox_latch.later_runs_lose [OF assms st]
      answered_run [OF conjunct1 [OF inbox_step_keeps [OF st assms]] resolve_won(3) [OF w]]
    show ?thesis by blast
  qed
  with inbox_latch.wins_at_most_once [OF assms] show ?thesis by blast
qed

definition demo_item :: inbox_item where
  "demo_item = (approval_item ascii_host (u ''s1'') (u ''inbox'') (u ''browser_press'') [] 
     (asking EXTERNAL [] None []) (u ''q1'') 5)\<lparr>it_call_id := u ''c1''\<rparr>"

lemma demo_item_simps [simp]:
  "it_id demo_item = u ''q1''" "it_state demo_item = STATE_PENDING" "it_session demo_item = u ''s1''"
  "it_call_id demo_item = u ''c1''" "it_resolution demo_item = []"
  by (simp_all add: demo_item_def approval_item_def)

theorem first_answer_wins_witness:
  "fst (run_ops inbox_step [IAdd demo_item, IResolve (u ''q1'') (u ''allow'') 6, IResolve (u ''q1'') (u ''deny'') 7]
        empty_inbox) = [None, Some (u ''q1''), None]
   \<and> count_list (fst (run_ops inbox_step [IAdd demo_item, IResolve (u ''q1'') (u ''allow'') 6,
        IResolve (u ''q1'') (u ''deny'') 7] empty_inbox)) (Some (u ''q1'')) \<le> 1"
proof -
  have "item_ids_distinct empty_inbox" by (simp add: item_ids_distinct_def empty_inbox_def)
  from first_answer_wins [OF this, of "[IAdd demo_item, IResolve (u ''q1'') (u ''allow'') 6,
      IResolve (u ''q1'') (u ''deny'') 7]" "u ''q1''"]
  show ?thesis
    by (simp add: empty_inbox_def inbox_add_def insert_clashes_def inbox_resolve_def is_pending_def Let_def)
qed

subsection \<open>Consent is stated, never inferred\<close>

definition pending_blank :: "inbox \<Rightarrow> bool" where
  "pending_blank ib \<longleftrightarrow> (\<forall>r \<in> set (ib_rows ib). it_state r = STATE_PENDING \<longrightarrow> it_resolution r = [])"

lemma inbox_step_blank:
  assumes "inbox_step a ib = (r, ib')" "pending_blank ib"
  shows "pending_blank ib'"
proof (cases a)
  case (IAdd item)
  have "ib' = ib \<or> (it_resolution item = [] \<and> ib' = ib\<lparr>ib_rows := ib_rows ib @ [item]\<rparr>)"
    using assms(1) by (auto simp: IAdd inbox_add_def split: if_splits sum.splits option.splits)
  with assms(2) show ?thesis by (auto simp: pending_blank_def)
next
  case (IResolve i res now)
  show ?thesis
  proof (cases "ib_closed ib")
    case True
    with assms show ?thesis by (simp add: IResolve inbox_resolve_def)
  next
    case False
    have "ib_rows ib' = map (\<lambda>r. if is_pending i r then answered res now r else r) (ib_rows ib)"
      using resolve_rows [OF _ False] assms(1) by (simp add: IResolve split: prod.splits)
    with assms(2) show ?thesis by (auto simp: pending_blank_def)
  qed
qed (use assms in \<open>auto simp: pending_blank_def\<close>)

lemma run_blank: "pending_blank ib \<Longrightarrow> pending_blank (snd (run_ops inbox_step ops ib))"
proof (induction ops arbitrary: ib)
  case (Cons a ops)
  obtain r ib' where st: "inbox_step a ib = (r, ib')" by fastforce
  from Cons.IH [OF inbox_step_blank [OF st Cons.prems]] st
  show ?case by (cases "run_ops inbox_step ops ib'") simp
qed simp

lemma allowing_words:
  "allowing (outcome_of r) \<longleftrightarrow>
     r \<in> set [u ''allow'', u ''always'', u ''mission'', u ''workflow'', u ''project'', u ''connection'']"
  by (simp add: outcome_of_def resolutions_def allowing_def)

lemma deny_words [simp]: "\<not> allowing (outcome_of R_DENY)" "\<not> allowing (outcome_of R_ORPHANED)"
  by (simp_all add: allowing_words R_DENY_def R_ORPHANED_def)

lemma find_in: "List.find P xs = Some x \<Longrightarrow> x \<in> set xs \<and> P x"
  by (auto simp: find_Some_iff)



subsection \<open>No waiter is forgotten\<close>

lemma map_of_filter_other: "k \<noteq> i \<Longrightarrow> map_of (filter (\<lambda>(a, _). a \<noteq> i) xs) k = map_of xs k"
  by (induction xs) auto

lemma event_for_cases:
  "map_of (ib_waiters (snd (event_for i ib))) i = Some (fst (event_for i ib))"
  "map_of (ib_waiters ib) k = Some ev \<Longrightarrow> map_of (ib_waiters (snd (event_for i ib))) k = Some ev"
  "ib_set (snd (event_for i ib)) = ib_set ib"
  by (auto simp: event_for_def split: option.splits)

lemma wait_enter_snd: "snd (wait_enter i ib) = ib \<or> snd (wait_enter i ib) = snd (event_for i ib)"
  by (cases "event_for i ib") (simp add: wait_enter_def split: option.splits)

lemma inbox_step_waiters:
  assumes "inbox_step a ib = (r, ib')"
  shows "ib_set ib \<subseteq> ib_set ib'"
    "a \<noteq> ILeave i \<Longrightarrow> map_of (ib_waiters ib) i = Some ev \<Longrightarrow> map_of (ib_waiters ib') i = Some ev"
proof -
  have add: "ib' = ib \<or> ib' = ib\<lparr>ib_rows := ib_rows ib @ [item]\<rparr>" if "a = IAdd item" for item
    using assms by (auto simp: that inbox_add_def split: if_splits sum.splits option.splits)
  show "ib_set ib \<subseteq> ib_set ib'"
  proof (cases a)
    case (IAdd item)
    with add show ?thesis by auto
  next
    case (IResolve i res now)
    with assms show ?thesis by (auto simp: inbox_resolve_def Let_def split: if_splits option.splits)
  next
    case (IEnter i)
    with assms wait_enter_snd [of i ib] event_for_cases(3) [of i ib] show ?thesis by auto
  next
    case (ILeave i)
    with assms show ?thesis by (auto simp: wait_leave_def Let_def)
  next
    case IClose
    with assms show ?thesis by (auto simp: inbox_close_def)
  qed
  show "map_of (ib_waiters ib') i = Some ev" if "a \<noteq> ILeave i" "map_of (ib_waiters ib) i = Some ev"
  proof (cases a)
    case (IEnter k)
    with assms that wait_enter_snd [of k ib] event_for_cases(2) [OF that(2), of k] show ?thesis by auto
  next
    case (ILeave k)
    with assms that show ?thesis by (auto simp: wait_leave_def Let_def map_of_filter_other)
  qed (use assms add that in \<open>force simp: inbox_resolve_def inbox_close_def Let_def split: if_splits option.splits\<close>)+
qed

lemma run_waiters:
  "ILeave i \<notin> set ops \<Longrightarrow> map_of (ib_waiters ib) i = Some ev \<Longrightarrow>
     map_of (ib_waiters (snd (run_ops inbox_step ops ib))) i = Some ev"
proof (induction ops arbitrary: ib)
  case (Cons a ops)
  obtain r ib' where st: "inbox_step a ib = (r, ib')" by fastforce
  have "map_of (ib_waiters ib') i = Some ev"
    using inbox_step_waiters(2) [OF st, of i ev] Cons.prems by auto
  with Cons.IH [of ib'] Cons.prems(1) st
  show ?case by (cases "run_ops inbox_step ops ib'") simp
qed simp

lemma run_set: "ib_set ib \<subseteq> ib_set (snd (run_ops inbox_step ops ib))"
proof (induction ops arbitrary: ib)
  case (Cons a ops)
  obtain r ib' where st: "inbox_step a ib = (r, ib')" by fastforce
  from inbox_step_waiters(1) [OF st] Cons [of ib'] st
  show ?case by (cases "run_ops inbox_step ops ib'") auto
qed simp

text \<open>
  No lost wake-up. A thread that blocked on an item is woken by the answer or
  by the close: as long as no other thread that waited for the same item has left, the
  operation that answers the item, or closes the store, sets the event the thread is blocked
  on, and it stays set whatever follows.
\<close>

theorem waiter_is_woken:
  assumes "wait_enter i ib = (Blocked ev, ib0)" "ILeave i \<notin> set ops"
    and "ib1 = snd (run_ops inbox_step ops ib0)"
  shows "(\<forall>res now ib2. inbox_resolve i res now ib1 = (True, ib2) \<longrightarrow>
            ev \<in> ib_set (snd (run_ops inbox_step later ib2)))
    \<and> (\<not> ib_closed ib1 \<longrightarrow> ev \<in> ib_set (snd (run_ops inbox_step later (inbox_close ib1))))"
proof -
  have "ib0 = snd (event_for i ib)" "ev = fst (event_for i ib)"
    using assms(1) by (cases "event_for i ib"; auto simp: wait_enter_def split: if_splits option.splits)+
  then have w: "map_of (ib_waiters ib1) i = Some ev"
    unfolding assms(3) using event_for_cases(1) [of i ib] assms(2) by (auto intro: run_waiters)
  then have "ev \<in> ib_set (inbox_close ib1)" if "\<not> ib_closed ib1"
    using that by (force simp: inbox_close_def dest: map_of_SomeD)
  moreover have "ev \<in> ib_set ib2" if "inbox_resolve i res now ib1 = (True, ib2)" for res now ib2
    using that w by (auto simp: inbox_resolve_def Let_def split: if_splits)
  ultimately show ?thesis using run_set by blast
qed

theorem waiter_is_woken_witness:
  "\<exists>ev ib0 ib2. wait_enter (u ''q1'') (snd (run_ops inbox_step [IAdd demo_item] empty_inbox)) = (Blocked ev, ib0)
     \<and> inbox_resolve (u ''q1'') (u ''allow'') 6 ib0 = (True, ib2) \<and> ev \<in> ib_set ib2"
proof -
  let ?ib = "snd (run_ops inbox_step [IAdd demo_item] empty_inbox)"
  obtain ib0 where e: "wait_enter (u ''q1'') ?ib = (Blocked 0, ib0)" "ib_rows ib0 = [demo_item]" "\<not> ib_closed ib0"
    by (simp add: empty_inbox_def inbox_add_def insert_clashes_def Let_def wait_enter_def event_for_def inbox_get_def)
  obtain ib2 where r: "inbox_resolve (u ''q1'') (u ''allow'') 6 ib0 = (True, ib2)"
    using e by (simp add: inbox_resolve_def is_pending_def Let_def)
  from waiter_is_woken [OF e(1), of "[]" ib0 "[]"] r have "0 \<in> ib_set ib2" by simp
  with e r show ?thesis by blast
qed

text \<open>
  Where that assumption fails: two threads wait for one item, the first gives up, and the
  answer that comes then sets nothing; the second stays blocked although the item is answered.
\<close>

lemma second_waiter_is_forgotten:
  "let ib = snd (run_ops inbox_step [IAdd demo_item, IEnter (u ''q1'')] empty_inbox);
       (w, ib1) = wait_enter (u ''q1'') ib;
       ib2 = snd (run_ops inbox_step [ILeave (u ''q1''), IResolve (u ''q1'') (u ''allow'') 6] ib1) in
     w = Blocked 0 \<and> answered_row ib2 (u ''q1'') (u ''allow'') \<and> 0 \<notin> ib_set ib2"
  by (simp add: empty_inbox_def inbox_add_def insert_clashes_def inbox_resolve_def is_pending_def Let_def
      wait_enter_def event_for_def inbox_get_def wait_leave_def answered_row_def)

subsection \<open>One question per call\<close>

text \<open>
  Parking is idempotent by (session, call id): asking again for a call that
  is already in the store returns the stored question, changes nothing and notifies nobody;
  when it was answered meanwhile the approver gets that answer at once, without waiting.
\<close>

theorem parking_is_idempotent:
  assumes "\<not> ib_closed ib" "dn_call_id d \<noteq> []" "by_call ib session (dn_call_id d) = Some old"
  shows "inbox_ask H session v tool_name args d new_id now ib =
    Inr (if it_state old = STATE_PENDING then Waiting old else Decided (outcome_of (it_resolution old)), False, ib)"
proof -
  have "old \<in> set (ib_rows ib)" "row_for_call session (dn_call_id d) old"
    using assms by (auto simp: by_call_def dest: find_in)
  then have "insert_clashes (ib_rows ib) (approval_item H session v tool_name args d new_id now)"
    using assms(2) by (auto simp: insert_clashes_def list_ex_iff approval_item_def)
  then show ?thesis
    using assms by (simp add: inbox_ask_def inbox_add_def approval_item_def)
qed

theorem parking_is_idempotent_witness:
  "let ib = snd (run_ops inbox_step [IAdd demo_item, IResolve (u ''q1'') (u ''deny'') 6] empty_inbox) in
     inbox_ask ascii_host (u ''s1'') (u ''inbox'') (u ''browser_press'') []
       ((asking EXTERNAL [] None [])\<lparr>dn_call_id := u ''c1''\<rparr>) (u ''q2'') 9 ib
     = Inr (Decided REJECT_ONCE, False, ib)"
proof -
  let ?ib = "snd (run_ops inbox_step [IAdd demo_item, IResolve (u ''q1'') (u ''deny'') 6] empty_inbox)"
  let ?d = "(asking EXTERNAL [] None [])\<lparr>dn_call_id := u ''c1''\<rparr>"
  have ib: "ib_rows ?ib = [answered (u ''deny'') 6 demo_item]" "\<not> ib_closed ?ib"
    by (simp_all add: empty_inbox_def inbox_add_def insert_clashes_def inbox_resolve_def is_pending_def Let_def)
  have b: "by_call ?ib (u ''s1'') (dn_call_id ?d) = Some (answered (u ''deny'') 6 demo_item)"
    unfolding by_call_def ib(1) using ib(2) by (simp add: row_for_call_def answered_def)
  have o: "outcome_of (u ''deny'') = REJECT_ONCE" by (simp add: outcome_of_def resolutions_def)
  have "dn_call_id ?d \<noteq> []" by simp
  from parking_is_idempotent [OF ib(2) this b, of ascii_host "u ''inbox''" "u ''browser_press''" "[]" "u ''q2''" 9]
  show ?thesis by (simp only: Let_def answered_simps o item_state.simps if_False)
qed

end
