(* ===== verification/Authorize.thy ===== *)
theory Authorize
  imports Inbox
begin

text \<open>
  The approvers of \<open>harness/approve.py\<close> and the point where the agent loop asks for
  permission, \<open>Harness._authorize\<close> and \<open>_audit\<close> of \<open>harness/loop.py\<close>: gate, approver,
  audit ledger and the recording of the answer, composed as the loop composes them. The
  events the loop emits to its surfaces are left out. The lemmas show that every failure on
  the way is a refusal, that a consequential call leaves a receipt before it runs, and that
  a refused call mints no authority.
\<close>

subsection \<open>Approvers\<close>

text \<open>\<open>except (EOFError, KeyboardInterrupt, OSError)\<close> around the read.\<close>

definition unanswerable :: "exc \<Rightarrow> bool" where
  "unanswerable e = (case e of
     OtherError s \<Rightarrow> List.member [''EOFError'', ''KeyboardInterrupt'', ''OSError''] s | _ \<Rightarrow> False)"

definition tty_answer :: "pyhost \<Rightarrow> bool \<Rightarrow> pystr \<Rightarrow> outcome" where
  "tty_answer H offer line =
     (let ans = py_lower H (strip line) in
      if List.member [u ''y'', u ''yes''] ans then ALLOW_ONCE
      else if List.member [u ''a'', u ''always''] ans then (if offer then ALLOW_ALWAYS else ALLOW_ONCE)
      else if List.member [u ''never'', u ''n!''] ans then REJECT_ALWAYS
      else REJECT_ONCE)"

text \<open>\<open>tty_approver\<close>: \<open>has_gate\<close> is whether a gate was attached to ask for the rule offer.\<close>

definition tty_approver :: "pyhost \<Rightarrow> bool \<Rightarrow> pystr result \<Rightarrow> pystr \<Rightarrow> decision \<Rightarrow> outcome result" where
  "tty_approver H has_gate read_line tool_name d =
     (let offer = has_gate \<and> offer_text tool_name (dn_target d) \<noteq> [] in
      case read_line of
        Inl e \<Rightarrow> if unanswerable e then Inr REJECT_ONCE else Inl e
      | Inr line \<Rightarrow> Inr (tty_answer H offer line))"

text \<open>\<open>desktop_approver\<close>: the dialog's answer, \<open>None\<close> when there was nobody to ask.\<close>

definition desktop_approver :: "(outcome result) option \<Rightarrow> bool option \<Rightarrow> outcome result" where
  "desktop_approver fallback answer =
     (case answer of
        None \<Rightarrow> (case fallback of Some r \<Rightarrow> r | None \<Rightarrow> Inr REJECT_ONCE)
      | Some yes \<Rightarrow> Inr (if yes then ALLOW_ONCE else REJECT_ONCE))"

definition auto_approver :: "outcome \<Rightarrow> outcome" where
  "auto_approver x = x"

subsection \<open>The audit ledger\<close>

record audit_row =
  au_session :: pystr
  au_cwd :: pystr
  au_tool :: pystr
  au_risk :: pystr
  au_target :: pystr
  au_stage :: pystr
  au_outcome :: pystr
  au_reason :: pystr
  au_rule :: pystr
  au_args :: pydict
  au_effect :: pystr
  au_action :: pystr
  au_basis :: pystr

record audit_ledger =
  al_rows :: "audit_row list"
  al_up :: bool

record harness =
  hs_gate :: "gate option"
  hs_store :: "grant_db option"
  hs_audit :: "audit_ledger option"
  hs_session :: pystr
  hs_cwd :: pystr

definition audit_row_for :: "harness \<Rightarrow> pystr \<Rightarrow> pydict \<Rightarrow> decision \<Rightarrow> pystr \<Rightarrow> pystr \<Rightarrow> pystr option \<Rightarrow> audit_row" where
  "audit_row_for h tool_name args d stage outcome reason = \<lparr>
     au_session = hs_session h, au_cwd = hs_cwd h, au_tool = tool_name, au_risk = dn_risk d,
     au_target = or_empty (dn_target d), au_stage = stage, au_outcome = outcome,
     au_reason = (case reason of Some r \<Rightarrow> r | None \<Rightarrow> dn_reason d), au_rule = dn_rule d, au_args = args,
     au_effect = dn_effect d, au_action = dn_action d, au_basis = dn_basis d\<rparr>"

definition audit :: "audit_row \<Rightarrow> harness \<Rightarrow> bool \<times> harness" where
  "audit row h =
     (case hs_audit h of
        None \<Rightarrow> (True, h)
      | Some l \<Rightarrow>
          if al_up l then (True, h\<lparr>hs_audit := Some (l\<lparr>al_rows := al_rows l @ [row]\<rparr>)\<rparr>) else (False, h))"

subsection \<open>One call\<close>

text \<open>
  What an approver returns is an \<open>Outcome\<close> or any other value, of which \<open>str()\<close> is read.
  \<open>still_active\<close> is the parent's answer before and after the approver, when there is one.
\<close>

datatype answer = IsOutcome outcome | AnswerText pystr

definition outcome_from :: "answer \<Rightarrow> outcome" where
  "outcome_from a =
     (case a of
        IsOutcome x \<Rightarrow> x
      | AnswerText s \<Rightarrow> (case outcome_of_value s of Some x \<Rightarrow> x | None \<Rightarrow> REJECT_ONCE))"

definition exc_text :: "exc \<Rightarrow> pystr" where
  "exc_text e = (case e of ValueError s \<Rightarrow> u ''ValueError: '' @ u s | TypeError s \<Rightarrow> u ''TypeError: '' @ u s
     | KeyError s \<Rightarrow> u ''KeyError: '' @ u s | RuntimeError s \<Rightarrow> u ''RuntimeError: '' @ u s
     | OtherError s \<Rightarrow> u s @ u '': '')"

definition inactive_text :: pystr where
  "inactive_text = u ''parent execute_code invocation is no longer active''"

record 'a tool_call =
  tc_name :: pystr
  tc_args :: pydict
  tc_id :: pystr
  tc_tool :: "'a tool_scheme"
  tc_origin :: "(pystr result) option"

text \<open>The part after the approver returned.\<close>

definition settle :: "pyhost \<Rightarrow> 'a tool_call \<Rightarrow> gate \<Rightarrow> decision \<Rightarrow> answer \<Rightarrow> pystr \<Rightarrow> int \<Rightarrow> harness
    \<Rightarrow> pystr option \<times> harness" where
  "settle H tc g d a new_id now h =
     (let x = outcome_from a;
          (ok, h') = audit (audit_row_for h (tc_name tc) (tc_args tc) d
            (if allowing x then u ''approved'' else u ''denied'') (outcome_value x)
            (Some (u ''answered by the user''))) h in
      if allowing x \<and> \<not> ok
      then (Some (u ''the audit ledger is unavailable; approved action was not executed''), h')
      else case apply_outcome H x (tc_name tc) (dn_target d) (Some d) new_id now g (hs_store h') of
        Inl e \<Rightarrow> (Some (u ''the permission decision could not be persisted ('' @ exc_text e @ [41]), h')
      | Inr (g', store') \<Rightarrow>
          (if allowing x then None else Some (u ''the user declined this action''),
           h'\<lparr>hs_gate := Some g', hs_store := store'\<rparr>))"

definition authorize :: "pyhost \<Rightarrow> pyfs \<Rightarrow> pystr list \<Rightarrow> (decision \<Rightarrow> answer result) option \<Rightarrow> (bool \<times> bool) option
    \<Rightarrow> 'a tool_call \<Rightarrow> pystr \<Rightarrow> int \<Rightarrow> harness \<Rightarrow> pystr option \<times> harness" where
  "authorize H F pc approve still_active tc new_id now h =
     (case hs_gate h of
        None \<Rightarrow> (None, h)
      | Some g \<Rightarrow>
          let gone = (\<lambda>f. case still_active of None \<Rightarrow> False | Some s \<Rightarrow> \<not> f s) in
          if gone fst then (Some inactive_text, h)
          else (case evaluate H F pc g (hs_store h) (tc_name tc) (tc_args tc) (tc_tool tc) (tc_origin tc) now of
            Inl e \<Rightarrow> (Some (u ''the permission gate failed ('' @ exc_text e @ [41]), h)
          | Inr (d0, store1) \<Rightarrow>
              let h1 = h\<lparr>hs_store := store1\<rparr>;
                  row = (\<lambda>stage outcome reason. audit_row_for h1 (tc_name tc) (tc_args tc) d0 (u stage) (u outcome) reason) in
              if dn_allowed d0 then
                (if dn_risk d0 = u ''read'' then (None, h1)
                 else case audit (row ''auto'' ''allowed'' None) h1 of
                   (ok, h2) \<Rightarrow>
                     (if ok then None
                      else Some (u ''the audit ledger is unavailable; consequential action was not executed''), h2))
              else if \<not> dn_needs_user d0
              then (Some (dn_reason d0), snd (audit (row ''denied'' ''refused'' None) h1))
              else (case approve of
                None \<Rightarrow>
                  (Some (dn_reason d0 @ u '', and there is nobody to approve it in this run. Do the parts that need no approval and describe this step instead of doing it.''),
                   snd (audit (row ''denied'' ''refused'' (Some (u ''nobody was available to approve it''))) h1))
              | Some ask \<Rightarrow>
                  let d = d0\<lparr>dn_call_id := tc_id tc\<rparr> in
                  (case ask d of
                     Inl e \<Rightarrow> (Some (u ''could not ask for approval ('' @ exc_text e @ [41]), h1)
                   | Inr a \<Rightarrow> if gone snd then (Some inactive_text, h1) else settle H tc g d a new_id now h1))))"

subsection \<open>When a call may run\<close>

lemma allowing_split: "allowing x \<longleftrightarrow> x \<noteq> REJECT_ONCE \<and> x \<noteq> REJECT_ALWAYS"
  by (simp add: allowing_def)

definition audit_ok :: "harness \<Rightarrow> bool" where
  "audit_ok h \<longleftrightarrow> (case hs_audit h of None \<Rightarrow> True | Some l \<Rightarrow> al_up l)"

lemma audit_fst [simp]: "fst (audit row h) = audit_ok h"
  by (simp add: audit_def audit_ok_def split: option.splits)

lemma audit_keeps [simp]:
  "hs_gate (snd (audit row h)) = hs_gate h" "hs_store (snd (audit row h)) = hs_store h"
  by (simp_all add: audit_def split: option.splits)

lemma audit_ok_store [simp]: "audit_ok (h\<lparr>hs_store := s\<rparr>) = audit_ok h"
  by (simp add: audit_ok_def)

lemma settle_None:
  "fst (settle H tc g d a new_id now h) = None \<longleftrightarrow>
     allowing (outcome_from a) \<and> audit_ok h
     \<and> is_ok (apply_outcome H (outcome_from a) (tc_name tc) (dn_target d) (Some d) new_id now g (hs_store h))"
proof -
  let ?row = "audit_row_for h (tc_name tc) (tc_args tc) d
      (if allowing (outcome_from a) then u ''approved'' else u ''denied'') (outcome_value (outcome_from a))
      (Some (u ''answered by the user''))"
  obtain ok h' where a: "audit ?row h = (ok, h')" by fastforce
  then have "ok = audit_ok h" "hs_store h' = hs_store h"
    using audit_fst [of ?row h] audit_keeps [of ?row h] by simp_all
  with a show ?thesis
    by (cases "apply_outcome H (outcome_from a) (tc_name tc) (dn_target d) (Some d) new_id now g (hs_store h)")
      (auto simp: settle_def Let_def)
qed

lemma if_None_fst: "fst (case p of (ok, h2) \<Rightarrow> (if ok then None else Some t, h2)) = None \<longleftrightarrow> fst p"
  by (cases p) simp

text \<open>
  Property C7. When a call may run. With a gate attached, a call gets permission exactly
  when the calling script is still alive, the gate could decide, and either it allowed the
  call and a consequential call's receipt was accepted by the audit ledger, or it asked, an
  approver is attached and answered without failing, the script was still alive then, the
  answer is one of the six that allow (as the enumeration or its exact text), the receipt
  was accepted and the answer could be recorded. Every other path is a refusal: a gate that
  fails, nobody to ask, an approver that fails, an answer that cannot be read, a late
  answer, a ledger that is down.
\<close>

theorem authorized_iff:
  assumes "hs_gate h = Some g"
  shows "fst (authorize H F pc approve still_active tc new_id now h) = None \<longleftrightarrow>
    (\<forall>s. still_active = Some s \<longrightarrow> fst s) \<and>
    (\<exists>d store1. evaluate H F pc g (hs_store h) (tc_name tc) (tc_args tc) (tc_tool tc) (tc_origin tc) now = Inr (d, store1) \<and>
      (if dn_allowed d then dn_risk d = u ''read'' \<or> audit_ok h
       else dn_needs_user d \<and>
         (\<exists>ask a. approve = Some ask \<and> ask (d\<lparr>dn_call_id := tc_id tc\<rparr>) = Inr a
            \<and> (\<forall>s. still_active = Some s \<longrightarrow> snd s) \<and> allowing (outcome_from a) \<and> audit_ok h
            \<and> is_ok (apply_outcome H (outcome_from a) (tc_name tc) (dn_target d)
                       (Some (d\<lparr>dn_call_id := tc_id tc\<rparr>)) new_id now g store1))))"
proof (cases "evaluate H F pc g (hs_store h) (tc_name tc) (tc_args tc) (tc_tool tc) (tc_origin tc) now")
  case (Inl e)
  with assms show ?thesis by (auto simp: authorize_def Let_def split: option.splits)
next
  case (Inr p)
  obtain d store1 where p: "p = (d, store1)" by fastforce
  show ?thesis
  proof (cases "dn_allowed d")
    case True
    with assms Inr p show ?thesis
      by (cases still_active) (auto simp: authorize_def Let_def if_None_fst)
  next
    case False
    with assms Inr p show ?thesis
      by (cases still_active; cases approve; cases "the approve (d\<lparr>dn_call_id := tc_id tc\<rparr>)")
        (auto simp: authorize_def Let_def settle_None)
  qed
qed

definition press_call :: "unit tool_call" where
  "press_call = \<lparr>tc_name = u ''browser_press'', tc_args = press_args, tc_id = u ''c1'', tc_tool = bare_tool,
     tc_origin = Some (Inl (KeyError []))\<rparr>"

definition demo_harness :: harness where
  "demo_harness = \<lparr>hs_gate = Some project_gate, hs_store = Some [],
     hs_audit = Some \<lparr>al_rows = [], al_up = True\<rparr>, hs_session = u ''s1'', hs_cwd = u ''/repo''\<rparr>"

lemma press_evaluate:
  "\<exists>d. evaluate ascii_host tilde_fs [] project_gate (Some []) (u ''browser_press'') press_args bare_tool
        (Some (Inl (KeyError []))) 0 = Inr (d, Some []) \<and> \<not> dn_allowed d \<and> dn_needs_user d"
proof -
  have e: "engine ascii_host (Some []) submit_intent (gt_context project_gate) 0
      = (auth_result ASK (u ''the result was not explicitly authorized by the user or a stored policy''), Some [])"
    by (simp add: decide_def Let_def matching_def match_rows_def project_gate_def send_ctx_def request_allows_def)
  have v: "external_verdict ascii_host project_gate (Some []) (u ''browser_press'') press_args bare_tool None 0
      = authority_verdict ascii_host project_gate (Some []) (u ''browser_press'') press_args bare_tool None 0"
    by (simp add: external_verdict_def target_text_def project_gate_def)
  have c: "classify ascii_host (u ''browser_press'') bare_tool (gt_overrides project_gate) press_args = Inr EXTERNAL"
    by (simp add: classify_press project_gate_def)
  show ?thesis
    unfolding evaluate_external [OF c] press_target bind_result_simps v
    using press_intent e
    by (simp add: project_gate_def authority_verdict_def intent_of_call_def target_text_def auth_result_def decision0_def)
qed

theorem authorized_iff_witness:
  "fst (authorize ascii_host tilde_fs [] (Some (\<lambda>_. Inr (IsOutcome ALLOW_ONCE))) None press_call [] 0 demo_harness) = None
   \<and> fst (authorize ascii_host tilde_fs [] (Some (\<lambda>_. Inr (AnswerText (u ''sure'')))) None press_call [] 0 demo_harness) \<noteq> None
   \<and> fst (authorize ascii_host tilde_fs [] (Some (\<lambda>_. Inr (IsOutcome ALLOW_ONCE))) (Some (True, False)) press_call [] 0
        demo_harness) \<noteq> None"
proof -
  have g: "hs_gate demo_harness = Some project_gate" by (simp add: demo_harness_def)
  obtain d where d: "evaluate ascii_host tilde_fs [] project_gate (hs_store demo_harness) (tc_name press_call)
      (tc_args press_call) (tc_tool press_call) (tc_origin press_call) 0 = Inr (d, Some [])"
      "\<not> dn_allowed d" "dn_needs_user d"
    using press_evaluate by (auto simp: demo_harness_def press_call_def)
  have sure: "\<not> allowing (outcome_from (AnswerText (u ''sure'')))"
    by (simp add: outcome_from_def outcome_of_value_def all_outcomes_def outcome_value_def allowing_def)
  have yes: "allowing (outcome_from (IsOutcome ALLOW_ONCE))" "audit_ok demo_harness"
      "is_ok (apply_outcome ascii_host (outcome_from (IsOutcome ALLOW_ONCE)) n t dd i w gg s)" for n t dd i w gg s
    by (simp_all add: outcome_from_def allowing_def audit_ok_def demo_harness_def apply_outcome_def scope_of_outcome_def)
  note A = authorized_iff [OF g, where H = ascii_host and F = tilde_fs and pc = "[]" and tc = press_call and new_id = "[]" and now = 0]
  show ?thesis
    unfolding A using d sure yes by auto
qed

text \<open>
  A receipt before the act. When an audit ledger is attached, every call that
  gets permission and is not a mere read has added to the ledger exactly one row, for this
  tool and these arguments, saying that the gate allowed it or the user approved it.
\<close>

theorem allowed_call_leaves_receipt:
  assumes "hs_gate h = Some g" "hs_audit h = Some l"
    and "authorize H F pc approve still_active tc new_id now h = (None, h')"
    and "\<forall>d s. evaluate H F pc g (hs_store h) (tc_name tc) (tc_args tc) (tc_tool tc) (tc_origin tc) now = Inr (d, s)
           \<longrightarrow> dn_risk d \<noteq> u ''read''"
  shows "\<exists>l' row. hs_audit h' = Some l' \<and> al_rows l' = al_rows l @ [row] \<and> au_tool row = tc_name tc
    \<and> au_args row = tc_args tc \<and> au_stage row \<in> {u ''auto'', u ''approved''}"
proof (cases "evaluate H F pc g (hs_store h) (tc_name tc) (tc_args tc) (tc_tool tc) (tc_origin tc) now")
  case (Inl e)
  with assms show ?thesis by (auto simp: authorize_def Let_def split: option.splits if_splits)
next
  case (Inr p)
  obtain d store1 where p: "p = (d, store1)" by fastforce
  have alive: "\<not> (case still_active of None \<Rightarrow> False | Some s \<Rightarrow> \<not> fst s)"
  proof
    assume "case still_active of None \<Rightarrow> False | Some s \<Rightarrow> \<not> fst s"
    then have "authorize H F pc approve still_active tc new_id now h = (Some inactive_text, h)"
      using assms(1) by (simp add: authorize_def)
    with assms(3) show False by simp
  qed
  show ?thesis
  proof (cases "dn_allowed d")
    case True
    with assms Inr p alive show ?thesis
      by (auto simp: authorize_def Let_def audit_def audit_row_for_def split: if_splits)
  next
    case False
    with assms Inr p alive obtain ask a where
      "settle H tc g (d\<lparr>dn_call_id := tc_id tc\<rparr>) a new_id now (h\<lparr>hs_store := store1\<rparr>) = (None, h')"
      by (auto simp: authorize_def Let_def split: if_splits option.splits sum.splits)
    with assms(2) show ?thesis
      by (auto simp: settle_def Let_def audit_def audit_row_for_def split: if_splits sum.splits)
  qed
qed

theorem allowed_call_leaves_receipt_witness:
  "\<exists>h' l'. authorize ascii_host tilde_fs [] (Some (\<lambda>_. Inr (IsOutcome ALLOW_ONCE))) None press_call [] 0 demo_harness
      = (None, h') \<and> hs_audit h' = Some l' \<and> length (al_rows l') = 1"
proof -
  have g: "hs_gate demo_harness = Some project_gate" "hs_audit demo_harness = Some \<lparr>al_rows = [], al_up = True\<rparr>"
    by (simp_all add: demo_harness_def)
  obtain d where d: "evaluate ascii_host tilde_fs [] project_gate (hs_store demo_harness) (tc_name press_call)
      (tc_args press_call) (tc_tool press_call) (tc_origin press_call) 0 = Inr (d, Some [])"
      "\<not> dn_allowed d" "dn_needs_user d"
    using press_evaluate by (auto simp: demo_harness_def press_call_def)
  obtain h' where h': "authorize ascii_host tilde_fs [] (Some (\<lambda>_. Inr (IsOutcome ALLOW_ONCE))) None press_call [] 0 demo_harness
      = (None, h')"
    using d by (simp add: authorize_def g settle_def outcome_from_def allowing_def audit_def apply_outcome_def scope_of_outcome_def Let_def)
  have c: "classify ascii_host (u ''browser_press'') bare_tool (gt_overrides project_gate) press_args = Inr EXTERNAL"
    by (simp add: classify_press project_gate_def)
  have "dn_risk d = risk_value EXTERNAL"
    using d(1) unfolding press_call_def tool_call.simps evaluate_external [OF c] press_target bind_result_simps
    by (auto simp: external_verdict_def authority_verdict_def project_gate_def Let_def target_text_def split: if_splits prod.splits)
  then have "\<forall>d s. evaluate ascii_host tilde_fs [] project_gate (hs_store demo_harness) (tc_name press_call)
      (tc_args press_call) (tc_tool press_call) (tc_origin press_call) 0 = Inr (d, s) \<longrightarrow> dn_risk d \<noteq> u ''read''"
    using d(1) by (simp add: risk_value_def)
  from allowed_call_leaves_receipt [OF g h' this] obtain l' row where "hs_audit h' = Some l'" "al_rows l' = [] @ [row]"
    by auto
  with h' show ?thesis by auto
qed

subsection \<open>A refused call\<close>

definition grant_ids :: "grant_db option \<Rightarrow> pystr list option" where
  "grant_ids store = map_option (map (\<lambda>r. g_id (row_grant r))) store"

lemma match_loop_ids:
  "map (\<lambda>r. g_id (row_grant r)) (snd (match_loop H i cx now rows db)) = map (\<lambda>r. g_id (row_grant r)) db"
proof (induction H i cx now rows db rule: match_loop.induct)
  case (2 H i cx now row rows db)
  obtain w d where c: "consume_once (g_id (decode_row row)) db = (w, d)" by fastforce
  have "map (\<lambda>r. g_id (row_grant r)) d = map (\<lambda>r. g_id (row_grant r)) db"
    using update_grants_ids [of "\<lambda>g. g\<lparr>g_uses_left := 0\<rparr>" "g_id (decode_row row)" "\<lambda>g. g_uses_left g = 1" db] c
    by (simp add: consume_once_def)
  then show ?case using 2 c by (auto simp: Let_def)
qed simp

lemma engine_ids: "grant_ids (snd (engine H store i cx now)) = grant_ids store"
proof (cases store)
  case None
  then show ?thesis by (simp add: decide_def Let_def)
next
  case (Some db)
  obtain f db' where m: "matching H db (bounded H i) cx now = (f, db')" by fastforce
  then have "grant_ids (Some db') = grant_ids (Some db)"
    using match_loop_ids [of H "bounded H i" cx now "match_rows db (ai_action (bounded H i))" db]
    by (simp add: matching_def grant_ids_def)
  with m show ?thesis by (cases f) (auto simp: Some decide_def Let_def)
qed

lemma authority_verdict_ids:
  "grant_ids (snd (authority_verdict H g store tool_name args tool target now)) = grant_ids store"
proof -
  let ?i = "intent_for H tool_name args (risk_value EXTERNAL) (target_text target) tool"
  obtain r s where e: "engine H store ?i (gt_context g) now = (r, s)" by fastforce
  with engine_ids [of H store ?i "gt_context g" now] show ?thesis
    by (simp add: authority_verdict_def Let_def)
qed

lemma external_verdict_ids:
  "grant_ids (snd (external_verdict H g store tool_name args tool target now)) = grant_ids store"
  by (simp add: external_verdict_def Let_def authority_verdict_ids)

lemma evaluate_ids:
  assumes "evaluate H F pc g store tool_name args tool origin now = Inr (d, store')"
  shows "grant_ids store' = grant_ids store"
proof -
  have "store' = store \<or> (\<exists>target. external_verdict H g store tool_name args tool target now = (d, store'))"
    using assms by (auto simp: evaluate_def Let_def bind_result_Inr_iff split: if_splits option.splits)
  then show ?thesis
    using external_verdict_ids [of H g store tool_name args tool _ now] by (metis snd_conv)
qed

lemma apply_refusal:
  "apply_outcome H x tool_name target d new_id now g store = Inr (g', store') \<Longrightarrow> \<not> allowing x \<Longrightarrow>
     gt_session_rules g' = gt_session_rules g \<and> store' = store"
  by (cases x) (auto simp: apply_outcome_def allowing_def scope_of_outcome_def)

text \<open>
  A refused call mints no authority. Whatever made the loop refuse (the gate,
  a person, a failing ledger, a late answer, a failing approver), the gate's standing rules
  are the ones it had and no grant was added to the ledger.
\<close>

theorem refusal_mints_nothing:
  assumes "hs_gate h = Some g" "authorize H F pc approve still_active tc new_id now h = (Some why, h')"
  shows "\<exists>g'. hs_gate h' = Some g' \<and> gt_session_rules g' = gt_session_rules g
    \<and> grant_ids (hs_store h') = grant_ids (hs_store h)"
proof (cases "evaluate H F pc g (hs_store h) (tc_name tc) (tc_args tc) (tc_tool tc) (tc_origin tc) now")
  case (Inl e)
  with assms show ?thesis by (auto simp: authorize_def Let_def split: if_splits)
next
  case (Inr p)
  obtain d store1 where p: "p = (d, store1)" by fastforce
  with evaluate_ids Inr have ids: "grant_ids store1 = grant_ids (hs_store h)" by blast
  have settled: ?thesis if s: "settle H tc g d' a new_id now (h\<lparr>hs_store := store1\<rparr>) = (Some why, h')" for d' a
  proof -
    let ?h = "h\<lparr>hs_store := store1\<rparr>"
    let ?row = "audit_row_for ?h (tc_name tc) (tc_args tc) d'
        (if allowing (outcome_from a) then u ''approved'' else u ''denied'') (outcome_value (outcome_from a))
        (Some (u ''answered by the user''))"
    obtain ok h2 where au: "audit ?row ?h = (ok, h2)" by fastforce
    then have k: "hs_gate h2 = Some g" "hs_store h2 = store1"
      using audit_keeps [of ?row ?h] assms(1) by simp_all
    show ?thesis
    proof (cases "apply_outcome H (outcome_from a) (tc_name tc) (dn_target d') (Some d') new_id now g store1")
      case (Inl e)
      with s au k ids show ?thesis by (auto simp: settle_def Let_def split: if_splits)
    next
      case (Inr q)
      obtain g' store2 where q: "q = (g', store2)" by fastforce
      from apply_refusal [OF Inr [unfolded q]] Inr q s au k ids show ?thesis
        by (auto simp: settle_def Let_def split: if_splits)
    qed
  qed
  show ?thesis
  proof (cases "dn_allowed d")
    case True
    let ?row = "audit_row_for (h\<lparr>hs_store := store1\<rparr>) (tc_name tc) (tc_args tc) d (u ''auto'') (u ''allowed'') None"
    obtain ok h2 where "audit ?row (h\<lparr>hs_store := store1\<rparr>) = (ok, h2)" by fastforce
    with audit_keeps [of ?row "h\<lparr>hs_store := store1\<rparr>"] True assms Inr p ids show ?thesis
      by (auto simp: authorize_def Let_def split: if_splits)
  next
    case False
    show ?thesis
    proof (cases "\<exists>a. settle H tc g (d\<lparr>dn_call_id := tc_id tc\<rparr>) a new_id now (h\<lparr>hs_store := store1\<rparr>) = (Some why, h')")
      case True
      with settled show ?thesis by blast
    next
      case no: False
      with False assms Inr p ids show ?thesis
        by (auto simp: authorize_def Let_def split: if_splits option.splits sum.splits)
    qed
  qed
qed

theorem refusal_mints_nothing_witness:
  "\<exists>why h' g'. authorize ascii_host tilde_fs [] (Some (\<lambda>_. Inr (IsOutcome ALLOW_PROJECT))) None press_call [] 0
      (demo_harness\<lparr>hs_audit := Some \<lparr>al_rows = [], al_up = False\<rparr>\<rparr>) = (Some why, h')
    \<and> hs_gate h' = Some g' \<and> gt_session_rules g' = {} \<and> grant_ids (hs_store h') = Some []"
proof -
  let ?h = "demo_harness\<lparr>hs_audit := Some \<lparr>al_rows = [], al_up = False\<rparr>\<rparr>"
  have g: "hs_gate ?h = Some project_gate" "hs_store ?h = Some []"
    by (simp_all add: demo_harness_def)
  obtain d where d: "evaluate ascii_host tilde_fs [] project_gate (Some []) (tc_name press_call)
      (tc_args press_call) (tc_tool press_call) (tc_origin press_call) 0 = Inr (d, Some [])"
      "\<not> dn_allowed d" "dn_needs_user d"
    using press_evaluate by (auto simp: press_call_def)
  obtain why h' where a: "authorize ascii_host tilde_fs [] (Some (\<lambda>_. Inr (IsOutcome ALLOW_PROJECT))) None press_call [] 0 ?h
      = (Some why, h')"
    using d by (simp add: demo_harness_def authorize_def settle_def outcome_from_def allowing_def audit_def Let_def)
  from refusal_mints_nothing [OF g(1) a] g a show ?thesis
    by (auto simp: project_gate_def grant_ids_def)
qed

end
