(* ===== verification/Verifier.thy ===== *)
theory Verifier
  imports Prelude
begin

text \<open>
  \<open>harness/verifier.py\<close>: the done-check. A verifier decides from the mutations and the
  observations of a run; the goal verifiers decide a whole mission from its receipts. The
  lemmas show that only fresh evidence on a trusted channel verifies, and that nothing
  irreversible is repaired by doing it again.
\<close>

subsection \<open>Verdicts\<close>

datatype status = VERIFIED | FAILED | INCONCLUSIVE | NOT_ARMED

definition status_value :: "status \<Rightarrow> pystr" where
  "status_value s = (case s of VERIFIED \<Rightarrow> u ''verified'' | FAILED \<Rightarrow> u ''failed''
     | INCONCLUSIVE \<Rightarrow> u ''inconclusive'' | NOT_ARMED \<Rightarrow> u ''not-armed'')"

text \<open>Times are the finite numbers the runtime passes: turn indices or timestamps.\<close>

record observation =
  ob_channel :: pystr
  ob_at :: rat
  ob_ok :: bool
  ob_asserted :: bool
  ob_detail :: pystr

record mutation =
  mu_at :: rat
  mu_kind :: pystr
  mu_reversible :: bool

record verdict =
  vd_status :: status
  vd_reason :: pystr
  vd_evidence :: "observation list"

definition verdict0 :: "status \<Rightarrow> pystr \<Rightarrow> verdict" where
  "verdict0 s why = \<lparr>vd_status = s, vd_reason = why, vd_evidence = []\<rparr>"

definition verdict1 :: "status \<Rightarrow> pystr \<Rightarrow> observation \<Rightarrow> verdict" where
  "verdict1 s why ob = \<lparr>vd_status = s, vd_reason = why, vd_evidence = [ob]\<rparr>"

record verifier =
  vf_require_assert :: bool
  vf_channels :: "pystr list"

definition accepts :: "verifier \<Rightarrow> observation \<Rightarrow> bool" where
  "accepts v ob \<longleftrightarrow> vf_channels v = [] \<or> List.member (vf_channels v) (ob_channel ob)"

definition code_repro_verifier :: "bool \<Rightarrow> verifier" where
  "code_repro_verifier require_assert = \<lparr>vf_require_assert = require_assert, vf_channels = [u ''exit-code'']\<rparr>"

definition listing_verifier :: verifier where
  "listing_verifier = \<lparr>vf_require_assert = True, vf_channels = [u ''logged-out-fetch'']\<rparr>"

text \<open>\<open>max(xs, key=...)\<close> keeps the first of the largest.\<close>

fun newest_of :: "observation \<Rightarrow> observation list \<Rightarrow> observation" where
  "newest_of best [] = best"
| "newest_of best (ob # obs) = newest_of (if ob_at best < ob_at ob then ob else best) obs"

definition last_change :: "mutation \<Rightarrow> mutation list \<Rightarrow> rat" where
  "last_change m ms = fold max (map mu_at ms) (mu_at m)"

definition verify :: "pyhost \<Rightarrow> verifier \<Rightarrow> mutation list \<Rightarrow> observation list \<Rightarrow> verdict" where
  "verify H v muts obs =
     (case muts of
        [] \<Rightarrow> verdict0 NOT_ARMED (u ''no state change occurred; nothing to verify'')
      | m # ms \<Rightarrow>
          (case filter (\<lambda>ob. accepts v ob \<and> last_change m ms \<le> ob_at ob) obs of
             [] \<Rightarrow> verdict0 INCONCLUSIVE (u ''no fresh evidence on an accepted channel after the last change'')
           | ob # rest \<Rightarrow>
               let newest = newest_of ob rest in
               if \<not> ob_ok newest
               then verdict1 FAILED (u ''post-change observation refutes the outcome on channel ''
                      @ repr_text H (ob_channel newest)) newest
               else if vf_require_assert v \<and> \<not> ob_asserted newest
               then verdict1 INCONCLUSIVE (u ''observation ran but executed no hard assertion'') newest
               else verdict1 VERIFIED (u ''confirmed via '' @ repr_text H (ob_channel newest)) newest))"

definition repairable :: "verdict \<Rightarrow> mutation list \<Rightarrow> bool" where
  "repairable d muts =
     (if vd_status d = VERIFIED \<or> vd_status d = NOT_ARMED then False
      else if vd_status d = FAILED \<and> list_ex (\<lambda>m. \<not> mu_reversible m) muts then False
      else True)"

subsection \<open>Mission goals\<close>

definition terminal_statuses :: "pystr list" where
  "terminal_statuses = [u ''completed'', u ''exhausted'', u ''deferred'', u ''skipped'']"

text \<open>The rows of \<open>_campaign_coverage\<close> that name a branch. Only a list can hold objects.\<close>

definition coverage_rows :: "pydict \<Rightarrow> (pydict list) result" where
  "coverage_rows mission_case =
     (case dget_null mission_case (u ''_campaign_coverage'') of
        JList xs \<Rightarrow> Inr (concat (map (\<lambda>x. case x of JObj d \<Rightarrow> if truthy (dget_null d (u ''branch'')) then [d] else [] | _ \<Rightarrow> []) xs))
      | JObj _ \<Rightarrow> Inr []
      | JStr _ \<Rightarrow> Inr []
      | v \<Rightarrow> if truthy v then Inl (TypeError ''object is not iterable'') else Inr [])"

definition is_required :: "pydict \<Rightarrow> bool" where
  "is_required row = (case dget row (u ''required'') of None \<Rightarrow> True | Some v \<Rightarrow> truthy v)"

definition row_status :: "pyhost \<Rightarrow> pydict \<Rightarrow> pystr" where
  "row_status H row = py_lower H (py_str H (or_json (dget_null row (u ''status'')) (JStr (u ''pending''))))"

definition proves :: "pydict \<Rightarrow> bool" where
  "proves receipt \<longleftrightarrow> truthy (dget_null receipt (u ''fired''))
     \<and> dget_null receipt (u ''verdict'') = JStr (status_value VERIFIED)"

definition created_at_of :: "pydict \<Rightarrow> rat" where
  "created_at_of receipt = (case dget_null receipt (u ''created_at'') of JInt i \<Rightarrow> of_int i | JFloat (Fin q) \<Rightarrow> q | _ \<Rightarrow> 0)"

definition receipt_observation :: "pyhost \<Rightarrow> pydict \<Rightarrow> observation" where
  "receipt_observation H r = \<lparr>
     ob_channel = u ''action-receipt:'' @ take 80 (py_str H (or_json (dget_null r (u ''capability'')) (JStr (u ''world-action'')))),
     ob_at = created_at_of r, ob_ok = True, ob_asserted = True,
     ob_detail = take 500 (py_str H (or_json (dget_null r (u ''verdict_reason''))
       (JStr (u ''external action independently verified''))))\<rparr>"

text \<open>\<open>nonces\<close> and \<open>receipts\<close> are the answers of the two stores.\<close>

definition receipt_evidence :: "pyhost \<Rightarrow> pystr list \<Rightarrow> (pystr \<Rightarrow> pydict list) \<Rightarrow> observation list" where
  "receipt_evidence H nonces receipts =
     map (receipt_observation H) (concat (map (\<lambda>n. filter proves (receipts n)) (dedup (filter (\<lambda>n. n \<noteq> []) nonces))))"

definition count_status :: "pyhost \<Rightarrow> pydict list \<Rightarrow> string \<Rightarrow> pystr" where
  "count_status H rows s = dec (int (length (filter (\<lambda>r. row_status H r = u s) rows)))"

definition verify_campaign :: "pyhost \<Rightarrow> pydict \<Rightarrow> pystr list \<Rightarrow> (pystr \<Rightarrow> pydict list) \<Rightarrow> verdict result" where
  "verify_campaign H mission_case nonces receipts =
     bind_result (coverage_rows mission_case) (\<lambda>coverage.
       let required = filter is_required coverage;
           open_rows = filter (\<lambda>r. \<not> List.member terminal_statuses (row_status H r)) required;
           evidence = receipt_evidence H nonces receipts in
       Inr (if required = [] then verdict0 INCONCLUSIVE (u ''no required campaign coverage contract is available'')
         else if open_rows \<noteq> [] then verdict0 INCONCLUSIVE
           (dec (int (length open_rows)) @ u '' required campaign branch(es) remain open'')
         else if evidence = [] then verdict0 INCONCLUSIVE
           (u ''campaign coverage is closed but no fired verified action receipt is linked'')
         else \<lparr>vd_status = VERIFIED,
           vd_reason = u ''campaign coverage closed with '' @ count_status H required ''completed'' @ u '' completed, ''
             @ count_status H required ''exhausted'' @ u '' exhausted, '' @ count_status H required ''deferred''
             @ u '' deferred, and '' @ count_status H required ''skipped'' @ u '' skipped branch(es); ''
             @ dec (int (length evidence)) @ u '' fired action receipt(s) independently verified'',
           vd_evidence = take 20 evidence\<rparr>))"

text \<open>
  The code verifier. \<open>is_dir\<close> and \<open>snapshot\<close> are the workspace directory's test and the
  host's fresh \<open>workspace_snapshot\<close> of it, \<open>epoch\<close> the reading of the receipt's timestamp.
\<close>

definition truth_of :: "pydict \<Rightarrow> string \<Rightarrow> bool" where
  "truth_of d k = truthy (dget_null d (u k))"

definition text_of :: "pyhost \<Rightarrow> pydict \<Rightarrow> string \<Rightarrow> pystr" where
  "text_of H d k = str_or_empty H (dget_null d (u k))"

record code_receipt =
  cr_passed :: bool
  cr_fresh :: bool
  cr_changed :: bool
  cr_command_bound :: bool
  cr_attributed :: bool
  cr_executed :: bool
  cr_settled :: bool
  cr_stopped :: bool

definition code_receipt_of :: "pyhost \<Rightarrow> pydict \<Rightarrow> pydict \<Rightarrow> pydict \<Rightarrow> pydict \<Rightarrow> code_receipt" where
  "code_receipt_of H mission_case profile evidence current =
     (let cur = text_of H current ''tree_digest''; rec = text_of H evidence ''post_tree_digest'';
          base = text_of H mission_case ''code_baseline_tree_digest'';
          configured = strip (text_of H profile ''verify_command'');
          delivery = (case dget_null mission_case (u ''code_delivery'') of JObj d \<Rightarrow> d | _ \<Rightarrow> []) in
      \<lparr>cr_passed = (truth_of evidence ''passed'' \<and> truth_of evidence ''command_passed'' \<and> truth_of evidence ''ran_after_last_edit''),
       cr_fresh = (cur \<noteq> [] \<and> rec \<noteq> [] \<and> cur = rec \<and> truth_of current ''snapshot_complete''
         \<and> truth_of evidence ''post_snapshot_complete''),
       cr_changed = (base \<noteq> [] \<and> rec \<noteq> [] \<and> base \<noteq> rec),
       cr_command_bound = (configured \<noteq> [] \<and> strip (text_of H evidence ''command'') = configured
         \<and> dget_null evidence (u ''source'') = JStr (u ''mission_code_profile'')),
       cr_attributed = (dget_null evidence (u ''patch_attributed'') = JBool True),
       cr_executed = (dget_null evidence (u ''executed'') \<noteq> JBool False),
       cr_settled = (\<not> (truth_of delivery ''cancelled'' \<or> truth_of delivery ''error'' \<or> truth_of delivery ''continue_needed''
         \<or> truth_of delivery ''turns_exhausted''
         \<or> List.member [u ''error'', u ''canceled'', u ''turn_limit''] (text_of H delivery ''stop_reason''))),
       cr_stopped = truth_of evidence ''cancelled''\<rparr>)"

definition receipt_ok :: "code_receipt \<Rightarrow> bool" where
  "receipt_ok r \<longleftrightarrow> cr_passed r \<and> cr_fresh r \<and> cr_changed r \<and> cr_command_bound r \<and> cr_attributed r \<and> cr_executed r
     \<and> cr_settled r \<and> \<not> cr_stopped r"

definition receipt_detail :: "code_receipt \<Rightarrow> pystr" where
  "receipt_detail r =
     (if receipt_ok r then u ''configured host check passed against the current Mission patch''
      else if \<not> cr_settled r
      then u ''the host check passed, but the coding run was cut off before it finished and reported its own work''
      else if cr_passed r \<and> cr_fresh r \<and> cr_command_bound r \<and> \<not> cr_attributed r
      then u ''the host check produced no Mission-attributed patch''
      else u ''verification receipt is failed, stale, incomplete, cancelled, or not bound to the exact configured command and Mission patch'')"

definition verify_code :: "pyhost \<Rightarrow> (pystr \<Rightarrow> bool) \<Rightarrow> (pystr \<Rightarrow> pydict) \<Rightarrow> (json \<Rightarrow> rat) \<Rightarrow> pydict \<Rightarrow> verdict" where
  "verify_code H is_dir snapshot epoch mission_case =
     (case (dget_null mission_case (u ''code_profile''), dget_null mission_case (u ''code_verification'')) of
        (JObj profile, ver) \<Rightarrow>
          (case (truth_of mission_case ''code_verified'', ver) of
             (True, JObj v) \<Rightarrow>
               (case dget_null v (u ''evidence'') of
                  JObj evidence \<Rightarrow>
                    (let workspace = text_of H mission_case ''_isolated_workspace'' in
                     if workspace = [] \<or> \<not> is_dir workspace
                     then verdict0 INCONCLUSIVE (u ''durable code workspace is unavailable'')
                     else
                       let r = code_receipt_of H mission_case profile evidence (snapshot workspace);
                           ob = \<lparr>ob_channel = u ''host-verification-command'', ob_at = epoch (dget_null evidence (u ''timestamp'')),
                                 ob_ok = receipt_ok r, ob_asserted = True, ob_detail = receipt_detail r\<rparr> in
                       verdict1 (if receipt_ok r then VERIFIED else INCONCLUSIVE) (receipt_detail r) ob)
                | _ \<Rightarrow> verdict0 INCONCLUSIVE (u ''durable code verification has no independent command evidence''))
           | _ \<Rightarrow> verdict0 INCONCLUSIVE (u ''durable code has no successful host verification receipt''))
      | _ \<Rightarrow> verdict0 INCONCLUSIVE (u ''Mission is not configured as durable code''))"

definition verify_mission :: "pyhost \<Rightarrow> (pystr \<Rightarrow> bool) \<Rightarrow> (pystr \<Rightarrow> pydict) \<Rightarrow> (json \<Rightarrow> rat) \<Rightarrow> pystr list
    \<Rightarrow> (pystr \<Rightarrow> pydict list) \<Rightarrow> pydict \<Rightarrow> verdict result" where
  "verify_mission H is_dir snapshot epoch nonces receipts mission_case =
     (case dget_null mission_case (u ''code_profile'') of
        JObj _ \<Rightarrow> Inr (verify_code H is_dir snapshot epoch mission_case)
      | _ \<Rightarrow> verify_campaign H mission_case nonces receipts)"

subsection \<open>What a verdict means\<close>

lemma verdict_simps [simp]:
  "vd_status (verdict0 s w) = s" "vd_status (verdict1 s w ob) = s"
  "vd_evidence (verdict0 s w) = []" "vd_evidence (verdict1 s w ob) = [ob]"
  by (simp_all add: verdict0_def verdict1_def)

lemma newest_of_max:
  "newest_of best obs \<in> insert best (set obs) \<and> (\<forall>ob \<in> insert best (set obs). ob_at ob \<le> ob_at (newest_of best obs))"
proof (induction best obs rule: newest_of.induct)
  case (2 best ob obs)
  then show ?case by (cases "ob_at best < ob_at ob") (auto intro: order_trans less_imp_le)
qed simp

lemma last_change_max: "m' \<in> set (m # ms) \<Longrightarrow> mu_at m' \<le> last_change m ms"
proof -
  have "a \<le> fold max xs a \<and> (\<forall>x \<in> set xs. x \<le> fold max xs a)" for a :: rat and xs
    by (induction xs arbitrary: a) (auto, (metis max.bounded_iff)+)
  then show "m' \<in> set (m # ms) \<Longrightarrow> mu_at m' \<le> last_change m ms"
    unfolding last_change_def by (metis image_eqI list.set_map set_ConsD)
qed

text \<open>
  No evidence, not verified. A verdict is "verified" only when something
  changed, and the newest observation on an accepted channel that is not older than any
  change passed (with a hard assertion where one is required); that observation is the
  evidence. And a failed check after an irreversible change is never repaired by another
  round, nor is a verified one.
\<close>

theorem verified_means_fresh_evidence:
  "(vd_status (verify H v muts obs) = VERIFIED \<longrightarrow>
      muts \<noteq> [] \<and> (\<exists>ob \<in> set obs. vd_evidence (verify H v muts obs) = [ob] \<and> accepts v ob
        \<and> (\<forall>m \<in> set muts. mu_at m \<le> ob_at ob) \<and> ob_ok ob \<and> (vf_require_assert v \<longrightarrow> ob_asserted ob)
        \<and> (\<forall>other \<in> set obs. accepts v other \<longrightarrow> ob_at other \<le> ob_at ob)))
   \<and> (repairable (verify H v muts obs) muts \<longrightarrow>
        vd_status (verify H v muts obs) = INCONCLUSIVE
        \<or> vd_status (verify H v muts obs) = FAILED \<and> (\<forall>m \<in> set muts. mu_reversible m))"
proof (rule conjI)
  have "vd_status d = INCONCLUSIVE \<or> vd_status d = FAILED \<and> (\<forall>m \<in> set muts. mu_reversible m)"
    if "repairable d muts" for d
    using that by (cases "vd_status d") (auto simp: repairable_def list_ex_iff split: if_splits)
  then show "repairable (verify H v muts obs) muts \<longrightarrow> vd_status (verify H v muts obs) = INCONCLUSIVE
      \<or> vd_status (verify H v muts obs) = FAILED \<and> (\<forall>m \<in> set muts. mu_reversible m)" by blast
next
  show "vd_status (verify H v muts obs) = VERIFIED \<longrightarrow>
      muts \<noteq> [] \<and> (\<exists>ob \<in> set obs. vd_evidence (verify H v muts obs) = [ob] \<and> accepts v ob
        \<and> (\<forall>m \<in> set muts. mu_at m \<le> ob_at ob) \<and> ob_ok ob \<and> (vf_require_assert v \<longrightarrow> ob_asserted ob)
        \<and> (\<forall>other \<in> set obs. accepts v other \<longrightarrow> ob_at other \<le> ob_at ob))"
  proof
    assume ver: "vd_status (verify H v muts obs) = VERIFIED"
    then obtain m ms where muts: "muts = m # ms" by (cases muts) (auto simp: verify_def)
    let ?P = "\<lambda>ob. accepts v ob \<and> last_change m ms \<le> ob_at ob"
    from ver obtain ob rest where f: "filter ?P obs = ob # rest"
      by (cases "filter ?P obs") (auto simp: verify_def muts)
    let ?n = "newest_of ob rest"
    have n: "?n \<in> set (filter ?P obs)" "\<forall>o' \<in> set (filter ?P obs). ob_at o' \<le> ob_at ?n"
      unfolding f using newest_of_max [of ob rest] by auto
    from ver f have ok: "ob_ok ?n" "vf_require_assert v \<longrightarrow> ob_asserted ?n" "vd_evidence (verify H v muts obs) = [?n]"
      by (auto simp: verify_def muts Let_def split: if_splits)
    have fresh: "\<forall>m' \<in> set muts. mu_at m' \<le> ob_at ?n"
      using n(1) last_change_max [of _ m ms] unfolding muts by fastforce
    have "ob_at other \<le> ob_at ?n" if "other \<in> set obs" "accepts v other" for other
      using n that by (cases "last_change m ms \<le> ob_at other") auto
    with n ok fresh muts show "muts \<noteq> [] \<and> (\<exists>ob \<in> set obs. vd_evidence (verify H v muts obs) = [ob] \<and> accepts v ob
        \<and> (\<forall>m \<in> set muts. mu_at m \<le> ob_at ob) \<and> ob_ok ob \<and> (vf_require_assert v \<longrightarrow> ob_asserted ob)
        \<and> (\<forall>other \<in> set obs. accepts v other \<longrightarrow> ob_at other \<le> ob_at ob))"
      by auto
  qed
qed

theorem verified_means_fresh_evidence_witness:
  "let sent = \<lparr>mu_at = 3, mu_kind = u ''send'', mu_reversible = False\<rparr>;
       seen = \<lparr>ob_channel = u ''logged-out-fetch'', ob_at = 5, ob_ok = True, ob_asserted = True, ob_detail = []\<rparr> in
     vd_status (verify ascii_host listing_verifier [sent] [seen]) = VERIFIED \<and> mu_at sent \<le> ob_at seen"
proof -
  let ?sent = "\<lparr>mu_at = 3, mu_kind = u ''send'', mu_reversible = False\<rparr>"
  let ?seen = "\<lparr>ob_channel = u ''logged-out-fetch'', ob_at = 5, ob_ok = True, ob_asserted = True, ob_detail = []\<rparr>"
  have v: "vd_status (verify ascii_host listing_verifier [?sent] [?seen]) = VERIFIED"
    by (simp add: verify_def last_change_def accepts_def listing_verifier_def)
  with verified_means_fresh_evidence [of ascii_host listing_verifier "[?sent]" "[?seen]"] show ?thesis
    by (simp add: Let_def)
qed

text \<open>
  A mission is closed only by evidence. The router's verdict is "verified" for
  a code mission only when the host's receipt passed for exactly the configured command, the
  digest it names is the digest of the workspace now and differs from the baseline, the
  patch is attributed to this mission and the run was neither cut off nor cancelled; and for
  any other mission only when every required branch is closed and at least one fired and
  independently verified receipt is linked.
\<close>

theorem mission_closed_by_evidence:
  assumes "verify_mission H is_dir snapshot epoch nonces receipts mission_case = Inr d" "vd_status d = VERIFIED"
  shows "(\<exists>profile v evidence. dget_null mission_case (u ''code_profile'') = JObj profile
        \<and> dget_null mission_case (u ''code_verification'') = JObj v \<and> dget_null v (u ''evidence'') = JObj evidence
        \<and> (let now = snapshot (text_of H mission_case ''_isolated_workspace'') in
             text_of H now ''tree_digest'' = text_of H evidence ''post_tree_digest''
             \<and> text_of H evidence ''post_tree_digest'' \<noteq> text_of H mission_case ''code_baseline_tree_digest''
             \<and> truth_of now ''snapshot_complete'')
        \<and> strip (text_of H evidence ''command'') = strip (text_of H profile ''verify_command'')
        \<and> truth_of evidence ''passed'' \<and> dget_null evidence (u ''patch_attributed'') = JBool True
        \<and> \<not> truth_of evidence ''cancelled'')
    \<or> (\<exists>rows n receipt. coverage_rows mission_case = Inr rows
        \<and> (\<forall>row \<in> set rows. is_required row \<longrightarrow> row_status H row \<in> set terminal_statuses)
        \<and> n \<in> set nonces \<and> receipt \<in> set (receipts n) \<and> proves receipt)"
proof (cases "\<exists>p. dget_null mission_case (u ''code_profile'') = JObj p")
  case True
  then obtain profile where p: "dget_null mission_case (u ''code_profile'') = JObj profile" by blast
  with assms have d: "d = verify_code H is_dir snapshot epoch mission_case" by (simp add: verify_mission_def)
  from assms(2) obtain v where v: "dget_null mission_case (u ''code_verification'') = JObj v" "truth_of mission_case ''code_verified''"
    unfolding d verify_code_def p by (auto split: bool.splits json.splits)
  from assms(2) obtain evidence where e: "dget_null v (u ''evidence'') = JObj evidence"
    unfolding d verify_code_def p v by (auto simp: v split: json.splits)
  have "receipt_ok (code_receipt_of H mission_case profile evidence (snapshot (text_of H mission_case ''_isolated_workspace'')))"
    using assms(2) unfolding d verify_code_def p v e by (auto simp: v e Let_def split: if_splits)
  then show ?thesis using p v e
    by (auto simp: receipt_ok_def code_receipt_of_def Let_def)
next
  case False
  then have "verify_campaign H mission_case nonces receipts = Inr d"
    using assms(1) by (auto simp: verify_mission_def split: json.splits)
  with assms(2) obtain rows where rows: "coverage_rows mission_case = Inr rows"
    and closed: "filter (\<lambda>r. \<not> List.member terminal_statuses (row_status H r)) (filter is_required rows) = []"
    and ev: "receipt_evidence H nonces receipts \<noteq> []"
    by (auto simp: verify_campaign_def bind_result_Inr_iff Let_def split: if_splits)
  from closed have "\<forall>row \<in> set rows. is_required row \<longrightarrow> row_status H row \<in> set terminal_statuses"
    by (auto simp: filter_empty_conv)
  moreover from ev obtain n where "n \<in> set nonces" "filter proves (receipts n) \<noteq> []"
    by (auto simp: receipt_evidence_def concat_eq_Nil_conv)
  moreover from this obtain r where "r \<in> set (receipts n)" "proves r"
    by (auto simp: filter_empty_conv)
  ultimately show ?thesis using rows by blast
qed

theorem mission_closed_by_evidence_witness:
  "let row = [(u ''branch'', JStr (u ''b'')), (u ''status'', JStr (u ''completed''))];
       receipt = [(u ''fired'', JInt 1), (u ''verdict'', JStr (u ''verified''))];
       mission_case = [(u ''_campaign_coverage'', JList [JObj row])] in
     (\<exists>d. verify_mission ascii_host (\<lambda>_. False) (\<lambda>_. []) (\<lambda>_. 0) [u ''n''] (\<lambda>_. [receipt]) mission_case = Inr d
        \<and> vd_status d = VERIFIED)
     \<and> row_status ascii_host row \<in> set terminal_statuses"
proof -
  let ?row = "[(u ''branch'', JStr (u ''b'')), (u ''status'', JStr (u ''completed''))]"
  let ?receipt = "[(u ''fired'', JInt 1), (u ''verdict'', JStr (u ''verified''))]"
  let ?case = "[(u ''_campaign_coverage'', JList [JObj ?row])]"
  have low: "py_lower ascii_host (u ''completed'') = u ''completed''"
    by (simp add: py_lower_def is_ascii_def lower_cp_def u_def)
  have st: "row_status ascii_host ?row = u ''completed''"
    by (simp add: row_status_def or_json_def low)
  have rows: "coverage_rows ?case = Inr [?row]" by (simp add: coverage_rows_def)
  obtain d where d: "verify_mission ascii_host (\<lambda>_. False) (\<lambda>_. []) (\<lambda>_. 0) [u ''n''] (\<lambda>_. [?receipt]) ?case = Inr d"
      "vd_status d = VERIFIED"
    by (simp add: verify_mission_def verify_campaign_def rows is_required_def dget_def st terminal_statuses_def
        receipt_evidence_def proves_def status_value_def Let_def)
  from mission_closed_by_evidence [OF d] rows have "row_status ascii_host ?row \<in> set terminal_statuses"
    by (auto simp: is_required_def dget_def)
  with d show ?thesis unfolding Let_def by blast
qed

end
