(* ===== verification/Actions.thy ===== *)
theory Actions
  imports Latch Present Verifier
begin

text \<open>
  \<open>harness/actions.py\<close>: the store through which an irreversible action goes. It is
  proposed (materialized with a keyed digest of its payload), confirmed by a person or by
  the host under a leash, claimed by one executor, performed and evidenced by a receipt.
  The table and the receipts are lists of rows; a JSON column is the value it decodes to,
  \<open>None\<close> when it does not decode or holds a non-finite number. The keyed digest, and the
  scrubbing of secrets in a receipt, are arguments (\<open>mac\<close> is HMAC under the store's key).
  Times are the values of \<open>int(time.time())\<close> at the call.
\<close>

subsection \<open>Canonical JSON\<close>

fun finite_json :: "json \<Rightarrow> bool" where
  "finite_json (JFloat (Fin q)) = True"
| "finite_json (JFloat _) = False"
| "finite_json (JList xs) = list_all finite_json xs"
| "finite_json (JObj d) = list_all (\<lambda>(_, v). finite_json v) d"
| "finite_json _ = True"

fun insert_pair :: "pystr \<times> 'a \<Rightarrow> (pystr \<times> 'a) list \<Rightarrow> (pystr \<times> 'a) list" where
  "insert_pair x [] = [x]"
| "insert_pair x (y # ys) = (if str_le (fst x) (fst y) then x # y # ys else y # insert_pair x ys)"

definition sorted_pairs :: "(pystr \<times> 'a) list \<Rightarrow> (pystr \<times> 'a) list" where
  "sorted_pairs d = foldr insert_pair d []"

text \<open>\<open>json.dumps(v, sort_keys=True, separators=(",", ":"), ensure_ascii=False)\<close>.\<close>

fun canon_text :: "pyhost \<Rightarrow> json \<Rightarrow> pystr" where
  "canon_text H (JList xs) = [91] @ join [44] (map (canon_text H) xs) @ [93]"
| "canon_text H (JObj d) = [123] @ join [44] (map (\<lambda>(k, t). json_quote k @ [58] @ t)
     (sorted_pairs (map (\<lambda>(k, v). (k, canon_text H v)) d))) @ [125]"
| "canon_text H v = json_text H v"

definition j_object :: "json option \<Rightarrow> pydict result" where
  "j_object col =
     (case col of
        Some (JObj d) \<Rightarrow> if finite_json (JObj d) then Inr d else Inl (ValueError ''non-finite JSON number is forbidden'')
      | _ \<Rightarrow> Inl (ValueError ''durable action JSON must be an object''))"

definition mac_payload :: "pyhost \<Rightarrow> pystr \<Rightarrow> pydict \<Rightarrow> pystr \<Rightarrow> pystr \<Rightarrow> pystr \<Rightarrow> pydict \<Rightarrow> pystr" where
  "mac_payload H capability args leash_id job_id risk snapshot =
     join [0] [capability, canon_text H (JObj args), leash_id, job_id, risk, canon_text H (JObj snapshot)]"

subsection \<open>The store\<close>

datatype action_state = A_PENDING | A_APPROVED | A_EXECUTING | A_EXECUTED | A_REFUSED | A_EXPIRED

record action_row =
  ac_nonce :: pystr
  ac_job :: pystr
  ac_capability :: pystr
  ac_args :: "json option"
  ac_digest :: pystr
  ac_risk :: pystr
  ac_leash :: pystr
  ac_snapshot :: "json option"
  ac_state :: action_state
  ac_created :: int
  ac_expires :: int
  ac_decided :: int
  ac_executed :: int
  ac_attempted :: int
  ac_auto :: bool
  ac_reason :: pystr

record receipt =
  rc_nonce :: pystr
  rc_capability :: pystr
  rc_approved :: bool
  rc_fired :: bool
  rc_verdict :: status
  rc_reason :: pystr
  rc_evidence :: pystr
  rc_args :: pystr
  rc_job :: pystr
  rc_leash :: pystr
  rc_created :: int

record action_db =
  ad_rows :: "action_row list"
  ad_receipts :: "receipt list"

definition has_nonce :: "pystr \<Rightarrow> action_row \<Rightarrow> bool" where
  "has_nonce n r \<longleftrightarrow> ac_nonce r = n"

definition action_row_of :: "action_db \<Rightarrow> pystr \<Rightarrow> action_row option" where
  "action_row_of db n = List.find (has_nonce n) (ad_rows db)"

text \<open>\<open>UPDATE ... WHERE nonce=? AND state IN ...\<close>: the number of rows changed, and the table.\<close>

definition update_action :: "pystr \<Rightarrow> action_state list \<Rightarrow> (action_row \<Rightarrow> action_row) \<Rightarrow> action_db \<Rightarrow> nat \<times> action_db" where
  "update_action n states f db =
     (let hit = (\<lambda>r. ac_nonce r = n \<and> List.member states (ac_state r)) in
      (length (filter hit (ad_rows db)), db\<lparr>ad_rows := map (\<lambda>r. if hit r then f r else r) (ad_rows db)\<rparr>))"

definition all_states :: "action_state list" where
  "all_states = [A_PENDING, A_APPROVED, A_EXECUTING, A_EXECUTED, A_REFUSED, A_EXPIRED]"

definition mac_of_row :: "pyhost \<Rightarrow> (pystr \<Rightarrow> pystr) \<Rightarrow> action_row \<Rightarrow> pystr result" where
  "mac_of_row H mac r =
     bind_result (j_object (ac_args r)) (\<lambda>args. bind_result (j_object (ac_snapshot r)) (\<lambda>snap.
       Inr (mac (mac_payload H (ac_capability r) args (ac_leash r) (ac_job r) (ac_risk r) snap))))"

text \<open>
  \<open>float(ttl_s)\<close> for the numbers the callers pass; a \<open>bool\<close>, anything that is not a number,
  a non-finite number and less than a second are refused.
\<close>

definition ttl_seconds :: "json \<Rightarrow> int option" where
  "ttl_seconds v =
     (case v of
        JInt i \<Rightarrow> if i < 1 then None else Some i
      | JFloat (Fin q) \<Rightarrow> if q < 1 then None else Some (trunc_rat q)
      | _ \<Rightarrow> None)"

record action_request =
  aq_capability :: pystr
  aq_args :: pydict
  aq_risk :: pystr
  aq_job :: pystr
  aq_leash :: pystr
  aq_snapshot :: pydict
  aq_auto :: bool

definition proposed_row :: "pyhost \<Rightarrow> (pystr \<Rightarrow> pystr) \<Rightarrow> action_request \<Rightarrow> pystr \<Rightarrow> int \<Rightarrow> int \<Rightarrow> action_row" where
  "proposed_row H mac q nonce ttl now = \<lparr>
     ac_nonce = nonce, ac_job = aq_job q, ac_capability = aq_capability q, ac_args = Some (JObj (aq_args q)),
     ac_digest = mac (mac_payload H (aq_capability q) (aq_args q) (aq_leash q) (aq_job q) (aq_risk q) (aq_snapshot q)),
     ac_risk = aq_risk q, ac_leash = aq_leash q, ac_snapshot = Some (JObj (aq_snapshot q)), ac_state = A_PENDING,
     ac_created = now, ac_expires = now + ttl, ac_decided = 0, ac_executed = 0, ac_attempted = 0,
     ac_auto = aq_auto q, ac_reason = []\<rparr>"

definition propose :: "pyhost \<Rightarrow> (pystr \<Rightarrow> pystr) \<Rightarrow> action_request \<Rightarrow> json \<Rightarrow> pystr \<Rightarrow> int \<Rightarrow> action_db
    \<Rightarrow> action_db result" where
  "propose H mac q ttl_s nonce now db =
     (case ttl_seconds ttl_s of
        None \<Rightarrow> Inl (ValueError ''action TTL must be a finite number of at least one second'')
      | Some ttl \<Rightarrow>
          if \<not> finite_json (JObj (aq_args q)) \<or> \<not> finite_json (JObj (aq_snapshot q))
          then Inl (ValueError ''Out of range float values are not JSON compliant'')
          else if list_ex (has_nonce nonce) (ad_rows db) then Inl (OtherError ''IntegrityError'')
          else Inr (db\<lparr>ad_rows := ad_rows db @ [proposed_row H mac q nonce ttl now]\<rparr>))"

subsection \<open>Confirming and refusing\<close>

text \<open>\<open>RefusedError\<close> with its message.\<close>

definition refused :: "pystr \<Rightarrow> 'a result" where
  "refused why = Inl (OtherError ''RefusedError'')"

definition refuse_payload :: "pystr \<Rightarrow> pystr \<Rightarrow> action_db \<Rightarrow> action_db" where
  "refuse_payload n why db = snd (update_action n all_states (\<lambda>r. r\<lparr>ac_state := A_REFUSED, ac_reason := why\<rparr>) db)"

definition intact :: "pyhost \<Rightarrow> (pystr \<Rightarrow> pystr) \<Rightarrow> action_row \<Rightarrow> bool" where
  "intact H mac r \<longleftrightarrow> mac_of_row H mac r = Inr (ac_digest r)"

definition confirm :: "pyhost \<Rightarrow> (pystr \<Rightarrow> pystr) \<Rightarrow> pystr \<Rightarrow> int \<Rightarrow> action_db \<Rightarrow> bool \<times> action_db" where
  "confirm H mac n now db =
     (case action_row_of db n of
        None \<Rightarrow> (False, db)
      | Some r \<Rightarrow>
          if ac_state r \<noteq> A_PENDING then (False, db)
          else if ac_expires r \<noteq> 0 \<and> ac_expires r < now
          then (False, snd (update_action n [A_PENDING] (\<lambda>r. r\<lparr>ac_state := A_EXPIRED, ac_decided := now\<rparr>) db))
          else if \<not> intact H mac r then (False, refuse_payload n (u ''invalid or tampered action payload'') db)
          else (case update_action n [A_PENDING] (\<lambda>r. r\<lparr>ac_state := A_APPROVED, ac_decided := now\<rparr>) db of
                  (count, db') \<Rightarrow> (count = 1, db')))"

definition refuse :: "pystr \<Rightarrow> pystr \<Rightarrow> int \<Rightarrow> action_db \<Rightarrow> bool \<times> action_db" where
  "refuse n why now db =
     (case update_action n [A_PENDING, A_APPROVED]
        (\<lambda>r. r\<lparr>ac_state := A_REFUSED, ac_reason := take 200 why, ac_decided := now\<rparr>) db of
        (count, db') \<Rightarrow> (count = 1, db'))"

definition refuse_for_job :: "pystr \<Rightarrow> pystr \<Rightarrow> int \<Rightarrow> action_db \<Rightarrow> nat \<times> action_db" where
  "refuse_for_job job why now db =
     (let hit = (\<lambda>r. ac_job r = job \<and> List.member [A_PENDING, A_APPROVED] (ac_state r)) in
      (length (filter hit (ad_rows db)),
       db\<lparr>ad_rows := map (\<lambda>r. if hit r then r\<lparr>ac_state := A_REFUSED, ac_reason := take 200 why, ac_decided := now\<rparr> else r)
           (ad_rows db)\<rparr>))"

subsection \<open>Receipts\<close>

definition evidence_text :: "verdict \<Rightarrow> pystr" where
  "evidence_text v = join (u ''; '') (map ob_detail (vd_evidence v))"

definition make_receipt :: "pyhost \<Rightarrow> (pystr \<Rightarrow> pystr) \<Rightarrow> action_row \<Rightarrow> bool \<Rightarrow> verdict \<Rightarrow> int \<Rightarrow> receipt" where
  "make_receipt H redact r fired v now = \<lparr>
     rc_nonce = ac_nonce r, rc_capability = ac_capability r, rc_approved = True, rc_fired = fired,
     rc_verdict = vd_status v, rc_reason = vd_reason v, rc_evidence = evidence_text v,
     rc_args = redact (json_text H (case ac_args r of Some j \<Rightarrow> j | None \<Rightarrow> JObj [])),
     rc_job = ac_job r, rc_leash = ac_leash r, rc_created = now\<rparr>"

definition add_receipt :: "receipt \<Rightarrow> action_db \<Rightarrow> action_db" where
  "add_receipt rc db = db\<lparr>ad_receipts := ad_receipts db @ [rc]\<rparr>"

definition receipts_for :: "action_db \<Rightarrow> pystr \<Rightarrow> receipt list" where
  "receipts_for db n = (if n = [] then ad_receipts db else filter (\<lambda>rc. rc_nonce rc = n) (ad_receipts db))"

definition pending_actions :: "action_db \<Rightarrow> action_row list" where
  "pending_actions db = sort_key ac_created (filter (\<lambda>r. ac_state r = A_PENDING \<and> \<not> ac_auto r) (ad_rows db))"

definition list_actions :: "action_db \<Rightarrow> action_state option \<Rightarrow> action_row list" where
  "list_actions db state = sort_key ac_created
     (filter (\<lambda>r. case state of None \<Rightarrow> True | Some s \<Rightarrow> ac_state r = s) (ad_rows db))"

definition retirable :: "pystr list" where
  "retirable = [u ''research'', u ''compose'', u ''browse'', u ''observe'', u ''code'']"

definition unretirable_risks :: "pystr list" where
  "unretirable_risks = [u ''publish'', u ''send'', u ''commerce'', u ''destructive'', u ''irreversible'']"

definition retire_stale_reversible :: "pyhost \<Rightarrow> (pystr \<Rightarrow> pystr) \<Rightarrow> pystr \<Rightarrow> int \<Rightarrow> pystr \<Rightarrow> int \<Rightarrow> action_db
    \<Rightarrow> (bool \<times> action_db) result" where
  "retire_stale_reversible H redact n min_age why now db =
     (case action_row_of db n of
        None \<Rightarrow> Inr (False, db)
      | Some r \<Rightarrow>
          if ac_state r \<noteq> A_EXECUTING \<or> \<not> List.member retirable (ac_capability r)
             \<or> List.member unretirable_risks (py_lower H (ac_risk r)) then Inr (False, db)
          else
            let started = (if ac_attempted r \<noteq> 0 then ac_attempted r else if ac_created r \<noteq> 0 then ac_created r else now) in
            if now - started < max 60 min_age then Inr (False, db)
            else bind_result (j_object (ac_args r)) (\<lambda>_. bind_result (j_object (ac_snapshot r)) (\<lambda>_.
              let v = verdict0 INCONCLUSIVE (take 200 (or_str why (u ''stale reversible execution retired'')));
                  (count, db') = update_action n [A_EXECUTING] (\<lambda>r. r\<lparr>ac_state := A_EXECUTED, ac_executed := now\<rparr>) db in
              if count \<noteq> 1 then Inr (False, db)
              else Inr (True, add_receipt (make_receipt H redact r True v now) db'))))"

subsection \<open>The executor, in the pieces other processes can come between\<close>

text \<open>
  The first transaction of \<open>execute\<close>: the guards and the claim. The result is the row as
  claimed, or the refusal.
\<close>

definition claim :: "pyhost \<Rightarrow> (pystr \<Rightarrow> pystr) \<Rightarrow> pystr \<Rightarrow> int \<Rightarrow> action_db \<Rightarrow> action_row option \<times> action_db" where
  "claim H mac n now db =
     (case action_row_of db n of
        None \<Rightarrow> (None, db)
      | Some r \<Rightarrow>
          if ac_state r \<noteq> A_APPROVED then (None, db)
          else (case mac_of_row H mac r of
            Inl _ \<Rightarrow> (None, refuse_payload n (u ''invalid durable action JSON'') db)
          | Inr d \<Rightarrow>
              if d \<noteq> ac_digest r then (None, refuse_payload n (u ''payload MAC mismatch (tampered)'') db)
              else (case update_action n [A_APPROVED] (\<lambda>r. r\<lparr>ac_state := A_EXECUTING, ac_attempted := now\<rparr>) db of
                (count, db') \<Rightarrow> if count \<noteq> 1 then (None, db') else (action_row_of db' n, db'))))"

text \<open>The world diverged: the row goes back to approved and a receipt says nothing fired.\<close>

definition roll_back :: "pyhost \<Rightarrow> (pystr \<Rightarrow> pystr) \<Rightarrow> action_row \<Rightarrow> int \<Rightarrow> action_db \<Rightarrow> action_db" where
  "roll_back H redact r now db =
     add_receipt (make_receipt H redact r False (verdict0 INCONCLUSIVE (u ''world diverged from approved snapshot'')) now)
       (snd (update_action (ac_nonce r) all_states (\<lambda>r. r\<lparr>ac_state := A_APPROVED\<rparr>) db))"

definition finalize :: "pyhost \<Rightarrow> (pystr \<Rightarrow> pystr) \<Rightarrow> action_row \<Rightarrow> verdict \<Rightarrow> int \<Rightarrow> action_db \<Rightarrow> receipt \<times> action_db" where
  "finalize H redact r v now db =
     (let rc = make_receipt H redact r True v now in
      (rc, add_receipt rc
         (snd (update_action (ac_nonce r) all_states (\<lambda>r. r\<lparr>ac_state := A_EXECUTED, ac_executed := now\<rparr>) db))))"

text \<open>
  \<open>execute\<close> when nothing comes between. \<open>side\<close> performs the action, \<open>check\<close> is its
  done-check, \<open>unchanged\<close> whether the world still matches (each can raise); \<open>now\<close> and
  \<open>later\<close> are the clock before and after them.
\<close>

definition exc_reason :: "exc \<Rightarrow> pystr" where
  "exc_reason e = take 200 (u ''capability raised: '' @ (case e of
     ValueError s \<Rightarrow> u ''ValueError: '' @ u s | TypeError s \<Rightarrow> u ''TypeError: '' @ u s | KeyError s \<Rightarrow> u ''KeyError: '' @ u s
   | RuntimeError s \<Rightarrow> u ''RuntimeError: '' @ u s | OtherError s \<Rightarrow> u s @ u '': ''))"

definition outcome_verdict :: "(action_row \<Rightarrow> 'r result) \<Rightarrow> (action_row \<Rightarrow> 'r \<Rightarrow> verdict result) option \<Rightarrow> action_row \<Rightarrow> verdict" where
  "outcome_verdict side check r =
     (case bind_result (side r) (\<lambda>x. case check of
          None \<Rightarrow> Inr (verdict0 INCONCLUSIVE (u ''no done-check declared'')) | Some f \<Rightarrow> f r x) of
        Inr v \<Rightarrow> v
      | Inl e \<Rightarrow> verdict0 FAILED (exc_reason e))"

definition execute :: "pyhost \<Rightarrow> (pystr \<Rightarrow> pystr) \<Rightarrow> (pystr \<Rightarrow> pystr) \<Rightarrow> (action_row \<Rightarrow> 'r result)
    \<Rightarrow> (action_row \<Rightarrow> 'r \<Rightarrow> verdict result) option \<Rightarrow> (action_row \<Rightarrow> bool result) option \<Rightarrow> pystr \<Rightarrow> int \<Rightarrow> int
    \<Rightarrow> action_db \<Rightarrow> receipt result \<times> action_db" where
  "execute H mac redact side check unchanged n now later db =
     (case claim H mac n now db of
        (None, db') \<Rightarrow> (refused (u ''not executable''), db')
      | (Some r, db') \<Rightarrow>
          if (case unchanged of None \<Rightarrow> False | Some f \<Rightarrow> f r \<noteq> Inr True)
          then (refused (u ''world diverged from approved snapshot (TOCTOU)''), roll_back H redact r later db')
          else (case finalize H redact r (outcome_verdict side check r) later db' of (rc, db'') \<Rightarrow> (Inr rc, db'')))"

subsection \<open>Executors side by side\<close>

text \<open>
  Several processes on one store. An executor that claimed a row is checking the world
  (\<open>xs_checking\<close>) until it rolls back or fires, and is firing until it finalizes; it can
  die in between. Beside the store's own operations there are the ones of a process whose
  reads are out of date: a confirm or a claim that is only its guarded \<open>UPDATE\<close>, the
  unguarded \<open>UPDATE\<close> of a payload refusal; and an attacker who rewrites any column of a
  row but its key and its state. Firing wins the nonce.
\<close>

record exec_system =
  xs_db :: action_db
  xs_checking :: "action_row list"
  xs_firing :: "action_row list"
  xs_fired :: "pystr set"

datatype exec_op =
    XPropose action_request json pystr int
  | XConfirm pystr int
  | XLateConfirm pystr int
  | XRefuse pystr pystr int
  | XRefuseJob pystr pystr int
  | XLateRefuse pystr pystr
  | XRetire pystr int pystr int
  | XTamper "action_row \<Rightarrow> action_row"
  | XClaim pystr int
  | XLateClaim pystr int
  | XDiverge nat int
  | XFire nat
  | XFinalize nat verdict int
  | XDieChecking nat
  | XDieFiring nat

definition drop_nth :: "nat \<Rightarrow> 'a list \<Rightarrow> 'a list" where
  "drop_nth i xs = take i xs @ drop (Suc i) xs"

definition late_claim :: "pystr \<Rightarrow> int \<Rightarrow> action_db \<Rightarrow> action_row option \<times> action_db" where
  "late_claim n now db =
     (case update_action n [A_APPROVED] (\<lambda>r. r\<lparr>ac_state := A_EXECUTING, ac_attempted := now\<rparr>) db of
        (count, db') \<Rightarrow> if count \<noteq> 1 then (None, db') else (action_row_of db' n, db'))"

definition admit :: "action_row option \<times> action_db \<Rightarrow> exec_system \<Rightarrow> exec_system" where
  "admit c s = (case c of (None, db) \<Rightarrow> s\<lparr>xs_db := db\<rparr> | (Some r, db) \<Rightarrow> s\<lparr>xs_db := db, xs_checking := xs_checking s @ [r]\<rparr>)"

definition tampered :: "(action_row \<Rightarrow> action_row) \<Rightarrow> action_db \<Rightarrow> action_db" where
  "tampered f db = db\<lparr>ad_rows := map (\<lambda>r. (f r)\<lparr>ac_nonce := ac_nonce r, ac_state := ac_state r\<rparr>) (ad_rows db)\<rparr>"

fun exec_step :: "pyhost \<Rightarrow> (pystr \<Rightarrow> pystr) \<Rightarrow> (pystr \<Rightarrow> pystr) \<Rightarrow> exec_op \<Rightarrow> exec_system \<Rightarrow> pystr option \<times> exec_system" where
  "exec_step H mac redact (XPropose q ttl n now) s =
     (None, case propose H mac q ttl n now (xs_db s) of Inl _ \<Rightarrow> s | Inr db \<Rightarrow> s\<lparr>xs_db := db\<rparr>)"
| "exec_step H mac redact (XConfirm n now) s = (None, s\<lparr>xs_db := snd (confirm H mac n now (xs_db s))\<rparr>)"
| "exec_step H mac redact (XLateConfirm n now) s =
     (None, s\<lparr>xs_db := snd (update_action n [A_PENDING] (\<lambda>r. r\<lparr>ac_state := A_APPROVED, ac_decided := now\<rparr>) (xs_db s))\<rparr>)"
| "exec_step H mac redact (XRefuse n why now) s = (None, s\<lparr>xs_db := snd (refuse n why now (xs_db s))\<rparr>)"
| "exec_step H mac redact (XRefuseJob job why now) s = (None, s\<lparr>xs_db := snd (refuse_for_job job why now (xs_db s))\<rparr>)"
| "exec_step H mac redact (XLateRefuse n why) s = (None, s\<lparr>xs_db := refuse_payload n why (xs_db s)\<rparr>)"
| "exec_step H mac redact (XRetire n age why now) s =
     (None, case retire_stale_reversible H redact n age why now (xs_db s) of Inl _ \<Rightarrow> s | Inr (_, db) \<Rightarrow> s\<lparr>xs_db := db\<rparr>)"
| "exec_step H mac redact (XTamper f) s = (None, s\<lparr>xs_db := tampered f (xs_db s)\<rparr>)"
| "exec_step H mac redact (XClaim n now) s = (None, admit (claim H mac n now (xs_db s)) s)"
| "exec_step H mac redact (XLateClaim n now) s = (None, admit (late_claim n now (xs_db s)) s)"
| "exec_step H mac redact (XDiverge i now) s =
     (None, if i < length (xs_checking s)
            then s\<lparr>xs_db := roll_back H redact (xs_checking s ! i) now (xs_db s), xs_checking := drop_nth i (xs_checking s)\<rparr>
            else s)"
| "exec_step H mac redact (XFire i) s =
     (if i < length (xs_checking s)
      then let r = xs_checking s ! i in
        (Some (ac_nonce r), s\<lparr>xs_checking := drop_nth i (xs_checking s), xs_firing := xs_firing s @ [r],
                              xs_fired := insert (ac_nonce r) (xs_fired s)\<rparr>)
      else (None, s))"
| "exec_step H mac redact (XFinalize i v now) s =
     (None, if i < length (xs_firing s)
            then s\<lparr>xs_db := snd (finalize H redact (xs_firing s ! i) v now (xs_db s)), xs_firing := drop_nth i (xs_firing s)\<rparr>
            else s)"
| "exec_step H mac redact (XDieChecking i) s = (None, s\<lparr>xs_checking := drop_nth i (xs_checking s)\<rparr>)"
| "exec_step H mac redact (XDieFiring i) s = (None, s\<lparr>xs_firing := drop_nth i (xs_firing s)\<rparr>)"

text \<open>A nonce is closed when it is in the store and not pending or approved.\<close>

definition open_state :: "action_state \<Rightarrow> bool" where
  "open_state st \<longleftrightarrow> st = A_PENDING \<or> st = A_APPROVED"

definition closed :: "action_db \<Rightarrow> pystr \<Rightarrow> bool" where
  "closed db n \<longleftrightarrow> n \<in> ac_nonce ` set (ad_rows db) \<and> (\<forall>r \<in> set (ad_rows db). ac_nonce r = n \<longrightarrow> \<not> open_state (ac_state r))"

definition unique_nonces :: "action_db \<Rightarrow> bool" where
  "unique_nonces db \<longleftrightarrow> distinct (map ac_nonce (ad_rows db))"

definition exec_inv :: "exec_system \<Rightarrow> bool" where
  "exec_inv s \<longleftrightarrow> unique_nonces (xs_db s) \<and> distinct (map ac_nonce (xs_checking s))
     \<and> (\<forall>e \<in> set (xs_checking s). ac_nonce e \<notin> xs_fired s \<and> closed (xs_db s) (ac_nonce e))
     \<and> (\<forall>n \<in> xs_fired s. closed (xs_db s) n)"

text \<open>A change of the table that keeps its key and reopens nothing.\<close>

definition reopens_nothing :: "action_db \<Rightarrow> action_db \<Rightarrow> bool" where
  "reopens_nothing db db' \<longleftrightarrow> (unique_nonces db \<longrightarrow> unique_nonces db') \<and> (\<forall>n. closed db n \<longrightarrow> closed db' n)"

lemma open_state_simps [simp]:
  "open_state A_PENDING" "open_state A_APPROVED" "\<not> open_state A_EXECUTING" "\<not> open_state A_EXECUTED"
  "\<not> open_state A_REFUSED" "\<not> open_state A_EXPIRED"
  by (simp_all add: open_state_def)

lemma ad_rows_update:
  "ad_rows (snd (update_action n states f db))
   = map (\<lambda>r. if ac_nonce r = n \<and> List.member states (ac_state r) then f r else r) (ad_rows db)"
  by (simp add: update_action_def Let_def)

lemma reopens_nothing_refl [simp]: "reopens_nothing db db"
  by (simp add: reopens_nothing_def)

lemma reopens_nothing_map:
  assumes "\<And>r. ac_nonce (f r) = ac_nonce r" "\<And>r. \<not> open_state (ac_state r) \<Longrightarrow> \<not> open_state (ac_state (f r))"
    and "ad_rows db' = map f (ad_rows db)"
  shows "reopens_nothing db db'"
proof -
  have "map ac_nonce (ad_rows db') = map ac_nonce (ad_rows db)"
    using assms by (simp add: comp_def)
  moreover have "closed db' n" if "closed db n" for n
    using that assms unfolding closed_def by (force simp: image_iff)
  ultimately show ?thesis by (simp add: reopens_nothing_def unique_nonces_def)
qed

lemma reopens_nothing_update:
  assumes "\<And>r. ac_nonce (f r) = ac_nonce r"
    and "(\<forall>r. \<not> open_state (ac_state (f r))) \<or> list_all open_state states"
  shows "reopens_nothing db (snd (update_action n states f db))"
  using assms by (intro reopens_nothing_map [OF _ _ ad_rows_update]) (auto simp: list_all_iff)

lemma add_receipt_rows [simp]: "ad_rows (add_receipt rc db) = ad_rows db"
  by (simp add: add_receipt_def)

lemma reopens_nothing_add_receipt [simp]: "reopens_nothing db (add_receipt rc db') = reopens_nothing db db'"
  by (simp add: reopens_nothing_def unique_nonces_def closed_def)

lemma update_pending_reopens:
  assumes "update_action n [A_PENDING] (\<lambda>r. r\<lparr>ac_state := A_APPROVED, ac_decided := now\<rparr>) db = (count, db')"
  shows "reopens_nothing db db'"
  using reopens_nothing_update [where n = n and states = "[A_PENDING]" and db = db
      and f = "\<lambda>r. r\<lparr>ac_state := A_APPROVED, ac_decided := now\<rparr>"] assms by simp

lemma refuse_payload_reopens [simp]: "reopens_nothing db (refuse_payload m why db)"
  unfolding refuse_payload_def by (rule reopens_nothing_update) simp_all

lemma confirm_reopens: "reopens_nothing db (snd (confirm H mac m now db))"
  by (auto simp: confirm_def intro: reopens_nothing_update update_pending_reopens split: option.splits prod.splits)

lemma snd_keep: "snd (case p of (c, x) \<Rightarrow> (g c, x)) = snd p"
  by (simp add: split_beta)

lemma refuse_reopens: "reopens_nothing db (snd (refuse n why now db))"
  unfolding refuse_def snd_keep by (rule reopens_nothing_update) simp_all

lemma refuse_for_job_reopens: "reopens_nothing db (snd (refuse_for_job job why now db))"
  unfolding refuse_for_job_def Let_def snd_conv
  by (rule reopens_nothing_map [where f = "\<lambda>r. if ac_job r = job \<and> List.member [A_PENDING, A_APPROVED] (ac_state r)
        then r\<lparr>ac_state := A_REFUSED, ac_reason := take 200 why, ac_decided := now\<rparr> else r"]) simp_all

lemma tampered_reopens: "reopens_nothing db (tampered f db)"
  unfolding tampered_def
  by (rule reopens_nothing_map [where f = "\<lambda>r. (f r)\<lparr>ac_nonce := ac_nonce r, ac_state := ac_state r\<rparr>"]) simp_all

lemma finalize_reopens: "reopens_nothing db (snd (finalize H redact r v now db))"
  unfolding finalize_def Let_def snd_conv reopens_nothing_add_receipt
  by (rule reopens_nothing_update) simp_all

lemma retire_reopens:
  "retire_stale_reversible H redact n age why now db = Inr (b, db') \<Longrightarrow> reopens_nothing db db'"
  using reopens_nothing_update [where n = n and states = "[A_EXECUTING]" and db = db
      and f = "\<lambda>r. r\<lparr>ac_state := A_EXECUTED, ac_executed := now\<rparr>"]
  by (auto simp: retire_stale_reversible_def Let_def bind_result_Inr_iff split: option.splits if_splits prod.splits)

lemma propose_reopens:
  assumes "propose H mac q ttl n now db = Inr db'"
  shows "reopens_nothing db db'"
proof -
  have fresh: "n \<notin> ac_nonce ` set (ad_rows db)"
    and rows: "ad_rows db' = ad_rows db @ [proposed_row H mac q n (the (ttl_seconds ttl)) now]"
    using assms by (auto simp: propose_def list_ex_iff has_nonce_def split: option.splits if_splits)
  have nonce: "ac_nonce (proposed_row H mac q n t now) = n" for t by (simp add: proposed_row_def)
  have "closed db' k" if "closed db k" for k
    using that fresh by (auto simp: closed_def rows nonce)
  moreover have "unique_nonces db' = unique_nonces db"
    using fresh by (simp add: unique_nonces_def rows nonce)
  ultimately show ?thesis by (simp add: reopens_nothing_def)
qed

lemma action_row_of_Some: "action_row_of db n = Some r \<Longrightarrow> r \<in> set (ad_rows db) \<and> ac_nonce r = n"
  by (auto simp: action_row_of_def find_Some_iff has_nonce_def)

lemma unique_nonces_row:
  assumes "unique_nonces db" "r \<in> set (ad_rows db)" "q \<in> set (ad_rows db)" "ac_nonce r = ac_nonce q"
  shows "r = q"
  using assms unfolding unique_nonces_def by (auto simp: distinct_map inj_on_def)

lemma late_claim_reopens: "late_claim n now db = (c, db') \<Longrightarrow> reopens_nothing db db'"
  using reopens_nothing_update [where n = n and states = "[A_APPROVED]" and db = db
      and f = "\<lambda>r. r\<lparr>ac_state := A_EXECUTING, ac_attempted := now\<rparr>"]
  by (auto simp: late_claim_def split: prod.splits if_splits)

lemma late_claim_wins:
  assumes "late_claim n now db = (Some r, db')" "unique_nonces db"
  shows "ac_nonce r = n \<and> closed db' n \<and> \<not> closed db n"
proof -
  let ?f = "\<lambda>r. r\<lparr>ac_state := A_EXECUTING, ac_attempted := now\<rparr>"
  let ?hit = "\<lambda>r. ac_nonce r = n \<and> List.member [A_APPROVED] (ac_state r)"
  from assms(1) have len: "length (filter ?hit (ad_rows db)) = 1"
    and rows: "ad_rows db' = map (\<lambda>r. if ?hit r then ?f r else r) (ad_rows db)"
    and r: "action_row_of db' n = Some r"
    by (auto simp: late_claim_def update_action_def Let_def split: if_splits)
  from len have "filter ?hit (ad_rows db) \<noteq> []" by force
  then obtain q where q: "q \<in> set (ad_rows db)" "ac_nonce q = n" "ac_state q = A_APPROVED"
    by (auto simp: filter_empty_conv)
  have only: "p = q" if "p \<in> set (ad_rows db)" "ac_nonce p = n" for p
    using unique_nonces_row [OF assms(2) that(1) q(1)] that(2) q(2) by simp
  have "\<not> closed db n" using q by (auto simp: closed_def)
  moreover have "\<not> open_state (ac_state p)" if "p \<in> set (ad_rows db')" "ac_nonce p = n" for p
  proof -
    from that(1) obtain p0 where p0: "p0 \<in> set (ad_rows db)" "p = (if ?hit p0 then ?f p0 else p0)"
      unfolding rows by auto
    then have "ac_nonce p0 = n" using that(2) by (simp split: if_splits)
    with only p0(1) have "p0 = q" by blast
    with p0(2) q show ?thesis by simp
  qed
  moreover have "ac_nonce r = n" "r \<in> set (ad_rows db')" using action_row_of_Some [OF r] by simp_all
  ultimately show ?thesis by (auto simp: closed_def)
qed

lemma claim_cases:
  assumes "claim H mac n now db = (c, db')"
  shows "(c = None \<and> reopens_nothing db db')
    \<or> (late_claim n now db = (c, db') \<and> (\<exists>r. action_row_of db n = Some r \<and> ac_state r = A_APPROVED \<and> intact H mac r))"
proof (cases "action_row_of db n")
  case (Some r)
  note C = assms [unfolded claim_def Some option.case, folded late_claim_def]
  show ?thesis
  proof (cases "ac_state r = A_APPROVED \<and> intact H mac r")
    case True
    then have "late_claim n now db = (c, db')" using C by (simp add: intact_def)
    with True Some show ?thesis by blast
  next
    case False
    then have "(c, db') = (None, db) \<or> (\<exists>why. (c, db') = (None, refuse_payload n why db))"
      using C by (cases "mac_of_row H mac r") (auto simp: intact_def split: if_splits)
    then show ?thesis by auto
  qed
qed (use assms in \<open>simp add: claim_def\<close>)

lemma exec_inv_db:
  assumes "exec_inv s" "reopens_nothing (xs_db s) db"
  shows "exec_inv (s\<lparr>xs_db := db\<rparr>)"
  using assms by (simp add: exec_inv_def reopens_nothing_def)

lemma admit_inv:
  assumes "exec_inv s" "reopens_nothing (xs_db s) db"
    and "\<And>r. c = Some r \<Longrightarrow> closed db (ac_nonce r) \<and> \<not> closed (xs_db s) (ac_nonce r)"
  shows "exec_inv (admit (c, db) s)"
  using assms by (cases c) (auto simp: admit_def exec_inv_def reopens_nothing_def)

lemma late_claim_inv:
  assumes "exec_inv s" "late_claim n now (xs_db s) = c"
  shows "exec_inv (admit c s)"
proof (cases c)
  case (Pair r db)
  with assms have l: "late_claim n now (xs_db s) = (r, db)" by simp
  have "unique_nonces (xs_db s)" using assms(1) by (simp add: exec_inv_def)
  with late_claim_wins l show ?thesis unfolding Pair
    by (intro admit_inv [OF assms(1) late_claim_reopens [OF l]]) metis
qed

lemma claim_inv:
  assumes "exec_inv s"
  shows "exec_inv (admit (claim H mac n now (xs_db s)) s)"
proof -
  obtain c db where c: "claim H mac n now (xs_db s) = (c, db)" by fastforce
  from claim_cases [OF c] show ?thesis unfolding c
    by (auto intro: admit_inv [OF assms] late_claim_inv [OF assms])
qed

lemma set_drop_nth: "set (drop_nth i xs) \<subseteq> set xs"
  by (auto simp: drop_nth_def dest: in_set_takeD in_set_dropD)

lemma distinct_drop_nth:
  assumes "distinct (map f xs)"
  shows "distinct (map f (drop_nth i xs))" "i < length xs \<Longrightarrow> f (xs ! i) \<notin> f ` set (drop_nth i xs)"
proof -
  have split: "map f xs = map f (take i xs) @ map f (drop i xs)" by (metis append_take_drop_id map_append)
  show "distinct (map f (drop_nth i xs))"
  proof (cases "i < length xs")
    case True
    then have "map f xs = map f (take i xs) @ f (xs ! i) # map f (drop (Suc i) xs)"
      by (metis id_take_nth_drop list.simps(9) map_append)
    with assms show ?thesis by (simp add: drop_nth_def)
  qed (use assms in \<open>simp add: drop_nth_def\<close>)
  assume "i < length xs"
  then have "map f xs = map f (take i xs) @ f (xs ! i) # map f (drop (Suc i) xs)"
    by (metis id_take_nth_drop list.simps(9) map_append)
  with assms show "f (xs ! i) \<notin> f ` set (drop_nth i xs)" by (auto simp: drop_nth_def)
qed

lemma roll_back_rows:
  "ad_rows (roll_back H redact r now db)
   = map (\<lambda>q. if ac_nonce q = ac_nonce r \<and> List.member all_states (ac_state q) then q\<lparr>ac_state := A_APPROVED\<rparr> else q) (ad_rows db)"
  by (simp add: roll_back_def ad_rows_update)

lemma roll_back_closed:
  assumes "closed db n" "n \<noteq> ac_nonce r"
  shows "closed (roll_back H redact r now db) n"
  using assms unfolding closed_def roll_back_rows by (force simp: image_iff)

lemma roll_back_unique: "unique_nonces (roll_back H redact r now db) = unique_nonces db"
proof -
  have "map ac_nonce (ad_rows (roll_back H redact r now db)) = map ac_nonce (ad_rows db)"
    unfolding roll_back_rows by simp
  then show ?thesis by (simp add: unique_nonces_def)
qed

lemma exec_inv_kept:
  assumes "exec_inv s" "e \<in> set (drop_nth i (xs_checking s))"
  shows "ac_nonce e \<notin> xs_fired s" "closed (xs_db s) (ac_nonce e)"
  using assms set_drop_nth [of i "xs_checking s"] by (auto simp: exec_inv_def)

lemma exec_inv_parts:
  assumes "exec_inv s"
  shows "unique_nonces (xs_db s)" "distinct (map ac_nonce (xs_checking s))"
    "distinct (map ac_nonce (drop_nth i (xs_checking s)))" "n \<in> xs_fired s \<Longrightarrow> closed (xs_db s) n"
  using assms by (simp_all add: exec_inv_def distinct_drop_nth(1))

lemma exec_step_inv:
  assumes "exec_inv s"
  shows "exec_inv (snd (exec_step H mac redact a s))"
proof (cases a)
  case (XDiverge i now)
  show ?thesis
  proof (cases "i < length (xs_checking s)")
    case True
    let ?r = "xs_checking s ! i" and ?rest = "drop_nth i (xs_checking s)"
    have mem: "?r \<in> set (xs_checking s)" using True by simp
    have "distinct (map ac_nonce (xs_checking s))" using assms by (simp add: exec_inv_def)
    note D = distinct_drop_nth [OF this, of i]
    have "closed (roll_back H redact ?r now (xs_db s)) (ac_nonce e)" if "e \<in> set ?rest" for e
    proof (rule roll_back_closed)
      show "closed (xs_db s) (ac_nonce e)" using exec_inv_kept [OF assms that] by simp
      show "ac_nonce e \<noteq> ac_nonce ?r" using D(2) [OF True] that by (auto simp: image_iff)
    qed
    moreover have "closed (roll_back H redact ?r now (xs_db s)) n" if "n \<in> xs_fired s" for n
      using that assms mem by (intro roll_back_closed) (auto simp: exec_inv_def)
    ultimately have "exec_inv (s\<lparr>xs_db := roll_back H redact ?r now (xs_db s), xs_checking := ?rest\<rparr>)"
      using exec_inv_parts [OF assms] exec_inv_kept(1) [OF assms]
      unfolding exec_inv_def by (simp add: roll_back_unique)
    then show ?thesis using True by (simp add: XDiverge)
  qed (use assms XDiverge in simp)
next
  case (XFire i)
  show ?thesis
  proof (cases "i < length (xs_checking s)")
    case True
    let ?r = "xs_checking s ! i" and ?rest = "drop_nth i (xs_checking s)"
    have "ac_nonce e \<noteq> ac_nonce ?r" if "e \<in> set ?rest" for e
      using distinct_drop_nth(2) [OF exec_inv_parts(2) [OF assms] True] that by (auto simp: image_iff)
    moreover have "closed (xs_db s) (ac_nonce ?r)" using assms nth_mem [OF True] by (simp add: exec_inv_def)
    ultimately have "exec_inv (s\<lparr>xs_checking := ?rest, xs_firing := xs_firing s @ [?r],
        xs_fired := insert (ac_nonce ?r) (xs_fired s)\<rparr>)"
      using exec_inv_parts [OF assms] exec_inv_kept [OF assms] unfolding exec_inv_def by simp
    then show ?thesis using True by (simp add: XFire Let_def)
  qed (use assms XFire in simp)
next
  case (XDieChecking i)
  have "exec_inv (s\<lparr>xs_checking := drop_nth i (xs_checking s)\<rparr>)"
    using exec_inv_parts [OF assms] exec_inv_kept [OF assms] unfolding exec_inv_def by simp
  then show ?thesis by (simp add: XDieChecking)
next
  case (XPropose q ttl n now)
  then show ?thesis using assms exec_inv_db propose_reopens by (auto split: sum.splits)
next
  case (XRetire n age why now)
  then show ?thesis using assms exec_inv_db retire_reopens by (auto split: sum.splits)
next
  case (XLateConfirm n now)
  then show ?thesis using exec_inv_db [OF assms reopens_nothing_update [where states = "[A_PENDING]"]] by simp
next
  case (XFinalize i v now)
  have "exec_inv (s\<lparr>xs_db := snd (finalize H redact r v now (xs_db s))\<rparr>)" for r
    by (rule exec_inv_db [OF assms finalize_reopens])
  then have "exec_inv (s\<lparr>xs_db := snd (finalize H redact r v now (xs_db s)), xs_firing := fs\<rparr>)" for r fs
    by (simp add: exec_inv_def)
  then show ?thesis using assms by (simp add: XFinalize)
qed (use assms in \<open>simp_all add: exec_inv_db confirm_reopens refuse_reopens refuse_for_job_reopens tampered_reopens
    claim_inv late_claim_inv, simp_all add: exec_inv_def\<close>)

interpretation exec_latch: once_latch "exec_step H mac redact" "\<lambda>s n. n \<notin> xs_fired s" exec_inv
  for H mac redact
proof unfold_locales
  fix a s r s' k
  assume st: "exec_step H mac redact a s = (r, s')" and inv: "exec_inv s"
  from exec_step_inv [OF inv] st show "exec_inv s'" by (metis snd_conv)
  show "\<not> k \<notin> xs_fired s \<Longrightarrow> \<not> k \<notin> xs_fired s'"
    using st by (cases a) (auto simp: Let_def admit_def split: if_splits sum.splits prod.splits option.splits)
next
  fix a s s' k
  assume st: "exec_step H mac redact a s = (Some k, s')" and inv: "exec_inv s"
  then obtain i where i: "a = XFire i" "i < length (xs_checking s)" "k = ac_nonce (xs_checking s ! i)"
      "xs_fired s' = insert k (xs_fired s)"
    by (cases a) (auto simp: Let_def split: if_splits)
  then show "k \<notin> xs_fired s" using inv nth_mem [OF i(2)] by (simp add: exec_inv_def)
  show "\<not> k \<notin> xs_fired s'" using i by simp
qed

definition idle_system :: "action_db \<Rightarrow> exec_system" where
  "idle_system db = \<lparr>xs_db = db, xs_checking = [], xs_firing = [], xs_fired = {}\<rparr>"

lemma idle_inv: "unique_nonces db \<Longrightarrow> exec_inv (idle_system db)"
  by (simp add: exec_inv_def idle_system_def)

text \<open>
  Property C1. A side effect fires at most once for one approved nonce: whatever the
  sequence of operations of any number of processes on one store, stale reads, crashes,
  retirements, roll-backs and rewritten columns included.
\<close>

theorem fires_at_most_once:
  assumes "unique_nonces db"
  shows "count_list (fst (run_ops (exec_step H mac redact) ops (idle_system db))) (Some n) \<le> 1"
  by (rule exec_latch.wins_at_most_once [OF idle_inv [OF assms]])

definition demo_request :: action_request where
  "demo_request = \<lparr>aq_capability = u ''note.append'', aq_args = [], aq_risk = u ''send'', aq_job = u ''j'',
     aq_leash = [], aq_snapshot = [], aq_auto = False\<rparr>"

definition empty_db :: action_db where
  "empty_db = \<lparr>ad_rows = [], ad_receipts = []\<rparr>"

definition demo_row :: "action_state \<Rightarrow> int \<Rightarrow> int \<Rightarrow> action_row" where
  "demo_row st decided attempted = (proposed_row ascii_host id demo_request [110] 60 5)\<lparr>ac_state := st, ac_decided := decided,
     ac_attempted := attempted\<rparr>"

lemma demo_row_facts:
  "ac_nonce (demo_row st d a) = [110]" "ac_state (demo_row st d a) = st" "ac_expires (demo_row st d a) = 65"
  "intact ascii_host id (demo_row st d a)"
  "(demo_row st d a)\<lparr>ac_state := st'\<rparr> = demo_row st' d a"
  "(demo_row st d a)\<lparr>ac_decided := d'\<rparr> = demo_row st d' a"
  "(demo_row st d a)\<lparr>ac_attempted := a'\<rparr> = demo_row st d a'"
  "mac_of_row ascii_host id (demo_row st d a) = Inr (ac_digest (demo_row st d a))"
  by (simp_all add: demo_row_def proposed_row_def intact_def mac_of_row_def j_object_def demo_request_def)

lemma demo_propose:
  "propose ascii_host id demo_request (JInt 60) [110] 5 empty_db = Inr \<lparr>ad_rows = [demo_row A_PENDING 0 0], ad_receipts = []\<rparr>"
  by (simp add: propose_def ttl_seconds_def demo_request_def empty_db_def demo_row_def proposed_row_def)

lemma demo_confirm:
  "confirm ascii_host id [110] 6 \<lparr>ad_rows = [demo_row A_PENDING 0 0], ad_receipts = rcs\<rparr>
   = (True, \<lparr>ad_rows = [demo_row A_APPROVED 6 0], ad_receipts = rcs\<rparr>)"
  by (simp add: confirm_def action_row_of_def has_nonce_def demo_row_facts update_action_def)

lemma demo_claim:
  "claim ascii_host id [110] 7 \<lparr>ad_rows = [demo_row A_APPROVED 6 0], ad_receipts = rcs\<rparr>
   = (Some (demo_row A_EXECUTING 6 7), \<lparr>ad_rows = [demo_row A_EXECUTING 6 7], ad_receipts = rcs\<rparr>)"
  by (simp add: claim_def action_row_of_def has_nonce_def demo_row_facts update_action_def)

lemmas demo_run = demo_propose demo_confirm demo_claim idle_system_def admit_def

theorem fires_at_most_once_witness:
  "let ops = [XPropose demo_request (JInt 60) [110] 5, XConfirm [110] 6, XClaim [110] 7, XFire 0, XClaim [110] 8, XFire 0] in
     fst (run_ops (exec_step ascii_host id id) ops (idle_system empty_db)) = [None, None, None, Some [110], None, None]
     \<and> count_list (fst (run_ops (exec_step ascii_host id id) ops (idle_system empty_db))) (Some [110]) \<le> 1"
proof -
  have "unique_nonces empty_db" by (simp add: unique_nonces_def empty_db_def)
  note once = fires_at_most_once [OF this]
  have again: "claim ascii_host id [110] 8 \<lparr>ad_rows = [demo_row A_EXECUTING 6 7], ad_receipts = []\<rparr>
      = (None, \<lparr>ad_rows = [demo_row A_EXECUTING 6 7], ad_receipts = []\<rparr>)"
    by (simp add: claim_def action_row_of_def has_nonce_def demo_row_facts)
  have "fst (run_ops (exec_step ascii_host id id) [XPropose demo_request (JInt 60) [110] 5, XConfirm [110] 6,
      XClaim [110] 7, XFire 0, XClaim [110] 8, XFire 0] (idle_system empty_db)) = [None, None, None, Some [110], None, None]"
    by (simp add: demo_run again demo_row_facts Let_def drop_nth_def)
  with once show ?thesis unfolding Let_def by blast
qed

subsection \<open>No confirmation, no side effect\<close>

fun confirms :: "pystr \<Rightarrow> exec_op \<Rightarrow> bool" where
  "confirms n (XConfirm m now) = (m = n)"
| "confirms n (XLateConfirm m now) = (m = n)"
| "confirms n _ = False"

definition live_state :: "action_state \<Rightarrow> bool" where
  "live_state st \<longleftrightarrow> st = A_APPROVED \<or> st = A_EXECUTING"

definition approved_in :: "pystr set \<Rightarrow> action_db \<Rightarrow> bool" where
  "approved_in C db \<longleftrightarrow> (\<forall>r \<in> set (ad_rows db). live_state (ac_state r) \<longrightarrow> ac_nonce r \<in> C)"

definition confirmed_in :: "pystr set \<Rightarrow> exec_system \<Rightarrow> bool" where
  "confirmed_in C s \<longleftrightarrow> approved_in C (xs_db s) \<and> ac_nonce ` set (xs_checking s) \<subseteq> C"

lemma live_state_simps [simp]:
  "\<not> live_state A_PENDING" "live_state A_APPROVED" "live_state A_EXECUTING" "\<not> live_state A_EXECUTED"
  "\<not> live_state A_REFUSED" "\<not> live_state A_EXPIRED"
  by (simp_all add: live_state_def)

lemma approved_in_mono: "approved_in C db \<Longrightarrow> C \<subseteq> D \<Longrightarrow> approved_in D db"
  by (auto simp: approved_in_def)

lemma approved_in_receipt [simp]: "approved_in C (add_receipt rc db) = approved_in C db"
  by (simp add: approved_in_def)

lemma approved_in_update:
  assumes "approved_in C db" "\<And>r. ac_nonce (f r) = ac_nonce r"
    and "n \<in> C \<or> (\<forall>r. \<not> live_state (ac_state (f r))) \<or> list_all live_state states"
  shows "approved_in C (snd (update_action n states f db))"
  using assms by (auto simp: approved_in_def ad_rows_update list_all_iff)

lemma approved_in_confirm: "approved_in C db \<Longrightarrow> approved_in (insert m C) (snd (confirm H mac m now db))"
proof -
  assume "approved_in C db"
  then have "approved_in (insert m C) db" by (rule approved_in_mono) blast
  then show ?thesis
    by (auto simp: confirm_def snd_keep refuse_payload_def intro: approved_in_update split: option.splits)
qed

lemma approved_in_late_claim:
  assumes "approved_in C db" "late_claim n now db = (c, db')"
  shows "approved_in C db' \<and> (\<forall>r. c = Some r \<longrightarrow> ac_nonce r \<in> C)"
proof -
  have db': "db' = snd (update_action n [A_APPROVED] (\<lambda>r. r\<lparr>ac_state := A_EXECUTING, ac_attempted := now\<rparr>) db)"
    using assms(2) by (auto simp: late_claim_def split: prod.splits if_splits)
  have "n \<in> C" if "c = Some r" for r
  proof -
    have "filter (\<lambda>r. ac_nonce r = n \<and> List.member [A_APPROVED] (ac_state r)) (ad_rows db) \<noteq> []"
      using assms(2) that by (force simp: late_claim_def update_action_def Let_def split: if_splits)
    then obtain q where "q \<in> set (ad_rows db)" "ac_nonce q = n" "ac_state q = A_APPROVED"
      by (auto simp: filter_empty_conv)
    with assms(1) show ?thesis by (auto simp: approved_in_def)
  qed
  moreover have "ac_nonce r = n" if "c = Some r" for r
    using assms(2) that by (auto simp: late_claim_def dest: action_row_of_Some split: prod.splits if_splits)
  ultimately show ?thesis unfolding db' using assms(1) by (auto intro: approved_in_update)
qed

lemma approved_in_claim:
  assumes "approved_in C db" "claim H mac n now db = (c, db')"
  shows "approved_in C db' \<and> (\<forall>r. c = Some r \<longrightarrow> ac_nonce r \<in> C)"
proof -
  have "(\<exists>why. c = None \<and> db' = refuse_payload n why db) \<or> (c = None \<and> db' = db) \<or> late_claim n now db = (c, db')"
    using assms(2) unfolding claim_def late_claim_def
    by (cases "action_row_of db n"; simp split: if_splits sum.splits) auto
  then show ?thesis using assms(1) approved_in_late_claim
    by (auto simp: refuse_payload_def intro: approved_in_update)
qed

lemma confirmed_in_db: "confirmed_in C s \<Longrightarrow> approved_in C db \<Longrightarrow> confirmed_in C (s\<lparr>xs_db := db\<rparr>)"
  by (simp add: confirmed_in_def)

lemma confirmed_in_admit:
  assumes "confirmed_in C s" "approved_in C db" "\<And>r. c = Some r \<Longrightarrow> ac_nonce r \<in> C"
  shows "confirmed_in C (admit (c, db) s)"
  using assms by (cases c) (auto simp: admit_def confirmed_in_def)

lemma confirmed_in_mono: "confirmed_in C s \<Longrightarrow> C \<subseteq> D \<Longrightarrow> confirmed_in D s"
  using approved_in_mono unfolding confirmed_in_def by blast

lemma nonces_drop_nth: "ac_nonce ` set xs \<subseteq> C \<Longrightarrow> ac_nonce ` set (drop_nth i xs) \<subseteq> C"
  using set_drop_nth by fast

lemma nonce_nth: "ac_nonce ` set xs \<subseteq> C \<Longrightarrow> i < length xs \<Longrightarrow> ac_nonce (xs ! i) \<in> C"
  by (auto dest: nth_mem)

lemma confirmed_step:
  assumes "confirmed_in C s"
  shows "confirmed_in (C \<union> {n. confirms n a}) (snd (exec_step H mac redact a s))"
proof -
  have db: "approved_in C (xs_db s)" and out: "ac_nonce ` set (xs_checking s) \<subseteq> C"
    using assms by (simp_all add: confirmed_in_def)
  show ?thesis
  proof (cases a)
    case (XPropose q ttl n now)
    have "approved_in C db'" if "propose H mac q ttl n now (xs_db s) = Inr db'" for db'
      using that db by (auto simp: propose_def approved_in_def proposed_row_def split: option.splits if_splits)
    then show ?thesis using assms by (auto simp: XPropose confirmed_in_db split: sum.splits)
  next
    case (XConfirm n now)
    have "approved_in (insert n C) (snd (confirm H mac n now (xs_db s)))" by (rule approved_in_confirm [OF db])
    moreover have "C \<union> {k. n = k} = insert n C" by auto
    ultimately show ?thesis using out by (auto simp: XConfirm confirmed_in_def)
  next
    case (XLateConfirm n now)
    have "approved_in (insert n C) (xs_db s)" using db by (rule approved_in_mono) blast
    moreover have "C \<union> {k. n = k} = insert n C" by auto
    ultimately show ?thesis using out by (auto simp: XLateConfirm confirmed_in_def intro!: approved_in_update)
  next
    case (XRefuseJob job why now)
    have "approved_in C (snd (refuse_for_job job why now (xs_db s)))"
      using db by (auto simp: refuse_for_job_def Let_def approved_in_def)
    then show ?thesis using out by (simp add: XRefuseJob confirmed_in_def)
  next
    case (XRetire n age why now)
    have "approved_in C db'" if "retire_stale_reversible H redact n age why now (xs_db s) = Inr (b, db')" for b db'
      using that db approved_in_update [where n = n and states = "[A_EXECUTING]" and db = "xs_db s" and C = C
        and f = "\<lambda>r. r\<lparr>ac_state := A_EXECUTED, ac_executed := now\<rparr>"]
      by (auto simp: retire_stale_reversible_def Let_def bind_result_Inr_iff split: option.splits if_splits prod.splits)
    then show ?thesis using assms by (auto simp: XRetire confirmed_in_db split: sum.splits)
  next
    case (XTamper f)
    have "approved_in C (tampered f (xs_db s))" using db by (auto simp: tampered_def approved_in_def)
    then show ?thesis using out by (simp add: XTamper confirmed_in_def)
  next
    case (XClaim n now)
    obtain c db' where c: "claim H mac n now (xs_db s) = (c, db')" by fastforce
    from approved_in_claim [OF db c] show ?thesis using assms by (simp add: XClaim c confirmed_in_admit)
  next
    case (XLateClaim n now)
    obtain c db' where c: "late_claim n now (xs_db s) = (c, db')" by fastforce
    from approved_in_late_claim [OF db c] show ?thesis using assms by (simp add: XLateClaim c confirmed_in_admit)
  next
    case (XDiverge i now)
    have "approved_in C (roll_back H redact (xs_checking s ! i) now (xs_db s))" if "i < length (xs_checking s)"
      using db nonce_nth [OF out that] by (auto simp: roll_back_def intro: approved_in_update)
    then show ?thesis using assms nonces_drop_nth [OF out] by (simp add: XDiverge confirmed_in_def)
  next
    case (XFinalize i v now)
    have "approved_in C (snd (finalize H redact r v now (xs_db s)))" for r
      using db by (auto simp: finalize_def Let_def intro: approved_in_update)
    then show ?thesis using assms by (simp add: XFinalize confirmed_in_def)
  next
    case (XRefuse n why now)
    have "approved_in C (snd (refuse n why now (xs_db s)))"
      unfolding refuse_def snd_keep using db by (auto intro: approved_in_update)
    then show ?thesis using out by (simp add: XRefuse confirmed_in_def)
  next
    case (XLateRefuse n why)
    have "approved_in C (refuse_payload n why (xs_db s))"
      unfolding refuse_payload_def using db by (auto intro: approved_in_update)
    then show ?thesis using out by (simp add: XLateRefuse confirmed_in_def)
  qed (use assms nonces_drop_nth [OF out] in \<open>simp_all add: confirmed_in_def Let_def\<close>)
qed

lemma fire_confirmed:
  assumes "confirmed_in C s" "exec_step H mac redact a s = (Some n, s')"
  shows "n \<in> C"
  using assms by (cases a) (auto simp: Let_def confirmed_in_def nonce_nth split: if_splits)

lemma fired_was_confirmed:
  assumes "confirmed_in C s" "i < length ops" "fst (run_ops (exec_step H mac redact) ops s) ! i = Some n"
  shows "n \<in> C \<or> (\<exists>j < i. confirms n (ops ! j))"
  using assms
proof (induction ops arbitrary: i s C)
  case (Cons a ops)
  obtain x s' where st: "exec_step H mac redact a s = (x, s')" by fastforce
  have outs: "fst (run_ops (exec_step H mac redact) (a # ops) s) = x # fst (run_ops (exec_step H mac redact) ops s')"
    using st by (simp add: Let_def split_beta)
  show ?case
  proof (cases i)
    case 0
    then have "x = Some n" using Cons.prems(3) unfolding outs by simp
    with st have "exec_step H mac redact a s = (Some n, s')" by simp
    from fire_confirmed [OF Cons.prems(1) this] show ?thesis ..
  next
    case (Suc k)
    have "confirmed_in (C \<union> {n. confirms n a}) s'" using confirmed_step [OF Cons.prems(1)] st by (metis snd_conv)
    from Cons.IH [OF this] Cons.prems(2,3) have "n \<in> C \<or> confirms n a \<or> (\<exists>j < k. confirms n (ops ! j))"
      unfolding outs Suc by auto
    then show ?thesis
    proof (elim disjE exE)
      assume "confirms n a"
      then have "confirms n ((a # ops) ! 0)" by simp
      then show ?thesis unfolding Suc by blast
    next
      fix j
      assume "j < k \<and> confirms n (ops ! j)"
      then have "Suc j < i \<and> confirms n ((a # ops) ! Suc j)" unfolding Suc by simp
      then show ?thesis by blast
    qed simp
  qed
qed simp

text \<open>
  Property C4. Nothing fires unconfirmed: starting from an empty store, whatever operations
  any number of processes run on it, when a side effect fires for a nonce, a confirmation of
  that very nonce came before it. A proposal alone, a rewritten row, a retry or a roll-back
  never makes one executable.
\<close>

theorem nothing_fires_unconfirmed:
  assumes "i < length ops" "fst (run_ops (exec_step H mac redact) ops (idle_system empty_db)) ! i = Some n"
  shows "\<exists>j < i. confirms n (ops ! j)"
proof -
  have "confirmed_in {} (idle_system empty_db)"
    by (simp add: confirmed_in_def idle_system_def approved_in_def empty_db_def)
  from fired_was_confirmed [OF this assms] show ?thesis by simp
qed

theorem nothing_fires_unconfirmed_witness:
  "let ops = [XPropose demo_request (JInt 60) [110] 5, XConfirm [110] 6, XClaim [110] 7, XFire 0] in
     fst (run_ops (exec_step ascii_host id id) ops (idle_system empty_db)) ! 3 = Some [110]
     \<and> (\<exists>j < 3. confirms [110] (ops ! j))"
proof -
  let ?ops = "[XPropose demo_request (JInt 60) [110] 5, XConfirm [110] 6, XClaim [110] 7, XFire 0]"
  have f: "fst (run_ops (exec_step ascii_host id id) ?ops (idle_system empty_db)) ! 3 = Some [110]"
    by (simp add: demo_run demo_row_facts Let_def)
  from nothing_fires_unconfirmed [OF _ f] have "\<exists>j < 3. confirms [110] (?ops ! j)" by simp
  with f show ?thesis unfolding Let_def by blast
qed

subsection \<open>The digest binds every field\<close>

text \<open>No separator in a text, and none in the renderings Python makes of numbers.\<close>

definition no_nul :: "pystr \<Rightarrow> bool" where
  "no_nul s \<longleftrightarrow> 0 \<notin> set s"

definition plain_reprs :: "pyhost \<Rightarrow> bool" where
  "plain_reprs H \<longleftrightarrow> (\<forall>q. no_nul (repr_of H (JFloat (Fin q))))"

lemma no_nul_append [simp]: "no_nul (a @ b) \<longleftrightarrow> no_nul a \<and> no_nul b"
  by (auto simp: no_nul_def)

lemma no_nul_Cons [simp]: "no_nul (c # s) \<longleftrightarrow> c \<noteq> 0 \<and> no_nul s"
  by (auto simp: no_nul_def)

lemma no_nul_Nil [simp]: "no_nul []"
  by (simp add: no_nul_def)

lemma no_nul_join: "no_nul sep \<Longrightarrow> list_all no_nul xs \<Longrightarrow> no_nul (join sep xs)"
  by (induction sep xs rule: join.induct) auto

lemma no_nul_dec_digits: "no_nul (dec_digits n)"
  by (induction n rule: dec_digits.induct) (subst dec_digits.simps, simp)

lemma no_nul_dec: "no_nul (dec i)"
  by (simp add: dec_def no_nul_dec_digits)

lemma no_nul_escape: "no_nul (json_escape_cp c)"
proof (cases "c < 32")
  case True
  then show ?thesis by (simp add: json_escape_cp_def hex_digit_def u_def)
qed (simp add: json_escape_cp_def)

lemma no_nul_quote: "no_nul (json_quote s)"
proof -
  have "no_nul (concat (map json_escape_cp s))" by (induction s) (simp_all add: no_nul_escape)
  then show ?thesis by (simp add: json_quote_def)
qed

lemma set_insert_pair: "set (insert_pair x ys) = insert x (set ys)"
  by (induction ys) auto

lemma set_sorted_pairs [simp]: "set (sorted_pairs d) = set d"
  by (induction d) (auto simp: sorted_pairs_def set_insert_pair)

lemma no_nul_float: "plain_reprs H \<Longrightarrow> finite_json (JFloat f) \<Longrightarrow> no_nul (json_text H (JFloat f))"
  by (cases f) (simp_all add: plain_reprs_def)

lemma no_nul_canon: "plain_reprs H \<Longrightarrow> finite_json v \<Longrightarrow> no_nul (canon_text H v)"
proof (induction H v rule: canon_text.induct)
  case (1 H xs)
  then have "list_all no_nul (map (canon_text H) xs)" by (auto simp: list_all_iff)
  then show ?case by (simp add: no_nul_join)
next
  case (2 H d)
  then have "\<forall>(k, v) \<in> set d. no_nul (canon_text H v)" by (fastforce simp: list_all_iff)
  then have "list_all no_nul (map (\<lambda>(k, t). json_quote k @ [58] @ t) (sorted_pairs (map (\<lambda>(k, v). (k, canon_text H v)) d)))"
    by (auto simp: list_all_iff no_nul_quote)
  then show ?case by (simp add: no_nul_join)
qed (simp_all add: no_nul_dec no_nul_quote no_nul_float u_def)

lemma count_join_nul:
  "xs \<noteq> [] \<Longrightarrow> count_list (join [0] xs) (0::nat) + 1 = sum_list (map (\<lambda>x. count_list x 0) xs) + length xs"
  by (induction "[0::nat]" xs rule: join.induct) auto

lemma split_join_nul:
  "xs \<noteq> [] \<Longrightarrow> list_all no_nul xs \<Longrightarrow> split_on 0 (join [0] xs) = xs"
proof (induction "[0::nat]" xs rule: join.induct)
  case (2 x)
  then show ?case by (induction x) auto
next
  case (3 x y xs)
  have "split_on 0 (x @ 0 # t) = x # split_on 0 t" if "no_nul x" for t
    using that by (induction x) auto
  with 3 show ?case by simp
qed simp

text \<open>Two joins of equally many parts, one of them free of the separator, have equal parts.\<close>

lemma join_nul_inject:
  assumes "join [0] xs = join [0] ys" "length xs = length ys" "list_all no_nul xs" "xs \<noteq> []"
  shows "xs = ys"
proof -
  have "count_list x 0 = 0" if "x \<in> set xs" for x
    using that assms(3) by (auto simp: list_all_iff no_nul_def count_list_0_iff)
  then have "sum_list (map (\<lambda>x. count_list x 0) xs) = 0" by simp
  with count_join_nul [of xs] count_join_nul [of ys] assms(1,2,4)
  have "sum_list (map (\<lambda>y. count_list y 0) ys) = 0" by (cases ys) auto
  then have "list_all no_nul ys" by (auto simp: list_all_iff no_nul_def count_list_0_iff)
  with split_join_nul assms show ?thesis by (metis length_0_conv)
qed

definition request_payload :: "pyhost \<Rightarrow> action_request \<Rightarrow> pystr" where
  "request_payload H q =
     mac_payload H (aq_capability q) (aq_args q) (aq_leash q) (aq_job q) (aq_risk q) (aq_snapshot q)"

lemma find_map_nonce:
  "(\<And>r. ac_nonce (f r) = ac_nonce r) \<Longrightarrow> List.find (has_nonce n) (map f rows) = map_option f (List.find (has_nonce n) rows)"
  by (induction rows) (simp_all add: has_nonce_def)

lemma claim_row:
  assumes "claim H mac n now db = (Some r, db')"
  obtains row where "action_row_of db n = Some row" "ac_state row = A_APPROVED" "intact H mac row"
    "r = row\<lparr>ac_state := A_EXECUTING, ac_attempted := now\<rparr>"
    "action_row_of db' n = Some r" "ad_receipts db' = ad_receipts db"
proof -
  from claim_cases [OF assms] obtain row where l: "late_claim n now db = (Some r, db')"
    and row: "action_row_of db n = Some row" "ac_state row = A_APPROVED" "intact H mac row" by auto
  let ?f = "\<lambda>r. if ac_nonce r = n \<and> List.member [A_APPROVED] (ac_state r)
      then r\<lparr>ac_state := A_EXECUTING, ac_attempted := now\<rparr> else r"
  from l have db': "db' = db\<lparr>ad_rows := map ?f (ad_rows db)\<rparr>" and r: "action_row_of db' n = Some r"
    by (auto simp: late_claim_def update_action_def Let_def split: if_splits)
  have "action_row_of db' n = map_option ?f (action_row_of db n)"
    unfolding action_row_of_def db' by (simp add: find_map_nonce)
  with r row action_row_of_Some [OF row(1)] have "r = row\<lparr>ac_state := A_EXECUTING, ac_attempted := now\<rparr>" by simp
  with that row r db' show ?thesis by simp
qed



lemma execute_evidence:
  "case execute H mac redact side check unchanged n now later db of
     (Inr rc, db') \<Rightarrow> (\<exists>row. action_row_of db n = Some row \<and> ac_state row = A_APPROVED \<and> intact H mac row
         \<and> rc_nonce rc = n \<and> rc_fired rc
         \<and> rc_verdict rc = vd_status (outcome_verdict side check (row\<lparr>ac_state := A_EXECUTING, ac_attempted := now\<rparr>)))
       \<and> ad_receipts db' = ad_receipts db @ [rc]
       \<and> map_option ac_state (action_row_of db' n) = Some A_EXECUTED
   | (Inl e, db') \<Rightarrow> filter rc_fired (ad_receipts db') = filter rc_fired (ad_receipts db)"
proof -
  obtain c db1 where c: "claim H mac n now db = (c, db1)" by fastforce
  show ?thesis
  proof (cases c)
    case None
    have "ad_receipts db1 = ad_receipts db"
      using c unfolding None claim_def
      by (cases "action_row_of db n"; simp split: if_splits sum.splits) (auto simp: refuse_payload_def update_action_def Let_def split: if_splits)
    then show ?thesis unfolding execute_def c None by (simp add: refused_def)
  next
    case (Some r)
    from claim_row [OF c [unfolded Some]] obtain row where row: "action_row_of db n = Some row"
        "ac_state row = A_APPROVED" "intact H mac row" "r = row\<lparr>ac_state := A_EXECUTING, ac_attempted := now\<rparr>"
        "action_row_of db1 n = Some r" "ad_receipts db1 = ad_receipts db" by metis
    have n: "ac_nonce r = n" using action_row_of_Some [OF row(5)] by simp
    have done': "map_option ac_state (action_row_of (snd (finalize H redact r v later db1)) n) = Some A_EXECUTED" for v
    proof -
      let ?f = "\<lambda>x. if ac_nonce x = n \<and> List.member all_states (ac_state x)
          then x\<lparr>ac_state := A_EXECUTED, ac_executed := later\<rparr> else x"
      have "action_row_of (snd (finalize H redact r v later db1)) n = map_option ?f (action_row_of db1 n)"
        unfolding action_row_of_def finalize_def Let_def snd_conv add_receipt_rows ad_rows_update n
        by (rule find_map_nonce) simp
      moreover have "List.member all_states st" for st by (cases st) (simp_all add: all_states_def)
      ultimately show ?thesis using row(5) n by simp
    qed
    show ?thesis
    proof (cases "case unchanged of None \<Rightarrow> False | Some f \<Rightarrow> f r \<noteq> Inr True")
      case True
      then show ?thesis unfolding execute_def c Some
        by (simp add: refused_def roll_back_def add_receipt_def make_receipt_def update_action_def Let_def row(6))
    next
      case False
      define v where "v = outcome_verdict side check r"
      obtain rc db2 where f: "finalize H redact r v later db1 = (rc, db2)" by fastforce
      have "execute H mac redact side check unchanged n now later db = (Inr rc, db2)"
        unfolding execute_def c Some using False f by (simp add: v_def)
      moreover have "rc_nonce rc = n \<and> rc_fired rc \<and> rc_verdict rc = vd_status v \<and> ad_receipts db2 = ad_receipts db @ [rc]"
        using f n row(6) by (auto simp: finalize_def Let_def make_receipt_def add_receipt_def update_action_def)
      ultimately show ?thesis using row(1-4) done' [where v = v] f by (auto simp: v_def)
    qed
  qed
qed

text \<open>
  An execution is evidenced and honest. A run of the executor either reports a
  receipt, and then the nonce was approved and intact, the row is executed, the receipt is
  the new last one, says the action fired, and carries the verdict of the done-check (a
  failure when the capability or the check raised, inconclusive when there is no check); or
  it refuses, and then no receipt that says anything fired is added.
\<close>

theorem execution_is_evidenced:
  "case execute H mac redact side check unchanged n now later db of
     (Inr rc, db') \<Rightarrow> (\<exists>row. action_row_of db n = Some row \<and> ac_state row = A_APPROVED \<and> intact H mac row
         \<and> rc_nonce rc = n \<and> rc_fired rc
         \<and> rc_verdict rc = vd_status (outcome_verdict side check (row\<lparr>ac_state := A_EXECUTING, ac_attempted := now\<rparr>)))
       \<and> ad_receipts db' = ad_receipts db @ [rc]
       \<and> map_option ac_state (action_row_of db' n) = Some A_EXECUTED
   | (Inl e, db') \<Rightarrow> filter rc_fired (ad_receipts db') = filter rc_fired (ad_receipts db)"
  by (rule execute_evidence)

text \<open>
  The roll-back of a diverged execution is not guarded: a claim that was retired in the
  meantime, its receipt saying it fired, becomes approved and can be claimed again.
\<close>

lemma retired_claim_is_revived:
  assumes "ac_capability r = u ''research''" "ac_risk r = []" "ac_state r = A_EXECUTING" "ac_attempted r = 0" "ac_created r = 1"
    and "ac_args r = Some (JObj [])" "ac_snapshot r = Some (JObj [])"
  shows "\<exists>db. retire_stale_reversible H redact (ac_nonce r) 0 [] 100 \<lparr>ad_rows = [r], ad_receipts = []\<rparr> = Inr (True, db)
    \<and> list_ex rc_fired (ad_receipts db)
    \<and> map ac_state (ad_rows (roll_back H redact r 101 db)) = [A_APPROVED]"
  using assms
  by (simp add: retire_stale_reversible_def action_row_of_def has_nonce_def retirable_def unretirable_risks_def
      j_object_def update_action_def roll_back_def add_receipt_def make_receipt_def all_states_def u_def Let_def)

text \<open>
  The record an executor performs is read again after its digest was checked: a row rewritten
  between the check and the claim's own reading goes through.
\<close>

lemma reread_is_unchecked:
  assumes "ac_state r = A_APPROVED" "ac_nonce r = n" "ac_capability r' = c"
  shows "\<exists>q db. late_claim n now (tampered (\<lambda>_. r') \<lparr>ad_rows = [r], ad_receipts = []\<rparr>) = (Some q, db) \<and> ac_capability q = c"
  using assms by (simp add: late_claim_def tampered_def update_action_def action_row_of_def has_nonce_def)

end
