(* ===== verification/Leash.thy ===== *)
theory Leash
  imports Glob
begin

text \<open>
  \<open>harness/leash.py\<close>: the grant of authority a job carries. \<open>validate\<close> refuses a leash
  whose authority fields have the wrong type, and \<open>evaluate\<close> answers allow, ask or deny for
  one proposed action. A leash is a JSON value, \<open>JNull\<close> when there is none.
\<close>

datatype leash_answer = L_ALLOW | L_ASK | L_DENY

type_synonym leash_decision = "leash_answer \<times> pystr"

definition irreversible_risks :: "pystr list" where
  "irreversible_risks = [u ''irreversible'', u ''send'', u ''publish'', u ''pay'', u ''delete'']"

definition irreversible_modes :: "pystr list" where
  "irreversible_modes = [u ''allow'', u ''confirm'', u ''deny'']"

text \<open>A number that is not a \<open>bool\<close>, is finite and not negative.\<close>

definition spend_value :: "json \<Rightarrow> rat option" where
  "spend_value v =
     (case v of
        JInt i \<Rightarrow> if i < 0 then None else Some (of_int i)
      | JFloat (Fin q) \<Rightarrow> if q < 0 then None else Some q
      | _ \<Rightarrow> None)"

definition nonempty_text :: "json \<Rightarrow> bool" where
  "nonempty_text v = (case v of JStr s \<Rightarrow> s \<noteq> [] | _ \<Rightarrow> False)"

definition is_text :: "json \<Rightarrow> bool" where
  "is_text v = (case v of JStr s \<Rightarrow> True | _ \<Rightarrow> False)"

definition may_ok :: "json \<Rightarrow> bool" where
  "may_ok v = (case v of JList xs \<Rightarrow> list_all nonempty_text xs | _ \<Rightarrow> False)"

definition mode_ok :: "json \<Rightarrow> bool" where
  "mode_ok v = (case v of JStr s \<Rightarrow> List.member irreversible_modes s | _ \<Rightarrow> False)"

definition validate_leash :: "json \<Rightarrow> pydict result" where
  "validate_leash leash =
     (case leash of
        JNull \<Rightarrow> Inr []
      | JObj d \<Rightarrow>
          if \<not> (case dget d (u ''may'') of None \<Rightarrow> True | Some v \<Rightarrow> may_ok v)
          then Inl (ValueError ''leash.may must be a list of non-empty strings'')
          else if \<not> (case dget d (u ''irreversible'') of None \<Rightarrow> True | Some v \<Rightarrow> mode_ok v)
          then Inl (ValueError ''leash.irreversible must be allow, confirm, or deny'')
          else if \<not> (case dget d (u ''spend_max_usd'') of None \<Rightarrow> True
                       | Some v \<Rightarrow> v = JNull \<or> spend_value v \<noteq> None)
          then Inl (ValueError ''leash.spend_max_usd must be a finite non-negative number'')
          else if \<not> (case dget d (u ''expires'') of None \<Rightarrow> True | Some v \<Rightarrow> is_text v)
          then Inl (ValueError ''leash.expires must be a string'')
          else Inr d
      | _ \<Rightarrow> Inl (ValueError ''leash must be a JSON object''))"

definition error_text :: "exc \<Rightarrow> pystr" where
  "error_text e = (case e of ValueError s \<Rightarrow> u s | TypeError s \<Rightarrow> u s | KeyError s \<Rightarrow> u s
     | RuntimeError s \<Rightarrow> u s | OtherError s \<Rightarrow> u s)"

definition leash_patterns :: "pydict \<Rightarrow> pystr list" where
  "leash_patterns d = (case dget d (u ''may'') of
     Some (JList xs) \<Rightarrow> concat (map (\<lambda>v. case v of JStr s \<Rightarrow> [s] | _ \<Rightarrow> []) xs) | _ \<Rightarrow> [])"

definition leash_expires :: "pydict \<Rightarrow> pystr" where
  "leash_expires d = (case dget d (u ''expires'') of Some (JStr s) \<Rightarrow> s | _ \<Rightarrow> [])"

definition leash_cap :: "pydict \<Rightarrow> rat option" where
  "leash_cap d = (case dget d (u ''spend_max_usd'') of Some v \<Rightarrow> spend_value v | None \<Rightarrow> None)"

definition leash_mode :: "pydict \<Rightarrow> pystr" where
  "leash_mode d = (case dget d (u ''irreversible'') of Some (JStr s) \<Rightarrow> s | _ \<Rightarrow> u ''confirm'')"

text \<open>\<open>now\<close> is \<open>now_iso\<close>, \<open>None\<close> or empty when the caller passes no time.\<close>

definition evaluate_leash :: "pyhost \<Rightarrow> json \<Rightarrow> json \<Rightarrow> pystr \<Rightarrow> json \<Rightarrow> pystr option \<Rightarrow> leash_decision" where
  "evaluate_leash H leash capability cap_risk spend now =
     (case validate_leash leash of
        Inl e \<Rightarrow> (L_DENY, u ''invalid leash authority: '' @ error_text e)
      | Inr d \<Rightarrow>
          (case spend_value spend of
             None \<Rightarrow> (L_DENY, u ''invalid requested spend'')
           | Some amount \<Rightarrow>
               (case capability of
                  JStr c \<Rightarrow>
                    if c = [] then (L_DENY, u ''invalid capability'')
                    else if dget d (u ''may'') = None then (L_ALLOW, u ''no leash configured (unenforced)'')
                    else if leash_expires d \<noteq> [] \<and> (case now of None \<Rightarrow> False | Some t \<Rightarrow> t \<noteq> [] \<and> str_lt (leash_expires d) t)
                    then (L_DENY, u ''leash expired at '' @ leash_expires d)
                    else if \<not> list_ex (\<lambda>p. fnmatchcase c p) (leash_patterns d)
                    then (L_DENY, repr_text H c @ u '' not permitted by leash.may'')
                    else if (case leash_cap d of None \<Rightarrow> False | Some cap \<Rightarrow> cap < amount)
                    then (L_DENY, u ''spend $'' @ py_str H spend @ u '' exceeds leash cap $''
                            @ py_str H (dget_null d (u ''spend_max_usd'')))
                    else if List.member irreversible_risks cap_risk then
                      (if leash_mode d = u ''deny'' then (L_DENY, u ''irreversible actions denied by leash'')
                       else if leash_mode d = u ''allow'' then (L_ALLOW, u ''irreversible pre-authorized by leash'')
                       else (L_ASK, u ''irreversible action requires a confirm token''))
                    else (L_ALLOW, u ''within leash'')
                | _ \<Rightarrow> (L_DENY, u ''invalid capability''))))"

text \<open>
  What an enforced leash permits: when the leash declares \<open>may\<close> and the
  answer is not a denial, the leash is well formed, the capability matches one of its
  patterns, the spend is a finite amount within the cap, the leash has not expired at the
  time passed, and an irreversible risk is allowed without a confirmation only by
  \<open>"irreversible": "allow"\<close>. An empty \<open>may\<close> denies everything.
\<close>

theorem leash_permission:
  assumes "evaluate_leash H (JObj d) capability cap_risk spend now = (ans, why)" "dget d (u ''may'') = Some may"
    and "ans \<noteq> L_DENY"
  shows "(\<exists>c ps amount. capability = JStr c \<and> may = JList ps \<and> spend_value spend = Some amount
      \<and> (\<exists>p. JStr p \<in> set ps \<and> fnmatchcase c p)
      \<and> (\<forall>cap. leash_cap d = Some cap \<longrightarrow> amount \<le> cap))
    \<and> (\<forall>t. now = Some t \<longrightarrow> t \<noteq> [] \<longrightarrow> leash_expires d \<noteq> [] \<longrightarrow> \<not> str_lt (leash_expires d) t)
    \<and> (List.member irreversible_risks cap_risk \<longrightarrow> ans = L_ALLOW \<longrightarrow> dget d (u ''irreversible'') = Some (JStr (u ''allow'')))
    \<and> may \<noteq> JList []"
proof -
  have v: "validate_leash (JObj d) = Inr d" "may_ok may"
    using assms by (auto simp: evaluate_leash_def validate_leash_def split: if_splits option.splits)
  then obtain ps where ps: "may = JList ps" by (auto simp: may_ok_def split: json.splits)
  obtain c amount where c: "capability = JStr c" "c \<noteq> []" "spend_value spend = Some amount"
    using assms(1,3) v by (auto simp: evaluate_leash_def split: option.splits json.splits if_splits)
  note E = assms(1) [unfolded c(1) evaluate_leash_def v(1) sum.case c(3) option.case json.case if_not_P [OF c(2)]]
  have "list_ex (\<lambda>p. fnmatchcase c p) (leash_patterns d)"
    using E assms(2,3) by (auto split: if_splits)
  then obtain p where p: "JStr p \<in> set ps" "fnmatchcase c p"
    unfolding leash_patterns_def assms(2) option.case ps json.case
    by (auto simp: list_ex_iff split: json.splits)
  have cap: "amount \<le> cap" if "leash_cap d = Some cap" for cap
    using E assms(2,3) that by (auto split: if_splits)
  have exp: "\<not> str_lt (leash_expires d) t" if "now = Some t" "t \<noteq> []" "leash_expires d \<noteq> []" for t
    using E assms(2,3) that by (auto split: if_splits)
  have irr: "dget d (u ''irreversible'') = Some (JStr (u ''allow''))"
    if "List.member irreversible_risks cap_risk" "ans = L_ALLOW"
  proof -
    have "leash_mode d = u ''allow''" using E assms(2) that by (auto split: if_splits)
    then show ?thesis by (auto simp: leash_mode_def split: option.splits json.splits)
  qed
  from p have "may \<noteq> JList []" using ps by auto
  with c p ps cap exp irr show ?thesis by blast
qed

theorem leash_permission_witness:
  "evaluate_leash ascii_host (JObj [(u ''may'', JList [JStr (u ''note.*'')]), (u ''spend_max_usd'', JInt 5)])
     (JStr (u ''note.append'')) (u ''send'') (JInt 3) None
   = (L_ASK, u ''irreversible action requires a confirm token'')
   \<and> (3::rat) \<le> 5"
proof -
  let ?d = "[(u ''may'', JList [JStr (u ''note.*'')]), (u ''spend_max_usd'', JInt 5)]"
  have lit: "list_all (\<lambda>c. \<not> wild_cp c) (u ''note.'')" by (simp add: wild_cp_def u_def)
  have star: "u ''note.*'' = u ''note.'' @ [42]" by (simp add: u_def)
  have f: "fnmatchcase (u ''note.append'') (u ''note.*'')"
    unfolding star fnmatchcase_prefix_star [OF lit] by (simp add: starts_with_def u_def)
  have e: "evaluate_leash ascii_host (JObj ?d) (JStr (u ''note.append'')) (u ''send'') (JInt 3) None
      = (L_ASK, u ''irreversible action requires a confirm token'')"
    by (simp add: evaluate_leash_def validate_leash_def dget_def may_ok_def nonempty_text_def spend_value_def f
        leash_patterns_def leash_expires_def leash_cap_def leash_mode_def irreversible_risks_def)
  have m: "dget ?d (u ''may'') = Some (JList [JStr (u ''note.*'')])" by (simp add: dget_def)
  from leash_permission [OF e m] have "\<forall>cap. leash_cap ?d = Some cap \<longrightarrow> 3 \<le> cap"
    by (auto simp: spend_value_def)
  with e show ?thesis by (simp add: leash_cap_def dget_def spend_value_def)
qed

end
