(* ===== verification/Jobs.thy ===== *)
theory Jobs
  imports Actions Leash
begin

text \<open>
  \<open>harness/jobs.py\<close>: the durable job, the registry of capabilities and the model-free
  executor that drives a proposed action under its job's leash. A job's leash column is the
  value it decodes to, \<open>None\<close> when it does not decode or holds a non-finite number. A call
  reads the clock twice: \<open>now\<close> before the action runs, \<open>later\<close> after it.
\<close>

subsection \<open>Jobs and their store\<close>

datatype job_state = J_QUEUED | J_RUNNING | J_WAITING | J_PAUSED | J_PAUSING | J_RECOVERY_REQUIRED | J_RECONCILING
  | J_NEEDS_YOU | J_DONE_VERIFIED | J_DONE_ACCEPTED | J_FAILED | J_CANCELLED

definition terminal_job_states :: "job_state list" where
  "terminal_job_states = [J_DONE_VERIFIED, J_DONE_ACCEPTED, J_FAILED, J_CANCELLED]"

definition non_executable :: "job_state list" where
  "non_executable = terminal_job_states @ [J_PAUSED, J_PAUSING, J_RECOVERY_REQUIRED, J_RECONCILING]"

record job_row =
  jr_id :: pystr
  jr_goal :: pystr
  jr_leash :: "json option"
  jr_state :: job_state
  jr_result :: pystr
  jr_created :: int
  jr_updated :: int

record job =
  jb_id :: pystr
  jb_goal :: pystr
  jb_leash :: pydict
  jb_state :: job_state
  jb_result :: pystr
  jb_created :: int
  jb_updated :: int

definition job_terminal :: "job \<Rightarrow> bool" where
  "job_terminal j \<longleftrightarrow> List.member terminal_job_states (jb_state j)"

definition encode_leash :: "json \<Rightarrow> (pydict \<times> json) result" where
  "encode_leash v = bind_result (validate_leash v) (\<lambda>d.
     if finite_json (JObj d) then Inr (d, JObj d) else Inl (ValueError ''Out of range float values are not JSON compliant''))"

definition decode_leash :: "json option \<Rightarrow> pydict result" where
  "decode_leash col =
     (case col of
        None \<Rightarrow> Inl (ValueError ''non-finite JSON number is forbidden'')
      | Some v \<Rightarrow> if finite_json v then validate_leash v else Inl (ValueError ''non-finite JSON number is forbidden''))"

definition job_create :: "pystr \<Rightarrow> pystr \<Rightarrow> json \<Rightarrow> int \<Rightarrow> job_row list \<Rightarrow> (job \<times> job_row list) result" where
  "job_create jid goal leash now jobs =
     bind_result (encode_leash leash) (\<lambda>(d, text).
       if List.member (map jr_id jobs) jid then Inl (OtherError ''IntegrityError'')
       else Inr (\<lparr>jb_id = jid, jb_goal = goal, jb_leash = d, jb_state = J_QUEUED, jb_result = [], jb_created = now, jb_updated = now\<rparr>,
                 jobs @ [\<lparr>jr_id = jid, jr_goal = goal, jr_leash = Some text, jr_state = J_QUEUED, jr_result = [],
                           jr_created = now, jr_updated = now\<rparr>]))"

definition job_update :: "pystr \<Rightarrow> (job_row \<Rightarrow> job_row) \<Rightarrow> job_row list \<Rightarrow> job_row list" where
  "job_update jid f jobs = map (\<lambda>r. if jr_id r = jid then f r else r) jobs"

definition job_of_row :: "job_row \<Rightarrow> pydict \<Rightarrow> job_state \<Rightarrow> pystr \<Rightarrow> job" where
  "job_of_row r leash state why = \<lparr>jb_id = jr_id r, jb_goal = jr_goal r, jb_leash = leash, jb_state = state,
     jb_result = why, jb_created = jr_created r, jb_updated = jr_updated r\<rparr>"

definition decode_row :: "int \<Rightarrow> job_row \<Rightarrow> job_row list \<Rightarrow> job \<times> job_row list" where
  "decode_row now r jobs =
     (case decode_leash (jr_leash r) of
        Inr d \<Rightarrow> (job_of_row r d (jr_state r) (jr_result r), jobs)
      | Inl e \<Rightarrow>
          let why = u ''invalid durable Job leash: '' @ error_text e in
          (job_of_row r [(u ''may'', JList [])] J_RECOVERY_REQUIRED why,
           job_update (jr_id r) (\<lambda>q. q\<lparr>jr_state := J_RECOVERY_REQUIRED, jr_result := why, jr_updated := now\<rparr>) jobs))"

definition job_row_of :: "job_row list \<Rightarrow> pystr \<Rightarrow> job_row option" where
  "job_row_of jobs jid = List.find (\<lambda>r. jr_id r = jid) jobs"

definition job_get :: "int \<Rightarrow> pystr \<Rightarrow> job_row list \<Rightarrow> job option \<times> job_row list" where
  "job_get now jid jobs =
     (case job_row_of jobs jid of
        None \<Rightarrow> (None, jobs)
      | Some r \<Rightarrow> (case decode_row now r jobs of (j, jobs') \<Rightarrow> (Some j, jobs')))"

definition job_set_state :: "pystr \<Rightarrow> job_state \<Rightarrow> pystr option \<Rightarrow> int \<Rightarrow> job_row list \<Rightarrow> job_row list" where
  "job_set_state jid state why now jobs =
     job_update jid (\<lambda>r. case why of
         None \<Rightarrow> r\<lparr>jr_state := state, jr_updated := now\<rparr>
       | Some t \<Rightarrow> r\<lparr>jr_state := state, jr_result := t, jr_updated := now\<rparr>) jobs"

fun decode_rows :: "int \<Rightarrow> job_row list \<Rightarrow> job_row list \<Rightarrow> job list \<times> job_row list" where
  "decode_rows now [] jobs = ([], jobs)"
| "decode_rows now (r # rs) jobs =
     (let (j, jobs1) = decode_row now r jobs; (js, jobs2) = decode_rows now rs jobs1 in (j # js, jobs2))"

definition job_list :: "int \<Rightarrow> job_state option \<Rightarrow> job_row list \<Rightarrow> job list \<times> job_row list" where
  "job_list now state jobs =
     decode_rows now (sort_key jr_created (filter (\<lambda>r. case state of None \<Rightarrow> True | Some s \<Rightarrow> jr_state r = s) jobs)) jobs"

subsection \<open>The capability registry\<close>

text \<open>What a capability does is a parameter; \<open>cp_compensates\<close> says that it declares a compensation.\<close>

record 'r capability =
  cp_name :: pystr
  cp_execute :: "action_row \<Rightarrow> 'r result"
  cp_verify :: "(action_row \<Rightarrow> 'r \<Rightarrow> verdict result) option"
  cp_reversible :: bool
  cp_risk :: pystr
  cp_compensates :: bool
  cp_description :: pystr
  cp_args_hint :: pystr

type_synonym 'r registry = "(pystr \<times> 'r capability) list"

fun register :: "'r capability \<Rightarrow> 'r registry \<Rightarrow> 'r registry" where
  "register c [] = [(cp_name c, c)]"
| "register c ((k, v) # reg) = (if k = cp_name c then (k, c) # reg else (k, v) # register c reg)"

definition get_capability :: "'r registry \<Rightarrow> pystr \<Rightarrow> 'r capability option" where
  "get_capability reg name = map_of reg name"

definition all_capabilities :: "'r registry \<Rightarrow> 'r capability list" where
  "all_capabilities reg = map snd reg"

subsection \<open>The executor\<close>

record world =
  wd_actions :: action_db
  wd_jobs :: "job_row list"

text \<open>\<open>ActionStore.get\<close> raises when a JSON column does not decode to an object.\<close>

definition action_get :: "action_db \<Rightarrow> pystr \<Rightarrow> action_row option result" where
  "action_get db n =
     (case action_row_of db n of
        None \<Rightarrow> Inr None
      | Some r \<Rightarrow> bind_result (j_object (ac_args r)) (\<lambda>_. bind_result (j_object (ac_snapshot r)) (\<lambda>_. Inr (Some r))))"

definition forbidden :: "job option \<Rightarrow> action_row \<Rightarrow> bool" where
  "forbidden j rec =
     (case j of
        None \<Rightarrow> False
      | Some job \<Rightarrow> \<not> (job_terminal job \<and> ac_state rec = A_EXECUTED) \<and> List.member non_executable (jb_state job))"

text \<open>\<open>_apply\<close>: the job's new state, and whether the compensation was called.\<close>

definition job_state_of_verdict :: "'r capability \<Rightarrow> status \<Rightarrow> job_state" where
  "job_state_of_verdict cap s =
     (case s of
        VERIFIED \<Rightarrow> J_DONE_VERIFIED
      | FAILED \<Rightarrow> J_FAILED
      | NOT_ARMED \<Rightarrow> if cp_reversible cap then J_DONE_ACCEPTED else J_NEEDS_YOU
      | INCONCLUSIVE \<Rightarrow> J_NEEDS_YOU)"

definition apply_verdict :: "pystr \<Rightarrow> 'r capability \<Rightarrow> status \<Rightarrow> pystr \<Rightarrow> int \<Rightarrow> job_row list \<Rightarrow> bool \<times> job_row list" where
  "apply_verdict tgt cap s why now jobs =
     (if tgt = [] then (False, jobs)
      else (s = FAILED \<and> \<not> cp_reversible cap \<and> cp_compensates cap,
            job_set_state tgt (job_state_of_verdict cap s) (Some why) now jobs))"

definition job_leash_answer :: "pyhost \<Rightarrow> pydict \<Rightarrow> pystr \<Rightarrow> pystr \<Rightarrow> leash_answer" where
  "job_leash_answer H leash capability risk =
     fst (evaluate_leash H (JObj leash) (JStr capability) risk (JFloat (Fin 0)) None)"

definition find_target :: "int \<Rightarrow> pystr \<Rightarrow> job_row list \<Rightarrow> job option \<times> job_row list" where
  "find_target now tgt jobs = (if tgt = [] then (None, jobs) else job_get now tgt jobs)"

definition stored_verdict :: "receipt \<Rightarrow> verdict" where
  "stored_verdict rc = verdict0 (rc_verdict rc) (rc_reason rc)"

definition run_confirmed :: "pyhost \<Rightarrow> (pystr \<Rightarrow> pystr) \<Rightarrow> (pystr \<Rightarrow> pystr) \<Rightarrow> 'r registry
    \<Rightarrow> (action_row \<Rightarrow> bool result) option \<Rightarrow> int \<Rightarrow> int \<Rightarrow> pystr \<Rightarrow> pystr \<Rightarrow> world \<Rightarrow> verdict result \<times> world" where
  "run_confirmed H mac redact reg unchanged now later n job_id w =
     (case action_get (wd_actions w) n of
        Inl e \<Rightarrow> (Inl e, w)
      | Inr None \<Rightarrow> (refused (u ''unknown nonce''), w)
      | Inr (Some rec) \<Rightarrow>
          (case get_capability reg (ac_capability rec) of
             None \<Rightarrow> (refused (u ''no registered capability''), w)
           | Some cap \<Rightarrow>
               let tgt = or_str (ac_job rec) job_id;
                   (j, jobs) = find_target now tgt (wd_jobs w);
                   w1 = w\<lparr>wd_jobs := jobs\<rparr> in
               if forbidden j rec then (refused (u ''job state forbids action execution''), w1)
               else if (case j of None \<Rightarrow> False
                     | Some job \<Rightarrow> job_leash_answer H (jb_leash job) (ac_capability rec) (cp_risk cap) = L_DENY)
               then (refused (u ''leash denied''), w1)
               else
                 (case execute H mac redact (cp_execute cap) (cp_verify cap) unchanged n now later (wd_actions w) of
                    (Inr rc, db) \<Rightarrow>
                      (Inr (stored_verdict rc),
                       \<lparr>wd_actions = db, wd_jobs = snd (apply_verdict tgt cap (rc_verdict rc) (rc_reason rc) later jobs)\<rparr>)
                  | (Inl e, db) \<Rightarrow>
                      (case (filter rc_fired (receipts_for db n), action_get db n) of
                         (_, Inl e') \<Rightarrow> (Inl e', \<lparr>wd_actions = db, wd_jobs = jobs\<rparr>)
                       | (fired, Inr cur) \<Rightarrow>
                           if fired \<noteq> [] \<and> (case cur of None \<Rightarrow> False | Some r \<Rightarrow> ac_state r = A_EXECUTED)
                           then (Inr (stored_verdict (last fired)),
                             \<lparr>wd_actions = db, wd_jobs = snd (apply_verdict tgt cap (rc_verdict (last fired))
                                (rc_reason (last fired)) later jobs)\<rparr>)
                           else (Inl e, \<lparr>wd_actions = db, wd_jobs = jobs\<rparr>)))))"

definition drive :: "pyhost \<Rightarrow> (pystr \<Rightarrow> pystr) \<Rightarrow> (pystr \<Rightarrow> pystr) \<Rightarrow> 'r registry
    \<Rightarrow> (action_row \<Rightarrow> bool result) option \<Rightarrow> int \<Rightarrow> int \<Rightarrow> pystr \<Rightarrow> world \<Rightarrow> verdict result \<times> world" where
  "drive H mac redact reg unchanged now later n w =
     (case action_get (wd_actions w) n of
        Inl e \<Rightarrow> (Inl e, w)
      | Inr None \<Rightarrow> (refused (u ''unknown nonce''), w)
      | Inr (Some rec) \<Rightarrow>
          (case get_capability reg (ac_capability rec) of
             None \<Rightarrow> (refused (u ''no registered capability''), w)
           | Some cap \<Rightarrow>
               let tgt = ac_job rec;
                   (j, jobs) = find_target now tgt (wd_jobs w);
                   w1 = w\<lparr>wd_jobs := jobs\<rparr>;
                   leash = (case j of None \<Rightarrow> [] | Some job \<Rightarrow> jb_leash job);
                   answer = job_leash_answer H leash (ac_capability rec) (cp_risk cap) in
               if forbidden j rec then (refused (u ''job state forbids action execution''), w1)
               else if answer = L_DENY then (refused (u ''leash denied''), w1)
               else if answer = L_ASK \<and> ac_state rec = A_PENDING
               then (Inr (verdict0 INCONCLUSIVE (u ''awaiting human confirm (irreversible)'')),
                     if tgt = [] then w1
                     else w1\<lparr>wd_jobs := job_set_state tgt J_NEEDS_YOU (Some (u ''awaiting confirm for irreversible action'')) now jobs\<rparr>)
               else if ac_state rec = A_PENDING \<and> answer = L_ALLOW
               then (case confirm H mac n now (wd_actions w) of
                       (True, db) \<Rightarrow> run_confirmed H mac redact reg unchanged now later n tgt (w1\<lparr>wd_actions := db\<rparr>)
                     | (False, db) \<Rightarrow> (refused (u ''not confirmed''), w1\<lparr>wd_actions := db\<rparr>))
               else run_confirmed H mac redact reg unchanged now later n tgt w1))"

subsection \<open>What the executor relies on in the action store\<close>

text \<open>
  A store that runs an action by its key: a run that reports a receipt found the key approved,
  appends that receipt and leaves the key executed; a refused run adds no fired receipt; an
  executed key is refused and stays as it is.
\<close>

fun attempts :: "('p \<Rightarrow> 's \<Rightarrow> ('e + 'r) \<times> 's) \<Rightarrow> 'p list \<Rightarrow> 's \<Rightarrow> 's" where
  "attempts run [] s = s"
| "attempts run (p # ps) s = attempts run ps (snd (run p s))"

locale action_runner =
  fixes run :: "'p \<Rightarrow> 's \<Rightarrow> ('e + 'r) \<times> 's"
    and fired_log :: "'s \<Rightarrow> 'r list"
    and approved :: "'s \<Rightarrow> bool"
    and executed :: "'s \<Rightarrow> bool"
  assumes run_ok: "run p s = (Inr rc, s') \<Longrightarrow> approved s \<and> fired_log s' = fired_log s @ [rc] \<and> executed s'"
    and run_refused: "run p s = (Inl e, s') \<Longrightarrow> fired_log s' = fired_log s"
    and executed_refused: "executed s \<Longrightarrow> \<exists>e. run p s = (Inl e, s)"
begin

lemma executed_attempts: "executed s \<Longrightarrow> attempts run ps s = s"
proof (induction ps)
  case (Cons p ps)
  then show ?case using executed_refused [of s p] by auto
qed simp

lemma attempts_fire_once:
  "fired_log (attempts run ps s) = fired_log s \<or> (\<exists>rc. fired_log (attempts run ps s) = fired_log s @ [rc])"
proof (induction ps arbitrary: s)
  case (Cons p ps)
  obtain res s' where r: "run p s = (res, s')" by fastforce
  show ?case
  proof (cases res)
    case (Inl e)
    with r run_refused [of p s e s'] Cons.IH [of s'] show ?thesis by simp
  next
    case (Inr rc)
    with r run_ok [of p s rc s'] executed_attempts [of s' ps] show ?thesis by simp
  qed
qed simp

end

record 'r attempt =
  at_side :: "action_row \<Rightarrow> 'r result"
  at_check :: "(action_row \<Rightarrow> 'r \<Rightarrow> verdict result) option"
  at_unchanged :: "(action_row \<Rightarrow> bool result) option"
  at_now :: int
  at_later :: int

definition try_action :: "pyhost \<Rightarrow> (pystr \<Rightarrow> pystr) \<Rightarrow> (pystr \<Rightarrow> pystr) \<Rightarrow> pystr \<Rightarrow> 'r attempt \<Rightarrow> action_db
    \<Rightarrow> receipt result \<times> action_db" where
  "try_action H mac redact n p db =
     execute H mac redact (at_side p) (at_check p) (at_unchanged p) n (at_now p) (at_later p) db"

definition fired_receipts :: "action_db \<Rightarrow> receipt list" where
  "fired_receipts db = filter rc_fired (ad_receipts db)"

definition row_in_state :: "action_state \<Rightarrow> pystr \<Rightarrow> action_db \<Rightarrow> bool" where
  "row_in_state st n db \<longleftrightarrow> map_option ac_state (action_row_of db n) = Some st"

lemma claim_not_approved: "action_row_of db n = Some r \<Longrightarrow> ac_state r \<noteq> A_APPROVED \<Longrightarrow> claim H mac n now db = (None, db)"
  by (simp add: claim_def)

interpretation runner: action_runner "try_action H mac redact n" fired_receipts "row_in_state A_APPROVED n" "row_in_state A_EXECUTED n"
  for H mac redact n
proof unfold_locales
  fix p db rc db'
  assume "try_action H mac redact n p db = (Inr rc, db')"
  then show "row_in_state A_APPROVED n db \<and> fired_receipts db' = fired_receipts db @ [rc] \<and> row_in_state A_EXECUTED n db'"
    using execute_evidence [where H = H and mac = mac and redact = redact and side = "at_side p" and check = "at_check p"
        and unchanged = "at_unchanged p" and n = n and now = "at_now p" and later = "at_later p" and db = db]
    by (auto simp: try_action_def row_in_state_def fired_receipts_def)
next
  fix p db e db'
  assume "try_action H mac redact n p db = (Inl e, db')"
  then show "fired_receipts db' = fired_receipts db"
    using execute_evidence [where H = H and mac = mac and redact = redact and side = "at_side p" and check = "at_check p"
        and unchanged = "at_unchanged p" and n = n and now = "at_now p" and later = "at_later p" and db = db]
    by (simp add: try_action_def fired_receipts_def)
next
  fix p db
  assume "row_in_state A_EXECUTED n db"
  then obtain r where "action_row_of db n = Some r" "ac_state r = A_EXECUTED" by (auto simp: row_in_state_def)
  then show "\<exists>e. try_action H mac redact n p db = (Inl e, db)"
    by (simp add: try_action_def execute_def claim_not_approved refused_def)
qed

text \<open>Retrying one nonce in turn, whatever the outcomes, adds at most one fired receipt.\<close>

lemmas retries_fire_once = runner.attempts_fire_once

subsection \<open>The leash and the verdict decide\<close>

lemma execute_try:
  "execute H mac redact side check unchanged n now later db
   = try_action H mac redact n \<lparr>at_side = side, at_check = check, at_unchanged = unchanged, at_now = now, at_later = later\<rparr> db"
  by (simp add: try_action_def)

lemma action_get_Some: "action_get db n = Inr (Some r) \<Longrightarrow> action_row_of db n = Some r"
  by (auto simp: action_get_def bind_result_Inr_iff split: option.splits)

lemma run_confirmed_fires:
  assumes "run_confirmed H mac redact reg unchanged now later n jid w = (res, w')"
    and "fired_receipts (wd_actions w') \<noteq> fired_receipts (wd_actions w)"
  shows "row_in_state A_APPROVED n (wd_actions w)"
proof (rule ccontr)
  assume not: "\<not> row_in_state A_APPROVED n (wd_actions w)"
  have keeps: "fired_receipts db = fired_receipts (wd_actions w) \<and> is_ok r = False"
    if "execute H mac redact side check unchanged n now later (wd_actions w) = (r, db)" for side check r db
    using that runner.run_ok runner.run_refused not unfolding execute_try by (cases r) fastforce+
  show False
    using assms keeps
    by (auto simp: run_confirmed_def Let_def split: sum.splits option.splits prod.splits if_splits) fastforce+
qed

definition target_job :: "int \<Rightarrow> action_row \<Rightarrow> world \<Rightarrow> job option" where
  "target_job now rec w = fst (find_target now (ac_job rec) (wd_jobs w))"

definition target_leash :: "int \<Rightarrow> action_row \<Rightarrow> world \<Rightarrow> pydict" where
  "target_leash now rec w = (case target_job now rec w of None \<Rightarrow> [] | Some job \<Rightarrow> jb_leash job)"

text \<open>
  Driving an action fires it only with permission: when a drive adds a fired
  receipt, the nonce has a row and a registered capability, its job (when it has one) is not
  terminal, paused, recovering or reconciling, the job's leash does not deny the capability,
  and either the row was approved before or it was pending and the leash allows it outright.
  A leash that asks parks the action.
\<close>

theorem drive_fires_with_permission:
  assumes "drive H mac redact reg unchanged now later n w = (res, w')"
    and "fired_receipts (wd_actions w') \<noteq> fired_receipts (wd_actions w)"
  shows "\<exists>rec cap. action_row_of (wd_actions w) n = Some rec \<and> get_capability reg (ac_capability rec) = Some cap
    \<and> (case target_job now rec w of None \<Rightarrow> True | Some job \<Rightarrow> jb_state job \<notin> set non_executable)
    \<and> job_leash_answer H (target_leash now rec w) (ac_capability rec) (cp_risk cap) \<noteq> L_DENY
    \<and> (ac_state rec = A_APPROVED
       \<or> ac_state rec = A_PENDING \<and> job_leash_answer H (target_leash now rec w) (ac_capability rec) (cp_risk cap) = L_ALLOW)"
proof -
  obtain rec where rec: "action_get (wd_actions w) n = Inr (Some rec)"
    using assms by (auto simp: drive_def split: sum.splits option.splits)
  note row = action_get_Some [OF rec]
  obtain cap where cap: "get_capability reg (ac_capability rec) = Some cap"
    using assms by (auto simp: drive_def rec split: option.splits)
  obtain j jobs where j: "find_target now (ac_job rec) (wd_jobs w) = (j, jobs)" by fastforce
  let ?ans = "job_leash_answer H (target_leash now rec w) (ac_capability rec) (cp_risk cap)"
  let ?w1 = "w\<lparr>wd_jobs := jobs\<rparr>"
  have leash: "target_leash now rec w = (case j of None \<Rightarrow> [] | Some job \<Rightarrow> jb_leash job)"
    by (simp add: target_leash_def target_job_def j)
  note D = assms(1) [unfolded drive_def rec sum.case option.case cap Let_def j prod.case, folded leash]
  have ok: "\<not> forbidden j rec" "?ans \<noteq> L_DENY" "\<not> (?ans = L_ASK \<and> ac_state rec = A_PENDING)"
    using D assms(2) by (auto split: if_splits)
  have "ac_state rec = A_APPROVED \<or> ac_state rec = A_PENDING \<and> ?ans = L_ALLOW"
  proof (cases "ac_state rec = A_PENDING \<and> ?ans = L_ALLOW")
    case False
    then have "run_confirmed H mac redact reg unchanged now later n (ac_job rec) ?w1 = (res, w')"
      using D ok by auto
    from run_confirmed_fires [OF this] assms(2) have "row_in_state A_APPROVED n (wd_actions w)" by simp
    then show ?thesis by (simp add: row_in_state_def row)
  qed simp
  moreover from this ok(1) have "case j of None \<Rightarrow> True | Some job \<Rightarrow> jb_state job \<notin> set non_executable"
    by (auto simp: forbidden_def split: option.splits)
  ultimately show ?thesis using row cap ok(2) by (auto simp: target_job_def j)
qed

definition demo_capability :: "unit capability" where
  "demo_capability = \<lparr>cp_name = u ''note.append'', cp_execute = (\<lambda>_. Inr ()), cp_verify = Some (\<lambda>_ _. Inr (verdict0 VERIFIED [])),
     cp_reversible = True, cp_risk = u ''write'', cp_compensates = False, cp_description = [], cp_args_hint = []\<rparr>"

definition demo_world :: "action_state \<Rightarrow> world" where
  "demo_world st = \<lparr>wd_actions = \<lparr>ad_rows = [demo_row st 0 0], ad_receipts = []\<rparr>,
     wd_jobs = [\<lparr>jr_id = u ''j'', jr_goal = [], jr_leash = Some (JObj []), jr_state = J_RUNNING, jr_result = [],
                 jr_created = 0, jr_updated = 0\<rparr>]\<rparr>"

definition demo_drive :: "verdict result \<times> world" where
  "demo_drive = drive ascii_host id id [(u ''note.append'', demo_capability)] None 6 7 [110] (demo_world A_PENDING)"

lemma demo_row_columns:
  "ac_args (demo_row st d a) = Some (JObj [])" "ac_snapshot (demo_row st d a) = Some (JObj [])"
  "ac_capability (demo_row st d a) = u ''note.append''" "ac_job (demo_row st d a) = u ''j''"
  by (simp_all add: demo_row_def proposed_row_def demo_request_def)

lemma demo_drive_result:
  "fst demo_drive = Inr (verdict0 VERIFIED [])"
  "map rc_fired (ad_receipts (wd_actions (snd demo_drive))) = [True]"
  "map jr_state (wd_jobs (snd demo_drive)) = [J_DONE_VERIFIED]"
proof -
  have c: "execute ascii_host id id (\<lambda>_. Inr ()) (Some (\<lambda>_ _. Inr (verdict0 VERIFIED []))) None [110] 6 7
      \<lparr>ad_rows = [demo_row A_APPROVED 6 0], ad_receipts = []\<rparr>
    = (let rc = make_receipt ascii_host id (demo_row A_EXECUTING 6 6) True (verdict0 VERIFIED []) 7 in
       (Inr rc, \<lparr>ad_rows = [(demo_row A_EXECUTED 6 6)\<lparr>ac_executed := 7\<rparr>], ad_receipts = [rc]\<rparr>))"
    by (simp add: execute_def claim_def action_row_of_def has_nonce_def demo_row_facts update_action_def
        finalize_def outcome_verdict_def add_receipt_def all_states_def Let_def)
  have l: "job_leash_answer ascii_host [] (u ''note.append'') (u ''write'') = L_ALLOW"
    by (simp add: job_leash_answer_def evaluate_leash_def validate_leash_def spend_value_def dget_def u_def)
  show "fst demo_drive = Inr (verdict0 VERIFIED [])"
    "map rc_fired (ad_receipts (wd_actions (snd demo_drive))) = [True]"
    "map jr_state (wd_jobs (snd demo_drive)) = [J_DONE_VERIFIED]"
    by (simp_all add: demo_drive_def drive_def demo_world_def action_get_def action_row_of_def has_nonce_def demo_row_facts
        demo_row_columns j_object_def get_capability_def find_target_def job_get_def job_row_of_def decode_row_def
        decode_leash_def validate_leash_def dget_def job_of_row_def forbidden_def non_executable_def terminal_job_states_def
        demo_capability_def l demo_confirm run_confirmed_def c [unfolded verdict0_def] Let_def apply_verdict_def make_receipt_def stored_verdict_def
        job_set_state_def job_update_def job_state_of_verdict_def verdict0_def)
qed

theorem drive_fires_with_permission_witness:
  "map rc_fired (ad_receipts (wd_actions (snd demo_drive))) = [True]
   \<and> (\<exists>rec cap. action_row_of (wd_actions (demo_world A_PENDING)) [110] = Some rec \<and> get_capability [(u ''note.append'', demo_capability)] (ac_capability rec) = Some cap)"
proof -
  have d: "drive ascii_host id id [(u ''note.append'', demo_capability)] None 6 7 [110] (demo_world A_PENDING)
      = (fst demo_drive, snd demo_drive)" by (simp add: demo_drive_def)
  have "fired_receipts (wd_actions (snd demo_drive)) \<noteq> []"
    using demo_drive_result(2) by (auto simp: fired_receipts_def filter_empty_conv)
  then have "fired_receipts (wd_actions (snd demo_drive)) \<noteq> fired_receipts (wd_actions (demo_world A_PENDING))"
    by (simp add: fired_receipts_def demo_world_def)
  from drive_fires_with_permission [OF d this] demo_drive_result(2) show ?thesis by blast
qed

definition unverified :: "job_row list \<Rightarrow> bool" where
  "unverified jobs \<longleftrightarrow> J_DONE_VERIFIED \<notin> jr_state ` set jobs"

definition verified_receipt :: "pystr \<Rightarrow> action_db \<Rightarrow> bool" where
  "verified_receipt n db \<longleftrightarrow> (\<exists>rc \<in> set (ad_receipts db). rc_nonce rc = n \<and> rc_fired rc \<and> rc_verdict rc = VERIFIED)"

lemma unverified_update:
  "unverified jobs \<Longrightarrow> (\<And>r. jr_state (f r) = st) \<Longrightarrow> st \<noteq> J_DONE_VERIFIED \<Longrightarrow> unverified (job_update jid f jobs)"
  by (auto simp: unverified_def job_update_def image_iff split: if_splits)

lemma unverified_set_state: "unverified jobs \<Longrightarrow> st \<noteq> J_DONE_VERIFIED \<Longrightarrow> unverified (job_set_state jid st why now jobs)"
  unfolding job_set_state_def by (rule unverified_update) (simp_all split: option.splits)

lemma unverified_find_target: "unverified jobs \<Longrightarrow> find_target now tgt jobs = (j, jobs') \<Longrightarrow> unverified jobs'"
  by (auto simp: find_target_def job_get_def decode_row_def Let_def intro: unverified_update [where st = J_RECOVERY_REQUIRED]
      split: if_splits option.splits sum.splits)

lemma unverified_apply: "unverified jobs \<Longrightarrow> s \<noteq> VERIFIED \<Longrightarrow> unverified (snd (apply_verdict tgt cap s why now jobs))"
  by (cases s) (auto simp: apply_verdict_def job_state_of_verdict_def intro: unverified_set_state)

lemma run_confirmed_verified:
  assumes r: "run_confirmed H mac redact reg unchanged now later n jid w = (res, w')"
    and "unverified (wd_jobs w)" "\<not> unverified (wd_jobs w')" "n \<noteq> []"
  shows "(\<exists>v. res = Inr v \<and> vd_status v = VERIFIED) \<and> verified_receipt n (wd_actions w')"
proof -
  obtain rec where rec: "action_get (wd_actions w) n = Inr (Some rec)"
    using assms by (auto simp: run_confirmed_def split: sum.splits option.splits)
  obtain cap where cap: "get_capability reg (ac_capability rec) = Some cap"
    using assms by (auto simp: run_confirmed_def rec split: option.splits)
  obtain j jobs where j: "find_target now (or_str (ac_job rec) jid) (wd_jobs w) = (j, jobs)" by fastforce
  have un: "unverified jobs" by (rule unverified_find_target [OF assms(2) j])
  obtain x db where x: "execute H mac redact (cp_execute cap) (cp_verify cap) unchanged n now later (wd_actions w) = (x, db)"
    by fastforce
  note R = r [unfolded run_confirmed_def rec sum.case option.case cap Let_def j prod.case x]
  show ?thesis
  proof (cases x)
    case (Inr rc)
    have ev: "rc_nonce rc = n" "rc_fired rc" "rc \<in> set (ad_receipts db)"
      using execute_evidence [where H = H and mac = mac and redact = redact and side = "cp_execute cap" and check = "cp_verify cap"
          and unchanged = unchanged and n = n and now = now and later = later and db = "wd_actions w"]
      unfolding x Inr by auto
    from R un assms(3) have "res = Inr (stored_verdict rc)" "wd_actions w' = db" "rc_verdict rc = VERIFIED"
      by (auto simp: Inr dest: unverified_apply split: if_splits)
    with ev show ?thesis by (auto simp: stored_verdict_def verdict0_def verified_receipt_def)
  next
    case (Inl e)
    let ?rc = "last (filter rc_fired (receipts_for db n))"
    from R un assms(3) have ne: "filter rc_fired (receipts_for db n) \<noteq> []" and "res = Inr (stored_verdict ?rc)"
      "wd_actions w' = db" "rc_verdict ?rc = VERIFIED"
      by (auto simp: Inl dest: unverified_apply split: if_splits sum.splits)
    moreover from last_in_set [OF ne] have "?rc \<in> set (ad_receipts db)" "rc_nonce ?rc = n" "rc_fired ?rc"
      using assms(4) by (auto simp: receipts_for_def)
    ultimately show ?thesis by (auto simp: stored_verdict_def verdict0_def verified_receipt_def)
  qed
qed



text \<open>
  The executor passes no time to the leash, so an expiry it declares is never enforced there,
  although the same leash denies the same capability at a later time.
\<close>

lemma expired_leash_still_drives:
  "let leash = [(u ''may'', JList [JStr (u ''note.*'')]), (u ''expires'', JStr (u ''2020''))] in
     job_leash_answer ascii_host leash (u ''note.append'') (u ''write'') = L_ALLOW
     \<and> fst (evaluate_leash ascii_host (JObj leash) (JStr (u ''note.append'')) (u ''write'') (JFloat (Fin 0)) (Some (u ''2024''))) = L_DENY"
proof -
  have lit: "list_all (\<lambda>c. \<not> wild_cp c) (u ''note.'')" by (simp add: wild_cp_def u_def)
  have star: "u ''note.*'' = u ''note.'' @ [42]" by (simp add: u_def)
  have f: "fnmatchcase (u ''note.append'') (u ''note.*'')"
    unfolding star fnmatchcase_prefix_star [OF lit] by (simp add: starts_with_def u_def)
  show ?thesis
    by (simp add: job_leash_answer_def evaluate_leash_def validate_leash_def dget_def may_ok_def nonempty_text_def is_text_def
        spend_value_def f leash_patterns_def leash_expires_def leash_cap_def irreversible_risks_def Let_def) (simp add: u_def)
qed

end
