(* ===== verification/Scheduler.thy ===== *)
theory Scheduler
  imports "HOL-Library.Multiset" Jobs
begin

text \<open>
  \<open>harness/scheduler.py\<close>: durable waits, fired on wake by driving their action. The table of
  waits is a list of rows; \<open>sc_next\<close> is the next key of the table. What drives an action is
  an argument of \<open>tick\<close>, so that a tick can be studied for any driver; the program passes
  the executor's \<open>drive\<close>. The text of a refusal is its exception's class.
\<close>

subsection \<open>Waits\<close>

datatype wait_state = W_PENDING | W_CLAIMED | W_FIRED

record wait =
  wt_id :: nat
  wt_job :: pystr
  wt_nonce :: pystr
  wt_kind :: pystr
  wt_fire_at :: int
  wt_state :: wait_state
  wt_created :: int
  wt_fired :: int
  wt_claimed :: int
  wt_lease :: int
  wt_attempts :: nat
  wt_error :: pystr

record sched =
  sc_waits :: "wait list"
  sc_next :: nat
  sc_world :: world

definition lease_seconds :: int where
  "lease_seconds = 300"

text \<open>Due, and still claimable: pending, or claimed under a lease that ran out.\<close>

definition claimable :: "int \<Rightarrow> wait \<Rightarrow> bool" where
  "claimable now w \<longleftrightarrow> wt_state w = W_PENDING \<or> wt_state w = W_CLAIMED \<and> wt_lease w \<le> now"

definition update_wait :: "nat \<Rightarrow> (wait \<Rightarrow> bool) \<Rightarrow> (wait \<Rightarrow> wait) \<Rightarrow> wait list \<Rightarrow> nat \<times> wait list" where
  "update_wait i cond f ws =
     (let hit = (\<lambda>w. wt_id w = i \<and> cond w) in (length (filter hit ws), map (\<lambda>w. if hit w then f w else w) ws))"

definition reconcile_waits :: "int \<Rightarrow> wait list \<Rightarrow> wait list" where
  "reconcile_waits now ws =
     map (\<lambda>w. if wt_state w = W_CLAIMED \<and> wt_lease w \<le> now
              then w\<lparr>wt_state := W_PENDING, wt_claimed := 0, wt_lease := 0\<rparr> else w) ws"

definition due :: "int \<Rightarrow> wait list \<Rightarrow> wait list" where
  "due now ws = sort_key wt_fire_at (filter (\<lambda>w. wt_fire_at w \<le> now \<and> claimable now w) ws)"

definition pending_waits :: "wait list \<Rightarrow> wait list" where
  "pending_waits ws = sort_key wt_fire_at (filter (\<lambda>w. wt_state w = W_PENDING) ws)"

text \<open>The arguments are the texts and integers the callers pass.\<close>

definition schedule_checked :: "pystr \<Rightarrow> pystr \<Rightarrow> int \<Rightarrow> pystr \<Rightarrow> int \<Rightarrow> sched \<Rightarrow> sched result" where
  "schedule_checked jid n fire_at kind now s =
     (if jid = [] then Inr s
      else
        (case job_get now jid (wd_jobs (sc_world s)) of
           (j, jobs) \<Rightarrow>
             let s1 = s\<lparr>sc_world := (sc_world s)\<lparr>wd_jobs := jobs\<rparr>\<rparr> in
             if (case j of None \<Rightarrow> True | Some job \<Rightarrow> job_terminal job \<or> jb_state job = J_RECOVERY_REQUIRED)
             then Inl (ValueError ''scheduled wait job is missing, terminal, or recovering'')
             else bind_result (action_get (wd_actions (sc_world s)) n) (\<lambda>a.
               if (case a of None \<Rightarrow> True
                   | Some r \<Rightarrow> ac_job r \<noteq> jid \<or> \<not> List.member [A_PENDING, A_EXECUTING] (ac_state r))
               then Inl (ValueError ''scheduled wait must own one pending or interrupted action for the same job'')
               else Inr s1)))"

definition new_wait :: "nat \<Rightarrow> pystr \<Rightarrow> pystr \<Rightarrow> pystr \<Rightarrow> int \<Rightarrow> int \<Rightarrow> wait" where
  "new_wait i jid n kind fire_at now = \<lparr>wt_id = i, wt_job = jid, wt_nonce = n, wt_kind = kind, wt_fire_at = fire_at,
     wt_state = W_PENDING, wt_created = now, wt_fired = 0, wt_claimed = 0, wt_lease = 0, wt_attempts = 0, wt_error = []\<rparr>"

definition schedule :: "pystr \<Rightarrow> pystr \<Rightarrow> int \<Rightarrow> pystr \<Rightarrow> int \<Rightarrow> sched \<Rightarrow> (nat \<times> sched) result" where
  "schedule jid n fire_at kind now s =
     (if n = [] then Inl (ValueError ''scheduled wait needs a string job id and action nonce'')
      else if fire_at < 0 then Inl (ValueError ''fire_at must be a non-negative integer timestamp'')
      else if now < 0 then Inl (ValueError ''schedule time must be a non-negative integer timestamp'')
      else if kind = [] \<or> 40 < length kind then Inl (ValueError ''wait kind must be a non-empty bounded string'')
      else bind_result (schedule_checked jid n fire_at kind now s) (\<lambda>s1.
        let waiting = (\<lambda>i ws nx. (i, s1\<lparr>sc_waits := ws, sc_next := nx,
              sc_world := (if jid = [] then sc_world s1
                else (sc_world s1)\<lparr>wd_jobs := job_set_state jid J_WAITING (Some (u ''waiting until '' @ dec fire_at)) now
                       (wd_jobs (sc_world s1))\<rparr>)\<rparr>)) in
        (case List.find (\<lambda>w. wt_nonce w = n) (sc_waits s1) of
           Some old \<Rightarrow>
             if wt_job old \<noteq> jid \<or> wt_kind old \<noteq> kind \<or> wt_fire_at old \<noteq> fire_at
             then Inl (ValueError ''action nonce is already bound to a different wait'')
             else Inr (waiting (wt_id old) (sc_waits s1) (sc_next s1))
         | None \<Rightarrow> Inr (waiting (sc_next s1) (sc_waits s1 @ [new_wait (sc_next s1) jid n kind fire_at now]) (sc_next s1 + 1)))))"

subsection \<open>One tick\<close>

definition is_refused :: "exc \<Rightarrow> bool" where
  "is_refused e \<longleftrightarrow> e = OtherError ''RefusedError''"

definition claim_wait :: "int \<Rightarrow> nat \<Rightarrow> wait list \<Rightarrow> nat \<times> wait list" where
  "claim_wait now i ws =
     update_wait i (claimable now)
       (\<lambda>w. w\<lparr>wt_state := W_CLAIMED, wt_claimed := now, wt_lease := now + lease_seconds, wt_attempts := wt_attempts w + 1\<rparr>) ws"

definition close_wait :: "int \<Rightarrow> nat \<Rightarrow> pystr \<Rightarrow> wait list \<Rightarrow> wait list" where
  "close_wait now i err ws =
     snd (update_wait i (\<lambda>w. wt_state w = W_CLAIMED)
       (\<lambda>w. w\<lparr>wt_state := W_FIRED, wt_fired := now, wt_lease := 0, wt_error := err\<rparr>) ws)"

definition release_wait :: "nat \<Rightarrow> pystr \<Rightarrow> wait list \<Rightarrow> wait list" where
  "release_wait i err ws =
     snd (update_wait i (\<lambda>w. wt_state w = W_CLAIMED)
       (\<lambda>w. w\<lparr>wt_state := W_PENDING, wt_claimed := 0, wt_lease := 0, wt_error := err\<rparr>) ws)"

text \<open>A wait that could not be driven surfaces in its job.\<close>

definition surface :: "int \<Rightarrow> wait \<Rightarrow> exc \<Rightarrow> world \<Rightarrow> world result" where
  "surface now w e wd =
     (if wt_job w = [] then Inr wd
      else bind_result (action_get (wd_actions wd) (wt_nonce w)) (\<lambda>cur.
        Inr (wd\<lparr>wd_jobs :=
          (if (case cur of None \<Rightarrow> False | Some r \<Rightarrow> ac_state r = A_EXECUTING)
           then job_set_state (wt_job w) J_NEEDS_YOU
             (Some (u ''wait outcome unknown after interrupted execution; inspect before retrying'')) now (wd_jobs wd)
           else job_set_state (wt_job w) J_FAILED (Some (u ''wait dropped: '' @ error_text e)) now (wd_jobs wd))\<rparr>)))"

text \<open>
  One wait of the snapshot: skipped when another ticker has it, otherwise driven. The result
  says whether it fired; an exception in the handler of a refusal leaves the tick.
\<close>

definition tick_one :: "(pystr \<Rightarrow> world \<Rightarrow> verdict result \<times> world) \<Rightarrow> int \<Rightarrow> wait \<Rightarrow> sched \<Rightarrow> bool result \<times> sched" where
  "tick_one drv now w s =
     (case claim_wait now (wt_id w) (sc_waits s) of
        (hits, ws) \<Rightarrow>
          if hits \<noteq> 1 then (Inr False, s\<lparr>sc_waits := ws\<rparr>)
          else
            (case drv (wt_nonce w) (sc_world s) of
               (Inr v, wd) \<Rightarrow> (Inr True, s\<lparr>sc_waits := close_wait now (wt_id w) [] ws, sc_world := wd\<rparr>)
             | (Inl e, wd) \<Rightarrow>
                 if is_refused e then
                   (case surface now w e wd of
                      Inl e' \<Rightarrow> (Inl e', s\<lparr>sc_waits := ws, sc_world := wd\<rparr>)
                    | Inr wd' \<Rightarrow> (Inr True,
                        s\<lparr>sc_waits := close_wait now (wt_id w) (take 500 (error_text e)) ws, sc_world := wd'\<rparr>))
                 else (Inr False, s\<lparr>sc_waits := release_wait (wt_id w) (error_text e) ws, sc_world := wd\<rparr>)))"

fun tick_all :: "(pystr \<Rightarrow> world \<Rightarrow> verdict result \<times> world) \<Rightarrow> int \<Rightarrow> wait list \<Rightarrow> sched \<Rightarrow> nat result \<times> sched" where
  "tick_all drv now [] s = (Inr 0, s)"
| "tick_all drv now (w # ws) s =
     (case tick_one drv now w s of
        (Inl e, s1) \<Rightarrow> (Inl e, s1)
      | (Inr b, s1) \<Rightarrow>
          (case tick_all drv now ws s1 of
             (Inl e, s2) \<Rightarrow> (Inl e, s2)
           | (Inr k, s2) \<Rightarrow> (Inr ((if b then 1 else 0) + k), s2)))"

definition tick :: "(pystr \<Rightarrow> world \<Rightarrow> verdict result \<times> world) \<Rightarrow> int \<Rightarrow> sched \<Rightarrow> nat result \<times> sched" where
  "tick drv now s = tick_all drv now (due now (sc_waits s)) s"

definition executor_driver :: "pyhost \<Rightarrow> (pystr \<Rightarrow> pystr) \<Rightarrow> (pystr \<Rightarrow> pystr) \<Rightarrow> 'r registry \<Rightarrow> int \<Rightarrow> int
    \<Rightarrow> pystr \<Rightarrow> world \<Rightarrow> verdict result \<times> world" where
  "executor_driver H mac redact reg now later n wd = drive H mac redact reg None now later n wd"

subsection \<open>No wait is lost\<close>

definition wait_of :: "nat \<Rightarrow> wait list \<Rightarrow> wait option" where
  "wait_of i ws = List.find (\<lambda>w. wt_id w = i) ws"

definition unique_waits :: "wait list \<Rightarrow> bool" where
  "unique_waits ws \<longleftrightarrow> distinct (map wt_id ws)"

lemma update_wait_ids:
  "(\<And>w. wt_id (f w) = wt_id w) \<Longrightarrow> map wt_id (snd (update_wait i cond f ws)) = map wt_id ws"
  by (simp add: update_wait_def Let_def)

lemma wait_of_update:
  assumes "\<And>w. wt_id (f w) = wt_id w"
  shows "wait_of k (snd (update_wait i cond f ws)) = map_option (\<lambda>w. if k = i \<and> cond w then f w else w) (wait_of k ws)"
  using assms by (induction ws) (auto simp: update_wait_def wait_of_def Let_def)

lemma update_wait_count:
  assumes "unique_waits ws"
  shows "fst (update_wait i cond f ws) = (case wait_of i ws of None \<Rightarrow> 0 | Some w \<Rightarrow> if cond w then 1 else 0)"
  using assms
proof (induction ws)
  case (Cons w ws)
  have "filter (\<lambda>w. wt_id w = i \<and> cond w) ws = []" if "wt_id w = i"
  proof -
    have "i \<notin> wt_id ` set ws" using Cons.prems that by (simp add: unique_waits_def)
    then show ?thesis by (auto simp: filter_empty_conv image_iff)
  qed
  with Cons show ?case by (auto simp: update_wait_def wait_of_def unique_waits_def Let_def)
qed (simp add: update_wait_def wait_of_def)

lemma close_wait_facts:
  "map wt_id (close_wait now i err ws) = map wt_id ws"
  "wait_of k (close_wait now i err ws)
     = map_option (\<lambda>w. if k = i \<and> wt_state w = W_CLAIMED then w\<lparr>wt_state := W_FIRED, wt_fired := now, wt_lease := 0, wt_error := err\<rparr> else w)
         (wait_of k ws)"
  unfolding close_wait_def by (rule update_wait_ids, simp) (rule wait_of_update, simp)

lemma release_wait_facts:
  "map wt_id (release_wait i err ws) = map wt_id ws"
  "wait_of k (release_wait i err ws)
     = map_option (\<lambda>w. if k = i \<and> wt_state w = W_CLAIMED then w\<lparr>wt_state := W_PENDING, wt_claimed := 0, wt_lease := 0, wt_error := err\<rparr> else w)
         (wait_of k ws)"
  unfolding release_wait_def by (rule update_wait_ids, simp) (rule wait_of_update, simp)

lemma claim_wait_facts:
  assumes "claim_wait now i ws = (hits, ws')" "unique_waits ws"
  shows "map wt_id ws' = map wt_id ws" "k \<noteq> i \<Longrightarrow> wait_of k ws' = wait_of k ws"
    "wait_of i ws = Some q \<Longrightarrow> claimable now q \<Longrightarrow> hits = 1 \<and> (\<exists>q'. wait_of i ws' = Some q' \<and> wt_state q' = W_CLAIMED)"
proof -
  let ?f = "\<lambda>w. w\<lparr>wt_state := W_CLAIMED, wt_claimed := now, wt_lease := now + lease_seconds, wt_attempts := wt_attempts w + 1\<rparr>"
  have ws': "ws' = snd (update_wait i (claimable now) ?f ws)" and hits: "hits = fst (update_wait i (claimable now) ?f ws)"
    using assms(1) unfolding claim_wait_def by (metis snd_conv, metis fst_conv)
  show "map wt_id ws' = map wt_id ws" unfolding ws' by (rule update_wait_ids) simp
  have of': "wait_of k ws' = map_option (\<lambda>w. if k = i \<and> claimable now w then ?f w else w) (wait_of k ws)" for k
    unfolding ws' by (rule wait_of_update) simp
  show "wait_of k ws' = wait_of k ws" if "k \<noteq> i" using of' [of k] that by (simp add: map_option.identity)
  show "hits = 1 \<and> (\<exists>q'. wait_of i ws' = Some q' \<and> wt_state q' = W_CLAIMED)" if "wait_of i ws = Some q" "claimable now q"
    unfolding hits update_wait_count [OF assms(2)] using of' [of i] that by simp
qed

definition same_waits_but :: "nat \<Rightarrow> wait list \<Rightarrow> wait list \<Rightarrow> bool" where
  "same_waits_but i ws ws' \<longleftrightarrow> map wt_id ws' = map wt_id ws \<and> (\<forall>k. k \<noteq> i \<longrightarrow> wait_of k ws' = wait_of k ws)"

definition settled_as :: "bool \<Rightarrow> nat \<Rightarrow> wait list \<Rightarrow> bool" where
  "settled_as b i ws \<longleftrightarrow> map_option wt_state (wait_of i ws) = Some (if b then W_FIRED else W_PENDING)"

lemma tick_one_facts:
  assumes t: "tick_one drv now w s = (Inr b, s')" and un: "unique_waits (sc_waits s)"
  shows "same_waits_but (wt_id w) (sc_waits s) (sc_waits s')"
    "wait_of (wt_id w) (sc_waits s) = Some q \<Longrightarrow> claimable now q \<Longrightarrow> settled_as b (wt_id w) (sc_waits s')"
proof -
  obtain hits ws where c: "claim_wait now (wt_id w) (sc_waits s) = (hits, ws)" by fastforce
  note C = claim_wait_facts [OF c un]
  obtain res wd where d: "drv (wt_nonce w) (sc_world s) = (res, wd)" by fastforce
  have cases: "sc_waits s' = ws \<and> hits \<noteq> 1 \<or> hits = 1 \<and> (b \<and> (\<exists>err. sc_waits s' = close_wait now (wt_id w) err ws)
      \<or> \<not> b \<and> (\<exists>err. sc_waits s' = release_wait (wt_id w) err ws))"
    using t unfolding tick_one_def c prod.case d
    by (cases res) (auto split: if_splits sum.splits)
  show "same_waits_but (wt_id w) (sc_waits s) (sc_waits s')"
    using cases C(1,2) by (auto simp: same_waits_but_def close_wait_facts release_wait_facts map_option.identity)
  assume "wait_of (wt_id w) (sc_waits s) = Some q" "claimable now q"
  from C(3) [OF this] cases show "settled_as b (wt_id w) (sc_waits s')"
    by (auto simp: settled_as_def close_wait_facts release_wait_facts)
qed

text \<open>A tick over a list of claimable waits settles each of them and touches no other.\<close>

definition settled :: "nat \<Rightarrow> wait list \<Rightarrow> bool" where
  "settled i ws \<longleftrightarrow> settled_as True i ws \<or> settled_as False i ws"

lemma settled_same: "wait_of i ws' = wait_of i ws \<Longrightarrow> settled_as b i ws' = settled_as b i ws"
  by (simp add: settled_as_def)

lemma settled_as_unique: "settled_as b i ws \<Longrightarrow> settled_as c i ws \<longleftrightarrow> c = b"
  by (cases b; cases c; cases "wait_of i ws") (auto simp: settled_as_def)

lemma tick_all_facts:
  assumes "tick_all drv now ws s = (Inr k, s')" "unique_waits (sc_waits s)" "distinct (map wt_id ws)"
    and "\<forall>w \<in> set ws. \<exists>q. wait_of (wt_id w) (sc_waits s) = Some q \<and> claimable now q"
  shows "map wt_id (sc_waits s') = map wt_id (sc_waits s)
    \<and> (\<forall>i. i \<notin> wt_id ` set ws \<longrightarrow> wait_of i (sc_waits s') = wait_of i (sc_waits s))
    \<and> (\<forall>w \<in> set ws. settled (wt_id w) (sc_waits s'))
    \<and> k = length (filter (\<lambda>w. settled_as True (wt_id w) (sc_waits s')) ws)"
  using assms
proof (induction ws arbitrary: s k)
  case (Cons w ws)
  from Cons.prems(1) obtain b s1 m where t: "tick_one drv now w s = (Inr b, s1)" "tick_all drv now ws s1 = (Inr m, s')"
      "k = (if b then 1 else 0) + m"
    by (auto split: prod.splits sum.splits)
  note one = tick_one_facts(1) [OF t(1) Cons.prems(2)]
  from Cons.prems(4) tick_one_facts(2) [OF t(1) Cons.prems(2)] have sb: "settled_as b (wt_id w) (sc_waits s1)" by auto
  have un: "unique_waits (sc_waits s1)" using one Cons.prems(2) by (simp add: same_waits_but_def unique_waits_def)
  have keep: "wait_of i (sc_waits s1) = wait_of i (sc_waits s)" if "i \<noteq> wt_id w" for i
    using one that by (simp add: same_waits_but_def)
  have "\<forall>v \<in> set ws. \<exists>q. wait_of (wt_id v) (sc_waits s1) = Some q \<and> claimable now q"
    using Cons.prems(3,4) keep by (metis distinct.simps(2) image_eqI list.set_intros(2) list.set_map list.simps(9))
  from Cons.IH [OF t(2) un _ this] Cons.prems(3) have IH:
    "map wt_id (sc_waits s') = map wt_id (sc_waits s1)"
    "\<And>i. i \<notin> wt_id ` set ws \<Longrightarrow> wait_of i (sc_waits s') = wait_of i (sc_waits s1)"
    "\<And>v. v \<in> set ws \<Longrightarrow> settled (wt_id v) (sc_waits s')"
    "m = length (filter (\<lambda>w. settled_as True (wt_id w) (sc_waits s')) ws)" by auto
  have "wt_id w \<notin> wt_id ` set ws" using Cons.prems(3) by simp
  from settled_same [OF IH(2) [OF this]] sb have w': "settled_as b (wt_id w) (sc_waits s')" by simp
  then have "settled (wt_id w) (sc_waits s')" by (cases b) (auto simp: settled_def)
  moreover have "k = length (filter (\<lambda>w. settled_as True (wt_id w) (sc_waits s')) (w # ws))"
    using IH(4) t(3) settled_as_unique [OF w'] by auto
  moreover have "map wt_id (sc_waits s') = map wt_id (sc_waits s)"
    using IH(1) one by (simp add: same_waits_but_def)
  ultimately show ?case using IH(2,3) keep by auto
qed simp

lemma wait_of_member: "unique_waits ws \<Longrightarrow> w \<in> set ws \<Longrightarrow> wait_of (wt_id w) ws = Some w"
  by (induction ws) (auto simp: wait_of_def unique_waits_def image_iff)

text \<open>
  Catching up loses no wait: when a tick ends, every wait that was due when it
  started is fired, or pending again because its drive ended in an unexpected exception (so
  the next tick retries it), none is stranded as claimed; the rows of all other waits are
  untouched, no row is added or dropped, and the count returned is that of the fired ones.
\<close>

theorem tick_catches_up:
  assumes "tick drv now s = (Inr k, s')" "unique_waits (sc_waits s)"
  shows "map wt_id (sc_waits s') = map wt_id (sc_waits s)
    \<and> (\<forall>w \<in> set (sc_waits s).
        if wt_fire_at w \<le> now \<and> claimable now w then settled (wt_id w) (sc_waits s')
        else wait_of (wt_id w) (sc_waits s') = Some w)
    \<and> k = length (filter (\<lambda>w. wt_fire_at w \<le> now \<and> claimable now w \<and> settled_as True (wt_id w) (sc_waits s')) (sc_waits s))"
proof -
  let ?due = "filter (\<lambda>w. wt_fire_at w \<le> now \<and> claimable now w) (sc_waits s)"
  have set: "set (due now (sc_waits s)) = set ?due" by (simp add: due_def)
  have "mset (map wt_id (due now (sc_waits s))) = mset (map wt_id ?due)"
    unfolding due_def mset_map mset_sort ..
  then have "distinct (map wt_id (due now (sc_waits s))) = distinct (map wt_id ?due)" by (rule mset_eq_imp_distinct_iff)
  moreover have "distinct (map wt_id ?due)" using assms(2) unfolding unique_waits_def by (rule distinct_map_filter)
  ultimately have dist: "distinct (map wt_id (due now (sc_waits s)))" by simp
  have "\<forall>w \<in> set (due now (sc_waits s)). \<exists>q. wait_of (wt_id w) (sc_waits s) = Some q \<and> claimable now q"
    using wait_of_member [OF assms(2)] unfolding set by auto
  from tick_all_facts [OF assms(1) [unfolded tick_def] assms(2) dist this]
  have T: "map wt_id (sc_waits s') = map wt_id (sc_waits s)"
    "\<And>i. i \<notin> wt_id ` set ?due \<Longrightarrow> wait_of i (sc_waits s') = wait_of i (sc_waits s)"
    "\<And>w. w \<in> set ?due \<Longrightarrow> settled (wt_id w) (sc_waits s')"
    "k = length (filter (\<lambda>w. settled_as True (wt_id w) (sc_waits s')) (due now (sc_waits s)))"
    unfolding set by blast+
  have other: "wait_of (wt_id w) (sc_waits s') = Some w" if "w \<in> set (sc_waits s)" "w \<notin> set ?due" for w
  proof -
    have "wt_id w \<notin> wt_id ` set ?due"
      using that assms(2) unfolding unique_waits_def by (auto simp: distinct_map inj_on_def)
    with T(2) wait_of_member [OF assms(2) that(1)] show ?thesis by simp
  qed
  have "mset (filter P (due now (sc_waits s))) = mset (filter P ?due)" for P
    unfolding due_def mset_filter mset_sort ..
  then have "length (filter P (due now (sc_waits s))) = length (filter P ?due)" for P by (metis size_mset)
  with T(1,3,4) other show ?thesis by (auto simp: filter_filter conj_ac)
qed

theorem tick_catches_up_witness:
  "let w = new_wait 1 [] [110] (u ''timer'') 5 0; v = new_wait 2 [] [111] (u ''timer'') 9 0;
       s = \<lparr>sc_waits = [w, v], sc_next = 3, sc_world = \<lparr>wd_actions = empty_db, wd_jobs = []\<rparr>\<rparr> in
     fst (tick (\<lambda>n wd. (refused [], wd)) 6 s) = Inr 1
     \<and> wait_of 2 (sc_waits (snd (tick (\<lambda>n wd. (refused [], wd)) 6 s))) = Some v"
proof -
  let ?w = "new_wait 1 [] [110] (u ''timer'') 5 0" and ?v = "new_wait 2 [] [111] (u ''timer'') 9 0"
  let ?s = "\<lparr>sc_waits = [?w, ?v], sc_next = 3, sc_world = \<lparr>wd_actions = empty_db, wd_jobs = []\<rparr>\<rparr>"
  obtain r s' where t: "tick (\<lambda>n wd. (refused [], wd)) 6 ?s = (r, s')" by fastforce
  have "due 6 [?w, ?v] = [?w]" by (simp add: due_def new_wait_def claimable_def)
  with t have r: "r = Inr 1"
    by (auto simp: tick_def tick_one_def claim_wait_def update_wait_def new_wait_def claimable_def refused_def is_refused_def
        surface_def)
  have "unique_waits (sc_waits ?s)" by (simp add: unique_waits_def new_wait_def)
  from tick_catches_up [OF t [unfolded r] this] have "wait_of (wt_id ?v) (sc_waits s') = Some ?v"
    by (auto simp: new_wait_def)
  moreover have "wt_id ?v = 2" by (simp add: new_wait_def)
  ultimately show ?thesis using t r unfolding Let_def by simp
qed

end
