(* ===== verification/Mandate.thy ===== *)
theory Mandate
  imports Jobs Regex
begin

text \<open>
  \<open>harness/mandate.py\<close>: plain words in, one job out. The model provider and the JSON decoder
  are arguments: \<open>provider\<close> answers \<open>None\<close> where the call raises, and \<open>loads\<close> is \<open>None\<close> where
  \<open>json.loads\<close> raises. Whatever the model says, a compiled job names a registered capability
  and carries a leash that permits that capability and its family only.
\<close>

subsection \<open>Cues\<close>

definition cn_note_that :: pystr where "cn_note_that = [0x8BB0, 0x4E00, 0x4E0B]"
definition cn_note :: pystr where "cn_note = [0x8BB0]"
definition cn_record :: pystr where "cn_record = [0x8BB0, 0x5F55]"
definition cn_memo :: pystr where "cn_memo = [0x5907, 0x5FD8]"
definition cn_remind :: pystr where "cn_remind = [0x63D0, 0x9192]"
definition cn_todo :: pystr where "cn_todo = [0x5F85, 0x529E]"
definition cn_checklist :: pystr where "cn_checklist = [0x6E05, 0x5355]"
definition cn_call_me :: pystr where "cn_call_me = [0x53EB, 0x6211]"

definition colons :: "nat list" where
  "colons = [58, 0xFF1A]"

definition note_cue :: rex where
  "note_cue = ralts [RLit cn_note_that, RSeq (RLit cn_note) (ROne colons), RLit cn_record, RLit cn_memo, RLit cn_todo,
     RLit cn_checklist, RLit (u ''note''), RLit (u ''todo''), RLit (u ''jot''), RLit (u ''remember''),
     rseqs [RLit (u ''write ''), opt_re (words_re [''this '', ''it '']), RLit (u ''down'')], RLit (u ''save this''),
     rseqs [RLit (u ''add to ''), opt_re (RLit (u ''my '')), words_re [''list'', ''todo'']]]"

definition remind_cue :: rex where
  "remind_cue = ralts [RLit cn_remind, RLit cn_call_me, RLit (u ''remind me''), RLit (u ''wake me''),
     RSeq (RLit (u ''set a '')) (words_re [''timer'', ''alarm'', ''reminder''])]"

text \<open>
  \<open>_NOTE_PREFIX.sub("", text)\<close>: the white space, the first alternative that matches with its
  optional characters, and the white space after it. No alternative starts with a space, so
  the greedy reading is the only one.
\<close>

definition drop_one :: "nat list \<Rightarrow> pystr \<Rightarrow> pystr" where
  "drop_one cs s = (case s of c # t \<Rightarrow> if List.member cs c then t else s | [] \<Rightarrow> [])"

definition prefix_rest :: "pystr \<Rightarrow> pystr option" where
  "prefix_rest s =
     (if lit_at cn_note_that s then Some (drop 3 s)
      else if lit_at cn_note s \<and> (case drop 1 s of c # _ \<Rightarrow> List.member colons c | [] \<Rightarrow> False) then Some (drop 2 s)
      else if lit_at cn_memo s then Some (drop_one colons (drop 2 s))
      else if lit_at (u ''note'') s then Some (drop_one colons (drop 4 s))
      else if lit_at (u ''todo'') s then Some (drop_one colons (drop 4 s))
      else if lit_at cn_remind s then Some (drop_one colons (drop_one [0x6211] (drop 2 s)))
      else None)"

definition drop_note_prefix :: "pystr \<Rightarrow> pystr" where
  "drop_note_prefix text =
     (case prefix_rest (dropWhile space_cp text) of None \<Rightarrow> text | Some rest \<Rightarrow> dropWhile space_cp rest)"

subsection \<open>The compiled job\<close>

record mandate =
  md_capability :: "pystr option"
  md_args :: json
  md_goal :: json
  md_leash :: pydict
  md_clarify :: pystr
  md_source :: pystr

definition no_job :: "string \<Rightarrow> string \<Rightarrow> mandate" where
  "no_job clarify source = \<lparr>md_capability = None, md_args = JNull, md_goal = JNull, md_leash = [], md_clarify = u clarify,
     md_source = u source\<rparr>"

definition catalog_line :: "'r capability \<Rightarrow> pystr" where
  "catalog_line c = u ''- '' @ cp_name c @ u '' ('' @ (if cp_reversible c then u ''reversible'' else u ''IRREVERSIBLE'') @ u ''): ''
     @ cp_description c @ u ''  args: '' @ or_str (cp_args_hint c) (u ''{}'')"

definition catalog :: "'r registry \<Rightarrow> pystr" where
  "catalog reg = or_str (join [10] (map catalog_line (all_capabilities reg))) (u ''(none registered)'')"

definition required_arg :: "(pystr \<times> pystr) list" where
  "required_arg = [(u ''note.append'', u ''text''), (u ''translate'', u ''text''), (u ''web.summarize'', u ''url''),
     (u ''research.web'', u ''query'')]"

text \<open>\<open>None\<close> where the arguments are a true value that is not an object: \<open>get\<close> raises.\<close>

definition args_ok :: "pystr \<Rightarrow> json \<Rightarrow> bool option" where
  "args_ok capability args =
     (case map_of required_arg capability of
        None \<Rightarrow> Some True
      | Some req \<Rightarrow>
          (case args of
             JObj d \<Rightarrow> Some (case dget_null d req of JStr s \<Rightarrow> strip s \<noteq> [] | _ \<Rightarrow> False)
           | v \<Rightarrow> if truthy v then None else Some False))"

definition family_of :: "pystr \<Rightarrow> pystr" where
  "family_of capability = or_str (takeWhile (\<lambda>c. c \<noteq> 46) capability) capability"

definition leash_for :: "pystr \<Rightarrow> pydict" where
  "leash_for capability =
     [(u ''may'', JList (map JStr (sorted_strs (dedup [capability, family_of capability @ u ''.*'']))))]"

definition heuristic_job :: "pystr \<Rightarrow> pydict \<Rightarrow> pystr \<Rightarrow> mandate" where
  "heuristic_job capability args goal = \<lparr>md_capability = Some capability, md_args = JObj args, md_goal = JStr goal,
     md_leash = leash_for capability, md_clarify = [], md_source = u ''heuristic''\<rparr>"

definition note_body :: "pystr \<Rightarrow> pystr" where
  "note_body text = or_str (strip (drop_note_prefix text)) (strip text)"

definition note_file :: "pyhost \<Rightarrow> pystr \<Rightarrow> pystr" where
  "note_file H text =
     (if list_ex (\<lambda>w. has_sub w (py_lower H text)) [u ''todo'', cn_todo, cn_checklist, u ''list'']
      then u ''todo.txt'' else u ''notes.txt'')"

definition registered :: "'r registry \<Rightarrow> pystr \<Rightarrow> bool" where
  "registered reg name \<longleftrightarrow> get_capability reg name \<noteq> None"

definition heuristic :: "pyhost \<Rightarrow> 'r registry \<Rightarrow> pystr \<Rightarrow> mandate" where
  "heuristic H reg text =
     (if registered reg (u ''reminder.set'') \<and> search H remind_cue text
      then heuristic_job (u ''reminder.set'') [(u ''text'', JStr (note_body text)), (u ''at'', JStr text)]
             (or_str (take 60 (note_body text)) (u ''reminder''))
      else if registered reg (u ''note.append'') \<and> search H note_cue text
      then heuristic_job (u ''note.append'') [(u ''file'', JStr (note_file H text)), (u ''text'', JStr (note_body text))]
             (or_str (take 60 (note_body text)) (u ''take a note''))
      else if registered reg (u ''research.web'')
      then heuristic_job (u ''research.web'') [(u ''query'', JStr text)] (or_str (take 60 text) (u ''research''))
      else no_job ''no capabilities are registered'' ''heuristic'')"

text \<open>\<open>\{.*\}\<close> over the whole text: from the first opening brace to the last closing one.\<close>

definition brace_span :: "pystr \<Rightarrow> pystr option" where
  "brace_span txt =
     (let t = dropWhile (\<lambda>c. c \<noteq> 123) txt; r = rev (dropWhile (\<lambda>c. c \<noteq> 125) (rev t)) in
      if t = [] \<or> length r < 2 then None else Some r)"

definition parse_plan :: "(pystr \<Rightarrow> json option) \<Rightarrow> pystr \<Rightarrow> json option" where
  "parse_plan loads txt = (case brace_span txt of None \<Rightarrow> None | Some s \<Rightarrow> loads s)"

record completion =
  co_stop :: pystr
  co_text :: pystr

text \<open>The model's plan as a job, \<open>None\<close> where it is unusable or a step raises.\<close>

definition plan_job :: "'r registry \<Rightarrow> pystr \<Rightarrow> json option \<Rightarrow> mandate option" where
  "plan_job reg text plan =
     (case plan of
        Some (JObj d) \<Rightarrow>
          (case dget_null d (u ''capability'') of
             JStr cap \<Rightarrow>
               if cap \<noteq> [] \<and> registered reg cap \<and> args_ok cap (dget_null d (u ''args'')) = Some True
               then Some \<lparr>md_capability = Some cap, md_args = or_json (dget_null d (u ''args'')) (JObj []),
                      md_goal = or_json (dget_null d (u ''goal'')) (JStr (take 60 text)), md_leash = leash_for cap,
                      md_clarify = [], md_source = u ''model''\<rparr>
               else None
           | _ \<Rightarrow> None)
      | _ \<Rightarrow> None)"

definition compile_mandate :: "pyhost \<Rightarrow> (pystr \<Rightarrow> json option) \<Rightarrow> 'r registry \<Rightarrow> (pystr \<Rightarrow> pystr \<Rightarrow> completion option) option
    \<Rightarrow> pystr \<Rightarrow> pystr \<Rightarrow> mandate" where
  "compile_mandate H loads reg provider system raw =
     (let text = strip raw in
      if text = [] then no_job ''Tell me what to do.'' ''empty''
      else
        (case provider of
           None \<Rightarrow> heuristic H reg text
         | Some ask \<Rightarrow>
             (case ask (system @ catalog reg) text of
                None \<Rightarrow> heuristic H reg text
              | Some co \<Rightarrow>
                  if co_stop co = u ''error'' then heuristic H reg text
                  else (case plan_job reg text (parse_plan loads (co_text co)) of
                      Some m \<Rightarrow> m | None \<Rightarrow> heuristic H reg text))))"

lemma strip_idem [simp]: "strip (strip s) = strip s"
proof -
  have dw: "dropWhile space_cp (dropWhile space_cp t) = dropWhile space_cp t" for t by (simp add: dropWhile_idem)
  have tail: "dropWhile space_cp (rev (dropWhile space_cp (rev t))) = rev (dropWhile space_cp (rev t))"
    if "t = [] \<or> \<not> space_cp (hd t)" for t
  proof (cases "rev (dropWhile space_cp (rev t)) = []")
    case False
    have "rev t = takeWhile space_cp (rev t) @ dropWhile space_cp (rev t)" by simp
    then have "t = rev (dropWhile space_cp (rev t)) @ rev (takeWhile space_cp (rev t))" by (metis rev_append rev_rev_ident)
    then have "hd (rev (dropWhile space_cp (rev t))) = hd t" "t \<noteq> []" using False by (metis hd_append2, auto)
    with that False show ?thesis by (metis dropWhile.simps(2) list.collapse)
  next
    case True
    show ?thesis unfolding True by simp
  qed
  have "dropWhile space_cp s = [] \<or> \<not> space_cp (hd (dropWhile space_cp s))" by (metis hd_dropWhile)
  from tail [OF this] show ?thesis unfolding strip_def by (simp add: dw)
qed

lemma note_body_text: "text \<noteq> [] \<Longrightarrow> strip text = text \<Longrightarrow> strip (note_body text) \<noteq> []"
  by (simp add: note_body_def or_str_def)

lemma heuristic_facts:
  assumes "md_capability (heuristic H reg text) = Some cap" "text \<noteq> []" "strip text = text"
  shows "registered reg cap \<and> args_ok cap (md_args (heuristic H reg text)) = Some True
    \<and> md_leash (heuristic H reg text) = leash_for cap"
  using assms note_body_text [OF assms(2,3)]
  by (auto simp: heuristic_def heuristic_job_def no_job_def args_ok_def required_arg_def u_def split: if_splits)

lemma plan_facts:
  assumes "plan_job reg text plan = Some m"
  shows "\<exists>cap args. md_capability m = Some cap \<and> registered reg cap \<and> args_ok cap args = Some True
    \<and> md_args m = or_json args (JObj []) \<and> md_leash m = leash_for cap"
  using assms by (auto simp: plan_job_def split: option.splits json.splits if_splits)

lemma args_ok_or: "args_ok cap args = Some True \<Longrightarrow> args_ok cap (or_json args (JObj [])) = Some True"
  by (cases args) (auto simp: args_ok_def or_json_def split: option.splits if_splits)

lemma family_no_wild: "list_all (\<lambda>c. \<not> wild_cp c) cap \<Longrightarrow> list_all (\<lambda>c. \<not> wild_cp c) (family_of cap)"
  by (auto simp: family_of_def or_str_def list_all_iff dest: set_takeWhileD)

lemma leash_for_permits:
  assumes "cap \<noteq> []" "list_all (\<lambda>c. \<not> wild_cp c) cap"
  shows "job_leash_answer H (leash_for cap) cap risk = (if List.member irreversible_risks risk then L_ASK else L_ALLOW)"
proof -
  have texts: "list_all nonempty_text (map JStr (sorted_strs (dedup [cap, family_of cap @ u ''.*''])))"
    using assms(1) by (auto simp: list_all_iff nonempty_text_def u_def)
  have pats: "leash_patterns (leash_for cap) = sorted_strs (dedup [cap, family_of cap @ u ''.*''])"
    by (simp add: leash_patterns_def leash_for_def dget_def comp_def)
  have "list_ex (fnmatchcase cap) (leash_patterns (leash_for cap))"
    unfolding pats using assms(2) by (auto simp: list_ex_iff fnmatchcase_literal)
  then show ?thesis
    using assms(1) texts
    by (simp add: job_leash_answer_def evaluate_leash_def validate_leash_def leash_for_def dget_def may_ok_def spend_value_def
        leash_expires_def leash_cap_def leash_mode_def u_def)
qed

lemma leash_for_denies:
  assumes "list_all (\<lambda>c. \<not> wild_cp c) cap" "c \<noteq> cap" "\<not> starts_with c (family_of cap @ u ''.'')"
  shows "job_leash_answer H (leash_for cap) c risk = L_DENY"
proof -
  have pats: "leash_patterns (leash_for cap) = sorted_strs (dedup [cap, family_of cap @ u ''.*''])"
    by (simp add: leash_patterns_def leash_for_def dget_def comp_def)
  have "u ''.*'' = u ''.'' @ [42]" by (simp add: u_def)
  moreover have "list_all (\<lambda>c. \<not> wild_cp c) (family_of cap @ u ''.'')"
    using family_no_wild [OF assms(1)] by (simp add: u_def wild_cp_def)
  ultimately have "fnmatchcase c (family_of cap @ u ''.*'') = starts_with c (family_of cap @ u ''.'')"
    using fnmatchcase_prefix_star by (metis append.assoc)
  then have "\<not> list_ex (fnmatchcase c) (leash_patterns (leash_for cap))"
    unfolding pats using assms by (auto simp: list_ex_iff fnmatchcase_literal)
  then show ?thesis
    by (auto simp: job_leash_answer_def evaluate_leash_def leash_for_def dget_def spend_value_def split: sum.splits)
      (auto simp: validate_leash_def dget_def may_ok_def leash_for_def split: if_splits)
qed

lemma compiled_facts:
  assumes "md_capability (compile_mandate H loads reg provider system raw) = Some cap"
  shows "registered reg cap \<and> args_ok cap (md_args (compile_mandate H loads reg provider system raw)) = Some True
    \<and> md_leash (compile_mandate H loads reg provider system raw) = leash_for cap"
proof -
  let ?t = "strip raw" and ?m = "compile_mandate H loads reg provider system raw"
  have t: "?t \<noteq> []" "strip ?t = ?t" using assms by (auto simp: compile_mandate_def no_job_def Let_def)
  have "?m = heuristic H reg ?t \<or> (\<exists>plan. plan_job reg ?t plan = Some ?m)"
    using t(1) by (auto simp: compile_mandate_def Let_def split: option.splits)
  then show ?thesis
  proof
    assume "?m = heuristic H reg ?t"
    with heuristic_facts [OF _ t] assms show ?thesis by metis
  next
    assume "\<exists>plan. plan_job reg ?t plan = Some ?m"
    with plan_facts args_ok_or assms show ?thesis by (metis option.inject)
  qed
qed

text \<open>
  A mandate never invents authority: whatever the model answered, a compiled job
  names a registered capability with the argument that capability cannot run without, and its
  leash lets the executor run that capability (asking first when the risk is irreversible)
  and denies every capability that is neither it nor of its family.
\<close>

theorem mandate_is_scoped:
  assumes "md_capability (compile_mandate H loads reg provider system raw) = Some cap"
    and "list_all (\<lambda>c. \<not> wild_cp c) cap" "cap \<noteq> []"
  shows "registered reg cap
    \<and> args_ok cap (md_args (compile_mandate H loads reg provider system raw)) = Some True
    \<and> job_leash_answer H (md_leash (compile_mandate H loads reg provider system raw)) cap risk
        = (if List.member irreversible_risks risk then L_ASK else L_ALLOW)
    \<and> (\<forall>c. c \<noteq> cap \<longrightarrow> \<not> starts_with c (family_of cap @ u ''.'')
        \<longrightarrow> job_leash_answer H (md_leash (compile_mandate H loads reg provider system raw)) c risk = L_DENY)"
  using compiled_facts [OF assms(1)] leash_for_permits [OF assms(3,2)] leash_for_denies [OF assms(2)] by auto

theorem mandate_is_scoped_witness:
  "let m = compile_mandate ascii_host (\<lambda>_. Some (JObj [(u ''capability'', JStr (u ''note.append'')), (u ''args'', JObj [(u ''text'', JStr (u ''milk''))])]))
             [(u ''note.append'', demo_capability)] (Some (\<lambda>_ _. Some \<lparr>co_stop = [], co_text = u ''{}''\<rparr>)) [] (u ''buy milk'') in
     md_capability m = Some (u ''note.append'')
     \<and> job_leash_answer ascii_host (md_leash m) (u ''note.append'') (u ''send'') = L_ASK
     \<and> job_leash_answer ascii_host (md_leash m) (u ''mail.send'') (u ''send'') = L_DENY"
proof -
  let ?m = "compile_mandate ascii_host (\<lambda>_. Some (JObj [(u ''capability'', JStr (u ''note.append'')), (u ''args'', JObj [(u ''text'', JStr (u ''milk''))])]))
             [(u ''note.append'', demo_capability)] (Some (\<lambda>_ _. Some \<lparr>co_stop = [], co_text = u ''{}''\<rparr>)) [] (u ''buy milk'')"
  have s: "strip (u ''buy milk'') = u ''buy milk''" "strip (u ''milk'') = u ''milk''"
    by (simp_all add: strip_def space_cp_def u_def)
  have cap: "md_capability ?m = Some (u ''note.append'')"
    by (simp add: compile_mandate_def s plan_job_def parse_plan_def brace_span_def registered_def get_capability_def
        args_ok_def required_arg_def Let_def) (simp add: u_def)
  have lit: "list_all (\<lambda>c. \<not> wild_cp c) (u ''note.append'')" "u ''note.append'' \<noteq> []" by (simp_all add: wild_cp_def u_def)
  have far: "u ''mail.send'' \<noteq> u ''note.append''" "\<not> starts_with (u ''mail.send'') (family_of (u ''note.append'') @ u ''.'')"
    "List.member irreversible_risks (u ''send'')"
    by (simp_all add: family_of_def starts_with_def irreversible_risks_def u_def)
  from mandate_is_scoped [OF cap lit, of "u ''send''"] far cap show ?thesis unfolding Let_def by auto
qed

end
