(* ===== verification/Trust.thy ===== *)
theory Trust
  imports Prelude
begin

text \<open>
  \<open>harness/trust.py\<close>: which directories the user trusts, and what a trusted repository may
  have run without asking; \<open>harness/capability_policy.py\<close>: the grants a request carries.
  The file system is an argument: \<open>canon\<close> resolves a path to its one spelling, the trust file
  is the value it decodes to (\<open>None\<close> when it cannot be read or decoded), and \<open>allow_file\<close> is
  the text of a directory's \<open>allow.toml\<close>. So are the settings.
\<close>

subsection \<open>The trust store\<close>

definition trust_load :: "json option \<Rightarrow> pystr list" where
  "trust_load file =
     (case file of
        Some (JObj d) \<Rightarrow>
          (case dget_null d (u ''trusted'') of
             JList vs \<Rightarrow> dedup (concat (map (\<lambda>v. case v of JStr s \<Rightarrow> if s = [] then [] else [s] | _ \<Rightarrow> []) vs))
           | _ \<Rightarrow> [])
      | _ \<Rightarrow> [])"

definition trust_save :: "pystr list \<Rightarrow> json option" where
  "trust_save vals = Some (JObj [(u ''trusted'', JList (map JStr (sorted_strs vals)))])"

definition is_trusted :: "(pystr \<Rightarrow> pystr) \<Rightarrow> json option \<Rightarrow> pystr \<Rightarrow> bool" where
  "is_trusted canon file p \<longleftrightarrow> List.member (trust_load file) (canon p)"

definition trust_list :: "json option \<Rightarrow> pystr list" where
  "trust_list file = sorted_strs (trust_load file)"

definition trust_set :: "(pystr \<Rightarrow> pystr) \<Rightarrow> pystr \<Rightarrow> bool \<Rightarrow> json option \<Rightarrow> pystr \<times> json option" where
  "trust_set canon p trusted file =
     (let c = canon p; vals = trust_load file in
      (c, trust_save (if trusted then (if List.member vals c then vals else c # vals) else filter (\<lambda>v. v \<noteq> c) vals)))"

subsection \<open>What a repository may have run\<close>

definition line_break :: "nat \<Rightarrow> bool" where
  "line_break c \<longleftrightarrow> List.member [10, 11, 12, 13, 28, 29, 30, 133, 8232, 8233] c"

fun split_lines :: "pystr \<Rightarrow> pystr \<Rightarrow> pystr list" where
  "split_lines acc [] = (if acc = [] then [] else [rev acc])"
| "split_lines acc (c # s) =
     (if line_break c
      then rev acc # split_lines [] (if c = 13 \<and> take 1 s = [10] then drop 1 s else s)
      else split_lines (c # acc) s)"

definition before :: "nat \<Rightarrow> pystr \<Rightarrow> pystr" where
  "before d s = takeWhile (\<lambda>c. c \<noteq> d) s"

text \<open>The text between the brackets of \<open>allow = [...]\<close>, \<open>None\<close> when no line opens it.\<close>

fun allow_body :: "pystr list \<Rightarrow> pystr option \<Rightarrow> pystr option" where
  "allow_body [] buf = buf"
| "allow_body (raw # rest) buf =
     (let line = strip (before 35 raw) in
      case buf of
        None \<Rightarrow>
          if starts_with (filter (\<lambda>c. c \<noteq> 32) line) (u ''allow=['')
          then (let b = drop 1 (dropWhile (\<lambda>c. c \<noteq> 91) line) in
                if List.member b 93 then Some (before 93 b) else allow_body rest (Some b))
          else allow_body rest None
      | Some b0 \<Rightarrow>
          (let b = b0 @ [32] @ line in
           if List.member b 93 then Some (before 93 b) else allow_body rest (Some b)))"

definition allow_entry :: "pystr \<Rightarrow> pystr list" where
  "allow_entry raw =
     (let part = strip raw in
      if 2 \<le> length part \<and> List.member [34, 39] (hd part) \<and> last part = hd part
      then (let v = strip (butlast (tl part)) in if v = [] then [] else [v])
      else [])"

definition parse_allow :: "pystr \<Rightarrow> pystr list" where
  "parse_allow text =
     (case allow_body (split_lines [] text) None of
        None \<Rightarrow> []
      | Some buf \<Rightarrow> concat (map allow_entry (split_on 44 buf)))"

definition repo_allowed_commands :: "(pystr \<Rightarrow> pystr) \<Rightarrow> json option \<Rightarrow> (pystr \<Rightarrow> pystr option) \<Rightarrow> pystr \<Rightarrow> pystr list" where
  "repo_allowed_commands canon file allow_file cwd =
     (if \<not> is_trusted canon file cwd then []
      else (case allow_file (canon cwd) of None \<Rightarrow> [] | Some text \<Rightarrow> parse_allow (take 64000 text)))"

lemma trust_load_save: "list_all (\<lambda>v. v \<noteq> []) vals \<Longrightarrow> set (trust_load (trust_save vals)) = set vals"
  by (auto simp: trust_load_def trust_save_def list_all_iff comp_def)

lemma trust_load_nonempty: "v \<in> set (trust_load file) \<Longrightarrow> v \<noteq> []"
  by (auto simp: trust_load_def split: option.splits json.splits if_splits)

lemma trusted_after_set:
  assumes "canon p \<noteq> []"
  shows "set (trust_load (snd (trust_set canon p b file)))
    = (if b then insert (canon p) (set (trust_load file)) else set (trust_load file) - {canon p})"
proof -
  let ?vals = "if b then (if List.member (trust_load file) (canon p) then trust_load file else canon p # trust_load file)
    else filter (\<lambda>v. v \<noteq> canon p) (trust_load file)"
  have "list_all (\<lambda>v. v \<noteq> []) ?vals" using trust_load_nonempty assms by (auto simp: list_all_iff)
  from trust_load_save [OF this] show ?thesis by (auto simp: trust_set_def Let_def)
qed

text \<open>
  Trust is a decision about one directory: setting it for a path decides for
  every spelling of that directory and for no other, and the allow list of a repository is
  empty unless its own directory was trusted, whatever its file holds.
\<close>

theorem trust_is_per_directory:
  assumes "canon p \<noteq> []"
  shows "is_trusted canon (snd (trust_set canon p b file)) q = (if canon q = canon p then b else is_trusted canon file q)
    \<and> (repo_allowed_commands canon (snd (trust_set canon p b file)) allow_file q \<noteq> []
        \<longrightarrow> canon q = canon p \<and> b \<or> canon q \<noteq> canon p \<and> is_trusted canon file q)"
  using trusted_after_set [of canon p, OF assms]
  by (auto simp: is_trusted_def repo_allowed_commands_def split: if_splits)

theorem trust_is_per_directory_witness:
  "is_trusted id (snd (trust_set id (u ''/r'') True None)) (u ''/r'')
   \<and> \<not> is_trusted id (snd (trust_set id (u ''/r'') True None)) (u ''/s'')"
proof -
  have "id (u ''/r'') \<noteq> []" "u ''/s'' \<noteq> u ''/r''" by (simp_all add: u_def)
  then show ?thesis
    using trust_is_per_directory [of id "u ''/r''" True None "u ''/r''"]
      trust_is_per_directory [of id "u ''/r''" True None "u ''/s''"]
    by (simp add: is_trusted_def trust_load_def)
qed

subsection \<open>The grants of a request\<close>

definition capability_keys :: "pystr list" where
  "capability_keys = [u ''DESKTOP_CONTROL'', u ''SCREEN_CAPTURE'', u ''MCP_MANAGE'', u ''MCP_DISCOVERY'']"

type_synonym policy = "(pystr \<times> bool) list"

text \<open>\<open>setting\<close> is \<open>settings.get(key, "off")\<close> at the time of the call.\<close>

definition current_setting :: "pyhost \<Rightarrow> (pystr \<Rightarrow> pystr) \<Rightarrow> pystr \<Rightarrow> bool" where
  "current_setting H setting key = List.member [u ''1'', u ''on'', u ''true'', u ''yes''] (py_lower H (setting key))"

definition snapshot :: "pyhost \<Rightarrow> (pystr \<Rightarrow> pystr) \<Rightarrow> policy" where
  "snapshot H setting = map (\<lambda>k. (k, current_setting H setting k)) capability_keys"

definition freeze :: "pyhost \<Rightarrow> (pystr \<Rightarrow> pystr) \<Rightarrow> json" where
  "freeze H setting = JObj [(u ''version'', JInt 1), (u ''values'', JObj (map (\<lambda>(k, b). (k, JBool b)) (snapshot H setting)))]"

definition is_one :: "json \<Rightarrow> bool" where
  "is_one v = (case v of JInt i \<Rightarrow> i = 1 | JBool b \<Rightarrow> b | JFloat (Fin q) \<Rightarrow> q = 1 | _ \<Rightarrow> False)"

definition policy_of :: "pydict \<Rightarrow> policy option" where
  "policy_of d =
     (if set (map fst d) = set capability_keys \<and> list_all (\<lambda>(k, v). case v of JBool _ \<Rightarrow> True | _ \<Rightarrow> False) d
      then Some (map (\<lambda>(k, v). (k, v = JBool True)) d) else None)"

definition from_payload :: "pyhost \<Rightarrow> (pystr \<Rightarrow> pystr) \<Rightarrow> json \<Rightarrow> policy result" where
  "from_payload H setting payload =
     (case payload of
        JNull \<Rightarrow> Inr (snapshot H setting)
      | JObj d \<Rightarrow>
          if \<not> is_one (dget_null d (u ''version'')) then Inl (ValueError ''unsupported saved capability policy'')
          else (case dget_null d (u ''values'') of
              JObj vs \<Rightarrow> (case policy_of vs of Some p \<Rightarrow> Inr p | None \<Rightarrow> Inl (ValueError ''incomplete or invalid saved capability policy''))
            | _ \<Rightarrow> Inl (ValueError ''incomplete or invalid saved capability policy''))
      | _ \<Rightarrow> Inl (ValueError ''unsupported saved capability policy''))"

text \<open>
  A context is \<open>None\<close> when the caller has none, \<open>Some None\<close> before a legacy embedder's first
  call. The result is the answer and the context after the call.
\<close>

definition policy_in :: "pyhost \<Rightarrow> (pystr \<Rightarrow> pystr) \<Rightarrow> policy option \<Rightarrow> policy" where
  "policy_in H setting ctx = (case ctx of None \<Rightarrow> snapshot H setting | Some p \<Rightarrow> p)"

definition allowed :: "pyhost \<Rightarrow> (pystr \<Rightarrow> pystr) \<Rightarrow> pystr \<Rightarrow> policy option option \<Rightarrow> bool \<times> policy option option" where
  "allowed H setting key ctx =
     (if \<not> List.member capability_keys key then (False, ctx)
      else (case ctx of
          None \<Rightarrow> (current_setting H setting key, None)
        | Some c \<Rightarrow> let p = policy_in H setting c in
            (current_setting H setting key \<and> map_of p key = Some True, Some (Some p))))"

definition grant_capability :: "pyhost \<Rightarrow> (pystr \<Rightarrow> pystr) \<Rightarrow> pystr \<Rightarrow> policy option option \<Rightarrow> policy result" where
  "grant_capability H setting key ctx =
     (case ctx of
        None \<Rightarrow> Inl (ValueError ''A capability grant needs the requesting tool context'')
      | Some c \<Rightarrow>
          if \<not> List.member capability_keys key then Inl (ValueError ''A capability grant needs the requesting tool context'')
          else if \<not> current_setting H setting key
          then Inl (ValueError ''The capability remains disabled by the effective settings or environment'')
          else Inr ((key, True) # policy_in H setting c))"

text \<open>
  A request asks for a capability again and again while the settings change: each call reads
  the settings of its moment.
\<close>

fun ask_again :: "pyhost \<Rightarrow> pystr \<Rightarrow> (pystr \<Rightarrow> pystr) list \<Rightarrow> policy option option \<Rightarrow> bool list" where
  "ask_again H key [] ctx = []"
| "ask_again H key (setting # later) ctx =
     (case allowed H setting key ctx of (ok, ctx') \<Rightarrow> ok # ask_again H key later ctx')"

lemma map_of_snapshot: "List.member capability_keys key \<Longrightarrow> map_of (snapshot H setting) key = Some (current_setting H setting key)"
  by (auto simp: snapshot_def map_of_map_restrict restrict_map_def)

lemma ask_again_policy:
  "List.member capability_keys key
   \<Longrightarrow> ask_again H key settings (Some (Some p)) = map (\<lambda>s. current_setting H s key \<and> map_of p key = Some True) settings"
  by (induction settings) (simp_all add: allowed_def policy_in_def Let_def)

text \<open>
  A request keeps the authority it started with and no more: of all its later
  checks of one capability, each is allowed exactly when the settings of that moment enable
  it and the policy the request carries (the snapshot of its first call, when it carried
  none) grants it. Enabling a setting mid-run gives a running request nothing, and disabling
  it revokes at once.
\<close>

theorem requests_gain_nothing:
  assumes "key \<in> set capability_keys"
  shows "ask_again H key settings (Some (Some p)) = map (\<lambda>s. current_setting H s key \<and> map_of p key = Some True) settings
    \<and> ask_again H key (first # settings) (Some None)
        = map (\<lambda>s. current_setting H s key \<and> current_setting H first key) (first # settings)
    \<and> (grant_capability H first key (Some (Some p)) = Inr p' \<longrightarrow> current_setting H first key)"
proof -
  have key: "List.member capability_keys key" using assms by simp
  note A = ask_again_policy [OF key]
  have "ask_again H key (first # settings) (Some None)
      = map (\<lambda>s. current_setting H s key \<and> current_setting H first key) (first # settings)"
    using key by (simp add: allowed_def policy_in_def Let_def map_of_snapshot A)
  then show ?thesis using A by (simp add: grant_capability_def split: if_splits)
qed

theorem requests_gain_nothing_witness:
  "ask_again ascii_host (u ''MCP_MANAGE'') [\<lambda>_. u ''off'', \<lambda>_. u ''on'', \<lambda>_. u ''on''] (Some None) = [False, False, False]
   \<and> ask_again ascii_host (u ''MCP_MANAGE'') [\<lambda>_. u ''on'', \<lambda>_. u ''off'', \<lambda>_. u ''on''] (Some None) = [True, False, True]"
proof -
  have m: "u ''MCP_MANAGE'' \<in> set capability_keys" by (simp add: capability_keys_def)
  have c: "\<not> current_setting ascii_host (\<lambda>_. u ''off'') k" "current_setting ascii_host (\<lambda>_. u ''on'') k" for k
    by (simp_all add: current_setting_def py_lower_def lower_cp_def u_def)
  note R = requests_gain_nothing [where H = ascii_host, OF m]
  from R [of "[\<lambda>_. u ''on'', \<lambda>_. u ''on'']" "[]" "\<lambda>_. u ''off''"] R [of "[\<lambda>_. u ''off'', \<lambda>_. u ''on'']" "[]" "\<lambda>_. u ''on''"]
  show ?thesis by (simp add: c)
qed

end
