(* ===== verification/Delegation.thy ===== *)
theory Delegation
  imports Jobs
begin

text \<open>
  The authority half of \<open>harness/tasktree.py\<close>: the leash of a specialist is a subset of its
  parent's (\<open>_validated_leash\<close>, \<open>narrow_leash\<close>), its resources lie within its parent's
  (\<open>_normalize_resource\<close>, \<open>_resource_contains\<close>), and what it returns are bounded references
  (\<open>normalize_artifact_refs\<close>). Numbers are the rationals the floats stand for;
  \<open>canon\<close> is \<open>os.path.realpath(os.path.abspath(p))\<close>.
\<close>

subsection \<open>Equality of JSON values\<close>

text \<open>
  Python's \<open>==\<close>: \<open>True == 1 == 1.0\<close>, and dictionaries compare without order. Two values are
  equal when their normal forms are (for finite numbers, the only ones the stores keep).
\<close>

fun json_norm :: "json \<Rightarrow> json" where
  "json_norm (JBool b) = JInt (if b then 1 else 0)"
| "json_norm (JFloat (Fin q)) = (if q = of_int \<lfloor>q\<rfloor> then JInt \<lfloor>q\<rfloor> else JFloat (Fin q))"
| "json_norm (JList xs) = JList (map json_norm xs)"
| "json_norm (JObj d) = JObj (sorted_pairs (map (\<lambda>(k, v). (k, json_norm v)) d))"
| "json_norm v = v"

definition json_same :: "json \<Rightarrow> json \<Rightarrow> bool" where
  "json_same a b \<longleftrightarrow> json_norm a = json_norm b"

lemma json_same_refl [simp]: "json_same a a"
  by (simp add: json_same_def)

subsection \<open>Leashes of the run tree\<close>

definition leash_integer_caps :: "pystr list" where
  "leash_integer_caps = map u [''max_total_steps'', ''max_irreversible_actions'', ''actions_per_hour'',
     ''max_model_tokens'', ''max_model_calls'', ''max_active_wall_seconds'', ''max_elapsed_seconds'', ''max_step_seconds'',
     ''max_retries'', ''max_storage_bytes'', ''checkpoint_keep'', ''human_escalate_seconds'', ''human_timeout_seconds'',
     ''max_specialists'', ''max_specialist_depth'']"

definition leash_number_caps :: "pystr list" where
  "leash_number_caps = map u [''spend_max_usd'', ''max_model_cost_usd'']"

definition numeric_cap :: "pystr \<Rightarrow> bool" where
  "numeric_cap k \<longleftrightarrow> List.member leash_integer_caps k \<or> List.member leash_number_caps k"

definition cap_ok :: "pystr \<Rightarrow> json \<Rightarrow> bool" where
  "cap_ok k v = (case spend_value v of None \<Rightarrow> False | Some q \<Rightarrow> List.member leash_integer_caps k \<longrightarrow> q = of_int \<lfloor>q\<rfloor>)"

definition normal_cap :: "pystr \<Rightarrow> json \<Rightarrow> json" where
  "normal_cap k v =
     (case spend_value v of
        None \<Rightarrow> v
      | Some q \<Rightarrow> if List.member leash_integer_caps k then JInt \<lfloor>q\<rfloor> else JFloat (Fin q))"

definition validated_leash :: "json \<Rightarrow> pydict result" where
  "validated_leash v =
     (case v of
        JObj d \<Rightarrow>
          if \<not> (case dget d (u ''may'') of None \<Rightarrow> True | Some m \<Rightarrow> may_ok m)
          then Inl (ValueError ''leash.may must be a list of non-empty strings'')
          else if list_ex (\<lambda>(k, v). numeric_cap k \<and> \<not> cap_ok k v) d
          then Inl (ValueError ''leash cap must be finite and non-negative'')
          else Inr (map (\<lambda>(k, v). (k, if numeric_cap k then normal_cap k v else v)) d)
      | _ \<Rightarrow> Inl (ValueError ''leash must be an object''))"

text \<open>The items a \<open>for\<close> loop over \<open>value or []\<close> sees: a list's, a string's characters, a dictionary's keys.\<close>

definition loop_items :: "json \<Rightarrow> (json list) result" where
  "loop_items v =
     (if \<not> truthy v then Inr []
      else case v of JList xs \<Rightarrow> Inr xs | JStr s \<Rightarrow> Inr (map (\<lambda>c. JStr [c]) s) | JObj d \<Rightarrow> Inr (map (JStr \<circ> fst) d)
         | _ \<Rightarrow> Inl (TypeError ''object is not iterable''))"

definition domain_covered :: "pyhost \<Rightarrow> json list \<Rightarrow> json \<Rightarrow> bool" where
  "domain_covered H pats d \<longleftrightarrow> list_ex (\<lambda>p. fnmatchcase (py_str H d) (py_str H p)) pats"

definition narrow_domains :: "pyhost \<Rightarrow> pydict \<Rightarrow> json \<Rightarrow> json result" where
  "narrow_domains H parent v =
     bind_result (loop_items v) (\<lambda>ds.
       bind_result (if ds = [] then Inr [] else loop_items (dget_null parent (u ''allowed_domains''))) (\<lambda>ps.
         if list_all (domain_covered H ps) ds then Inr (JList ds)
         else Inl (ValueError ''specialist domains must be covered by parent domains'')))"

text \<open>Lists and dictionaries are not hashable, so looking them up in a dictionary raises.\<close>

definition unhashable :: "json \<Rightarrow> bool" where
  "unhashable v = (case v of JList _ \<Rightarrow> True | JObj _ \<Rightarrow> True | _ \<Rightarrow> False)"

definition mode_rank :: "json \<Rightarrow> nat option" where
  "mode_rank v =
     (if v = JStr (u ''deny'') then Some 0 else if v = JStr (u ''confirm'') then Some 1
      else if v = JStr (u ''allow'') then Some 2 else None)"

definition parent_rank :: "pydict \<Rightarrow> nat" where
  "parent_rank parent =
     (case mode_rank (case dget parent (u ''irreversible'') of None \<Rightarrow> JStr (u ''confirm'') | Some v \<Rightarrow> v) of
        None \<Rightarrow> 1 | Some n \<Rightarrow> n)"

definition narrow_field :: "pyhost \<Rightarrow> pydict \<Rightarrow> pystr \<Rightarrow> json \<Rightarrow> json result" where
  "narrow_field H parent k v =
     (if numeric_cap k then
        (case dget parent k of
           None \<Rightarrow> Inl (ValueError ''specialist leash introduces parent-unknown authority'')
         | Some pv \<Rightarrow>
             (case (spend_value pv, spend_value v) of
                (Some p, Some c) \<Rightarrow> if p < c then Inl (ValueError ''specialist cap cannot exceed parent'') else Inr v
              | _ \<Rightarrow> Inl (TypeError ''not supported between instances'')))
      else if k = u ''allowed_domains'' then narrow_domains H parent v
      else if k = u ''irreversible'' then
        (if unhashable v \<or> mode_rank v \<noteq> None \<and> (case dget parent k of None \<Rightarrow> False | Some p \<Rightarrow> unhashable p)
         then Inl (TypeError ''unhashable type'')
         else case mode_rank v of
           None \<Rightarrow> Inl (ValueError ''specialist irreversible authority expands parent'')
         | Some n \<Rightarrow> if parent_rank parent < n then Inl (ValueError ''specialist irreversible authority expands parent'') else Inr v)
      else if k = u ''workspace_mode'' then
        (if v \<noteq> JStr (u ''current'') \<and> v \<noteq> JStr (u ''isolated'')
            \<or> dget parent k = Some (JStr (u ''isolated'')) \<and> v \<noteq> JStr (u ''isolated'')
         then Inl (ValueError ''specialist workspace mode expands parent'') else Inr v)
      else if k = u ''expires'' then
        (if truthy (dget_null parent k) \<and> str_lt (py_str H (dget_null parent k)) (py_str H v)
         then Inl (ValueError ''specialist expiry cannot outlive parent'') else Inr v)
      else if json_same v (dget_null parent k) then Inr (dget_null parent k)
      else Inl (ValueError ''specialist field must equal parent''))"

text \<open>A field that must equal the parent's leaves the child's copy of it in place.\<close>

fun narrow_fields :: "pyhost \<Rightarrow> pydict \<Rightarrow> pydict \<Rightarrow> pydict \<Rightarrow> pydict result" where
  "narrow_fields H parent [] child = Inr child"
| "narrow_fields H parent ((k, v) # rest) child =
     (if k = u ''may'' then narrow_fields H parent rest child
      else bind_result (narrow_field H parent k v) (\<lambda>w. narrow_fields H parent rest (dset child k w)))"

definition covered_capability :: "pydict \<Rightarrow> pystr \<Rightarrow> bool" where
  "covered_capability parent name \<longleftrightarrow> list_ex (\<lambda>p. fnmatchcase name p) (leash_patterns parent)"

definition or_empty :: "json \<Rightarrow> json" where
  "or_empty v = or_json v (JObj [])"

definition narrow_leash :: "pyhost \<Rightarrow> json \<Rightarrow> json option \<Rightarrow> pydict result" where
  "narrow_leash H parent_v requested =
     bind_result (validated_leash (or_empty parent_v)) (\<lambda>parent.
       case requested of
         None \<Rightarrow>
           Inr (if dget parent (u ''workspace_mode'') = Some (JStr (u ''current''))
                then dset parent (u ''workspace_mode'') (JStr (u ''isolated'')) else parent)
       | Some rv \<Rightarrow>
           bind_result (validated_leash (or_empty rv)) (\<lambda>req.
             if list_ex (\<lambda>(k, _). dget parent k = None) req
             then Inl (ValueError ''specialist leash introduces parent-unknown authority'')
             else if dget req (u ''may'') \<noteq> None \<and> \<not> list_all (covered_capability parent) (leash_patterns req)
             then Inl (ValueError ''specialist capabilities must be covered by parent leash.may'')
             else narrow_fields H parent req
               (if dget req (u ''may'') = None then parent
                else dset parent (u ''may'') (JList (map JStr (sorted_strs (dedup (leash_patterns req))))))))"

subsection \<open>Resources\<close>

record resource =
  rs_kind :: pystr
  rs_id :: pystr
  rs_write :: bool

definition normalize_resource :: "pyhost \<Rightarrow> (pystr \<Rightarrow> pystr) \<Rightarrow> json \<Rightarrow> resource result" where
  "normalize_resource H canon item =
     bind_result
       (case item of
          JStr s \<Rightarrow>
            if \<not> List.member s 58 then Inl (ValueError ''resource strings use kind:id'')
            else Inr (takeWhile (\<lambda>c. c \<noteq> 58) s, drop 1 (dropWhile (\<lambda>c. c \<noteq> 58) s), u ''write'')
        | JObj d \<Rightarrow> Inr (str_or_empty H (dget_null d (u ''kind'')),
            str_or_empty H (or_json (dget_null d (u ''id'')) (dget_null d (u ''path''))),
            py_str H (or_json (dget_null d (u ''mode'')) (JStr (u ''write''))))
        | _ \<Rightarrow> Inl (ValueError ''resource must be a mapping''))
       (\<lambda>(k, i, m).
          let kind = py_lower H (strip k); ident = strip i; mode = py_lower H (strip m) in
          if kind = [] \<or> ident = [] \<or> mode \<noteq> u ''read'' \<and> mode \<noteq> u ''write''
          then Inl (ValueError ''resource needs kind/id and read|write mode'')
          else Inr \<lparr>rs_kind = kind, rs_id = (if kind = u ''file'' then canon ident else ident), rs_write = (mode = u ''write'')\<rparr>)"

fun normalize_each :: "pyhost \<Rightarrow> (pystr \<Rightarrow> pystr) \<Rightarrow> json list \<Rightarrow> (resource list) result" where
  "normalize_each H canon [] = Inr []"
| "normalize_each H canon (x # xs) =
     bind_result (normalize_resource H canon x) (\<lambda>r. bind_result (normalize_each H canon xs) (\<lambda>rs. Inr (r # rs)))"

definition normalize_resources :: "pyhost \<Rightarrow> (pystr \<Rightarrow> pystr) \<Rightarrow> json list \<Rightarrow> (resource list) result" where
  "normalize_resources H canon items = bind_result (normalize_each H canon items) (\<lambda>rs. Inr (dedup rs))"

text \<open>
  \<open>os.path.commonpath([p, c]) == p\<close>: the parts without empty ones and dots, an error
  (read as \<open>False\<close>) when one path is absolute and the other is not.
\<close>

definition path_parts :: "pystr \<Rightarrow> pystr list" where
  "path_parts p = filter (\<lambda>w. w \<noteq> [] \<and> w \<noteq> [46]) (split_on 47 p)"

fun common_prefix :: "pystr list \<Rightarrow> pystr list \<Rightarrow> pystr list" where
  "common_prefix (a # as) (b # bs) = (if a = b then a # common_prefix as bs else [])"
| "common_prefix _ _ = []"

definition path_within :: "pystr \<Rightarrow> pystr \<Rightarrow> bool" where
  "path_within parent child \<longleftrightarrow>
     (starts_with parent [47] = starts_with child [47])
     \<and> (if starts_with parent [47] then [47] else []) @ join [47] (common_prefix (path_parts parent) (path_parts child)) = parent"

definition resource_contains :: "resource \<Rightarrow> resource \<Rightarrow> bool" where
  "resource_contains parent child \<longleftrightarrow>
     rs_kind parent = rs_kind child \<and> (rs_write child \<longrightarrow> rs_write parent)
     \<and> (if rs_kind parent \<noteq> u ''file'' then rs_id parent = rs_id child else path_within (rs_id parent) (rs_id child))"

subsection \<open>References a child returns\<close>

definition artifact_ref_keys :: "pystr list" where
  "artifact_ref_keys = map u [''kind'', ''name'', ''uri'', ''path'', ''digest'', ''media_type'', ''receipt_id'', ''revision'', ''size'']"

text \<open>The number of a key that holds one: \<open>Some None\<close> when the entry is left out.\<close>

definition counted :: "pystr \<Rightarrow> json \<Rightarrow> (json option) option" where
  "counted k v =
     (if k \<noteq> u ''revision'' \<and> k \<noteq> u ''size'' then None
      else case v of
        JInt i \<Rightarrow> Some (if i < 0 then None else Some v)
      | JFloat (Fin q) \<Rightarrow> Some (if q < 0 \<or> k = u ''size'' \<and> q \<noteq> of_int \<lfloor>q\<rfloor> then None
                            else Some (if k = u ''size'' then JInt \<lfloor>q\<rfloor> else v))
      | JFloat _ \<Rightarrow> Some None
      | _ \<Rightarrow> None)"

definition artifact_field :: "pyhost \<Rightarrow> pydict \<Rightarrow> pystr \<Rightarrow> (pystr \<times> json) list" where
  "artifact_field H d k =
     (let v = dget_null d k in
      if v = JNull \<or> v = JStr [] then []
      else case counted k v of
        Some None \<Rightarrow> []
      | Some (Some n) \<Rightarrow> [(k, n)]
      | None \<Rightarrow> [(k, JStr (take (if k = u ''uri'' \<or> k = u ''path'' then 2000 else 300) (py_str H v)))])"

definition artifact_ref :: "pyhost \<Rightarrow> json \<Rightarrow> pydict list" where
  "artifact_ref H v =
     (case (case v of JStr s \<Rightarrow> JObj [(u ''uri'', v)] | _ \<Rightarrow> v) of
        JObj d \<Rightarrow>
          let ref = concat (map (artifact_field H d) artifact_ref_keys) in
          if list_ex (\<lambda>k. truthy (dget_null ref (u k))) [''uri'', ''path'', ''receipt_id'', ''digest''] then [ref] else []
      | _ \<Rightarrow> [])"

definition normalize_artifact_refs :: "pyhost \<Rightarrow> json \<Rightarrow> pydict list" where
  "normalize_artifact_refs H values =
     (case (case values of JStr s \<Rightarrow> if s = [] then JNull else JList [values] | JObj _ \<Rightarrow> JList [values] | v \<Rightarrow> v) of
        JList xs \<Rightarrow> concat (map (artifact_ref H) (take 12 xs))
      | _ \<Rightarrow> [])"

subsection \<open>A delegated leash permits no more\<close>

lemma not_numeric [simp]:
  "\<not> numeric_cap (u ''may'')" "\<not> numeric_cap (u ''irreversible'')" "\<not> numeric_cap (u ''expires'')"
  "\<not> numeric_cap (u ''workspace_mode'')" "\<not> numeric_cap (u ''allowed_domains'')" "numeric_cap (u ''spend_max_usd'')"
  by (simp_all add: numeric_cap_def leash_integer_caps_def leash_number_caps_def)

lemma validated_dget:
  assumes "validated_leash (JObj d) = Inr p"
  shows "dget p k = map_option (\<lambda>v. if numeric_cap k then normal_cap k v else v) (dget d k)"
proof -
  have "p = map (\<lambda>(k, v). (k, if numeric_cap k then normal_cap k v else v)) d"
    using assms by (auto simp: validated_leash_def split: if_splits option.splits)
  moreover have "map_of (map (\<lambda>(k, v). (k, f k v)) d) k = map_option (f k) (map_of d k)" for f
    by (induction d) auto
  ultimately show ?thesis by (simp add: dget_def)
qed

lemma narrow_fields_dget:
  assumes "narrow_fields H parent req child0 = Inr child"
  shows "dget child k = dget child0 k
    \<or> k \<noteq> u ''may'' \<and> (\<exists>v w. (k, v) \<in> set req \<and> narrow_field H parent k v = Inr w \<and> dget child k = Some w)"
  using assms
proof (induction H parent req child0 rule: narrow_fields.induct)
  case (2 H parent k' v rest child0)
  show ?case
  proof (cases "k' = u ''may''")
    case True
    with 2 show ?thesis by auto
  next
    case False
    with "2.prems" obtain w where w: "narrow_field H parent k' v = Inr w"
        "narrow_fields H parent rest (dset child0 k' w) = Inr child" by (auto simp: bind_result_Inr_iff)
    from "2.IH"(2) [OF False w(2)] w(1) False show ?thesis by (auto split: if_splits)
  qed
qed simp

lemma str_lt_linear: "str_lt a b \<or> a = b \<or> str_lt b a"
proof (induction a arbitrary: b)
  case Nil
  then show ?case by (cases b) auto
next
  case (Cons x a)
  then show ?case by (cases b) auto
qed

lemma str_lt_trans: "str_lt a b \<Longrightarrow> str_lt b c \<Longrightarrow> str_lt a c"
proof (induction a b arbitrary: c rule: str_lt.induct)
  case (2 b t)
  then show ?case by (cases c) auto
next
  case (3 a s b t)
  then show ?case by (cases c) auto
qed simp

lemma str_le_lt_trans: "\<not> str_lt b a \<Longrightarrow> str_lt b c \<Longrightarrow> str_lt a c"
  using str_lt_linear [of a b] str_lt_trans by blast

text \<open>What a derived leash holds, field by field.\<close>

lemma derived_fields:
  assumes "narrow_leash H parent (Some rv) = Inr child" "validated_leash (or_empty parent) = Inr p"
  shows "dget child (u ''may'') = dget p (u ''may'')
      \<or> dget p (u ''may'') \<noteq> None \<and> (\<exists>ps. dget child (u ''may'') = Some (JList (map JStr ps)) \<and> list_all (covered_capability p) ps)"
    and "k \<noteq> u ''may'' \<Longrightarrow> dget child k = dget p k
      \<or> (\<exists>v w. dget p k \<noteq> None \<and> narrow_field H p k v = Inr w \<and> dget child k = Some w)"
proof -
  from assms obtain req where rq: "validated_leash (or_empty rv) = Inr req" "\<not> list_ex (\<lambda>(k, _). dget p k = None) req"
      "dget req (u ''may'') \<noteq> None \<longrightarrow> list_all (covered_capability p) (leash_patterns req)"
      "narrow_fields H p req (if dget req (u ''may'') = None then p
         else dset p (u ''may'') (JList (map JStr (sorted_strs (dedup (leash_patterns req)))))) = Inr child"
    by (auto simp: narrow_leash_def bind_result_Inr_iff split: if_splits)
  have known: "dget p k \<noteq> None" if "(k, v) \<in> set req" for k v
    using rq(2) that by (auto simp: list_ex_iff)
  note N = narrow_fields_dget [OF rq(4)]
  show "dget child (u ''may'') = dget p (u ''may'')
      \<or> dget p (u ''may'') \<noteq> None \<and> (\<exists>ps. dget child (u ''may'') = Some (JList (map JStr ps)) \<and> list_all (covered_capability p) ps)"
  proof (cases "dget req (u ''may'')")
    case None
    with N [of "u ''may''"] show ?thesis by simp
  next
    case (Some m)
    then have "(u ''may'', m) \<in> set req" by (simp add: dget_def map_of_SomeD)
    moreover have "list_all (covered_capability p) (sorted_strs (dedup (leash_patterns req)))"
      using rq(3) Some by (simp add: list_all_iff)
    ultimately show ?thesis using N [of "u ''may''"] known Some by auto
  qed
  assume "k \<noteq> u ''may''"
  with N [of k] known show "dget child k = dget p k
      \<or> (\<exists>v w. dget p k \<noteq> None \<and> narrow_field H p k v = Inr w \<and> dget child k = Some w)"
    by (auto split: if_splits)
qed

definition answer_rank :: "leash_answer \<Rightarrow> nat" where
  "answer_rank a = (case a of L_DENY \<Rightarrow> 0 | L_ASK \<Rightarrow> 1 | L_ALLOW \<Rightarrow> 2)"

text \<open>The leash's answer when it is enforced, in the order the code asks.\<close>

lemma evaluate_enforced:
  assumes "validate_leash (JObj d) = Inr d" "dget d (u ''may'') \<noteq> None" "spend_value spend = Some amount" "c \<noteq> []"
  shows "fst (evaluate_leash H (JObj d) (JStr c) risk spend now) =
    (if leash_expires d \<noteq> [] \<and> (case now of None \<Rightarrow> False | Some t \<Rightarrow> t \<noteq> [] \<and> str_lt (leash_expires d) t)
        \<or> \<not> list_ex (\<lambda>p. fnmatchcase c p) (leash_patterns d)
        \<or> (case leash_cap d of None \<Rightarrow> False | Some cap \<Rightarrow> cap < amount) then L_DENY
     else if \<not> List.member irreversible_risks risk then L_ALLOW
     else if leash_mode d = u ''deny'' then L_DENY else if leash_mode d = u ''allow'' then L_ALLOW else L_ASK)"
proof -
  from assms(2) obtain m where "dget d (u ''may'') = Some m" by auto
  with assms show ?thesis by (simp add: evaluate_leash_def)
qed

lemma validate_leash_same: "validate_leash (JObj d) = Inr d' \<Longrightarrow> d' = d"
  by (auto simp: validate_leash_def split: if_splits option.splits)

lemma evaluate_denies:
  assumes "validate_leash (JObj d) = Inl e \<or> spend_value spend = None \<or> (\<forall>c. capability = JStr c \<longrightarrow> c = [])"
  shows "fst (evaluate_leash H (JObj d) capability risk spend now) = L_DENY"
proof (cases "validate_leash (JObj d)"; cases "spend_value spend"; cases capability)
  fix d' amount c
  assume "validate_leash (JObj d) = Inr d'" "spend_value spend = Some amount" "capability = JStr c"
  with assms show ?thesis by (simp add: evaluate_leash_def)
qed (simp_all add: evaluate_leash_def)



text \<open>
  A pattern with a question mark is no bound: the text of a wider pattern matches it, so the
  child may do what the parent may not. And a child may blank the expiry it inherits.
\<close>

lemma question_mark_widens:
  "let parent = [(u ''may'', JList [JStr (u ''fs.?'')])]; child = [(u ''may'', JList [JStr (u ''fs.*'')])] in
     narrow_leash ascii_host (JObj parent) (Some (JObj child)) = Inr child
     \<and> fst (evaluate_leash ascii_host (JObj child) (JStr (u ''fs.delete'')) (u ''write'') (JInt 0) None) = L_ALLOW
     \<and> fst (evaluate_leash ascii_host (JObj parent) (JStr (u ''fs.delete'')) (u ''write'') (JInt 0) None) = L_DENY"
proof -
  let ?p = "[(u ''may'', JList [JStr (u ''fs.?'')])]" and ?c = "[(u ''may'', JList [JStr (u ''fs.*'')])]"
  have v: "validated_leash (JObj [(u ''may'', JList [JStr (u x)])]) = Inr [(u ''may'', JList [JStr (u x)])]"
    "validate_leash (JObj [(u ''may'', JList [JStr (u x)])]) = Inr [(u ''may'', JList [JStr (u x)])]" if "x \<noteq> []" for x
    using that by (simp_all add: validated_leash_def validate_leash_def dget_def may_ok_def nonempty_text_def)
  have pat: "leash_patterns [(u ''may'', JList [JStr (u x)])] = [u x]" for x by (simp add: leash_patterns_def dget_def)
  have m: "fnmatchcase (u ''fs.*'') (u ''fs.?'')" "fnmatchcase (u ''fs.delete'') (u ''fs.*'')"
      "\<not> fnmatchcase (u ''fs.delete'') (u ''fs.?'')"
    by (simp_all add: fnmatchcase_def u_def)
  have s: "sorted_strs [x] = [x]" for x by (simp add: sorted_strs_def)
  have n: "narrow_leash ascii_host (JObj ?p) (Some (JObj ?c)) = Inr ?c"
    by (simp add: narrow_leash_def or_empty_def or_json_def v pat s covered_capability_def m dget_def)
  have "irreversible_risks \<noteq> []" "\<not> List.member irreversible_risks (u ''write'')" by (simp_all add: irreversible_risks_def)
  then show ?thesis using n unfolding Let_def
    by (simp add: evaluate_leash_def v pat m spend_value_def dget_def leash_expires_def leash_cap_def)
qed

lemma blank_expiry_outlives:
  "let parent = [(u ''may'', JList []), (u ''expires'', JStr (u ''2025''))]; child = [(u ''may'', JList []), (u ''expires'', JStr [])] in
     narrow_leash ascii_host (JObj parent) (Some (JObj [(u ''expires'', JStr [])])) = Inr child \<and> leash_expires child = []"
  by (simp add: narrow_leash_def or_empty_def or_json_def validated_leash_def dget_def may_ok_def narrow_field_def leash_expires_def)

end
