(* ===== verification/RunTree.thy ===== *)
theory RunTree
  imports "HOL-Library.List_Lexorder" Delegation
begin

text \<open>
  The store of \<open>harness/tasktree.py\<close>: background runs and their events, the mailbox, the
  outbox of notifications and the usage watermarks. A table is a list of rows in insertion
  order, an autoincremented key is the row's position. The leash and the resources of a run
  are the validated values their columns decode to, \<open>None\<close> when a column does not decode.
  The host, the canonical spelling of paths (\<open>realpath\<close> of \<open>abspath\<close>; \<open>normcase\<close> is the
  identity on POSIX), the test for a directory, the lifecycle hooks and the rounding of a
  quotient to a float are the fields of \<open>tree_env\<close>; \<open>now\<close> is \<open>int(time.time())\<close> at the
  call.
\<close>

subsection \<open>Rows\<close>

datatype run_status = R_QUEUED | R_RUNNING | R_BLOCKED | R_WAITING | R_NEEDS_YOU | R_PAUSED | R_COMPLETED | R_FAILED
  | R_CANCEL_REQUESTED | R_CANCELLED | R_RECOVERY_REQUIRED | R_WORKSPACE_REQUIRED

definition status_name :: "run_status \<Rightarrow> string" where
  "status_name s = (case s of R_QUEUED \<Rightarrow> ''queued'' | R_RUNNING \<Rightarrow> ''running'' | R_BLOCKED \<Rightarrow> ''blocked''
     | R_WAITING \<Rightarrow> ''waiting'' | R_NEEDS_YOU \<Rightarrow> ''needs_you'' | R_PAUSED \<Rightarrow> ''paused'' | R_COMPLETED \<Rightarrow> ''completed''
     | R_FAILED \<Rightarrow> ''failed'' | R_CANCEL_REQUESTED \<Rightarrow> ''cancel_requested'' | R_CANCELLED \<Rightarrow> ''cancelled''
     | R_RECOVERY_REQUIRED \<Rightarrow> ''recovery_required'' | R_WORKSPACE_REQUIRED \<Rightarrow> ''workspace_required'')"

definition status_text :: "run_status \<Rightarrow> pystr" where
  "status_text s = u (status_name s)"

definition terminal_run :: "run_status \<Rightarrow> bool" where
  "terminal_run s \<longleftrightarrow> s = R_COMPLETED \<or> s = R_FAILED \<or> s = R_CANCELLED"

definition owned_state :: "run_status \<Rightarrow> bool" where
  "owned_state s \<longleftrightarrow> s = R_RUNNING \<or> s = R_CANCEL_REQUESTED"

record usage =
  us_input :: nat
  us_output :: nat
  us_cache :: nat
  us_calls :: nat
  us_turns :: nat
  us_cost :: nat
  us_wall :: nat
  us_retries :: nat

definition no_usage :: usage where
  "no_usage = \<lparr>us_input = 0, us_output = 0, us_cache = 0, us_calls = 0, us_turns = 0, us_cost = 0, us_wall = 0, us_retries = 0\<rparr>"

text \<open>The eight counters, combined one by one.\<close>

definition combine_usage :: "(nat \<Rightarrow> nat \<Rightarrow> nat) \<Rightarrow> usage \<Rightarrow> usage \<Rightarrow> usage" where
  "combine_usage f a b = \<lparr>us_input = f (us_input a) (us_input b), us_output = f (us_output a) (us_output b),
     us_cache = f (us_cache a) (us_cache b), us_calls = f (us_calls a) (us_calls b), us_turns = f (us_turns a) (us_turns b),
     us_cost = f (us_cost a) (us_cost b), us_wall = f (us_wall a) (us_wall b), us_retries = f (us_retries a) (us_retries b)\<rparr>"

record agent_run =
  rn_id :: pystr
  rn_parent :: pystr
  rn_root :: pystr
  rn_mission :: pystr
  rn_depth :: nat
  rn_role :: pystr
  rn_task :: pystr
  rn_status :: run_status
  rn_background :: bool
  rn_leash :: "pydict option"
  rn_resources :: "resource list option"
  rn_mode :: pystr
  rn_workspace :: pystr
  rn_spawn :: pystr
  rn_owns :: bool
  rn_result :: pystr
  rn_owner :: pystr
  rn_lease :: int
  rn_seq :: nat
  rn_progress_at :: int
  rn_used :: usage
  rn_cancel :: bool
  rn_cancel_ack :: int
  rn_created :: int
  rn_updated :: int

record run_event =
  ev_run :: pystr
  ev_kind :: pystr
  ev_payload :: pydict
  ev_at :: int

datatype mail_state = M_QUEUED | M_DELIVERED | M_ACKED

record message =
  ms_id :: nat
  ms_run :: pystr
  ms_sender :: pystr
  ms_kind :: pystr
  ms_payload :: pydict
  ms_state :: mail_state
  ms_created :: int
  ms_delivered :: int
  ms_acked :: int

record notification =
  nt_id :: nat
  nt_run :: pystr
  nt_kind :: pystr
  nt_payload :: pydict
  nt_queued :: bool
  nt_created :: int
  nt_acked :: int

record projection =
  pj_run :: pystr
  pj_mission :: pystr
  pj_initialized :: bool
  pj_used :: usage
  pj_updated :: int

record run_tree =
  tt_runs :: "agent_run list"
  tt_events :: "run_event list"
  tt_mail :: "message list"
  tt_notes :: "notification list"
  tt_proj :: "projection list"

datatype hook_answer = HOOK_NONE | HOOK_ANSWER bool pystr | HOOK_RAISED pystr

record tree_env =
  te_host :: pyhost
  te_canon :: "pystr \<Rightarrow> pystr"
  te_isdir :: "pystr \<Rightarrow> bool"
  te_hook :: "pystr \<Rightarrow> pydict \<Rightarrow> pystr \<Rightarrow> hook_answer"
  te_float :: "rat \<Rightarrow> rat"

subsection \<open>Statements\<close>

definition add_event :: "pystr \<Rightarrow> string \<Rightarrow> pydict \<Rightarrow> int \<Rightarrow> run_tree \<Rightarrow> run_tree" where
  "add_event rid kind payload now t =
     t\<lparr>tt_events := tt_events t @ [\<lparr>ev_run = rid, ev_kind = u kind, ev_payload = payload, ev_at = now\<rparr>]\<rparr>"

definition notify :: "pystr \<Rightarrow> string \<Rightarrow> pydict \<Rightarrow> int \<Rightarrow> run_tree \<Rightarrow> run_tree" where
  "notify rid kind payload now t =
     t\<lparr>tt_notes := tt_notes t @ [\<lparr>nt_id = length (tt_notes t) + 1, nt_run = rid, nt_kind = u kind, nt_payload = payload,
        nt_queued = True, nt_created = now, nt_acked = 0\<rparr>]\<rparr>"

definition post_mail :: "pystr \<Rightarrow> pystr \<Rightarrow> string \<Rightarrow> pydict \<Rightarrow> int \<Rightarrow> run_tree \<Rightarrow> nat \<times> run_tree" where
  "post_mail rid sender kind payload now t =
     (let i = length (tt_mail t) + 1 in
      (i, t\<lparr>tt_mail := tt_mail t @ [\<lparr>ms_id = i, ms_run = rid, ms_sender = sender, ms_kind = u kind, ms_payload = payload,
         ms_state = M_QUEUED, ms_created = now, ms_delivered = 0, ms_acked = 0\<rparr>]\<rparr>))"

definition update_runs :: "(agent_run \<Rightarrow> bool) \<Rightarrow> (agent_run \<Rightarrow> agent_run) \<Rightarrow> run_tree \<Rightarrow> nat \<times> run_tree" where
  "update_runs hit f t =
     (length (filter hit (tt_runs t)), t\<lparr>tt_runs := map (\<lambda>r. if hit r then f r else r) (tt_runs t)\<rparr>)"

definition update_mail :: "(message \<Rightarrow> bool) \<Rightarrow> (message \<Rightarrow> message) \<Rightarrow> run_tree \<Rightarrow> nat \<times> run_tree" where
  "update_mail hit f t =
     (length (filter hit (tt_mail t)), t\<lparr>tt_mail := map (\<lambda>m. if hit m then f m else m) (tt_mail t)\<rparr>)"

definition run_row :: "run_tree \<Rightarrow> pystr \<Rightarrow> agent_run option" where
  "run_row t rid = List.find (\<lambda>r. rn_id r = rid) (tt_runs t)"

definition projection_row :: "run_tree \<Rightarrow> pystr \<Rightarrow> projection option" where
  "projection_row t rid = List.find (\<lambda>p. pj_run p = rid) (tt_proj t)"

text \<open>\<open>_decode\<close>: the authority columns must decode.\<close>

definition decode_run :: "agent_run \<Rightarrow> agent_run result" where
  "decode_run r =
     (if rn_leash r = None \<or> rn_resources r = None then Inl (ValueError ''invalid durable TaskTree JSON'') else Inr r)"

definition get_run :: "run_tree \<Rightarrow> pystr \<Rightarrow> agent_run option result" where
  "get_run t rid =
     (case run_row t rid of None \<Rightarrow> Inr None | Some r \<Rightarrow> bind_result (decode_run r) (\<lambda>d. Inr (Some d)))"

definition leash_of :: "agent_run \<Rightarrow> pydict" where
  "leash_of r = (case rn_leash r of Some d \<Rightarrow> d | None \<Rightarrow> [])"

definition resources_of :: "agent_run \<Rightarrow> resource list" where
  "resources_of r = (case rn_resources r of Some rs \<Rightarrow> rs | None \<Rightarrow> [])"

text \<open>\<open>int(leash.get(key, default))\<close>: validated caps are integers.\<close>

definition cap_int :: "pydict \<Rightarrow> string \<Rightarrow> int \<Rightarrow> int" where
  "cap_int leash k dflt = (case dget leash (u k) of Some (JInt i) \<Rightarrow> i | _ \<Rightarrow> dflt)"

definition run_hook :: "tree_env \<Rightarrow> string \<Rightarrow> pystr \<Rightarrow> pydict \<Rightarrow> pystr \<Rightarrow> int \<Rightarrow> run_tree \<Rightarrow> hook_answer \<times> run_tree" where
  "run_hook E ev rid payload subject now t =
     (case te_hook E (u ev) payload subject of
        HOOK_RAISED why \<Rightarrow>
          (HOOK_NONE, if rid = [] then t else add_event rid ''hook_error'' [(u ''event'', JStr (u ev)), (u ''error'', JStr why)] now t)
      | a \<Rightarrow> (a, t))"

subsection \<open>The tree below a run\<close>

text \<open>
  The loop of \<open>tree\<close>: passes over the rows that add every row whose parent is wanted, until
  a pass adds nothing. The recursive queries of the code (\<open>descendants\<close>, \<open>subtree\<close>) are the
  same closure; on a cycle SQLite would not answer, but no operation makes one.
\<close>

definition grow_pass :: "agent_run list \<Rightarrow> pystr list \<Rightarrow> pystr list" where
  "grow_pass rows wanted =
     fold (\<lambda>r w. if List.member w (rn_parent r) \<and> \<not> List.member w (rn_id r) then w @ [rn_id r] else w) rows wanted"

lemma grow_pass_sets:
  "set wanted \<subseteq> set (grow_pass rows wanted) \<and> set (grow_pass rows wanted) \<subseteq> set wanted \<union> rn_id ` set rows
   \<and> length wanted \<le> length (grow_pass rows wanted)"
proof (induction rows arbitrary: wanted)
  case (Cons r rows)
  show ?case
    using Cons.IH [of "wanted @ [rn_id r]"] Cons.IH [of wanted] by (auto simp: grow_pass_def)
qed (simp add: grow_pass_def)

lemma grow_pass_fixed: "length (grow_pass rows wanted) = length wanted \<Longrightarrow> grow_pass rows wanted = wanted"
proof (induction rows arbitrary: wanted)
  case (Cons r rows)
  show ?case
    using Cons grow_pass_sets [of "wanted @ [rn_id r]" rows] by (auto simp: grow_pass_def)
qed (simp add: grow_pass_def)

lemma grow_pass_new:
  "grow_pass rows wanted \<noteq> wanted \<Longrightarrow> \<exists>x \<in> rn_id ` set rows. x \<in> set (grow_pass rows wanted) - set wanted"
proof (induction rows arbitrary: wanted)
  case (Cons r rows)
  show ?case
  proof (cases "rn_parent r \<in> set wanted \<and> rn_id r \<notin> set wanted")
    case True
    then show ?thesis using grow_pass_sets [of "wanted @ [rn_id r]" rows] by (auto simp: grow_pass_def)
  next
    case False
    then show ?thesis using Cons by (auto simp: grow_pass_def)
  qed
qed (simp add: grow_pass_def)

function tree_wanted :: "agent_run list \<Rightarrow> pystr list \<Rightarrow> pystr list" where
  "tree_wanted rows wanted =
     (let next = grow_pass rows wanted in if next = wanted then wanted else tree_wanted rows next)"
  by pat_completeness auto
termination
proof (relation "measure (\<lambda>(rows, w). Finite_Set.card (rn_id ` set rows - set w))")
  fix rows wanted :: "agent_run list" and w :: "pystr list" and next'
  assume "next' = grow_pass rows w" "next' \<noteq> w"
  with grow_pass_new [of rows w] grow_pass_sets [of w rows]
  have "rn_id ` set rows - set next' \<subset> rn_id ` set rows - set w" by blast
  then show "((rows, next'), (rows, w)) \<in> measure (\<lambda>(rows, w). Finite_Set.card (rn_id ` set rows - set w))"
    by (simp add: psubset_card_mono)
qed simp

declare tree_wanted.simps [simp del]

definition subtree_ids :: "run_tree \<Rightarrow> pystr \<Rightarrow> pystr list" where
  "subtree_ids t rid = tree_wanted (tt_runs t) [rid]"

definition descendant_ids :: "run_tree \<Rightarrow> pystr \<Rightarrow> pystr list" where
  "descendant_ids t rid = filter (\<lambda>x. x \<noteq> rid) (subtree_ids t rid)"

definition child_rel :: "agent_run list \<Rightarrow> (pystr \<times> pystr) set" where
  "child_rel rows = {(rn_parent r, rn_id r) | r. r \<in> set rows}"

lemma grow_pass_reach: "set (grow_pass rows w) \<subseteq> (child_rel rows)\<^sup>* `` set w"
proof -
  have "set (fold (\<lambda>r w. if List.member w (rn_parent r) \<and> \<not> List.member w (rn_id r) then w @ [rn_id r] else w) rs w)
      \<subseteq> (child_rel rows)\<^sup>* `` set w0" if "set rs \<subseteq> set rows" "set w \<subseteq> (child_rel rows)\<^sup>* `` set w0" for rs w0 w
    using that
  proof (induction rs arbitrary: w)
    case (Cons r rs)
    have "rn_id r \<in> (child_rel rows)\<^sup>* `` set w0" if "rn_parent r \<in> set w"
    proof -
      have "(rn_parent r, rn_id r) \<in> child_rel rows" using Cons.prems(1) by (auto simp: child_rel_def)
      with that Cons.prems(2) show ?thesis by (blast intro: rtrancl_into_rtrancl)
    qed
    with Cons show ?case by auto
  qed simp
  from this [of rows w w] show ?thesis by (auto simp: grow_pass_def)
qed

text \<open>The loop computes the reflexive-transitive closure of the parent relation.\<close>

lemma tree_wanted_closure: "set (tree_wanted rows w) = (child_rel rows)\<^sup>* `` set w"
proof (induction rows w rule: tree_wanted.induct)
  case (1 rows w)
  show ?case
  proof (cases "grow_pass rows w = w")
    case True
    have closed: "y \<in> set w" if "(x, y) \<in> child_rel rows" "x \<in> set w" for x y
    proof (rule ccontr)
      assume "y \<notin> set w"
      from that(1) obtain r where r: "r \<in> set rows" "rn_parent r = x" "rn_id r = y" by (auto simp: child_rel_def)
      have "grow_pass rs w' = w' \<Longrightarrow> r \<in> set rs \<Longrightarrow> x \<in> set w' \<Longrightarrow> y \<in> set w'" for rs w'
      proof (induction rs)
        case (Cons a rs)
        show ?case
        proof (cases "rn_parent a \<in> set w' \<and> rn_id a \<notin> set w'")
          case True
          then have "grow_pass (a # rs) w' = grow_pass rs (w' @ [rn_id a])" by (simp add: grow_pass_def)
          then show ?thesis using grow_pass_sets [of "w' @ [rn_id a]" rs] Cons.prems(1) by auto
        next
          case False
          then have "grow_pass rs w' = w'" using Cons.prems(1) by (auto simp: grow_pass_def)
          with Cons False r show ?thesis by auto
        qed
      qed simp
      from this [OF True r(1) that(2)] \<open>y \<notin> set w\<close> show False by blast
    qed
    have "x \<in> set w \<Longrightarrow> (x, y) \<in> (child_rel rows)\<^sup>* \<Longrightarrow> y \<in> set w" for x y
      by (rotate_tac 1, induction rule: rtrancl_induct) (auto intro: closed)
    then have "(child_rel rows)\<^sup>* `` set w = set w" by blast
    with True show ?thesis by (simp add: tree_wanted.simps Let_def)
  next
    case False
    have "(child_rel rows)\<^sup>* `` set (grow_pass rows w) = (child_rel rows)\<^sup>* `` set w"
    proof
      show "(child_rel rows)\<^sup>* `` set (grow_pass rows w) \<subseteq> (child_rel rows)\<^sup>* `` set w"
      proof
        fix y
        assume "y \<in> (child_rel rows)\<^sup>* `` set (grow_pass rows w)"
        then obtain x where x: "x \<in> set (grow_pass rows w)" "(x, y) \<in> (child_rel rows)\<^sup>*" by blast
        from x(1) grow_pass_reach obtain z where "z \<in> set w" "(z, x) \<in> (child_rel rows)\<^sup>*" by blast
        with x(2) show "y \<in> (child_rel rows)\<^sup>* `` set w" by (blast intro: rtrancl_trans)
      qed
      show "(child_rel rows)\<^sup>* `` set w \<subseteq> (child_rel rows)\<^sup>* `` set (grow_pass rows w)"
        using grow_pass_sets [of w rows] by blast
    qed
    with 1 False show ?thesis by (simp add: tree_wanted.simps [of rows w] Let_def)
  qed
qed

end
