(* ===== verification/RunOps.thy ===== *)
theory RunOps
  imports RunTree
begin

text \<open>
  The operations of \<open>TaskTreeStore\<close> (\<open>harness/tasktree.py\<close>), one definition per method, each
  one transaction on the tables of theory RunTree: creation and delegation, workspaces,
  leases, stops and cancellation, the mailbox, usage accounting and the listings. A method
  that may raise returns a \<open>result\<close>. New keys and tokens (\<open>secrets.token_hex\<close>) are arguments.
\<close>

subsection \<open>Creation\<close>

definition canonical_ws :: "tree_env \<Rightarrow> pystr \<Rightarrow> pystr" where
  "canonical_ws E p = (if p = [] then [] else te_canon E p)"

definition same_workspace :: "tree_env \<Rightarrow> pystr \<Rightarrow> pystr \<Rightarrow> bool" where
  "same_workspace E a b \<longleftrightarrow> canonical_ws E a = canonical_ws E b"

definition resource_json :: "resource \<Rightarrow> json" where
  "resource_json r = JObj [(u ''kind'', JStr (rs_kind r)), (u ''id'', JStr (rs_id r)),
     (u ''mode'', JStr (if rs_write r then u ''write'' else u ''read''))]"

definition initial_status :: "pystr \<Rightarrow> pystr \<Rightarrow> run_status" where
  "initial_status ws mode = (if ws \<noteq> [] \<or> mode \<noteq> u ''worktree'' then R_QUEUED else R_WORKSPACE_REQUIRED)"

definition fresh_run :: "pystr \<Rightarrow> pystr \<Rightarrow> pystr \<Rightarrow> pystr \<Rightarrow> nat \<Rightarrow> pystr \<Rightarrow> pystr \<Rightarrow> pydict \<Rightarrow> resource list \<Rightarrow> pystr \<Rightarrow> pystr \<Rightarrow> int \<Rightarrow> agent_run" where
  "fresh_run rid parent rt mission depth role task leash rs mode ws now =
     \<lparr>rn_id = rid, rn_parent = parent, rn_root = rt, rn_mission = mission, rn_depth = depth, rn_role = role, rn_task = task,
      rn_status = initial_status ws mode, rn_background = False, rn_leash = Some leash, rn_resources = Some rs,
      rn_mode = mode, rn_workspace = ws, rn_spawn = ws, rn_owns = False, rn_result = [], rn_owner = [], rn_lease = 0,
      rn_seq = 0, rn_progress_at = now, rn_used = no_usage, rn_cancel = False, rn_cancel_ack = 0,
      rn_created = now, rn_updated = now\<rparr>"

definition insert_run :: "agent_run \<Rightarrow> int \<Rightarrow> run_tree \<Rightarrow> run_tree" where
  "insert_run r now t =
     t\<lparr>tt_runs := tt_runs t @ [r],
       tt_proj := tt_proj t @ [\<lparr>pj_run = rn_id r, pj_mission = rn_mission r, pj_initialized = True, pj_used = no_usage, pj_updated = now\<rparr>]\<rparr>"

definition created_hook :: "tree_env \<Rightarrow> agent_run \<Rightarrow> int \<Rightarrow> run_tree \<Rightarrow> run_tree" where
  "created_hook E r now t =
     snd (run_hook E ''TaskCreated'' (rn_id r)
       [(u ''run_id'', JStr (rn_id r)), (u ''parent_run_id'', JStr (rn_parent r)), (u ''task'', JStr (rn_task r)),
        (u ''role'', JStr (rn_role r)), (u ''resources'', JList (map resource_json (resources_of r)))] (rn_role r) now t)"

definition same_spawn :: "tree_env \<Rightarrow> agent_run \<Rightarrow> agent_run \<Rightarrow> bool" where
  "same_spawn E old new \<longleftrightarrow>
     rn_parent old = rn_parent new \<and> rn_task old = rn_task new
     \<and> json_same (JObj (leash_of old)) (JObj (leash_of new)) \<and> resources_of old = resources_of new
     \<and> rn_mode old = rn_mode new \<and> same_workspace E (rn_spawn old) (rn_workspace new)"

definition create_root :: "tree_env \<Rightarrow> pystr \<Rightarrow> int \<Rightarrow> pystr \<Rightarrow> json \<Rightarrow> json list \<Rightarrow> pystr \<Rightarrow> pystr \<Rightarrow> pystr \<Rightarrow> pystr \<Rightarrow> run_tree
    \<Rightarrow> agent_run result \<times> run_tree" where
  "create_root E fresh now task leash resources run_id mission ws0 mode t =
     (case validated_leash (or_empty leash) of
        Inl e \<Rightarrow> (Inl e, t)
      | Inr d \<Rightarrow>
     (case normalize_resources (te_host E) (te_canon E) resources of
        Inl e \<Rightarrow> (Inl e, t)
      | Inr rs \<Rightarrow>
          let rid = or_str run_id (u ''run_'' @ fresh);
              r = fresh_run rid [] rid mission 0 (u ''orchestrator'') (take 4000 task) d rs mode (canonical_ws E ws0) now
          in case run_row t rid of
               Some old \<Rightarrow>
                 (case decode_run old of
                    Inl e \<Rightarrow> (Inl e, t)
                  | Inr _ \<Rightarrow>
                      if same_spawn E old r \<and> rn_mission old = mission then (Inr old, t)
                      else (Inl (ValueError ''root run id collision: already bound to a different operation''), t))
             | None \<Rightarrow>
                 if \<not> finite_json (JObj d) then (Inl (ValueError ''Out of range float values are not JSON compliant''), t)
                 else if projection_row t rid \<noteq> None then (Inl (OtherError ''IntegrityError''), t)
                 else (Inr r, created_hook E r now
                        (add_event rid ''created'' [(u ''status'', JStr (status_text (rn_status r)))] now (insert_run r now t)))))"

subsection \<open>Delegation\<close>

definition stopping_run :: "agent_run \<Rightarrow> bool" where
  "stopping_run r \<longleftrightarrow> terminal_run (rn_status r) \<or> rn_status r = R_CANCEL_REQUESTED \<or> rn_cancel r"

definition active_children :: "run_tree \<Rightarrow> pystr \<Rightarrow> agent_run list" where
  "active_children t pid = filter (\<lambda>r. rn_parent r = pid \<and> \<not> terminal_run (rn_status r)) (tt_runs t)"

definition write_overlap :: "resource \<Rightarrow> resource \<Rightarrow> bool" where
  "write_overlap old new \<longleftrightarrow> (resource_contains old new \<or> resource_contains new old) \<and> (rs_write old \<or> rs_write new)"

fun sibling_conflict :: "agent_run list \<Rightarrow> resource list \<Rightarrow> unit result" where
  "sibling_conflict [] rs = Inr ()"
| "sibling_conflict (s # ss) rs =
     (case rn_resources s of
        None \<Rightarrow> Inl (ValueError ''invalid durable TaskTree JSON'')
      | Some olds \<Rightarrow>
          if list_ex (\<lambda>old. list_ex (write_overlap old) rs) olds then Inl (ValueError ''specialist write resource already owned'')
          else sibling_conflict ss rs)"

definition within_parent :: "resource list \<Rightarrow> resource list \<Rightarrow> bool" where
  "within_parent owned rs \<longleftrightarrow> list_all (\<lambda>r. list_ex (\<lambda>p. resource_contains p r) owned) rs"

definition spawn_authority :: "tree_env \<Rightarrow> agent_run option \<Rightarrow> json option \<Rightarrow> (json list) option \<Rightarrow> (pydict \<times> resource list) result" where
  "spawn_authority E parent leash resources =
     (case parent of
        None \<Rightarrow> Inl (ValueError ''specialist parent is missing or terminal'')
      | Some p \<Rightarrow>
          if terminal_run (rn_status p) then Inl (ValueError ''specialist parent is missing or terminal'')
          else if cap_int (leash_of p) ''max_specialist_depth'' 2 < int (rn_depth p) + 1
          then Inl (ValueError ''specialist depth exceeds parent leash'')
          else
            bind_result (narrow_leash (te_host E) (JObj (leash_of p)) leash) (\<lambda>d.
            bind_result (normalize_resources (te_host E) (te_canon E)
                (case resources of None \<Rightarrow> map resource_json (resources_of p) | Some xs \<Rightarrow> xs)) (\<lambda>rs.
              if within_parent (resources_of p) rs then Inr (d, rs)
              else Inl (ValueError ''specialist resource expands parent ownership''))))"

definition spawn_row :: "tree_env \<Rightarrow> agent_run \<Rightarrow> agent_run \<Rightarrow> pystr \<Rightarrow> int \<Rightarrow> run_tree \<Rightarrow> agent_run result \<times> run_tree" where
  "spawn_row E parent r role now t =
     (case run_row t (rn_id r) of
        Some old \<Rightarrow>
          (case decode_run old of
             Inl e \<Rightarrow> (Inl e, t)
           | Inr _ \<Rightarrow>
               if same_spawn E old r \<and> rn_role old = rn_role r then (Inr old, t)
               else (Inl (ValueError ''specialist run id collision: already bound to different authority''), t))
      | None \<Rightarrow>
          if stopping_run parent then (Inl (ValueError ''specialist parent is stopping or terminal''), t)
          else if cap_int (leash_of parent) ''max_specialists'' 4 \<le> int (length (active_children t (rn_id parent)))
          then (Inl (ValueError ''parent specialist concurrency budget exhausted''), t)
          else case sibling_conflict (active_children t (rn_id parent)) (resources_of r) of
             Inl e \<Rightarrow> (Inl e, t)
           | Inr _ \<Rightarrow>
               if \<not> finite_json (JObj (leash_of r)) then (Inl (ValueError ''Out of range float values are not JSON compliant''), t)
               else if projection_row t (rn_id r) \<noteq> None then (Inl (OtherError ''IntegrityError''), t)
               else (Inr r, created_hook E r now
                 (add_event (rn_id parent) ''child_created'' [(u ''run_id'', JStr (rn_id r)), (u ''role'', JStr role)] now
                 (add_event (rn_id r) ''created'' [(u ''parent_run_id'', JStr (rn_id parent)), (u ''role'', JStr role),
                     (u ''status'', JStr (status_text (rn_status r)))] now
                   (insert_run r now t)))))"

definition spawn_specialist :: "tree_env \<Rightarrow> pystr \<Rightarrow> int \<Rightarrow> pystr \<Rightarrow> pystr \<Rightarrow> pystr \<Rightarrow> json option \<Rightarrow> (json list) option \<Rightarrow> pystr \<Rightarrow> pystr
    \<Rightarrow> pystr \<Rightarrow> run_tree \<Rightarrow> agent_run result \<times> run_tree" where
  "spawn_specialist E fresh now parent_id role task leash resources run_id ws0 mode t =
     (case bind_result (get_run t parent_id) (\<lambda>p. spawn_authority E p leash resources) of
        Inl e \<Rightarrow> (Inl e, t)
      | Inr (d, rs) \<Rightarrow>
          (case run_row t parent_id of
             None \<Rightarrow> (Inl (ValueError ''specialist parent is missing or terminal''), t)
           | Some p \<Rightarrow>
               spawn_row E p
                 (fresh_run (or_str run_id (u ''run_'' @ fresh)) parent_id (rn_root p) [] (rn_depth p + 1)
                    (take 80 (or_str role (u ''specialist''))) (take 4000 task) d rs mode (canonical_ws E ws0) now)
                 role now t))"

subsection \<open>Workspaces\<close>

definition bind_workspace :: "tree_env \<Rightarrow> int \<Rightarrow> pystr \<Rightarrow> pystr \<Rightarrow> bool \<Rightarrow> run_tree \<Rightarrow> agent_run option result \<times> run_tree" where
  "bind_workspace E now rid path owns t =
     (let dir = te_canon E path in
      if path = [] \<or> \<not> te_isdir E dir then (Inl (ValueError ''provisioned worktree does not exist''), t)
      else
        let (n, t1) = update_runs (\<lambda>r. rn_id r = rid \<and> \<not> terminal_run (rn_status r) \<and> rn_owner r = []
                                      \<and> (rn_workspace r = [] \<or> rn_workspace r = dir))
              (\<lambda>r. r\<lparr>rn_workspace := dir, rn_owns := owns, rn_updated := now,
                 rn_status := if rn_status r = R_WORKSPACE_REQUIRED then R_QUEUED else rn_status r\<rparr>) t
        in if n = 0 then (Inr None, t1)
           else let t2 = add_event rid ''workspace_bound'' [(u ''workspace'', JStr dir), (u ''owned'', JBool owns)] now t1
                in (get_run t2 rid, t2))"

definition initialize_root_workspace_authority :: "tree_env \<Rightarrow> int \<Rightarrow> pystr \<Rightarrow> pystr \<Rightarrow> pystr \<Rightarrow> run_tree
    \<Rightarrow> agent_run option result \<times> run_tree" where
  "initialize_root_workspace_authority E now rid path mode0 t =
     (let dir = te_canon E path; mode = py_lower (te_host E) (or_str mode0 (u ''read''));
          grant = \<lparr>rs_kind = u ''file'', rs_id = dir, rs_write = (mode = u ''write'')\<rparr> in
      if path = [] \<or> \<not> te_isdir E dir then (Inl (ValueError ''root workspace does not exist''), t)
      else if mode \<noteq> u ''read'' \<and> mode \<noteq> u ''write'' then (Inl (ValueError ''root workspace authority must be read or write''), t)
      else case run_row t rid of
        None \<Rightarrow> (Inl (ValueError ''root run is missing''), t)
      | Some r \<Rightarrow>
          (case decode_run r of
             Inl e \<Rightarrow> (Inl e, t)
           | Inr _ \<Rightarrow>
               if rn_parent r \<noteq> [] then (Inl (ValueError ''workspace authority can only initialize a root run''), t)
               else if rn_workspace r = dir \<and> resources_of r = [grant] \<and> \<not> terminal_run (rn_status r) \<and> \<not> rn_cancel r
               then (Inr (Some r), t)
               else if rn_workspace r \<noteq> [] \<or> resources_of r \<noteq> [] \<or> rn_status r \<noteq> R_WORKSPACE_REQUIRED \<or> rn_owner r \<noteq> [] \<or> rn_cancel r
               then (Inl (ValueError ''root workspace authority is already initialized or unavailable''), t)
               else if list_ex (\<lambda>c. rn_root c = rid \<and> rn_id c \<noteq> rid \<and> \<not> terminal_run (rn_status c)) (tt_runs t)
               then (Inl (ValueError ''root workspace authority cannot initialize while specialists are active''), t)
               else
                 let t1 = snd (update_runs (\<lambda>c. rn_id c = rid \<and> rn_workspace c = [] \<and> rn_resources c = Some [] \<and> rn_status c = R_WORKSPACE_REQUIRED
                                               \<and> rn_owner c = [] \<and> \<not> rn_cancel c)
                        (\<lambda>c. c\<lparr>rn_workspace := dir, rn_resources := Some [grant], rn_status := R_QUEUED, rn_updated := now\<rparr>) t);
                     t2 = add_event rid ''root_workspace_authority_initialized'' [(u ''workspace'', JStr dir), (u ''mode'', JStr mode)] now t1
                 in (get_run t2 rid, t2)))"

definition put_projection :: "pystr \<Rightarrow> pystr \<Rightarrow> int \<Rightarrow> run_tree \<Rightarrow> run_tree" where
  "put_projection rid mission now t =
     (case projection_row t rid of
        None \<Rightarrow> t\<lparr>tt_proj := tt_proj t @ [\<lparr>pj_run = rid, pj_mission = mission, pj_initialized = False, pj_used = no_usage, pj_updated = now\<rparr>]\<rparr>
      | Some _ \<Rightarrow> t\<lparr>tt_proj := map (\<lambda>p. if pj_run p = rid then p\<lparr>pj_mission := mission, pj_updated := now\<rparr> else p) (tt_proj t)\<rparr>)"

definition bind_mission :: "int \<Rightarrow> pystr \<Rightarrow> pystr \<Rightarrow> run_tree \<Rightarrow> bool \<times> run_tree" where
  "bind_mission now rid mission t =
     (let (n, t1) = update_runs (\<lambda>r. rn_id r = rid \<and> \<not> terminal_run (rn_status r) \<and> rn_owner r = []
                                    \<and> (rn_mission r = [] \<or> rn_mission r = mission))
            (\<lambda>r. r\<lparr>rn_mission := mission, rn_updated := now\<rparr>) t
      in if n = 0 then (False, t1)
         else if (case projection_row t rid of None \<Rightarrow> False | Some p \<Rightarrow> pj_mission p \<noteq> [] \<and> pj_mission p \<noteq> mission) then (False, t)
         else (n = 1, put_projection rid mission now t1))"

text \<open>
  \<open>provision_worktree\<close> runs \<open>git\<close> between its transactions, while other processes work on the
  store: it is modelled as the claim, the release after a failure and the binding.
\<close>

datatype provision = PROV_READY pystr bool | PROV_NOT_NEEDED | PROV_FAILED | PROV_BUSY | PROV_CLAIMED pystr

record prepared =
  pr_ok :: bool
  pr_kind :: pystr
  pr_dir :: pystr

definition worktree_label :: "tree_env \<Rightarrow> agent_run \<Rightarrow> pystr" where
  "worktree_label E r = take 24 (or_str (rn_role r) (u ''specialist'')) @ [45] @ take 16 (sha256_hex (te_host E) (rn_id r))"

definition provision_claim :: "tree_env \<Rightarrow> pystr \<Rightarrow> int \<Rightarrow> pystr \<Rightarrow> run_tree \<Rightarrow> provision result \<times> run_tree" where
  "provision_claim E tok now rid t =
     (case get_run t rid of
        Inl e \<Rightarrow> (Inl e, t)
      | Inr None \<Rightarrow> (Inr PROV_NOT_NEEDED, t)
      | Inr (Some r) \<Rightarrow>
          if rn_mode r \<noteq> u ''worktree'' then (Inr PROV_NOT_NEEDED, t)
          else if rn_workspace r \<noteq> [] then (Inr (PROV_READY (rn_workspace r) True), t)
          else
            let (n, t1) = update_runs (\<lambda>c. rn_id c = rid \<and> rn_status c = R_WORKSPACE_REQUIRED \<and> rn_workspace c = [] \<and> \<not> rn_cancel c
                                          \<and> (rn_owner c = [] \<or> rn_lease c < now))
                  (\<lambda>c. c\<lparr>rn_owner := tok, rn_lease := now + 300, rn_updated := now\<rparr>) t
            in if n = 0 then (Inr PROV_BUSY, t1)
               else (Inr (PROV_CLAIMED (worktree_label E r)),
                     add_event rid ''workspace_provision_claimed'' [(u ''lease_until'', JInt (now + 300))] now t1))"

definition provision_release :: "int \<Rightarrow> pystr \<Rightarrow> pystr \<Rightarrow> run_tree \<Rightarrow> run_tree" where
  "provision_release now rid tok t =
     snd (update_runs (\<lambda>c. rn_id c = rid \<and> rn_status c = R_WORKSPACE_REQUIRED \<and> rn_owner c = tok \<and> rn_workspace c = [])
       (\<lambda>c. c\<lparr>rn_owner := [], rn_lease := 0, rn_updated := now\<rparr>) t)"

definition provision_answer :: "int \<Rightarrow> pystr \<Rightarrow> pystr \<Rightarrow> (agent_run option \<Rightarrow> provision) \<Rightarrow> run_tree \<Rightarrow> provision result \<times> run_tree" where
  "provision_answer now rid tok ans t =
     (case get_run t rid of Inl e \<Rightarrow> (Inl e, provision_release now rid tok t) | Inr r \<Rightarrow> (Inr (ans r), t))"

text \<open>\<open>None\<close> is an exception of the preparation, raised again after the release.\<close>

definition provision_finish :: "tree_env \<Rightarrow> int \<Rightarrow> pystr \<Rightarrow> pystr \<Rightarrow> prepared option \<Rightarrow> run_tree \<Rightarrow> provision result \<times> run_tree" where
  "provision_finish E now rid tok prep t =
     (case prep of
        None \<Rightarrow> (Inl (OtherError ''Exception''), provision_release now rid tok t)
      | Some p \<Rightarrow>
          if \<not> pr_ok p \<or> pr_kind p \<noteq> u ''worktree''
          then provision_answer now rid tok (\<lambda>_. PROV_FAILED) (provision_release now rid tok t)
          else let dir = te_canon E (pr_dir p) in
            if dir = [] \<or> \<not> te_isdir E dir
            then (Inl (ValueError ''provisioned worktree does not exist''), provision_release now rid tok t)
            else
              let (n, t1) = update_runs (\<lambda>c. rn_id c = rid \<and> rn_status c = R_WORKSPACE_REQUIRED \<and> rn_workspace c = [] \<and> rn_owner c = tok \<and> \<not> rn_cancel c)
                    (\<lambda>c. c\<lparr>rn_workspace := dir, rn_owns := True, rn_status := R_QUEUED, rn_owner := [], rn_lease := 0, rn_updated := now\<rparr>) t
              in if n = 0
                 then provision_answer now rid tok
                   (\<lambda>c. if (case c of None \<Rightarrow> False | Some r \<Rightarrow> rn_workspace r \<noteq> []) then PROV_READY (pr_dir p) True else PROV_BUSY) t1
                 else provision_answer now rid tok (\<lambda>_. PROV_READY (pr_dir p) False)
                   (add_event rid ''workspace_bound'' [(u ''workspace'', JStr dir), (u ''owned'', JBool True)] now t1))"

subsection \<open>Budgets\<close>

text \<open>\<open>json.dumps(v, ensure_ascii=False, sort_keys=True)\<close> and its length in UTF-8.\<close>

fun sorted_text :: "pyhost \<Rightarrow> json \<Rightarrow> pystr" where
  "sorted_text H (JList xs) = [91] @ join (u '', '') (map (sorted_text H) xs) @ [93]"
| "sorted_text H (JObj d) = [123] @ join (u '', '') (map (\<lambda>(k, s). json_quote k @ u '': '' @ s)
     (sorted_pairs (map (\<lambda>(k, v). (k, sorted_text H v)) d))) @ [125]"
| "sorted_text H v = json_text H v"

definition utf8_bytes :: "pystr \<Rightarrow> nat" where
  "utf8_bytes s = sum_list (map (\<lambda>c. if c < 128 then 1 else if c < 2048 then 2 else if c < 65536 then 3 else 4) s)"

definition payload_bytes :: "tree_env \<Rightarrow> pydict \<Rightarrow> nat" where
  "payload_bytes E d = utf8_bytes (sorted_text (te_host E) (JObj d))"

definition storage_bytes :: "tree_env \<Rightarrow> pystr \<Rightarrow> run_tree \<Rightarrow> nat" where
  "storage_bytes E rid t =
     (case run_row t rid of
        None \<Rightarrow> 0
      | Some r \<Rightarrow>
          utf8_bytes (rn_task r) + payload_bytes E (leash_of r)
          + utf8_bytes (sorted_text (te_host E) (JList (map resource_json (resources_of r)))) + utf8_bytes (rn_result r)
          + sum_list (map (payload_bytes E \<circ> ev_payload) (filter (\<lambda>e. ev_run e = rid) (tt_events t)))
          + sum_list (map (payload_bytes E \<circ> ms_payload) (filter (\<lambda>m. ms_run m = rid \<or> ms_sender m = rid) (tt_mail t))))"

definition cap_rat :: "pydict \<Rightarrow> string \<Rightarrow> rat \<Rightarrow> rat" where
  "cap_rat leash k dflt = (case dget leash (u k) of Some (JFloat (Fin q)) \<Rightarrow> q | _ \<Rightarrow> dflt)"

definition first_reason :: "(bool \<times> string) list \<Rightarrow> pystr" where
  "first_reason checks = (case List.find fst checks of None \<Rightarrow> [] | Some (_, why) \<Rightarrow> u why)"

definition budget_reason :: "tree_env \<Rightarrow> int \<Rightarrow> pystr \<Rightarrow> run_tree \<Rightarrow> pystr result" where
  "budget_reason E now rid t =
     (case get_run t rid of
        Inl e \<Rightarrow> Inl e
      | Inr None \<Rightarrow> Inr (u ''run missing'')
      | Inr (Some r) \<Rightarrow>
          let d = leash_of r; us = rn_used r; over = (\<lambda>n k dflt. cap_int d k dflt \<le> int n) in
          Inr (first_reason
            [(over (us_input us + us_output us + us_cache us) ''max_model_tokens'' 2000000, ''model-token budget exhausted''),
             (over (us_calls us) ''max_model_calls'' (cap_int d ''max_total_steps'' 1000), ''model-call budget exhausted''),
             (over (us_turns us) ''max_total_steps'' 1000, ''model-turn budget exhausted''),
             (cap_rat d ''max_model_cost_usd'' 25 \<le> te_float E (of_nat (us_cost us) / 1000000), ''model-cost budget exhausted''),
             (cap_int d ''max_active_wall_seconds'' 21600 * 1000 \<le> int (us_wall us), ''active wall-time budget exhausted''),
             (over (us_retries us) ''max_retries'' 32, ''retry budget exhausted''),
             (cap_int d ''max_elapsed_seconds'' 2592000 \<le> now - rn_created r, ''elapsed-time budget exhausted''),
             (over (storage_bytes E rid t) ''max_storage_bytes'' 5000000, ''durable-storage budget exhausted'')]))"

subsection \<open>Leases\<close>

text \<open>
  The climb of \<open>claim\<close> from a run's parent: it stops at a missing or stopping ancestor. The
  code climbs without a bound; the model visits at most as many ancestors as there are rows
  and answers \<open>CLIMB_LOOPS\<close> where the code would not return, which the invariant of the
  store excludes.
\<close>

datatype climb = CLIMB_ROOT "pystr list" | CLIMB_MISSING pystr | CLIMB_STOPPED pystr run_status | CLIMB_LOOPS

fun climb_from :: "nat \<Rightarrow> run_tree \<Rightarrow> pystr list \<Rightarrow> pystr \<Rightarrow> climb" where
  "climb_from n t acc pid =
     (if pid = [] then CLIMB_ROOT acc
      else case run_row t pid of
        None \<Rightarrow> CLIMB_MISSING pid
      | Some p \<Rightarrow>
          if stopping_run p then CLIMB_STOPPED pid (rn_status p)
          else case n of 0 \<Rightarrow> CLIMB_LOOPS | Suc m \<Rightarrow> climb_from m t (acc @ [pid]) (rn_parent p))"

declare climb_from.simps [simp del]

fun first_exhausted :: "tree_env \<Rightarrow> int \<Rightarrow> pystr list \<Rightarrow> run_tree \<Rightarrow> (pystr \<times> pystr) option \<times> run_tree" where
  "first_exhausted E now [] t = (None, t)"
| "first_exhausted E now (rid # rest) t =
     (case budget_reason E now rid t of
        Inl e \<Rightarrow>
          let why = u ''invalid durable TaskTree authority'';
              t1 = snd (update_runs (\<lambda>r. rn_id r = rid \<and> \<not> terminal_run (rn_status r) \<and> rn_owner r = [])
                     (\<lambda>r. r\<lparr>rn_status := R_RECOVERY_REQUIRED, rn_result := why, rn_updated := now\<rparr>) t)
          in (Some (rid, why), add_event rid ''recovery_required'' [(u ''reason'', JStr (u ''invalid_durable_authority''))] now t1)
      | Inr why \<Rightarrow> if why = [] then first_exhausted E now rest t else (Some (rid, why), t))"

definition park_claim :: "pystr \<Rightarrow> int \<Rightarrow> run_status \<Rightarrow> pystr \<Rightarrow> bool \<Rightarrow> run_tree \<Rightarrow> nat \<times> run_tree" where
  "park_claim rid now state result cancel t =
     update_runs (\<lambda>r. rn_id r = rid \<and> rn_status r = R_QUEUED \<and> rn_owner r = [])
       (\<lambda>r. r\<lparr>rn_status := state, rn_result := result, rn_cancel := cancel, rn_cancel_ack := (if cancel then now else 0), rn_updated := now\<rparr>) t"

definition keep_claim :: "pystr \<Rightarrow> int \<Rightarrow> run_status \<Rightarrow> pystr \<Rightarrow> run_tree \<Rightarrow> nat \<times> run_tree" where
  "keep_claim rid now state result t =
     update_runs (\<lambda>r. rn_id r = rid \<and> rn_status r = R_QUEUED \<and> rn_owner r = [])
       (\<lambda>r. r\<lparr>rn_status := state, rn_result := result, rn_updated := now\<rparr>) t"

definition refuse_stopped :: "pystr \<Rightarrow> int \<Rightarrow> pystr \<Rightarrow> pystr \<Rightarrow> bool \<Rightarrow> run_tree \<Rightarrow> run_tree" where
  "refuse_stopped rid now anc why missing t =
     (let (n, t1) = park_claim rid now (if missing then R_NEEDS_YOU else R_CANCELLED) (anc @ u '': '' @ why) (\<not> missing) t
      in if n = 0 then t1
         else notify rid (if missing then ''needs_you'' else ''cancelled'') [(u ''reason'', JStr why)] now
                (add_event rid ''ancestor_stopped_claim'' [(u ''ancestor_run_id'', JStr anc), (u ''reason'', JStr why)] now t1))"

definition refuse_budget :: "pystr \<Rightarrow> int \<Rightarrow> pystr \<Rightarrow> pystr \<Rightarrow> run_tree \<Rightarrow> run_tree" where
  "refuse_budget rid now who why t =
     (let reason = who @ u '': '' @ why; (n, t1) = keep_claim rid now R_NEEDS_YOU (take 4000 reason) t
      in if n = 0 then t1
         else notify rid ''needs_you'' [(u ''reason'', JStr (take 1000 reason))] now
                (add_event rid ''budget_blocked'' [(u ''budget_run_id'', JStr who), (u ''reason'', JStr why)] now t1))"

definition refuse_corrupt :: "pystr \<Rightarrow> int \<Rightarrow> exc \<Rightarrow> run_tree \<Rightarrow> run_tree" where
  "refuse_corrupt rid now e t =
     (let detail = u ''invalid durable TaskTree authority: '' @ take 500 (error_text e)
      in notify rid ''recovery_required'' [(u ''reason'', JStr (take 1000 detail))] now
           (add_event rid ''recovery_required'' [(u ''reason'', JStr (u ''invalid_durable_authority''))] now
             (snd (keep_claim rid now R_RECOVERY_REQUIRED detail t))))"

definition take_lease :: "pystr \<Rightarrow> pystr \<Rightarrow> int \<Rightarrow> int \<Rightarrow> run_tree \<Rightarrow> pystr option \<times> run_tree" where
  "take_lease rid tok now secs t =
     (let (n, t1) = update_runs (\<lambda>r. rn_id r = rid \<and> rn_status r = R_QUEUED \<and> rn_owner r = [] \<and> \<not> rn_cancel r)
            (\<lambda>r. r\<lparr>rn_status := R_RUNNING, rn_owner := tok, rn_lease := now + secs, rn_updated := now\<rparr>) t
      in if n = 0 then (None, t1)
         else (Some tok, add_event rid ''claimed'' [(u ''lease_until'', JInt (now + secs))] now t1))"

definition claim :: "tree_env \<Rightarrow> pystr \<Rightarrow> int \<Rightarrow> pystr \<Rightarrow> json \<Rightarrow> run_tree \<Rightarrow> pystr option result \<times> run_tree" where
  "claim E tok now rid lease t =
     (case spend_value lease of
        None \<Rightarrow> (Inl (ValueError ''lease_s must be a finite non-negative number''), t)
      | Some secs \<Rightarrow>
     (case run_row t rid of
        None \<Rightarrow> (Inr None, t)
      | Some r \<Rightarrow>
          if rn_status r \<noteq> R_QUEUED then (Inr None, t)
          else case decode_run r of
            Inl e \<Rightarrow> (Inr None, refuse_corrupt rid now e t)
          | Inr _ \<Rightarrow>
              (case climb_from (length (tt_runs t)) t [rid] (rn_parent r) of
                 CLIMB_LOOPS \<Rightarrow> (Inl (OtherError ''does not return''), t)
               | CLIMB_MISSING p \<Rightarrow> (Inr None, refuse_stopped rid now p (u ''ancestor is missing'') True t)
               | CLIMB_STOPPED p s \<Rightarrow> (Inr None, refuse_stopped rid now p (u ''ancestor is '' @ status_text s) False t)
               | CLIMB_ROOT ancestry \<Rightarrow>
                   if rn_cancel r then (Inr None, refuse_stopped rid now rid (u ''cancellation already requested'') False t)
                   else case first_exhausted E now ancestry t of
                     (Some (who, why), t1) \<Rightarrow> (Inr None, refuse_budget rid now who why t1)
                   | (None, t1) \<Rightarrow> apfst Inr (take_lease rid tok now \<lfloor>secs\<rfloor> t1))))"

definition renew :: "int \<Rightarrow> pystr \<Rightarrow> pystr \<Rightarrow> json \<Rightarrow> run_tree \<Rightarrow> bool \<times> run_tree" where
  "renew now rid tok lease t =
     (case spend_value lease of
        None \<Rightarrow> (False, t)
      | Some secs \<Rightarrow>
          apfst (\<lambda>n. n = 1) (update_runs (\<lambda>r. rn_id r = rid \<and> owned_state (rn_status r) \<and> rn_owner r = tok)
            (\<lambda>r. r\<lparr>rn_lease := now + \<lfloor>secs\<rfloor>, rn_updated := now\<rparr>) t))"

text \<open>\<open>max(0, min(100, float(percent)))\<close>.\<close>

definition percent_value :: "json \<Rightarrow> json option" where
  "percent_value v =
     (case (case v of JInt i \<Rightarrow> Some (of_int i) | JFloat (Fin q) \<Rightarrow> Some q | _ \<Rightarrow> None) of
        None \<Rightarrow> None
      | Some q \<Rightarrow> Some (if 100 \<le> q then JInt 100 else if q \<le> 0 then JInt 0 else JFloat (Fin q)))"

definition progress :: "int \<Rightarrow> pystr \<Rightarrow> pystr \<Rightarrow> pystr \<Rightarrow> json \<Rightarrow> json \<Rightarrow> run_tree \<Rightarrow> bool \<times> run_tree" where
  "progress now rid tok summary percent detail t =
     (case (if percent = JNull then Some [] else map_option (\<lambda>v. [(u ''percent'', v)]) (percent_value percent)) of
        None \<Rightarrow> (False, t)
      | Some pc \<Rightarrow>
          let payload = (u ''summary'', JStr (take 1000 summary)) # pc @ (if detail = JNull then [] else [(u ''detail'', detail)]) in
          if \<not> finite_json (JObj payload) then (False, t)
          else
            let (n, t1) = update_runs (\<lambda>r. rn_id r = rid \<and> owned_state (rn_status r) \<and> rn_owner r = tok)
                  (\<lambda>r. r\<lparr>rn_seq := rn_seq r + 1, rn_progress_at := now, rn_updated := now\<rparr>) t
            in (n = 1, if n = 0 then t1 else add_event rid ''progress'' payload now t1))"

definition set_background :: "int \<Rightarrow> pystr \<Rightarrow> bool \<Rightarrow> pystr \<Rightarrow> run_tree \<Rightarrow> bool \<times> run_tree" where
  "set_background now rid b tok t =
     apfst (\<lambda>n. n = 1) (update_runs (\<lambda>r. rn_id r = rid \<and> \<not> terminal_run (rn_status r) \<and> (tok = [] \<or> rn_owner r = tok))
       (\<lambda>r. r\<lparr>rn_background := b, rn_updated := now\<rparr>) t)"

subsection \<open>What a child reports to its parent\<close>

definition child_result_sent :: "run_tree \<Rightarrow> pystr \<Rightarrow> pystr \<Rightarrow> message option" where
  "child_result_sent t parent rid =
     List.find (\<lambda>m. ms_run m = parent \<and> ms_sender m = rid \<and> ms_kind m = u ''child_result'') (tt_mail t)"

definition bounded_observation :: "tree_env \<Rightarrow> json \<Rightarrow> json" where
  "bounded_observation E v =
     (case v of
        JObj d \<Rightarrow>
          let raw = sorted_text (te_host E) (JObj d) in
          if 4000 < length raw then JObj [(u ''summary'', JStr (take 3900 raw)), (u ''truncated'', JBool True)] else JObj d
      | _ \<Rightarrow> JObj [])"

definition child_payload :: "tree_env \<Rightarrow> agent_run \<Rightarrow> run_status \<Rightarrow> pystr \<Rightarrow> json \<Rightarrow> json \<Rightarrow> pydict" where
  "child_payload E r state result artifacts observation =
     [(u ''run_id'', JStr (rn_id r)), (u ''mission_id'', JStr (rn_mission r)), (u ''role'', JStr (rn_role r)),
      (u ''state'', JStr (status_text state)), (u ''result'', JStr (take 4000 result)),
      (u ''artifacts'', JList (map JObj (normalize_artifact_refs (te_host E) artifacts))),
      (u ''observation'', bounded_observation E observation)]"

definition queue_child_result :: "tree_env \<Rightarrow> pystr \<Rightarrow> run_status \<Rightarrow> pystr \<Rightarrow> json \<Rightarrow> json \<Rightarrow> int \<Rightarrow> run_tree \<Rightarrow> nat option \<times> run_tree" where
  "queue_child_result E rid state result artifacts observation now t =
     (case run_row t rid of
        None \<Rightarrow> (None, t)
      | Some r \<Rightarrow>
          if rn_parent r = [] then (None, t)
          else case run_row t (rn_parent r) of
            None \<Rightarrow> (None, t)
          | Some p \<Rightarrow>
              if stopping_run p then (None, t)
              else case child_result_sent t (rn_parent r) rid of
                Some m \<Rightarrow> (Some (ms_id m), t)
              | None \<Rightarrow>
                  let (i, t1) = post_mail (rn_parent r) rid ''child_result'' (child_payload E r state result artifacts observation) now t
                  in (Some i, add_event (rn_parent r) ''child_result_queued''
                        [(u ''message_id'', JInt (int i)), (u ''run_id'', JStr rid), (u ''state'', JStr (status_text state)),
                         (u ''role'', JStr (rn_role r))] now t1))"

subsection \<open>Fencing a subtree\<close>

definition open_mail :: "message \<Rightarrow> bool" where
  "open_mail m \<longleftrightarrow> ms_state m = M_QUEUED \<or> ms_state m = M_DELIVERED"

definition cancel_pending :: "run_tree \<Rightarrow> pystr \<Rightarrow> bool" where
  "cancel_pending t rid \<longleftrightarrow> list_ex (\<lambda>m. ms_run m = rid \<and> ms_kind m = u ''cancel'' \<and> open_mail m \<and> ms_acked m = 0) (tt_mail t)"

text \<open>\<open>ORDER BY depth DESC, run_id\<close>: the deepest runs first.\<close>

definition deepest_first :: "run_tree \<Rightarrow> pystr list \<Rightarrow> agent_run list" where
  "deepest_first t ids = sort_key (\<lambda>r. - int (rn_depth r)) (sort_key rn_id (filter (\<lambda>r. List.member ids (rn_id r)) (tt_runs t)))"

definition post_cancel :: "pystr \<Rightarrow> pystr \<Rightarrow> int \<Rightarrow> run_tree \<Rightarrow> run_tree" where
  "post_cancel rid sender now t = (if cancel_pending t rid then t else snd (post_mail rid sender ''cancel'' [] now t))"

definition live_owner :: "agent_run \<Rightarrow> bool" where
  "live_owner r \<longleftrightarrow> owned_state (rn_status r) \<and> rn_owner r \<noteq> []"

definition fence_live :: "(agent_run \<Rightarrow> bool) \<Rightarrow> agent_run \<Rightarrow> pystr \<Rightarrow> pydict \<Rightarrow> int \<Rightarrow> run_tree \<Rightarrow> run_tree" where
  "fence_live held r sender payload now t =
     (let t1 = snd (update_runs (\<lambda>c. rn_id c = rn_id r \<and> owned_state (rn_status c) \<and> held c)
                 (\<lambda>c. c\<lparr>rn_status := R_CANCEL_REQUESTED, rn_cancel := True, rn_updated := now\<rparr>) t);
          t2 = post_cancel (rn_id r) sender now t1
      in if rn_status r = R_CANCEL_REQUESTED then t2 else add_event (rn_id r) ''cancel_requested'' payload now t2)"

definition cancel_idle :: "(agent_run \<Rightarrow> bool) \<Rightarrow> agent_run \<Rightarrow> pystr \<Rightarrow> int \<Rightarrow> run_tree \<Rightarrow> nat \<times> run_tree" where
  "cancel_idle free r result now t =
     update_runs (\<lambda>c. rn_id c = rn_id r \<and> \<not> terminal_run (rn_status c) \<and> free c)
       (\<lambda>c. c\<lparr>rn_status := R_CANCELLED, rn_result := result, rn_owner := [], rn_lease := 0, rn_cancel := True,
          rn_cancel_ack := now, rn_updated := now\<rparr>) t"

definition fence_descendant :: "pystr \<Rightarrow> pystr \<Rightarrow> int \<Rightarrow> agent_run \<Rightarrow> run_tree \<Rightarrow> run_tree" where
  "fence_descendant rid reason now r t =
     (if terminal_run (rn_status r) then t
      else if live_owner r
      then fence_live (\<lambda>c. rn_owner c = rn_owner r) r rid
             [(u ''cascade_from'', JStr rid), (u ''reason'', JStr (take 500 reason))] now t
      else
        let (n, t1) = cancel_idle (\<lambda>c. rn_owner c = []) r (take 4000 (or_str reason (u ''ancestor failed''))) now t
        in if n = 0 then t1
           else notify (rn_id r) ''cancelled'' [(u ''acknowledged'', JBool True), (u ''cascade_from'', JStr rid)] now
                  (add_event (rn_id r) ''cancel_acknowledged''
                     [(u ''without_worker'', JBool True), (u ''cascade_from'', JStr rid), (u ''reason'', JStr (take 500 reason))] now t1))"

definition cancel_descendants :: "pystr \<Rightarrow> int \<Rightarrow> pystr \<Rightarrow> run_tree \<Rightarrow> run_tree" where
  "cancel_descendants rid now reason t = fold (fence_descendant rid reason now) (deepest_first t (descendant_ids t rid)) t"

definition cancel_member :: "tree_env \<Rightarrow> pystr \<Rightarrow> pystr \<Rightarrow> int \<Rightarrow> agent_run \<Rightarrow> run_tree \<Rightarrow> run_tree" where
  "cancel_member E rid sender now r t =
     (let cascade = (u ''cascade_from'', JStr (if rn_id r = rid then [] else rid)) in
      if live_owner r then fence_live (\<lambda>_. True) r sender [cascade] now t
      else
        let (n, t1) = cancel_idle (\<lambda>_. True) r (u ''cancelled before execution'') now t
        in if n = 0 then t1
           else
             let t2 = notify (rn_id r) ''cancelled'' [(u ''acknowledged'', JBool True), cascade] now
                        (add_event (rn_id r) ''cancel_acknowledged'' [(u ''without_worker'', JBool True), cascade] now t1)
             in if rn_id r = rid
                then snd (queue_child_result E rid R_CANCELLED (u ''cancelled before execution'') JNull JNull now t2) else t2)"

definition request_cancel :: "tree_env \<Rightarrow> int \<Rightarrow> pystr \<Rightarrow> pystr \<Rightarrow> run_tree \<Rightarrow> bool \<times> run_tree" where
  "request_cancel E now rid sender t =
     (if run_row t rid = None then (False, t)
      else
        let active = filter (\<lambda>r. \<not> terminal_run (rn_status r)) (deepest_first t (subtree_ids t rid)) in
        if active = [] then (False, t) else (True, fold (cancel_member E rid sender now) active t))"

subsection \<open>Stops\<close>

definition stop_hook :: "tree_env \<Rightarrow> pystr \<Rightarrow> run_status \<Rightarrow> pystr \<Rightarrow> int \<Rightarrow> run_tree \<Rightarrow> hook_answer \<times> run_tree" where
  "stop_hook E rid state result now t =
     run_hook E ''TaskCompleted'' rid [(u ''run_id'', JStr rid), (u ''state'', JStr (status_text state)), (u ''result'', JStr (take 4000 result))]
       (status_text state) now t"

definition notice_hook :: "tree_env \<Rightarrow> pystr \<Rightarrow> string \<Rightarrow> run_status \<Rightarrow> int \<Rightarrow> run_tree \<Rightarrow> run_tree" where
  "notice_hook E rid kind state now t =
     snd (run_hook E ''Notification'' rid [(u ''run_id'', JStr rid), (u ''kind'', JStr (u kind)), (u ''state'', JStr (status_text state))]
       (u kind) now t)"

definition ancestor_failed :: "pystr \<Rightarrow> pystr" where
  "ancestor_failed rid = u ''cancelled because ancestor '' @ rid @ u '' failed''"

definition stop_row :: "tree_env \<Rightarrow> int \<Rightarrow> pystr \<Rightarrow> pystr \<Rightarrow> run_status \<Rightarrow> pystr \<Rightarrow> string \<Rightarrow> json \<Rightarrow> json \<Rightarrow> run_tree \<Rightarrow> nat \<times> run_tree" where
  "stop_row E now rid tok state result note artifacts observation t =
     (let (n, t1) = update_runs (\<lambda>r. rn_id r = rid \<and> rn_status r = R_RUNNING \<and> rn_owner r = tok)
            (\<lambda>r. r\<lparr>rn_status := state, rn_result := take 4000 result, rn_owner := [], rn_lease := 0, rn_updated := now\<rparr>) t
      in if n = 0 then (n, t1)
         else
           let t2 = add_event rid (status_name state) [(u ''result'', JStr (take 1000 result))] now t1;
               t3 = (if note = [] then t2 else notify rid note [(u ''state'', JStr (status_text state)), (u ''result'', JStr (take 1000 result))] now t2);
               t4 = (if state = R_FAILED then cancel_descendants rid now (ancestor_failed rid) t3 else t3)
           in (n, if terminal_run state then snd (queue_child_result E rid state result artifacts observation now t4) else t4))"

definition stop_owned :: "tree_env \<Rightarrow> int \<Rightarrow> pystr \<Rightarrow> pystr \<Rightarrow> run_status \<Rightarrow> pystr \<Rightarrow> string \<Rightarrow> json \<Rightarrow> json \<Rightarrow> run_tree \<Rightarrow> bool \<times> run_tree" where
  "stop_owned E now rid tok state result note artifacts observation t =
     (let (ans, t1) = (if state = R_COMPLETED \<or> state = R_FAILED then stop_hook E rid state result now t else (HOOK_NONE, t)) in
      case (if state = R_COMPLETED then ans else HOOK_NONE) of
        HOOK_ANSWER False why \<Rightarrow>
          (False, add_event rid ''completion_hook_blocked'' [(u ''reason'', JStr (or_str why (u ''policy check did not pass'')))] now t1)
      | _ \<Rightarrow>
          let (n, t2) = stop_row E now rid tok state result note artifacts observation t1
          in (n = 1, if n \<noteq> 0 \<and> note \<noteq> [] then notice_hook E rid note state now t2 else t2))"

definition block :: "tree_env \<Rightarrow> int \<Rightarrow> pystr \<Rightarrow> pystr \<Rightarrow> pystr \<Rightarrow> bool \<Rightarrow> run_tree \<Rightarrow> bool \<times> run_tree" where
  "block E now rid tok reason needs_you t =
     stop_owned E now rid tok (if needs_you then R_NEEDS_YOU else R_BLOCKED) reason (if needs_you then ''needs_you'' else ''blocked'') JNull JNull t"

definition complete_run :: "tree_env \<Rightarrow> int \<Rightarrow> pystr \<Rightarrow> pystr \<Rightarrow> pystr \<Rightarrow> json \<Rightarrow> json \<Rightarrow> run_tree \<Rightarrow> bool \<times> run_tree" where
  "complete_run E now rid tok result artifacts observation t =
     stop_owned E now rid tok R_COMPLETED result ''completed'' artifacts observation t"

definition fail_run :: "tree_env \<Rightarrow> int \<Rightarrow> pystr \<Rightarrow> pystr \<Rightarrow> pystr \<Rightarrow> run_tree \<Rightarrow> bool \<times> run_tree" where
  "fail_run E now rid tok result t = stop_owned E now rid tok R_FAILED result ''failed'' JNull JNull t"

definition park_waiting :: "tree_env \<Rightarrow> int \<Rightarrow> pystr \<Rightarrow> pystr \<Rightarrow> pystr \<Rightarrow> run_tree \<Rightarrow> bool \<times> run_tree" where
  "park_waiting E now rid tok reason t = stop_owned E now rid tok R_WAITING reason [] JNull JNull t"

definition mark_recovery :: "tree_env \<Rightarrow> int \<Rightarrow> pystr \<Rightarrow> pystr \<Rightarrow> pystr \<Rightarrow> run_tree \<Rightarrow> bool \<times> run_tree" where
  "mark_recovery E now rid tok reason t = stop_owned E now rid tok R_RECOVERY_REQUIRED reason ''recovery_required'' JNull JNull t"

definition fail_mission_root :: "tree_env \<Rightarrow> int \<Rightarrow> pystr \<Rightarrow> pystr \<Rightarrow> pystr \<Rightarrow> run_tree \<Rightarrow> bool \<times> run_tree" where
  "fail_mission_root E now rid mission result t =
     (case run_row t rid of
        None \<Rightarrow> (False, t)
      | Some r \<Rightarrow>
          if rn_parent r \<noteq> [] \<or> rn_mission r \<noteq> mission \<or> rn_owner r \<noteq> [] then (False, t)
          else if rn_status r = R_FAILED then (True, cancel_descendants rid now (ancestor_failed rid) t)
          else if terminal_run (rn_status r) then (False, t)
          else
            let reason = take 4000 (or_str result (u ''root Mission failed''));
                (n, t1) = update_runs (\<lambda>c. rn_id c = rid \<and> rn_parent c = [] \<and> rn_mission c = mission \<and> \<not> terminal_run (rn_status c) \<and> rn_owner c = [])
                  (\<lambda>c. c\<lparr>rn_status := R_FAILED, rn_result := reason, rn_owner := [], rn_lease := 0, rn_updated := now\<rparr>) t
            in if n = 0 then (False, t1)
               else
                 let t2 = cancel_descendants rid now (ancestor_failed rid)
                            (notify rid ''failed'' [(u ''state'', JStr (status_text R_FAILED)), (u ''result'', JStr (take 1000 reason))] now
                              (add_event rid (status_name R_FAILED) [(u ''result'', JStr (take 1000 reason))] now t1))
                 in (n = 1, notice_hook E rid ''failed'' R_FAILED now (snd (stop_hook E rid R_FAILED reason now t2))))"

definition complete_mission_root :: "tree_env \<Rightarrow> int \<Rightarrow> pystr \<Rightarrow> pystr \<Rightarrow> pystr \<Rightarrow> run_tree \<Rightarrow> bool \<times> run_tree" where
  "complete_mission_root E now rid mission result t =
     (case run_row t rid of
        None \<Rightarrow> (False, t)
      | Some r \<Rightarrow>
          if rn_parent r \<noteq> [] \<or> rn_root r \<noteq> rid \<or> rn_mission r \<noteq> mission \<or> rn_owner r \<noteq> [] \<or> rn_cancel r then (False, t)
          else if rn_status r = R_COMPLETED then (True, t)
          else if terminal_run (rn_status r) \<or> rn_status r = R_CANCEL_REQUESTED then (False, t)
          else if list_ex (\<lambda>c. rn_root c = rid \<and> rn_id c \<noteq> rid \<and> \<not> terminal_run (rn_status c)) (tt_runs t) then (False, t)
          else
            let outcome = take 4000 result;
                (n, t1) = update_runs (\<lambda>c. rn_id c = rid \<and> rn_parent c = [] \<and> rn_root c = rid \<and> rn_mission c = mission
                    \<and> \<not> terminal_run (rn_status c) \<and> rn_status c \<noteq> R_CANCEL_REQUESTED \<and> rn_owner c = [] \<and> \<not> rn_cancel c)
                  (\<lambda>c. c\<lparr>rn_status := R_COMPLETED, rn_result := outcome, rn_owner := [], rn_lease := 0, rn_updated := now\<rparr>) t
            in if n = 0 then (False, t1)
               else
                 let t2 = notify rid ''completed'' [(u ''state'', JStr (status_text R_COMPLETED)), (u ''result'', JStr (take 1000 outcome))] now
                            (add_event rid (status_name R_COMPLETED) [(u ''result'', JStr (take 1000 outcome))] now t1)
                 in (n = 1, notice_hook E rid ''completed'' R_COMPLETED now (snd (stop_hook E rid R_COMPLETED outcome now t2))))"

definition retire_cancel_mail :: "pystr \<Rightarrow> int \<Rightarrow> run_tree \<Rightarrow> run_tree" where
  "retire_cancel_mail rid now t =
     snd (update_mail (\<lambda>m. ms_run m = rid \<and> ms_kind m = u ''cancel'' \<and> open_mail m)
       (\<lambda>m. m\<lparr>ms_state := M_ACKED, ms_acked := now\<rparr>) t)"

definition acknowledged_cancel :: "tree_env \<Rightarrow> pystr \<Rightarrow> pystr \<Rightarrow> int \<Rightarrow> run_tree \<Rightarrow> run_tree" where
  "acknowledged_cancel E rid result now t =
     snd (queue_child_result E rid R_CANCELLED result JNull JNull now
       (notify rid ''cancelled'' [(u ''acknowledged'', JBool True)] now
         (add_event rid ''cancel_acknowledged'' [] now (retire_cancel_mail rid now t))))"

definition cancel_owned :: "tree_env \<Rightarrow> int \<Rightarrow> pystr \<Rightarrow> pystr \<Rightarrow> pystr \<Rightarrow> run_tree \<Rightarrow> bool \<times> run_tree" where
  "cancel_owned E now rid tok result t =
     (let (n, t1) = update_runs (\<lambda>r. rn_id r = rid \<and> owned_state (rn_status r) \<and> rn_owner r = tok)
            (\<lambda>r. r\<lparr>rn_status := R_CANCELLED, rn_result := take 4000 result, rn_owner := [], rn_lease := 0, rn_cancel := True,
               rn_cancel_ack := now, rn_updated := now\<rparr>) t
      in (n = 1, if n = 0 then t1 else acknowledged_cancel E rid result now t1))"

definition ack_cancel :: "tree_env \<Rightarrow> int \<Rightarrow> pystr \<Rightarrow> pystr \<Rightarrow> pystr \<Rightarrow> run_tree \<Rightarrow> bool \<times> run_tree" where
  "ack_cancel E now rid tok result t =
     (let (n, t1) = update_runs (\<lambda>r. rn_id r = rid \<and> rn_status r = R_CANCEL_REQUESTED \<and> rn_owner r = tok)
            (\<lambda>r. r\<lparr>rn_status := R_CANCELLED, rn_result := take 4000 result, rn_owner := [], rn_lease := 0,
               rn_cancel_ack := now, rn_updated := now\<rparr>) t
      in (n = 1, if n = 0 then t1 else acknowledged_cancel E rid result now t1))"

definition resume_run :: "int \<Rightarrow> pystr \<Rightarrow> run_tree \<Rightarrow> bool \<times> run_tree" where
  "resume_run now rid t =
     (let (n, t1) = update_runs (\<lambda>r. rn_id r = rid \<and> (rn_status r = R_BLOCKED \<or> rn_status r = R_NEEDS_YOU \<or> rn_status r = R_PAUSED)
              \<and> rn_owner r = [] \<and> \<not> rn_cancel r \<and> (rn_mode r \<noteq> u ''worktree'' \<or> rn_workspace r \<noteq> []))
            (\<lambda>r. r\<lparr>rn_status := R_QUEUED, rn_result := [], rn_updated := now\<rparr>) t
      in (n = 1, if n = 0 then t1 else add_event rid ''resumed'' [] now t1))"

definition wake_waiting :: "int \<Rightarrow> pystr \<Rightarrow> run_tree \<Rightarrow> nat \<times> run_tree" where
  "wake_waiting now rid t =
     update_runs (\<lambda>r. rn_id r = rid \<and> rn_status r = R_WAITING \<and> rn_owner r = [] \<and> \<not> rn_cancel r)
       (\<lambda>r. r\<lparr>rn_status := R_QUEUED, rn_result := [], rn_updated := now\<rparr>) t"

definition requeue_waiting :: "int \<Rightarrow> pystr \<Rightarrow> run_tree \<Rightarrow> bool \<times> run_tree" where
  "requeue_waiting now rid t =
     (let (n, t1) = wake_waiting now rid t in (n = 1, if n = 0 then t1 else add_event rid ''wake_due'' [] now t1))"

definition reconcile_run :: "int \<Rightarrow> pystr \<Rightarrow> pystr \<Rightarrow> run_tree \<Rightarrow> bool \<times> run_tree" where
  "reconcile_run now rid note t =
     (let fenced = list_ex (\<lambda>r. rn_id r = rid \<and> rn_status r = R_RECOVERY_REQUIRED \<and> rn_owner r = [] \<and> rn_cancel r) (tt_runs t);
          (n, t1) = update_runs (\<lambda>r. rn_id r = rid \<and> rn_status r = R_RECOVERY_REQUIRED \<and> rn_owner r = [])
            (\<lambda>r. r\<lparr>rn_status := R_QUEUED, rn_result := take 4000 (or_str note (u ''explicitly reconciled'')), rn_cancel := False, rn_updated := now\<rparr>) t
      in if n = 0 then (False, t1)
         else
           let t2 = add_event rid ''reconciled'' [(u ''note'', JStr note)] now t1
           in (n = 1, if fenced then add_event rid ''cancel_superseded_by_reconcile'' [] now (retire_cancel_mail rid now t2) else t2))"

definition orphan_phase :: "agent_run \<Rightarrow> pystr \<Rightarrow> bool" where
  "orphan_phase r phase \<longleftrightarrow>
     (let workspace_failure = rn_status r = R_WORKSPACE_REQUIRED \<and> rn_workspace r = [];
          mission_failure = (rn_status r = R_QUEUED \<or> rn_status r = R_RECOVERY_REQUIRED) \<and> rn_workspace r \<noteq> []
      in phase = u ''workspace'' \<and> workspace_failure \<or> phase = u ''mission'' \<and> mission_failure
         \<or> phase = [] \<and> (workspace_failure \<or> mission_failure))"

definition mark_orphan_needs_you :: "tree_env \<Rightarrow> int \<Rightarrow> pystr \<Rightarrow> pystr \<Rightarrow> pystr \<Rightarrow> run_tree \<Rightarrow> bool \<times> run_tree" where
  "mark_orphan_needs_you E now rid reason phase t =
     (case run_row t rid of
        None \<Rightarrow> (False, t)
      | Some r \<Rightarrow>
          if rn_parent r = [] \<or> \<not> orphan_phase r phase \<or> rn_owner r \<noteq> [] \<or> rn_cancel r then (False, t)
          else
            let result = take 4000 (or_str reason (u ''specialist reconciliation failed''));
                (n, t1) = update_runs (\<lambda>c. rn_id c = rid \<and> rn_parent c \<noteq> [] \<and> rn_status c = rn_status r \<and> rn_workspace c = rn_workspace r
                    \<and> rn_mission c = rn_mission r \<and> rn_owner c = [] \<and> \<not> rn_cancel c)
                  (\<lambda>c. c\<lparr>rn_status := R_NEEDS_YOU, rn_result := result, rn_updated := now\<rparr>) t
            in if n = 0 then (False, t1)
               else (n = 1, notice_hook E rid ''needs_you'' R_NEEDS_YOU now
                      (notify rid ''needs_you'' [(u ''reason'', JStr (take 1000 result))] now
                        (add_event rid ''orphan_reconciliation_failed'' [(u ''reason'', JStr (take 1000 result))] now t1))))"

definition requeue_mail :: "pystr \<Rightarrow> run_tree \<Rightarrow> nat \<times> run_tree" where
  "requeue_mail rid t =
     update_mail (\<lambda>m. ms_run m = rid \<and> ms_state m = M_DELIVERED \<and> ms_acked m = 0) (\<lambda>m. m\<lparr>ms_state := M_QUEUED, ms_delivered := 0\<rparr>) t"

definition recover_one :: "int \<Rightarrow> agent_run \<Rightarrow> run_tree \<Rightarrow> run_tree" where
  "recover_one now r t =
     (let (n, t1) = update_runs (\<lambda>c. rn_id c = rn_id r \<and> rn_owner c = rn_owner r \<and> owned_state (rn_status c) \<and> rn_lease c \<le> now)
            (\<lambda>c. c\<lparr>rn_status := R_RECOVERY_REQUIRED, rn_owner := [], rn_lease := 0,
               rn_result := u ''worker lease expired; inspect its worktree/resources before resume'', rn_updated := now\<rparr>) t
      in if n = 0 then t1
         else
           let (replayed, t2) = requeue_mail (rn_id r) t1
           in notify (rn_id r) ''recovery_required'' [] now
                (add_event (rn_id r) ''recovery_required''
                   [(u ''previous_status'', JStr (status_text (rn_status r))), (u ''messages_requeued'', JInt (int replayed))] now t2))"

definition stale_runs :: "int \<Rightarrow> run_tree \<Rightarrow> agent_run list" where
  "stale_runs now t = filter (\<lambda>r. live_owner r \<and> 0 < rn_lease r \<and> rn_lease r \<le> now) (tt_runs t)"

text \<open>Run ids are distinct, so every stale row is changed and counted.\<close>

definition recover_stale :: "int \<Rightarrow> run_tree \<Rightarrow> nat \<times> run_tree" where
  "recover_stale now t = (length (stale_runs now t), fold (recover_one now) (stale_runs now t) t)"

subsection \<open>The mailbox\<close>

definition steer :: "int \<Rightarrow> pystr \<Rightarrow> pystr \<Rightarrow> pystr \<Rightarrow> run_tree \<Rightarrow> nat option result \<times> run_tree" where
  "steer now rid text sender t =
     (if strip text = [] then (Inl (ValueError ''steer text is empty''), t)
      else case run_row t rid of
        None \<Rightarrow> (Inr None, t)
      | Some r \<Rightarrow>
          if stopping_run r then (Inr None, t)
          else
            let (i, t1) = post_mail rid sender ''steer'' [(u ''text'', JStr (take 4000 text))] now t
            in (Inr (Some i), add_event rid ''steer_queued'' [(u ''message_id'', JInt (int i))] now (snd (wake_waiting now rid t1))))"

definition deliver :: "nat list \<Rightarrow> int \<Rightarrow> run_tree \<Rightarrow> run_tree" where
  "deliver ids now t =
     snd (update_mail (\<lambda>m. List.member ids (ms_id m) \<and> ms_state m = M_QUEUED) (\<lambda>m. m\<lparr>ms_state := M_DELIVERED, ms_delivered := now\<rparr>) t)"

definition owns_run :: "run_tree \<Rightarrow> pystr \<Rightarrow> pystr \<Rightarrow> bool" where
  "owns_run t rid tok \<longleftrightarrow> list_ex (\<lambda>r. rn_id r = rid \<and> rn_owner r = tok \<and> owned_state (rn_status r)) (tt_runs t)"

definition claim_messages :: "int \<Rightarrow> pystr \<Rightarrow> pystr \<Rightarrow> int \<Rightarrow> run_tree \<Rightarrow> message list \<times> run_tree" where
  "claim_messages now rid tok limit t =
     (if \<not> owns_run t rid tok then ([], t)
      else
        let rows = take (nat (max 1 limit)) (filter (\<lambda>m. ms_run m = rid \<and> ms_state m = M_QUEUED) (tt_mail t))
        in (rows, deliver (map ms_id rows) now t))"

definition bound_live :: "run_tree \<Rightarrow> pystr \<Rightarrow> pystr \<Rightarrow> bool" where
  "bound_live t rid mission \<longleftrightarrow> (case run_row t rid of None \<Rightarrow> False | Some r \<Rightarrow> rn_mission r = mission \<and> \<not> stopping_run r)"

definition child_results :: "run_tree \<Rightarrow> pystr \<Rightarrow> message list" where
  "child_results t rid = filter (\<lambda>m. ms_run m = rid \<and> ms_kind m = u ''child_result'' \<and> open_mail m) (tt_mail t)"

definition claim_child_results :: "int \<Rightarrow> pystr \<Rightarrow> pystr \<Rightarrow> int \<Rightarrow> run_tree \<Rightarrow> message list \<times> run_tree" where
  "claim_child_results now rid mission limit t =
     (if \<not> bound_live t rid mission then ([], t)
      else
        let rows = take (nat (max 1 limit)) (child_results t rid)
        in (map (\<lambda>m. m\<lparr>ms_state := M_DELIVERED\<rparr>) rows, deliver (map ms_id (filter (\<lambda>m. ms_state m = M_QUEUED) rows)) now t))"

definition completion_blocker :: "pystr \<Rightarrow> pystr \<Rightarrow> run_tree \<Rightarrow> (pystr \<times> nat) option" where
  "completion_blocker rid mission t =
     (if \<not> bound_live t rid mission then Some (u ''calling run is stopping, terminal, or unbound'', 60)
      else
        let pending = length (child_results t rid);
            active = take 6 (sort_key rn_id (filter (\<lambda>r. List.member (descendant_ids t rid) (rn_id r) \<and> \<not> terminal_run (rn_status r)) (tt_runs t)))
        in if pending \<noteq> 0 then Some (dec (int pending) @ u '' delegated specialist result(s) await durable folding'', 1)
           else if active \<noteq> [] then
             Some (dec (int (length active)) @ u ''+ delegated specialist(s) still active (''
               @ join (u '', '') (map (\<lambda>r. or_str (rn_role r) (u ''specialist'') @ u '':'' @ status_text (rn_status r)) active) @ u '')'', 60)
           else None)"

definition has_child_results :: "pystr \<Rightarrow> pystr \<Rightarrow> run_tree \<Rightarrow> bool" where
  "has_child_results rid mission t \<longleftrightarrow>
     child_results t rid \<noteq> [] \<and> (case run_row t rid of None \<Rightarrow> False | Some r \<Rightarrow> rn_mission r = mission)"

definition has_messages :: "pystr \<Rightarrow> pystr list \<Rightarrow> run_tree \<Rightarrow> bool" where
  "has_messages rid kinds t \<longleftrightarrow> list_ex (\<lambda>m. ms_run m = rid \<and> List.member kinds (ms_kind m) \<and> open_mail m) (tt_mail t)"

definition ack_child_result :: "int \<Rightarrow> pystr \<Rightarrow> pystr \<Rightarrow> nat \<Rightarrow> run_tree \<Rightarrow> bool \<times> run_tree" where
  "ack_child_result now rid mission mid t =
     (case (run_row t rid, List.find (\<lambda>m. ms_id m = mid \<and> ms_run m = rid \<and> ms_kind m = u ''child_result'') (tt_mail t)) of
        (Some r, Some m) \<Rightarrow>
          if rn_mission r \<noteq> mission then (False, t)
          else if ms_state m = M_ACKED then (True, t)
          else
            let (n, t1) = update_mail (\<lambda>q. ms_id q = mid \<and> ms_run q = rid \<and> ms_kind q = u ''child_result'' \<and> ms_state q = M_DELIVERED)
                  (\<lambda>q. q\<lparr>ms_state := M_ACKED, ms_acked := now\<rparr>) t
            in (n = 1, if n = 0 then t1 else add_event rid ''child_result_acknowledged'' [(u ''message_id'', JInt (int mid))] now t1)
      | _ \<Rightarrow> (False, t))"

definition ack_message :: "int \<Rightarrow> pystr \<Rightarrow> pystr \<Rightarrow> nat \<Rightarrow> run_tree \<Rightarrow> bool \<times> run_tree" where
  "ack_message now rid tok mid t =
     (let (n, t1) = update_mail (\<lambda>m. ms_id m = mid \<and> ms_run m = rid \<and> ms_state m = M_DELIVERED \<and> owns_run t rid tok)
            (\<lambda>m. m\<lparr>ms_state := M_ACKED, ms_acked := now\<rparr>) t
      in (n = 1, if n = 0 then t1 else add_event rid ''message_acknowledged'' [(u ''message_id'', JInt (int mid))] now t1))"

definition is_descendant :: "pystr \<Rightarrow> pystr \<Rightarrow> run_tree \<Rightarrow> bool" where
  "is_descendant parent target t \<longleftrightarrow>
     parent \<noteq> [] \<and> target \<noteq> [] \<and> parent \<noteq> target \<and> List.member (descendant_ids t parent) target"

definition send_to_descendant :: "int \<Rightarrow> pystr \<Rightarrow> pystr \<Rightarrow> pystr \<Rightarrow> run_tree \<Rightarrow> nat option result \<times> run_tree" where
  "send_to_descendant now sender target text t =
     (if is_descendant sender target t then steer now target text sender t
      else (Inl (ValueError ''specialist target is outside caller descendant scope''), t))"

definition cancel_descendant :: "tree_env \<Rightarrow> int \<Rightarrow> pystr \<Rightarrow> pystr \<Rightarrow> run_tree \<Rightarrow> bool result \<times> run_tree" where
  "cancel_descendant E now sender target t =
     (if is_descendant sender target t then apfst Inr (request_cancel E now target sender t)
      else (Inl (ValueError ''specialist target is outside caller descendant scope''), t))"

definition notifications :: "bool \<Rightarrow> int \<Rightarrow> run_tree \<Rightarrow> notification list" where
  "notifications queued limit t = take (nat (max 1 limit)) (filter (\<lambda>n. nt_queued n = queued) (tt_notes t))"

definition ack_notification :: "int \<Rightarrow> nat \<Rightarrow> run_tree \<Rightarrow> bool \<times> run_tree" where
  "ack_notification now nid t =
     (let hit = (\<lambda>n. nt_id n = nid \<and> nt_queued n)
      in (length (filter hit (tt_notes t)) = 1,
          t\<lparr>tt_notes := map (\<lambda>n. if hit n then n\<lparr>nt_queued := False, nt_acked := now\<rparr> else n) (tt_notes t)\<rparr>))"

subsection \<open>Usage\<close>

record raw_usage =
  ru_input :: json
  ru_output :: json
  ru_cache :: json
  ru_calls :: json
  ru_turns :: json
  ru_cost_usd :: json
  ru_cost_micro :: "json option"
  ru_wall :: json
  ru_retries :: json

definition counter_value :: "json \<Rightarrow> nat result" where
  "counter_value v =
     (case spend_value v of
        None \<Rightarrow> Inl (ValueError ''must be a finite non-negative integer'')
      | Some q \<Rightarrow> if q = of_int \<lfloor>q\<rfloor> then Inr (nat \<lfloor>q\<rfloor>) else Inl (ValueError ''must be a finite non-negative integer''))"

definition cost_value :: "tree_env \<Rightarrow> raw_usage \<Rightarrow> nat result" where
  "cost_value E raw =
     (case ru_cost_micro raw of
        Some v \<Rightarrow> counter_value v
      | None \<Rightarrow>
          (case spend_value (ru_cost_usd raw) of
             None \<Rightarrow> Inl (ValueError ''cost_usd must be a finite non-negative number'')
           | Some q \<Rightarrow> Inr (nat (round_half_even (te_float E (q * 1000000))))))"

definition usage_values :: "tree_env \<Rightarrow> raw_usage \<Rightarrow> usage result" where
  "usage_values E raw =
     bind_result (cost_value E raw) (\<lambda>cost.
     bind_result (counter_value (ru_input raw)) (\<lambda>i.
     bind_result (counter_value (ru_output raw)) (\<lambda>out.
     bind_result (counter_value (ru_cache raw)) (\<lambda>cache.
     bind_result (counter_value (ru_calls raw)) (\<lambda>calls.
     bind_result (counter_value (ru_turns raw)) (\<lambda>turns.
     bind_result (counter_value (ru_wall raw)) (\<lambda>wall.
     bind_result (counter_value (ru_retries raw)) (\<lambda>retries.
       Inr \<lparr>us_input = i, us_output = out, us_cache = cache, us_calls = calls, us_turns = turns, us_cost = cost,
            us_wall = wall, us_retries = retries\<rparr>))))))))"

function ancestry_walk :: "run_tree \<Rightarrow> pystr \<Rightarrow> pystr list \<Rightarrow> agent_run \<Rightarrow> (pystr list) result" where
  "ancestry_walk t rt acc r =
     (if List.member acc (rn_id r) \<or> 64 \<le> length acc then Inl (ValueError ''run usage ancestry is cyclic or too deep'')
      else if rn_root r \<noteq> rt then Inl (ValueError ''run usage ancestry crosses root authority'')
      else if rn_parent r = []
      then (if rn_id r \<noteq> rn_root r then Inl (ValueError ''run usage ancestry is incomplete'') else Inr (acc @ [rn_id r]))
      else case run_row t (rn_parent r) of
        None \<Rightarrow> Inl (ValueError ''run usage ancestry is incomplete'')
      | Some p \<Rightarrow> ancestry_walk t rt (acc @ [rn_id r]) p)"
  by pat_completeness auto
termination by (relation "measure (\<lambda>(t, rt, acc, r). 64 - length acc)") auto

declare ancestry_walk.simps [simp del]

definition ancestry_of :: "run_tree \<Rightarrow> pystr \<Rightarrow> (pystr list) result" where
  "ancestry_of t rid =
     (case run_row t rid of None \<Rightarrow> Inl (ValueError ''run missing'') | Some r \<Rightarrow> ancestry_walk t (rn_root r) [] r)"

definition charge_usage :: "pystr list \<Rightarrow> usage \<Rightarrow> run_tree \<Rightarrow> run_tree" where
  "charge_usage ancestry us t =
     (if us = no_usage then t
      else snd (update_runs (\<lambda>r. List.member ancestry (rn_id r)) (\<lambda>r. r\<lparr>rn_used := combine_usage (+) (rn_used r) us\<rparr>) t))"

definition children_usage :: "run_tree \<Rightarrow> pystr \<Rightarrow> usage" where
  "children_usage t rid = fold (\<lambda>r us. combine_usage (+) us (rn_used r)) (filter (\<lambda>r. rn_parent r = rid) (tt_runs t)) no_usage"

fun over_budget :: "tree_env \<Rightarrow> int \<Rightarrow> pystr list \<Rightarrow> run_tree \<Rightarrow> ((pystr \<times> pystr) list) result" where
  "over_budget E now [] t = Inr []"
| "over_budget E now (rid # rest) t =
     bind_result (budget_reason E now rid t) (\<lambda>why. bind_result (over_budget E now rest t) (\<lambda>xs.
       Inr (if why = [] then xs else (rid, why) # xs)))"

definition usage_json :: "usage \<Rightarrow> json" where
  "usage_json us = JObj [(u ''input_tokens'', JInt (int (us_input us))), (u ''output_tokens'', JInt (int (us_output us))),
     (u ''cache_tokens'', JInt (int (us_cache us))), (u ''model_calls'', JInt (int (us_calls us))), (u ''turns'', JInt (int (us_turns us))),
     (u ''model_cost_microusd'', JInt (int (us_cost us))), (u ''active_wall_ms'', JInt (int (us_wall us))),
     (u ''retry_count'', JInt (int (us_retries us)))]"

definition own_usage :: "run_tree \<Rightarrow> agent_run \<Rightarrow> projection \<Rightarrow> usage" where
  "own_usage t r p = (if pj_initialized p then pj_used p else combine_usage (-) (rn_used r) (children_usage t (rn_id r)))"

definition raise_watermark :: "pystr \<Rightarrow> pystr \<Rightarrow> usage \<Rightarrow> int \<Rightarrow> run_tree \<Rightarrow> run_tree" where
  "raise_watermark rid mission high now t =
     t\<lparr>tt_proj := map (\<lambda>p. if pj_run p = rid
         then p\<lparr>pj_mission := mission, pj_initialized := True, pj_used := high, pj_updated := now\<rparr> else p) (tt_proj t)\<rparr>"

definition project_row :: "int \<Rightarrow> agent_run \<Rightarrow> pystr \<Rightarrow> usage \<Rightarrow> pystr list \<Rightarrow> run_tree \<Rightarrow> unit result \<times> run_tree" where
  "project_row now r mission absolute ancestry t0 =
     (let rid = rn_id r; t = (if projection_row t0 rid = None then put_projection rid mission now t0 else t0) in
      case projection_row t rid of
        None \<Rightarrow> (Inl (TypeError ''NoneType''), t0)
      | Some p \<Rightarrow>
          if pj_mission p \<noteq> [] \<and> pj_mission p \<noteq> mission then (Inl (ValueError ''Mission usage watermark belongs to another Mission''), t0)
          else
            let delta = combine_usage (-) absolute (own_usage t r p); high = combine_usage max absolute (pj_used p);
                t2 = charge_usage ancestry delta (raise_watermark rid mission high now t)
            in (Inr (), if delta = no_usage \<and> pj_initialized p then t2
                  else add_event rid (if pj_initialized p then ''mission_usage_projected'' else ''mission_usage_baselined'')
                    [(u ''mission_id'', JStr mission), (u ''delta'', usage_json delta), (u ''high_watermark'', usage_json high)] now t2))"

definition project_mission_usage :: "tree_env \<Rightarrow> int \<Rightarrow> pystr \<Rightarrow> pystr \<Rightarrow> raw_usage \<Rightarrow> run_tree \<Rightarrow> ((pystr \<times> pystr) list) result \<times> run_tree" where
  "project_mission_usage E now rid mission raw t =
     (case usage_values E raw of
        Inl e \<Rightarrow> (Inl e, t)
      | Inr absolute \<Rightarrow>
     (case run_row t rid of
        None \<Rightarrow> (Inl (ValueError ''run missing''), t)
      | Some r \<Rightarrow>
          if mission = [] \<or> rn_mission r \<noteq> mission then (Inl (ValueError ''Mission usage source does not match run binding''), t)
          else case ancestry_of t rid of
            Inl e \<Rightarrow> (Inl e, t)
          | Inr ancestry \<Rightarrow>
              (case project_row now r mission absolute ancestry t of
                 (Inl e, t1) \<Rightarrow> (Inl e, t1)
               | (Inr _, t1) \<Rightarrow> (over_budget E now ancestry t1, t1))))"

datatype accounted = ACC_LOST | ACC_OVER "(pystr \<times> pystr) list"

definition account_usage :: "tree_env \<Rightarrow> int \<Rightarrow> pystr \<Rightarrow> pystr \<Rightarrow> raw_usage \<Rightarrow> run_tree \<Rightarrow> accounted result \<times> run_tree" where
  "account_usage E now rid tok raw t =
     (case usage_values E raw of
        Inl e \<Rightarrow> (Inl e, t)
      | Inr us \<Rightarrow>
          if \<not> owns_run t rid tok then (Inr (if run_row t rid = None then ACC_OVER [] else ACC_LOST), t)
          else case ancestry_of t rid of
            Inl e \<Rightarrow> (Inl e, t)
          | Inr ancestry \<Rightarrow>
              let t1 = charge_usage ancestry us t
              in (bind_result (over_budget E now ancestry t1) (\<lambda>xs. Inr (ACC_OVER xs)), t1))"

subsection \<open>Reading the tree\<close>

fun decode_runs :: "agent_run list \<Rightarrow> (agent_run list) result" where
  "decode_runs [] = Inr []"
| "decode_runs (r # rs) = bind_result (decode_run r) (\<lambda>d. bind_result (decode_runs rs) (\<lambda>ds. Inr (d # ds)))"

definition tree_flat :: "pystr \<Rightarrow> run_tree \<Rightarrow> (agent_run list) result" where
  "tree_flat rid t =
     (case get_run t rid of
        Inl e \<Rightarrow> Inl e
      | Inr None \<Rightarrow> Inr []
      | Inr (Some r) \<Rightarrow>
          bind_result (decode_runs (sort_key (\<lambda>c. int (rn_depth c)) (sort_key rn_created (sort_key rn_id
              (filter (\<lambda>c. rn_root c = rn_root r) (tt_runs t)))))) (\<lambda>rows.
            Inr (filter (\<lambda>c. List.member (tree_wanted rows [rid]) (rn_id c)) rows)))"

definition resource_touches :: "resource \<Rightarrow> resource \<Rightarrow> bool" where
  "resource_touches a b \<longleftrightarrow> resource_contains a b \<or> resource_contains b a"

fun delegated_to :: "agent_run list \<Rightarrow> resource \<Rightarrow> (pystr option) result" where
  "delegated_to [] wanted = Inr None"
| "delegated_to (r # rs) wanted =
     (case rn_resources r of
        None \<Rightarrow> Inl (ValueError ''invalid durable TaskTree JSON'')
      | Some owned \<Rightarrow> if list_ex (\<lambda>d. resource_touches d wanted) owned then Inr (Some (rn_id r)) else delegated_to rs wanted)"

definition wanted_resource :: "tree_env \<Rightarrow> json \<Rightarrow> pystr \<Rightarrow> resource result" where
  "wanted_resource E v mode =
     normalize_resource (te_host E) (te_canon E)
       (JObj (dset (case v of JObj d \<Rightarrow> d | _ \<Rightarrow> [(u ''kind'', JStr (u ''file'')), (u ''id'', v)]) (u ''mode'') (JStr mode)))"

definition can_access :: "tree_env \<Rightarrow> pystr \<Rightarrow> json \<Rightarrow> pystr \<Rightarrow> run_tree \<Rightarrow> (bool \<times> pystr) result" where
  "can_access E rid v mode t =
     bind_result (get_run t rid) (\<lambda>run.
       case run of
         None \<Rightarrow> Inr (False, u ''run missing'')
       | Some r \<Rightarrow>
           bind_result (wanted_resource E v mode) (\<lambda>wanted.
             if \<not> list_ex (\<lambda>owned. resource_contains owned wanted) (resources_of r) then Inr (False, u ''resource is outside run ownership'')
             else if mode \<noteq> u ''write'' then Inr (True, u ''owned'')
             else
               bind_result (tree_flat rid t) (\<lambda>flat.
                 bind_result (delegated_to (filter (\<lambda>c. rn_root c = rn_root r \<and> rn_id c \<noteq> rid \<and> \<not> terminal_run (rn_status c)
                       \<and> List.member (map rn_id flat) (rn_id c)) (tt_runs t)) wanted) (\<lambda>holder.
                   Inr (case holder of None \<Rightarrow> (True, u ''owned'') | Some h \<Rightarrow> (False, u ''write ownership delegated to '' @ h))))))"

definition run_events :: "pystr \<Rightarrow> int \<Rightarrow> run_tree \<Rightarrow> run_event list" where
  "run_events rid limit t = rev (take (nat (max 1 limit)) (rev (filter (\<lambda>e. ev_run e = rid) (tt_events t))))"

definition by_creation :: "agent_run list \<Rightarrow> agent_run list" where
  "by_creation rs = sort_key rn_created (sort_key rn_id rs)"

definition list_runs :: "int \<Rightarrow> run_status list \<Rightarrow> bool \<Rightarrow> run_tree \<Rightarrow> (agent_run list) result \<times> run_tree" where
  "list_runs now states specialists t0 =
     (let t = (if specialists then snd (recover_stale now t0) else t0) in
      (decode_runs (by_creation (filter (\<lambda>r. (states = [] \<or> List.member states (rn_status r)) \<and> (specialists \<longrightarrow> rn_parent r \<noteq> [])) (tt_runs t))), t))"

definition usage_reconciliation_runs :: "run_tree \<Rightarrow> (agent_run list) result" where
  "usage_reconciliation_runs t =
     decode_runs (by_creation (filter (\<lambda>r. \<not> terminal_run (rn_status r) \<or> rn_mission r \<noteq> []
       \<and> (case projection_row t (rn_id r) of None \<Rightarrow> True | Some p \<Rightarrow> \<not> pj_initialized p)) (tt_runs t)))"

end
