(* ===== verification/TreeSafety.thy ===== *)
theory TreeSafety
  imports RunOps Latch
begin

text \<open>
  What every operation of the run tree keeps: the identity, the leash and the terminal state
  of a row, its counters (which only the two accounting operations raise), the messages
  already posted. One relation, \<open>tree_evolves\<close>, says it, its flag whether usage may grow; every operation of theory RunOps moves the store along it. The invariants of any
  sequence of operations, by any workers in any order, follow.
\<close>

subsection \<open>How a row may change\<close>

definition row_ok :: "agent_run \<Rightarrow> bool" where
  "row_ok r \<longleftrightarrow> (owned_state (rn_status r) \<longrightarrow> rn_owner r \<noteq> [])
     \<and> (rn_owner r \<noteq> [] \<longrightarrow> owned_state (rn_status r) \<or> rn_status r = R_WORKSPACE_REQUIRED)"

definition usage_le :: "usage \<Rightarrow> usage \<Rightarrow> bool" where
  "usage_le a b \<longleftrightarrow> us_input a \<le> us_input b \<and> us_output a \<le> us_output b \<and> us_cache a \<le> us_cache b \<and> us_calls a \<le> us_calls b
     \<and> us_turns a \<le> us_turns b \<and> us_cost a \<le> us_cost b \<and> us_wall a \<le> us_wall b \<and> us_retries a \<le> us_retries b"

definition same_origin :: "agent_run \<Rightarrow> agent_run \<Rightarrow> bool" where
  "same_origin r s \<longleftrightarrow> rn_id s = rn_id r \<and> rn_parent s = rn_parent r \<and> rn_root s = rn_root r \<and> rn_depth s = rn_depth r
     \<and> rn_role s = rn_role r \<and> rn_task s = rn_task r \<and> rn_leash s = rn_leash r \<and> rn_mode s = rn_mode r
     \<and> rn_spawn s = rn_spawn r \<and> rn_created s = rn_created r"

definition row_evolves :: "bool \<Rightarrow> agent_run \<Rightarrow> agent_run \<Rightarrow> bool" where
  "row_evolves ch r s \<longleftrightarrow> same_origin r s
     \<and> (rn_resources s = rn_resources r \<or> rn_parent r = [] \<and> rn_resources r = Some [] \<and> (\<exists>g. rn_resources s = Some [g]))
     \<and> (rn_mission r \<noteq> [] \<longrightarrow> rn_mission s = rn_mission r)
     \<and> (terminal_run (rn_status r) \<longrightarrow> rn_status s = rn_status r \<and> rn_result s = rn_result r \<and> rn_owner s = rn_owner r)
     \<and> (if ch then usage_le (rn_used r) (rn_used s) else rn_used s = rn_used r) \<and> (row_ok r \<longrightarrow> row_ok s)"

lemmas row_defs = row_evolves_def same_origin_def row_ok_def usage_le_def terminal_run_def owned_state_def

lemma row_evolves_refl [simp]: "row_evolves ch r r"
  by (simp add: row_defs)

lemma usage_le_trans: "usage_le a b \<Longrightarrow> usage_le b c \<Longrightarrow> usage_le a c"
  by (simp add: usage_le_def)

lemma same_origin_trans: "same_origin a b \<Longrightarrow> same_origin b c \<Longrightarrow> same_origin a c"
  by (simp add: same_origin_def)

lemma row_evolves_trans:
  assumes "row_evolves ch a b" "row_evolves ch b c"
  shows "row_evolves ch a c"
proof -
  have "rn_resources c = rn_resources a \<or> rn_parent a = [] \<and> rn_resources a = Some [] \<and> (\<exists>g. rn_resources c = Some [g])"
    using assms by (fastforce simp: row_evolves_def same_origin_def)
  moreover have "same_origin a c" using assms same_origin_trans unfolding row_evolves_def by blast
  moreover have "if ch then usage_le (rn_used a) (rn_used c) else rn_used c = rn_used a"
    using assms usage_le_trans [of "rn_used a" "rn_used b" "rn_used c"] unfolding row_evolves_def by (cases ch) simp_all
  ultimately show ?thesis using assms unfolding row_evolves_def by simp
qed

definition msg_evolves :: "message \<Rightarrow> message \<Rightarrow> bool" where
  "msg_evolves m n \<longleftrightarrow> ms_id n = ms_id m \<and> ms_run n = ms_run m \<and> ms_sender n = ms_sender m \<and> ms_kind n = ms_kind m
     \<and> ms_payload n = ms_payload m \<and> (ms_state m = M_ACKED \<longrightarrow> ms_state n = M_ACKED)"

definition results_between :: "run_tree \<Rightarrow> pystr \<Rightarrow> pystr \<Rightarrow> message list" where
  "results_between t p c = filter (\<lambda>m. ms_run m = p \<and> ms_sender m = c \<and> ms_kind m = u ''child_result'') (tt_mail t)"

definition reports_once :: "run_tree \<Rightarrow> bool" where
  "reports_once t \<longleftrightarrow> (\<forall>p c. length (results_between t p c) \<le> 1)"

definition mail_evolves :: "message list \<Rightarrow> message list \<Rightarrow> bool" where
  "mail_evolves ms ns \<longleftrightarrow> list_all2 msg_evolves ms (take (length ms) ns)"

definition tree_evolves :: "bool \<Rightarrow> run_tree \<Rightarrow> run_tree \<Rightarrow> bool" where
  "tree_evolves ch t s \<longleftrightarrow> list_all2 (row_evolves ch) (tt_runs t) (tt_runs s) \<and> mail_evolves (tt_mail t) (tt_mail s)
     \<and> (reports_once t \<longrightarrow> reports_once s)"

lemma msg_evolves_refl [simp]: "msg_evolves m m"
  by (simp add: msg_evolves_def)

lemma mail_evolves_refl [simp]: "mail_evolves ms ms"
  by (simp add: mail_evolves_def list_all2_same)

lemma mail_evolves_length: "mail_evolves ms ns \<Longrightarrow> length ms \<le> length ns"
  by (auto simp: mail_evolves_def dest: list_all2_lengthD)

lemma mail_evolves_trans:
  assumes "mail_evolves a b" "mail_evolves b c"
  shows "mail_evolves a c"
proof -
  have "list_all2 msg_evolves (take (length a) b) (take (length a) (take (length b) c))"
    using assms(2) unfolding mail_evolves_def by (rule list_all2_takeI)
  then have "list_all2 msg_evolves (take (length a) b) (take (length a) c)"
    using mail_evolves_length [OF assms(1)] by (simp add: min_absorb1)
  moreover have "msg_evolves x y \<Longrightarrow> msg_evolves y z \<Longrightarrow> msg_evolves x z" for x y z
    by (auto simp: msg_evolves_def)
  ultimately show ?thesis using assms(1) unfolding mail_evolves_def by (blast intro: list_all2_trans)
qed

lemma tree_evolves_refl [simp]: "tree_evolves ch t t"
  by (simp add: tree_evolves_def list_all2_same)

lemma tree_evolves_trans:
  assumes "tree_evolves ch a b" "tree_evolves ch b c"
  shows "tree_evolves ch a c"
  using assms mail_evolves_trans list_all2_trans [of "row_evolves ch" "row_evolves ch" "row_evolves ch"] row_evolves_trans
  unfolding tree_evolves_def by blast

subsection \<open>The statements\<close>

named_theorems evolve_intros \<open>what a statement adds to an evolution\<close>

lemma evolves_add_event [evolve_intros]: "tree_evolves ch t s \<Longrightarrow> tree_evolves ch t (add_event rid k p now s)"
  by (simp add: tree_evolves_def add_event_def reports_once_def results_between_def)

lemma evolves_notify [evolve_intros]: "tree_evolves ch t s \<Longrightarrow> tree_evolves ch t (notify rid k p now s)"
  by (simp add: tree_evolves_def notify_def reports_once_def results_between_def)

lemma evolves_run_hook [evolve_intros]: "tree_evolves ch t s \<Longrightarrow> tree_evolves ch t (snd (run_hook E ev rid p sub now s))"
  by (auto simp: run_hook_def intro: evolves_add_event split: hook_answer.split)

lemma evolves_proj [evolve_intros]: "tree_evolves ch t s \<Longrightarrow> tree_evolves ch t (s\<lparr>tt_proj := f s\<rparr>)"
  by (simp add: tree_evolves_def reports_once_def results_between_def)

lemma evolves_notes [evolve_intros]: "tree_evolves ch t s \<Longrightarrow> tree_evolves ch t (s\<lparr>tt_notes := f s\<rparr>)"
  by (simp add: tree_evolves_def reports_once_def results_between_def)

lemma evolves_update_runs [evolve_intros]:
  assumes "tree_evolves ch t s" "\<And>r. r \<in> set (tt_runs s) \<Longrightarrow> hit r \<Longrightarrow> row_evolves ch r (f r)"
  shows "tree_evolves ch t (snd (update_runs hit f s))"
proof -
  have "list_all2 (row_evolves ch) rs (map (\<lambda>r. if hit r then f r else r) rs)" if "\<forall>r\<in>set rs. hit r \<longrightarrow> row_evolves ch r (f r)" for rs
    using that by (induction rs) auto
  with assms(2) have "tree_evolves ch s (snd (update_runs hit f s))"
    by (simp add: update_runs_def tree_evolves_def reports_once_def results_between_def)
  with assms(1) show ?thesis by (rule tree_evolves_trans)
qed

lemma results_between_map:
  assumes "\<And>m. m \<in> set ms \<Longrightarrow> hit m \<Longrightarrow> msg_evolves m (f m)"
  shows "length (filter (\<lambda>m. ms_run m = p \<and> ms_sender m = c \<and> ms_kind m = k) (map (\<lambda>m. if hit m then f m else m) ms))
    = length (filter (\<lambda>m. ms_run m = p \<and> ms_sender m = c \<and> ms_kind m = k) ms)"
  using assms by (induction ms) (auto simp: msg_evolves_def)

lemma evolves_update_mail [evolve_intros]:
  assumes "tree_evolves ch t s" "\<And>m. m \<in> set (tt_mail s) \<Longrightarrow> hit m \<Longrightarrow> msg_evolves m (f m)"
  shows "tree_evolves ch t (snd (update_mail hit f s))"
proof -
  have "list_all2 msg_evolves ms (map (\<lambda>m. if hit m then f m else m) ms)" if "\<forall>m\<in>set ms. hit m \<longrightarrow> msg_evolves m (f m)" for ms
    using that by (induction ms) auto
  with assms(2) results_between_map [of "tt_mail s" hit f] have "tree_evolves ch s (snd (update_mail hit f s))"
    by (simp add: update_mail_def tree_evolves_def reports_once_def results_between_def mail_evolves_def list_all2_same)
  with assms(1) show ?thesis by (rule tree_evolves_trans)
qed

lemma evolves_post_mail:
  assumes "tree_evolves ch t s" "kind = ''child_result'' \<Longrightarrow> results_between s rid sender = []"
  shows "tree_evolves ch t (snd (post_mail rid sender kind p now s))"
proof -
  have "reports_once (snd (post_mail rid sender kind p now s))" if "reports_once s"
    using assms(2) that unfolding reports_once_def results_between_def post_mail_def by (auto simp: Let_def)
  then have "tree_evolves ch s (snd (post_mail rid sender kind p now s))"
    by (simp add: tree_evolves_def post_mail_def Let_def mail_evolves_def list_all2_same)
  with assms(1) show ?thesis by (rule tree_evolves_trans)
qed

lemma run_row_SomeD: "run_row t rid = Some r \<Longrightarrow> r \<in> set (tt_runs t) \<and> rn_id r = rid"
  by (auto simp: run_row_def find_Some_iff)

lemma evolves_fold:
  assumes "\<And>r s. tree_evolves ch s (f r s)" "tree_evolves ch t s"
  shows "tree_evolves ch t (fold f rs s)"
  using assms(2) by (induction rs arbitrary: s) (simp_all add: tree_evolves_trans [OF _ assms(1)])

lemma evolves_queue_child_result [evolve_intros]:
  assumes "tree_evolves ch t s"
  shows "tree_evolves ch t (snd (queue_child_result E rid state result artifacts observation now s))"
proof -
  have "results_between s p rid = []" if "child_result_sent s p rid = None" for p
    using that by (auto simp: child_result_sent_def find_None_iff results_between_def filter_empty_conv)
  then show ?thesis
    using assms unfolding queue_child_result_def
    by (auto simp: split_beta Let_def intro!: evolves_add_event evolves_post_mail split: option.splits)
qed

lemma evolves_if [evolve_intros]:
  "(b \<Longrightarrow> tree_evolves ch t x) \<Longrightarrow> (\<not> b \<Longrightarrow> tree_evolves ch t y) \<Longrightarrow> tree_evolves ch t (if b then x else y)"
  by simp

lemma evolves_snd_if [evolve_intros]:
  "(b \<Longrightarrow> tree_evolves ch t (snd x)) \<Longrightarrow> (\<not> b \<Longrightarrow> tree_evolves ch t (snd y)) \<Longrightarrow> tree_evolves ch t (snd (if b then x else y))"
  by simp

lemma evolves_pair [evolve_intros]: "tree_evolves ch t x \<Longrightarrow> tree_evolves ch t (snd (a, x))"
  by simp

subsection \<open>The operations\<close>

lemmas evolve_simps = Let_def split_beta

lemma evolves_fence_live [evolve_intros]:
  "tree_evolves ch t s \<Longrightarrow> tree_evolves ch t (fence_live held r sender p now s)"
  unfolding fence_live_def post_cancel_def
  by (auto simp: evolve_simps row_defs intro!: evolve_intros evolves_post_mail)

lemma evolves_cancel_idle [evolve_intros]:
  "tree_evolves ch t s \<Longrightarrow> tree_evolves ch t (snd (cancel_idle free r result now s))"
  unfolding cancel_idle_def by (auto simp: row_defs intro!: evolve_intros)

lemma evolves_fence_descendant: "tree_evolves ch s (fence_descendant rid reason now r s)"
  unfolding fence_descendant_def by (auto simp: evolve_simps intro!: evolve_intros)

lemma evolves_cancel_descendants [evolve_intros]:
  "tree_evolves ch t s \<Longrightarrow> tree_evolves ch t (cancel_descendants rid now reason s)"
  unfolding cancel_descendants_def by (rule evolves_fold [OF evolves_fence_descendant])

lemma evolves_cancel_member: "tree_evolves ch s (cancel_member E rid sender now r s)"
  unfolding cancel_member_def by (auto simp: evolve_simps intro!: evolve_intros)

lemma evolves_request_cancel: "tree_evolves ch s (snd (request_cancel E now rid sender s))"
  unfolding request_cancel_def by (auto simp: evolve_simps intro!: evolves_fold [OF evolves_cancel_member])

lemma evolves_stop_row:
  assumes "\<not> owned_state state" "tree_evolves ch t s"
  shows "tree_evolves ch t (snd (stop_row E now rid tok state result note artifacts observation s))"
proof -
  have "row_evolves ch r (r\<lparr>rn_status := state, rn_result := take 4000 result, rn_owner := [], rn_lease := 0, rn_updated := now\<rparr>)"
    if "rn_status r = R_RUNNING" for r
    using that assms(1) by (simp add: row_defs)
  then show ?thesis
    unfolding stop_row_def Let_def split_beta by (intro evolve_intros) (auto simp: assms(2))
qed

lemma evolves_stop_owned:
  assumes "\<not> owned_state state"
  shows "tree_evolves ch s (snd (stop_owned E now rid tok state result note artifacts observation s))"
proof -
  obtain ans t1 where h: "(if state = R_COMPLETED \<or> state = R_FAILED then stop_hook E rid state result now s else (HOOK_NONE, s)) = (ans, t1)"
    by fastforce
  have "tree_evolves ch s (snd (if state = R_COMPLETED \<or> state = R_FAILED then stop_hook E rid state result now s else (HOOK_NONE, s)))"
    unfolding stop_hook_def by (intro evolve_intros) simp_all
  with h have t1: "tree_evolves ch s t1" by simp
  obtain n t2 where r: "stop_row E now rid tok state result note artifacts observation t1 = (n, t2)" by fastforce
  have "tree_evolves ch s t2" using evolves_stop_row [OF assms t1] r by (metis snd_conv)
  with t1 have "tree_evolves ch s (snd (case b of HOOK_ANSWER False why \<Rightarrow>
          (False, add_event rid ''completion_hook_blocked'' [(u ''reason'', JStr (or_str why (u ''policy check did not pass'')))] now t1)
      | _ \<Rightarrow> (n = 1, if n \<noteq> 0 \<and> note \<noteq> [] then notice_hook E rid note state now t2 else t2)))" for b
    by (auto simp: notice_hook_def intro!: evolve_intros split: hook_answer.split bool.split)
  then show ?thesis unfolding stop_owned_def h Let_def prod.case r .
qed

lemma evolves_claim:
  assumes "tok \<noteq> []"
  shows "tree_evolves ch s (snd (claim E tok now rid lease s))"
proof -
  have ex: "tree_evolves ch s t \<Longrightarrow> tree_evolves ch s (snd (first_exhausted E now rids t))" for rids t
    by (induction E now rids t rule: first_exhausted.induct)
      (auto simp: Let_def row_defs intro!: evolve_intros split: sum.split)
  have stop: "tree_evolves ch s t \<Longrightarrow> tree_evolves ch s (refuse_stopped rid now anc why missing t)" for anc why missing t
    unfolding refuse_stopped_def park_claim_def by (auto simp: evolve_simps row_defs intro!: evolve_intros)
  have budget: "tree_evolves ch s t \<Longrightarrow> tree_evolves ch s (refuse_budget rid now who why t)" for who why t
    unfolding refuse_budget_def keep_claim_def by (auto simp: evolve_simps row_defs intro!: evolve_intros)
  have corrupt: "tree_evolves ch s t \<Longrightarrow> tree_evolves ch s (refuse_corrupt rid now e t)" for e t
    unfolding refuse_corrupt_def keep_claim_def by (auto simp: evolve_simps row_defs intro!: evolve_intros)
  have lease: "tree_evolves ch s t \<Longrightarrow> tree_evolves ch s (snd (take_lease rid tok now secs t))" for secs t
    unfolding take_lease_def using assms by (auto simp: evolve_simps row_defs intro!: evolve_intros)
  have rest: "tree_evolves ch s (snd (case first_exhausted E now ancestry s of
       (Some (who, why), t1) \<Rightarrow> (Inr None, refuse_budget rid now who why t1)
     | (None, t1) \<Rightarrow> apfst Inr (take_lease rid tok now secs t1)))" for ancestry secs
    using ex [of s ancestry] by (cases "first_exhausted E now ancestry s")
      (auto simp: budget lease apfst_def map_prod_def split_beta split: option.split)
  show ?thesis
    unfolding claim_def by (simp add: stop corrupt rest split: option.split sum.split climb.split)
qed

lemma evolves_leases:
  "tree_evolves ch s (snd (renew now rid tok lease s))"
  "tree_evolves ch s (snd (progress now rid tok summary percent detail s))"
  "tree_evolves ch s (snd (set_background now rid b tok s))"
  "tree_evolves ch s (snd (resume_run now rid s))"
  "tree_evolves ch s (snd (requeue_waiting now rid s))"
  "tree_evolves ch s (snd (bind_mission now rid mission s))"
  by (auto simp: renew_def progress_def set_background_def resume_run_def requeue_waiting_def wake_waiting_def bind_mission_def
      put_projection_def evolve_simps apfst_def map_prod_def row_defs intro!: evolve_intros split: option.split)

lemma evolves_provision_release [evolve_intros]:
  "tree_evolves ch t s \<Longrightarrow> tree_evolves ch t (provision_release now rid tok s)"
  unfolding provision_release_def by (auto simp: row_defs intro!: evolve_intros)

lemma evolves_provision_answer [evolve_intros]:
  "tree_evolves ch t s \<Longrightarrow> tree_evolves ch t (snd (provision_answer now rid tok ans s))"
  unfolding provision_answer_def by (auto intro!: evolve_intros split: sum.split)

lemma evolves_bind_workspace: "tree_evolves ch s (snd (bind_workspace E now rid path owns s))"
  unfolding bind_workspace_def by (auto simp: evolve_simps row_defs intro!: evolve_intros)

lemma evolves_initialize:
  assumes "distinct (map rn_id (tt_runs s))"
  shows "tree_evolves ch s (snd (initialize_root_workspace_authority E now rid path mode s))"
proof -
  have "row_evolves ch c (c\<lparr>rn_workspace := dir, rn_resources := Some [grant], rn_status := R_QUEUED, rn_updated := now\<rparr>)"
    if "run_row s (rn_id c) = Some r" "c \<in> set (tt_runs s)" "rn_parent r = []" "rn_resources c = Some []"
      "rn_status c = R_WORKSPACE_REQUIRED" "rn_owner c = []" for c r dir grant
  proof -
    have "c = r" using that(1,2) assms run_row_SomeD by (metis distinct_map inj_onD)
    with that show ?thesis by (simp add: row_defs)
  qed
  then show ?thesis
    unfolding initialize_root_workspace_authority_def
    by (auto simp: Let_def intro!: evolve_intros split: option.split sum.split)
qed

lemma evolves_provision_claim:
  assumes "tok \<noteq> []"
  shows "tree_evolves ch s (snd (provision_claim E tok now rid s))"
  unfolding provision_claim_def using assms
  by (auto simp: evolve_simps row_defs intro!: evolve_intros split: sum.split option.split)

lemma evolves_provision_finish: "tree_evolves ch s (snd (provision_finish E now rid tok prep s))"
  unfolding provision_finish_def
  by (auto simp: evolve_simps row_defs intro!: evolve_intros split: option.split)

lemma evolves_mission_root:
  "tree_evolves ch s (snd (fail_mission_root E now rid mission result s))"
  "tree_evolves ch s (snd (complete_mission_root E now rid mission result s))"
  unfolding fail_mission_root_def complete_mission_root_def stop_hook_def notice_hook_def
  by (auto simp: evolve_simps row_defs intro!: evolve_intros split: option.split)

lemma evolves_acknowledged_cancel [evolve_intros]:
  "tree_evolves ch t s \<Longrightarrow> tree_evolves ch t (acknowledged_cancel E rid result now s)"
  unfolding acknowledged_cancel_def retire_cancel_mail_def by (intro evolve_intros) (auto simp: msg_evolves_def)

lemma evolves_cancels:
  "tree_evolves ch s (snd (cancel_owned E now rid tok result s))"
  "tree_evolves ch s (snd (ack_cancel E now rid tok result s))"
  "tree_evolves ch s (snd (reconcile_run now rid note s))"
  by (auto simp: cancel_owned_def ack_cancel_def reconcile_run_def retire_cancel_mail_def evolve_simps row_defs msg_evolves_def
      intro!: evolve_intros)

lemma evolves_mark_orphan: "tree_evolves ch s (snd (mark_orphan_needs_you E now rid reason phase s))"
  unfolding mark_orphan_needs_you_def notice_hook_def
  by (auto simp: evolve_simps row_defs orphan_phase_def intro!: evolve_intros split: option.split)

lemma evolves_recover_stale: "tree_evolves ch s (snd (recover_stale now s))"
proof -
  have "tree_evolves ch t (recover_one now r t)" for r t
    unfolding recover_one_def requeue_mail_def by (auto simp: evolve_simps row_defs msg_evolves_def intro!: evolve_intros)
  then show ?thesis unfolding recover_stale_def by (simp add: evolves_fold)
qed

lemma evolves_mail_ops:
  "tree_evolves ch s (snd (steer now rid text sender s))"
  "tree_evolves ch s (snd (claim_messages now rid tok limit s))"
  "tree_evolves ch s (snd (claim_child_results now rid mission limit s))"
  "tree_evolves ch s (snd (ack_child_result now rid mission mid s))"
  "tree_evolves ch s (snd (ack_message now rid tok mid s))"
  "tree_evolves ch s (snd (ack_notification now mid s))"
  by (auto simp: steer_def wake_waiting_def claim_messages_def claim_child_results_def deliver_def ack_child_result_def
      ack_message_def ack_notification_def evolve_simps row_defs msg_evolves_def
      intro!: evolve_intros evolves_post_mail split: option.split)

lemma evolves_charge_usage [evolve_intros]: "tree_evolves True t s \<Longrightarrow> tree_evolves True t (charge_usage ancestry us s)"
  unfolding charge_usage_def by (auto simp: row_defs combine_usage_def intro!: evolve_intros)

lemma evolves_usage_ops:
  "tree_evolves True s (snd (account_usage E now rid tok raw s))"
  "tree_evolves True s (snd (project_mission_usage E now rid mission raw s))"
proof -
  show "tree_evolves True s (snd (account_usage E now rid tok raw s))"
    unfolding account_usage_def by (auto simp: Let_def intro!: evolve_intros split: sum.split)
  have "tree_evolves True s (snd (project_row now r mission absolute ancestry s))" for r absolute ancestry
    unfolding project_row_def put_projection_def raise_watermark_def
    by (auto simp: Let_def intro!: evolve_intros split: option.split)
  then have "tree_evolves True s t" if "project_row now r mission absolute ancestry s = (x, t)" for r absolute ancestry x t
    using that by (metis snd_conv)
  then show "tree_evolves True s (snd (project_mission_usage E now rid mission raw s))"
    unfolding project_mission_usage_def by (auto split: sum.split option.split prod.split)
qed

subsection \<open>Sequences of operations\<close>

datatype tree_op =
    T_ROOT pystr int pystr json "json list" pystr pystr pystr pystr
  | T_SPAWN pystr int pystr pystr pystr "json option" "(json list) option" pystr pystr pystr
  | T_BIND_WORKSPACE int pystr pystr bool
  | T_INITIALIZE int pystr pystr pystr
  | T_BIND_MISSION int pystr pystr
  | T_PROVISION_CLAIM pystr int pystr
  | T_PROVISION_FINISH int pystr pystr "prepared option"
  | T_ORPHAN int pystr pystr pystr
  | T_CLAIM pystr int pystr json
  | T_RENEW int pystr pystr json
  | T_PROGRESS int pystr pystr pystr json json
  | T_BACKGROUND int pystr bool pystr
  | T_BLOCK int pystr pystr pystr bool
  | T_COMPLETE int pystr pystr pystr json json
  | T_FAIL int pystr pystr pystr
  | T_PARK int pystr pystr pystr
  | T_RECOVERY int pystr pystr pystr
  | T_FAIL_ROOT int pystr pystr pystr
  | T_COMPLETE_ROOT int pystr pystr pystr
  | T_CANCEL_OWNED int pystr pystr pystr
  | T_ACK_CANCEL int pystr pystr pystr
  | T_RESUME int pystr
  | T_REQUEUE int pystr
  | T_RECONCILE int pystr pystr
  | T_RECOVER_STALE int
  | T_STEER int pystr pystr pystr
  | T_REQUEST_CANCEL int pystr pystr
  | T_MESSAGES int pystr pystr int
  | T_CHILD_RESULTS int pystr pystr int
  | T_ACK_RESULT int pystr pystr nat
  | T_ACK_MESSAGE int pystr pystr nat
  | T_ACK_NOTIFICATION int nat
  | T_ACCOUNT int pystr pystr raw_usage
  | T_PROJECT int pystr pystr raw_usage

text \<open>A token is \<open>secrets.token_hex(16)\<close>, so never empty: the model writes a mark before it.\<close>

definition token :: "pystr \<Rightarrow> pystr" where
  "token x = 116 # x"

fun tree_step :: "tree_env \<Rightarrow> tree_op \<Rightarrow> run_tree \<Rightarrow> run_tree" where
  "tree_step E (T_ROOT x now task leash rs rid m ws mode) t = snd (create_root E x now task leash rs rid m ws mode t)"
| "tree_step E (T_SPAWN x now p role task leash rs rid ws mode) t = snd (spawn_specialist E x now p role task leash rs rid ws mode t)"
| "tree_step E (T_BIND_WORKSPACE now rid path owns) t = snd (bind_workspace E now rid path owns t)"
| "tree_step E (T_INITIALIZE now rid path mode) t = snd (initialize_root_workspace_authority E now rid path mode t)"
| "tree_step E (T_BIND_MISSION now rid m) t = snd (bind_mission now rid m t)"
| "tree_step E (T_PROVISION_CLAIM x now rid) t = snd (provision_claim E (token x) now rid t)"
| "tree_step E (T_PROVISION_FINISH now rid tok prep) t = snd (provision_finish E now rid tok prep t)"
| "tree_step E (T_ORPHAN now rid reason phase) t = snd (mark_orphan_needs_you E now rid reason phase t)"
| "tree_step E (T_CLAIM x now rid lease) t = snd (claim E (token x) now rid lease t)"
| "tree_step E (T_RENEW now rid tok lease) t = snd (renew now rid tok lease t)"
| "tree_step E (T_PROGRESS now rid tok txt pc detail) t = snd (progress now rid tok txt pc detail t)"
| "tree_step E (T_BACKGROUND now rid b tok) t = snd (set_background now rid b tok t)"
| "tree_step E (T_BLOCK now rid tok why ny) t = snd (block E now rid tok why ny t)"
| "tree_step E (T_COMPLETE now rid tok res a ob) t = snd (complete_run E now rid tok res a ob t)"
| "tree_step E (T_FAIL now rid tok res) t = snd (fail_run E now rid tok res t)"
| "tree_step E (T_PARK now rid tok why) t = snd (park_waiting E now rid tok why t)"
| "tree_step E (T_RECOVERY now rid tok why) t = snd (mark_recovery E now rid tok why t)"
| "tree_step E (T_FAIL_ROOT now rid m res) t = snd (fail_mission_root E now rid m res t)"
| "tree_step E (T_COMPLETE_ROOT now rid m res) t = snd (complete_mission_root E now rid m res t)"
| "tree_step E (T_CANCEL_OWNED now rid tok res) t = snd (cancel_owned E now rid tok res t)"
| "tree_step E (T_ACK_CANCEL now rid tok res) t = snd (ack_cancel E now rid tok res t)"
| "tree_step E (T_RESUME now rid) t = snd (resume_run now rid t)"
| "tree_step E (T_REQUEUE now rid) t = snd (requeue_waiting now rid t)"
| "tree_step E (T_RECONCILE now rid note) t = snd (reconcile_run now rid note t)"
| "tree_step E (T_RECOVER_STALE now) t = snd (recover_stale now t)"
| "tree_step E (T_STEER now rid txt sender) t = snd (steer now rid txt sender t)"
| "tree_step E (T_REQUEST_CANCEL now rid sender) t = snd (request_cancel E now rid sender t)"
| "tree_step E (T_MESSAGES now rid tok n) t = snd (claim_messages now rid tok n t)"
| "tree_step E (T_CHILD_RESULTS now rid m n) t = snd (claim_child_results now rid m n t)"
| "tree_step E (T_ACK_RESULT now rid m mid) t = snd (ack_child_result now rid m mid t)"
| "tree_step E (T_ACK_MESSAGE now rid tok mid) t = snd (ack_message now rid tok mid t)"
| "tree_step E (T_ACK_NOTIFICATION now mid) t = snd (ack_notification now mid t)"
| "tree_step E (T_ACCOUNT now rid tok raw) t = snd (account_usage E now rid tok raw t)"
| "tree_step E (T_PROJECT now rid m raw) t = snd (project_mission_usage E now rid m raw t)"

definition empty_tree :: run_tree where
  "empty_tree = \<lparr>tt_runs = [], tt_events = [], tt_mail = [], tt_notes = [], tt_proj = []\<rparr>"

definition run_tree_ops :: "tree_env \<Rightarrow> tree_op list \<Rightarrow> run_tree \<Rightarrow> run_tree" where
  "run_tree_ops E ops t = run_steps (tree_step E) ops t"

text \<open>Everything but the two operations that add a row evolves the rows there are.\<close>

definition creates :: "tree_op \<Rightarrow> bool" where
  "creates a \<longleftrightarrow> (case a of T_ROOT x now task leash rs rid m ws mode \<Rightarrow> True | T_SPAWN x now p role task leash rs rid ws mode \<Rightarrow> True | _ \<Rightarrow> False)"

definition charges :: "tree_op \<Rightarrow> bool" where
  "charges a \<longleftrightarrow> (case a of T_ACCOUNT now rid tok raw \<Rightarrow> True | T_PROJECT now rid m raw \<Rightarrow> True | _ \<Rightarrow> False)"

lemma step_tree_evolves:
  assumes "distinct (map rn_id (tt_runs t))" "\<not> creates a"
  shows "tree_evolves (charges a) t (tree_step E a t)"
  using assms
  by (cases a) (simp_all add: creates_def charges_def token_def evolves_initialize evolves_bind_workspace evolves_leases evolves_provision_claim
      evolves_provision_finish evolves_mark_orphan evolves_claim evolves_stop_owned block_def complete_run_def fail_run_def
      park_waiting_def mark_recovery_def owned_state_def evolves_mission_root evolves_cancels evolves_recover_stale
      evolves_mail_ops evolves_request_cancel evolves_usage_ops)

end
