(* ===== verification/TreeAuthority.thy ===== *)
theory TreeAuthority
  imports TreeSafety
begin

text \<open>
  The authority a run holds in the store: its leash and its resources lie within those of
  every run above it, whatever sequence of operations led there, and siblings never share a
  resource that one of them may write.
\<close>

subsection \<open>Leashes as the store keeps them\<close>

definition stored_leash :: "pydict \<Rightarrow> bool" where
  "stored_leash d \<longleftrightarrow> (case dget d (u ''may'') of None \<Rightarrow> True | Some m \<Rightarrow> may_ok m)
     \<and> (\<forall>(k, v) \<in> set d. numeric_cap k \<longrightarrow> cap_ok k v \<and> normal_cap k v = v)"

lemma normal_cap_ok: "cap_ok k v \<Longrightarrow> cap_ok k (normal_cap k v) \<and> normal_cap k (normal_cap k v) = normal_cap k v"
  by (auto simp: cap_ok_def normal_cap_def spend_value_def split: json.splits pyfloat.splits if_splits)

lemma spend_normal_cap: "cap_ok k v \<Longrightarrow> spend_value (normal_cap k v) = spend_value v"
  by (auto simp: cap_ok_def normal_cap_def spend_value_def split: json.splits pyfloat.splits if_splits)

lemma validated_stored: "validated_leash v = Inr d \<Longrightarrow> stored_leash d"
proof -
  assume "validated_leash v = Inr d"
  then obtain d0 where d0: "case dget d0 (u ''may'') of None \<Rightarrow> True | Some m \<Rightarrow> may_ok m"
      "\<not> list_ex (\<lambda>(k, v). numeric_cap k \<and> \<not> cap_ok k v) d0"
      "d = map (\<lambda>(k, v). (k, if numeric_cap k then normal_cap k v else v)) d0" "validated_leash (JObj d0) = Inr d"
    by (auto simp: validated_leash_def split: json.splits if_splits)
  from d0(4) have "dget d (u ''may'') = dget d0 (u ''may'')" using validated_dget by (fastforce simp: option.map_ident)
  with d0 show ?thesis by (auto simp: stored_leash_def list_ex_iff normal_cap_ok)
qed

lemma stored_validated: "stored_leash d \<Longrightarrow> validated_leash (JObj d) = Inr d"
proof -
  assume s: "stored_leash d"
  then have "map (\<lambda>(k, v). (k, if numeric_cap k then normal_cap k v else v)) d = d"
    by (intro map_idI) (auto simp: stored_leash_def)
  moreover have "\<not> list_ex (\<lambda>(k, v). numeric_cap k \<and> \<not> cap_ok k v) d" using s by (auto simp: stored_leash_def list_ex_iff)
  moreover have "\<not> \<not> (case dget d (u ''may'') of None \<Rightarrow> True | Some m \<Rightarrow> may_ok m)" using s by (simp add: stored_leash_def)
  ultimately show ?thesis by (simp add: validated_leash_def)
qed

lemma set_dset: "set (dset d k v) \<subseteq> insert (k, v) (set d)"
  by (induction d k v rule: dset.induct) auto

lemma stored_dset:
  assumes "stored_leash d" "numeric_cap k \<Longrightarrow> cap_ok k v \<and> normal_cap k v = v" "k = u ''may'' \<Longrightarrow> may_ok v"
  shows "stored_leash (dset d k v)"
  using assms set_dset [of d k v] unfolding stored_leash_def by (fastforce split: option.splits)

lemma narrow_field_stored:
  assumes "narrow_field H parent k v = Inr w" "numeric_cap k"
  shows "w = v"
  using assms by (auto simp: narrow_field_def split: option.splits if_splits)

lemma narrow_fields_stored:
  assumes "narrow_fields H parent req child0 = Inr child" "stored_leash child0"
    "\<forall>(k, v) \<in> set req. numeric_cap k \<longrightarrow> cap_ok k v \<and> normal_cap k v = v"
  shows "stored_leash child"
  using assms
proof (induction H parent req child0 rule: narrow_fields.induct)
  case (2 H parent k v rest child0)
  show ?case
  proof (cases "k = u ''may''")
    case True
    with 2 show ?thesis by auto
  next
    case False
    with "2.prems" obtain w where w: "narrow_field H parent k v = Inr w"
        "narrow_fields H parent rest (dset child0 k w) = Inr child" by (auto simp: bind_result_Inr_iff)
    have "stored_leash (dset child0 k w)"
      using "2.prems"(2,3) False narrow_field_stored [OF w(1)] by (intro stored_dset) auto
    with "2.IH"(2) [OF False w(2)] "2.prems"(3) show ?thesis by simp
  qed
qed simp

lemma leash_patterns_nonempty:
  assumes "stored_leash d" "p \<in> set (leash_patterns d)"
  shows "p \<noteq> []"
  using assms by (auto simp: stored_leash_def leash_patterns_def may_ok_def nonempty_text_def list_all_iff
      split: option.splits json.splits)

lemma narrow_leash_stored:
  assumes "narrow_leash H pv rq = Inr child"
  shows "stored_leash child"
proof -
  obtain p where p: "validated_leash (or_empty pv) = Inr p"
    using assms by (auto simp: narrow_leash_def bind_result_Inr_iff)
  note sp = validated_stored [OF p]
  show ?thesis
  proof (cases rq)
    case None
    then show ?thesis using assms p sp by (auto simp: narrow_leash_def intro!: stored_dset)
  next
    case (Some rv)
    with assms p obtain req where rq: "validated_leash (or_empty rv) = Inr req"
      "narrow_fields H p req (if dget req (u ''may'') = None then p
         else dset p (u ''may'') (JList (map JStr (sorted_strs (dedup (leash_patterns req)))))) = Inr child"
      by (auto simp: narrow_leash_def bind_result_Inr_iff split: if_splits)
    note sr = validated_stored [OF rq(1)]
    have "may_ok (JList (map JStr (sorted_strs (dedup (leash_patterns req)))))"
      using leash_patterns_nonempty [OF sr] by (auto simp: may_ok_def nonempty_text_def list_all_iff)
    then have "stored_leash (if dget req (u ''may'') = None then p
         else dset p (u ''may'') (JList (map JStr (sorted_strs (dedup (leash_patterns req))))))"
      using sp by (auto intro!: stored_dset)
    moreover have "\<forall>(k, v) \<in> set req. numeric_cap k \<longrightarrow> cap_ok k v \<and> normal_cap k v = v"
      using sr by (auto simp: stored_leash_def)
    ultimately show ?thesis by (rule narrow_fields_stored [OF rq(2)])
  qed
qed

subsection \<open>Ceilings\<close>

definition cap_of :: "pydict \<Rightarrow> pystr \<Rightarrow> rat option" where
  "cap_of d k = (case dget d k of None \<Rightarrow> None | Some v \<Rightarrow> spend_value v)"

definition ceilings_within :: "pydict \<Rightarrow> pydict \<Rightarrow> bool" where
  "ceilings_within parent child \<longleftrightarrow>
     (\<forall>k q. numeric_cap k \<longrightarrow> cap_of parent k = Some q \<longrightarrow> (\<exists>c. cap_of child k = Some c \<and> c \<le> q))
     \<and> parent_rank child \<le> parent_rank parent"

lemma ceilings_refl [simp]: "ceilings_within d d"
  by (simp add: ceilings_within_def)

lemma ceilings_trans:
  assumes "ceilings_within a b" "ceilings_within b c"
  shows "ceilings_within a c"
proof -
  have "\<exists>y. cap_of c k = Some y \<and> y \<le> q" if k: "numeric_cap k" "cap_of a k = Some q" for k q
  proof -
    from assms(1) k obtain x where x: "cap_of b k = Some x" "x \<le> q" unfolding ceilings_within_def by blast
    from assms(2) k(1) x(1) obtain y where "cap_of c k = Some y" "y \<le> x" unfolding ceilings_within_def by blast
    with x(2) show ?thesis by auto
  qed
  with assms show ?thesis by (auto simp: ceilings_within_def)
qed

lemma narrow_leash_ceilings:
  assumes "narrow_leash H (JObj parent) rq = Inr child" "stored_leash parent"
  shows "ceilings_within parent child"
proof -
  have p: "validated_leash (or_empty (JObj parent)) = Inr parent"
    using stored_validated [OF assms(2)] by (auto simp: or_empty_def or_json_def)
  show ?thesis
  proof (cases rq)
    case None
    then have "dget child k = dget parent k" if "k \<noteq> u ''workspace_mode''" for k
      using assms(1) p that by (auto simp: narrow_leash_def split: if_splits)
    moreover have "k \<noteq> u ''workspace_mode''" if "numeric_cap k" for k using that by auto
    moreover have "u ''irreversible'' \<noteq> u ''workspace_mode''" by simp
    ultimately show ?thesis by (auto simp: ceilings_within_def cap_of_def parent_rank_def)
  next
    case (Some rv)
    note D = derived_fields(2) [OF assms(1) [unfolded Some] p]
    have "\<exists>c. cap_of child k = Some c \<and> c \<le> q" if k: "numeric_cap k" "cap_of parent k = Some q" for k q
    proof -
      have "k \<noteq> u ''may''" using k(1) by auto
      from D [OF this] k show ?thesis
        by (auto simp: cap_of_def narrow_field_def split: option.splits if_splits)
    qed
    moreover have "parent_rank child \<le> parent_rank parent"
      using D [of "u ''irreversible''"]
      by (auto simp: parent_rank_def narrow_field_def split: option.splits if_splits)
    ultimately show ?thesis by (simp add: ceilings_within_def)
  qed
qed

subsection \<open>Resources\<close>

definition clean_words :: "pystr list \<Rightarrow> bool" where
  "clean_words ws \<longleftrightarrow> (\<forall>w \<in> set ws. w \<noteq> [] \<and> w \<noteq> [46] \<and> 47 \<notin> set w)"

lemma split_on_no_sep: "d \<notin> set w \<Longrightarrow> split_on d w = [w]"
  by (induction w) auto

lemma split_on_append: "d \<notin> set w \<Longrightarrow> split_on d (w @ d # s) = w # split_on d s"
  by (induction w) auto

lemma split_on_join: "\<forall>w \<in> set ws. d \<notin> set w \<Longrightarrow> ws \<noteq> [] \<Longrightarrow> split_on d (join [d] ws) = ws"
  by (induction "[d]" ws rule: join.induct) (auto simp: split_on_no_sep split_on_append)

lemma split_on_words: "w \<in> set (split_on d s) \<Longrightarrow> d \<notin> set w"
  by (induction d s arbitrary: w rule: split_on.induct) (fastforce split: if_splits list.splits)+

lemma clean_path_parts: "clean_words (path_parts s)"
  using split_on_words by (auto simp: clean_words_def path_parts_def)

lemma path_parts_join:
  assumes "clean_words ws"
  shows "path_parts (join [47] ws) = ws" "path_parts (47 # join [47] ws) = ws"
proof -
  have f: "filter (\<lambda>w. w \<noteq> [] \<and> w \<noteq> [46]) ws = ws" using assms by (auto simp: clean_words_def filter_id_conv)
  show "path_parts (join [47] ws) = ws"
    using assms f split_on_join [of ws 47] by (cases "ws = []") (auto simp: path_parts_def clean_words_def)
  then show "path_parts (47 # join [47] ws) = ws" by (simp add: path_parts_def)
qed

lemma common_prefix_split: "\<exists>zs. bs = common_prefix as bs @ zs"
  by (induction as bs rule: common_prefix.induct) auto

lemma common_prefix_left: "set (common_prefix as bs) \<subseteq> set as"
  by (induction as bs rule: common_prefix.induct) auto

lemma common_prefix_append: "common_prefix as (as @ zs) = as"
  by (induction as) simp_all

text \<open>Containment of paths is the prefix order on the parts of a path in normal form.\<close>

lemma path_within_iff:
  "path_within p c \<longleftrightarrow> starts_with p [47] = starts_with c [47] \<and> (\<exists>zs. path_parts c = path_parts p @ zs)
     \<and> p = (if starts_with p [47] then [47] else []) @ join [47] (path_parts p)"
proof
  assume w: "path_within p c"
  let ?cp = "common_prefix (path_parts p) (path_parts c)"
  have "clean_words ?cp" using clean_path_parts common_prefix_left unfolding clean_words_def by blast
  with w path_parts_join have "path_parts p = ?cp" by (auto simp: path_within_def split: if_splits) (metis append_Cons append_Nil)+
  with w common_prefix_split [of "path_parts c" "path_parts p"]
  show "starts_with p [47] = starts_with c [47] \<and> (\<exists>zs. path_parts c = path_parts p @ zs)
     \<and> p = (if starts_with p [47] then [47] else []) @ join [47] (path_parts p)" by (auto simp: path_within_def)
qed (auto simp: path_within_def common_prefix_append)

lemma path_within_trans: "path_within a b \<Longrightarrow> path_within b c \<Longrightarrow> path_within a c"
  unfolding path_within_iff by auto

lemma resource_contains_trans: "resource_contains a b \<Longrightarrow> resource_contains b c \<Longrightarrow> resource_contains a c"
  unfolding resource_contains_def by (auto split: if_splits intro: path_within_trans)

lemma within_parent_trans: "within_parent a b \<Longrightarrow> within_parent b c \<Longrightarrow> within_parent a c"
  unfolding within_parent_def list_all_iff list_ex_iff by (meson resource_contains_trans)

subsection \<open>The invariant of the store\<close>

definition child_of :: "agent_run \<Rightarrow> agent_run \<Rightarrow> bool" where
  "child_of p r \<longleftrightarrow> rn_root r = rn_root p \<and> rn_depth r = rn_depth p + 1
     \<and> int (rn_depth r) \<le> cap_int (leash_of p) ''max_specialist_depth'' 2
     \<and> ceilings_within (leash_of p) (leash_of r) \<and> within_parent (resources_of p) (resources_of r)"

definition row_wf :: "run_tree \<Rightarrow> agent_run \<Rightarrow> bool" where
  "row_wf t r \<longleftrightarrow> rn_id r \<noteq> [] \<and> row_ok r \<and> (\<exists>d. rn_leash r = Some d \<and> stored_leash d \<and> finite_json (JObj d)) \<and> rn_resources r \<noteq> None
     \<and> (if rn_parent r = [] then rn_root r = rn_id r \<and> rn_depth r = 0
        else \<exists>p \<in> set (tt_runs t). rn_id p = rn_parent r \<and> child_of p r)"

definition exclusive :: "agent_run list \<Rightarrow> bool" where
  "exclusive rs \<longleftrightarrow> (\<forall>a \<in> set rs. \<forall>b \<in> set rs. rn_parent a = rn_parent b \<longrightarrow> rn_parent a \<noteq> [] \<longrightarrow> rn_id a \<noteq> rn_id b
     \<longrightarrow> \<not> terminal_run (rn_status a) \<longrightarrow> \<not> terminal_run (rn_status b)
     \<longrightarrow> (\<forall>x \<in> set (resources_of a). \<forall>y \<in> set (resources_of b). \<not> write_overlap x y))"

definition tree_wf :: "run_tree \<Rightarrow> bool" where
  "tree_wf t \<longleftrightarrow> distinct (map rn_id (tt_runs t)) \<and> (\<forall>r \<in> set (tt_runs t). row_wf t r) \<and> exclusive (tt_runs t) \<and> reports_once t"

lemma write_overlap_sym: "write_overlap a b \<longleftrightarrow> write_overlap b a"
  by (auto simp: write_overlap_def)

lemma evolves_row:
  assumes "list_all2 (row_evolves ch) rs ss" "s \<in> set ss"
  shows "\<exists>r \<in> set rs. row_evolves ch r s"
  using assms by (metis in_set_conv_nth list_all2_conv_all_nth)

lemma evolves_row_forward:
  assumes "list_all2 (row_evolves ch) rs ss" "r \<in> set rs"
  shows "\<exists>s \<in> set ss. row_evolves ch r s"
  using assms by (metis in_set_conv_nth list_all2_conv_all_nth)

lemma evolves_ids: "list_all2 (row_evolves ch) rs ss \<Longrightarrow> map rn_id ss = map rn_id rs"
  by (induction rule: list_all2_induct) (auto simp: row_evolves_def same_origin_def)

lemma child_of_evolves:
  assumes "child_of p r" "rn_parent r \<noteq> []" "row_evolves ch p p'" "row_evolves ch r r'"
  shows "child_of p' r'"
proof -
  have r: "rn_resources r' = rn_resources r" using assms(2,4) by (auto simp: row_evolves_def)
  have "within_parent (resources_of p') (resources_of r')"
  proof (cases "rn_resources p' = rn_resources p")
    case True
    with assms(1) r show ?thesis by (simp add: child_of_def resources_of_def)
  next
    case False
    then have "resources_of p = []" using assms(3) by (auto simp: row_evolves_def resources_of_def)
    with assms(1) have "resources_of r = []" by (cases "resources_of r") (auto simp: child_of_def within_parent_def)
    with r show ?thesis by (simp add: resources_of_def within_parent_def)
  qed
  with assms show ?thesis by (simp add: child_of_def row_evolves_def same_origin_def leash_of_def)
qed

lemma row_wf_evolves:
  assumes "row_wf t r" "row_evolves ch r r'" "list_all2 (row_evolves ch) (tt_runs t) (tt_runs t')"
  shows "row_wf t' r'"
proof -
  have o: "rn_id r' = rn_id r" "rn_parent r' = rn_parent r" "rn_root r' = rn_root r" "rn_depth r' = rn_depth r"
      "rn_leash r' = rn_leash r" "row_ok r'" "rn_resources r' \<noteq> None"
    using assms(1,2) by (auto simp: row_evolves_def same_origin_def row_wf_def)
  have "\<exists>p \<in> set (tt_runs t'). rn_id p = rn_parent r' \<and> child_of p r'" if "rn_parent r \<noteq> []"
  proof -
    from assms(1) that obtain p where p: "p \<in> set (tt_runs t)" "rn_id p = rn_parent r" "child_of p r" by (auto simp: row_wf_def)
    from evolves_row_forward [OF assms(3) p(1)] obtain p' where p': "p' \<in> set (tt_runs t')" "row_evolves ch p p'" by blast
    then have "rn_id p' = rn_parent r'" using p(2) o(2) by (simp add: row_evolves_def same_origin_def)
    with p' child_of_evolves [OF p(3) that p'(2) assms(2)] show ?thesis by blast
  qed
  with assms(1) o show ?thesis by (auto simp: row_wf_def)
qed

lemma exclusive_evolves:
  assumes "exclusive rs" "list_all2 (row_evolves ch) rs ss"
  shows "exclusive ss"
  unfolding exclusive_def
proof (intro ballI impI notI)
  fix a b x y
  assume ab: "a \<in> set ss" "b \<in> set ss" "rn_parent a = rn_parent b" "rn_parent a \<noteq> []" "rn_id a \<noteq> rn_id b"
    "\<not> terminal_run (rn_status a)" "\<not> terminal_run (rn_status b)" "x \<in> set (resources_of a)" "y \<in> set (resources_of b)"
    and w: "write_overlap x y"
  from evolves_row [OF assms(2)] ab(1,2) obtain a0 b0 where o: "a0 \<in> set rs" "row_evolves ch a0 a" "b0 \<in> set rs" "row_evolves ch b0 b" by meson
  have "rn_parent a0 = rn_parent a \<and> rn_id a0 = rn_id a \<and> \<not> terminal_run (rn_status a0) \<and> resources_of a0 = resources_of a"
    using o(2) ab(4,6) by (auto simp: row_evolves_def same_origin_def resources_of_def)
  moreover have "rn_parent b0 = rn_parent b \<and> rn_id b0 = rn_id b \<and> \<not> terminal_run (rn_status b0) \<and> resources_of b0 = resources_of b"
    using o(4) ab(3,4,7) by (auto simp: row_evolves_def same_origin_def resources_of_def)
  ultimately show False using assms(1) o(1,3) ab w unfolding exclusive_def by metis
qed

lemma tree_wf_evolves:
  assumes "tree_wf t" "tree_evolves ch t t'"
  shows "tree_wf t'"
proof -
  have l: "list_all2 (row_evolves ch) (tt_runs t) (tt_runs t')" using assms(2) by (simp add: tree_evolves_def)
  have "\<forall>r \<in> set (tt_runs t'). row_wf t' r"
    using evolves_row [OF l] row_wf_evolves [OF _ _ l] assms(1) by (meson tree_wf_def)
  with assms exclusive_evolves [OF _ l] evolves_ids [OF l] show ?thesis by (simp add: tree_wf_def tree_evolves_def)
qed

subsection \<open>Creation and delegation keep it\<close>

definition grows_by :: "run_tree \<Rightarrow> run_tree \<Rightarrow> agent_run \<Rightarrow> bool" where
  "grows_by t t' r \<longleftrightarrow> tt_runs t' = tt_runs t @ [r] \<and> tt_mail t' = tt_mail t"

lemma grows_by_insert:
  "grows_by t (insert_run r now t) r"
  "grows_by t s r \<Longrightarrow> grows_by t (add_event rid k p n s) r"
  "grows_by t s r \<Longrightarrow> grows_by t (created_hook E q n s) r"
  by (auto simp: grows_by_def insert_run_def add_event_def created_hook_def run_hook_def split: hook_answer.split)

lemma find_row_None: "run_row t rid = None \<longleftrightarrow> rid \<notin> rn_id ` set (tt_runs t)"
  by (auto simp: run_row_def find_None_iff)

lemma fresh_run_simps [simp]:
  "rn_id (fresh_run rid p rt m d role task l rs mode ws now) = rid"
  "rn_parent (fresh_run rid p rt m d role task l rs mode ws now) = p"
  "rn_root (fresh_run rid p rt m d role task l rs mode ws now) = rt"
  "rn_depth (fresh_run rid p rt m d role task l rs mode ws now) = d"
  "rn_leash (fresh_run rid p rt m d role task l rs mode ws now) = Some l"
  "rn_resources (fresh_run rid p rt m d role task l rs mode ws now) = Some rs"
  "rn_used (fresh_run rid p rt m d role task l rs mode ws now) = no_usage"
  "rn_mission (fresh_run rid p rt m d role task l rs mode ws now) = m"
  "rn_status (fresh_run rid p rt m d role task l rs mode ws now) = initial_status ws mode"
  "rn_owner (fresh_run rid p rt m d role task l rs mode ws now) = []"
  "\<not> rn_cancel (fresh_run rid p rt m d role task l rs mode ws now)"
  "rn_created (fresh_run rid p rt m d role task l rs mode ws now) = now"
  "row_ok (fresh_run rid p rt m d role task l rs mode ws now)"
  by (simp_all add: fresh_run_def row_defs initial_status_def)

lemma create_root_grows:
  assumes "snd (create_root E x now task leash rs rid m ws mode t) \<noteq> t"
  obtains r d where "grows_by t (snd (create_root E x now task leash rs rid m ws mode t)) r" "run_row t (rn_id r) = None"
    "rn_id r \<noteq> []" "rn_parent r = []" "rn_root r = rn_id r" "rn_depth r = 0" "row_ok r"
    "rn_leash r = Some d" "stored_leash d" "finite_json (JObj d)" "rn_resources r \<noteq> None" "rn_used r = no_usage"
proof (cases "validated_leash (or_empty leash)")
  case (Inl e)
  with assms show ?thesis by (simp add: create_root_def)
next
  case (Inr d)
  show ?thesis
  proof (cases "normalize_resources (te_host E) (te_canon E) rs")
    case (Inl e)
    with Inr assms show ?thesis by (simp add: create_root_def)
  next
    case rs: (Inr rs')
    let ?rid = "or_str rid (u ''run_'' @ x)"
    let ?r = "fresh_run ?rid [] ?rid m 0 (u ''orchestrator'') (take 4000 task) d rs' mode (canonical_ws E ws) now"
    have new: "run_row t ?rid = None" "finite_json (JObj d)"
      "snd (create_root E x now task leash rs rid m ws mode t) = created_hook E ?r now
         (add_event ?rid ''created'' [(u ''status'', JStr (status_text (rn_status ?r)))] now (insert_run ?r now t))"
      using assms Inr rs unfolding create_root_def
      by (simp_all add: Let_def del: finite_json.simps split: option.splits sum.splits if_splits)
    have ne: "?rid \<noteq> []" by (simp add: or_str_def)
    show ?thesis
      by (rule that [of ?r d]) (simp_all add: new ne validated_stored [OF Inr] grows_by_insert del: finite_json.simps)
  qed
qed

lemma sibling_conflict_free:
  assumes "sibling_conflict ss rs = Inr ()" "s \<in> set ss" "a \<in> set (resources_of s)" "b \<in> set rs"
  shows "\<not> write_overlap a b"
  using assms by (induction ss rs rule: sibling_conflict.induct)
    (auto simp: resources_of_def list_ex_iff split: option.splits if_splits)

lemma spawn_row_new:
  assumes "snd (spawn_row E p r role now t) \<noteq> t"
  shows "run_row t (rn_id r) = None" "finite_json (JObj (leash_of r))" "\<not> stopping_run p"
    "\<not> cap_int (leash_of p) ''max_specialists'' 4 \<le> int (length (active_children t (rn_id p)))"
    "sibling_conflict (active_children t (rn_id p)) (resources_of r) = Inr ()"
    "grows_by t (snd (spawn_row E p r role now t)) r"
proof -
  show new: "run_row t (rn_id r) = None"
    using assms by (cases "run_row t (rn_id r)") (simp_all add: spawn_row_def decode_run_def split: if_splits)
  show live: "\<not> stopping_run p" "\<not> cap_int (leash_of p) ''max_specialists'' 4 \<le> int (length (active_children t (rn_id p)))"
    using assms by (auto simp: spawn_row_def new)
  show free: "sibling_conflict (active_children t (rn_id p)) (resources_of r) = Inr ()"
    using assms live by (cases "sibling_conflict (active_children t (rn_id p)) (resources_of r)") (simp_all add: spawn_row_def new)
  have fin: "finite_json (JObj (leash_of r)) \<and> projection_row t (rn_id r) = None"
    using assms live by (simp add: spawn_row_def new free del: finite_json.simps split: if_splits)
  then show "finite_json (JObj (leash_of r))" ..
  from fin show "grows_by t (snd (spawn_row E p r role now t)) r"
    using live by (simp add: spawn_row_def new free grows_by_insert del: finite_json.simps)
qed

lemma get_run_Some: "get_run t rid = Inr (Some r) \<Longrightarrow> run_row t rid = Some r \<and> decode_run r = Inr r"
  by (auto simp: get_run_def bind_result_Inr_iff decode_run_def split: option.splits if_splits)

lemma spawn_grows:
  assumes "snd (spawn_specialist E x now pid role task leash rs rid ws mode t) \<noteq> t"
    and "\<forall>r \<in> set (tt_runs t). \<exists>d. rn_leash r = Some d \<and> stored_leash d"
  obtains p r d where "grows_by t (snd (spawn_specialist E x now pid role task leash rs rid ws mode t)) r" "run_row t (rn_id r) = None"
    "rn_id r \<noteq> []" "run_row t pid = Some p" "rn_parent r = pid" "child_of p r" "row_ok r"
    "rn_leash r = Some d" "stored_leash d" "finite_json (JObj d)" "rn_resources r \<noteq> None" "rn_used r = no_usage"
    "\<not> stopping_run p" "sibling_conflict (active_children t pid) (resources_of r) = Inr ()"
    "int (length (active_children t pid)) < cap_int (leash_of p) ''max_specialists'' 4"
proof (cases "bind_result (get_run t pid) (\<lambda>p. spawn_authority E p leash rs)")
  case (Inl e)
  with assms show ?thesis by (simp add: spawn_specialist_def)
next
  case (Inr dr)
  obtain d rs' where dr: "dr = (d, rs')" by fastforce
  from Inr dr obtain q where q: "get_run t pid = Inr q" "spawn_authority E q leash rs = Inr (d, rs')"
    by (auto simp: bind_result_Inr_iff)
  then obtain p where "q = Some p" by (cases q) (simp_all add: spawn_authority_def)
  with q have p: "run_row t pid = Some p" "spawn_authority E (Some p) leash rs = Inr (d, rs')" by (auto dest: get_run_Some)
  let ?r = "fresh_run (or_str rid (u ''run_'' @ x)) pid (rn_root p) [] (rn_depth p + 1)
     (take 80 (or_str role (u ''specialist''))) (take 4000 task) d rs' mode (canonical_ws E ws) now"
  have sp: "spawn_specialist E x now pid role task leash rs rid ws mode t = spawn_row E p ?r role now t"
    using Inr dr p by (simp add: spawn_specialist_def)
  have id: "rn_id p = pid" using run_row_SomeD [OF p(1)] by simp
  note new = spawn_row_new [OF assms(1) [unfolded sp]]
  have ne: "rn_id ?r \<noteq> []" by (simp add: or_str_def)
  from p(2) have auth: "int (rn_depth p) + 1 \<le> cap_int (leash_of p) ''max_specialist_depth'' 2"
      "narrow_leash (te_host E) (JObj (leash_of p)) leash = Inr d" "within_parent (resources_of p) rs'"
    by (auto simp: spawn_authority_def bind_result_Inr_iff split: if_splits)
  from assms(2) p(1) have "stored_leash (leash_of p)" using run_row_SomeD by (fastforce simp: leash_of_def)
  with auth have ch: "child_of p ?r"
    using narrow_leash_ceilings by (simp add: child_of_def leash_of_def resources_of_def)
  have l: "leash_of ?r = d" by (simp add: leash_of_def)
  show ?thesis
    by (rule that [of ?r p d], unfold sp)
      (use new ne p id ch narrow_leash_stored [OF auth(2)] l in \<open>simp_all del: finite_json.simps\<close>)
qed

lemma row_wf_grows:
  assumes "row_wf t r" "set (tt_runs t) \<subseteq> set (tt_runs t')"
  shows "row_wf t' r"
  using assms unfolding row_wf_def by (auto split: if_splits)

lemma tree_wf_grows:
  assumes "tree_wf t" "grows_by t t' r" "run_row t (rn_id r) = None" "row_wf t' r"
    and "\<And>s x y. s \<in> set (tt_runs t) \<Longrightarrow> rn_parent s = rn_parent r \<Longrightarrow> rn_parent r \<noteq> [] \<Longrightarrow> \<not> terminal_run (rn_status s)
      \<Longrightarrow> x \<in> set (resources_of s) \<Longrightarrow> y \<in> set (resources_of r) \<Longrightarrow> \<not> write_overlap x y"
  shows "tree_wf t'"
proof -
  have runs: "tt_runs t' = tt_runs t @ [r]" "tt_mail t' = tt_mail t" using assms(2) by (simp_all add: grows_by_def)
  have "\<forall>s \<in> set (tt_runs t'). row_wf t' s" using assms(1,4) row_wf_grows [of t _ t'] runs by (auto simp: tree_wf_def)
  moreover have "exclusive (tt_runs t')"
    unfolding exclusive_def
  proof (intro ballI impI)
    fix a b x y
    assume ab: "a \<in> set (tt_runs t')" "b \<in> set (tt_runs t')" "rn_parent a = rn_parent b" "rn_parent a \<noteq> []" "rn_id a \<noteq> rn_id b"
      "\<not> terminal_run (rn_status a)" "\<not> terminal_run (rn_status b)" "x \<in> set (resources_of a)" "y \<in> set (resources_of b)"
    consider "a \<in> set (tt_runs t)" "b \<in> set (tt_runs t)" | "a \<in> set (tt_runs t)" "b = r" | "b \<in> set (tt_runs t)" "a = r" | "a = r" "b = r"
      using ab(1,2) runs by auto
    then show "\<not> write_overlap x y"
    proof cases
      case 1
      with assms(1) ab show ?thesis by (simp add: tree_wf_def exclusive_def)
    next
      case 2
      with assms(5) ab show ?thesis by simp
    next
      case 3
      with assms(5) [of b y x] ab write_overlap_sym show ?thesis by metis
    qed (use ab(5) in simp)
  qed
  ultimately show ?thesis
    using assms(1,3) runs by (auto simp: tree_wf_def find_row_None reports_once_def results_between_def)
qed

lemma tree_wf_leashes: "tree_wf t \<Longrightarrow> \<forall>r \<in> set (tt_runs t). \<exists>d. rn_leash r = Some d \<and> stored_leash d"
  by (auto simp: tree_wf_def row_wf_def)

definition tree_extends :: "run_tree \<Rightarrow> run_tree \<Rightarrow> bool" where
  "tree_extends t s \<longleftrightarrow> list_all2 (row_evolves True) (tt_runs t) (take (length (tt_runs t)) (tt_runs s)) \<and> mail_evolves (tt_mail t) (tt_mail s)"

lemma row_evolves_charged: "row_evolves ch r s \<Longrightarrow> row_evolves True r s"
  by (auto simp: row_evolves_def usage_le_def split: if_splits)

lemma extends_evolves: "tree_evolves ch t s \<Longrightarrow> tree_extends t s"
  using list_all2_lengthD [of "row_evolves ch" "tt_runs t" "tt_runs s"] list_all2_mono [of "row_evolves ch" _ _ "row_evolves True"] row_evolves_charged
  by (auto simp: tree_evolves_def tree_extends_def)

lemma extends_grows: "grows_by t s r \<Longrightarrow> tree_extends t s"
  by (auto simp: grows_by_def tree_extends_def list_all2_same)

lemma extends_trans:
  assumes "tree_extends a b" "tree_extends b c"
  shows "tree_extends a c"
proof -
  have l: "length (tt_runs a) \<le> length (tt_runs b)" using assms(1) by (auto simp: tree_extends_def dest: list_all2_lengthD)
  have "list_all2 (row_evolves True) (take (length (tt_runs a)) (tt_runs b)) (take (length (tt_runs a)) (take (length (tt_runs b)) (tt_runs c)))"
    using assms(2) unfolding tree_extends_def by (blast intro: list_all2_takeI)
  with l have "list_all2 (row_evolves True) (take (length (tt_runs a)) (tt_runs b)) (take (length (tt_runs a)) (tt_runs c))"
    by (simp add: min_absorb1)
  with assms row_evolves_trans mail_evolves_trans list_all2_trans [of "row_evolves True" "row_evolves True" "row_evolves True"] show ?thesis
    unfolding tree_extends_def by blast
qed

lemma step_creates:
  assumes "tree_wf t" "creates a"
  shows "tree_wf (tree_step E a t) \<and> tree_extends t (tree_step E a t)"
proof (cases "tree_step E a t = t")
  case True
  with assms(1) show ?thesis by (simp add: extends_evolves [of True])
next
  case changed: False
  from assms(2) consider (root) x now task leash rs rid m ws mode where "a = T_ROOT x now task leash rs rid m ws mode"
    | (spawn) x now pid role task leash rs rid ws mode where "a = T_SPAWN x now pid role task leash rs rid ws mode"
    by (cases a) (auto simp: creates_def)
  then show ?thesis
  proof cases
    case root
    from changed obtain r d where r: "grows_by t (tree_step E a t) r" "run_row t (rn_id r) = None"
        "rn_id r \<noteq> []" "rn_parent r = []" "rn_root r = rn_id r" "rn_depth r = 0" "row_ok r"
        "rn_leash r = Some d" "stored_leash d" "finite_json (JObj d)" "rn_resources r \<noteq> None"
      unfolding root tree_step.simps by (rule create_root_grows)
    have "row_wf (tree_step E a t) r" using r by (simp add: row_wf_def)
    with tree_wf_grows [OF assms(1) r(1,2)] extends_grows [OF r(1)] r(4) show ?thesis by simp
  next
    case spawn
    from changed tree_wf_leashes [OF assms(1)] obtain p r d where r: "grows_by t (tree_step E a t) r" "run_row t (rn_id r) = None"
        "rn_id r \<noteq> []" "run_row t pid = Some p" "rn_parent r = pid" "child_of p r" "row_ok r"
        "rn_leash r = Some d" "stored_leash d" "finite_json (JObj d)" "rn_resources r \<noteq> None"
        "sibling_conflict (active_children t pid) (resources_of r) = Inr ()"
      unfolding spawn tree_step.simps by (rule spawn_grows)
    from run_row_SomeD [OF r(4)] have p: "p \<in> set (tt_runs t)" "rn_id p = pid" by simp_all
    have "rn_id p \<noteq> []" using assms(1) p(1) by (auto simp: tree_wf_def row_wf_def)
    then have "row_wf (tree_step E a t) r" using r p by (auto simp: row_wf_def grows_by_def)
    moreover have "\<not> write_overlap x y" if "s \<in> set (tt_runs t)" "rn_parent s = rn_parent r" "\<not> terminal_run (rn_status s)"
        "x \<in> set (resources_of s)" "y \<in> set (resources_of r)" for s x y
      using sibling_conflict_free [OF r(12) _ that(4,5)] that r(5) by (simp add: active_children_def)
    ultimately show ?thesis using tree_wf_grows [OF assms(1) r(1,2)] extends_grows [OF r(1)] by blast
  qed
qed

interpretation tree_store: evolving_store "tree_step E" tree_wf tree_extends for E
proof
  fix t a
  assume wf: "tree_wf t"
  then have "distinct (map rn_id (tt_runs t))" by (simp add: tree_wf_def)
  note ev = step_tree_evolves [OF this, of a E]
  show "tree_wf (tree_step E a t)" using step_creates [OF wf] tree_wf_evolves [OF wf ev] by (cases "creates a") auto
  show "tree_extends t (tree_step E a t)" using step_creates [OF wf] extends_evolves [OF ev] by (cases "creates a") auto
next
  show "tree_extends t t" for t by (simp add: extends_evolves [of True])
  show "tree_extends t s \<Longrightarrow> tree_extends s v \<Longrightarrow> tree_extends t v" for t s v by (rule extends_trans)
qed

lemma empty_tree_wf: "tree_wf empty_tree"
  by (simp add: tree_wf_def empty_tree_def exclusive_def reports_once_def results_between_def)

lemma reachable_wf: "tree_wf (run_tree_ops E ops empty_tree)"
  unfolding run_tree_ops_def by (rule tree_store.run_inv [OF empty_tree_wf])

lemma reachable_extends: "tree_extends (run_tree_ops E ops empty_tree) (run_tree_ops E (ops @ later) empty_tree)"
  unfolding run_tree_ops_def by (rule tree_store.later_evolves [OF empty_tree_wf])

subsection \<open>What holds in every reachable store\<close>

text \<open>A host on which paths are already canonical and no hook is set, and a small tree on it.\<close>

definition plain_env :: tree_env where
  "plain_env = \<lparr>te_host = ascii_host, te_canon = id, te_isdir = (\<lambda>_. True), te_hook = (\<lambda>_ _ _. HOOK_NONE), te_float = id\<rparr>"

lemma no_hook: "te_hook plain_env ev p sub = HOOK_NONE"
  by (simp add: plain_env_def)

definition repo :: "string \<Rightarrow> resource" where
  "repo x = \<lparr>rs_kind = u ''repo'', rs_id = u x, rs_write = True\<rparr>"

definition sample_root :: tree_op where
  "sample_root = T_ROOT [] 5 (u ''ship it'') (JObj [(u ''max_specialists'', JInt 2)]) [JStr (u ''repo:a''), JStr (u ''repo:b'')]
     (u ''r'') (u ''m'') (u ''/w'') (u ''worktree'')"

definition sample_child :: "string \<Rightarrow> tree_op" where
  "sample_child x = T_SPAWN [] 6 (u ''r'') (u ''tester'') (u ''test it'') None (Some [JStr (u ''repo:'' @ u x)]) (u x) (u ''/w'') (u ''worktree'')"

definition root_row :: agent_run where
  "root_row = fresh_run (u ''r'') [] (u ''r'') (u ''m'') 0 (u ''orchestrator'') (u ''ship it'') [(u ''max_specialists'', JInt 2)]
     [repo ''a'', repo ''b''] (u ''worktree'') (u ''/w'') 5"

definition child_row :: "string \<Rightarrow> agent_run" where
  "child_row x = fresh_run (u x) (u ''r'') (u ''r'') [] 1 (u ''tester'') (u ''test it'') [(u ''max_specialists'', JInt 2)]
     [repo x] (u ''worktree'') (u ''/w'') 6"

lemma sample_values:
  "validated_leash (or_empty (JObj [(u ''max_specialists'', JInt 2)])) = Inr [(u ''max_specialists'', JInt 2)]"
  "normalize_resources ascii_host id [JStr (u ''repo:a''), JStr (u ''repo:b'')] = Inr [repo ''a'', repo ''b'']"
  "normalize_resources ascii_host id [JStr (u ''repo:'' @ u ''a'')] = Inr [repo ''a'']"
  "normalize_resources ascii_host id [JStr (u ''repo:'' @ u ''b'')] = Inr [repo ''b'']"
  "narrow_leash ascii_host (JObj [(u ''max_specialists'', JInt 2)]) None = Inr [(u ''max_specialists'', JInt 2)]"
  "cap_int [(u ''max_specialists'', JInt 2)] ''max_specialists'' 4 = 2"
  "cap_int [(u ''max_specialists'', JInt 2)] ''max_specialist_depth'' 2 = 2"
  "resource_contains (repo x) (repo y) \<longleftrightarrow> x = y"
proof -
  have k: "List.member leash_integer_caps (u ''max_specialists'')" by (simp add: leash_integer_caps_def)
  show v: "validated_leash (or_empty (JObj [(u ''max_specialists'', JInt 2)])) = Inr [(u ''max_specialists'', JInt 2)]"
    using k by (simp add: or_empty_def or_json_def validated_leash_def dget_def cap_ok_def normal_cap_def spend_value_def)
  then show "narrow_leash ascii_host (JObj [(u ''max_specialists'', JInt 2)]) None = Inr [(u ''max_specialists'', JInt 2)]"
    by (simp add: narrow_leash_def dget_def)
  show "normalize_resources ascii_host id [JStr (u ''repo:a''), JStr (u ''repo:b'')] = Inr [repo ''a'', repo ''b'']"
    "normalize_resources ascii_host id [JStr (u ''repo:'' @ u ''a'')] = Inr [repo ''a'']"
    "normalize_resources ascii_host id [JStr (u ''repo:'' @ u ''b'')] = Inr [repo ''b'']"
    by (simp_all add: normalize_resources_def normalize_resource_def u_def strip_def space_cp_def py_lower_ascii lower_cp_def repo_def)
qed (simp_all add: cap_int_def dget_def resource_contains_def repo_def)

lemma tables_keep:
  "tt_runs (add_event a b c d t) = tt_runs t" "tt_runs (created_hook E q n t) = tt_runs t"
  "tt_proj (add_event a b c d t) = tt_proj t" "tt_proj (created_hook E q n t) = tt_proj t"
  "tt_runs (insert_run r n t) = tt_runs t @ [r]"
  "tt_proj (insert_run r n t) = tt_proj t @ [\<lparr>pj_run = rn_id r, pj_mission = rn_mission r, pj_initialized = True, pj_used = no_usage, pj_updated = n\<rparr>]"
  by (simp_all add: add_event_def created_hook_def run_hook_def insert_run_def split: hook_answer.split)

lemma sample_spawn:
  assumes "tt_runs t = root_row # rs" "\<forall>p \<in> set (tt_proj t). pj_run p \<noteq> u x" "x = ''a'' \<or> x = ''b''"
    and "rs = [] \<or> rs = [child_row ''a''] \<and> x = ''b''"
  shows "tt_runs (tree_step plain_env (sample_child x) t) = root_row # rs @ [child_row x]
    \<and> tt_proj (tree_step plain_env (sample_child x) t) = tt_proj t @ [\<lparr>pj_run = u x, pj_mission = [], pj_initialized = True, pj_used = no_usage, pj_updated = 6\<rparr>]
    \<and> tt_events (tree_step plain_env (sample_child x) t) = tt_events t @
       [\<lparr>ev_run = u x, ev_kind = u ''created'', ev_payload = [(u ''parent_run_id'', JStr (u ''r'')), (u ''role'', JStr (u ''tester'')), (u ''status'', JStr (u ''queued''))], ev_at = 6\<rparr>,
        \<lparr>ev_run = u ''r'', ev_kind = u ''child_created'', ev_payload = [(u ''run_id'', JStr (u x)), (u ''role'', JStr (u ''tester''))], ev_at = 6\<rparr>]
    \<and> tt_mail (tree_step plain_env (sample_child x) t) = tt_mail t"
proof -
  have root: "leash_of root_row = [(u ''max_specialists'', JInt 2)]" "resources_of root_row = [repo ''a'', repo ''b'']"
    "rn_depth root_row = 0" "rn_root root_row = u ''r''" "rn_id root_row = u ''r''" "decode_run root_row = Inr root_row" "rn_status root_row = R_QUEUED"
    "\<not> rn_cancel root_row" "\<not> rn_parent root_row = u ''r''"
    by (simp_all add: root_row_def leash_of_def resources_of_def decode_run_def initial_status_def)
  have child: "rn_id (child_row y) = u y" "leash_of (child_row y) = [(u ''max_specialists'', JInt 2)]" "resources_of (child_row y) = [repo y]"
    "rn_resources (child_row y) = Some [repo y]" "rn_mission (child_row y) = []" "rn_status (child_row y) = R_QUEUED" for y
    by (simp_all add: child_row_def leash_of_def resources_of_def initial_status_def)
  have rows: "run_row t (u ''r'') = Some root_row" "run_row t (u x) = None" "projection_row t (u x) = None"
    using assms by (auto simp: run_row_def projection_row_def root child find_None_iff)
  have act: "active_children t (u ''r'') = rs"
    using assms(1,4) by (auto simp: active_children_def root terminal_run_def child) (simp_all add: child_row_def)
  have free: "length rs < 2" "sibling_conflict rs [repo x] = Inr ()" using assms(4) by (auto simp: child write_overlap_def sample_values)
  have row: "snd (spawn_row plain_env root_row (child_row x) (u ''tester'') 6 t)
      = add_event (u ''r'') ''child_created'' [(u ''run_id'', JStr (u x)), (u ''role'', JStr (u ''tester''))] 6
         (add_event (u x) ''created'' [(u ''parent_run_id'', JStr (u ''r'')), (u ''role'', JStr (u ''tester'')), (u ''status'', JStr (u ''queued''))] 6
           (insert_run (child_row x) 6 t))"
    using free by (simp add: spawn_row_def rows act stopping_run_def root terminal_run_def sample_values child created_hook_def run_hook_def no_hook
        status_text_def status_name_def)
  have res: "normalize_resources ascii_host id [JStr (u ''repo:'' @ u x)] = Inr [repo x]" using assms(3) sample_values(3,4) by auto
  have "spawn_authority plain_env (Some root_row) None (Some [JStr (u ''repo:'' @ u x)]) = Inr ([(u ''max_specialists'', JInt 2)], [repo x])"
    using assms(3) by (auto simp: spawn_authority_def root terminal_run_def sample_values plain_env_def res within_parent_def)
  then have "spawn_specialist plain_env [] 6 (u ''r'') (u ''tester'') (u ''test it'') None (Some [JStr (u ''repo:'' @ u x)]) (u x) (u ''/w'') (u ''worktree'') t
      = spawn_row plain_env root_row (child_row x) (u ''tester'') 6 t"
    using assms(3) by (auto simp: spawn_specialist_def get_run_def rows root child_row_def canonical_ws_def plain_env_def)
  with row assms(1) show ?thesis by (simp add: sample_child_def add_event_def insert_run_def child)
qed

lemma sample_root_step:
  "tt_runs (tree_step plain_env sample_root empty_tree) = [root_row]"
  "tt_proj (tree_step plain_env sample_root empty_tree) = [\<lparr>pj_run = u ''r'', pj_mission = u ''m'', pj_initialized = True, pj_used = no_usage, pj_updated = 5\<rparr>]"
  by (simp_all add: sample_root_def create_root_def plain_env_def sample_values Let_def run_row_def projection_row_def empty_tree_def tables_keep
      root_row_def canonical_ws_def)

lemma sample_runs:
  "tt_runs (run_tree_ops plain_env [sample_root] empty_tree) = [root_row]"
  "tt_runs (run_tree_ops plain_env [sample_root, sample_child ''a''] empty_tree) = [root_row, child_row ''a'']"
  "tt_runs (run_tree_ops plain_env [sample_root, sample_child ''a'', sample_child ''b''] empty_tree) = [root_row, child_row ''a'', child_row ''b'']"
proof -
  let ?t1 = "tree_step plain_env sample_root empty_tree"
  have 2: "tt_runs (tree_step plain_env (sample_child ''a'') ?t1) = [root_row, child_row ''a'']"
    "tt_proj (tree_step plain_env (sample_child ''a'') ?t1) = tt_proj ?t1 @ [\<lparr>pj_run = u ''a'', pj_mission = [], pj_initialized = True, pj_used = no_usage, pj_updated = 6\<rparr>]"
    using sample_spawn [of ?t1 "[]" "''a''"] by (simp_all add: sample_root_step)
  have "tt_runs (tree_step plain_env (sample_child ''b'') (tree_step plain_env (sample_child ''a'') ?t1)) = [root_row, child_row ''a'', child_row ''b'']"
    using sample_spawn [of "tree_step plain_env (sample_child ''a'') ?t1" "[child_row ''a'']" "''b''"] by (simp add: 2 sample_root_step)
  with 2 show "tt_runs (run_tree_ops plain_env [sample_root] empty_tree) = [root_row]"
    "tt_runs (run_tree_ops plain_env [sample_root, sample_child ''a''] empty_tree) = [root_row, child_row ''a'']"
    "tt_runs (run_tree_ops plain_env [sample_root, sample_child ''a'', sample_child ''b''] empty_tree) = [root_row, child_row ''a'', child_row ''b'']"
    by (simp_all add: run_tree_ops_def sample_root_step)
qed

text \<open>The runs above a run, by rows.\<close>

definition above :: "run_tree \<Rightarrow> (agent_run \<times> agent_run) set" where
  "above t = {(p, r). p \<in> set (tt_runs t) \<and> r \<in> set (tt_runs t) \<and> rn_id p = rn_parent r}"

lemma above_child_of:
  assumes "tree_wf t" "(p, r) \<in> above t"
  shows "child_of p r" "rn_parent r \<noteq> []"
proof -
  from assms have pr: "p \<in> set (tt_runs t)" "r \<in> set (tt_runs t)" "rn_id p = rn_parent r" by (auto simp: above_def)
  have ne: "rn_id p \<noteq> []" using assms(1) pr(1) by (auto simp: tree_wf_def row_wf_def)
  with pr(3) show np: "rn_parent r \<noteq> []" by simp
  moreover have "row_wf t r" using assms(1) pr(2) by (simp add: tree_wf_def)
  ultimately obtain q where q: "q \<in> set (tt_runs t)" "rn_id q = rn_parent r" "child_of q r"
    by (auto simp: row_wf_def)
  have "q = p" using assms(1) q(1,2) pr(1,3) by (metis distinct_map inj_onD tree_wf_def)
  with q show "child_of p r" by simp
qed

definition holds_no_more :: "agent_run \<Rightarrow> agent_run \<Rightarrow> bool" where
  "holds_no_more r a \<longleftrightarrow> ceilings_within (leash_of a) (leash_of r) \<and> within_parent (resources_of a) (resources_of r)
     \<and> rn_root r = rn_root a \<and> rn_depth a < rn_depth r"

lemma wf_holds_no_more:
  assumes "tree_wf t" "(a, r) \<in> (above t)\<^sup>+"
  shows "holds_no_more r a"
  using assms(2)
proof (induction rule: trancl_induct)
  case (base r)
  from above_child_of [OF assms(1) base] show ?case by (simp add: child_of_def holds_no_more_def)
next
  case (step p r)
  from above_child_of [OF assms(1) step.hyps(2)] step.IH show ?case
    by (auto simp: child_of_def holds_no_more_def intro: ceilings_trans within_parent_trans)
qed

text \<open>
  Property C5. Authority only shrinks on the way down the run tree. After any sequence of
  operations by any workers, a specialist at any depth holds, against every run above it: no
  numeric limit of the leash above that is larger or missing, no more permissive mode for
  irreversible actions, and no resource that is not contained in one the run above holds.
  The runs above it are of the same tree and strictly nearer to its root.
\<close>

theorem authority_only_shrinks:
  assumes "(a, r) \<in> (above (run_tree_ops E ops empty_tree))\<^sup>+"
  shows "holds_no_more r a"
  using wf_holds_no_more [OF reachable_wf assms] .

theorem authority_only_shrinks_witness:
  "holds_no_more (child_row ''a'') root_row \<and> resources_of (child_row ''a'') \<noteq> []"
proof -
  have "(root_row, child_row ''a'') \<in> above (run_tree_ops plain_env [sample_root, sample_child ''a''] empty_tree)"
    by (simp add: above_def sample_runs) (simp add: root_row_def child_row_def)
  then have "(root_row, child_row ''a'') \<in> (above (run_tree_ops plain_env [sample_root, sample_child ''a''] empty_tree))\<^sup>+" ..
  from authority_only_shrinks [OF this] show ?thesis by (simp add: child_row_def resources_of_def)
qed

text \<open>
  Property C37. Every row the store can come to hold is well typed: its leash and resources
  decode, the leash passes the store's own validation unchanged (every cap a finite,
  non-negative number of the right type, the patterns non-empty strings) and can be written
  back as JSON; a run has an owner exactly when it is running or being cancelled, the claim
  of a workspace aside; and a root is its own root at depth zero.
\<close>

theorem rows_are_well_typed:
  assumes "r \<in> set (tt_runs (run_tree_ops E ops empty_tree))"
  shows "(\<exists>d. rn_leash r = Some d \<and> validated_leash (JObj d) = Inr d \<and> finite_json (JObj d)) \<and> decode_run r = Inr r
    \<and> (owned_state (rn_status r) \<longrightarrow> rn_owner r \<noteq> [])
    \<and> (rn_owner r \<noteq> [] \<longrightarrow> owned_state (rn_status r) \<or> rn_status r = R_WORKSPACE_REQUIRED)
    \<and> (rn_parent r = [] \<longrightarrow> rn_root r = rn_id r \<and> rn_depth r = 0)"
proof (intro conjI)
  have w: "row_wf (run_tree_ops E ops empty_tree) r" using reachable_wf assms by (auto simp: tree_wf_def)
  then show "\<exists>d. rn_leash r = Some d \<and> validated_leash (JObj d) = Inr d \<and> finite_json (JObj d)"
    using stored_validated unfolding row_wf_def by blast
  from w show "decode_run r = Inr r" by (auto simp: row_wf_def decode_run_def)
  from w show "owned_state (rn_status r) \<longrightarrow> rn_owner r \<noteq> []"
    "rn_owner r \<noteq> [] \<longrightarrow> owned_state (rn_status r) \<or> rn_status r = R_WORKSPACE_REQUIRED"
    by (simp_all add: row_wf_def row_ok_def)
  from w show "rn_parent r = [] \<longrightarrow> rn_root r = rn_id r \<and> rn_depth r = 0" by (auto simp: row_wf_def)
qed

theorem rows_are_well_typed_witness:
  "decode_run (child_row ''a'') = Inr (child_row ''a'')"
  using rows_are_well_typed [of "child_row ''a''" plain_env "[sample_root, sample_child ''a'']"] by (simp add: sample_runs)

text \<open>
  Property C31. A run that is completed, failed or cancelled stays so: whatever operations
  follow, its row is still there with the same status, the same result and no owner, and
  what it was created with (its parent, root, depth, role, task and leash) is unchanged.
\<close>

theorem terminal_is_final:
  assumes "r \<in> set (tt_runs (run_tree_ops E ops empty_tree))" "terminal_run (rn_status r)"
  shows "\<exists>s \<in> set (tt_runs (run_tree_ops E (ops @ later) empty_tree)).
    same_origin r s \<and> rn_status s = rn_status r \<and> rn_result s = rn_result r \<and> rn_owner s = []"
proof -
  have "row_ok r" using reachable_wf assms(1) by (auto simp: tree_wf_def row_wf_def)
  then have o: "rn_owner r = []" using assms(2) by (auto simp: row_defs)
  from reachable_extends [of E ops later] assms(1) obtain s where
      "s \<in> set (tt_runs (run_tree_ops E (ops @ later) empty_tree))" "row_evolves True r s"
    unfolding tree_extends_def by (meson evolves_row_forward in_set_takeD)
  with assms(2) o show ?thesis by (auto simp: row_evolves_def)
qed

lemma sample_completed:
  "\<exists>r \<in> set (tt_runs (run_tree_ops plain_env [sample_root, T_COMPLETE_ROOT 9 (u ''r'') (u ''m'') (u ''ok'')] empty_tree)).
     rn_id r = u ''r'' \<and> rn_status r = R_COMPLETED"
proof -
  let ?t = "tree_step plain_env sample_root empty_tree"
  have root: "rn_id root_row = u ''r''" "rn_parent root_row = []" "rn_root root_row = u ''r''" "rn_mission root_row = u ''m''"
      "rn_owner root_row = []" "\<not> rn_cancel root_row" "rn_status root_row = R_QUEUED"
    by (simp_all add: root_row_def initial_status_def)
  have "run_row ?t (u ''r'') = Some root_row" by (simp add: run_row_def sample_root_step root)
  then show ?thesis
    by (simp add: run_tree_ops_def complete_mission_root_def root terminal_run_def sample_root_step update_runs_def Let_def
        stop_hook_def notice_hook_def run_hook_def no_hook add_event_def notify_def)
qed

theorem terminal_is_final_witness:
  "\<exists>s \<in> set (tt_runs (run_tree_ops plain_env ([sample_root, T_COMPLETE_ROOT 9 (u ''r'') (u ''m'') (u ''ok'')]
      @ [T_REQUEST_CANCEL 10 (u ''r'') []]) empty_tree)). rn_id s = u ''r'' \<and> rn_status s = R_COMPLETED"
proof -
  from sample_completed obtain r where r: "r \<in> set (tt_runs (run_tree_ops plain_env [sample_root, T_COMPLETE_ROOT 9 (u ''r'') (u ''m'') (u ''ok'')] empty_tree))"
      "rn_id r = u ''r''" "rn_status r = R_COMPLETED" by blast
  then have "terminal_run (rn_status r)" by (simp add: terminal_run_def)
  from terminal_is_final [OF r(1) this, of "[T_REQUEST_CANCEL 10 (u ''r'') []]"] r(2,3) show ?thesis
    by (auto simp: same_origin_def)
qed

text \<open>
  Property C11. Two specialists of one parent that are both still active never hold
  overlapping resources of which one may be written, so concurrent siblings do not write
  where another reads or writes.
\<close>

theorem siblings_write_apart:
  assumes "a \<in> set (tt_runs (run_tree_ops E ops empty_tree))" "b \<in> set (tt_runs (run_tree_ops E ops empty_tree))"
    "rn_parent a = rn_parent b" "rn_parent a \<noteq> []" "rn_id a \<noteq> rn_id b"
    "\<not> terminal_run (rn_status a)" "\<not> terminal_run (rn_status b)"
    "x \<in> set (resources_of a)" "y \<in> set (resources_of b)"
  shows "\<not> write_overlap x y"
  using assms reachable_wf [of E ops] unfolding tree_wf_def exclusive_def by blast

theorem siblings_write_apart_witness:
  "\<not> write_overlap (repo ''a'') (repo ''b'')"
  using siblings_write_apart [of "child_row ''a''" plain_env "[sample_root, sample_child ''a'', sample_child ''b'']" "child_row ''b''" "repo ''a''" "repo ''b''"]
  unfolding sample_runs by (simp add: child_row_def resources_of_def initial_status_def terminal_run_def)

end
