(* ===== verification/TreeControl.thy ===== *)
theory TreeControl
  imports TreeAuthority
begin

text \<open>
  Control of the run tree: who may be claimed, what a cancellation reaches, when a root may
  complete and how a child's outcome gets to its parent.
\<close>

subsection \<open>Ancestors\<close>

lemma wf_same_row:
  assumes "tree_wf t" "q \<in> set (tt_runs t)" "run_row t (rn_id q) = Some r"
  shows "q = r"
proof -
  have "inj_on rn_id (set (tt_runs t))" using assms(1) by (simp add: tree_wf_def distinct_map)
  then show ?thesis using assms(2) run_row_SomeD [OF assms(3)] by (auto dest: inj_onD)
qed

lemma wf_row_of: "tree_wf t \<Longrightarrow> q \<in> set (tt_runs t) \<Longrightarrow> run_row t (rn_id q) = Some q"
  using wf_same_row by (cases "run_row t (rn_id q)") (auto simp: find_row_None)

lemma wf_id_nonempty: "tree_wf t \<Longrightarrow> q \<in> set (tt_runs t) \<Longrightarrow> rn_id q \<noteq> []"
  by (simp add: tree_wf_def row_wf_def)

lemma nothing_above_empty: "tree_wf t \<Longrightarrow> (x, []) \<in> (child_rel (tt_runs t))\<^sup>* \<Longrightarrow> x = []"
  by (erule rtranclE) (auto simp: child_rel_def dest: wf_id_nonempty)

lemma child_rel_cases:
  assumes "tree_wf t" "(x, rid) \<in> (child_rel (tt_runs t))\<^sup>*" "run_row t rid = Some r"
  shows "x = rid \<or> (x, rn_parent r) \<in> (child_rel (tt_runs t))\<^sup>*"
  using assms(2)
proof (cases rule: rtranclE)
  case (step y)
  from step(2) obtain q where q: "q \<in> set (tt_runs t)" "rn_parent q = y" "rn_id q = rid" by (auto simp: child_rel_def)
  with wf_same_row [OF assms(1) q(1)] assms(3) have "q = r" by simp
  with q step(1) show ?thesis by simp
qed simp

lemma wf_parent_row:
  assumes "tree_wf t" "r \<in> set (tt_runs t)" "rn_parent r \<noteq> []"
  obtains p where "run_row t (rn_parent r) = Some p" "p \<in> set (tt_runs t)" "child_of p r"
proof -
  from assms have "row_wf t r" by (simp add: tree_wf_def)
  with assms(3) obtain p where p: "p \<in> set (tt_runs t)" "rn_id p = rn_parent r" "child_of p r" by (auto simp: row_wf_def)
  then show ?thesis using that [of p] wf_row_of [OF assms(1) p(1)] by simp
qed

subsection \<open>The climb\<close>

lemma wf_depths:
  assumes "tree_wf t" "r \<in> set (tt_runs t)" "k \<le> rn_depth r"
  shows "\<exists>q \<in> set (tt_runs t). rn_depth q = k"
  using assms(2,3)
proof (induction "rn_depth r - k" arbitrary: r)
  case 0
  then have "rn_depth r = k" by simp
  with 0 show ?case by blast
next
  case (Suc n)
  then have "rn_depth r \<noteq> 0" by simp
  then have "rn_parent r \<noteq> []" using assms(1) Suc.prems(1) by (auto simp: tree_wf_def row_wf_def)
  from wf_parent_row [OF assms(1) Suc.prems(1) this] obtain p where p: "p \<in> set (tt_runs t)" "child_of p r" by metis
  then show ?case using Suc.hyps(1) [of p] Suc.hyps(2) by (simp add: child_of_def)
qed

lemma wf_depth_bound:
  assumes "tree_wf t" "r \<in> set (tt_runs t)"
  shows "rn_depth r < length (tt_runs t)"
proof -
  have "{.. rn_depth r} \<subseteq> rn_depth ` set (tt_runs t)" using wf_depths [OF assms] by fastforce
  then have "Finite_Set.card {.. rn_depth r} \<le> Finite_Set.card (rn_depth ` set (tt_runs t))" by (intro card_mono) auto
  also have "\<dots> \<le> Finite_Set.card (set (tt_runs t))" by (rule card_image_le) simp
  also have "\<dots> \<le> length (tt_runs t)" by (rule card_length)
  finally show ?thesis by simp
qed

lemma climb_from_ends:
  assumes "tree_wf t" "pid = [] \<or> run_row t pid = None \<or> (\<exists>p. run_row t pid = Some p \<and> rn_depth p < n)"
  shows "climb_from n t acc pid \<noteq> CLIMB_LOOPS"
  using assms(2)
proof (induction n arbitrary: acc pid)
  case 0
  then show ?case by (auto simp: climb_from.simps [of 0])
next
  case (Suc n)
  show ?case
  proof (cases "pid = [] \<or> run_row t pid = None")
    case True
    then show ?thesis by (auto simp: climb_from.simps [of "Suc n"])
  next
    case False
    with Suc.prems obtain p where p: "run_row t pid = Some p" "rn_depth p < Suc n" by blast
    have "rn_parent p = [] \<or> (\<exists>q. run_row t (rn_parent p) = Some q \<and> rn_depth q < n)"
    proof (cases "rn_parent p = []")
      case np: False
      from wf_parent_row [OF assms(1) _ np] run_row_SomeD [OF p(1)] obtain q where "run_row t (rn_parent p) = Some q" "child_of q p" by metis
      with p(2) show ?thesis by (simp add: child_of_def)
    qed simp
    then have "climb_from n t (acc @ [pid]) (rn_parent p) \<noteq> CLIMB_LOOPS" by (intro Suc.IH) blast
    with False p(1) show ?thesis by (simp add: climb_from.simps [of "Suc n"])
  qed
qed

lemma climb_of_run_ends:
  assumes "tree_wf t" "r \<in> set (tt_runs t)"
  shows "climb_from (length (tt_runs t)) t acc (rn_parent r) \<noteq> CLIMB_LOOPS"
  using climb_from_ends [OF assms(1)] wf_depth_bound [OF assms(1)] run_row_SomeD by (metis not_Some_eq)

lemma climb_reaches:
  assumes "tree_wf t" "climb_from n t acc pid = CLIMB_ROOT xs"
  shows "(\<exists>ys. xs = acc @ ys) \<and> (\<forall>a \<in> set (tt_runs t). (rn_id a, pid) \<in> (child_rel (tt_runs t))\<^sup>* \<longrightarrow> rn_id a \<in> set xs \<and> \<not> stopping_run a)"
  using assms(2)
proof (induction n arbitrary: acc pid)
  case 0
  then have "pid = [] \<and> xs = acc" by (auto simp: climb_from.simps [of 0] split: if_splits option.splits)
  with nothing_above_empty [OF assms(1)] wf_id_nonempty [OF assms(1)] show ?case by auto
next
  case (Suc n)
  show ?case
  proof (cases "pid = []")
    case True
    with Suc.prems have "xs = acc" by (simp add: climb_from.simps)
    with True nothing_above_empty [OF assms(1)] wf_id_nonempty [OF assms(1)] show ?thesis by auto
  next
    case False
    with Suc.prems obtain p where p: "run_row t pid = Some p" "\<not> stopping_run p" "climb_from n t (acc @ [pid]) (rn_parent p) = CLIMB_ROOT xs"
      by (auto simp: climb_from.simps [of "Suc n"] split: option.splits if_splits)
    note IH = Suc.IH [OF p(3)]
    have "rn_id a \<in> set xs \<and> \<not> stopping_run a"
      if "a \<in> set (tt_runs t)" "(rn_id a, pid) \<in> (child_rel (tt_runs t))\<^sup>*" for a
      using child_rel_cases [OF assms(1) that(2) p(1)]
    proof
      assume "rn_id a = pid"
      with that(1) p wf_same_row [OF assms(1) that(1)] IH show ?thesis by auto
    qed (use IH that(1) in blast)
    with IH show ?thesis by auto
  qed
qed

subsection \<open>Claiming\<close>

lemma first_exhausted_None:
  "first_exhausted E now rids t = (None, t1) \<Longrightarrow> t1 = t \<and> (\<forall>rid \<in> set rids. budget_reason E now rid t = Inr [])"
  by (induction E now rids t rule: first_exhausted.induct) (auto simp: Let_def split: sum.splits if_splits)

lemma claim_wins:
  assumes "claim E tok now rid lease t = (Inr (Some got), t')"
  obtains r ancestry secs where "run_row t rid = Some r" "rn_status r = R_QUEUED" "\<not> rn_cancel r" "spend_value lease = Some secs"
    "climb_from (length (tt_runs t)) t [rid] (rn_parent r) = CLIMB_ROOT ancestry"
    "first_exhausted E now ancestry t = (None, t)" "take_lease rid tok now \<lfloor>secs\<rfloor> t = (Some got, t')"
proof -
  obtain secs r where a: "spend_value lease = Some secs" "run_row t rid = Some r" "rn_status r = R_QUEUED"
    using assms by (auto simp: claim_def split: option.splits if_splits)
  obtain d where d: "decode_run r = Inr d" using assms a by (cases "decode_run r") (simp_all add: claim_def)
  obtain ancestry where c: "climb_from (length (tt_runs t)) t [rid] (rn_parent r) = CLIMB_ROOT ancestry"
    using assms a d by (cases "climb_from (length (tt_runs t)) t [rid] (rn_parent r)") (simp_all add: claim_def)
  have nc: "\<not> rn_cancel r" using assms a d c by (simp add: claim_def split: if_splits)
  obtain who t1 where e: "first_exhausted E now ancestry t = (who, t1)" by fastforce
  then have "who = None" using assms a d c nc by (cases who) (auto simp: claim_def)
  then have e: "first_exhausted E now ancestry t = (None, t)" using e first_exhausted_None by blast
  have "take_lease rid tok now \<lfloor>secs\<rfloor> t = (Some got, t')"
    using assms a d c nc e by (simp add: claim_def apfst_def map_prod_def split_beta prod_eq_iff)
  with a c nc e that show ?thesis by blast
qed

lemma update_runs_some:
  assumes "update_runs hit f t = (n, t1)" "n \<noteq> 0"
  obtains r where "r \<in> set (tt_runs t)" "hit r" "f r \<in> set (tt_runs t1)"
proof -
  from assms have "filter hit (tt_runs t) \<noteq> []" by (auto simp: update_runs_def)
  then obtain r where "r \<in> set (tt_runs t)" "hit r" by (auto simp: filter_empty_conv)
  moreover then have "f r \<in> set (tt_runs t1)" using assms(1) by (force simp: update_runs_def)
  ultimately show ?thesis using that by blast
qed

definition may_start :: "tree_env \<Rightarrow> int \<Rightarrow> run_tree \<Rightarrow> pystr \<Rightarrow> bool" where
  "may_start E now t rid \<longleftrightarrow>
     (\<exists>r. run_row t rid = Some r \<and> rn_status r = R_QUEUED \<and> rn_owner r = [] \<and> \<not> rn_cancel r)
     \<and> (\<forall>a \<in> set (tt_runs t). (rn_id a, rid) \<in> (child_rel (tt_runs t))\<^sup>* \<longrightarrow>
          budget_reason E now (rn_id a) t = Inr [] \<and> (rn_id a \<noteq> rid \<longrightarrow> \<not> stopping_run a))"

lemma wf_claim_may_start:
  assumes "tree_wf t" "claim E tok now rid lease t = (Inr (Some got), t')"
  shows "got = tok \<and> may_start E now t rid \<and> (\<exists>s \<in> set (tt_runs t'). rn_id s = rid \<and> rn_status s = R_RUNNING \<and> rn_owner s = tok)"
  using assms(2)
proof (rule claim_wins)
  fix r ancestry secs
  assume r: "run_row t rid = Some r" "rn_status r = R_QUEUED" "\<not> rn_cancel r"
    and c: "climb_from (length (tt_runs t)) t [rid] (rn_parent r) = CLIMB_ROOT ancestry"
    and e: "first_exhausted E now ancestry t = (None, t)" and l: "take_lease rid tok now \<lfloor>secs\<rfloor> t = (Some got, t')"
  obtain n t1 where u: "update_runs (\<lambda>r. rn_id r = rid \<and> rn_status r = R_QUEUED \<and> rn_owner r = [] \<and> \<not> rn_cancel r)
            (\<lambda>r. r\<lparr>rn_status := R_RUNNING, rn_owner := tok, rn_lease := now + \<lfloor>secs\<rfloor>, rn_updated := now\<rparr>) t = (n, t1)" by fastforce
  from l u have n: "n \<noteq> 0" "got = tok" "tt_runs t' = tt_runs t1" by (auto simp: take_lease_def add_event_def split: if_splits)
  from update_runs_some [OF u n(1)] obtain q where q: "q \<in> set (tt_runs t)" "rn_id q = rid" "rn_owner q = []"
    "q\<lparr>rn_status := R_RUNNING, rn_owner := tok, rn_lease := now + \<lfloor>secs\<rfloor>, rn_updated := now\<rparr> \<in> set (tt_runs t1)" by blast
  have "q = r" using wf_same_row [OF assms(1) q(1)] q(2) r(1) by simp
  note up = climb_reaches [OF assms(1) c]
  have bud: "budget_reason E now x t = Inr []" if "x \<in> set ancestry" for x using first_exhausted_None [OF e] that by blast
  have "budget_reason E now (rn_id a) t = Inr [] \<and> (rn_id a \<noteq> rid \<longrightarrow> \<not> stopping_run a)"
    if "a \<in> set (tt_runs t)" "(rn_id a, rid) \<in> (child_rel (tt_runs t))\<^sup>*" for a
    using child_rel_cases [OF assms(1) that(2) r(1)]
  proof
    assume "rn_id a = rid"
    with up bud show ?thesis by auto
  qed (use up bud that(1) in blast)
  with r q \<open>q = r\<close> have "may_start E now t rid" by (auto simp: may_start_def)
  moreover have "\<exists>s \<in> set (tt_runs t'). rn_id s = rid \<and> rn_status s = R_RUNNING \<and> rn_owner s = tok"
    using q(2,4) n(3) by (intro bexI [OF _ q(4) [folded n(3)]]) simp
  ultimately show ?thesis using n(2) by blast
qed

text \<open>
  Property C30. In every reachable store a claim succeeds only on a run that is queued,
  unowned and not being cancelled, none of whose ancestors is missing, finished, cancelled
  or being cancelled, and only when no budget of the run or of any run above it is
  exhausted; the claimer then owns the running row.
\<close>

theorem claim_needs_live_ancestry:
  assumes "claim E (token x) now rid lease (run_tree_ops E' ops empty_tree) = (Inr (Some tok), t')"
  shows "tok = token x \<and> may_start E now (run_tree_ops E' ops empty_tree) rid
    \<and> (\<exists>s \<in> set (tt_runs t'). rn_id s = rid \<and> rn_status s = R_RUNNING \<and> rn_owner s = tok)"
  using wf_claim_may_start [OF reachable_wf assms] by blast

text \<open>
  Property C38. The climb of a claim to the root ends: in every reachable store it answers
  after at most as many steps as there are rows, so a claim always returns, because a run is
  one deeper than its parent and no operation makes a cycle.
\<close>

theorem claim_climb_terminates:
  "r \<in> set (tt_runs (run_tree_ops E ops empty_tree)) \<Longrightarrow>
    climb_from (length (tt_runs (run_tree_ops E ops empty_tree))) (run_tree_ops E ops empty_tree) acc (rn_parent r) \<noteq> CLIMB_LOOPS"
  by (rule climb_of_run_ends [OF reachable_wf])

theorem claim_climb_terminates_witness:
  "climb_from 2 (run_tree_ops plain_env [sample_root, sample_child ''a''] empty_tree) [u ''a''] (u ''r'') \<noteq> CLIMB_LOOPS"
  using claim_climb_terminates [of "child_row ''a''" plain_env "[sample_root, sample_child ''a'']" "[u ''a'']"]
  unfolding sample_runs by (simp add: child_row_def numeral_2_eq_2)

text \<open>
  The loop of \<open>tree\<close>, which grows a set of wanted runs until a pass adds none,
  computes exactly the runs below the given one: the reflexive-transitive closure of the
  parent relation.
\<close>

theorem subtree_is_closure: "set (subtree_ids t rid) = {x. (rid, x) \<in> (child_rel (tt_runs t))\<^sup>*}"
  by (auto simp: subtree_ids_def tree_wanted_closure)

lemma sample_root_events:
  "tt_events (tree_step plain_env sample_root empty_tree)
     = [\<lparr>ev_run = u ''r'', ev_kind = u ''created'', ev_payload = [(u ''status'', JStr (u ''queued''))], ev_at = 5\<rparr>]"
  "tt_mail (tree_step plain_env sample_root empty_tree) = []"
  by (simp_all add: sample_root_def create_root_def plain_env_def sample_values Let_def run_row_def projection_row_def empty_tree_def
      add_event_def created_hook_def run_hook_def insert_run_def canonical_ws_def initial_status_def status_text_def status_name_def)

lemma sample_claim:
  "\<exists>t'. claim plain_env (token []) 6 (u ''r'') (JInt 300) (run_tree_ops plain_env [sample_root] empty_tree) = (Inr (Some (token [])), t')"
proof -
  let ?t = "tree_step plain_env sample_root empty_tree"
  have root: "rn_id root_row = u ''r''" "rn_parent root_row = []" "rn_owner root_row = []" "\<not> rn_cancel root_row" "rn_status root_row = R_QUEUED"
      "decode_run root_row = Inr root_row" "rn_used root_row = no_usage" "rn_created root_row = 5"
      "leash_of root_row = [(u ''max_specialists'', JInt 2)]" "resources_of root_row = [repo ''a'', repo ''b'']"
      "rn_task root_row = u ''ship it''" "rn_result root_row = []"
    by (simp_all add: root_row_def initial_status_def decode_run_def leash_of_def resources_of_def) (simp_all add: fresh_run_def)
  have row: "run_row ?t (u ''r'') = Some root_row" by (simp add: run_row_def sample_root_step root)
  have "storage_bytes plain_env (u ''r'') ?t = utf8_bytes (u ''ship it'') + payload_bytes plain_env [(u ''max_specialists'', JInt 2)]
      + utf8_bytes (sorted_text (te_host plain_env) (JList (map resource_json [repo ''a'', repo ''b'']))) + utf8_bytes []
      + payload_bytes plain_env [(u ''status'', JStr (u ''queued''))]"
    by (simp add: storage_bytes_def row root sample_root_events)
  also have "\<dots> < 5000000"
    by (simp add: payload_bytes_def sorted_pairs_def repo_def resource_json_def
        json_quote_def json_escape_cp_def dec_def dec_digits.simps str_le_def u_def utf8_bytes_def)
  finally have st: "storage_bytes plain_env (u ''r'') ?t < 5000000" .
  have fl: "te_float plain_env q = q" for q by (simp add: plain_env_def)
  with st have "budget_reason plain_env 6 (u ''r'') ?t = Inr []"
    by (simp add: budget_reason_def get_run_def row root first_reason_def cap_int_def cap_rat_def dget_def no_usage_def fl)
  then show ?thesis
    by (simp add: run_tree_ops_def claim_def spend_value_def row root climb_from.simps take_lease_def update_runs_def sample_root_step)
qed

theorem claim_needs_live_ancestry_witness:
  "may_start plain_env 6 (run_tree_ops plain_env [sample_root] empty_tree) (u ''r'')"
proof -
  from sample_claim obtain t' where
    "claim plain_env (token []) 6 (u ''r'') (JInt 300) (run_tree_ops plain_env [sample_root] empty_tree) = (Inr (Some (token [])), t')" by blast
  from claim_needs_live_ancestry [OF this] show ?thesis by blast
qed

subsection \<open>Cancellation\<close>

lemma queue_child_result_runs [simp]: "tt_runs (snd (queue_child_result E rid st res a ob now t)) = tt_runs t"
  by (simp add: queue_child_result_def post_mail_def add_event_def Let_def split: option.split)

definition keeps_mail :: "run_tree \<Rightarrow> run_tree \<Rightarrow> bool" where
  "keeps_mail t s \<longleftrightarrow> (\<exists>ms. tt_mail s = tt_mail t @ ms)"

lemma keeps_mail_intros:
  "keeps_mail t t" "keeps_mail t s \<Longrightarrow> keeps_mail t (add_event a b c d s)" "keeps_mail t s \<Longrightarrow> keeps_mail t (notify a k c d s)"
  "keeps_mail t s \<Longrightarrow> keeps_mail t (snd (update_runs hit f s))" "keeps_mail t s \<Longrightarrow> keeps_mail t (snd (post_mail e g k p now s))"
  "keeps_mail t s \<Longrightarrow> keeps_mail t (snd (queue_child_result E rid st res x y now s))"
  "keeps_mail t s \<Longrightarrow> keeps_mail t (post_cancel rid sender now s)"
  by (auto simp: keeps_mail_def add_event_def notify_def update_runs_def post_mail_def queue_child_result_def post_cancel_def Let_def split: option.split)

lemma keeps_mail_pending: "keeps_mail t s \<Longrightarrow> cancel_pending t x \<Longrightarrow> cancel_pending s x"
  by (auto simp: keeps_mail_def cancel_pending_def)

lemma post_cancel_pending: "cancel_pending (post_cancel rid sender now t) rid"
  by (auto simp: post_cancel_def post_mail_def cancel_pending_def Let_def open_mail_def)

lemma runs_of_statements [simp]:
  "tt_runs (add_event a b c d t) = tt_runs t" "tt_runs (notify a k c d t) = tt_runs t"
  "tt_runs (post_cancel rid sender now t) = tt_runs t" "tt_runs (snd (post_mail e g k p now t)) = tt_runs t"
  "tt_runs (snd (update_runs hit f t)) = map (\<lambda>r. if hit r then f r else r) (tt_runs t)"
  by (simp_all add: add_event_def notify_def post_cancel_def post_mail_def update_runs_def Let_def)

lemma cancel_pending_statements [simp]: "cancel_pending (add_event a b c d t) x = cancel_pending t x"
  by (simp add: add_event_def cancel_pending_def)

definition cancelled_row :: "agent_run \<Rightarrow> int \<Rightarrow> agent_run \<Rightarrow> agent_run" where
  "cancelled_row r now c =
     (if rn_id c \<noteq> rn_id r then c
      else if live_owner r
      then (if owned_state (rn_status c) then c\<lparr>rn_status := R_CANCEL_REQUESTED, rn_cancel := True, rn_updated := now\<rparr> else c)
      else if terminal_run (rn_status c) then c
      else c\<lparr>rn_status := R_CANCELLED, rn_result := u ''cancelled before execution'', rn_owner := [], rn_lease := 0, rn_cancel := True,
             rn_cancel_ack := now, rn_updated := now\<rparr>)"

lemma cancel_member_runs: "tt_runs (cancel_member E rid sender now r t) = map (cancelled_row r now) (tt_runs t)"
  unfolding cancel_member_def fence_live_def cancel_idle_def cancelled_row_def
  by (auto simp: Let_def split_beta intro!: map_cong)

lemma cancel_member_mail: "keeps_mail t (cancel_member E rid sender now r t)"
  unfolding cancel_member_def fence_live_def cancel_idle_def
  by (auto simp: Let_def split_beta intro!: keeps_mail_intros)

lemma cancel_member_pending: "live_owner r \<Longrightarrow> cancel_pending (cancel_member E rid sender now r t) (rn_id r)"
  by (simp add: cancel_member_def fence_live_def Let_def post_cancel_pending)

definition fenced :: "run_tree \<Rightarrow> pystr \<Rightarrow> bool" where
  "fenced t x \<longleftrightarrow> (\<forall>r \<in> set (tt_runs t). rn_id r = x \<longrightarrow>
     terminal_run (rn_status r) \<or> rn_status r = R_CANCEL_REQUESTED \<and> rn_owner r \<noteq> [] \<and> cancel_pending t x)"

lemma cancel_member_fences:
  assumes "distinct (map rn_id (tt_runs t))" "r \<in> set (tt_runs t)"
  shows "fenced (cancel_member E rid sender now r t) (rn_id r)"
proof -
  have "terminal_run (rn_status c) \<or> rn_status c = R_CANCEL_REQUESTED \<and> rn_owner c \<noteq> [] \<and> cancel_pending (cancel_member E rid sender now r t) (rn_id r)"
    if "c \<in> set (tt_runs (cancel_member E rid sender now r t))" "rn_id c = rn_id r" for c
  proof -
    from that(1) obtain c0 where c0: "c0 \<in> set (tt_runs t)" "c = cancelled_row r now c0" by (auto simp: cancel_member_runs)
    with that(2) have "rn_id c0 = rn_id r" by (auto simp: cancelled_row_def split: if_splits)
    with assms c0(1) have "c0 = r" by (metis distinct_map inj_onD)
    with c0(2) cancel_member_pending [of r] show ?thesis by (auto simp: cancelled_row_def live_owner_def terminal_run_def)
  qed
  then show ?thesis by (auto simp: fenced_def)
qed

lemma cancel_member_keeps:
  assumes "fenced t x" "x \<noteq> rn_id r"
  shows "fenced (cancel_member E rid sender now r t) x"
  using assms keeps_mail_pending [OF cancel_member_mail, of t x]
  by (fastforce simp: fenced_def cancel_member_runs cancelled_row_def)

lemma cancelled_row_id [simp]: "rn_id (cancelled_row r now c) = rn_id c"
  by (simp add: cancelled_row_def)

lemma fold_cancel_fences:
  assumes "distinct (map rn_id (tt_runs t))" "distinct (map rn_id rs)" "set rs \<subseteq> set (tt_runs t)"
  shows "(\<forall>x. x \<in> rn_id ` set rs \<or> fenced t x \<longrightarrow> fenced (fold (cancel_member E rid sender now) rs t) x)
    \<and> map rn_id (tt_runs (fold (cancel_member E rid sender now) rs t)) = map rn_id (tt_runs t)"
  using assms
proof (induction rs arbitrary: t)
  case (Cons r rs)
  let ?t = "cancel_member E rid sender now r t"
  have ids: "map rn_id (tt_runs ?t) = map rn_id (tt_runs t)" by (simp add: cancel_member_runs)
  have sub: "set rs \<subseteq> set (tt_runs ?t)"
  proof
    fix q
    assume q: "q \<in> set rs"
    then have "rn_id q \<in> rn_id ` set rs" by (rule imageI)
    then have "rn_id q \<noteq> rn_id r" using Cons.prems(2) by auto
    then have "cancelled_row r now q = q" by (simp add: cancelled_row_def)
    with q Cons.prems(3) show "q \<in> set (tt_runs ?t)" by (force simp: cancel_member_runs)
  qed
  from Cons.IH [of ?t] Cons.prems ids sub have IH: "\<forall>x. x \<in> rn_id ` set rs \<or> fenced ?t x \<longrightarrow> fenced (fold (cancel_member E rid sender now) rs ?t) x"
      "map rn_id (tt_runs (fold (cancel_member E rid sender now) rs ?t)) = map rn_id (tt_runs t)" by simp_all
  have "fenced ?t (rn_id r)" using Cons.prems(1,3) by (intro cancel_member_fences) auto
  moreover have "fenced ?t x" if "fenced t x" for x using cancel_member_keeps [OF that] calculation by (cases "x = rn_id r") auto
  ultimately show ?case using IH by auto
qed simp

lemma set_deepest_first: "set (deepest_first t ids) = {r \<in> set (tt_runs t). rn_id r \<in> set ids}"
  by (auto simp: deepest_first_def)

lemma distinct_deepest_first: "distinct (map rn_id (tt_runs t)) \<Longrightarrow> distinct (map rn_id (filter P (deepest_first t ids)))"
  by (auto simp: distinct_map deepest_first_def intro: inj_on_subset)

lemma wf_cancel_fences:
  assumes "tree_wf t" "request_cancel E now rid sender t = (True, t')" "(rid, x) \<in> (child_rel (tt_runs t))\<^sup>*"
  shows "fenced t' x"
proof -
  let ?act = "filter (\<lambda>r. \<not> terminal_run (rn_status r)) (deepest_first t (subtree_ids t rid))"
  have t': "t' = fold (cancel_member E rid sender now) ?act t"
    using assms(2) by (auto simp: request_cancel_def Let_def split: if_splits)
  have d: "distinct (map rn_id (tt_runs t))" using assms(1) by (simp add: tree_wf_def)
  have sub: "set ?act \<subseteq> set (tt_runs t)" by (auto simp: set_deepest_first)
  have "x \<in> set (subtree_ids t rid)" using assms(3) by (auto simp: subtree_ids_def tree_wanted_closure)
  then have "x \<in> rn_id ` set ?act \<or> fenced t x" by (auto simp: set_deepest_first fenced_def)
  with fold_cancel_fences [OF d distinct_deepest_first [OF d] sub] show ?thesis unfolding t' by blast
qed

text \<open>
  Property C19. A cancellation that was accepted reaches the whole delegated subtree in one
  transaction: afterwards every run at or below the cancelled one is terminal, or it has a
  live owner, is marked as being cancelled and has an unacknowledged cancel message waiting
  in its mailbox.
\<close>

theorem cancel_reaches_subtree:
  assumes "request_cancel E now rid sender (run_tree_ops E' ops empty_tree) = (True, t')"
    and "(rid, x) \<in> (child_rel (tt_runs (run_tree_ops E' ops empty_tree)))\<^sup>*"
  shows "fenced t' x"
  using wf_cancel_fences [OF reachable_wf assms] .

theorem cancel_reaches_subtree_witness:
  "\<exists>t'. request_cancel plain_env 7 (u ''r'') [] (run_tree_ops plain_env [sample_root, sample_child ''a''] empty_tree) = (True, t') \<and> fenced t' (u ''a'')"
proof -
  let ?t = "run_tree_ops plain_env [sample_root, sample_child ''a''] empty_tree"
  have rel: "(u ''r'', u ''a'') \<in> (child_rel (tt_runs ?t))\<^sup>*"
    unfolding sample_runs by (rule r_into_rtrancl) (auto simp: child_rel_def intro!: exI [of _ "child_row ''a''"], simp_all add: child_row_def)
  have root: "root_row \<in> set (tt_runs ?t)" "rn_id root_row = u ''r''" "\<not> terminal_run (rn_status root_row)"
    unfolding sample_runs by (simp_all add: root_row_def initial_status_def terminal_run_def)
  then have "run_row ?t (u ''r'') \<noteq> None" by (metis find_row_None imageI)
  moreover have "root_row \<in> set (filter (\<lambda>r. \<not> terminal_run (rn_status r)) (deepest_first ?t (subtree_ids ?t (u ''r''))))"
    using root by (simp add: set_deepest_first subtree_ids_def tree_wanted_closure)
  then have "filter (\<lambda>r. \<not> terminal_run (rn_status r)) (deepest_first ?t (subtree_ids ?t (u ''r''))) \<noteq> []" by (metis empty_iff empty_set)
  ultimately have "fst (request_cancel plain_env 7 (u ''r'') [] ?t)" by (simp add: request_cancel_def Let_def del: filter_empty_conv)
  then obtain t' where "request_cancel plain_env 7 (u ''r'') [] ?t = (True, t')" by (metis prod.collapse)
  with cancel_reaches_subtree [OF this rel] show ?thesis by blast
qed

subsection \<open>Completion\<close>

lemma below_same_root:
  assumes "tree_wf t" "run_row t rid = Some r" "(rid, x) \<in> (child_rel (tt_runs t))\<^sup>+"
  shows "\<forall>q \<in> set (tt_runs t). rn_id q = x \<longrightarrow> rn_root q = rn_root r \<and> rn_depth r < rn_depth q"
  using assms(3)
proof (induction rule: trancl_induct)
  case (base x)
  then obtain q0 where q0: "q0 \<in> set (tt_runs t)" "rn_parent q0 = rid" "rn_id q0 = x" by (auto simp: child_rel_def)
  have "rid \<noteq> []" using run_row_SomeD [OF assms(2)] wf_id_nonempty [OF assms(1)] by auto
  with q0 wf_parent_row [OF assms(1) q0(1)] assms(2) have c: "child_of r q0" by (metis option.inject)
  have "q = q0" if "q \<in> set (tt_runs t)" "rn_id q = x" for q
    using wf_same_row [OF assms(1) that(1), of q0] wf_row_of [OF assms(1) q0(1)] q0(3) that(2) by simp
  with c show ?case by (auto simp: child_of_def)
next
  case (step y x)
  from step.hyps(2) obtain q0 where q0: "q0 \<in> set (tt_runs t)" "rn_parent q0 = y" "rn_id q0 = x" by (auto simp: child_rel_def)
  have "y \<noteq> []" using step.hyps(1) nothing_above_empty [OF assms(1)] run_row_SomeD [OF assms(2)] wf_id_nonempty [OF assms(1)]
    by (metis trancl_into_rtrancl)
  with q0 wf_parent_row [OF assms(1) q0(1)] obtain p where p: "run_row t y = Some p" "child_of p q0" by metis
  with step.IH run_row_SomeD [OF p(1)] have "rn_root p = rn_root r \<and> rn_depth r < rn_depth p" by blast
  moreover have "q = q0" if "q \<in> set (tt_runs t)" "rn_id q = x" for q
    using wf_same_row [OF assms(1) that(1), of q0] wf_row_of [OF assms(1) q0(1)] q0(3) that(2) by simp
  ultimately show ?case using p(2) by (auto simp: child_of_def)
qed

lemma wf_root_completes_last:
  assumes "tree_wf t" "complete_mission_root E now rid m res t = (True, t')" "run_row t rid = Some r" "rn_status r \<noteq> R_COMPLETED"
    "x \<in> set (tt_runs t)" "(rid, rn_id x) \<in> (child_rel (tt_runs t))\<^sup>+"
  shows "terminal_run (rn_status x)"
proof -
  have g: "rn_root r = rid" "\<not> list_ex (\<lambda>c. rn_root c = rid \<and> rn_id c \<noteq> rid \<and> \<not> terminal_run (rn_status c)) (tt_runs t)"
    using assms(2-4) by (auto simp: complete_mission_root_def split: if_splits)
  have "rn_root x = rn_root r \<and> rn_depth r < rn_depth x" using below_same_root [OF assms(1,3,6)] assms(5) by blast
  moreover have "rn_id x \<noteq> rid" using calculation wf_same_row [OF assms(1,5)] assms(3) by auto
  ultimately show ?thesis using g assms(5) by (auto simp: list_ex_iff)
qed

text \<open>
  A root is completed only after everything it delegated: when the mirror of a
  successful mission completes a root that was not completed before, every run below it, at
  any depth, is already terminal.
\<close>

theorem root_completes_last:
  assumes "complete_mission_root E now rid m res (run_tree_ops E' ops empty_tree) = (True, t')"
    "run_row (run_tree_ops E' ops empty_tree) rid = Some r" "rn_status r \<noteq> R_COMPLETED"
    "x \<in> set (tt_runs (run_tree_ops E' ops empty_tree))" "(rid, rn_id x) \<in> (child_rel (tt_runs (run_tree_ops E' ops empty_tree)))\<^sup>+"
  shows "terminal_run (rn_status x)"
  using wf_root_completes_last [OF reachable_wf assms] .

subsection \<open>The outcome of a child\<close>

lemma run_hook_keeps:
  "tt_runs (snd (run_hook E ev rid p sub now t)) = tt_runs t" "tt_mail (snd (run_hook E ev rid p sub now t)) = tt_mail t"
  by (simp_all add: run_hook_def add_event_def split: hook_answer.split)

lemma results_between_cong: "tt_mail s = tt_mail t \<Longrightarrow> results_between s p c = results_between t p c"
  by (simp add: results_between_def)

lemma queue_child_result_posts:
  assumes "run_row t rid = Some r" "rn_parent r \<noteq> []" "run_row t (rn_parent r) = Some p" "\<not> stopping_run p"
  shows "results_between (snd (queue_child_result E rid st res a ob now t)) (rn_parent r) rid \<noteq> []"
proof (cases "child_result_sent t (rn_parent r) rid")
  case None
  with assms show ?thesis by (simp add: queue_child_result_def results_between_def post_mail_def add_event_def Let_def)
next
  case (Some m)
  then have "m \<in> set (results_between t (rn_parent r) rid)"
    by (auto simp: child_result_sent_def find_Some_iff results_between_def)
  with assms Some show ?thesis by (auto simp: queue_child_result_def)
qed

lemma stop_owned_done:
  assumes "stop_owned E now rid tok st res note a ob t = (True, t')"
  obtains t1 n t2 where "tt_runs t1 = tt_runs t" "tt_mail t1 = tt_mail t"
    "stop_row E now rid tok st res note a ob t1 = (n, t2)" "n = 1" "tt_runs t' = tt_runs t2" "tt_mail t' = tt_mail t2"
proof -
  obtain ans t1 where h: "(if st = R_COMPLETED \<or> st = R_FAILED then stop_hook E rid st res now t else (HOOK_NONE, t)) = (ans, t1)"
    by fastforce
  have k: "tt_runs t1 = tt_runs t" "tt_mail t1 = tt_mail t"
    using arg_cong [OF h, of snd] by (auto simp: stop_hook_def run_hook_keeps split: if_splits)
  obtain n t2 where r: "stop_row E now rid tok st res note a ob t1 = (n, t2)" by fastforce
  have notice: "tt_runs (notice_hook E rid note st now t2) = tt_runs t2" "tt_mail (notice_hook E rid note st now t2) = tt_mail t2"
    by (simp_all add: notice_hook_def run_hook_keeps)
  have "n = 1 \<and> t' = (if n \<noteq> 0 \<and> note \<noteq> [] then notice_hook E rid note st now t2 else t2)"
    using assms unfolding stop_owned_def h Let_def prod.case r by (auto split: hook_answer.splits bool.splits if_splits)
  with k r notice that show ?thesis by auto
qed

lemma wf_outcome_delivered_once:
  assumes "tree_wf t" "complete_run E now rid tok res a ob t = (True, t')"
    "run_row t rid = Some r" "rn_parent r \<noteq> []" "run_row t (rn_parent r) = Some p" "\<not> stopping_run p"
  shows "length (results_between t' (rn_parent r) rid) = 1"
proof -
  have "tree_evolves ch t (snd (complete_run E now rid tok res a ob t))"
    unfolding complete_run_def by (rule evolves_stop_owned) (simp add: owned_state_def)
  then have "tree_wf t'" using assms(1,2) tree_wf_evolves by simp
  then have le: "length (results_between t' (rn_parent r) rid) \<le> 1" by (simp add: tree_wf_def reports_once_def)
  from assms(2) obtain t1 n t2 where s: "tt_runs t1 = tt_runs t" "tt_mail t1 = tt_mail t"
      "stop_row E now rid tok R_COMPLETED res ''completed'' a ob t1 = (n, t2)" "n = 1" "tt_mail t' = tt_mail t2"
    unfolding complete_run_def by (rule stop_owned_done)
  let ?hit = "\<lambda>r. rn_id r = rid \<and> rn_status r = R_RUNNING \<and> rn_owner r = tok"
  let ?f = "\<lambda>r. r\<lparr>rn_status := R_COMPLETED, rn_result := take 4000 res, rn_owner := [], rn_lease := 0, rn_updated := now\<rparr>"
  obtain m u1 where u: "update_runs ?hit ?f t1 = (m, u1)" by fastforce
  obtain w where w: "t2 = snd (queue_child_result E rid R_COMPLETED res a ob now w)" "tt_runs w = tt_runs u1"
    using s(3,4) unfolding stop_row_def by (auto simp: u Let_def terminal_run_def split: if_splits)
  have rows: "tt_runs w = map (\<lambda>r. if ?hit r then ?f r else r) (tt_runs t)" using w(2) u s(1) by (auto simp: update_runs_def)
  have find: "run_row w x = map_option (\<lambda>r. if ?hit r then ?f r else r) (run_row t x)" for x
  proof -
    have "List.find (\<lambda>r. rn_id r = x) (map (\<lambda>r. if ?hit r then ?f r else r) rs)
        = map_option (\<lambda>r. if ?hit r then ?f r else r) (List.find (\<lambda>r. rn_id r = x) rs)" for rs
      by (induction rs) auto
    then show ?thesis by (simp add: run_row_def rows)
  qed
  have "rn_id r = rid" using run_row_SomeD [OF assms(3)] by simp
  have "rn_id p \<noteq> rid"
  proof
    assume "rn_id p = rid"
    then have "p = r" using wf_same_row [OF assms(1), of p r] run_row_SomeD [OF assms(5)] assms(3) by simp
    moreover have "child_of p r" using wf_parent_row [OF assms(1) _ assms(4)] run_row_SomeD [OF assms(3)] assms(5) by (metis option.inject)
    ultimately show False by (simp add: child_of_def)
  qed
  then have "run_row w (rn_parent r) = Some p" using find assms(5) by simp
  moreover obtain r' where "run_row w rid = Some r'" "rn_parent r' = rn_parent r" using find [of rid] assms(3) by auto
  ultimately have "results_between t2 (rn_parent r) rid \<noteq> []"
    using queue_child_result_posts [of w rid r' p] assms(4,6) w(1) by simp
  then have "results_between t' (rn_parent r) rid \<noteq> []" using s(5) results_between_cong by metis
  with le show ?thesis by (cases "results_between t' (rn_parent r) rid") auto
qed


subsection \<open>The sample tree at work\<close>

lemma sample_rows:
  "rn_id root_row = u ''r''" "rn_parent root_row = []" "rn_root root_row = u ''r''" "rn_mission root_row = u ''m''" "rn_owner root_row = []"
  "\<not> rn_cancel root_row" "rn_status root_row = R_QUEUED" "decode_run root_row = Inr root_row" "rn_used root_row = no_usage"
  "rn_created root_row = 5" "leash_of root_row = [(u ''max_specialists'', JInt 2)]" "resources_of root_row = [repo ''a'', repo ''b'']"
  "rn_task root_row = u ''ship it''" "rn_result root_row = []" "rn_depth root_row = 0"
  "rn_id (child_row x) = u x" "rn_parent (child_row x) = u ''r''" "rn_root (child_row x) = u ''r''" "rn_owner (child_row x) = []"
  "\<not> rn_cancel (child_row x)" "rn_status (child_row x) = R_QUEUED" "decode_run (child_row x) = Inr (child_row x)"
  "rn_used (child_row x) = no_usage" "rn_created (child_row x) = 6" "leash_of (child_row x) = [(u ''max_specialists'', JInt 2)]"
  "resources_of (child_row x) = [repo x]" "rn_task (child_row x) = u ''test it''" "rn_result (child_row x) = []" "rn_depth (child_row x) = 1"
  by (simp_all add: root_row_def child_row_def initial_status_def decode_run_def leash_of_def resources_of_def) (simp_all add: fresh_run_def)

abbreviation sample_tree :: run_tree where
  "sample_tree \<equiv> run_tree_ops plain_env [sample_root, sample_child ''a''] empty_tree"

lemma sample_find: "run_row sample_tree (u ''r'') = Some root_row" "run_row sample_tree (u ''a'') = Some (child_row ''a'')"
  by (simp_all add: run_row_def sample_runs sample_rows)

lemma sample_cancelled:
  "tt_runs (run_tree_ops plain_env [sample_root, sample_child ''a'', T_REQUEST_CANCEL 7 (u ''a'') []] empty_tree)
    = [root_row, cancelled_row (child_row ''a'') 7 (child_row ''a'')]"
proof -
  have "tree_wanted [root_row, child_row ''a''] [u ''a''] = [u ''a'']"
    by (simp add: tree_wanted.simps grow_pass_def sample_rows)
  then have "subtree_ids sample_tree (u ''a'') = [u ''a'']" by (simp add: subtree_ids_def sample_runs)
  then have "deepest_first sample_tree (subtree_ids sample_tree (u ''a'')) = [child_row ''a'']"
    by (simp add: deepest_first_def sample_runs sample_rows)
  then have "tt_runs (snd (request_cancel plain_env 7 (u ''a'') [] sample_tree)) = [root_row, cancelled_row (child_row ''a'') 7 (child_row ''a'')]"
    by (simp add: request_cancel_def sample_find sample_rows terminal_run_def cancel_member_runs sample_runs) (simp add: cancelled_row_def sample_rows)
  then show ?thesis by (simp add: run_tree_ops_def)
qed

theorem root_completes_last_witness:
  "terminal_run (rn_status (cancelled_row (child_row ''a'') 7 (child_row ''a'')))"
proof -
  let ?t = "run_tree_ops plain_env [sample_root, sample_child ''a'', T_REQUEST_CANCEL 7 (u ''a'') []] empty_tree"
  let ?c = "cancelled_row (child_row ''a'') 7 (child_row ''a'')"
  have c: "rn_id ?c = u ''a''" "rn_parent ?c = u ''r''" "rn_status ?c = R_CANCELLED" "rn_root ?c = u ''r''"
    by (simp_all add: cancelled_row_def live_owner_def sample_rows terminal_run_def owned_state_def)
  have row: "run_row ?t (u ''r'') = Some root_row" by (simp add: run_row_def sample_cancelled sample_rows)
  have "fst (complete_mission_root plain_env 9 (u ''r'') (u ''m'') (u ''ok'') ?t)"
    by (simp add: complete_mission_root_def row sample_rows terminal_run_def sample_cancelled c update_runs_def Let_def)
  then obtain t' where t': "complete_mission_root plain_env 9 (u ''r'') (u ''m'') (u ''ok'') ?t = (True, t')" by (metis prod.collapse)
  have rel: "(u ''r'', rn_id ?c) \<in> (child_rel (tt_runs ?t))\<^sup>+"
    unfolding sample_cancelled by (rule r_into_trancl) (use c in \<open>auto simp: child_rel_def intro!: exI [of _ ?c]\<close>)
  show ?thesis
    by (rule root_completes_last [OF t' row _ _ rel]) (simp_all add: sample_rows sample_cancelled)
qed

lemma sample_child_claim:
  "tt_runs (snd (claim plain_env (token []) 7 (u ''a'') (JInt 300) sample_tree))
     = [root_row, (child_row ''a'')\<lparr>rn_status := R_RUNNING, rn_owner := token [], rn_lease := 307, rn_updated := 7\<rparr>]"
proof -
  have events: "tt_events sample_tree = [\<lparr>ev_run = u ''r'', ev_kind = u ''created'', ev_payload = [(u ''status'', JStr (u ''queued''))], ev_at = 5\<rparr>,
      \<lparr>ev_run = u ''a'', ev_kind = u ''created'', ev_payload = [(u ''parent_run_id'', JStr (u ''r'')), (u ''role'', JStr (u ''tester'')), (u ''status'', JStr (u ''queued''))], ev_at = 6\<rparr>,
      \<lparr>ev_run = u ''r'', ev_kind = u ''child_created'', ev_payload = [(u ''run_id'', JStr (u ''a'')), (u ''role'', JStr (u ''tester''))], ev_at = 6\<rparr>]"
      "tt_mail sample_tree = []"
    using sample_spawn [of "tree_step plain_env sample_root empty_tree" "[]" "''a''"]
    by (simp_all add: run_tree_ops_def sample_root_step sample_root_events)
  have "payload_bytes plain_env [(u ''max_specialists'', JInt 2)] < 1000" "payload_bytes plain_env [(u ''status'', JStr (u ''queued''))] < 1000"
      "payload_bytes plain_env [(u ''run_id'', JStr (u ''a'')), (u ''role'', JStr (u ''tester''))] < 1000"
      "payload_bytes plain_env [(u ''parent_run_id'', JStr (u ''r'')), (u ''role'', JStr (u ''tester'')), (u ''status'', JStr (u ''queued''))] < 1000"
      "utf8_bytes (sorted_text (te_host plain_env) (JList (map resource_json [repo ''a'', repo ''b'']))) < 1000"
      "utf8_bytes (sorted_text (te_host plain_env) (JList (map resource_json [repo ''a'']))) < 1000"
      "utf8_bytes (u ''ship it'') < 1000" "utf8_bytes (u ''test it'') < 1000" "utf8_bytes [] < 1000"
    by (simp_all add: payload_bytes_def sorted_pairs_def repo_def resource_json_def
        json_quote_def json_escape_cp_def dec_def dec_digits.simps str_le_def u_def utf8_bytes_def)
  then have st: "storage_bytes plain_env (u ''r'') sample_tree < 5000000" "storage_bytes plain_env (u ''a'') sample_tree < 5000000"
    by (simp_all add: storage_bytes_def sample_find sample_rows events)
  have fl: "te_float plain_env q = q" for q by (simp add: plain_env_def)
  have "budget_reason plain_env 7 (u ''r'') sample_tree = Inr []" "budget_reason plain_env 7 (u ''a'') sample_tree = Inr []"
    using st by (simp_all add: budget_reason_def get_run_def sample_find sample_rows first_reason_def cap_int_def cap_rat_def dget_def no_usage_def fl)
  then show ?thesis
    by (simp add: claim_def spend_value_def sample_find sample_rows climb_from.simps stopping_run_def terminal_run_def take_lease_def update_runs_def sample_runs)
qed


subsection \<open>Errors\<close>

lemma spawn_row_error: "fst (spawn_row E p r role now t) = Inl e \<Longrightarrow> snd (spawn_row E p r role now t) = t"
  unfolding spawn_row_def by (auto simp del: finite_json.simps split: option.splits sum.splits if_splits)

lemma spawn_error: "fst (spawn_specialist E x now pid role task leash rs rid ws mode t) = Inl e
    \<Longrightarrow> snd (spawn_specialist E x now pid role task leash rs rid ws mode t) = t"
  unfolding spawn_specialist_def by (auto dest: spawn_row_error split: sum.splits option.splits)

lemma create_error: "fst (create_root E x now task leash rs rid m ws mode t) = Inl e
    \<Longrightarrow> snd (create_root E x now task leash rs rid m ws mode t) = t"
  unfolding create_root_def by (auto simp: Let_def simp del: finite_json.simps split: sum.splits option.splits if_splits)



text \<open>
  A failing ancestor fences its idle and its running descendants, but not one whose workspace
  is being provisioned: the update asks for an empty owner, and the provisioning claim is one.
\<close>

lemma provisioning_child_escapes:
  assumes "distinct (map rn_id (tt_runs t))" "r \<in> set (tt_runs t)" "rn_status r = R_WORKSPACE_REQUIRED" "rn_owner r \<noteq> []"
  shows "fence_descendant rid reason now r t = t"
proof -
  have one: "c = r" if "c \<in> set (tt_runs t)" "rn_id c = rn_id r" for c
    using assms(1,2) that by (metis distinct_map inj_onD)
  have "filter (\<lambda>c. rn_id c = rn_id r \<and> \<not> terminal_run (rn_status c) \<and> rn_owner c = []) (tt_runs t) = []"
    using one assms(4) by (auto simp: filter_empty_conv)
  moreover have "map (\<lambda>c. if rn_id c = rn_id r \<and> \<not> terminal_run (rn_status c) \<and> rn_owner c = [] then f c else c) (tt_runs t) = tt_runs t" for f
    using one assms(4) by (intro map_idI) auto
  ultimately show ?thesis
    using assms(3) by (simp add: fence_descendant_def terminal_run_def live_owner_def owned_state_def cancel_idle_def update_runs_def)
qed

end
