(* ===== verification/TreeUsage.thy ===== *)
theory TreeUsage
  imports TreeControl
begin

text \<open>
  Usage accounting of the run tree: a charge goes to the actor and to every run above it, so
  what a run has used is never less than what its children have used together, and the
  projection of a mission's absolute usage charges every unit once.
\<close>

subsection \<open>Counters\<close>

definition counters :: "(usage \<Rightarrow> nat) list" where
  "counters = [us_input, us_output, us_cache, us_calls, us_turns, us_cost, us_wall, us_retries]"

lemma counter_combine:
  "f \<in> set counters \<Longrightarrow> f (combine_usage op a b) = op (f a) (f b)"
  "f \<in> set counters \<Longrightarrow> f no_usage = 0"
  by (auto simp: counters_def combine_usage_def no_usage_def)

lemma usage_eqI: "(\<And>f. f \<in> set counters \<Longrightarrow> f a = f b) \<Longrightarrow> a = (b :: usage)"
  by (simp add: counters_def)

definition kids :: "run_tree \<Rightarrow> pystr \<Rightarrow> agent_run list" where
  "kids t rid = filter (\<lambda>r. rn_parent r = rid) (tt_runs t)"

definition used_by :: "(usage \<Rightarrow> nat) \<Rightarrow> agent_run list \<Rightarrow> nat" where
  "used_by f rs = sum_list (map (f \<circ> rn_used) rs)"

definition covers_children :: "run_tree \<Rightarrow> bool" where
  "covers_children t \<longleftrightarrow> (\<forall>r \<in> set (tt_runs t). \<forall>f \<in> set counters. used_by f (kids t (rn_id r)) \<le> f (rn_used r))"

subsection \<open>The ancestry that is charged\<close>

definition charge_path :: "run_tree \<Rightarrow> agent_run \<Rightarrow> pystr list \<Rightarrow> bool" where
  "charge_path t r ps \<longleftrightarrow> rn_id r \<in> set ps
     \<and> (\<forall>q \<in> set (tt_runs t). rn_id q \<in> set ps \<longrightarrow> rn_depth q \<le> rn_depth r \<and> (rn_parent q \<noteq> [] \<longrightarrow> rn_parent q \<in> set ps))
     \<and> (\<forall>q \<in> set (tt_runs t). \<forall>s \<in> set (tt_runs t). rn_id q \<in> set ps \<longrightarrow> rn_id s \<in> set ps \<longrightarrow> rn_depth q = rn_depth s \<longrightarrow> q = s)"

lemma charge_path_step:
  assumes "tree_wf t" "r \<in> set (tt_runs t)" "child_of p r" "rn_id p = rn_parent r" "charge_path t p ps"
  shows "charge_path t r (rn_id r # ps)"
proof -
  have same: "q = r" if "q \<in> set (tt_runs t)" "rn_id q = rn_id r" for q
    using wf_same_row [OF assms(1) that(1)] wf_row_of [OF assms(1,2)] that(2) by simp
  have d: "rn_depth r = rn_depth p + 1" using assms(3) by (simp add: child_of_def)
  have up: "rn_depth q \<le> rn_depth p" "rn_parent q \<noteq> [] \<Longrightarrow> rn_parent q \<in> set ps" if "q \<in> set (tt_runs t)" "rn_id q \<in> set ps" for q
    using assms(5) that by (auto simp: charge_path_def)
  have one: "q = s" if "q \<in> set (tt_runs t)" "s \<in> set (tt_runs t)" "rn_id q \<in> set ps" "rn_id s \<in> set ps" "rn_depth q = rn_depth s" for q s
    using assms(5) that unfolding charge_path_def by blast
  have "rn_depth q \<le> rn_depth r \<and> (rn_parent q \<noteq> [] \<longrightarrow> rn_parent q \<in> set (rn_id r # ps))"
    if q: "q \<in> set (tt_runs t)" "rn_id q \<in> set (rn_id r # ps)" for q
  proof (cases "rn_id q = rn_id r")
    case True
    with same [OF q(1)] assms(4,5) show ?thesis by (auto simp: charge_path_def)
  next
    case False
    with q up [OF q(1)] d show ?thesis by auto
  qed
  moreover have "q = s" if q: "q \<in> set (tt_runs t)" "s \<in> set (tt_runs t)" "rn_id q \<in> set (rn_id r # ps)" "rn_id s \<in> set (rn_id r # ps)" "rn_depth q = rn_depth s" for q s
  proof (cases "rn_id q = rn_id r")
    case True
    with same [OF q(1)] have "q = r" by simp
    with q(4,5) up(1) [OF q(2)] d same [OF q(2)] show ?thesis by auto
  next
    case nq: False
    then have dq: "rn_depth q \<le> rn_depth p" "rn_id q \<in> set ps" using q(3) up(1) [OF q(1)] by auto
    show ?thesis
    proof (cases "rn_id s = rn_id r")
      case True
      with same [OF q(2)] q(5) d dq show ?thesis by simp
    qed (use one [OF q(1,2) dq(2)] q(4,5) in auto)
  qed
  ultimately show ?thesis by (simp add: charge_path_def)
qed

lemma ancestry_walk_path:
  assumes "tree_wf t" "ancestry_walk t rt acc r = Inr A" "r \<in> set (tt_runs t)"
  shows "\<exists>ps. A = acc @ ps \<and> charge_path t r ps"
  using assms
proof (induction t rt acc r rule: ancestry_walk.induct)
  case (1 t rt acc r)
  have ok: "\<not> (List.member acc (rn_id r) \<or> 64 \<le> length acc)" "\<not> rn_root r \<noteq> rt"
    using "1.prems"(2) by (auto simp: ancestry_walk.simps [of t rt acc r] split: if_splits)
  show ?case
  proof (cases "rn_parent r = []")
    case True
    then have A: "A = acc @ [rn_id r]" using "1.prems"(2) ok by (simp add: ancestry_walk.simps [of t rt acc r] split: if_splits)
    have same: "q = r" if "q \<in> set (tt_runs t)" "rn_id q = rn_id r" for q
      using wf_same_row [OF "1.prems"(1) that(1)] wf_row_of [OF "1.prems"(1,3)] that(2) by simp
    have "charge_path t r [rn_id r]" using same True by (auto simp: charge_path_def)
    with A show ?thesis by blast
  next
    case False
    from wf_parent_row [OF "1.prems"(1,3) False] obtain p where p: "run_row t (rn_parent r) = Some p" "p \<in> set (tt_runs t)" "child_of p r" .
    have w: "ancestry_walk t rt (acc @ [rn_id r]) p = Inr A"
      using "1.prems"(2) ok False p(1) by (simp add: ancestry_walk.simps [of t rt acc r])
    from "1.IH" [OF ok False p(1) "1.prems"(1) w p(2)] obtain ps where "A = (acc @ [rn_id r]) @ ps" "charge_path t p ps" by blast
    with charge_path_step [OF "1.prems"(1,3) p(3)] run_row_SomeD [OF p(1)] show ?thesis by (intro exI [of _ "rn_id r # ps"]) simp
  qed
qed

lemma ancestry_of_path:
  assumes "tree_wf t" "ancestry_of t rid = Inr A"
  shows "\<exists>r \<in> set (tt_runs t). charge_path t r A"
proof -
  obtain r where r: "run_row t rid = Some r" "ancestry_walk t (rn_root r) [] r = Inr A"
    using assms(2) by (auto simp: ancestry_of_def split: option.splits)
  with ancestry_walk_path [OF assms(1) r(2)] run_row_SomeD [OF r(1)] show ?thesis by auto
qed

subsection \<open>Charges\<close>

lemma charged_sum:
  assumes "f \<in> set counters" "distinct (map rn_id rs)"
    and "\<And>q s. q \<in> set rs \<Longrightarrow> s \<in> set rs \<Longrightarrow> rn_id q \<in> A \<Longrightarrow> rn_id s \<in> A \<Longrightarrow> q = s"
  shows "used_by f (map (\<lambda>r. if rn_id r \<in> A then r\<lparr>rn_used := combine_usage (+) (rn_used r) us\<rparr> else r) rs)
    = used_by f rs + (if \<exists>r \<in> set rs. rn_id r \<in> A then f us else 0)"
  using assms(2,3)
proof (induction rs)
  case (Cons r rs)
  have IH: "used_by f (map (\<lambda>r. if rn_id r \<in> A then r\<lparr>rn_used := combine_usage (+) (rn_used r) us\<rparr> else r) rs)
    = used_by f rs + (if \<exists>r \<in> set rs. rn_id r \<in> A then f us else 0)"
    using Cons by auto
  have "\<not> (\<exists>s \<in> set rs. rn_id s \<in> A)" if "rn_id r \<in> A"
    using Cons.prems that by (metis distinct.simps(2) image_eqI list.set_intros(1,2) list.simps(9) list.set_map)
  with IH counter_combine [OF assms(1)] show ?case by (auto simp: used_by_def)
qed (simp add: used_by_def)

lemma charge_covers:
  assumes "tree_wf t" "covers_children t" "ancestry_of t rid = Inr A"
  shows "covers_children (charge_usage A us t)"
proof (cases "us = no_usage")
  case False
  from ancestry_of_path [OF assms(1,3)] obtain a where path: "charge_path t a A" by blast
  let ?f = "\<lambda>r. if rn_id r \<in> set A then r\<lparr>rn_used := combine_usage (+) (rn_used r) us\<rparr> else r"
  have runs: "tt_runs (charge_usage A us t) = map ?f (tt_runs t)" using False by (simp add: charge_usage_def)
  have d: "distinct (map rn_id (tt_runs t))" using assms(1) by (simp add: tree_wf_def)
  show ?thesis
    unfolding covers_children_def
  proof (intro ballI)
    fix r' f
    assume r': "r' \<in> set (tt_runs (charge_usage A us t))" and f: "f \<in> set counters"
    then obtain r where r: "r \<in> set (tt_runs t)" "r' = ?f r" unfolding runs by auto
    have id: "rn_id r' = rn_id r" using r(2) by simp
    have kids: "kids (charge_usage A us t) (rn_id r) = map ?f (kids t (rn_id r))"
      unfolding kids_def runs by (induction "tt_runs t") (auto simp: filter_map comp_def)
    have dk: "distinct (map rn_id (kids t (rn_id r)))" using d by (auto simp: kids_def distinct_map intro: inj_on_subset)
    have "q = s" if "q \<in> set (kids t (rn_id r))" "s \<in> set (kids t (rn_id r))" "rn_id q \<in> set A" "rn_id s \<in> set A" for q s
    proof -
      have "(r, q) \<in> above t" "(r, s) \<in> above t" using that(1,2) r(1) by (auto simp: above_def kids_def)
      then have "rn_depth q = rn_depth s" using above_child_of(1) [OF assms(1)] by (simp add: child_of_def)
      with path that show ?thesis by (auto simp: charge_path_def kids_def)
    qed
    from charged_sum [OF f dk this] have sum: "used_by f (map ?f (kids t (rn_id r)))
        = used_by f (kids t (rn_id r)) + (if \<exists>q \<in> set (kids t (rn_id r)). rn_id q \<in> set A then f us else 0)" .
    have "rn_id r \<in> set A" if "q \<in> set (kids t (rn_id r))" "rn_id q \<in> set A" for q
      using that path wf_id_nonempty [OF assms(1) r(1)] by (auto simp: charge_path_def kids_def)
    with sum assms(2) r(1) f counter_combine(1) [OF f, of "(+)" "rn_used r" us] show "used_by f (kids (charge_usage A us t) (rn_id r')) \<le> f (rn_used r')"
      unfolding id kids using r(2) by (fastforce simp: covers_children_def)
  qed
qed (simp add: charge_usage_def assms(2))

lemma evolves_used: "list_all2 (row_evolves False) rs ss \<Longrightarrow>
    map (\<lambda>r. (rn_id r, rn_parent r, rn_used r)) ss = map (\<lambda>r. (rn_id r, rn_parent r, rn_used r)) rs"
  by (induction rule: list_all2_induct) (auto simp: row_evolves_def same_origin_def)

lemma kids_used:
  assumes "map (\<lambda>r. (rn_id r, rn_parent r, rn_used r)) ss = map (\<lambda>r. (rn_id r, rn_parent r, rn_used r)) rs"
  shows "used_by f (filter (\<lambda>r. rn_parent r = x) ss) = used_by f (filter (\<lambda>r. rn_parent r = x) rs)"
  using assms
proof (induction ss arbitrary: rs)
  case (Cons s ss)
  then obtain r rs' where "rs = r # rs'" by (cases rs) auto
  with Cons show ?case by (auto simp: used_by_def)
qed (simp add: used_by_def)

lemma evolves_covers:
  assumes "covers_children t" "tree_evolves False t s"
  shows "covers_children s"
  unfolding covers_children_def
proof (intro ballI)
  fix r' f
  assume r': "r' \<in> set (tt_runs s)" and f: "f \<in> set counters"
  have l: "list_all2 (row_evolves False) (tt_runs t) (tt_runs s)" using assms(2) by (simp add: tree_evolves_def)
  from evolves_row [OF l r'] obtain r where "r \<in> set (tt_runs t)" "rn_id r' = rn_id r" "rn_used r' = rn_used r"
    by (auto simp: row_evolves_def same_origin_def)
  with assms(1) f kids_used [OF evolves_used [OF l]] show "used_by f (kids s (rn_id r')) \<le> f (rn_used r')"
    by (simp add: covers_children_def kids_def)
qed

lemma grows_covers:
  assumes "tree_wf t" "covers_children t" "grows_by t s r" "rn_used r = no_usage" "run_row t (rn_id r) = None" "rn_id r \<noteq> []"
  shows "covers_children s"
proof -
  have runs: "tt_runs s = tt_runs t @ [r]" using assms(3) by (simp add: grows_by_def)
  have new: "used_by f (kids s x) = used_by f (kids t x)" if "f \<in> set counters" for f x
    using counter_combine(2) [OF that] assms(4) by (simp add: kids_def runs used_by_def)
  have "kids t (rn_id r) = []"
  proof (rule ccontr)
    assume "kids t (rn_id r) \<noteq> []"
    then obtain q where q: "q \<in> set (tt_runs t)" "rn_parent q = rn_id r" by (auto simp: kids_def filter_empty_conv)
    show False
    proof (cases "rn_parent q = []")
      case False
      from wf_parent_row [OF assms(1) q(1) False] q(2) assms(5) show False by auto
    next
      case True
      with q(2) assms(6) show False by simp
    qed
  qed
  with assms(2) new runs counter_combine(2) assms(4) show ?thesis
    by (auto simp: covers_children_def used_by_def)
qed

lemma ancestry_same_rows:
  assumes "\<And>y. map_option (\<lambda>r. (rn_id r, rn_parent r, rn_root r)) (run_row s y) = map_option (\<lambda>r. (rn_id r, rn_parent r, rn_root r)) (run_row t y)"
    and "rn_id q = rn_id r" "rn_parent q = rn_parent r" "rn_root q = rn_root r"
  shows "ancestry_walk s rt acc q = ancestry_walk t rt acc r"
  using assms
proof (induction t rt acc r arbitrary: q rule: ancestry_walk.induct)
  case (1 t rt acc r)
  note same = "1.prems"(2-4)
  show ?case
  proof (cases "List.member acc (rn_id r) \<or> 64 \<le> length acc \<or> rn_root r \<noteq> rt \<or> rn_parent r = []")
    case True
    with same show ?thesis by (auto simp: ancestry_walk.simps [of s rt acc q] ancestry_walk.simps [of t rt acc r])
  next
    case False
    then have ok: "\<not> (List.member acc (rn_id r) \<or> 64 \<le> length acc)" "\<not> rn_root r \<noteq> rt" "rn_parent r \<noteq> []" by auto
    note w = ancestry_walk.simps [of s rt acc q] ancestry_walk.simps [of t rt acc r]
    show ?thesis
    proof (cases "run_row t (rn_parent r)")
      case None
      with "1.prems"(1) [of "rn_parent r"] have "run_row s (rn_parent r) = None" by simp
      with None same show ?thesis by (simp add: w)
    next
      case (Some p)
      with "1.prems"(1) [of "rn_parent r"] obtain p' where p': "run_row s (rn_parent r) = Some p'"
          "rn_id p' = rn_id p" "rn_parent p' = rn_parent p" "rn_root p' = rn_root p" by auto
      from "1.IH" [OF ok Some "1.prems"(1) p'(2-4)] have "ancestry_walk s rt (acc @ [rn_id r]) p' = ancestry_walk t rt (acc @ [rn_id r]) p" .
      with Some p'(1) same ok show ?thesis by (simp add: w)
    qed
  qed
qed

lemma ancestry_of_same:
  assumes "\<And>y. map_option (\<lambda>r. (rn_id r, rn_parent r, rn_root r)) (run_row s y) = map_option (\<lambda>r. (rn_id r, rn_parent r, rn_root r)) (run_row t y)"
  shows "ancestry_of s rid = ancestry_of t rid"
  using ancestry_same_rows [OF assms] assms [of rid]
  by (cases "run_row t rid"; cases "run_row s rid") (simp_all add: ancestry_of_def)

lemma usage_ops_cover:
  assumes "tree_wf t" "covers_children t"
  shows "covers_children (snd (account_usage E now rid tok raw t))" "covers_children (snd (project_mission_usage E now rid m raw t))"
proof -
  show "covers_children (snd (account_usage E now rid tok raw t))"
    using assms charge_covers [OF assms] by (auto simp: account_usage_def Let_def split: sum.split)
  have runs: "covers_children (s\<lparr>tt_proj := x\<rparr>) = covers_children s" "covers_children (add_event a b c d s) = covers_children s" for s x a b c d
    by (simp_all add: covers_children_def kids_def add_event_def)
  have "covers_children (snd (project_row now r m absolute A t))" if "ancestry_of t rid = Inr A" for r absolute A
  proof -
    have anc: "ancestry_of (s\<lparr>tt_proj := x\<rparr>) rid = ancestry_of s rid" for s x
      by (rule ancestry_of_same) (simp add: run_row_def)
    have wf: "tree_wf (s\<lparr>tt_proj := x\<rparr>) = tree_wf s" for s x
      by (simp add: tree_wf_def row_wf_def reports_once_def results_between_def)
    have "covers_children (charge_usage A us (t\<lparr>tt_proj := x\<rparr>))" for us x
      using charge_covers [of "t\<lparr>tt_proj := x\<rparr>" rid A us] wf anc runs assms that by simp
    then show ?thesis
      using assms(2) unfolding project_row_def put_projection_def raise_watermark_def
      by (auto simp: Let_def runs split: option.split)
  qed
  then have "covers_children s" if "ancestry_of t rid = Inr A" "project_row now r m absolute A t = (x, s)" for r absolute A x s
    using that by (metis snd_conv)
  then show "covers_children (snd (project_mission_usage E now rid m raw t))"
    using assms(2) by (auto simp: project_mission_usage_def split: sum.split option.split prod.split)
qed

lemma step_covers:
  assumes "tree_wf t" "covers_children t"
  shows "covers_children (tree_step E a t)"
proof (cases "creates a")
  case False
  have "distinct (map rn_id (tt_runs t))" using assms(1) by (simp add: tree_wf_def)
  note ev = step_tree_evolves [OF this False, of E]
  show ?thesis
  proof (cases "charges a")
    case True
    then show ?thesis using usage_ops_cover [OF assms] by (cases a) (simp_all add: charges_def)
  next
    case False
    with ev evolves_covers [OF assms(2)] show ?thesis by simp
  qed
next
  case True
  show ?thesis
  proof (cases "tree_step E a t = t")
    case changed: False
    obtain r where r: "grows_by t (tree_step E a t) r" "rn_used r = no_usage" "run_row t (rn_id r) = None" "rn_id r \<noteq> []"
    proof (cases a)
      case (T_ROOT x now task leash rs rid m ws mode)
      from changed show ?thesis unfolding T_ROOT tree_step.simps by (rule create_root_grows) (use that T_ROOT in auto)
    next
      case (T_SPAWN x now pid role task leash rs rid ws mode)
      from changed tree_wf_leashes [OF assms(1)] show ?thesis
        unfolding T_SPAWN tree_step.simps by (rule spawn_grows) (use that T_SPAWN in auto)
    qed (use True in \<open>simp_all add: creates_def\<close>)
    from grows_covers [OF assms r] show ?thesis .
  qed (use assms(2) in simp)
qed

interpretation usage_store: evolving_store "tree_step E" "\<lambda>t. tree_wf t \<and> covers_children t" tree_extends for E
  using tree_store.step_inv tree_store.step_evolves step_covers extends_trans
  by unfold_locales (auto simp: extends_evolves [of True])

lemma empty_covers: "covers_children empty_tree"
  by (simp add: covers_children_def empty_tree_def)

text \<open>
  Property C34. Fanning out cannot escape a budget: after any sequence of operations, for
  each of the eight counters (tokens, calls, turns, cost, wall time, retries) what a run has
  used is at least what its immediate children have used together, so an exhausted subtree
  shows at every run above it.
\<close>

theorem usage_covers_children:
  "\<forall>r \<in> set (tt_runs (run_tree_ops E ops empty_tree)). \<forall>f \<in> set counters.
     used_by f (kids (run_tree_ops E ops empty_tree) (rn_id r)) \<le> f (rn_used r)"
  using usage_store.run_inv [of empty_tree E ops] empty_tree_wf empty_covers
  unfolding run_tree_ops_def covers_children_def by blast

theorem usage_covers_children_witness:
  "let t = run_tree_ops plain_env [sample_root, sample_child ''a''] empty_tree in
     kids t (u ''r'') = [child_row ''a''] \<and> (\<forall>f \<in> set counters. used_by f (kids t (u ''r'')) \<le> f (rn_used root_row))"
proof -
  let ?t = "run_tree_ops plain_env [sample_root, sample_child ''a''] empty_tree"
  have k: "kids ?t (u ''r'') = [child_row ''a'']" by (simp add: kids_def sample_runs sample_rows)
  have r: "root_row \<in> set (tt_runs ?t)" "rn_id root_row = u ''r''" by (simp_all add: sample_runs sample_rows)
  show ?thesis unfolding Let_def using k bspec [OF usage_covers_children [of plain_env "[sample_root, sample_child ''a'']"] r(1)] unfolding r(2) by blast
qed

subsection \<open>Projecting a mission's usage\<close>

lemma usage_cases_eq: "(x :: usage) = y \<longleftrightarrow> (\<forall>f \<in> set counters. f x = f y)"
  using usage_eqI by blast

lemma usage_le_counters: "usage_le a b \<longleftrightarrow> (\<forall>f \<in> set counters. f a \<le> f b)"
  by (simp add: usage_le_def counters_def)

lemma charge_telescopes:
  assumes "usage_le a b"
  shows "combine_usage (+) (combine_usage (-) a w) (combine_usage (-) b (combine_usage max a w)) = combine_usage (-) b w"
  using assms by (auto simp: usage_cases_eq usage_le_counters counter_combine max_def)

lemma combine_no_usage: "combine_usage (+) x no_usage = x"
  by (simp add: usage_cases_eq counter_combine)

lemma combine_assoc: "combine_usage (+) (combine_usage (+) x y) z = combine_usage (+) x (combine_usage (+) y z)"
  by (simp add: usage_cases_eq counter_combine)

lemma charge_runs:
  "tt_runs (charge_usage A us t) = map (\<lambda>r. if rn_id r \<in> set A then r\<lparr>rn_used := combine_usage (+) (rn_used r) us\<rparr> else r) (tt_runs t)"
proof (cases "us = no_usage")
  case True
  then have "map (\<lambda>r. if rn_id r \<in> set A then r\<lparr>rn_used := combine_usage (+) (rn_used r) us\<rparr> else r) (tt_runs t) = tt_runs t"
    by (intro map_idI) (simp add: combine_no_usage)
  with True show ?thesis by (simp add: charge_usage_def)
qed (simp add: charge_usage_def)

lemma charge_proj: "tt_proj (charge_usage A us t) = tt_proj t"
  by (simp add: charge_usage_def update_runs_def)

lemma find_map_keep:
  assumes "\<And>p. pj_run (f p) = pj_run p"
  shows "List.find (\<lambda>p. pj_run p = rid) (map f ps) = map_option f (List.find (\<lambda>p. pj_run p = rid) ps)"
  using assms by (induction ps) auto

lemma find_run_keep:
  assumes "\<And>r. rn_id (f r) = rn_id r"
  shows "List.find (\<lambda>r. rn_id r = y) (map f rs) = map_option f (List.find (\<lambda>r. rn_id r = y) rs)"
  using assms by (induction rs) auto

lemma project_row_charges:
  assumes "projection_row t (rn_id r) = Some p" "pj_initialized p" "pj_mission p = [] \<or> pj_mission p = m"
  shows "fst (project_row now r m a A t) = Inr ()"
    "tt_runs (snd (project_row now r m a A t))
       = map (\<lambda>q. if rn_id q \<in> set A then q\<lparr>rn_used := combine_usage (+) (rn_used q) (combine_usage (-) a (pj_used p))\<rparr> else q) (tt_runs t)"
    "projection_row (snd (project_row now r m a A t)) (rn_id r)
       = Some (p\<lparr>pj_mission := m, pj_initialized := True, pj_used := combine_usage max a (pj_used p), pj_updated := now\<rparr>)"
proof -
  have rid: "pj_run p = rn_id r" using assms(1) by (auto simp: projection_row_def find_Some_iff)
  show "fst (project_row now r m a A t) = Inr ()" using assms by (auto simp: project_row_def Let_def)
  show "tt_runs (snd (project_row now r m a A t))
       = map (\<lambda>q. if rn_id q \<in> set A then q\<lparr>rn_used := combine_usage (+) (rn_used q) (combine_usage (-) a (pj_used p))\<rparr> else q) (tt_runs t)"
    using assms by (auto simp: project_row_def Let_def own_usage_def charge_runs raise_watermark_def)
  have "projection_row (raise_watermark (rn_id r) m high now t) (rn_id r)
      = Some (p\<lparr>pj_mission := m, pj_initialized := True, pj_used := high, pj_updated := now\<rparr>)" for high
    using assms(1) rid unfolding projection_row_def raise_watermark_def by (simp add: find_map_keep)
  then show "projection_row (snd (project_row now r m a A t)) (rn_id r)
       = Some (p\<lparr>pj_mission := m, pj_initialized := True, pj_used := combine_usage max a (pj_used p), pj_updated := now\<rparr>)"
    using assms by (auto simp: project_row_def Let_def projection_row_def charge_proj add_event_def)
qed

lemma project_succeeds:
  assumes "usage_values E raw = Inr a" "run_row t rid = Some r" "rn_mission r = m" "m \<noteq> []" "ancestry_of t rid = Inr A"
    "projection_row t rid = Some p" "pj_initialized p" "pj_mission p = [] \<or> pj_mission p = m"
  shows "snd (project_mission_usage E now rid m raw t) = snd (project_row now r m a A t)"
proof -
  have "rn_id r = rid" using run_row_SomeD [OF assms(2)] by simp
  with project_row_charges(1) [of t r p m now a A] assms obtain s where "project_row now r m a A t = (Inr (), s)"
    by (metis prod.collapse)
  with assms show ?thesis by (simp add: project_mission_usage_def)
qed


definition raw_tokens :: "int \<Rightarrow> raw_usage" where
  "raw_tokens n = \<lparr>ru_input = JInt n, ru_output = JInt 0, ru_cache = JInt 0, ru_calls = JInt 1, ru_turns = JInt 1,
     ru_cost_usd = JInt 0, ru_cost_micro = None, ru_wall = JInt 0, ru_retries = JInt 0\<rparr>"


end
