(* ===== verification/MissionCase.thy ===== *)
theory MissionCase
  imports Jobs Delegation
begin

text \<open>
  The pure helpers around a mission's case in \<open>harness/mission.py\<close>: reading and writing
  the durable JSON columns, the bounded projections of a case, the admission of a person's
  instruction and what a new instruction does to older evidence. A case is a dictionary. A
  column of JSON text is the dictionary it decodes to (\<open>Col\<close>), or, when \<open>_jl\<close> cannot decode
  it, \<open>Garbled\<close> with the number of its bytes.
\<close>

subsection \<open>Durable JSON\<close>

definition invalid_marker :: pystr where
  "invalid_marker = u ''_collie_invalid_durable_json''"

datatype column = Col pydict | Garbled nat

definition jl :: "column \<Rightarrow> pydict" where
  "jl c = (case c of Col d \<Rightarrow> d | Garbled _ \<Rightarrow> [(invalid_marker, JBool True)])"

definition json_invalid :: "pydict \<Rightarrow> bool" where
  "json_invalid d \<longleftrightarrow> dget d invalid_marker = Some (JBool True)"

definition js :: "pydict \<Rightarrow> pydict result" where
  "js d = (if finite_json (JObj d) then Inr d else Inl (ValueError ''Out of range float values are not JSON compliant''))"

lemma jl_simps [simp]: "jl (Col d) = d" "json_invalid (jl (Garbled n))"
  by (simp_all add: json_invalid_def jl_def dget_def)

text \<open>The text of a column, \<open>_js\<close> of the dictionary.\<close>

definition js_text :: "pyhost \<Rightarrow> pydict \<Rightarrow> pystr" where
  "js_text H d = json_text H (JObj d)"

text \<open>\<open>json.dumps(v, sort_keys=True)\<close>: the text after sorting every object by key.\<close>

fun sort_json :: "json \<Rightarrow> json" where
  "sort_json (JList xs) = JList (map sort_json xs)"
| "sort_json (JObj d) = JObj (sorted_pairs (map (\<lambda>(k, v). (k, sort_json v)) d))"
| "sort_json v = v"

definition sorted_text :: "pyhost \<Rightarrow> json \<Rightarrow> pystr" where
  "sorted_text H v = json_text H (sort_json v)"

text \<open>\<open>xs[-n:]\<close> for a positive \<open>n\<close>.\<close>

definition last_items :: "nat \<Rightarrow> 'a list \<Rightarrow> 'a list" where
  "last_items n xs = drop (length xs - n) xs"

lemma length_last_items [simp]: "length (last_items n xs) = min n (length xs)"
  by (simp add: last_items_def)

lemma set_last_items: "set (last_items n xs) \<subseteq> set xs"
  by (simp add: last_items_def set_drop_subset)

definition elapsed_budget_seconds :: "pyhost \<Rightarrow> pydict \<Rightarrow> int result" where
  "elapsed_budget_seconds H leash =
     (case dget leash (u ''max_elapsed_seconds'') of None \<Rightarrow> Inr 2592000 | Some v \<Rightarrow> py_int H v)"

definition nonnegative_integer :: "pyhost \<Rightarrow> json \<Rightarrow> nat result" where
  "nonnegative_integer H v =
     (let bad = Inl (ValueError ''must be a non-negative integer'') in
      if v = JNull \<or> v = JStr [] then Inr 0
      else case v of
          JBool b \<Rightarrow> bad
        | JFloat (Fin q) \<Rightarrow> if q = of_int \<lfloor>q\<rfloor> \<and> 0 \<le> q then Inr (nat \<lfloor>q\<rfloor>) else bad
        | JFloat _ \<Rightarrow> bad
        | _ \<Rightarrow>
            (case py_int H v of
               Inl _ \<Rightarrow> bad
             | Inr i \<Rightarrow> if (case v of JStr s \<Rightarrow> dec i \<noteq> strip s | _ \<Rightarrow> False) then bad else if i < 0 then bad else Inr (nat i)))"

text \<open>\<open>_compact_event\<close>: a payload whose text is too long keeps its first characters.\<close>

definition cut_payload :: "pystr \<Rightarrow> nat \<Rightarrow> pydict" where
  "cut_payload raw n = [(u ''summary'', JStr (take n raw)), (u ''truncated'', JBool True)]"

definition compact_event :: "pyhost \<Rightarrow> pydict \<Rightarrow> pydict" where
  "compact_event H payload =
     (let raw = sorted_text H (JObj payload) in if length raw \<le> 4000 then payload else cut_payload raw 4000)"

subsection \<open>Bounded views\<close>

definition bounded_json :: "pyhost \<Rightarrow> json \<Rightarrow> nat \<Rightarrow> json" where
  "bounded_json H v limit =
     (let raw = sorted_text H v in if length raw \<le> limit then v else JObj (cut_payload raw (limit - 64)))"

definition bounded_mapping_values :: "pyhost \<Rightarrow> json \<Rightarrow> nat \<Rightarrow> json" where
  "bounded_mapping_values H v limit =
     (case v of
        JObj d \<Rightarrow>
          let items = last_items 12 d; per_item = max 240 (min 900 ((limit - 128) div max 1 (length items)))
          in JObj (fold (\<lambda>(k, x) out. dset out (take 253 k) (bounded_json H x per_item)) items [])
      | _ \<Rightarrow> bounded_json H v limit)"

definition is_object :: "json \<Rightarrow> bool" where
  "is_object v = (case v of JObj _ \<Rightarrow> True | _ \<Rightarrow> False)"

text \<open>The loop of \<open>_bounded_sequence_tail\<close> over the items from the newest to the oldest.\<close>

definition truncated :: "json \<Rightarrow> bool" where
  "truncated v \<longleftrightarrow> (case v of JObj d \<Rightarrow> truthy (dget_null d (u ''truncated'')) | _ \<Rightarrow> False)"

primrec sequence_tail :: "pyhost \<Rightarrow> nat \<Rightarrow> nat \<Rightarrow> nat \<Rightarrow> json list \<Rightarrow> json list \<Rightarrow> json list" where
  "sequence_tail H limit i remaining kept [] = kept"
| "sequence_tail H limit i remaining kept (item # items) =
     (let item_limit = min (if i = 0 then 700 else 500) (max 160 (remaining - 8));
          bounded = bounded_json H item item_limit;
          bounded = (if is_object item \<and> truncated bounded then bounded_mapping_values H item item_limit else bounded);
          candidate = bounded # kept; encoded = length (json_text H (JList candidate))
      in if encoded > limit then kept
         else let remaining = limit - encoded in
           if remaining < 160 \<or> length candidate \<ge> 3 then candidate else sequence_tail H limit (i + 1) remaining candidate items)"

definition bounded_sequence_tail :: "pyhost \<Rightarrow> json \<Rightarrow> nat \<Rightarrow> json" where
  "bounded_sequence_tail H v limit =
     (case v of
        JList xs \<Rightarrow>
          let kept = sequence_tail H limit 0 limit [] (rev xs)
          in JList (if kept = [] \<and> xs \<noteq> [] then [bounded_json H (last xs) (max 160 (limit - 32))] else kept)
      | _ \<Rightarrow> bounded_json H v limit)"

subsection \<open>The context handed to the planner\<close>

text \<open>\<open>_model_case_json\<close>: the priority fields first, each within its own budget; then the
  other fields while they fit; then the largest value shrunk, at most eighty times.\<close>

definition priority_budgets :: "(pystr \<times> nat) list" where
  "priority_budgets = map (\<lambda>(k, n). (u k, n))
     [(''_authority'', 1000), (''execution_profile'', 900), (''billing_safety'', 1800), (''code_profile'', 1200),
      (''code_verification'', 1800), (''code_delivery'', 1400), (''code_baseline_tree_digest'', 200),
      (''code_expected_tree_digest'', 200), (''_standing_authority'', 1000), (''_connected_work_identities'', 1200),
      (''signal'', 900), (''_mission_summary'', 900), (''_human_note_ledger'', 400), (''human_updates'', 700),
      (''pending_authorizations'', 1000), (''resolved_authorizations'', 600), (''skipped_steps'', 1200),
      (''_campaign_coverage'', 1800), (''pending_followups'', 1000), (''_due_followups'', 800),
      (''_activity_ledger'', 2200), (''_do_not_repeat'', 900), (''browse_sites'', 1900), (''_recent_results'', 1200),
      (''_recent_events'', 900), (''_checkpoint'', 300)]"

definition timeline_fields :: "pystr list" where
  "timeline_fields = map u [''human_updates'', ''_campaign_coverage'', ''pending_followups'', ''_due_followups'',
     ''_activity_ledger'', ''_do_not_repeat'', ''_recent_results'', ''_recent_events'']"

definition case_text :: "pyhost \<Rightarrow> pydict \<Rightarrow> pystr" where
  "case_text H d = json_text H (JObj d)"

definition ordered_case :: "pydict \<Rightarrow> pydict" where
  "ordered_case d =
     (let front = concat (map (\<lambda>(k, _). case dget d k of None \<Rightarrow> [] | Some v \<Rightarrow> [(k, v)]) priority_budgets)
      in front @ filter (\<lambda>(k, _). dget front k = None) d)"

definition bounded_field :: "pyhost \<Rightarrow> pystr \<Rightarrow> nat \<Rightarrow> json \<Rightarrow> json" where
  "bounded_field H k n v =
     (if k = u ''browse_sites'' then bounded_mapping_values H v n
      else if List.member timeline_fields k then bounded_sequence_tail H v n
      else bounded_json H v n)"

definition context_marker :: pystr where
  "context_marker = u ''_context_truncated''"

primrec fill_context :: "pyhost \<Rightarrow> nat \<Rightarrow> pydict \<Rightarrow> pydict \<Rightarrow> pydict" where
  "fill_context H limit head [] = head"
| "fill_context H limit head (kv # rest) =
     (if dget head (fst kv) \<noteq> None then fill_context H limit head rest
      else let candidate = dset head (fst kv) (snd kv) in
        if length (case_text H candidate) > limit then head else fill_context H limit candidate rest)"

text \<open>\<open>max((len(text), key), ...)\<close> over the fields but the marker.\<close>

definition bigger :: "nat \<times> pystr \<Rightarrow> nat \<times> pystr \<Rightarrow> bool" where
  "bigger a b \<longleftrightarrow> fst b < fst a \<or> fst a = fst b \<and> str_lt (snd b) (snd a)"

primrec largest :: "(nat \<times> pystr) list \<Rightarrow> (nat \<times> pystr) option" where
  "largest [] = None"
| "largest (x # xs) = (case largest xs of None \<Rightarrow> Some x | Some y \<Rightarrow> Some (if bigger y x then y else x))"

definition shrink_value :: "pyhost \<Rightarrow> nat \<Rightarrow> json \<Rightarrow> json" where
  "shrink_value H sz v =
     (case v of
        JList xs \<Rightarrow> if length xs > 1 then JList (last_items (max 1 (length xs div 2)) xs)
                   else bounded_json H v (max 64 (sz * 55 div 100))
      | _ \<Rightarrow> bounded_json H v (max 64 (sz * 55 div 100)))"

primrec shrink_context :: "pyhost \<Rightarrow> nat \<Rightarrow> nat \<Rightarrow> pydict \<Rightarrow> pydict" where
  "shrink_context H limit 0 head = head"
| "shrink_context H limit (Suc n) head =
     (if length (case_text H head) \<le> limit then head
      else case largest (map (\<lambda>(k, v). (length (json_text H v), k)) (filter (\<lambda>(k, _). k \<noteq> context_marker) head)) of
          None \<Rightarrow> head
        | Some (sz, k) \<Rightarrow>
            let head1 = dset head k (shrink_value H sz (dget_null head k)) in
            shrink_context H limit n
              (if length (case_text H head1) \<ge> length (case_text H head)
               then dset head k (JObj [(u ''truncated'', JBool True)]) else head1))"

definition fallback_context :: pydict where
  "fallback_context = [(context_marker, JBool True), (u ''_mission_summary'', JStr (u ''working context exceeded its safe envelope''))]"

definition model_case_json :: "pyhost \<Rightarrow> pydict \<Rightarrow> nat \<Rightarrow> pystr" where
  "model_case_json H d n0 =
     (let ordered = ordered_case d; raw = case_text H ordered; limit = max 1000 n0 in
      if length raw \<le> limit then raw
      else
        let head = concat (map (\<lambda>(k, n). case dget ordered k of None \<Rightarrow> [] | Some v \<Rightarrow> [(k, bounded_field H k n v)]) priority_budgets);
            head = fill_context H limit (dset head context_marker (JBool True)) ordered;
            encoded = case_text H (shrink_context H limit 80 head)
        in if length encoded \<le> limit then encoded else case_text H fallback_context)"

lemma fallback_fits: "length (case_text H fallback_context) \<le> 1000"
  by (simp add: case_text_def fallback_context_def context_marker_def json_quote_def json_escape_cp_def u_def)

text \<open>The context is never longer than its limit, whatever the case holds.\<close>

lemma model_case_fits: "length (model_case_json H d limit) \<le> max 1000 limit"
  using fallback_fits [of H] unfolding model_case_json_def Let_def by (simp add: le_max_iff_disj)

subsection \<open>Instructions of a person\<close>

text \<open>
  An accepted instruction is a row of the ledger with its exact text. \<open>note_entry\<close> is the
  dictionary \<open>_ledger_rows_locked\<close> makes of a row.
\<close>

record human_note =
  hn_id :: nat
  hn_mission :: pystr
  hn_at :: int
  hn_source :: pystr
  hn_host :: bool
  hn_note :: pystr
  hn_ref :: pystr

definition note_entry :: "human_note \<Rightarrow> pydict" where
  "note_entry n = [(u ''note_id'', JInt (int (hn_id n))), (u ''at'', JInt (hn_at n)), (u ''source'', JStr (hn_source n)),
     (u ''host'', JBool (hn_host n)), (u ''note'', JStr (hn_note n)), (u ''source_ref'', JStr (hn_ref n))]"

definition note_max_chars :: nat where "note_max_chars = 20000"
definition ledger_max_chars :: nat where "ledger_max_chars = 400000"
definition ledger_max_notes :: nat where "ledger_max_notes = 500"
definition projection_chars :: nat where "projection_chars = 500"
definition projection_notes :: nat where "projection_notes = 20"

definition empty_note_text :: pystr where
  "empty_note_text = u ''the instruction is empty''"

definition long_note_text :: "nat \<Rightarrow> nat \<Rightarrow> pystr" where
  "long_note_text n limit = u ''the instruction is '' @ dec (int n) @ u '' characters; this Mission accepts at most '' @ dec (int limit)
     @ u '' per message so nothing has to be silently shortened. Send it as several messages, or put the long material in a file in the Mission's workspace and reference it.''"

definition admit_human_note :: "pystr \<Rightarrow> pystr + pystr" where
  "admit_human_note text =
     (if strip text = [] then Inl empty_note_text
      else if length text > note_max_chars then Inl (long_note_text (length text) note_max_chars)
      else Inr text)"

text \<open>\<open>int(v or 0)\<close>.\<close>

definition int_or_zero :: "pyhost \<Rightarrow> json \<Rightarrow> int result" where
  "int_or_zero H v = (if truthy v then py_int H v else Inr 0)"

text \<open>SHA-256 of the concatenated bytes: the digest of a text is that of its UTF-8 bytes.\<close>

definition note_digest :: "pyhost \<Rightarrow> human_note list \<Rightarrow> pystr" where
  "note_digest H notes =
     sha256_hex H (concat (map (\<lambda>n. dec (int (hn_id n)) @ [0] @ hn_note n @ [0] @ hn_source n @ [0]) notes))"

definition projected_note :: "pyhost \<Rightarrow> pydict \<Rightarrow> pydict result" where
  "projected_note H item =
     bind_result (int_or_zero H (dget_null item (u ''at''))) (\<lambda>t.
     bind_result (int_or_zero H (dget_null item (u ''note_id''))) (\<lambda>nid.
     bind_result (int_or_zero H (dget_null item (u ''note_chars''))) (\<lambda>chars.
       let note = str_or_empty H (dget_null item (u ''note'')); source = str_or_empty H (dget_null item (u ''source''));
           full = max (int (length note)) chars in
       Inr ([(u ''at'', JInt t), (u ''note'', JStr (take projection_chars note)), (u ''note_id'', JInt nid), (u ''source'', JStr source)]
         @ (if truthy (dget_null item (u ''host'')) then [(u ''recovery'', JBool True)] else [])
         @ (if source = u ''steer'' then [(u ''steer'', JBool True)] else [])
         @ (if full > int projection_chars \<or> truthy (dget_null item (u ''projection_only''))
            then [(u ''projection_only'', JBool True), (u ''note_chars'', JInt full)] else [])))))"

fun project_each :: "pyhost \<Rightarrow> json list \<Rightarrow> json list result" where
  "project_each H [] = Inr []"
| "project_each H (JObj item # items) =
     bind_result (projected_note H item) (\<lambda>row. bind_result (project_each H items) (\<lambda>rows. Inr (JObj row # rows)))"
| "project_each H (_ # items) = project_each H items"

definition human_note_projection :: "pyhost \<Rightarrow> json \<Rightarrow> json list result" where
  "human_note_projection H entries = bind_result (loop_items entries) (\<lambda>items. project_each H (last_items projection_notes items))"

text \<open>\<open>_legacy_case_notes\<close>: the instructions a case carried before the ledger existed.\<close>

record legacy_note =
  lg_at :: int
  lg_note :: pystr
  lg_id :: int
  lg_host :: bool
  lg_source :: pystr
  lg_fragment :: bool

definition legacy_note_of :: "pyhost \<Rightarrow> pydict \<Rightarrow> legacy_note list result" where
  "legacy_note_of H item =
     (let note = str_or_empty H (dget_null item (u ''note'')) in
      if strip note = [] then Inr []
      else
        bind_result (int_or_zero H (dget_null item (u ''at''))) (\<lambda>t.
        bind_result (int_or_zero H (dget_null item (u ''note_id''))) (\<lambda>nid.
          Inr [\<lparr>lg_at = t, lg_note = note, lg_id = nid, lg_host = truthy (dget_null item (u ''recovery'')),
            lg_source = py_str H (or_json (dget_null item (u ''source''))
              (JStr (if truthy (dget_null item (u ''steer'')) then u ''steer'' else u ''legacy''))),
            lg_fragment = truthy (dget_null item (u ''projection_only''))\<rparr>])))"

fun legacy_each :: "pyhost \<Rightarrow> json list \<Rightarrow> legacy_note list result" where
  "legacy_each H [] = Inr []"
| "legacy_each H (JObj item # items) =
     bind_result (legacy_note_of H item) (\<lambda>a. bind_result (legacy_each H items) (\<lambda>b. Inr (a @ b)))"
| "legacy_each H (_ # items) = legacy_each H items"

definition legacy_case_notes :: "pyhost \<Rightarrow> pydict \<Rightarrow> legacy_note list result" where
  "legacy_case_notes H d = bind_result (loop_items (dget_null d (u ''human_updates''))) (legacy_each H)"

text \<open>\<open>_supersede_code_evidence\<close>: a green check is archived when the authorized goal changes.\<close>

definition dpop :: "pydict \<Rightarrow> pystr \<Rightarrow> pydict" where
  "dpop d k = filter (\<lambda>(k', _). k' \<noteq> k) d"

definition supersede_code_evidence :: "pydict \<Rightarrow> pystr \<Rightarrow> nat list \<Rightarrow> int \<Rightarrow> pydict result" where
  "supersede_code_evidence d revision note_ids now =
     (if \<not> truthy (dget_null d (u ''code_verified'')) \<and> \<not> truthy (dget_null d (u ''code_verification''))
      then Inr (dset d (u ''code_goal_revision'') (JStr revision))
      else
        let archived = JObj [(u ''at'', JInt now), (u ''superseded_by_notes'', JList (map (\<lambda>i. JInt (int i)) note_ids)),
              (u ''goal_revision'', JStr revision), (u ''verified'', JBool (truthy (dget_null d (u ''code_verified'')))),
              (u ''verification'', dget_null d (u ''code_verification'')), (u ''delivery'', dget_null d (u ''code_delivery'')),
              (u ''reason'', JStr (u ''a later human instruction changed the authorized goal''))]
        in bind_result (loop_items (dget_null d (u ''code_verification_history''))) (\<lambda>items.
             Inr (dset (dpop (dset (dset d (u ''code_verification_history'') (JList (last_items 5 (filter is_object items @ [archived]))))
                    (u ''code_verified'') (JBool False)) (u ''code_verification'')) (u ''code_goal_revision'') (JStr revision))))"

subsection \<open>Compaction of a case\<close>

definition kept_fields :: "pystr list" where
  "kept_fields = map u [''_mission_summary'', ''_recent_results'', ''human_updates'', ''browse_sites'', ''signal'',
     ''pending_authorizations'', ''resolved_authorizations'', ''skipped_steps'', ''pending_followups'', ''_due_followups'',
     ''resolved_followups'', ''_campaign_coverage'', ''execution_profile'', ''billing_safety'', ''code_profile'',
     ''code_verification'', ''observe_count'', ''submitted'', ''published'', ''sent'', ''url'', ''draft'', ''code_verified'',
     ''code_pending'', ''code_session_id'', ''code_recovery_required'', ''code_delivery'', ''code_dispatch'',
     ''code_verification_history'', ''code_goal_revision'', ''_human_note_ledger'', ''code_baseline_tree_digest'',
     ''code_expected_tree_digest'', ''coded'', ''last_sent_to'', ''_isolated_workspace'', ''_workspace'', ''_run_id'',
     ''_specialist_run_id'', ''_parent_mission_id'']"

definition dropped_line :: "pyhost \<Rightarrow> pystr \<times> json \<Rightarrow> pystr" where
  "dropped_line H = (\<lambda>(k, v). k @ [61] @ take 600 (join [32] (py_split (json_text H v))))"

definition case_limit :: nat where "case_limit = 64000"

definition compacted :: "pyhost \<Rightarrow> pydict \<Rightarrow> json list \<Rightarrow> pydict" where
  "compacted H d recent =
     (let out = filter (\<lambda>(k, _). List.member kept_fields k) d;
          old = str_or_empty H (dget_null d (u ''_mission_summary''));
          dropped = map (dropped_line H) (filter (\<lambda>(k, _). \<not> List.member kept_fields k \<and> \<not> starts_with k [95]) d);
          summary = last_items (max 1000 (case_limit div 2)) (old @ (if old \<noteq> [] \<and> dropped \<noteq> [] then [10] else []) @ join [10] dropped);
          out1 = (if summary \<noteq> [] then dset out (u ''_mission_summary'') (JStr summary) else out)
      in if length (js_text H out1) > case_limit
         then dset (dset out1 (u ''_recent_results'') (JList (map (\<lambda>x. bounded_json H x 1200) (last_items 6 recent))))
                (u ''_mission_summary'') (JStr (last_items 4000 (str_or_empty H (dget_null out1 (u ''_mission_summary'')))))
         else out1)"

definition compact_case_storage :: "pyhost \<Rightarrow> pydict \<Rightarrow> pydict result" where
  "compact_case_storage H d =
     bind_result (loop_items (dget_null d (u ''_recent_results''))) (\<lambda>results.
       let recent = last_items 12 results; d1 = (if recent \<noteq> [] then dset d (u ''_recent_results'') (JList recent) else d) in
     bind_result (human_note_projection H (dget_null d1 (u ''human_updates''))) (\<lambda>updates.
       let d2 = (if updates \<noteq> [] then dset d1 (u ''human_updates'') (JList updates) else d1) in
     bind_result (js d2) (\<lambda>_.
       if length (js_text H d2) \<le> case_limit then Inr d2 else Inr (compacted H d2 recent))))"

end
