(* ===== verification/Reach.thy ===== *)
theory Reach
  imports Main
begin

text \<open>
  The recursive queries \<open>WITH RECURSIVE ... UNION\<close> of the program: the nodes reached along a
  list of edges, each once. The loop ends because every round adds a target that was not
  reached before, and it computes the reflexive-transitive closure.
\<close>

function reach :: "('a \<times> 'a) list \<Rightarrow> 'a list \<Rightarrow> 'a list" where
  "reach es ws =
     (let next = remdups (map snd (filter (\<lambda>(a, b). a \<in> set ws \<and> b \<notin> set ws) es)) in
      if next = [] then ws else reach es (ws @ next))"
  by pat_completeness auto
termination
proof (relation "measure (\<lambda>(es, ws). card (snd ` set es - set ws))")
  fix es :: "('a \<times> 'a) list" and ws next'
  assume n: "next' = remdups (map snd (filter (\<lambda>(a, b). a \<in> set ws \<and> b \<notin> set ws) es))" "next' \<noteq> []"
  let ?b = "hd next'"
  from n(2) have "?b \<in> set next'" by simp
  with n(1) have "?b \<in> snd ` set es - set ws" "?b \<notin> snd ` set es - set (ws @ next')" by force+
  then have "snd ` set es - set (ws @ next') \<subset> snd ` set es - set ws" by auto
  then show "((es, ws @ next'), (es, ws)) \<in> measure (\<lambda>(es, ws). card (snd ` set es - set ws))"
    by (simp add: psubset_card_mono)
qed simp

declare reach.simps [simp del]

lemma reach_closure: "set (reach es ws) = (set es)\<^sup>* `` set ws"
proof (induction es ws rule: reach.induct)
  case (1 es ws)
  let ?next = "remdups (map snd (filter (\<lambda>(a, b). a \<in> set ws \<and> b \<notin> set ws) es))"
  show ?case
  proof (cases "?next = []")
    case True
    then have closed: "b \<in> set ws" if "(a, b) \<in> set es" "a \<in> set ws" for a b
      using that by (auto simp: filter_empty_conv)
    have "y \<in> set ws" if "(x, y) \<in> (set es)\<^sup>*" "x \<in> set ws" for x y
      using that by (induction rule: rtrancl_induct) (auto intro: closed)
    then show ?thesis using True by (subst reach.simps) (auto simp: Let_def)
  next
    case False
    have sub: "set ?next \<subseteq> (set es)\<^sup>* `` set ws" by (auto intro: ImageI [OF r_into_rtrancl])
    have "(set es)\<^sup>* `` set (ws @ ?next) = (set es)\<^sup>* `` set ws"
    proof
      show "(set es)\<^sup>* `` set (ws @ ?next) \<subseteq> (set es)\<^sup>* `` set ws"
      proof
        fix y assume "y \<in> (set es)\<^sup>* `` set (ws @ ?next)"
        then obtain x where x: "x \<in> set ws \<or> x \<in> set ?next" "(x, y) \<in> (set es)\<^sup>*" by auto
        with sub obtain z where "z \<in> set ws" "(z, x) \<in> (set es)\<^sup>*" by blast
        with x(2) show "y \<in> (set es)\<^sup>* `` set ws" by (blast intro: rtrancl_trans)
      qed
      show "(set es)\<^sup>* `` set ws \<subseteq> (set es)\<^sup>* `` set (ws @ ?next)" by auto
    qed
    with 1 [OF refl False] False show ?thesis by (subst reach.simps) (simp add: Let_def)
  qed
qed

lemma reach_start: "x \<in> set ws \<Longrightarrow> x \<in> set (reach es ws)"
  by (auto simp: reach_closure)

end
