(* ===== verification/Mission.thy ===== *)
theory Mission
  imports MissionCase Reach
begin

text \<open>
  The tables of \<open>MissionStore\<close> in \<open>harness/mission.py\<close> and the statements on them: the
  mission row, its runtime row with the durable counters, and the rows of steps, waits,
  leases, events, notes, keys and checkpoints. A table is a list of rows in insertion order.
  \<open>now\<close> is \<open>int(time.time())\<close> at the call; new tokens are arguments. \<open>mission_env\<close> holds the
  host, the rounding of a rational to a float and the parsing of a float from text.
\<close>

subsection \<open>Rows\<close>

record mission_row =
  mi_id :: pystr
  mi_goal :: pystr
  mi_leash :: column
  mi_case :: column
  mi_state :: job_state
  mi_result :: pystr
  mi_created :: int
  mi_updated :: int
  mi_from :: "job_state option"
  mi_token :: pystr
  mi_lease :: int

record counters =
  ct_wall :: nat
  ct_input :: nat
  ct_output :: nat
  ct_cache :: nat
  ct_calls :: nat
  ct_turns :: nat
  ct_cost :: nat
  ct_equivalent :: nat
  ct_retries :: nat
  ct_storage :: nat
  ct_external :: nat

record runtime_row =
  rt_id :: pystr
  rt_parent :: pystr
  rt_lane :: pystr
  rt_run :: pystr
  rt_seq :: nat
  rt_checkpoint :: nat
  rt_progress :: int
  rt_phase :: pystr
  rt_since :: int
  rt_started :: int
  rt_dispatched :: int
  rt_used :: counters
  rt_human_since :: int
  rt_escalate :: int
  rt_deadline :: int
  rt_level :: nat

record step_row =
  sp_mission :: pystr
  sp_name :: pystr
  sp_nonce :: pystr
  sp_verdict :: pystr
  sp_at :: int

datatype wake_state = WK_PENDING | WK_FIRED | WK_SUPERSEDED | WK_CANCELLED

record wake_row =
  wk_id :: nat
  wk_mission :: pystr
  wk_fire :: int
  wk_state :: wake_state
  wk_created :: int

record lease_row =
  lr_resource :: pystr
  lr_mission :: pystr
  lr_token :: pystr
  lr_until :: int
  lr_updated :: int

record mission_event =
  me_mission :: pystr
  me_kind :: pystr
  me_name :: pystr
  me_nonce :: pystr
  me_payload :: pydict
  me_at :: int

datatype pending_state = PN_PENDING | PN_APPLIED | PN_REJECTED

record pending_note =
  pn_id :: nat
  pn_mission :: pystr
  pn_client :: pystr
  pn_note :: pystr
  pn_source :: pystr
  pn_at :: int
  pn_state :: pending_state
  pn_note_id :: nat
  pn_error :: pystr
  pn_settled :: int

record checkpoint_row =
  ck_id :: nat
  ck_mission :: pystr
  ck_seq :: nat
  ck_phase :: pystr
  ck_payload :: json
  ck_case :: json
  ck_at :: int

record model_request =
  rq_id :: pystr
  rq_mission :: pystr
  rq_owner :: pystr
  rq_provider :: pystr
  rq_model :: pystr
  rq_purpose :: pystr
  rq_reserved :: int
  rq_completed :: int
  rq_outcome :: pystr

record action_key =
  ak_mission :: pystr
  ak_key :: pystr
  ak_nonce :: pystr
  ak_state :: pystr
  ak_at :: int
  ak_owner :: pystr
  ak_reservation :: pystr

record authorization_response =
  ar_mission :: pystr
  ar_request :: pystr
  ar_response :: pydict
  ar_at :: int

record mission_db =
  md_missions :: "mission_row list"
  md_runtime :: "runtime_row list"
  md_steps :: "step_row list"
  md_wakes :: "wake_row list"
  md_leases :: "lease_row list"
  md_events :: "mission_event list"
  md_notes :: "human_note list"
  md_pending :: "pending_note list"
  md_responses :: "authorization_response list"
  md_checkpoints :: "checkpoint_row list"
  md_next_checkpoint :: nat
  md_requests :: "model_request list"
  md_keys :: "action_key list"

record mission_env =
  mv_host :: pyhost
  mv_round :: "rat \<Rightarrow> rat"
  mv_parse :: "pystr \<Rightarrow> pyfloat option"

subsection \<open>States\<close>

definition mission_state_name :: "job_state \<Rightarrow> string" where
  "mission_state_name s = (case s of J_QUEUED \<Rightarrow> ''queued'' | J_RUNNING \<Rightarrow> ''running'' | J_WAITING \<Rightarrow> ''waiting''
     | J_PAUSED \<Rightarrow> ''paused'' | J_PAUSING \<Rightarrow> ''pausing'' | J_RECOVERY_REQUIRED \<Rightarrow> ''recovery_required''
     | J_RECONCILING \<Rightarrow> ''reconciling'' | J_NEEDS_YOU \<Rightarrow> ''needs_you'' | J_DONE_VERIFIED \<Rightarrow> ''done_verified''
     | J_DONE_ACCEPTED \<Rightarrow> ''done_accepted'' | J_FAILED \<Rightarrow> ''failed'' | J_CANCELLED \<Rightarrow> ''cancelled'')"

definition mission_state_text :: "job_state \<Rightarrow> pystr" where
  "mission_state_text s = u (mission_state_name s)"

definition terminal_mission :: "job_state \<Rightarrow> bool" where
  "terminal_mission s \<longleftrightarrow> List.member terminal_job_states s"

definition working :: "job_state \<Rightarrow> bool" where
  "working s \<longleftrightarrow> s = J_RUNNING \<or> s = J_PAUSING"

definition note_open :: "job_state \<Rightarrow> bool" where
  "note_open s \<longleftrightarrow> List.member [J_QUEUED, J_RUNNING, J_PAUSING, J_PAUSED, J_WAITING, J_NEEDS_YOU] s"

definition awaiting :: pystr where
  "awaiting = u ''awaiting-confirm''"

subsection \<open>Statements\<close>

definition mission_of :: "mission_db \<Rightarrow> pystr \<Rightarrow> mission_row option" where
  "mission_of d m = List.find (\<lambda>r. mi_id r = m) (md_missions d)"

definition runtime_of :: "mission_db \<Rightarrow> pystr \<Rightarrow> runtime_row option" where
  "runtime_of d m = List.find (\<lambda>r. rt_id r = m) (md_runtime d)"

definition update_missions :: "(mission_row \<Rightarrow> bool) \<Rightarrow> (mission_row \<Rightarrow> mission_row) \<Rightarrow> mission_db \<Rightarrow> nat \<times> mission_db" where
  "update_missions hit f d =
     (length (filter hit (md_missions d)), d\<lparr>md_missions := map (\<lambda>r. if hit r then f r else r) (md_missions d)\<rparr>)"

definition update_runtime :: "(runtime_row \<Rightarrow> bool) \<Rightarrow> (runtime_row \<Rightarrow> runtime_row) \<Rightarrow> mission_db \<Rightarrow> mission_db" where
  "update_runtime hit f d = d\<lparr>md_runtime := map (\<lambda>r. if hit r then f r else r) (md_runtime d)\<rparr>"

definition delete_leases :: "(lease_row \<Rightarrow> bool) \<Rightarrow> mission_db \<Rightarrow> nat \<times> mission_db" where
  "delete_leases hit d = (length (filter hit (md_leases d)), d\<lparr>md_leases := filter (\<lambda>l. \<not> hit l) (md_leases d)\<rparr>)"

definition add_mission_event :: "pystr \<Rightarrow> pystr \<Rightarrow> pystr \<Rightarrow> pystr \<Rightarrow> pydict \<Rightarrow> int \<Rightarrow> mission_db \<Rightarrow> mission_db" where
  "add_mission_event m kind name nonce payload now d =
     d\<lparr>md_events := md_events d @ [\<lparr>me_mission = m, me_kind = kind, me_name = name, me_nonce = nonce, me_payload = payload, me_at = now\<rparr>]\<rparr>"

text \<open>\<open>INSERT\<close> into the leases: the resource is the primary key.\<close>

definition insert_lease :: "pystr \<Rightarrow> pystr \<Rightarrow> pystr \<Rightarrow> int \<Rightarrow> int \<Rightarrow> mission_db \<Rightarrow> mission_db option" where
  "insert_lease res m tok until now d =
     (if list_ex (\<lambda>l. lr_resource l = res) (md_leases d) then None
      else Some (d\<lparr>md_leases := md_leases d @ [\<lparr>lr_resource = res, lr_mission = m, lr_token = tok, lr_until = until, lr_updated = now\<rparr>]\<rparr>))"

definition owned_by :: "job_state list \<Rightarrow> pystr \<Rightarrow> pystr \<Rightarrow> mission_row \<Rightarrow> bool" where
  "owned_by states m tok r \<longleftrightarrow> mi_id r = m \<and> List.member states (mi_state r) \<and> mi_token r = tok"

definition owns :: "job_state list \<Rightarrow> mission_db \<Rightarrow> pystr \<Rightarrow> pystr \<Rightarrow> bool" where
  "owns states d m tok \<longleftrightarrow> list_ex (owned_by states m tok) (md_missions d)"

text \<open>\<open>LIKE 'prefix%'\<close> ignores the case of ASCII letters.\<close>

definition sql_prefix :: "string \<Rightarrow> pystr \<Rightarrow> bool" where
  "sql_prefix p s \<longleftrightarrow> starts_with (map lower_cp s) (u p)"

definition active_resource :: "pystr \<Rightarrow> pystr" where
  "active_resource root_id = u ''mission-active:'' @ root_id"

definition action_resource :: "pystr \<Rightarrow> pystr" where
  "action_resource nonce = u ''mission-action:'' @ nonce"

definition settled_fence :: "pystr \<Rightarrow> int \<Rightarrow> lease_row \<Rightarrow> bool" where
  "settled_fence m now l \<longleftrightarrow> lr_mission l = m \<and> sql_prefix ''mission-active:'' (lr_resource l)
     \<and> sql_prefix ''settled:'' (lr_token l) \<and> lr_until l \<le> now"

text \<open>\<open>int(leash.get(key, default))\<close> and \<open>float(leash.get(key, default))\<close>.\<close>

definition leash_int :: "pyhost \<Rightarrow> pydict \<Rightarrow> string \<Rightarrow> int \<Rightarrow> int result" where
  "leash_int H leash k dflt = (case dget leash (u k) of None \<Rightarrow> Inr dflt | Some v \<Rightarrow> py_int H v)"

definition py_float :: "mission_env \<Rightarrow> json \<Rightarrow> pyfloat result" where
  "py_float E v =
     (case v of
        JFloat f \<Rightarrow> Inr f
      | JInt i \<Rightarrow> Inr (Fin (mv_round E (of_int i)))
      | JBool b \<Rightarrow> Inr (Fin (if b then 1 else 0))
      | JStr s \<Rightarrow> (case mv_parse E s of None \<Rightarrow> Inl (ValueError ''could not convert string to float'') | Some f \<Rightarrow> Inr f)
      | _ \<Rightarrow> Inl (TypeError ''float() argument''))"

definition leash_float :: "mission_env \<Rightarrow> pydict \<Rightarrow> string \<Rightarrow> rat \<Rightarrow> pyfloat result" where
  "leash_float E leash k dflt = (case dget leash (u k) of None \<Rightarrow> Inr (Fin dflt) | Some v \<Rightarrow> py_float E v)"

definition max_calls :: "pyhost \<Rightarrow> pydict \<Rightarrow> int result" where
  "max_calls H leash =
     (case dget leash (u ''max_model_calls'') of Some v \<Rightarrow> py_int H v | None \<Rightarrow> leash_int H leash ''max_total_steps'' 1000)"

subsection \<open>Lineage and subtree\<close>

text \<open>\<open>_lineage_locked\<close>: the runtime rows from a mission to its root, at most 64 of them, joined
  with the mission rows.\<close>

primrec lineage_walk :: "nat \<Rightarrow> mission_db \<Rightarrow> pystr \<Rightarrow> runtime_row list" where
  "lineage_walk 0 d m = []"
| "lineage_walk (Suc n) d m =
     (case runtime_of d m of None \<Rightarrow> [] | Some r \<Rightarrow> r # lineage_walk n d (rt_parent r))"

fun with_mission :: "mission_db \<Rightarrow> runtime_row list \<Rightarrow> (runtime_row \<times> mission_row) list" where
  "with_mission d [] = []"
| "with_mission d (r # rs) =
     (case mission_of d (rt_id r) of None \<Rightarrow> with_mission d rs | Some q \<Rightarrow> (r, q) # with_mission d rs)"

definition specialist :: pystr where
  "specialist = u ''specialist''"

definition lineage :: "mission_db \<Rightarrow> pystr \<Rightarrow> pystr + (runtime_row \<times> mission_row) list" where
  "lineage d m =
     (let rows = with_mission d (lineage_walk 64 d m) in
      if rows = [] then Inl (u ''mission no longer exists'')
      else if \<not> distinct (map (rt_id \<circ> fst) rows) \<or> rt_parent (fst (last rows)) \<noteq> []
      then Inl (u ''mission budget lineage is corrupt or incomplete'')
      else if list_ex (\<lambda>(r, _). rt_lane r = specialist \<and> rt_parent r = []) rows
      then Inl (u ''specialist budget lineage is missing its parent'')
      else Inr rows)"

text \<open>The recursive query \<open>subtree\<close>.\<close>

definition parent_edges :: "mission_db \<Rightarrow> (pystr \<times> pystr) list" where
  "parent_edges d = map (\<lambda>r. (rt_parent r, rt_id r)) (md_runtime d)"

definition mission_subtree :: "mission_db \<Rightarrow> pystr \<Rightarrow> pystr list" where
  "mission_subtree d m = reach (parent_edges d) [m]"

subsection \<open>Creating and reading\<close>

definition no_counters :: counters where
  "no_counters = \<lparr>ct_wall = 0, ct_input = 0, ct_output = 0, ct_cache = 0, ct_calls = 0, ct_turns = 0, ct_cost = 0,
     ct_equivalent = 0, ct_retries = 0, ct_storage = 0, ct_external = 0\<rparr>"

text \<open>The length in bytes of the UTF-8 text.\<close>

definition utf8_len :: "pystr \<Rightarrow> nat" where
  "utf8_len s = sum_list (map (\<lambda>c. if c < 128 then 1 else if c < 2048 then 2 else if c < 65536 then 3 else 4) s)"

definition fresh_mission :: "pystr \<Rightarrow> pystr \<Rightarrow> pydict \<Rightarrow> pydict \<Rightarrow> int \<Rightarrow> mission_row" where
  "fresh_mission m goal leash d now = \<lparr>mi_id = m, mi_goal = goal, mi_leash = Col leash, mi_case = Col d, mi_state = J_QUEUED,
     mi_result = [], mi_created = now, mi_updated = now, mi_from = None, mi_token = [], mi_lease = 0\<rparr>"

definition fresh_runtime :: "pyhost \<Rightarrow> pystr \<Rightarrow> pystr \<Rightarrow> pystr \<Rightarrow> pystr \<Rightarrow> pydict \<Rightarrow> int \<Rightarrow> runtime_row" where
  "fresh_runtime H m parent lane run d now = \<lparr>rt_id = m, rt_parent = parent, rt_lane = take 40 lane, rt_run = take 100 run, rt_seq = 0,
     rt_checkpoint = 0, rt_progress = now, rt_phase = u ''created'', rt_since = 0, rt_started = 0, rt_dispatched = 0,
     rt_used = no_counters\<lparr>ct_storage := utf8_len (js_text H d)\<rparr>, rt_human_since = 0, rt_escalate = 0, rt_deadline = 0, rt_level = 0\<rparr>"

definition mission_parent :: "pyhost \<Rightarrow> pystr \<Rightarrow> pydict \<Rightarrow> pystr" where
  "mission_parent H lane d = (if or_str lane (u ''mission'') = specialist then str_or_empty H (dget_null d (u ''_parent_mission_id'')) else [])"

definition parent_open :: "mission_db \<Rightarrow> pystr \<Rightarrow> bool" where
  "parent_open d p \<longleftrightarrow> (case mission_of d p of None \<Rightarrow> False | Some r \<Rightarrow> \<not> terminal_mission (mi_state r))"

definition create_mission_row :: "pyhost \<Rightarrow> pystr \<Rightarrow> pystr \<Rightarrow> pydict \<Rightarrow> pydict \<Rightarrow> pystr \<Rightarrow> pystr \<Rightarrow> int \<Rightarrow> mission_db \<Rightarrow> unit result \<times> mission_db" where
  "create_mission_row H m goal leash kase lane run now d =
     (let ln = or_str lane (u ''mission''); parent = mission_parent H lane kase in
      if ln = specialist \<and> parent = [] then (Inl (ValueError ''specialist Mission requires a durable parent Mission''), d)
      else if parent \<noteq> [] \<and> \<not> parent_open d parent then (Inl (ValueError ''specialist parent Mission is stopping or terminal''), d)
      else case bind_result (js leash) (\<lambda>_. js kase) of
          Inl e \<Rightarrow> (Inl e, d)
        | Inr _ \<Rightarrow>
            if mission_of d m \<noteq> None \<or> runtime_of d m \<noteq> None then (Inl (OtherError ''IntegrityError''), d)
            else (Inr (), d\<lparr>md_missions := md_missions d @ [fresh_mission m goal leash kase now],
              md_runtime := md_runtime d @ [fresh_runtime H m parent ln run kase now]\<rparr>))"

definition get_mission :: "mission_db \<Rightarrow> pystr \<Rightarrow> mission_row option" where
  "get_mission d m = map_option (\<lambda>r. r\<lparr>mi_leash := Col (jl (mi_leash r)), mi_case := Col (jl (mi_case r))\<rparr>) (mission_of d m)"

subsection \<open>Budgets\<close>

definition subtree_sum :: "mission_db \<Rightarrow> pystr \<Rightarrow> (counters \<Rightarrow> nat) \<Rightarrow> nat" where
  "subtree_sum d m f =
     (let ids = mission_subtree d m in sum_list (map (f \<circ> rt_used) (filter (\<lambda>r. List.member ids (rt_id r)) (md_runtime d))))"

definition aggregate :: "mission_db \<Rightarrow> pystr \<Rightarrow> counters" where
  "aggregate d m = \<lparr>ct_wall = subtree_sum d m ct_wall, ct_input = subtree_sum d m ct_input, ct_output = subtree_sum d m ct_output,
     ct_cache = subtree_sum d m ct_cache, ct_calls = subtree_sum d m ct_calls, ct_turns = subtree_sum d m ct_turns,
     ct_cost = subtree_sum d m ct_cost, ct_equivalent = subtree_sum d m ct_equivalent, ct_retries = subtree_sum d m ct_retries,
     ct_storage = subtree_sum d m (\<lambda>c. ct_storage c + ct_external c), ct_external = subtree_sum d m ct_external\<rparr>"

definition aggregate_runtime :: "mission_db \<Rightarrow> pystr \<Rightarrow> counters option" where
  "aggregate_runtime d m = (case lineage d m of Inl _ \<Rightarrow> None | Inr rows \<Rightarrow> Some (aggregate d (rt_id (fst (hd rows)))))"

definition cost_exhausted :: "mission_env \<Rightarrow> pyfloat \<Rightarrow> nat \<Rightarrow> bool" where
  "cost_exhausted E limit micro \<longleftrightarrow> (case limit of Fin q \<Rightarrow> 0 < q \<and> q \<le> mv_round E (of_nat micro / 1000000) | _ \<Rightarrow> False)"

definition int_exhausted :: "int \<Rightarrow> int \<Rightarrow> bool" where
  "int_exhausted limit used \<longleftrightarrow> 0 < limit \<and> limit \<le> used"

definition runtime_budget_reason :: "mission_env \<Rightarrow> pydict \<Rightarrow> counters \<Rightarrow> int \<Rightarrow> int \<Rightarrow> pystr result" where
  "runtime_budget_reason E leash c created now =
     (let H = mv_host E in
      bind_result (leash_int H leash ''max_model_tokens'' 2000000) (\<lambda>tokens.
      bind_result (leash_float E leash ''max_model_cost_usd'' 25) (\<lambda>usd.
      bind_result (max_calls H leash) (\<lambda>calls.
      bind_result (leash_int H leash ''max_active_wall_seconds'' 21600) (\<lambda>wall.
      bind_result (elapsed_budget_seconds H leash) (\<lambda>elapsed.
      bind_result (leash_int H leash ''max_retries'' 128) (\<lambda>retries.
      bind_result (leash_int H leash ''max_storage_bytes'' 5000000) (\<lambda>storage.
        Inr (if int_exhausted tokens (int (ct_input c + ct_output c + ct_cache c)) then u ''mission model-token budget exhausted''
          else if cost_exhausted E usd (ct_cost c) then u ''mission model-cost budget exhausted''
          else if int_exhausted calls (int (ct_calls c)) then u ''mission model-call budget exhausted''
          else if int_exhausted (wall * 1000) (int (ct_wall c)) then u ''mission active wall-time budget exhausted''
          else if int_exhausted elapsed (now - (if created = 0 then now else created)) then u ''mission elapsed-time budget exhausted''
          else if int_exhausted retries (int (ct_retries c)) then u ''mission retry budget exhausted''
          else if int_exhausted storage (int (ct_storage c)) then u ''mission durable-storage budget exhausted''
          else [])))))))))"

fun scan_budgets :: "mission_env \<Rightarrow> int \<Rightarrow> mission_db \<Rightarrow> pystr \<Rightarrow> (runtime_row \<times> mission_row) list \<Rightarrow> pystr result" where
  "scan_budgets E now d m [] = Inr []"
| "scan_budgets E now d m ((r, q) # rows) =
     (if json_invalid (jl (mi_leash q))
      then Inr (if rt_id r = m then u ''mission durable leash is corrupt'' else u ''ancestor Mission durable leash is corrupt'')
      else bind_result (runtime_budget_reason E (jl (mi_leash q)) (aggregate d (rt_id r)) (mi_created q) now) (\<lambda>reason.
        if reason = [] then scan_budgets E now d m rows
        else Inr (if rt_id r = m then reason else u ''ancestor '' @ rt_id r @ u '': '' @ reason)))"

definition mission_budget_reason :: "mission_env \<Rightarrow> int \<Rightarrow> mission_db \<Rightarrow> pystr \<Rightarrow> pystr result" where
  "mission_budget_reason E now d m = (case lineage d m of Inl why \<Rightarrow> Inr why | Inr rows \<Rightarrow> scan_budgets E now d m rows)"

text \<open>\<open>elapsed_ceiling_epoch\<close>: anything that cannot be read ends now.\<close>

primrec ceilings :: "pyhost \<Rightarrow> (runtime_row \<times> mission_row) list \<Rightarrow> int list option" where
  "ceilings H [] = Some []"
| "ceilings H (x # rows) =
     (let q = snd x; leash = jl (mi_leash q) in
      if json_invalid leash then None
      else case elapsed_budget_seconds H leash of
          Inl _ \<Rightarrow> None
        | Inr b \<Rightarrow> map_option (\<lambda>cs. if 0 < b \<and> 0 < mi_created q then (mi_created q + b) # cs else cs) (ceilings H rows))"

definition elapsed_ceiling_epoch :: "pyhost \<Rightarrow> int \<Rightarrow> mission_db \<Rightarrow> pystr \<Rightarrow> int" where
  "elapsed_ceiling_epoch H now d m =
     (case lineage d m of
        Inl _ \<Rightarrow> now
      | Inr rows \<Rightarrow> (case ceilings H rows of None \<Rightarrow> now | Some [] \<Rightarrow> 0 | Some (c # cs) \<Rightarrow> fold min cs c))"

text \<open>
  \<open>remaining_active_wall_seconds\<close>: the milliseconds left on each bounded row; \<open>None\<close> is the
  infinite float. A NaN limit leaves \<open>max(0.0, nan)\<close>, which is zero.
\<close>

definition wall_left :: "mission_env \<Rightarrow> mission_db \<Rightarrow> runtime_row \<times> mission_row \<Rightarrow> (rat option) list result" where
  "wall_left E d x =
     (let leash = jl (mi_leash (snd x)); v = (case dget leash (u ''max_active_wall_seconds'') of None \<Rightarrow> JInt 21600 | Some v \<Rightarrow> v) in
      bind_result (py_float E (if truthy v then v else JInt 0)) (\<lambda>f.
        Inr (case f of
            Fin q \<Rightarrow> if q \<le> 0 then []
              else [Some (max 0 (mv_round E (mv_round E (q * 1000) - of_nat (ct_wall (aggregate d (rt_id (fst x)))))))]
          | NaN \<Rightarrow> [Some 0] | PosInf \<Rightarrow> [None] | NegInf \<Rightarrow> [])))"

primrec walls_left :: "mission_env \<Rightarrow> mission_db \<Rightarrow> (runtime_row \<times> mission_row) list \<Rightarrow> (rat option) list option result" where
  "walls_left E d [] = Inr (Some [])"
| "walls_left E d (x # rows) =
     (if json_invalid (jl (mi_leash (snd x))) then Inr None
      else bind_result (wall_left E d x) (\<lambda>a. bind_result (walls_left E d rows) (\<lambda>b. Inr (map_option ((@) a) b))))"

definition min_left :: "rat option \<Rightarrow> rat option \<Rightarrow> rat option" where
  "min_left a b = (case (a, b) of (None, _) \<Rightarrow> b | (_, None) \<Rightarrow> a | (Some x, Some y) \<Rightarrow> Some (min x y))"

definition remaining_active_wall :: "mission_env \<Rightarrow> mission_db \<Rightarrow> pystr \<Rightarrow> (rat option) option result" where
  "remaining_active_wall E d m =
     (case lineage d m of
        Inl _ \<Rightarrow> Inr (Some (Some 0))
      | Inr rows \<Rightarrow> bind_result (walls_left E d rows) (\<lambda>left. Inr (case left of
            None \<Rightarrow> Some (Some 0)
          | Some [] \<Rightarrow> None
          | Some (x # xs) \<Rightarrow> Some (map_option (\<lambda>q. mv_round E (q / 1000)) (fold min_left xs x)))))"

subsection \<open>Accounting\<close>

record charge =
  ch_input :: json
  ch_output :: json
  ch_cache :: json
  ch_cost :: json
  ch_equivalent :: json
  ch_wall :: json
  ch_retries :: json
  ch_calls :: json
  ch_turns :: json

definition nonnegative_number :: "mission_env \<Rightarrow> json \<Rightarrow> rat result" where
  "nonnegative_number E v =
     (let bad = Inl (ValueError ''must be finite and non-negative'') in
      if v = JNull \<or> v = JStr [] then Inr 0
      else case v of
          JBool _ \<Rightarrow> bad
        | _ \<Rightarrow> (case py_float E v of Inr (Fin q) \<Rightarrow> if 0 \<le> q then Inr q else bad | _ \<Rightarrow> bad))"

definition micro_usd :: "mission_env \<Rightarrow> json \<Rightarrow> nat result" where
  "micro_usd E v = bind_result (nonnegative_number E v) (\<lambda>q. Inr (nat (round_half_even (mv_round E (q * 1000000)))))"

definition charge_values :: "mission_env \<Rightarrow> charge \<Rightarrow> counters result" where
  "charge_values E x =
     (let H = mv_host E in
      bind_result (nonnegative_integer H (ch_wall x)) (\<lambda>wall.
      bind_result (nonnegative_integer H (ch_input x)) (\<lambda>i.
      bind_result (nonnegative_integer H (ch_output x)) (\<lambda>out.
      bind_result (nonnegative_integer H (ch_cache x)) (\<lambda>cache.
      bind_result (micro_usd E (ch_cost x)) (\<lambda>cost.
      bind_result (micro_usd E (ch_equivalent x)) (\<lambda>eq.
      bind_result (nonnegative_integer H (ch_retries x)) (\<lambda>retries.
      bind_result (nonnegative_integer H (ch_calls x)) (\<lambda>calls.
      bind_result (nonnegative_integer H (ch_turns x)) (\<lambda>turns.
        Inr \<lparr>ct_wall = wall, ct_input = i, ct_output = out, ct_cache = cache, ct_calls = calls, ct_turns = turns, ct_cost = cost,
          ct_equivalent = eq, ct_retries = retries, ct_storage = 0, ct_external = 0\<rparr>))))))))))"

definition add_counters :: "counters \<Rightarrow> counters \<Rightarrow> counters" where
  "add_counters a b = \<lparr>ct_wall = ct_wall a + ct_wall b, ct_input = ct_input a + ct_input b, ct_output = ct_output a + ct_output b,
     ct_cache = ct_cache a + ct_cache b, ct_calls = ct_calls a + ct_calls b, ct_turns = ct_turns a + ct_turns b,
     ct_cost = ct_cost a + ct_cost b, ct_equivalent = ct_equivalent a + ct_equivalent b, ct_retries = ct_retries a + ct_retries b,
     ct_storage = ct_storage a + ct_storage b, ct_external = ct_external a + ct_external b\<rparr>"

definition charge_wall :: "nat \<Rightarrow> int \<Rightarrow> runtime_row \<Rightarrow> runtime_row" where
  "charge_wall ms now r = r\<lparr>rt_used := (rt_used r)\<lparr>ct_wall := ct_wall (rt_used r) + ms\<rparr>, rt_since := (if 0 < ms then now else rt_since r)\<rparr>"

text \<open>A token, when it is given, must own the running mission.\<close>

definition may_account :: "mission_db \<Rightarrow> pystr \<Rightarrow> pystr \<Rightarrow> bool" where
  "may_account d m tok \<longleftrightarrow> tok = [] \<or> owns [J_RUNNING, J_PAUSING] d m tok"

definition account_runtime :: "mission_env \<Rightarrow> int \<Rightarrow> pystr \<Rightarrow> pystr \<Rightarrow> charge \<Rightarrow> mission_db \<Rightarrow> bool result \<times> mission_db" where
  "account_runtime E now m tok x d =
     (case charge_values E x of
        Inl e \<Rightarrow> (Inl e, d)
      | Inr us \<Rightarrow>
          if runtime_of d m \<noteq> None \<and> may_account d m tok
          then (Inr True, update_runtime (\<lambda>r. rt_id r = m)
            (\<lambda>r. r\<lparr>rt_used := add_counters (rt_used r) us, rt_since := (if 0 < ct_wall us then now else rt_since r)\<rparr>) d)
          else (Inr False, d))"

definition set_external_storage :: "mission_env \<Rightarrow> pystr \<Rightarrow> json \<Rightarrow> pystr \<Rightarrow> mission_db \<Rightarrow> bool result \<times> mission_db" where
  "set_external_storage E m bytes tok d =
     (case nonnegative_integer (mv_host E) bytes of
        Inl e \<Rightarrow> (Inl e, d)
      | Inr n \<Rightarrow>
          if runtime_of d m \<noteq> None \<and> may_account d m tok
          then (Inr True, update_runtime (\<lambda>r. rt_id r = m) (\<lambda>r. r\<lparr>rt_used := (rt_used r)\<lparr>ct_external := n\<rparr>\<rparr>) d)
          else (Inr False, d))"

subsection \<open>Storage and checkpoints\<close>

definition column_bytes :: "pyhost \<Rightarrow> column \<Rightarrow> nat" where
  "column_bytes H c = (case c of Col x \<Rightarrow> utf8_len (js_text H x) | Garbled n \<Rightarrow> n)"

definition stored_bytes :: "pyhost \<Rightarrow> mission_db \<Rightarrow> pystr \<Rightarrow> nat" where
  "stored_bytes H d m =
     (case mission_of d m of None \<Rightarrow> 0 | Some r \<Rightarrow> column_bytes H (mi_case r) + column_bytes H (mi_leash r))
     + sum_list (map (\<lambda>e. utf8_len (js_text H (me_payload e))) (filter (\<lambda>e. me_mission e = m) (md_events d)))
     + sum_list (map (\<lambda>c. utf8_len (json_text H (ck_payload c)) + utf8_len (json_text H (ck_case c)))
         (filter (\<lambda>c. ck_mission c = m) (md_checkpoints d)))"

definition refresh_storage :: "pyhost \<Rightarrow> pystr \<Rightarrow> mission_db \<Rightarrow> mission_db" where
  "refresh_storage H m d = update_runtime (\<lambda>r. rt_id r = m) (\<lambda>r. r\<lparr>rt_used := (rt_used r)\<lparr>ct_storage := stored_bytes H d m\<rparr>\<rparr>) d"

text \<open>\<open>_js\<close> of a bounded value: an empty one is written as the empty object.\<close>

definition js_value :: "json \<Rightarrow> json result" where
  "js_value v = (if finite_json v then Inr (if truthy v then v else JObj []) else Inl (ValueError ''Out of range float values are not JSON compliant''))"

definition keep_newest :: "pystr \<Rightarrow> nat \<Rightarrow> checkpoint_row list \<Rightarrow> checkpoint_row list" where
  "keep_newest m keep cs =
     (let newest = map ck_id (last_items keep (filter (\<lambda>c. ck_mission c = m) cs))
      in filter (\<lambda>c. ck_mission c \<noteq> m \<or> List.member newest (ck_id c)) cs)"

definition write_checkpoint :: "pyhost \<Rightarrow> int \<Rightarrow> pystr \<Rightarrow> pystr \<Rightarrow> json \<Rightarrow> json \<Rightarrow> nat \<Rightarrow> mission_db \<Rightarrow> mission_db" where
  "write_checkpoint H now m phase payload kase keep d =
     (let d1 = update_runtime (\<lambda>r. rt_id r = m) (\<lambda>r. r\<lparr>rt_seq := rt_seq r + 1, rt_checkpoint := rt_checkpoint r + 1,
            rt_progress := now, rt_phase := take 80 phase, rt_since := now,
            rt_dispatched := (if phase = u ''claimed'' then now else rt_dispatched r)\<rparr>) d;
          seq = (case runtime_of d1 m of None \<Rightarrow> 0 | Some r \<Rightarrow> rt_checkpoint r);
          row = \<lparr>ck_id = md_next_checkpoint d1, ck_mission = m, ck_seq = seq, ck_phase = take 80 phase, ck_payload = payload,
            ck_case = kase, ck_at = now\<rparr>;
          d2 = d1\<lparr>md_checkpoints := keep_newest m keep (md_checkpoints d1 @ [row]), md_next_checkpoint := md_next_checkpoint d1 + 1\<rparr>
      in refresh_storage H m d2)"

definition record_checkpoint :: "pyhost \<Rightarrow> int \<Rightarrow> pystr \<Rightarrow> pystr \<Rightarrow> pystr \<Rightarrow> pydict \<Rightarrow> json option \<Rightarrow> bool \<Rightarrow> mission_db \<Rightarrow> bool result \<times> mission_db" where
  "record_checkpoint H now m tok phase payload kase unowned d =
     (case mission_of d m of
        None \<Rightarrow> (Inr False, d)
      | Some r \<Rightarrow>
          (case bind_result (leash_int H (jl (mi_leash r)) ''checkpoint_keep'' 64) (\<lambda>keep.
                bind_result (js_value (bounded_json H (JObj payload) 12000)) (\<lambda>p.
                bind_result (js_value (bounded_json H (case kase of Some v \<Rightarrow> v | None \<Rightarrow> JObj (jl (mi_case r))) 16000)) (\<lambda>c.
                  Inr (keep, p, c)))) of
             Inl e \<Rightarrow> (Inl e, d)
           | Inr (keep, p, c) \<Rightarrow>
               if \<not> unowned \<and> \<not> owns [J_RUNNING, J_PAUSING] d m tok then (Inr False, d)
               else (Inr True, write_checkpoint H now m phase p c (nat (max 4 (min 256 keep))) d)))"

subsection \<open>Waiting for a person\<close>

definition clear_human :: "runtime_row \<Rightarrow> runtime_row" where
  "clear_human r = r\<lparr>rt_human_since := 0, rt_escalate := 0, rt_deadline := 0, rt_level := 0\<rparr>"

definition human_clock :: "pyhost \<Rightarrow> pydict \<Rightarrow> (int \<times> int) result" where
  "human_clock H leash =
     bind_result (leash_int H leash ''human_escalate_seconds'' 3600) (\<lambda>e.
     bind_result (leash_int H leash ''human_timeout_seconds'' 86400) (\<lambda>t.
       let esc = max 1 e in Inr (esc, max esc t)))"

definition mark_human :: "pyhost \<Rightarrow> pystr \<Rightarrow> pydict \<Rightarrow> int \<Rightarrow> mission_db \<Rightarrow> unit result \<times> mission_db" where
  "mark_human H m leash now d =
     (case human_clock H leash of
        Inl e \<Rightarrow> (Inl e, d)
      | Inr (esc, tmo) \<Rightarrow> (Inr (), update_runtime (\<lambda>r. rt_id r = m)
          (\<lambda>r. r\<lparr>rt_human_since := now, rt_escalate := now + esc, rt_deadline := now + tmo, rt_level := 0,
             rt_phase := u ''needs_you'', rt_progress := now\<rparr>) d))"

definition clear_human_wait :: "pystr \<Rightarrow> mission_db \<Rightarrow> mission_db" where
  "clear_human_wait m d = update_runtime (\<lambda>r. rt_id r = m) clear_human d"

text \<open>One row of \<open>escalate_human_waits\<close>; the answer is the record for the surfaces.\<close>

definition escalate_one :: "int \<Rightarrow> runtime_row \<Rightarrow> (pystr \<times> nat) list \<times> mission_db \<Rightarrow> (pystr \<times> nat) list \<times> mission_db" where
  "escalate_one now row acc =
     (let (out, d) = acc; m = rt_id row in
      if rt_deadline row \<noteq> 0 \<and> rt_deadline row \<le> now then
        let (n, d1) = update_missions (\<lambda>r. mi_id r = m \<and> mi_state r = J_NEEDS_YOU)
              (\<lambda>r. r\<lparr>mi_state := J_PAUSED, mi_from := Some J_NEEDS_YOU, mi_result := u ''paused: human response deadline elapsed'', mi_updated := now\<rparr>) d
        in if n = 0 then (out, d1)
           else (out @ [(m, 2)], update_runtime (\<lambda>r. rt_id r = m) (\<lambda>r. r\<lparr>rt_level := 2, rt_phase := u ''human_timeout'', rt_progress := now\<rparr>) d1)
      else if rt_escalate row \<noteq> 0 \<and> rt_escalate row \<le> now \<and> rt_level row < 1 then
        (out @ [(m, 1)], update_runtime (\<lambda>r. rt_id r = m) (\<lambda>r. r\<lparr>rt_level := 1\<rparr>) d)
      else (out, d))"

definition waiting_rows :: "mission_db \<Rightarrow> runtime_row list" where
  "waiting_rows d = concat (map (\<lambda>q. if mi_state q = J_NEEDS_YOU
     then filter (\<lambda>r. rt_id r = mi_id q \<and> 0 < rt_human_since r) (md_runtime d) else []) (md_missions d))"

definition escalate_human_waits :: "int \<Rightarrow> mission_db \<Rightarrow> (pystr \<times> nat) list \<times> mission_db" where
  "escalate_human_waits now d = fold (escalate_one now) (waiting_rows d) ([], d)"

subsection \<open>Setting columns\<close>

definition set_mission :: "(mission_row \<Rightarrow> mission_row) \<Rightarrow> pystr \<Rightarrow> int \<Rightarrow> mission_db \<Rightarrow> mission_db" where
  "set_mission f m now d = snd (update_missions (\<lambda>r. mi_id r = m) (\<lambda>r. (f r)\<lparr>mi_updated := now\<rparr>) d)"

definition set_mission_state :: "pystr \<Rightarrow> job_state \<Rightarrow> pystr option \<Rightarrow> int \<Rightarrow> mission_db \<Rightarrow> mission_db" where
  "set_mission_state m s res now d =
     set_mission (\<lambda>r. r\<lparr>mi_state := s, mi_result := (case res of None \<Rightarrow> mi_result r | Some x \<Rightarrow> x)\<rparr>) m now d"

definition set_mission_case :: "pyhost \<Rightarrow> pystr \<Rightarrow> pydict \<Rightarrow> int \<Rightarrow> mission_db \<Rightarrow> bool result \<times> mission_db" where
  "set_mission_case H m kase now d =
     (case bind_result (compact_case_storage H kase) js of
        Inl e \<Rightarrow> (Inl e, d)
      | Inr c \<Rightarrow> (Inr True, refresh_storage H m (set_mission (\<lambda>r. r\<lparr>mi_case := Col c\<rparr>) m now d)))"

definition patch_case :: "pyhost \<Rightarrow> pystr \<Rightarrow> pydict \<Rightarrow> job_state list \<Rightarrow> int \<Rightarrow> mission_db \<Rightarrow> bool result \<times> mission_db" where
  "patch_case H m updates states now d =
     (case mission_of d m of
        None \<Rightarrow> (Inr False, d)
      | Some r \<Rightarrow>
          if states \<noteq> [] \<and> \<not> List.member states (mi_state r) then (Inr False, d)
          else case bind_result (compact_case_storage H (fold (\<lambda>(k, v) c. dset c k v) updates (jl (mi_case r)))) js of
              Inl e \<Rightarrow> (Inl e, d)
            | Inr c \<Rightarrow> (Inr True, refresh_storage H m (set_mission (\<lambda>q. q\<lparr>mi_case := Col c\<rparr>) m now d)))"

end
