(* ===== verification/MissionOps.thy ===== *)
theory MissionOps
  imports "HOL-Library.List_Lexorder" Mission
begin

text \<open>
  The lifecycle of a mission in \<open>MissionStore\<close>: claiming the one run, renewing it, fencing and
  recovering a lost one, leases of shared resources, finishing, parking, pausing, resuming,
  cancelling and the cleanup after an uncertain run. Each definition is one transaction; a
  method that writes its checkpoint in a second transaction is the composition of the two.
  An exception that leaves a transaction open is modelled as its roll-back.
\<close>

subsection \<open>The run of a mission\<close>

definition unowned_in :: "job_state list \<Rightarrow> pystr \<Rightarrow> mission_row \<Rightarrow> bool" where
  "unowned_in states m r \<longleftrightarrow> mi_id r = m \<and> List.member states (mi_state r) \<and> mi_token r = []"

definition started :: "pystr \<Rightarrow> int \<Rightarrow> mission_db \<Rightarrow> mission_db" where
  "started m now d = update_runtime (\<lambda>r. rt_id r = m) (\<lambda>r. r\<lparr>rt_seq := rt_seq r + 1, rt_progress := now, rt_phase := u ''claimed'',
     rt_since := now, rt_started := now, rt_dispatched := now\<rparr>) d"

definition take_run :: "(mission_row \<Rightarrow> bool) \<Rightarrow> pystr \<Rightarrow> int \<Rightarrow> int \<Rightarrow> mission_db \<Rightarrow> nat \<times> mission_db" where
  "take_run hit tok lease now d =
     update_missions hit (\<lambda>r. r\<lparr>mi_state := J_RUNNING, mi_token := tok, mi_lease := now + lease, mi_updated := now\<rparr>) d"

definition corrupt_parts :: "mission_row \<Rightarrow> pystr list" where
  "corrupt_parts r = (if json_invalid (jl (mi_leash r)) then [u ''leash''] else []) @ (if json_invalid (jl (mi_case r)) then [u ''case''] else [])"

definition claim_mission :: "pystr \<Rightarrow> job_state list \<Rightarrow> int \<Rightarrow> pystr \<Rightarrow> int \<Rightarrow> mission_db \<Rightarrow> pystr option \<times> mission_db" where
  "claim_mission tok expected lease m now d =
     (case List.find (unowned_in expected m) (md_missions d) of
        None \<Rightarrow> (None, d)
      | Some r \<Rightarrow>
          if corrupt_parts r \<noteq> [] then
            (None, snd (update_missions (unowned_in expected m) (\<lambda>q. q\<lparr>mi_state := J_RECOVERY_REQUIRED,
               mi_result := u ''durable Mission '' @ join (u '' and '') (corrupt_parts r) @ u '' JSON is corrupt; inspect and reconcile'',
               mi_updated := now\<rparr>) d))
          else
            let (_, d1) = delete_leases (settled_fence m now) d;
                (n, d2) = take_run (unowned_in expected m) tok lease now d1
            in if n = 1 then (Some tok, started m now d2) else (None, d2))"

definition claim_run :: "pyhost \<Rightarrow> pystr \<Rightarrow> job_state list \<Rightarrow> int \<Rightarrow> pystr \<Rightarrow> int \<Rightarrow> int \<Rightarrow> mission_db \<Rightarrow> pystr option result \<times> mission_db" where
  "claim_run H tok expected lease m now later d =
     (case claim_mission tok expected lease m now d of
        (None, d1) \<Rightarrow> (Inr None, d1)
      | (Some t, d1) \<Rightarrow>
          let (x, d2) = record_checkpoint H later m t (u ''claimed'') [(u ''from'', JList (map (JStr \<circ> mission_state_text) expected))] None False d1
          in (bind_result x (\<lambda>_. Inr (Some t)), d2))"

definition renew :: "job_state list \<Rightarrow> pystr \<Rightarrow> pystr \<Rightarrow> int \<Rightarrow> int \<Rightarrow> mission_db \<Rightarrow> bool \<times> mission_db" where
  "renew states m tok secs now d =
     (let (n, d1) = update_missions (owned_by states m tok) (\<lambda>r. r\<lparr>mi_lease := now + secs, mi_updated := now\<rparr>) d in (n = 1, d1))"

definition owns_mission_run :: "pystr \<Rightarrow> pystr \<Rightarrow> int \<Rightarrow> int \<Rightarrow> mission_db \<Rightarrow> bool \<times> mission_db" where
  "owns_mission_run m tok secs now d = renew [J_RUNNING] m tok secs now d"

text \<open>\<open>max(0.05, float(leash.get("max_step_seconds", 600))) + 5\<close>; \<open>None\<close> is infinity.\<close>

definition step_seconds :: "mission_env \<Rightarrow> pydict \<Rightarrow> rat option result" where
  "step_seconds E leash =
     bind_result (leash_float E leash ''max_step_seconds'' 600) (\<lambda>f.
       let least = mv_round E (1 / 20) in
       Inr (case f of Fin q \<Rightarrow> Some (mv_round E (max least q + 5)) | PosInf \<Rightarrow> None | _ \<Rightarrow> Some (mv_round E (least + 5))))"

definition renew_run :: "mission_env \<Rightarrow> pystr \<Rightarrow> pystr \<Rightarrow> int \<Rightarrow> int \<Rightarrow> mission_db \<Rightarrow> bool result \<times> mission_db" where
  "renew_run E m tok secs now d =
     (case (List.find (owned_by [J_RUNNING, J_PAUSING] m tok) (md_missions d), runtime_of d m) of
        (Some q, Some r) \<Rightarrow>
          let leash = jl (mi_leash q) in
          if json_invalid leash then (Inr False, d)
          else (case step_seconds E leash of
              Inl e \<Rightarrow> (Inl e, d)
            | Inr idle \<Rightarrow>
                if rt_progress r \<noteq> 0 \<and> (case idle of None \<Rightarrow> False | Some s \<Rightarrow> s < of_int (now - rt_progress r)) then (Inr False, d)
                else case leash_int (mv_host E) leash ''max_active_wall_seconds'' 21600 of
                    Inl e \<Rightarrow> (Inl e, d)
                  | Inr cap \<Rightarrow>
                      if int_exhausted (cap * 1000) (int (ct_wall (rt_used r))) then (Inr False, d)
                      else let (ok, d1) = renew [J_RUNNING, J_PAUSING] m tok secs now d in (Inr ok, d1))
      | _ \<Rightarrow> (Inr False, d))"

definition lose_run :: "(mission_row \<Rightarrow> bool) \<Rightarrow> job_state \<Rightarrow> pystr \<Rightarrow> int \<Rightarrow> mission_db \<Rightarrow> nat \<times> mission_db" where
  "lose_run hit s why now d =
     update_missions hit (\<lambda>r. r\<lparr>mi_state := s, mi_token := [], mi_lease := 0, mi_result := why, mi_updated := now\<rparr>) d"

definition phase_moves :: "pystr \<Rightarrow> pystr \<Rightarrow> int \<Rightarrow> mission_db \<Rightarrow> mission_db" where
  "phase_moves m phase now d = update_runtime (\<lambda>r. rt_id r = m)
     (\<lambda>r. r\<lparr>rt_seq := rt_seq r + 1, rt_progress := now, rt_phase := phase, rt_since := now\<rparr>) d"

definition fence_mission :: "pystr \<Rightarrow> pystr \<Rightarrow> pystr \<Rightarrow> pystr \<Rightarrow> int \<Rightarrow> mission_db \<Rightarrow> bool \<times> mission_db" where
  "fence_mission m tok phase reason now d =
     (let (n, d1) = lose_run (owned_by [J_RUNNING, J_PAUSING] m tok) J_RECOVERY_REQUIRED (take 200 reason) now d in
      if n = 0 then (False, d1) else (n = 1, phase_moves m (take 80 (u ''timed_out:'' @ phase)) now d1))"

definition fence_timed_out :: "pyhost \<Rightarrow> pystr \<Rightarrow> pystr \<Rightarrow> pystr \<Rightarrow> pystr \<Rightarrow> int \<Rightarrow> int \<Rightarrow> mission_db \<Rightarrow> bool result \<times> mission_db" where
  "fence_timed_out H m tok phase reason now later d =
     (case fence_mission m tok phase reason now d of
        (False, d1) \<Rightarrow> (Inr False, d1)
      | (True, d1) \<Rightarrow>
          let (x, d2) = record_checkpoint H later m [] (u ''timed_out:'' @ phase) [(u ''reason'', JStr (take 500 reason))] None True d1
          in (bind_result x (\<lambda>_. Inr True), d2))"

subsection \<open>Recovery of a lost run\<close>

definition safe_phase :: "pystr \<Rightarrow> bool" where
  "safe_phase p \<longleftrightarrow> p = u ''deciding'' \<or> p = u ''decision_ready''"

definition blocking_phase :: "pystr \<Rightarrow> bool" where
  "blocking_phase p \<longleftrightarrow> List.member (map u [''deciding'', ''action_preparing'', ''executing'', ''goal_verifying'']) p"

definition heartbeat_seconds :: int where "heartbeat_seconds = 20"

definition stale :: "int \<Rightarrow> mission_row \<Rightarrow> bool" where
  "stale now r \<longleftrightarrow> working (mi_state r) \<and> mi_token r \<noteq> [] \<and> 0 < mi_lease r \<and> mi_lease r \<le> now"

definition inflight_ms :: "int \<Rightarrow> int \<Rightarrow> mission_row \<Rightarrow> runtime_row option \<Rightarrow> nat" where
  "inflight_ms now step_ms q rt =
     (case rt of
        None \<Rightarrow> 0
      | Some r \<Rightarrow>
          if rt_since r \<noteq> 0 \<and> blocking_phase (rt_phase r)
          then nat (min step_ms (max 0 (min now (mi_updated q + heartbeat_seconds) - rt_since r) * 1000)) else 0)"

definition recovered_state :: "bool \<Rightarrow> bool \<Rightarrow> pystr \<Rightarrow> job_state \<times> pystr" where
  "recovered_state corrupt safe exhausted =
     (if corrupt then (J_RECOVERY_REQUIRED, u ''durable Mission leash JSON is corrupt; inspect and reconcile'')
      else if safe \<and> exhausted \<noteq> [] then (J_NEEDS_YOU, exhausted)
      else if safe then (J_QUEUED, u ''safe model-only boundary recovered; queued to continue'')
      else (J_RECOVERY_REQUIRED, u ''runner heartbeat expired; inspect the external system and receipts, then explicitly reconcile or cancel''))"

definition step_millis :: "mission_env \<Rightarrow> pydict \<Rightarrow> int result" where
  "step_millis E leash = bind_result (step_seconds E leash) (\<lambda>s. case s of
     None \<Rightarrow> Inl (OtherError ''OverflowError'') | Some q \<Rightarrow> Inr (trunc_rat (mv_round E (q * 1000))))"

definition recover_mission :: "mission_env \<Rightarrow> (pystr \<Rightarrow> bool) \<Rightarrow> int \<Rightarrow> mission_row \<Rightarrow> runtime_row option \<Rightarrow> mission_db \<Rightarrow> (bool \<times> mission_db) result" where
  "recover_mission E confirmed now q rt d =
     (let m = mi_id q in
      if \<not> confirmed m then Inr (False, add_mission_event m (u ''watchdog'') (u ''stale_worker_termination_unconfirmed'') [] [] now d)
      else
        let leash = jl (mi_leash q); phase = (case rt of None \<Rightarrow> [] | Some r \<Rightarrow> rt_phase r); safe = safe_phase phase in
        bind_result (step_millis E leash) (\<lambda>step_ms.
          let ms = inflight_ms now step_ms q rt;
              d1 = (if ms = 0 then d else update_runtime (\<lambda>r. rt_id r = m) (charge_wall ms now) d)
          in bind_result (mission_budget_reason E now d1 m) (\<lambda>exhausted.
            let (s, why) = recovered_state (json_invalid leash) safe exhausted;
                (n, d2) = lose_run (\<lambda>r. mi_id r = m \<and> working (mi_state r) \<and> mi_lease r \<le> now \<and> mi_token r = mi_token q) s why now d1
            in if n \<noteq> 0
               then Inr (True, phase_moves m (if s = J_NEEDS_YOU then u ''budget_exhausted'' else if safe then u ''recovered_safe''
                 else u ''recovery_required'') now d2)
               else if ms \<noteq> 0
               then Inr (False, update_runtime (\<lambda>r. rt_id r = m) (\<lambda>r. r\<lparr>rt_used := (rt_used r)\<lparr>ct_wall := ct_wall (rt_used r) - ms\<rparr>\<rparr>) d2)
               else Inr (False, d2))))"

fun recover_each :: "mission_env \<Rightarrow> (pystr \<Rightarrow> bool) \<Rightarrow> int \<Rightarrow> (mission_row \<times> runtime_row option) list \<Rightarrow> nat \<Rightarrow> mission_db \<Rightarrow> (nat \<times> mission_db) result" where
  "recover_each E confirmed now [] n d = Inr (n, d)"
| "recover_each E confirmed now ((q, rt) # rows) n d =
     bind_result (recover_mission E confirmed now q rt d) (\<lambda>x. recover_each E confirmed now rows (if fst x then n + 1 else n) (snd x))"

definition recover_stale_runs :: "mission_env \<Rightarrow> (pystr \<Rightarrow> bool) \<Rightarrow> int \<Rightarrow> mission_db \<Rightarrow> nat result \<times> mission_db" where
  "recover_stale_runs E confirmed now d =
     (case recover_each E confirmed now (map (\<lambda>q. (q, runtime_of d (mi_id q))) (filter (stale now) (md_missions d))) 0 d of
        Inl e \<Rightarrow> (Inl e, d)
      | Inr (n, d1) \<Rightarrow> (Inr n, d1))"

subsection \<open>Leases of shared resources\<close>

definition working_mission :: "mission_db \<Rightarrow> pystr \<Rightarrow> bool" where
  "working_mission d m \<longleftrightarrow> list_ex (\<lambda>r. mi_id r = m \<and> working (mi_state r)) (md_missions d)"

definition lapsed :: "mission_db \<Rightarrow> pystr \<Rightarrow> int \<Rightarrow> lease_row \<Rightarrow> bool" where
  "lapsed d res now l \<longleftrightarrow> lr_resource l = res \<and> lr_until l \<le> now \<and> \<not> working_mission d (lr_mission l)"

definition claim_resource :: "pystr \<Rightarrow> pystr \<Rightarrow> pystr \<Rightarrow> int \<Rightarrow> int \<Rightarrow> mission_db \<Rightarrow> pystr option \<times> mission_db" where
  "claim_resource tok res m secs now d =
     (case insert_lease res m tok (now + secs) now (snd (delete_leases (lapsed d res now) d)) of
        None \<Rightarrow> (None, d) | Some d1 \<Rightarrow> (Some tok, d1))"

definition claim_execution :: "pystr \<Rightarrow> pystr \<Rightarrow> pystr \<Rightarrow> pystr \<Rightarrow> int \<Rightarrow> int \<Rightarrow> mission_db \<Rightarrow> (pystr \<times> pystr) option \<times> mission_db" where
  "claim_execution tok nonce m run_token secs now d =
     (if \<not> owns [J_RUNNING] d m run_token then (None, d)
      else case insert_lease (action_resource nonce) m tok (now + secs) now d of
          None \<Rightarrow> (None, d) | Some d1 \<Rightarrow> (Some (action_resource nonce, tok), d1))"

definition active_resources :: "mission_db \<Rightarrow> pystr \<Rightarrow> int \<Rightarrow> lease_row list" where
  "active_resources d m now = sort_key lr_resource (filter (\<lambda>l. lr_mission l = m \<and> now < lr_until l) (md_leases d))"

definition holds :: "pystr \<Rightarrow> pystr \<Rightarrow> pystr \<Rightarrow> lease_row \<Rightarrow> bool" where
  "holds res m tok l \<longleftrightarrow> lr_resource l = res \<and> lr_mission l = m \<and> lr_token l = tok"

definition renew_resource :: "pystr \<Rightarrow> pystr \<Rightarrow> pystr \<Rightarrow> int \<Rightarrow> int \<Rightarrow> mission_db \<Rightarrow> bool \<times> mission_db" where
  "renew_resource res m tok secs now d =
     (length (filter (holds res m tok) (md_leases d)) = 1,
      d\<lparr>md_leases := map (\<lambda>l. if holds res m tok l then l\<lparr>lr_until := now + secs, lr_updated := now\<rparr> else l) (md_leases d)\<rparr>)"

definition release_resource :: "pystr \<Rightarrow> pystr \<Rightarrow> pystr \<Rightarrow> mission_db \<Rightarrow> bool \<times> mission_db" where
  "release_resource res m tok d = (let (n, d1) = delete_leases (holds res m tok) d in (n = 1, d1))"

definition release_resources_for_mission :: "pystr \<Rightarrow> mission_db \<Rightarrow> nat \<times> mission_db" where
  "release_resources_for_mission m d = delete_leases (\<lambda>l. lr_mission l = m) d"

subsection \<open>Finishing, parking and pausing\<close>

text \<open>The end of a run: the state, no owner and, when it waits for a person, the human clock.\<close>

definition settle_phase :: "pyhost \<Rightarrow> pystr \<Rightarrow> job_state \<Rightarrow> int \<Rightarrow> mission_db \<Rightarrow> unit result \<times> mission_db" where
  "settle_phase H m s now d =
     (if s = J_NEEDS_YOU
      then mark_human H m (case mission_of d m of Some r \<Rightarrow> jl (mi_leash r) | None \<Rightarrow> []) now d
      else (Inr (), update_runtime (\<lambda>r. rt_id r = m)
        (\<lambda>r. clear_human (r\<lparr>rt_phase := mission_state_text s, rt_progress := now, rt_since := now\<rparr>)) d))"

definition finish_mission :: "pyhost \<Rightarrow> pystr \<Rightarrow> pystr \<Rightarrow> job_state \<Rightarrow> pystr option \<Rightarrow> bool \<Rightarrow> int \<Rightarrow> mission_db \<Rightarrow> bool result \<times> mission_db" where
  "finish_mission H m tok s res block now d =
     (if block \<and> list_ex (\<lambda>p. pn_mission p = m \<and> pn_state p = PN_PENDING) (md_pending d) then (Inr False, d)
      else
        let (n, d1) = update_missions (owned_by [J_RUNNING] m tok) (\<lambda>r. r\<lparr>mi_state := s, mi_token := [], mi_lease := 0,
              mi_result := (case res of None \<Rightarrow> mi_result r | Some x \<Rightarrow> x), mi_updated := now\<rparr>) d
        in if n = 0 then (Inr False, d1)
           else (case settle_phase H m s now d1 of (Inl e, _) \<Rightarrow> (Inl e, d) | (Inr _, d2) \<Rightarrow> (Inr (n = 1), d2)))"

definition finish_run :: "pyhost \<Rightarrow> pystr \<Rightarrow> pystr \<Rightarrow> job_state \<Rightarrow> pystr option \<Rightarrow> bool \<Rightarrow> int \<Rightarrow> int \<Rightarrow> mission_db \<Rightarrow> bool result \<times> mission_db" where
  "finish_run H m tok s res block now later d =
     (case finish_mission H m tok s res block now d of
        (Inr True, d1) \<Rightarrow>
          let (x, d2) = record_checkpoint H later m [] (mission_state_text s)
                [(u ''result'', JStr (take 500 (case res of None \<Rightarrow> [] | Some r \<Rightarrow> r)))] None True d1
          in (bind_result x (\<lambda>_. Inr True), d2)
      | other \<Rightarrow> other)"

definition set_case_owned :: "pyhost \<Rightarrow> pystr \<Rightarrow> pystr \<Rightarrow> pydict \<Rightarrow> int \<Rightarrow> mission_db \<Rightarrow> bool result \<times> mission_db" where
  "set_case_owned H m tok kase now d =
     (case bind_result (compact_case_storage H kase) js of
        Inl e \<Rightarrow> (Inl e, d)
      | Inr c \<Rightarrow>
          let (n, d1) = update_missions (owned_by [J_RUNNING, J_PAUSING] m tok) (\<lambda>r. r\<lparr>mi_case := Col c, mi_updated := now\<rparr>) d
          in (Inr (n = 1), d1))"

definition add_step :: "pystr \<Rightarrow> pystr \<Rightarrow> pystr \<Rightarrow> pystr \<Rightarrow> int \<Rightarrow> mission_db \<Rightarrow> mission_db" where
  "add_step m name nonce verdict now d =
     d\<lparr>md_steps := md_steps d @ [\<lparr>sp_mission = m, sp_name = name, sp_nonce = nonce, sp_verdict = verdict, sp_at = now\<rparr>]\<rparr>"

definition park_mission :: "pyhost \<Rightarrow> pystr \<Rightarrow> pystr \<Rightarrow> pystr \<Rightarrow> pystr \<Rightarrow> pystr \<Rightarrow> int \<Rightarrow> mission_db \<Rightarrow> bool result \<times> mission_db" where
  "park_mission H m tok name nonce res now d =
     (let (n, d1) = lose_run (owned_by [J_RUNNING] m tok) J_NEEDS_YOU (take 200 (or_str res (u ''confirm needed''))) now d in
      if n = 0 then (Inr False, d1)
      else (case settle_phase H m J_NEEDS_YOU now (add_step m name nonce awaiting now d1) of
          (Inl e, _) \<Rightarrow> (Inl e, d) | (Inr _, d2) \<Rightarrow> (Inr (n = 1), refresh_storage H m d2)))"

definition park_for_confirm :: "pyhost \<Rightarrow> pystr \<Rightarrow> pystr \<Rightarrow> pystr \<Rightarrow> pystr \<Rightarrow> pystr \<Rightarrow> int \<Rightarrow> int \<Rightarrow> mission_db \<Rightarrow> bool result \<times> mission_db" where
  "park_for_confirm H m tok name nonce res now later d =
     (case park_mission H m tok name nonce res now d of
        (Inr True, d1) \<Rightarrow>
          let (x, d2) = record_checkpoint H later m [] (u ''needs_you'')
                [(u ''action'', JStr name), (u ''nonce'', JStr nonce), (u ''reason'', JStr (take 500 res))] None True d1
          in (bind_result x (\<lambda>_. Inr True), d2)
      | other \<Rightarrow> other)"

definition settle_pausing :: "pystr \<Rightarrow> pystr \<Rightarrow> int \<Rightarrow> mission_db \<Rightarrow> bool \<times> mission_db" where
  "settle_pausing m tok now d =
     (let (n, d1) = lose_run (owned_by [J_PAUSING] m tok) J_PAUSED (u ''paused at an action boundary'') now d in
      if n = 0 then (False, d1)
      else (n = 1, update_runtime (\<lambda>r. rt_id r = m) (\<lambda>r. r\<lparr>rt_phase := u ''paused'', rt_progress := now, rt_since := now\<rparr>) d1))"

definition pause_mission :: "pystr \<Rightarrow> int \<Rightarrow> mission_db \<Rightarrow> bool \<times> mission_db" where
  "pause_mission m now d =
     (let (n, d1) = update_missions (\<lambda>r. mi_id r = m \<and> mi_state r = J_RUNNING \<and> mi_token r \<noteq> []) (\<lambda>r. r\<lparr>mi_state := J_PAUSING,
            mi_from := Some J_QUEUED, mi_result := u ''pause requested; waiting for current action boundary'', mi_updated := now\<rparr>) d;
          (n, d2) = (if n = 0
            then update_missions (\<lambda>r. mi_id r = m \<and> List.member [J_QUEUED, J_WAITING, J_NEEDS_YOU] (mi_state r))
              (\<lambda>r. r\<lparr>mi_state := J_PAUSED, mi_from := Some (mi_state r), mi_token := [], mi_lease := 0,
                 mi_result := u ''paused by user'', mi_updated := now\<rparr>) d1
            else (n, d1))
      in if n = 0 then (False, d2)
         else (n = 1, update_runtime (\<lambda>r. rt_id r = m)
           (\<lambda>r. clear_human (r\<lparr>rt_phase := u ''paused'', rt_progress := now, rt_since := now\<rparr>)) d2))"

definition resume_target :: "mission_row \<Rightarrow> job_state" where
  "resume_target r = (case mi_from r of None \<Rightarrow> J_QUEUED | Some s \<Rightarrow> if s = J_RUNNING then J_QUEUED else s)"

definition resume_to :: "pyhost \<Rightarrow> pystr \<Rightarrow> job_state \<Rightarrow> int \<Rightarrow> mission_db \<Rightarrow> job_state option result \<times> mission_db" where
  "resume_to H m target now d =
     (let (n, d1) = update_missions (\<lambda>r. mi_id r = m \<and> mi_state r = J_PAUSED)
            (\<lambda>r. r\<lparr>mi_state := target, mi_from := None, mi_result := u ''resumed by user'', mi_updated := now\<rparr>) d;
          answer = (if n = 1 then Some target else None)
      in if n = 0 then (Inr None, d1)
         else if target = J_NEEDS_YOU
         then (case mark_human H m (case mission_of d1 m of Some r \<Rightarrow> jl (mi_leash r) | None \<Rightarrow> []) now d1 of
            (Inl e, _) \<Rightarrow> (Inl e, d) | (Inr _, d2) \<Rightarrow> (Inr answer, d2))
         else (Inr answer, update_runtime (\<lambda>r. rt_id r = m) (\<lambda>r. r\<lparr>rt_phase := mission_state_text target, rt_progress := now\<rparr>) d1))"

definition resume_paused :: "pyhost \<Rightarrow> pystr \<Rightarrow> int \<Rightarrow> mission_db \<Rightarrow> job_state option result \<times> mission_db" where
  "resume_paused H m now d =
     (case List.find (\<lambda>r. mi_id r = m \<and> mi_state r = J_PAUSED) (md_missions d) of
        None \<Rightarrow> (Inr None, d)
      | Some q \<Rightarrow> resume_to H m (resume_target q) now d)"

definition cancel_mission :: "pystr \<Rightarrow> pystr \<Rightarrow> int \<Rightarrow> mission_db \<Rightarrow> bool \<times> mission_db" where
  "cancel_mission m res now d =
     (let (n, d1) = lose_run (\<lambda>r. mi_id r = m \<and> \<not> terminal_mission (mi_state r)) J_CANCELLED (take 200 res) now d;
          d2 = (if n = 0 then d1
            else update_runtime (\<lambda>r. rt_id r = m)
              (\<lambda>r. clear_human (r\<lparr>rt_phase := mission_state_text J_CANCELLED, rt_progress := now, rt_since := now\<rparr>))
              (snd (delete_leases (\<lambda>l. lr_mission l = m \<and> lr_until l \<le> now)
                (d1\<lparr>md_wakes := map (\<lambda>w. if wk_mission w = m \<and> wk_state w = WK_PENDING then w\<lparr>wk_state := WK_CANCELLED\<rparr> else w) (md_wakes d1)\<rparr>))))
      in (case mission_of d2 m of None \<Rightarrow> False | Some r \<Rightarrow> mi_state r = J_CANCELLED, d2))"

subsection \<open>Cleaning up after an uncertain run\<close>

definition take_cleanup :: "(mission_row \<Rightarrow> bool) \<Rightarrow> pystr \<Rightarrow> int \<Rightarrow> int \<Rightarrow> mission_db \<Rightarrow> nat \<times> mission_db" where
  "take_cleanup hit tok lease now d =
     update_missions hit (\<lambda>r. r\<lparr>mi_token := tok, mi_lease := now + lease, mi_updated := now\<rparr>) d"

definition release_reconcile :: "pystr \<Rightarrow> pystr \<Rightarrow> mission_db \<Rightarrow> bool \<times> mission_db" where
  "release_reconcile m tok d =
     (let (n, d1) = update_missions (owned_by [J_RECONCILING] m tok) (\<lambda>r. r\<lparr>mi_token := [], mi_lease := 0\<rparr>) d in (n = 1, d1))"

definition live_cleanup :: "pystr \<Rightarrow> pystr \<Rightarrow> int \<Rightarrow> mission_row \<Rightarrow> bool" where
  "live_cleanup m tok now r \<longleftrightarrow> owned_by [J_RECONCILING] m tok r \<and> now < mi_lease r"

definition owns_reconcile :: "pystr \<Rightarrow> pystr \<Rightarrow> int \<Rightarrow> int \<Rightarrow> mission_db \<Rightarrow> bool \<times> mission_db" where
  "owns_reconcile m tok secs now d =
     (let (n, d1) = update_missions (live_cleanup m tok now) (\<lambda>r. r\<lparr>mi_lease := now + secs, mi_updated := now\<rparr>) d in (n = 1, d1))"

definition reserved :: pystr where "reserved = u ''reserved''"
definition materialized :: pystr where "materialized = u ''materialized''"
definition retracted :: pystr where "retracted = u ''retracted_irreversible''"
definition proposed_irreversible :: pystr where "proposed_irreversible = u ''proposed_irreversible''"

definition retract_keys :: "pystr \<Rightarrow> string \<Rightarrow> string \<Rightarrow> int \<Rightarrow> action_key list \<Rightarrow> mission_db \<Rightarrow> mission_db" where
  "retract_keys m name reason now keys d =
     fold (\<lambda>k d. if ak_reservation k = [] then d
       else add_mission_event m retracted (u name) (ak_reservation k) [(u ''reason'', JStr (u reason))] now d) keys d"

definition orphan_key :: "pystr \<Rightarrow> action_key \<Rightarrow> bool" where
  "orphan_key m k \<longleftrightarrow> ak_mission k = m \<and> ak_state k = reserved \<and> ak_nonce k = []"

definition finish_reconcile :: "pystr \<Rightarrow> pystr \<Rightarrow> int \<Rightarrow> mission_db \<Rightarrow> bool \<times> mission_db" where
  "finish_reconcile m tok now d =
     (if \<not> list_ex (live_cleanup m tok now) (md_missions d) then (False, d)
      else if list_ex (\<lambda>l. lr_mission l = m \<and> now < lr_until l) (md_leases d) then (False, d)
      else
        let (n, d1) = lose_run (owned_by [J_RECONCILING] m tok) J_QUEUED (u ''uncertain run explicitly reconciled'') now d in
        if n = 0 then (False, d1)
        else
          let d2 = d1\<lparr>md_steps := map (\<lambda>s. if sp_mission s = m \<and> sp_verdict s = awaiting
                 then s\<lparr>sp_verdict := u ''reconciled-uncertain''\<rparr> else s) (md_steps d1)\<rparr>;
              d3 = retract_keys m ''reconcile'' ''never materialized'' now (filter (orphan_key m) (md_keys d2)) d2;
              d4 = d3\<lparr>md_keys := filter (\<lambda>k. \<not> orphan_key m k) (md_keys d3)\<rparr>
          in (n = 1, snd (delete_leases (\<lambda>l. lr_mission l = m) d4)))"

definition accept_handoff :: "pystr \<Rightarrow> int \<Rightarrow> mission_db \<Rightarrow> bool \<times> mission_db" where
  "accept_handoff m now d =
     (let (n, d1) = update_missions (unowned_in [J_NEEDS_YOU] m)
            (\<lambda>r. r\<lparr>mi_state := J_DONE_ACCEPTED, mi_result := u ''handed off to human'', mi_updated := now\<rparr>) d
      in if n = 0 then (False, d1)
         else (n = 1, update_runtime (\<lambda>r. rt_id r = m)
           (\<lambda>r. clear_human (r\<lparr>rt_phase := mission_state_text J_DONE_ACCEPTED, rt_progress := now\<rparr>)) d1))"

end
