(* ===== verification/MissionNotes.thy ===== *)
theory MissionNotes
  imports MissionOps
begin

text \<open>
  The instruction ledger of \<open>MissionStore\<close>: the admission of exact instructions, notes that
  are accepted from outside a run and applied by its owner, and the operations that admit an
  instruction together with a change of the lifecycle: the hand-off that continues, the
  acknowledged authorization and the start of a cleanup. A request is a text, its source,
  whether the host wrote it, and the identity of its transport (empty when it has none).
\<close>

subsection \<open>Admission\<close>

record note_request =
  nr_text :: pystr
  nr_source :: pystr
  nr_host :: bool
  nr_ref :: pystr

definition ledger_rows :: "mission_db \<Rightarrow> pystr \<Rightarrow> human_note list" where
  "ledger_rows d m = filter (\<lambda>n. hn_mission n = m) (md_notes d)"

definition insert_note :: "pystr \<Rightarrow> int \<Rightarrow> note_request \<Rightarrow> mission_db \<Rightarrow> mission_db" where
  "insert_note m now q d = d\<lparr>md_notes := md_notes d @ [\<lparr>hn_id = length (md_notes d) + 1, hn_mission = m, hn_at = now,
     hn_source = nr_source q, hn_host = nr_host q, hn_note = nr_text q, hn_ref = nr_ref q\<rparr>]\<rparr>"

definition backfill_ledger :: "pyhost \<Rightarrow> pystr \<Rightarrow> pydict \<Rightarrow> int \<Rightarrow> mission_db \<Rightarrow> mission_db result" where
  "backfill_ledger H m kase now d =
     bind_result (legacy_case_notes H kase) (\<lambda>notes.
       Inr (fold (\<lambda>n d. insert_note m (if lg_at n = 0 then now else lg_at n)
         \<lparr>nr_text = lg_note n, nr_source = lg_source n, nr_host = lg_host n, nr_ref = []\<rparr> d) notes d))"

definition full_ledger_text :: "nat \<Rightarrow> pystr" where
  "full_ledger_text n = u ''this Mission already holds '' @ dec (int n)
     @ u '' durable instructions, the maximum; none are discarded to make room. Continue in a new Mission.''"

definition long_ledger_text :: "nat \<Rightarrow> nat \<Rightarrow> pystr" where
  "long_ledger_text n limit = u ''this Mission's durable instructions would reach '' @ dec (int n) @ u '' characters, above the ''
     @ dec (int limit) @ u '' limit; none are discarded to make room. Continue in a new Mission.''"

text \<open>
  The loop of \<open>_admit_notes_locked\<close>: the requests that are new, in order, and the known ids of
  those that were delivered before; or the refusal.
\<close>

fun admit_each :: "(pystr \<times> nat) list \<Rightarrow> nat \<Rightarrow> nat \<Rightarrow> note_request list \<Rightarrow> pystr + note_request list \<times> (pystr \<times> nat) list" where
  "admit_each seen notes chars [] = Inr ([], [])"
| "admit_each seen notes chars (q # qs) =
     (case (if nr_ref q = [] then None else map_of seen (nr_ref q)) of
        Some i \<Rightarrow> map_sum id (\<lambda>(new, dups). (new, (nr_ref q, i) # dups)) (admit_each seen notes chars qs)
      | None \<Rightarrow>
          (case admit_human_note (nr_text q) of
             Inl why \<Rightarrow> Inl why
           | Inr text \<Rightarrow>
               if notes + 1 > ledger_max_notes then Inl (full_ledger_text ledger_max_notes)
               else if chars + length text > ledger_max_chars then Inl (long_ledger_text (chars + length text) ledger_max_chars)
               else map_sum id (\<lambda>(new, dups). (q # new, dups))
                 (admit_each (if nr_ref q = [] then seen else (nr_ref q, 0) # seen) (notes + 1) (chars + length text) qs)))"

definition ledger_chars :: "human_note list \<Rightarrow> nat" where
  "ledger_chars notes = sum_list (map (length \<circ> hn_note) notes)"

definition seen_refs :: "human_note list \<Rightarrow> (pystr \<times> nat) list" where
  "seen_refs notes = rev (map (\<lambda>n. (hn_ref n, hn_id n)) (filter (\<lambda>n. hn_ref n \<noteq> []) notes))"

definition ledger_card :: "pyhost \<Rightarrow> human_note list \<Rightarrow> json" where
  "ledger_card H entries = JObj [(u ''notes'', JInt (int (length entries))), (u ''chars'', JInt (int (ledger_chars entries))),
     (u ''revision'', JStr (note_digest H entries)), (u ''max_note_id'', JInt (int (hn_id (last entries)))),
     (u ''authoritative'', JStr (u ''MissionStore.human_notes(); case.human_updates is a bounded projection of it''))]"

record note_info =
  ni_ids :: "nat list"
  ni_revision :: pystr
  ni_notes :: nat
  ni_duplicates :: "(pystr \<times> nat) list"

definition admitted_case :: "pyhost \<Rightarrow> pydict \<Rightarrow> human_note list \<Rightarrow> nat list \<Rightarrow> bool \<Rightarrow> int \<Rightarrow> pydict result" where
  "admitted_case H kase entries ids by_person now =
     (if entries = [] then Inl (OtherError ''IndexError'')
      else bind_result (project_each H (last_items projection_notes (map (JObj \<circ> note_entry) entries))) (\<lambda>view.
        let kase1 = dset (dset kase (u ''human_updates'') (JList view)) (u ''_human_note_ledger'') (ledger_card H entries) in
        if by_person then supersede_code_evidence kase1 (note_digest H entries) ids now else Inr kase1))"

text \<open>\<open>_admit_notes_locked\<close>; a refusal answers with the store in which only the backfill happened.\<close>

definition admit_notes :: "pyhost \<Rightarrow> pystr \<Rightarrow> pydict \<Rightarrow> note_request list \<Rightarrow> int \<Rightarrow> mission_db
    \<Rightarrow> (pystr \<times> mission_db + pydict \<times> note_info \<times> mission_db) result" where
  "admit_notes H m kase qs now d =
     bind_result (if ledger_rows d m = [] then backfill_ledger H m kase now d else Inr d) (\<lambda>d1.
       let existing = ledger_rows d1 m in
       case admit_each (seen_refs existing) (length existing) (ledger_chars existing) qs of
         Inl why \<Rightarrow> Inr (Inl (why, d1))
       | Inr (new, dups) \<Rightarrow>
           let ids = map (\<lambda>i. length (md_notes d1) + i + 1) [0..<length new];
               d2 = fold (insert_note m now) new d1; entries = ledger_rows d2 m
           in bind_result (admitted_case H kase entries ids (list_ex (\<lambda>q. \<not> nr_host q) new) now) (\<lambda>kase1.
                Inr (Inr (kase1, \<lparr>ni_ids = ids, ni_revision = note_digest H entries, ni_notes = length entries, ni_duplicates = dups\<rparr>, d2))))"

text \<open>The answer of an operation that admits: what was refused and why, or what was accepted.\<close>

datatype note_answer = NOTE_REFUSED pystr | NOTE_LOST | NOTE_OK note_info

definition stored_case :: "pyhost \<Rightarrow> pydict \<Rightarrow> pydict result" where
  "stored_case H kase = bind_result (compact_case_storage H kase) js"

text \<open>
  Admission and the change of the mission row in one transaction: the row is found, the notes
  are admitted, the new case is stored, and \<open>move\<close> changes the rest of the row.
\<close>

definition admit_into :: "pyhost \<Rightarrow> (mission_row \<Rightarrow> bool) \<Rightarrow> pystr \<Rightarrow> note_request list \<Rightarrow> (mission_row \<Rightarrow> mission_row) \<Rightarrow> int
    \<Rightarrow> mission_db \<Rightarrow> note_answer result \<times> mission_db" where
  "admit_into H hit m qs move now d =
     (case List.find hit (md_missions d) of
        None \<Rightarrow> (Inr NOTE_LOST, d)
      | Some r \<Rightarrow>
          (case admit_notes H m (jl (mi_case r)) qs now d of
             Inl e \<Rightarrow> (Inl e, d)
           | Inr (Inl (why, _)) \<Rightarrow> (Inr (NOTE_REFUSED why), d)
           | Inr (Inr (kase, info, d1)) \<Rightarrow>
               (case stored_case H kase of
                  Inl e \<Rightarrow> (Inl e, d)
                | Inr c \<Rightarrow> (Inr (NOTE_OK info), snd (update_missions hit (\<lambda>q. move (q\<lparr>mi_case := Col c, mi_updated := now\<rparr>)) d1)))))"

definition add_human_notes_owned :: "pyhost \<Rightarrow> pystr \<Rightarrow> pystr \<Rightarrow> note_request list \<Rightarrow> int \<Rightarrow> mission_db \<Rightarrow> note_answer result \<times> mission_db" where
  "add_human_notes_owned H m tok qs now d = admit_into H (owned_by [J_RUNNING, J_PAUSING] m tok) m qs id now d"

definition seed_human_notes :: "pyhost \<Rightarrow> pystr \<Rightarrow> note_request list \<Rightarrow> int \<Rightarrow> mission_db \<Rightarrow> note_answer result \<times> mission_db" where
  "seed_human_notes H m qs now d = admit_into H (unowned_in [J_QUEUED] m) m qs id now d"

text \<open>\<open>human_notes\<close>: the ledger, or what the case carried before the ledger existed.\<close>

definition human_notes :: "pyhost \<Rightarrow> mission_db \<Rightarrow> pystr \<Rightarrow> (human_note list + legacy_note list) result" where
  "human_notes H d m =
     (if ledger_rows d m \<noteq> [] then Inr (Inl (ledger_rows d m))
      else case mission_of d m of None \<Rightarrow> Inr (Inr []) | Some r \<Rightarrow> bind_result (legacy_case_notes H (jl (mi_case r))) (\<lambda>ns. Inr (Inr ns)))"

subsection \<open>Notes accepted from outside a run\<close>

datatype note_receipt = RECEIPT_ERROR int | RECEIPT_CONFLICT pending_note | RECEIPT_REPLAY pending_note | RECEIPT_NEW pending_note

definition pending_of :: "mission_db \<Rightarrow> pystr \<Rightarrow> pystr \<Rightarrow> pending_note option" where
  "pending_of d m client = List.find (\<lambda>p. pn_mission p = m \<and> pn_client p = client) (md_pending d)"

definition queued_notes :: "mission_db \<Rightarrow> pystr \<Rightarrow> pending_note list" where
  "queued_notes d m = filter (\<lambda>p. pn_mission p = m \<and> pn_state p = PN_PENDING) (md_pending d)"

text \<open>\<open>_ledger_headroom_locked\<close>: the room is computed over applied and still pending notes.\<close>

definition ledger_size :: "pyhost \<Rightarrow> mission_db \<Rightarrow> pystr \<Rightarrow> pydict \<Rightarrow> (nat \<times> nat) result" where
  "ledger_size H d m kase =
     (if ledger_rows d m \<noteq> [] then Inr (length (ledger_rows d m), ledger_chars (ledger_rows d m))
      else bind_result (legacy_case_notes H kase) (\<lambda>ns. Inr (length ns, sum_list (map (length \<circ> lg_note) ns))))"

definition headroom :: "pyhost \<Rightarrow> mission_db \<Rightarrow> pystr \<Rightarrow> pydict \<Rightarrow> pystr \<Rightarrow> bool result" where
  "headroom H d m kase text =
     bind_result (ledger_size H d m kase) (\<lambda>(n, chars).
       Inr (n + length (queued_notes d m) + 1 \<le> ledger_max_notes
         \<and> chars + sum_list (map (length \<circ> pn_note) (queued_notes d m)) + length text \<le> ledger_max_chars))"

definition new_pending :: "mission_db \<Rightarrow> pystr \<Rightarrow> pystr \<Rightarrow> pystr \<Rightarrow> pystr \<Rightarrow> int \<Rightarrow> pending_note" where
  "new_pending d m client text source now = \<lparr>pn_id = length (md_pending d) + 1, pn_mission = m, pn_client = client, pn_note = text,
     pn_source = or_str source (u ''note''), pn_at = now, pn_state = PN_PENDING, pn_note_id = 0, pn_error = [], pn_settled = 0\<rparr>"

definition accept_pending :: "pyhost \<Rightarrow> pystr \<Rightarrow> pystr \<Rightarrow> pystr \<Rightarrow> pystr \<Rightarrow> int \<Rightarrow> mission_db \<Rightarrow> note_receipt result \<times> mission_db" where
  "accept_pending H m client text source now d =
     (if strip client = [] then (Inr (RECEIPT_ERROR 400), d)
      else case pending_of d m client of
          Some p \<Rightarrow> (Inr (if pn_note p \<noteq> text then RECEIPT_CONFLICT p else RECEIPT_REPLAY p), d)
        | None \<Rightarrow>
            (case mission_of d m of
               None \<Rightarrow> (Inr (RECEIPT_ERROR 404), d)
             | Some r \<Rightarrow>
                 if \<not> note_open (mi_state r) then (Inr (RECEIPT_ERROR 409), d)
                 else if truthy (dget_null (jl (mi_case r)) (u ''code_recovery_required'')) then (Inr (RECEIPT_ERROR 409), d)
                 else case admit_human_note text of
                     Inl _ \<Rightarrow> (Inr (RECEIPT_ERROR 400), d)
                   | Inr admitted \<Rightarrow>
                       (case headroom H d m (jl (mi_case r)) admitted of
                          Inl e \<Rightarrow> (Inl e, d)
                        | Inr False \<Rightarrow> (Inr (RECEIPT_ERROR 409), d)
                        | Inr True \<Rightarrow>
                            let p = new_pending d m client admitted source now
                            in (Inr (RECEIPT_NEW p), d\<lparr>md_pending := md_pending d @ [p]\<rparr>))))"

definition pending_ref :: "pending_note \<Rightarrow> pystr" where
  "pending_ref p = u ''pending:'' @ dec (int (pn_id p))"

definition pending_label :: "pending_note \<Rightarrow> pystr" where
  "pending_label p = u ''pn_'' @ dec (int (pn_id p))"

definition add_pending_note :: "pyhost \<Rightarrow> pystr \<Rightarrow> pystr \<Rightarrow> pystr \<Rightarrow> pystr \<Rightarrow> int \<Rightarrow> int \<Rightarrow> mission_db \<Rightarrow> note_receipt result \<times> mission_db" where
  "add_pending_note H m client text source now later d =
     (case accept_pending H m client text source now d of
        (Inr (RECEIPT_NEW p), d1) \<Rightarrow>
          (Inr (RECEIPT_NEW p), add_mission_event m (u ''control'') (u ''note_accepted'') [] (compact_event H
             [(u ''id'', JStr (pending_label p)), (u ''chars'', JInt (int (length (pn_note p)))),
              (u ''mission_state'', JStr (case mission_of d m of Some r \<Rightarrow> mission_state_text (mi_state r) | None \<Rightarrow> []))]) later d1)
      | other \<Rightarrow> other)"

text \<open>
  \<open>consume_pending_notes_owned\<close>: the owner applies all pending notes, or settles them as
  rejected when the ledger refuses the batch. \<open>settle_each\<close> writes each note's ledger id: that
  of an earlier delivery, or the next fresh one.
\<close>

fun settle_each :: "int \<Rightarrow> (pystr \<times> nat) list \<Rightarrow> nat list \<Rightarrow> pending_note list \<Rightarrow> pending_note list \<Rightarrow> pending_note list" where
  "settle_each now dups fresh [] ps = ps"
| "settle_each now dups fresh (row # rows) ps =
     (let (i, rest) = (case map_of dups (pending_ref row) of
            Some i \<Rightarrow> (i, fresh)
          | None \<Rightarrow> (case fresh of [] \<Rightarrow> (0, []) | f # fs \<Rightarrow> (f, fs)))
      in settle_each now dups rest rows
           (map (\<lambda>p. if pn_id p = pn_id row then p\<lparr>pn_state := PN_APPLIED, pn_note_id := i, pn_settled := now\<rparr> else p) ps))"

definition pending_request :: "pending_note \<Rightarrow> note_request" where
  "pending_request p = \<lparr>nr_text = pn_note p, nr_source = or_str (pn_source p) (u ''note''), nr_host = False, nr_ref = pending_ref p\<rparr>"

definition reject_pending :: "pystr \<Rightarrow> pystr \<Rightarrow> int \<Rightarrow> mission_db \<Rightarrow> mission_db" where
  "reject_pending m why now d = d\<lparr>md_pending := map (\<lambda>p. if pn_mission p = m \<and> pn_state p = PN_PENDING
     then p\<lparr>pn_state := PN_REJECTED, pn_error := take 1000 why, pn_settled := now\<rparr> else p) (md_pending d)\<rparr>"

datatype consume_answer = CONSUME_LOST | CONSUME_REJECTED nat pystr | CONSUMED nat

definition consume_pending :: "pyhost \<Rightarrow> pystr \<Rightarrow> pystr \<Rightarrow> int \<Rightarrow> mission_db \<Rightarrow> consume_answer result \<times> mission_db" where
  "consume_pending H m tok now d =
     (case List.find (owned_by [J_RUNNING, J_PAUSING] m tok) (md_missions d) of
        None \<Rightarrow> (Inr CONSUME_LOST, d)
      | Some r \<Rightarrow>
          let rows = queued_notes d m in
          if rows = [] then (Inr (CONSUMED 0), d)
          else case admit_notes H m (jl (mi_case r)) (map pending_request rows) now d of
              Inl e \<Rightarrow> (Inl e, d)
            | Inr (Inl (why, _)) \<Rightarrow> (Inr (CONSUME_REJECTED (length rows) why), reject_pending m why now d)
            | Inr (Inr (kase, info, d1)) \<Rightarrow>
                (case stored_case H kase of
                   Inl e \<Rightarrow> (Inl e, d)
                 | Inr c \<Rightarrow>
                     let d2 = d1\<lparr>md_pending := settle_each now (ni_duplicates info) (ni_ids info) rows (md_pending d1)\<rparr>;
                         (_, d3) = update_missions (owned_by [J_RUNNING, J_PAUSING] m tok) (\<lambda>q. q\<lparr>mi_case := Col c, mi_updated := now\<rparr>) d2
                     in (Inr (CONSUMED (length rows)), d3)))"

definition consume_pending_notes_owned :: "pyhost \<Rightarrow> pystr \<Rightarrow> pystr \<Rightarrow> int \<Rightarrow> int \<Rightarrow> mission_db \<Rightarrow> consume_answer result \<times> mission_db" where
  "consume_pending_notes_owned H m tok now later d =
     (case consume_pending H m tok now d of
        (Inr (CONSUME_REJECTED n why), d1) \<Rightarrow>
          (Inr (CONSUME_REJECTED n why), add_mission_event m (u ''control'') (u ''note_rejected'') []
             (compact_event H [(u ''reason'', JStr (take 500 why)), (u ''count'', JInt (int n))]) later d1)
      | other \<Rightarrow> other)"

definition pending_note_result :: "mission_db \<Rightarrow> pystr \<Rightarrow> pystr \<Rightarrow> pending_note option" where
  "pending_note_result d m client = pending_of d m client"

text \<open>
  \<open>note_history\<close>: the applied ledger entries under the id their acknowledgment promised, then
  the notes that are still open or were rejected. An entry is its id, its text and its state.
\<close>

definition ledger_label :: "pending_note list \<Rightarrow> int \<Rightarrow> pystr" where
  "ledger_label ps i =
     (case map_of (rev (map (\<lambda>p. (int (pn_note_id p), pending_label p))
         (filter (\<lambda>p. pn_state p = PN_APPLIED \<and> pn_note_id p \<noteq> 0) ps))) i of
        Some l \<Rightarrow> l | None \<Rightarrow> u ''hn_'' @ dec i)"

definition note_history :: "pyhost \<Rightarrow> mission_db \<Rightarrow> pystr \<Rightarrow> (pystr \<times> pystr \<times> pending_state) list result" where
  "note_history H d m =
     (let ps = filter (\<lambda>p. pn_mission p = m) (md_pending d);
          open_notes = filter (\<lambda>p. \<not> (pn_state p = PN_APPLIED \<and> pn_note_id p \<noteq> 0)) ps
      in bind_result (human_notes H d m) (\<lambda>ns.
           let applied = (case ns of Inl hs \<Rightarrow> map (\<lambda>n. (ledger_label ps (int (hn_id n)), hn_note n)) hs
                 | Inr ls \<Rightarrow> map (\<lambda>n. (ledger_label ps (lg_id n), lg_note n)) ls)
           in Inr (map (\<lambda>(i, t). (i, t, PN_APPLIED)) applied @ map (\<lambda>p. (pending_label p, pn_note p, pn_state p)) open_notes)))"

subsection \<open>A person's answer moves the mission\<close>

definition parked :: "mission_db \<Rightarrow> pystr \<Rightarrow> bool" where
  "parked d m \<longleftrightarrow> list_ex (\<lambda>s. sp_mission s = m \<and> sp_verdict s = awaiting) (md_steps d)"

definition runnable_again :: "pystr \<Rightarrow> job_state \<Rightarrow> int \<Rightarrow> mission_db \<Rightarrow> mission_db" where
  "runnable_again m s now d = update_runtime (\<lambda>r. rt_id r = m) (\<lambda>r. clear_human (r\<lparr>rt_phase := mission_state_text s, rt_progress := now\<rparr>)) d"

definition continue_handoff :: "pyhost \<Rightarrow> pystr \<Rightarrow> pystr \<Rightarrow> int \<Rightarrow> mission_db \<Rightarrow> note_answer result \<times> mission_db" where
  "continue_handoff H m note now d =
     (if parked d m then (Inr NOTE_LOST, d)
      else case admit_into H (unowned_in [J_NEEDS_YOU] m) m
             [\<lparr>nr_text = or_str note (u ''human step completed''), nr_source = u ''handoff'', nr_host = False, nr_ref = []\<rparr>]
             (\<lambda>r. r\<lparr>mi_state := J_QUEUED, mi_result := u ''human step completed; ready to continue''\<rparr>) now d of
          (Inr (NOTE_OK i), d1) \<Rightarrow> (Inr (NOTE_OK i), runnable_again m J_QUEUED now d1)
        | other \<Rightarrow> other)"

definition iter_field :: "pydict \<Rightarrow> string \<Rightarrow> json list result" where
  "iter_field d k =
     (case dget d (u k) of
        None \<Rightarrow> Inr []
      | Some v \<Rightarrow> (case v of JList xs \<Rightarrow> Inr xs | JStr s \<Rightarrow> Inr (map (\<lambda>c. JStr [c]) s) | JObj o' \<Rightarrow> Inr (map (JStr \<circ> fst) o')
          | _ \<Rightarrow> Inl (TypeError ''object is not iterable'')))"

definition objects_of :: "json list \<Rightarrow> pydict list" where
  "objects_of xs = concat (map (\<lambda>v. case v of JObj d \<Rightarrow> [d] | _ \<Rightarrow> []) xs)"

definition longer_than_shown :: "pyhost \<Rightarrow> pydict \<Rightarrow> bool result" where
  "longer_than_shown H r =
     (case dget r (u ''summary_chars'') of
        None \<Rightarrow> Inr (length (str_or_empty H (dget_null r (u ''summary''))) > 1000)
      | Some (JInt i) \<Rightarrow> Inr (i > 1000)
      | Some (JBool _) \<Rightarrow> Inr False
      | Some (JFloat (Fin q)) \<Rightarrow> Inr (q > 1000)
      | Some (JFloat f) \<Rightarrow> Inr (f = PosInf)
      | Some _ \<Rightarrow> Inl (TypeError ''not supported between instances''))"

definition handled_text :: "pyhost \<Rightarrow> pystr \<Rightarrow> pydict \<Rightarrow> pystr" where
  "handled_text H rid r = u ''I handled this specific requirement: '' @ py_str H (or_json (dget_null r (u ''summary'')) (JStr rid)) @ u '' (''
     @ py_str H (or_json (dget_null r (u ''domain'')) (JStr (u ''local''))) @ u '', ''
     @ py_str H (or_json (dget_null r (u ''kind'')) (JStr (u ''requirement'')))
     @ u ''). Continue the remaining work and verify the current state before acting. This does not grant broader permissions or declare the task complete.''"

datatype ack_answer = ACK_REFUSED string | ACK_LEDGER pystr | ACK_DUPLICATE | ACK_DONE

definition response_of :: "mission_db \<Rightarrow> pystr \<Rightarrow> pystr \<Rightarrow> authorization_response option" where
  "response_of d m rid = List.find (\<lambda>a. ar_mission a = m \<and> ar_request a = rid) (md_responses d)"

definition handled_authorization :: "mission_db \<Rightarrow> pystr \<Rightarrow> pystr \<Rightarrow> pydict option" where
  "handled_authorization d m rid = map_option ar_response (response_of d m rid)"

definition was_handled :: "pystr \<Rightarrow> pydict \<Rightarrow> bool" where
  "was_handled rid x \<longleftrightarrow> dget x (u ''id'') = Some (JStr rid) \<and> dget x (u ''resolution'') = Some (JStr (u ''user_handled''))"

text \<open>The part after the checks: the ledger entry, the response row and the runnable mission.\<close>

definition settle_authorization :: "pyhost \<Rightarrow> mission_row \<Rightarrow> pystr \<Rightarrow> pydict \<Rightarrow> pydict list \<Rightarrow> pydict list \<Rightarrow> int \<Rightarrow> mission_db \<Rightarrow> ack_answer result \<times> mission_db" where
  "settle_authorization H r rid request resolved waiting now d =
     (let m = mi_id r; note = \<lparr>nr_text = handled_text H rid request, nr_source = u ''authorization'', nr_host = False,
            nr_ref = u ''authorization:'' @ rid\<rparr> in
      case admit_notes H m (jl (mi_case r)) [note] now d of
        Inl e \<Rightarrow> (Inl e, d)
      | Inr (Inl (why, _)) \<Rightarrow> (Inr (ACK_LEDGER why), d)
      | Inr (Inr (kase, _, d1)) \<Rightarrow>
          let response = dset (dset request (u ''resolution'') (JStr (u ''user_handled''))) (u ''resolved_at'') (JInt now);
              kase1 = dset (dset kase (u ''resolved_authorizations'') (JList (map JObj (last_items 40 (resolved @ [response])))))
                (u ''pending_authorizations'') (JList (map JObj (filter (\<lambda>x. dget x (u ''id'') \<noteq> Some (JStr rid)) waiting)));
              s = (if mi_state r = J_PAUSED then J_PAUSED else J_QUEUED)
          in case bind_result (js response) (\<lambda>_. stored_case H kase1) of
              Inl e \<Rightarrow> (Inl e, d)
            | Inr c \<Rightarrow>
                let d2 = d1\<lparr>md_responses := md_responses d1 @ [\<lparr>ar_mission = m, ar_request = rid, ar_response = response, ar_at = now\<rparr>]\<rparr>;
                    d3 = set_mission (\<lambda>q. q\<lparr>mi_state := s, mi_case := Col c, mi_result := u ''requirement handled; progress preserved''\<rparr>) m now d2
                in (Inr ACK_DONE, runnable_again m s now d3))"

definition acknowledge_authorization :: "pyhost \<Rightarrow> pystr \<Rightarrow> pystr \<Rightarrow> int \<Rightarrow> mission_db \<Rightarrow> ack_answer result \<times> mission_db" where
  "acknowledge_authorization H m rid now d =
     (case mission_of d m of
        None \<Rightarrow> (Inr (ACK_REFUSED ''unknown mission''), d)
      | Some r \<Rightarrow>
          (case iter_field (jl (mi_case r)) ''resolved_authorizations'' of
             Inl e \<Rightarrow> (Inl e, d)
           | Inr items \<Rightarrow>
               let resolved = objects_of items in
               if response_of d m rid \<noteq> None \<or> list_ex (was_handled rid) resolved then (Inr ACK_DUPLICATE, d)
               else if \<not> List.member [J_NEEDS_YOU, J_PAUSED] (mi_state r) \<or> mi_token r \<noteq> []
               then (Inr (ACK_REFUSED ''the Mission must be waiting for you or paused''), d)
               else if parked d m then (Inr (ACK_REFUSED ''review the prepared action separately''), d)
               else (case iter_field (jl (mi_case r)) ''pending_authorizations'' of
                   Inl e \<Rightarrow> (Inl e, d)
                 | Inr waiting \<Rightarrow>
                     (case List.find (\<lambda>x. dget x (u ''id'') = Some (JStr rid)) (objects_of waiting) of
                        None \<Rightarrow> (Inr (ACK_REFUSED ''this exact requirement is no longer waiting''), d)
                      | Some request \<Rightarrow>
                          (case longer_than_shown H request of
                             Inl e \<Rightarrow> (Inl e, d)
                           | Inr True \<Rightarrow> (Inr (ACK_REFUSED ''the requirement must be restated in full within 1000 characters''), d)
                           | Inr False \<Rightarrow> settle_authorization H r rid request resolved (objects_of waiting) now d)))))"

subsection \<open>Starting a cleanup\<close>

definition host_note :: "pystr \<Rightarrow> pystr" where
  "host_note note =
     (let n = or_str note (u ''recovery inspected; safe to continue'') in
      case admit_human_note n of
        Inr _ \<Rightarrow> n
      | Inl why \<Rightarrow> u ''recovery inspected; the operator's inspection note was not recorded: '' @ why)"

definition recovery_note :: "pyhost \<Rightarrow> pystr \<Rightarrow> pydict \<Rightarrow> pystr \<Rightarrow> int \<Rightarrow> mission_db \<Rightarrow> (pydict \<times> mission_db) result" where
  "recovery_note H m kase note now d =
     bind_result (admit_notes H m kase [\<lparr>nr_text = host_note note, nr_source = u ''recovery'', nr_host = True, nr_ref = []\<rparr>] now d)
       (\<lambda>a. case a of
          Inr (kase1, _, d1) \<Rightarrow> Inr (kase1, d1)
        | Inl (why, d1) \<Rightarrow>
            let old = (case dget kase (u ''human_updates'') of Some (JList xs) \<Rightarrow> xs | _ \<Rightarrow> []);
                entry = JObj [(u ''at'', JInt now), (u ''note'', JStr (u ''recovery inspected; no further note could be recorded: '' @ why)),
                  (u ''recovery'', JBool True), (u ''source'', JStr (u ''recovery''))]
            in Inr (dset kase (u ''human_updates'') (JList (last_items projection_notes (old @ [entry]))), d1))"

definition begin_reconcile :: "pyhost \<Rightarrow> pystr \<Rightarrow> pystr \<Rightarrow> pystr \<Rightarrow> int \<Rightarrow> int \<Rightarrow> mission_db \<Rightarrow> pystr option result \<times> mission_db" where
  "begin_reconcile H tok m note lease now d =
     (case mission_of d m of
        None \<Rightarrow> (Inr None, d)
      | Some r \<Rightarrow>
          if mi_state r = J_RECONCILING then
            let (n, d1) = take_cleanup (\<lambda>q. mi_id q = m \<and> mi_state q = J_RECONCILING \<and> (mi_token q = [] \<or> mi_lease q \<le> now)) tok lease now d
            in (Inr (if n = 1 then Some tok else None), d1)
          else if mi_state r \<noteq> J_RECOVERY_REQUIRED then (Inr None, d)
          else case bind_result (recovery_note H m (jl (mi_case r)) note now d) (\<lambda>(kase, d1). bind_result (js kase) (\<lambda>c. Inr (c, d1))) of
              Inl e \<Rightarrow> (Inl e, d)
            | Inr (c, d1) \<Rightarrow>
                let (n, d2) = update_missions (\<lambda>q. mi_id q = m \<and> mi_state q = J_RECOVERY_REQUIRED)
                      (\<lambda>q. q\<lparr>mi_state := J_RECONCILING, mi_case := Col c, mi_token := tok, mi_lease := now + lease,
                         mi_result := u ''recovery cleanup in progress'', mi_updated := now\<rparr>) d1
                in (Inr (if n = 1 then Some tok else None), d2))"

end
