(* ===== verification/MissionWork.thy ===== *)
theory MissionWork
  imports MissionOps
begin

text \<open>
  The work of a running mission in \<open>MissionStore\<close>: its steps and durable wakes, the slot that
  serializes blocking work across one budget lineage, the event ledger, and the reservations
  of actions, decisions and model requests against every ancestor's budget.
\<close>

subsection \<open>Steps and wakes\<close>

definition last_parked :: "mission_db \<Rightarrow> pystr \<Rightarrow> (pystr \<times> pystr) option" where
  "last_parked d m =
     (case filter (\<lambda>s. sp_mission s = m \<and> sp_verdict s = awaiting) (md_steps d) of
        [] \<Rightarrow> None | s # ss \<Rightarrow> Some (sp_name (last (s # ss)), sp_nonce (last (s # ss))))"

definition resolve_parked :: "pystr \<Rightarrow> pystr \<Rightarrow> mission_db \<Rightarrow> mission_db" where
  "resolve_parked nonce verdict d = d\<lparr>md_steps := map (\<lambda>s. if sp_nonce s = nonce \<and> sp_verdict s = awaiting
     then s\<lparr>sp_verdict := verdict\<rparr> else s) (md_steps d)\<rparr>"

definition mission_steps :: "mission_db \<Rightarrow> pystr \<Rightarrow> step_row list" where
  "mission_steps d m = filter (\<lambda>s. sp_mission s = m) (md_steps d)"

definition schedule_mission_wait :: "pystr \<Rightarrow> int \<Rightarrow> int \<Rightarrow> mission_db \<Rightarrow> mission_db" where
  "schedule_mission_wait m fire now d = d\<lparr>md_wakes :=
     map (\<lambda>w. if wk_mission w = m \<and> wk_state w = WK_PENDING then w\<lparr>wk_state := WK_SUPERSEDED\<rparr> else w) (md_wakes d)
     @ [\<lparr>wk_id = length (md_wakes d) + 1, wk_mission = m, wk_fire = fire, wk_state = WK_PENDING, wk_created = now\<rparr>]\<rparr>"

definition due_mission_waits :: "mission_db \<Rightarrow> int \<Rightarrow> wake_row list" where
  "due_mission_waits d now = sort_key wk_fire (filter (\<lambda>w. wk_state w = WK_PENDING \<and> wk_fire w \<le> now) (md_wakes d))"

definition fire_wake :: "nat \<Rightarrow> mission_db \<Rightarrow> nat \<times> mission_db" where
  "fire_wake i d =
     (let hit = (\<lambda>w. wk_id w = i \<and> wk_state w = WK_PENDING) in
      (length (filter hit (md_wakes d)), d\<lparr>md_wakes := map (\<lambda>w. if hit w then w\<lparr>wk_state := WK_FIRED\<rparr> else w) (md_wakes d)\<rparr>))"

definition claim_mission_wait :: "nat \<Rightarrow> mission_db \<Rightarrow> bool \<times> mission_db" where
  "claim_mission_wait i d = (let (n, d1) = fire_wake i d in (n = 1, d1))"

definition next_wait :: "mission_db \<Rightarrow> pystr \<Rightarrow> wake_row option" where
  "next_wait d m = (case sort_key wk_fire (filter (\<lambda>w. wk_mission w = m \<and> wk_state w = WK_PENDING) (md_wakes d)) of [] \<Rightarrow> None | w # _ \<Rightarrow> Some w)"

text \<open>The waits a claim may take: pending, of a waiting mission without an owner, of the given
  mission and lane, and due unless the claim is forced.\<close>

definition wake_claimable :: "mission_db \<Rightarrow> pystr \<Rightarrow> bool \<Rightarrow> pystr \<Rightarrow> int \<Rightarrow> wake_row \<Rightarrow> bool" where
  "wake_claimable d m force lane now w \<longleftrightarrow> wk_state w = WK_PENDING
     \<and> list_ex (unowned_in [J_WAITING] (wk_mission w)) (md_missions d)
     \<and> (m = [] \<or> wk_mission w = m)
     \<and> (lane = [] \<or> (case runtime_of d (wk_mission w) of None \<Rightarrow> False | Some r \<Rightarrow> rt_lane r = lane))
     \<and> (force \<or> wk_fire w \<le> now)"

definition claim_wake :: "pystr \<Rightarrow> pystr \<Rightarrow> bool \<Rightarrow> int \<Rightarrow> pystr \<Rightarrow> int \<Rightarrow> mission_db \<Rightarrow> (wake_row \<times> pystr) option \<times> mission_db" where
  "claim_wake tok m force lease lane now d =
     (case sort_key wk_fire (filter (wake_claimable d m force lane now) (md_wakes d)) of
        [] \<Rightarrow> (None, d)
      | w # _ \<Rightarrow>
          let (_, d1) = delete_leases (settled_fence (wk_mission w) now) d;
              (mc, d2) = take_run (unowned_in [J_WAITING] (wk_mission w)) tok lease now d1;
              (wc, d3) = fire_wake (wk_id w) d2
          in if mc \<noteq> 1 \<or> wc \<noteq> 1 then (None, d) else (Some (w, tok), started (wk_mission w) now d3))"

definition claim_due_wait :: "pyhost \<Rightarrow> pystr \<Rightarrow> pystr \<Rightarrow> bool \<Rightarrow> int \<Rightarrow> pystr \<Rightarrow> int \<Rightarrow> int \<Rightarrow> mission_db \<Rightarrow> (pystr \<times> pystr) option result \<times> mission_db" where
  "claim_due_wait H tok m force lease lane now later d =
     (case claim_wake tok m force lease lane now d of
        (None, d1) \<Rightarrow> (Inr None, d1)
      | (Some (w, t), d1) \<Rightarrow>
          let (x, d2) = record_checkpoint H later (wk_mission w) t (u ''claimed'')
                [(u ''wake_wait_id'', JInt (int (wk_id w))), (u ''wake_fire_at'', JInt (wk_fire w))] None False d1
          in (bind_result x (\<lambda>_. Inr (Some (wk_mission w, t))), d2))"

subsection \<open>The slot of a lineage\<close>

definition claim_active_slot :: "pystr \<Rightarrow> pystr \<Rightarrow> pystr \<Rightarrow> int \<Rightarrow> int \<Rightarrow> mission_db \<Rightarrow> (pystr \<times> pystr) option \<times> mission_db" where
  "claim_active_slot tok m run_token secs now d =
     (if \<not> owns [J_RUNNING, J_PAUSING] d m run_token then (None, d)
      else case lineage d m of
          Inl _ \<Rightarrow> (None, d)
        | Inr rows \<Rightarrow>
            let res = active_resource (rt_id (fst (last rows))) in
            case insert_lease res m tok (now + max 1 secs) now (snd (delete_leases (lapsed d res now) d)) of
              None \<Rightarrow> (None, d) | Some d1 \<Rightarrow> (Some (res, tok), d1))"

text \<open>\<open>release\<close> or, when the end of the work is not confirmed, a fence under a new token.\<close>

definition settle_active_slot :: "mission_env \<Rightarrow> pystr \<Rightarrow> pystr \<Rightarrow> pystr \<Rightarrow> json \<Rightarrow> pystr option \<Rightarrow> int \<Rightarrow> mission_db \<Rightarrow> bool result \<times> mission_db" where
  "settle_active_slot E res m slot_token wall fence now d =
     (if \<not> starts_with res (u ''mission-active:'') \<or> slot_token = [] \<or> starts_with slot_token (u ''settled:'') then (Inr False, d)
      else case nonnegative_integer (mv_host E) wall of
          Inl e \<Rightarrow> (Inl e, d)
        | Inr ms \<Rightarrow>
            if \<not> list_ex (holds res m slot_token) (md_leases d) \<or> runtime_of d m = None then (Inr False, d)
            else
              let d1 = update_runtime (\<lambda>r. rt_id r = m) (charge_wall ms now) d in
              (Inr True, case fence of
                 None \<Rightarrow> snd (delete_leases (holds res m slot_token) d1)
               | Some hex \<Rightarrow> d1\<lparr>md_leases := map (\<lambda>l. if holds res m slot_token l
                   then l\<lparr>lr_token := u ''settled:'' @ hex, lr_updated := now\<rparr> else l) (md_leases d1)\<rparr>))"

subsection \<open>Events\<close>

definition record_event :: "pyhost \<Rightarrow> pystr \<Rightarrow> pystr \<Rightarrow> pystr \<Rightarrow> pystr \<Rightarrow> pydict \<Rightarrow> int \<Rightarrow> mission_db \<Rightarrow> unit result \<times> mission_db" where
  "record_event H m kind name nonce payload now d =
     (case js (compact_event H payload) of
        Inl e \<Rightarrow> (Inl e, d)
      | Inr p \<Rightarrow> (Inr (), add_mission_event m kind name nonce p now d))"

definition mission_events :: "mission_db \<Rightarrow> pystr \<Rightarrow> nat \<Rightarrow> mission_event list" where
  "mission_events d m n = last_items n (filter (\<lambda>e. me_mission e = m) (md_events d))"

definition skip_event :: "pystr \<Rightarrow> mission_event \<Rightarrow> bool" where
  "skip_event m e \<longleftrightarrow> me_mission e = m \<and> me_kind e = u ''intervention'' \<and> me_name e = u ''optional_skipped''"

text \<open>The record of an omission; a shortened ledger row still proves the decision.\<close>

definition skip_record :: "pyhost \<Rightarrow> mission_event \<Rightarrow> pydict result" where
  "skip_record H e =
     (let payload = (if truthy (dget_null (me_payload e) (u ''truncated'')) then [(u ''id'', JStr (me_nonce e))] else me_payload e);
          r = (if dget payload (u ''id'') = None then dset payload (u ''id'') (JStr (me_nonce e)) else payload);
          t = dget_null r (u ''at'') in
      bind_result (py_int H (if truthy t then t else JInt (me_at e))) (\<lambda>i. Inr (dset r (u ''at'') (JInt i))))"

definition optional_skip :: "pyhost \<Rightarrow> mission_db \<Rightarrow> pystr \<Rightarrow> pystr \<Rightarrow> pydict option result" where
  "optional_skip H d m skip_id =
     (if skip_id = [] then Inr None
      else case List.find (\<lambda>e. skip_event m e \<and> me_nonce e = skip_id) (md_events d) of
          None \<Rightarrow> Inr None
        | Some e \<Rightarrow> bind_result (skip_record H e) (\<lambda>r. Inr (Some r)))"

primrec skip_records :: "pyhost \<Rightarrow> mission_event list \<Rightarrow> pydict list result" where
  "skip_records H [] = Inr []"
| "skip_records H (e # es) = bind_result (skip_record H e) (\<lambda>r. bind_result (skip_records H es) (\<lambda>rs. Inr (r # rs)))"

definition optional_skips :: "pyhost \<Rightarrow> mission_db \<Rightarrow> pystr \<Rightarrow> nat \<Rightarrow> nat \<Rightarrow> (pydict list \<times> nat) result" where
  "optional_skips H d m n offset =
     (let es = filter (skip_event m) (md_events d) in
      bind_result (skip_records H (take n (drop offset es))) (\<lambda>rs. Inr (rs, length es)))"

subsection \<open>Reservations\<close>

definition open_key :: "action_key \<Rightarrow> bool" where
  "open_key k \<longleftrightarrow> ak_state k = reserved \<or> ak_state k = materialized"

text \<open>The proposals of irreversible actions below a mission that were not retracted.\<close>

definition live_proposal :: "mission_db \<Rightarrow> mission_event \<Rightarrow> bool" where
  "live_proposal d e \<longleftrightarrow> me_kind e = proposed_irreversible
     \<and> \<not> list_ex (\<lambda>r. me_mission r = me_mission e \<and> me_kind r = retracted \<and> me_nonce r = me_nonce e) (md_events d)"

definition proposals_below :: "mission_db \<Rightarrow> pystr \<Rightarrow> mission_event list" where
  "proposals_below d m = (let ids = mission_subtree d m in filter (\<lambda>e. live_proposal d e \<and> List.member ids (me_mission e)) (md_events d))"

text \<open>Quota of one ancestor: the refusal and the time to retry at, or nothing.\<close>

definition action_quota :: "pyhost \<Rightarrow> int \<Rightarrow> mission_db \<Rightarrow> pystr \<Rightarrow> runtime_row \<times> mission_row \<Rightarrow> (pystr \<times> int) option result" where
  "action_quota H now d m x =
     (let leash = jl (mi_leash (snd x)); b = rt_id (fst x); prefix = (if b = m then [] else u ''ancestor '' @ b @ u '': '') in
      bind_result (leash_int H leash ''max_irreversible_actions'' 100) (\<lambda>cap.
      bind_result (leash_int H leash ''actions_per_hour'' 12) (\<lambda>hourly.
        let recent = sort (map me_at (filter (\<lambda>e. now - 3600 < me_at e) (proposals_below d b))) in
        Inr (if cap \<le> int (length (proposals_below d b)) then Some (prefix @ u ''mission irreversible-action budget exhausted'', 0)
          else if hourly \<le> 0 then Some (prefix @ u ''mission external-action rate limit reached'', 0)
          else if hourly \<le> int (length recent) then Some (prefix @ u ''mission external-action rate limit reached'', hd recent + 3600)
          else None))))"

fun action_quotas :: "pyhost \<Rightarrow> int \<Rightarrow> mission_db \<Rightarrow> pystr \<Rightarrow> (runtime_row \<times> mission_row) list \<Rightarrow> (pystr \<times> int) option result" where
  "action_quotas H now d m [] = Inr None"
| "action_quotas H now d m (x # xs) =
     bind_result (action_quota H now d m x) (\<lambda>r. case r of Some why \<Rightarrow> Inr (Some why) | None \<Rightarrow> action_quotas H now d m xs)"

text \<open>The key that blocks: anywhere in the campaign for an irreversible action.\<close>

definition blocking_key :: "mission_db \<Rightarrow> bool \<Rightarrow> pystr \<Rightarrow> pystr \<Rightarrow> pystr \<Rightarrow> action_key option" where
  "blocking_key d irreversible root_id m key =
     (if irreversible then let ids = mission_subtree d root_id in List.find (\<lambda>k. ak_key k = key \<and> List.member ids (ak_mission k)) (md_keys d)
      else List.find (\<lambda>k. ak_key k = key \<and> ak_mission k = m) (md_keys d))"

definition reserve_rows :: "pystr \<Rightarrow> pystr \<Rightarrow> pystr \<Rightarrow> bool \<Rightarrow> pystr \<Rightarrow> pystr \<Rightarrow> pydict \<Rightarrow> int \<Rightarrow> mission_db \<Rightarrow> mission_db" where
  "reserve_rows rid m key irreversible name run_token payload now d =
     (let d1 = (if key = [] then d else d\<lparr>md_keys := md_keys d @ [\<lparr>ak_mission = m, ak_key = key, ak_nonce = [], ak_state = reserved,
            ak_at = now, ak_owner = run_token, ak_reservation = rid\<rparr>]\<rparr>)
      in add_mission_event m (if irreversible then proposed_irreversible else u ''proposed'') name rid payload now d1)"

datatype reservation = GRANTED | REFUSED_ACTION pystr int

definition reserve_action :: "mission_env \<Rightarrow> pystr \<Rightarrow> pystr \<Rightarrow> pystr \<Rightarrow> bool \<Rightarrow> pystr \<Rightarrow> pydict \<Rightarrow> pystr \<Rightarrow> int \<Rightarrow> mission_db \<Rightarrow> reservation result \<times> mission_db" where
  "reserve_action E rid m key irreversible name payload run_token now d =
     (let H = mv_host E in
      if \<not> owns [J_RUNNING] d m run_token then (Inr (REFUSED_ACTION (u ''mission run ownership lost before action reservation'') 0), d)
      else case lineage d m of
          Inl why \<Rightarrow> (Inr (REFUSED_ACTION why 0), d)
        | Inr rows \<Rightarrow>
            (case bind_result (mission_budget_reason E now d m) (\<lambda>why.
                  if why \<noteq> [] then Inr (Some (why, 0)) else if irreversible then action_quotas H now d m rows else Inr None) of
               Inl e \<Rightarrow> (Inl e, d)
             | Inr (Some (why, retry)) \<Rightarrow> (Inr (REFUSED_ACTION why retry), d)
             | Inr None \<Rightarrow>
                 (case (if key = [] then None else blocking_key d irreversible (rt_id (fst (last rows))) m key) of
                    Some k \<Rightarrow> (Inr (REFUSED_ACTION (u ''duplicate external action blocked ('' @ ak_state k @ u '')'') 0), d)
                  | None \<Rightarrow>
                      (case js (compact_event H payload) of
                         Inl e \<Rightarrow> (Inl e, d)
                       | Inr p \<Rightarrow> (Inr GRANTED, reserve_rows rid m key irreversible name run_token p now d)))))"

definition turn_event :: "mission_event \<Rightarrow> bool" where
  "turn_event e \<longleftrightarrow> me_kind e = u ''decision'' \<or> me_kind e = u ''planning_turn''"

definition turns_below :: "mission_db \<Rightarrow> pystr \<Rightarrow> nat" where
  "turns_below d m = (let ids = mission_subtree d m in length (filter (\<lambda>e. turn_event e \<and> List.member ids (me_mission e)) (md_events d)))"

primrec turns_left :: "pyhost \<Rightarrow> mission_db \<Rightarrow> (runtime_row \<times> mission_row) list \<Rightarrow> bool result" where
  "turns_left H d [] = Inr True"
| "turns_left H d (x # xs) =
     bind_result (leash_int H (jl (mi_leash (snd x))) ''max_total_steps'' 1000) (\<lambda>cap.
       if cap \<le> int (turns_below d (rt_id (fst x))) then Inr False else turns_left H d xs)"

definition owns_live :: "int \<Rightarrow> mission_db \<Rightarrow> pystr \<Rightarrow> pystr \<Rightarrow> bool" where
  "owns_live now d m tok \<longleftrightarrow> list_ex (\<lambda>r. owned_by [J_RUNNING] m tok r \<and> now < mi_lease r) (md_missions d)"

definition count_turn :: "pystr \<Rightarrow> bool \<Rightarrow> mission_db \<Rightarrow> mission_db" where
  "count_turn m model_call d = update_runtime (\<lambda>r. rt_id r = m) (\<lambda>r. r\<lparr>rt_used := (rt_used r)\<lparr>
     ct_calls := (if model_call then ct_calls (rt_used r) + 1 else ct_calls (rt_used r)), ct_turns := ct_turns (rt_used r) + 1\<rparr>\<rparr>) d"

definition reserve_decision :: "mission_env \<Rightarrow> pystr \<Rightarrow> pystr option \<Rightarrow> bool \<Rightarrow> pystr \<Rightarrow> int \<Rightarrow> mission_db \<Rightarrow> bool result \<times> mission_db" where
  "reserve_decision E m run_token model_call purpose now d =
     (if (case run_token of None \<Rightarrow> False | Some t \<Rightarrow> \<not> owns_live now d m t) then (Inr False, d)
      else case lineage d m of
          Inl _ \<Rightarrow> (Inr False, d)
        | Inr rows \<Rightarrow>
            (case bind_result (mission_budget_reason E now d m) (\<lambda>why. if why \<noteq> [] then Inr False else turns_left (mv_host E) d rows) of
               Inl e \<Rightarrow> (Inl e, d)
             | Inr False \<Rightarrow> (Inr False, d)
             | Inr True \<Rightarrow> (Inr True, count_turn m model_call (add_mission_event m (if model_call then u ''decision'' else u ''planning_turn'')
                 (take 80 (or_str purpose (u ''model''))) [] [] now d))))"

text \<open>\<open>int(leash.get("max_model_calls", ...) or 0)\<close>.\<close>

definition calls_cap :: "pyhost \<Rightarrow> pydict \<Rightarrow> int result" where
  "calls_cap H leash =
     (let v = (case dget leash (u ''max_model_calls'') of Some v \<Rightarrow> v
         | None \<Rightarrow> (case dget leash (u ''max_total_steps'') of Some v \<Rightarrow> v | None \<Rightarrow> JInt 1000))
      in int_or_zero H v)"

primrec calls_left :: "pyhost \<Rightarrow> mission_db \<Rightarrow> (runtime_row \<times> mission_row) list \<Rightarrow> int list result" where
  "calls_left H d [] = Inr []"
| "calls_left H d (x # xs) =
     bind_result (calls_cap H (jl (mi_leash (snd x)))) (\<lambda>cap.
     bind_result (calls_left H d xs) (\<lambda>cs.
       Inr (if 0 < cap then max 0 (cap - int (ct_calls (aggregate d (rt_id (fst x))))) # cs else cs)))"

definition remaining_model_calls :: "pyhost \<Rightarrow> mission_db \<Rightarrow> pystr \<Rightarrow> int result" where
  "remaining_model_calls H d m =
     (case lineage d m of
        Inl _ \<Rightarrow> Inr 0
      | Inr rows \<Rightarrow> bind_result (calls_left H d rows) (\<lambda>cs. Inr (case cs of [] \<Rightarrow> 2 ^ 31 - 1 | c # cs' \<Rightarrow> fold min cs' c)))"

primrec calls_open :: "pyhost \<Rightarrow> mission_db \<Rightarrow> (runtime_row \<times> mission_row) list \<Rightarrow> bool result" where
  "calls_open H d [] = Inr True"
| "calls_open H d (x # xs) =
     bind_result (calls_cap H (jl (mi_leash (snd x)))) (\<lambda>cap.
       if int_exhausted cap (int (ct_calls (aggregate d (rt_id (fst x))))) then Inr False else calls_open H d xs)"

definition owner_fingerprint :: "pyhost \<Rightarrow> pystr \<Rightarrow> pystr" where
  "owner_fingerprint H tok = take 24 (sha256_hex H tok)"

definition count_call :: "pystr \<Rightarrow> mission_db \<Rightarrow> mission_db" where
  "count_call m d = update_runtime (\<lambda>r. rt_id r = m) (\<lambda>r. r\<lparr>rt_used := (rt_used r)\<lparr>ct_calls := ct_calls (rt_used r) + 1\<rparr>\<rparr>) d"

definition reserve_model_request :: "pyhost \<Rightarrow> pystr \<Rightarrow> pystr \<Rightarrow> pystr \<Rightarrow> pystr \<Rightarrow> pystr \<Rightarrow> pystr \<Rightarrow> int \<Rightarrow> mission_db \<Rightarrow> bool result \<times> mission_db" where
  "reserve_model_request H m run_token request provider model purpose now d =
     (let owner = owner_fingerprint H run_token in
      if request = [] \<or> run_token = [] \<or> \<not> owns_live now d m run_token then (Inr False, d)
      else case List.find (\<lambda>q. rq_id q = request) (md_requests d) of
          Some q \<Rightarrow> (Inr (rq_mission q = m \<and> rq_owner q = owner), d)
        | None \<Rightarrow>
            (case lineage d m of
               Inl _ \<Rightarrow> (Inr False, d)
             | Inr rows \<Rightarrow>
                 (case calls_open H d rows of
                    Inl e \<Rightarrow> (Inl e, d)
                  | Inr False \<Rightarrow> (Inr False, d)
                  | Inr True \<Rightarrow> (Inr True, count_call m (d\<lparr>md_requests := md_requests d @ [\<lparr>rq_id = request, rq_mission = m, rq_owner = owner,
                      rq_provider = take 80 provider, rq_model = take 160 model, rq_purpose = take 80 purpose, rq_reserved = now,
                      rq_completed = 0, rq_outcome = u ''reserved''\<rparr>]\<rparr>)))))"

definition complete_model_request :: "pystr \<Rightarrow> pystr \<Rightarrow> int \<Rightarrow> mission_db \<Rightarrow> bool \<times> mission_db" where
  "complete_model_request request outcome now d =
     (let hit = (\<lambda>q. rq_id q = request \<and> rq_completed q = 0) in
      (length (filter hit (md_requests d)) = 1,
       d\<lparr>md_requests := map (\<lambda>q. if hit q then q\<lparr>rq_completed := now, rq_outcome := take 80 (or_str outcome (u ''completed''))\<rparr> else q) (md_requests d)\<rparr>))"

subsection \<open>Action keys\<close>

definition bind_action_key :: "pystr \<Rightarrow> pystr \<Rightarrow> pystr \<Rightarrow> pystr \<Rightarrow> mission_db \<Rightarrow> bool \<times> mission_db" where
  "bind_action_key m key nonce run_token d =
     (let hit = (\<lambda>k. ak_mission k = m \<and> ak_key k = key \<and> ak_owner k = run_token \<and> ak_state k = reserved \<and> owns [J_RUNNING] d m run_token) in
      if key = [] then (True, d)
      else (length (filter hit (md_keys d)) = 1,
        d\<lparr>md_keys := map (\<lambda>k. if hit k then k\<lparr>ak_nonce := nonce, ak_state := materialized\<rparr> else k) (md_keys d)\<rparr>))"

definition drop_keys :: "(action_key \<Rightarrow> bool) \<Rightarrow> pystr \<Rightarrow> string \<Rightarrow> int \<Rightarrow> mission_db \<Rightarrow> nat \<times> mission_db" where
  "drop_keys hit m reason now d =
     (let gone = filter hit (md_keys d) in
      (length gone, retract_keys m ''release'' reason now gone (d\<lparr>md_keys := filter (\<lambda>k. \<not> hit k) (md_keys d)\<rparr>)))"

definition release_action_key :: "pystr \<Rightarrow> pystr \<Rightarrow> pystr \<Rightarrow> int \<Rightarrow> mission_db \<Rightarrow> bool \<times> mission_db" where
  "release_action_key m key run_token now d =
     (if key = [] then (True, d)
      else
        let (n, d1) = drop_keys (\<lambda>k. ak_mission k = m \<and> ak_key k = key \<and> ak_owner k = run_token \<and> open_key k
              \<and> owns [J_RUNNING, J_PAUSING] d m run_token) m ''proven no side effect before release'' now d
        in (n = 1, d1))"

definition release_action_nonces :: "pystr \<Rightarrow> pystr list \<Rightarrow> int \<Rightarrow> mission_db \<Rightarrow> nat \<times> mission_db" where
  "release_action_nonces m nonces now d =
     (let ns = filter (\<lambda>n. n \<noteq> []) nonces in
      if ns = [] then (0, d)
      else drop_keys (\<lambda>k. ak_mission k = m \<and> List.member ns (ak_nonce k) \<and> ak_state k = materialized) m
        ''action record proves no side effect'' now d)"

definition complete_action_key :: "pystr \<Rightarrow> pystr \<Rightarrow> pystr \<Rightarrow> mission_db \<Rightarrow> mission_db" where
  "complete_action_key m nonce s d =
     d\<lparr>md_keys := map (\<lambda>k. if ak_mission k = m \<and> ak_nonce k = nonce then k\<lparr>ak_state := s\<rparr> else k) (md_keys d)\<rparr>"

fun insert_keys :: "action_key list \<Rightarrow> action_key list \<Rightarrow> action_key list" where
  "insert_keys [] ks = ks"
| "insert_keys (k # new) ks =
     insert_keys new (if list_ex (\<lambda>x. ak_mission x = ak_mission k \<and> ak_key x = ak_key k) ks then ks else ks @ [k])"

definition inherit_completed_action_keys :: "pystr \<Rightarrow> pystr \<Rightarrow> mission_db \<Rightarrow> nat \<times> mission_db" where
  "inherit_completed_action_keys source target d =
     (let new = map (\<lambda>k. k\<lparr>ak_mission := target, ak_owner := [], ak_reservation := []\<rparr>)
            (filter (\<lambda>k. ak_mission k = source \<and> \<not> open_key k) (md_keys d));
          ks = insert_keys new (md_keys d)
      in (length ks - length (md_keys d), d\<lparr>md_keys := ks\<rparr>))"

text \<open>\<open>do_not_repeat\<close> and \<open>completed_action_nonces\<close>: what later planning must not propose again.\<close>

definition newest_keys :: "mission_db \<Rightarrow> pystr \<Rightarrow> (action_key \<Rightarrow> bool) \<Rightarrow> nat \<Rightarrow> action_key list" where
  "newest_keys d m keep n = take n (sort_key (\<lambda>k. - ak_at k) (filter (\<lambda>k. ak_mission k = m \<and> \<not> open_key k \<and> keep k) (md_keys d)))"

definition completed_action_nonces :: "mission_db \<Rightarrow> pystr \<Rightarrow> nat \<Rightarrow> pystr list" where
  "completed_action_nonces d m n = map ak_nonce (newest_keys d m (\<lambda>k. ak_nonce k \<noteq> []) n)"

subsection \<open>Listings\<close>

definition list_missions :: "mission_db \<Rightarrow> job_state option \<Rightarrow> mission_row list" where
  "list_missions d s = sort_key mi_created (filter (\<lambda>r. case s of None \<Rightarrow> True | Some x \<Rightarrow> mi_state r = x) (md_missions d))"

text \<open>\<open>queued_fair\<close>: least recently dispatched first, then by the time of change and creation.\<close>

definition queued_fair :: "mission_db \<Rightarrow> nat \<Rightarrow> pystr \<Rightarrow> mission_row list" where
  "queued_fair d n lane =
     (let rows = concat (map (\<lambda>q. map (\<lambda>r. ([rt_dispatched r, mi_updated q, mi_created q], q))
            (filter (\<lambda>r. rt_id r = mi_id q \<and> rt_lane r = lane) (md_runtime d))) (filter (\<lambda>q. mi_state q = J_QUEUED) (md_missions d)))
      in take (max 1 n) (map snd (sort_key fst rows)))"

end
