(* ===== verification/MissionMoves.thy ===== *)
theory MissionMoves
  imports MissionNotes MissionWork Latch
begin

text \<open>
  The life of a mission as an abstract state machine, and the proof that every operation of
  \<open>MissionStore\<close> moves every mission only along it. \<open>row_move T\<close> is one move of a row by an
  operation that issues tokens of \<open>T\<close>; \<open>store_moves\<close> says that a whole operation moves the
  rows that way, keeps parents and lanes, and only appends to the ledger and the events.
\<close>

subsection \<open>The state machine\<close>

definition idle_state :: "job_state \<Rightarrow> bool" where
  "idle_state s \<longleftrightarrow> \<not> List.member [J_RUNNING, J_PAUSING, J_RECONCILING] s"

definition same_mission :: "mission_row \<Rightarrow> mission_row \<Rightarrow> bool" where
  "same_mission r s \<longleftrightarrow> mi_id s = mi_id r \<and> mi_goal s = mi_goal r \<and> mi_leash s = mi_leash r \<and> mi_created s = mi_created r"

text \<open>
  What an operation may do to a mission: give it a new token, leave it as the holder of a
  token, expire it where its worker's end is confirmed, ask it to pause, cancel it, end its
  cleanup as the holder of a token, carry a person's answer to it, drop its action keys, or end it as verified.
\<close>

datatype right = TOKEN pystr | LEAVE pystr | EXPIRE "pystr \<Rightarrow> bool" | ASK_PAUSE pystr | CANCEL pystr | CLEANED pystr pystr | ANSWER pystr
  | DROP pystr | VERIFIES pystr

inductive row_move :: "right set \<Rightarrow> mission_row \<Rightarrow> mission_row \<Rightarrow> bool" for T where
  meta: "same_mission r s \<Longrightarrow> mi_state s = mi_state r \<Longrightarrow> mi_token s = mi_token r \<Longrightarrow> mi_from s = mi_from r
    \<Longrightarrow> terminal_mission (mi_state r) \<longrightarrow> mi_result s = mi_result r \<Longrightarrow> row_move T r s"
| claim: "same_mission r s \<Longrightarrow> List.member [J_QUEUED, J_WAITING, J_NEEDS_YOU] (mi_state r) \<Longrightarrow> mi_token r = []
    \<Longrightarrow> mi_state s = J_RUNNING \<Longrightarrow> TOKEN (mi_token s) \<in> T \<Longrightarrow> mi_from s = mi_from r \<Longrightarrow> row_move T r s"
| corrupt: "same_mission r s \<Longrightarrow> List.member [J_QUEUED, J_WAITING, J_NEEDS_YOU] (mi_state r) \<Longrightarrow> mi_token r = []
    \<Longrightarrow> mi_state s = J_RECOVERY_REQUIRED \<Longrightarrow> mi_token s = [] \<Longrightarrow> mi_from s = mi_from r \<Longrightarrow> row_move T r s"
| lose: "LEAVE (mi_token r) \<in> T \<or> (\<exists>c. EXPIRE c \<in> T \<and> c (mi_id r)) \<Longrightarrow> same_mission r s \<Longrightarrow> working (mi_state r) \<Longrightarrow> idle_state (mi_state s)
    \<Longrightarrow> mi_state s = J_DONE_VERIFIED \<longrightarrow> VERIFIES (mi_id r) \<in> T \<Longrightarrow> mi_token s = [] \<Longrightarrow> mi_from s = mi_from r \<Longrightarrow> row_move T r s"
| ask_pause: "ASK_PAUSE (mi_id r) \<in> T \<Longrightarrow> same_mission r s \<Longrightarrow> mi_state r = J_RUNNING \<Longrightarrow> mi_state s = J_PAUSING \<Longrightarrow> mi_token s = mi_token r
    \<Longrightarrow> mi_from s = Some J_QUEUED \<Longrightarrow> row_move T r s"
| pause: "same_mission r s \<Longrightarrow> List.member [J_QUEUED, J_WAITING, J_NEEDS_YOU] (mi_state r) \<Longrightarrow> mi_state s = J_PAUSED
    \<Longrightarrow> mi_token s = [] \<or> mi_token s = mi_token r \<Longrightarrow> mi_from s = Some (mi_state r) \<Longrightarrow> row_move T r s"
| resume: "same_mission r s \<Longrightarrow> mi_state r = J_PAUSED \<Longrightarrow> mi_state s = resume_target r \<Longrightarrow> mi_token s = mi_token r
    \<Longrightarrow> mi_from s = None \<Longrightarrow> row_move T r s"
| cancel: "CANCEL (mi_id r) \<in> T \<Longrightarrow> same_mission r s \<Longrightarrow> \<not> terminal_mission (mi_state r) \<Longrightarrow> mi_state s = J_CANCELLED \<Longrightarrow> mi_token s = []
    \<Longrightarrow> mi_from s = mi_from r \<Longrightarrow> row_move T r s"
| cleanup: "same_mission r s \<Longrightarrow> mi_state r = J_RECOVERY_REQUIRED \<or> mi_state r = J_RECONCILING \<Longrightarrow> mi_state s = J_RECONCILING
    \<Longrightarrow> TOKEN (mi_token s) \<in> T \<or> mi_token s = [] \<Longrightarrow> mi_from s = mi_from r \<Longrightarrow> row_move T r s"
| cleaned: "CLEANED (mi_id r) (mi_token r) \<in> T \<Longrightarrow> same_mission r s \<Longrightarrow> mi_state r = J_RECONCILING \<Longrightarrow> mi_state s = J_QUEUED \<Longrightarrow> mi_token s = []
    \<Longrightarrow> mi_from s = mi_from r \<Longrightarrow> row_move T r s"
| answered: "ANSWER (mi_id r) \<in> T \<Longrightarrow> same_mission r s \<Longrightarrow> mi_state r = J_NEEDS_YOU \<Longrightarrow> mi_token r = [] \<Longrightarrow> mi_state s = J_QUEUED \<or> mi_state s = J_DONE_ACCEPTED
    \<Longrightarrow> mi_token s = [] \<Longrightarrow> mi_from s = mi_from r \<Longrightarrow> row_move T r s"

inductive_cases row_move_cases: "row_move T r s"

definition row_moves :: "right set \<Rightarrow> mission_row \<Rightarrow> mission_row \<Rightarrow> bool" where
  "row_moves T = (row_move T)\<^sup>*\<^sup>*"

definition same_runtime :: "runtime_row \<Rightarrow> runtime_row \<Rightarrow> bool" where
  "same_runtime r s \<longleftrightarrow> rt_id s = rt_id r \<and> rt_parent s = rt_parent r \<and> rt_lane s = rt_lane r"

definition same_pending :: "pending_note \<Rightarrow> pending_note \<Rightarrow> bool" where
  "same_pending p q \<longleftrightarrow> pn_id q = pn_id p \<and> pn_mission q = pn_mission p \<and> pn_client q = pn_client p \<and> pn_note q = pn_note p
     \<and> pn_source q = pn_source p \<and> pn_at q = pn_at p \<and> (pn_state p \<noteq> PN_PENDING \<longrightarrow> q = p)"

text \<open>An event that no budget counts.\<close>

definition quiet :: "mission_event \<Rightarrow> bool" where
  "quiet e \<longleftrightarrow> me_kind e \<noteq> proposed_irreversible \<and> \<not> turn_event e"

definition quietly_grown :: "bool \<Rightarrow> mission_event list \<Rightarrow> mission_event list \<Rightarrow> bool" where
  "quietly_grown q es fs \<longleftrightarrow> grown (=) es fs \<and> (q \<longrightarrow> list_all quiet (drop (length es) fs))"

text \<open>New pending notes are only for missions that are not over.\<close>

definition closed_to :: "mission_db \<Rightarrow> pending_note \<Rightarrow> bool" where
  "closed_to d p \<longleftrightarrow> list_ex (\<lambda>r. mi_id r = pn_mission p \<and> terminal_mission (mi_state r)) (md_missions d)"

definition pending_moves :: "mission_db \<Rightarrow> pending_note list \<Rightarrow> pending_note list \<Rightarrow> bool" where
  "pending_moves d ps qs \<longleftrightarrow> grown same_pending ps qs \<and> (numbered pn_id ps \<longrightarrow> numbered pn_id qs)
     \<and> list_all (\<lambda>p. \<not> closed_to d p) (drop (length ps) qs)"

text \<open>The identities of the messages in a ledger: no message is in it twice.\<close>

definition message_refs :: "human_note list \<Rightarrow> (pystr \<times> pystr) list" where
  "message_refs ns = map (\<lambda>n. (hn_mission n, hn_ref n)) (filter (\<lambda>n. hn_ref n \<noteq> []) ns)"

definition notes_move :: "human_note list \<Rightarrow> human_note list \<Rightarrow> bool" where
  "notes_move ns ms \<longleftrightarrow> grown (=) ns ms \<and> (numbered hn_id ns \<longrightarrow> numbered hn_id ms)
     \<and> (distinct (message_refs ns) \<longrightarrow> distinct (message_refs ms))"

definition keys_move :: "right set \<Rightarrow> action_key list \<Rightarrow> action_key list \<Rightarrow> bool" where
  "keys_move T ks ls \<longleftrightarrow> (\<forall>k \<in> set ks. DROP (ak_mission k) \<in> T \<or> (\<exists>j \<in> set ls. ak_mission j = ak_mission k \<and> ak_key j = ak_key k))"

definition leases_move :: "lease_row list \<Rightarrow> lease_row list \<Rightarrow> bool" where
  "leases_move ls ks \<longleftrightarrow> (distinct (map lr_resource ls) \<longrightarrow> distinct (map lr_resource ks))"

definition same_wake :: "wake_row \<Rightarrow> wake_row \<Rightarrow> bool" where
  "same_wake w v \<longleftrightarrow> wk_id v = wk_id w \<and> wk_mission v = wk_mission w \<and> wk_fire v = wk_fire w \<and> wk_created v = wk_created w
     \<and> (wk_state w \<noteq> WK_PENDING \<longrightarrow> v = w)"

definition wakes_move :: "wake_row list \<Rightarrow> wake_row list \<Rightarrow> bool" where
  "wakes_move ws vs \<longleftrightarrow> grown same_wake ws vs \<and> (numbered wk_id ws \<longrightarrow> numbered wk_id vs)"

definition store_moves :: "right set \<Rightarrow> bool \<Rightarrow> mission_db \<Rightarrow> mission_db \<Rightarrow> bool" where
  "store_moves T q d d' \<longleftrightarrow> list_all2 (row_moves T) (md_missions d) (md_missions d')
     \<and> list_all2 same_runtime (md_runtime d) (md_runtime d') \<and> notes_move (md_notes d) (md_notes d')
     \<and> pending_moves d (md_pending d) (md_pending d') \<and> quietly_grown q (md_events d) (md_events d')
     \<and> leases_move (md_leases d) (md_leases d') \<and> wakes_move (md_wakes d) (md_wakes d')
     \<and> keys_move T (md_keys d) (md_keys d')"

lemma row_moves_refl [simp]: "row_moves T r r" by (simp add: row_moves_def)

lemma row_moves_one: "row_move T r s \<Longrightarrow> row_moves T r s" by (simp add: row_moves_def)

lemma row_moves_trans: "row_moves T r s \<Longrightarrow> row_moves T s t \<Longrightarrow> row_moves T r t"
  by (simp add: row_moves_def)

lemma same_pending_refl [simp]: "same_pending p p" by (simp add: same_pending_def)

lemma same_runtime_refl [simp]: "same_runtime p p" by (simp add: same_runtime_def)

lemma quietly_grown_refl [simp]: "quietly_grown q es es" by (simp add: quietly_grown_def grown_iff)

lemma quietly_grown_trans: "quietly_grown q es fs \<Longrightarrow> quietly_grown q fs gs \<Longrightarrow> quietly_grown q es gs"
  by (auto simp: quietly_grown_def grown_eq)

lemma notes_move_refl [simp]: "notes_move ns ns" by (simp add: notes_move_def grown_iff)

lemma notes_move_trans: "notes_move a b \<Longrightarrow> notes_move b c \<Longrightarrow> notes_move a c"
  by (auto simp: notes_move_def grown_eq)

lemma same_wake_refl [simp]: "same_wake w w" by (simp add: same_wake_def)

lemma same_wake_trans: "same_wake x y \<Longrightarrow> same_wake y z \<Longrightarrow> same_wake x z"
  unfolding same_wake_def by metis

lemma wakes_move_refl [simp]: "wakes_move ws ws" by (simp add: wakes_move_def grown_iff)

lemma wakes_move_trans: "wakes_move a b \<Longrightarrow> wakes_move b c \<Longrightarrow> wakes_move a c"
  unfolding wakes_move_def by (metis grown_trans same_wake_trans)

lemma keys_move_refl [simp]: "keys_move T ks ks" by (auto simp: keys_move_def)

lemma keys_move_trans: "keys_move T a b \<Longrightarrow> keys_move T b c \<Longrightarrow> keys_move T a c"
  unfolding keys_move_def by metis

lemma leases_move_refl [simp]: "leases_move ls ls" by (simp add: leases_move_def)

lemma pending_moves_refl [simp]: "pending_moves d ps ps" by (simp add: pending_moves_def grown_iff)

lemma same_pending_trans: "same_pending x y \<Longrightarrow> same_pending y z \<Longrightarrow> same_pending x z"
  unfolding same_pending_def by metis

lemma row_move_identity: "row_move T r s \<Longrightarrow> same_mission r s"
  by (erule row_move_cases) simp_all

lemma row_moves_identity: "row_moves T r s \<Longrightarrow> same_mission r s"
  unfolding row_moves_def by (induction rule: rtranclp_induct) (auto simp: same_mission_def dest!: row_move_identity)

text \<open>A mission that is over stays over, with its result.\<close>

lemma row_move_terminal:
  "row_move T r s \<Longrightarrow> terminal_mission (mi_state r) \<Longrightarrow> mi_state s = mi_state r \<and> mi_result s = mi_result r"
  by (erule row_move_cases) (auto simp: terminal_mission_def terminal_job_states_def working_def)

lemma row_moves_terminal:
  "row_moves T r s \<Longrightarrow> terminal_mission (mi_state r) \<Longrightarrow> mi_state s = mi_state r \<and> mi_result s = mi_result r"
  unfolding row_moves_def by (induction rule: rtranclp_induct) (auto dest!: row_move_terminal)

lemma closed_to_moves:
  assumes "list_all2 (row_moves T) (md_missions a) (md_missions b)" "closed_to a p"
  shows "closed_to b p"
proof -
  obtain r where r: "r \<in> set (md_missions a)" "mi_id r = pn_mission p" "terminal_mission (mi_state r)"
    using assms(2) by (auto simp: closed_to_def list_ex_iff)
  then obtain s where "s \<in> set (md_missions b)" "row_moves T r s"
    using assms(1) by (metis in_set_conv_nth list_all2_conv_all_nth)
  with r show ?thesis
    using row_moves_identity [of T r s] row_moves_terminal [of T r s] by (auto simp: closed_to_def list_ex_iff same_mission_def)
qed

lemma pending_moves_trans:
  assumes "pending_moves a ps qs" "pending_moves b qs rs" "\<And>p. closed_to a p \<Longrightarrow> closed_to b p"
  shows "pending_moves a ps rs"
proof -
  have len: "length ps \<le> length qs" "length qs \<le> length rs" using assms by (auto simp: pending_moves_def dest: grown_length)
  have "\<not> closed_to a (rs ! i)" if i: "length ps \<le> i" "i < length rs" for i
  proof (cases "i < length qs")
    case True
    have "same_pending (qs ! i) (rs ! i)" using assms(2) True by (auto simp: pending_moves_def dest: grown_nth)
    moreover have "\<not> closed_to a (qs ! i)"
      using assms(1) True i(1) by (auto simp: pending_moves_def list_all_length dest!: spec [of _ "i - length ps"])
    ultimately show ?thesis by (simp add: closed_to_def same_pending_def)
  next
    case False
    then have "\<not> closed_to b (rs ! i)"
      using assms(2) i(2) by (auto simp: pending_moves_def list_all_length dest!: spec [of _ "i - length qs"])
    with assms(3) show ?thesis by blast
  qed
  then have "list_all (\<lambda>p. \<not> closed_to a p) (drop (length ps) rs)" by (simp add: list_all_length)
  moreover have "grown same_pending ps rs"
    using assms(1,2) same_pending_trans unfolding pending_moves_def by (metis grown_trans)
  ultimately show ?thesis using assms(1,2) by (simp add: pending_moves_def)
qed

lemma store_moves_refl [simp]: "store_moves T q d d"
  by (simp add: store_moves_def list_all2_same)

lemma store_moves_trans:
  assumes "store_moves T q a b" "store_moves T q b c"
  shows "store_moves T q a c"
proof -
  have "list_all2 (row_moves T) (md_missions a) (md_missions c)"
    using assms list_all2_trans [of "row_moves T" "row_moves T" "row_moves T"] row_moves_trans
    unfolding store_moves_def by blast
  moreover have "list_all2 same_runtime (md_runtime a) (md_runtime c)"
    using assms list_all2_trans [of same_runtime same_runtime same_runtime]
    unfolding store_moves_def same_runtime_def by (metis (no_types, lifting))
  moreover have "pending_moves a (md_pending a) (md_pending c)"
    by (rule pending_moves_trans [of a _ "md_pending b" b]) (use assms closed_to_moves [of T a b] in \<open>auto simp: store_moves_def\<close>)
  moreover have "notes_move (md_notes a) (md_notes c)" using assms notes_move_trans unfolding store_moves_def by blast
  moreover have "quietly_grown q (md_events a) (md_events c)"
    using assms quietly_grown_trans unfolding store_moves_def by blast
  moreover have "wakes_move (md_wakes a) (md_wakes c)" using assms wakes_move_trans unfolding store_moves_def by blast
  moreover have "keys_move T (md_keys a) (md_keys c)" using assms keys_move_trans unfolding store_moves_def by blast
  ultimately show ?thesis using assms by (simp add: store_moves_def leases_move_def)
qed

subsection \<open>The statements\<close>

named_theorems moves \<open>what a statement adds to the moves of the store\<close>

lemma list_all2_map_if: "(\<And>x. x \<in> set xs \<Longrightarrow> hit x \<Longrightarrow> R x (f x)) \<Longrightarrow> (\<And>x. R x x) \<Longrightarrow> list_all2 R xs (map (\<lambda>x. if hit x then f x else x) xs)"
  by (induction xs) auto

lemma moves_update_missions:
  assumes "store_moves T q a d" "\<And>r. r \<in> set (md_missions d) \<Longrightarrow> hit r \<Longrightarrow> row_move T r (f r)"
  shows "store_moves T q a (snd (update_missions hit f d))"
proof (rule store_moves_trans [OF assms(1)])
  show "store_moves T q d (snd (update_missions hit f d))"
    unfolding store_moves_def update_missions_def
    by (simp add: list_all2_same) (rule list_all2_map_if, rule row_moves_one, erule (1) assms(2), simp)
qed

lemma moves_update_runtime [moves]:
  assumes "store_moves T q a d" "\<And>r. same_runtime r (f r)"
  shows "store_moves T q a (update_runtime hit f d)"
proof (rule store_moves_trans [OF assms(1)])
  show "store_moves T q d (update_runtime hit f d)"
    by (auto simp: store_moves_def update_runtime_def list_all2_same intro!: list_all2_map_if assms(2))
qed

lemma moves_event [moves]:
  assumes "store_moves T q a d" "q \<Longrightarrow> kind \<noteq> proposed_irreversible \<and> kind \<noteq> u ''decision'' \<and> kind \<noteq> u ''planning_turn''"
  shows "store_moves T q a (add_mission_event m kind name nonce p now d)"
proof (rule store_moves_trans [OF assms(1)])
  show "store_moves T q d (add_mission_event m kind name nonce p now d)"
    using assms(2) by (auto simp: store_moves_def add_mission_event_def list_all2_same grown_iff quietly_grown_def nth_append quiet_def turn_event_def)
qed

lemma moves_other [moves]:
  "store_moves T q a d \<Longrightarrow> store_moves T q a (d\<lparr>md_steps := s\<rparr>)"
  "store_moves T q a d \<Longrightarrow> store_moves T q a (d\<lparr>md_requests := rs\<rparr>)"
  "store_moves T q a d \<Longrightarrow> store_moves T q a (d\<lparr>md_responses := rp\<rparr>)"
  "store_moves T q a d \<Longrightarrow> store_moves T q a (d\<lparr>md_checkpoints := c, md_next_checkpoint := n\<rparr>)"
  by (simp_all add: store_moves_def)

lemma moves_keys:
  assumes "store_moves T q a d" "keys_move T (md_keys d) k"
  shows "store_moves T q a (d\<lparr>md_keys := k\<rparr>)"
  by (rule store_moves_trans [OF assms(1)]) (use assms(2) in \<open>simp add: store_moves_def list_all2_same\<close>)

lemma keys_kept:
  "keys_move T ks (ks @ ls)"
  "(\<And>k. ak_mission (f k) = ak_mission k \<and> ak_key (f k) = ak_key k) \<Longrightarrow> keys_move T ks (map f ks)"
  "(\<And>k. hit k \<Longrightarrow> DROP (ak_mission k) \<in> T) \<Longrightarrow> keys_move T ks (filter (\<lambda>k. \<not> hit k) ks)"
  by (auto simp: keys_move_def)

lemma moves_wakes:
  assumes "store_moves T q a d" "wakes_move (md_wakes d) w"
  shows "store_moves T q a (d\<lparr>md_wakes := w\<rparr>)"
  by (rule store_moves_trans [OF assms(1)]) (use assms(2) in \<open>simp add: store_moves_def list_all2_same\<close>)

lemma wakes_settled:
  assumes "\<And>w. hit w \<Longrightarrow> wk_state w = WK_PENDING"
  shows "wakes_move ws (map (\<lambda>w. if hit w then w\<lparr>wk_state := s\<rparr> else w) ws)"
proof -
  have "map wk_id (map (\<lambda>w. if hit w then w\<lparr>wk_state := s\<rparr> else w) ws) = map wk_id ws" by simp
  moreover have "grown same_wake ws (map (\<lambda>w. if hit w then w\<lparr>wk_state := s\<rparr> else w) ws)"
    using assms by (intro grown_map) (auto simp: same_wake_def)
  ultimately show ?thesis unfolding wakes_move_def by (metis numbered_same)
qed

lemma moves_leases:
  assumes "store_moves T q a d" "leases_move (md_leases d) x"
  shows "store_moves T q a (d\<lparr>md_leases := x\<rparr>)"
  using assms by (simp add: store_moves_def leases_move_def)

lemma moves_delete_leases [moves]: "store_moves T q a d \<Longrightarrow> store_moves T q a (snd (delete_leases hit d))"
  by (simp add: delete_leases_def) (erule moves_leases, simp add: leases_move_def distinct_map_filter)

lemma moves_map_leases:
  assumes "store_moves T q a d" "\<And>l. lr_resource (f l) = lr_resource l"
  shows "store_moves T q a (d\<lparr>md_leases := map f (md_leases d)\<rparr>)"
  using assms(1) by (rule moves_leases) (simp add: leases_move_def assms(2) comp_def)

lemma moves_insert_lease: "store_moves T q a d \<Longrightarrow> insert_lease res m t until now d = Some d' \<Longrightarrow> store_moves T q a d'"
  by (auto simp: insert_lease_def leases_move_def list_ex_iff split: if_splits intro!: moves_leases)

lemma moves_if [moves]:
  "(b \<Longrightarrow> store_moves T q a x) \<Longrightarrow> (\<not> b \<Longrightarrow> store_moves T q a y) \<Longrightarrow> store_moves T q a (if b then x else y)"
  by simp

lemma moves_refresh_storage [moves]: "store_moves T q a d \<Longrightarrow> store_moves T q a (refresh_storage H m d)"
  by (simp add: refresh_storage_def) (rule moves_update_runtime, simp_all add: same_runtime_def)

lemma moves_started [moves]: "store_moves T q a d \<Longrightarrow> store_moves T q a (started m now d)"
  by (simp add: started_def) (rule moves_update_runtime, simp_all add: same_runtime_def)

lemma moves_phase [moves]: "store_moves T q a d \<Longrightarrow> store_moves T q a (phase_moves m p now d)"
  by (simp add: phase_moves_def) (rule moves_update_runtime, simp_all add: same_runtime_def)

lemma moves_runnable_again [moves]: "store_moves T q a d \<Longrightarrow> store_moves T q a (runnable_again m s now d)"
  by (simp add: runnable_again_def) (rule moves_update_runtime, simp_all add: same_runtime_def clear_human_def)

lemma moves_mark_human [moves]: "store_moves T q a d \<Longrightarrow> store_moves T q a (snd (mark_human H m leash now d))"
  by (auto simp: mark_human_def same_runtime_def split: sum.split intro!: moves_update_runtime)

lemma moves_settle_phase [moves]: "store_moves T q a d \<Longrightarrow> store_moves T q a (snd (settle_phase H m s now d))"
  unfolding settle_phase_def by (simp add: moves_mark_human) (simp add: moves_update_runtime same_runtime_def clear_human_def)

lemma moves_fold:
  assumes "\<And>x d. store_moves T q d (f x d)" "store_moves T q a d"
  shows "store_moves T q a (fold f xs d)"
  using assms(2) by (induction xs arbitrary: d) (simp_all add: store_moves_trans [OF _ assms(1)])

lemma moves_retract_keys [moves]: "store_moves T q a d \<Longrightarrow> store_moves T q a (retract_keys m name reason now ks d)"
  unfolding retract_keys_def by (rule moves_fold) (auto intro!: moves simp: retracted_def proposed_irreversible_def)

lemma moves_insert_note:
  assumes "store_moves T q a d" "nr_ref x \<noteq> [] \<Longrightarrow> (m, nr_ref x) \<notin> set (message_refs (md_notes d))"
  shows "store_moves T q a (insert_note m now x d)"
  by (rule store_moves_trans [OF assms(1)])
    (use assms(2) in \<open>auto simp: store_moves_def insert_note_def list_all2_same notes_move_def message_refs_def grown_eq intro: numbered_append\<close>)

subsection \<open>The operations move along the state machine\<close>

text \<open>Each lemma names the move of the machine an operation makes.\<close>

lemmas move_facts = same_mission_def working_def idle_state_def owned_by_def unowned_in_def terminal_mission_def terminal_job_states_def

lemma moves_lose_run:
  assumes "store_moves T q a d" "\<And>r. hit r \<Longrightarrow> working (mi_state r) \<and> (LEAVE (mi_token r) \<in> T \<or> (\<exists>c. EXPIRE c \<in> T \<and> c (mi_id r)))" "idle_state s" "s \<noteq> J_DONE_VERIFIED"
  shows "store_moves T q a (snd (lose_run hit s why now d))"
  unfolding lose_run_def using assms
  by (intro moves_update_missions row_move.lose) (auto simp: same_mission_def)

lemma moves_meta:
  assumes "store_moves T q a d"
    "\<And>r. hit r \<Longrightarrow> same_mission r (f r) \<and> mi_state (f r) = mi_state r \<and> mi_token (f r) = mi_token r \<and> mi_from (f r) = mi_from r \<and> mi_result (f r) = mi_result r"
  shows "store_moves T q a (snd (update_missions hit f d))"
  using assms by (intro moves_update_missions row_move.meta) auto

lemma moves_take_run:
  assumes "store_moves T q a d" "TOKEN tok \<in> T" "\<And>r. hit r \<Longrightarrow> unowned_in [J_QUEUED, J_WAITING, J_NEEDS_YOU] m r"
  shows "store_moves T q a (snd (take_run hit tok lease now d))"
  unfolding take_run_def using assms
  by (intro moves_update_missions row_move.claim) (auto simp: same_mission_def unowned_in_def)

lemma moves_fire_wake [moves]: "store_moves T q a d \<Longrightarrow> store_moves T q a (snd (fire_wake i d))"
  unfolding fire_wake_def Let_def by (auto intro!: moves_wakes wakes_settled)

lemma moves_set_case [moves]:
  assumes "store_moves T q a d"
  shows "store_moves T q a (set_mission (\<lambda>r. r\<lparr>mi_case := c\<rparr>) m now d)"
  unfolding set_mission_def using assms by (rule moves_meta) (simp add: same_mission_def)

definition claimable_states :: "job_state list \<Rightarrow> bool" where
  "claimable_states ss \<longleftrightarrow> set ss \<subseteq> {J_QUEUED, J_WAITING, J_NEEDS_YOU}"

lemma claimable_unowned: "claimable_states ss \<Longrightarrow> unowned_in ss m r \<Longrightarrow> unowned_in [J_QUEUED, J_WAITING, J_NEEDS_YOU] m r"
  by (auto simp: claimable_states_def unowned_in_def)

lemma moves_claim_mission [moves]:
  assumes "store_moves T q a d" "claimable_states expected" "TOKEN tok \<in> T"
  shows "store_moves T q a (snd (claim_mission tok expected lease m now d))"
proof -
  have corrupt: "store_moves T q a (snd (update_missions (unowned_in expected m) (\<lambda>q. q\<lparr>mi_state := J_RECOVERY_REQUIRED, mi_result := w,
      mi_updated := now\<rparr>) d))" for w
    using claimable_unowned [OF assms(2)] assms(1)
    by (intro moves_update_missions row_move.corrupt) (auto simp: same_mission_def unowned_in_def)
  have run: "store_moves T q a (snd (take_run (unowned_in expected m) tok lease now (snd (delete_leases h d))))" for h
    using claimable_unowned [OF assms(2)] by (intro moves_take_run moves_delete_leases assms(1,3)) auto
  show ?thesis
    unfolding claim_mission_def
    by (auto simp: Let_def split_beta assms(1) corrupt intro!: moves_started run split: option.split)
qed

lemma moves_renew [moves]: "store_moves T q a d \<Longrightarrow> store_moves T q a (snd (renew ss m t secs now d))"
  unfolding renew_def by (simp add: split_beta Let_def) (erule moves_meta, simp add: same_mission_def)

lemma moves_renew_run [moves]: "store_moves T q a d \<Longrightarrow> store_moves T q a (snd (renew_run E m t secs now d))"
  unfolding renew_run_def by (auto simp: Let_def split_beta moves_renew split: option.split sum.split)

lemma moves_fence [moves]: "store_moves T q a d \<Longrightarrow> LEAVE t \<in> T \<Longrightarrow> store_moves T q a (snd (fence_mission m t p why now d))"
  unfolding fence_mission_def
  by (auto simp: split_beta Let_def move_facts intro!: moves moves_lose_run)

lemma moves_recover_mission:
  assumes "recover_mission E c now x rt d = Inr (b, d')" "EXPIRE c \<in> T"
  shows "store_moves T True d d'"
proof (cases "c (mi_id x)")
  case False
  then show ?thesis using assms by (auto simp: recover_mission_def proposed_irreversible_def intro!: moves)
next
  case True
  let ?m = "mi_id x" and ?phase = "case rt of None \<Rightarrow> [] | Some r \<Rightarrow> rt_phase r"
  obtain ms why where *: "(let d1 = (if ms = 0 then d else update_runtime (\<lambda>r. rt_id r = ?m) (charge_wall ms now) d);
      (s, w) = recovered_state (json_invalid (jl (mi_leash x))) (safe_phase ?phase) why;
      (n, d2) = lose_run (\<lambda>r. mi_id r = ?m \<and> working (mi_state r) \<and> mi_lease r \<le> now \<and> mi_token r = mi_token x) s w now d1 in
      (if n \<noteq> 0 then Inr (True, phase_moves ?m (if s = J_NEEDS_YOU then u ''budget_exhausted'' else if safe_phase ?phase then u ''recovered_safe''
                 else u ''recovery_required'') now d2)
       else if ms \<noteq> 0 then Inr (False, update_runtime (\<lambda>r. rt_id r = ?m) (\<lambda>r. r\<lparr>rt_used := (rt_used r)\<lparr>ct_wall := ct_wall (rt_used r) - ms\<rparr>\<rparr>) d2)
       else Inr (False, d2))) = (Inr (b, d') :: (bool \<times> mission_db) result)"
    using assms True unfolding recover_mission_def Let_def by (auto simp: bind_result_Inr_iff)
  define d1 where "d1 = (if ms = 0 then d else update_runtime (\<lambda>r. rt_id r = ?m) (charge_wall ms now) d)"
  have d1: "store_moves T True d d1" by (auto simp: d1_def charge_wall_def same_runtime_def intro!: moves)
  obtain s w where sw: "recovered_state (json_invalid (jl (mi_leash x))) (safe_phase ?phase) why = (s, w)" by fastforce
  then have s: "idle_state s" "s \<noteq> J_DONE_VERIFIED" by (auto simp: recovered_state_def idle_state_def split: if_splits)
  define hit :: "mission_row \<Rightarrow> bool" where "hit = (\<lambda>r. mi_id r = ?m \<and> working (mi_state r) \<and> mi_lease r \<le> now \<and> mi_token r = mi_token x)"
  define d2 where "d2 = snd (lose_run hit s w now d1)"
  have d2: "store_moves T True d d2"
    unfolding d2_def by (intro moves_lose_run d1 s) (use True assms(2) in \<open>auto simp: hit_def\<close>)
  have "d' = phase_moves ?m (if s = J_NEEDS_YOU then u ''budget_exhausted'' else if safe_phase ?phase then u ''recovered_safe''
        else u ''recovery_required'') now d2
      \<or> d' = update_runtime (\<lambda>r. rt_id r = ?m) (\<lambda>r. r\<lparr>rt_used := (rt_used r)\<lparr>ct_wall := ct_wall (rt_used r) - ms\<rparr>\<rparr>) d2 \<or> d' = d2"
    using * unfolding d1_def [symmetric] sw hit_def [symmetric] d2_def Let_def split_beta by (auto split: if_splits)
  with d2 show ?thesis by (auto simp: same_runtime_def intro!: moves)
qed

lemma moves_recover_each: "recover_each E c now rows n d = Inr (k, d') \<Longrightarrow> EXPIRE c \<in> T \<Longrightarrow> store_moves T True a d \<Longrightarrow> store_moves T True a d'"
proof (induction E c now rows n d rule: recover_each.induct)
  case (2 E c now x rt rows n d)
  then obtain b e where e: "recover_mission E c now x rt d = Inr (b, e)" "recover_each E c now rows (if b then n + 1 else n) e = Inr (k, d')"
    by (auto simp: bind_result_Inr_iff)
  from store_moves_trans [OF 2(4) moves_recover_mission [OF e(1) 2(3)]] have "store_moves T True a e" .
  with 2(1) [of "(b, e)"] 2(3) e show ?case by simp
qed auto

lemma moves_recover [moves]: "EXPIRE c \<in> T \<Longrightarrow> store_moves T True d (snd (recover_stale_runs E c now d))"
  unfolding recover_stale_runs_def by (auto split: sum.split intro: moves_recover_each)

lemma moves_finish [moves]:
  assumes "store_moves T q a d" "idle_state s" "s = J_DONE_VERIFIED \<longrightarrow> VERIFIES m \<in> T" "LEAVE t \<in> T"
  shows "store_moves T q a (snd (finish_mission H m t s res block now d))"
proof -
  have "store_moves T q a (snd (update_missions (owned_by [J_RUNNING] m t) (\<lambda>r. r\<lparr>mi_state := s, mi_token := [], mi_lease := 0,
      mi_result := (case res of None \<Rightarrow> mi_result r | Some x \<Rightarrow> x), mi_updated := now\<rparr>) d))"
    using assms by (intro moves_update_missions row_move.lose) (auto simp: move_facts)
  then show ?thesis
    unfolding finish_mission_def Let_def split_beta
    by (auto simp: assms(1) split: sum.split prod.split intro: moves_settle_phase)
qed

lemma moves_set_case_owned [moves]: "store_moves T q a d \<Longrightarrow> store_moves T q a (snd (set_case_owned H m t c now d))"
  unfolding set_case_owned_def Let_def split_beta
  by (auto simp: same_mission_def split: sum.split intro!: moves_meta)

lemma moves_add_step [moves]: "store_moves T q a d \<Longrightarrow> store_moves T q a (add_step m n x v now d)"
  by (simp add: add_step_def moves)

lemma moves_park [moves]:
  assumes "store_moves T q a d" "LEAVE t \<in> T"
  shows "store_moves T q a (snd (park_mission H m t n x res now d))"
proof -
  have "store_moves T q a (snd (lose_run (owned_by [J_RUNNING] m t) J_NEEDS_YOU w now d))" for w
    using assms by (intro moves_lose_run) (auto simp: move_facts)
  then show ?thesis
    unfolding park_mission_def Let_def split_beta
    by (auto simp: assms(1) split: sum.split prod.split intro!: moves_refresh_storage moves_settle_phase moves_add_step)
qed

lemma moves_settle_pausing [moves]:
  assumes "store_moves T q a d" "LEAVE t \<in> T"
  shows "store_moves T q a (snd (settle_pausing m t now d))"
proof -
  have "store_moves T q a (snd (lose_run (owned_by [J_PAUSING] m t) J_PAUSED w now d))" for w
    using assms by (intro moves_lose_run) (auto simp: move_facts)
  then show ?thesis unfolding settle_pausing_def Let_def split_beta by (auto simp: same_runtime_def intro!: moves)
qed

lemma moves_pause [moves]:
  assumes "store_moves T q a d" "ASK_PAUSE m \<in> T"
  shows "store_moves T q a (snd (pause_mission m now d))"
proof -
  let ?e = "snd (update_missions (\<lambda>r. mi_id r = m \<and> mi_state r = J_RUNNING \<and> mi_token r \<noteq> []) (\<lambda>r. r\<lparr>mi_state := J_PAUSING,
            mi_from := Some J_QUEUED, mi_result := u ''pause requested; waiting for current action boundary'', mi_updated := now\<rparr>) d)"
  have 1: "store_moves T q a ?e" using assms by (intro moves_update_missions row_move.ask_pause) (auto simp: same_mission_def)
  have "store_moves T q a (snd (update_missions (\<lambda>r. mi_id r = m \<and> List.member [J_QUEUED, J_WAITING, J_NEEDS_YOU] (mi_state r))
              (\<lambda>r. r\<lparr>mi_state := J_PAUSED, mi_from := Some (mi_state r), mi_token := [], mi_lease := 0,
                 mi_result := u ''paused by user'', mi_updated := now\<rparr>) ?e))"
    by (rule moves_update_missions [OF 1], rule row_move.pause) (auto simp: same_mission_def)
  with 1 show ?thesis
    unfolding pause_mission_def Let_def split_beta by (auto simp: same_runtime_def clear_human_def intro!: moves)
qed

lemma moves_resume_to:
  assumes "store_moves T q a d" "\<And>r. r \<in> set (md_missions d) \<Longrightarrow> mi_id r = m \<Longrightarrow> mi_state r = J_PAUSED \<Longrightarrow> resume_target r = s"
  shows "store_moves T q a (snd (resume_to H m s now d))"
proof -
  let ?e = "snd (update_missions (\<lambda>r. mi_id r = m \<and> mi_state r = J_PAUSED)
    (\<lambda>r. r\<lparr>mi_state := s, mi_from := None, mi_result := u ''resumed by user'', mi_updated := now\<rparr>) d)"
  have 1: "store_moves T q a ?e"
    using assms by (intro moves_update_missions row_move.resume) (auto simp: same_mission_def)
  have human: "store_moves T q a (snd (case mark_human H m l now ?e of (Inl e', _) \<Rightarrow> (Inl e', d) | (Inr _, d2) \<Rightarrow> (Inr (v :: job_state option), d2)))" for l v
    using moves_mark_human [OF 1, of H m l now] assms(1) by (auto split: prod.split sum.split)
  have run: "store_moves T q a (update_runtime (\<lambda>r. rt_id r = m) (\<lambda>r. r\<lparr>rt_phase := p, rt_progress := now\<rparr>) ?e)" for p
    using 1 by (rule moves_update_runtime) (simp add: same_runtime_def)
  show ?thesis
    using 1 human run unfolding resume_to_def Let_def by (cases "s = J_NEEDS_YOU") (simp_all add: split_beta)
qed

lemma moves_resume [moves]:
  assumes "store_moves T q a d" "distinct (map mi_id (md_missions d))"
  shows "store_moves T q a (snd (resume_paused H m now d))"
proof (cases "List.find (\<lambda>r. mi_id r = m \<and> mi_state r = J_PAUSED) (md_missions d)")
  case None
  then show ?thesis using assms by (simp add: resume_paused_def)
next
  case (Some x)
  then have x: "x \<in> set (md_missions d)" "mi_id x = m" by (auto simp: find_Some_iff)
  have "r = x" if "r \<in> set (md_missions d)" "mi_id r = m" for r
    using assms(2) x that by (metis distinct_map inj_onD)
  with assms(1) Some show ?thesis by (auto simp: resume_paused_def intro!: moves_resume_to)
qed

lemma moves_cancel [moves]:
  assumes "store_moves T q a d" "CANCEL m \<in> T"
  shows "store_moves T q a (snd (cancel_mission m res now d))"
proof -
  have "store_moves T q a (snd (lose_run (\<lambda>r. mi_id r = m \<and> \<not> terminal_mission (mi_state r)) J_CANCELLED w now d))" for w
    unfolding lose_run_def using assms by (intro moves_update_missions row_move.cancel) (auto simp: same_mission_def)
  then show ?thesis
    unfolding cancel_mission_def Let_def split_beta by (auto simp: same_runtime_def clear_human_def intro!: moves_if moves_update_runtime moves_delete_leases moves_wakes wakes_settled)
qed

lemma moves_release_reconcile [moves]: "store_moves T q a d \<Longrightarrow> store_moves T q a (snd (release_reconcile m t d))"
  unfolding release_reconcile_def Let_def split_beta
  by (auto simp: move_facts intro!: moves_update_missions row_move.cleanup)

lemma moves_owns_reconcile [moves]: "store_moves T q a d \<Longrightarrow> store_moves T q a (snd (owns_reconcile m t secs now d))"
  unfolding owns_reconcile_def Let_def split_beta by (auto simp: same_mission_def intro!: moves_meta)

lemma orphans_dropped:
  "store_moves T q a d \<Longrightarrow> DROP m \<in> T \<Longrightarrow> store_moves T q a (d\<lparr>md_keys := filter (\<lambda>k. \<not> orphan_key m k) (md_keys d)\<rparr>)"
  by (intro moves_keys keys_kept(3)) (simp_all add: orphan_key_def)

lemma moves_finish_reconcile [moves]:
  assumes "store_moves T q a d" "CLEANED m t \<in> T" "DROP m \<in> T"
  shows "store_moves T q a (snd (finish_reconcile m t now d))"
proof -
  have "store_moves T q a (snd (lose_run (owned_by [J_RECONCILING] m t) J_QUEUED w now d))" for w
    unfolding lose_run_def using assms by (intro moves_update_missions row_move.cleaned) (auto simp: move_facts)
  then show ?thesis
    unfolding finish_reconcile_def Let_def split_beta by (auto simp: assms intro!: moves orphans_dropped)
qed

lemma moves_accept [moves]:
  assumes "store_moves T q a d" "ANSWER m \<in> T"
  shows "store_moves T q a (snd (accept_handoff m now d))"
proof -
  have "store_moves T q a (snd (update_missions (unowned_in [J_NEEDS_YOU] m)
            (\<lambda>r. r\<lparr>mi_state := J_DONE_ACCEPTED, mi_result := u ''handed off to human'', mi_updated := now\<rparr>) d))"
    using assms by (intro moves_update_missions row_move.answered) (auto simp: move_facts)
  then show ?thesis
    unfolding accept_handoff_def Let_def split_beta by (auto simp: same_runtime_def clear_human_def intro!: moves)
qed

end
