(* ===== verification/NoteMoves.thy ===== *)
theory NoteMoves
  imports MissionMoves
begin

text \<open>
  The operations of \<open>MissionStore\<close> that admit instructions of a person move the missions only
  along the state machine, and settle a pending note once.
\<close>

text \<open>The operations that admit instructions.\<close>

lemma moves_backfill:
  assumes "backfill_ledger H m c now d = Inr d'"
  shows "store_moves T q d d'"
  using assms by (auto simp: backfill_ledger_def bind_result_Inr_iff intro!: moves_fold moves_insert_note)

text \<open>The loop of the admission passes over a message it has seen.\<close>

lemma admit_each_refs:
  "admit_each seen n c qs = Inr (new, dups) \<Longrightarrow>
    distinct (filter (\<lambda>r. r \<noteq> []) (map nr_ref new)) \<and> (\<forall>q \<in> set new. nr_ref q \<noteq> [] \<longrightarrow> map_of seen (nr_ref q) = None)"
proof (induction seen n c qs arbitrary: new dups rule: admit_each.induct)
  case (2 seen n c q qs)
  show ?case
  proof (cases "if nr_ref q = [] then None else map_of seen (nr_ref q)")
    case (Some i)
    then obtain ds where "admit_each seen n c qs = Inr (new, ds)"
      using 2(3) by (cases "admit_each seen n c qs") auto
    with 2(2) [OF Some] show ?thesis by blast
  next
    case None
    then obtain body where body: "admit_human_note (nr_text q) = Inr body"
      using 2(3) by (cases "admit_human_note (nr_text q)") auto
    let ?seen = "if nr_ref q = [] then seen else (nr_ref q, 0) # seen"
    have room: "\<not> n + 1 > ledger_max_notes" "\<not> c + length body > ledger_max_chars"
      using 2(3) None body by (auto split: if_splits)
    with 2(3) None body obtain rest where rest: "admit_each ?seen (n + 1) (c + length body) qs = Inr (rest, dups)" "new = q # rest"
      by (cases "admit_each ?seen (n + 1) (c + length body) qs") auto
    have ih: "distinct (filter (\<lambda>r. r \<noteq> []) (map nr_ref rest))" "\<forall>x \<in> set rest. nr_ref x \<noteq> [] \<longrightarrow> map_of ?seen (nr_ref x) = None"
      using 2(1) [OF None body room rest(1)] by blast+
    show ?thesis using ih rest(2) None by (auto split: if_splits)
  qed
qed simp

lemma moves_insert_all:
  assumes "store_moves T q a d" "distinct (filter (\<lambda>r. r \<noteq> []) (map nr_ref new))"
    "\<forall>x \<in> set new. nr_ref x \<noteq> [] \<longrightarrow> (m, nr_ref x) \<notin> set (message_refs (md_notes d))"
  shows "store_moves T q a (fold (insert_note m now) new d)"
  using assms
proof (induction new arbitrary: d)
  case (Cons x new)
  have "store_moves T q a (insert_note m now x d)" using Cons.prems by (intro moves_insert_note) auto
  moreover have "(m, nr_ref y) \<notin> set (message_refs (md_notes (insert_note m now x d)))"
    if y: "y \<in> set new" "nr_ref y \<noteq> []" for y
  proof -
    have "nr_ref y \<noteq> nr_ref x" using Cons.prems(2) y by (cases "nr_ref x = []") (auto simp: image_iff)
    then show ?thesis using Cons.prems(3) y by (auto simp: insert_note_def message_refs_def)
  qed
  ultimately show ?case using Cons.IH [of "insert_note m now x d"] Cons.prems(2) by (auto split: if_splits)
qed simp

lemma unseen_ref:
  assumes "map_of (seen_refs (ledger_rows d m)) r = None"
  shows "(m, r) \<notin> set (message_refs (md_notes d))"
  using assms by (force simp: map_of_eq_None_iff seen_refs_def ledger_rows_def message_refs_def)

lemma moves_admit:
  assumes "admit_notes H m c qs now d = Inr x"
  shows "case x of Inl (_, d') \<Rightarrow> store_moves T q d d' | Inr (_, _, d') \<Rightarrow> store_moves T q d d'"
proof -
  let ?b = "if ledger_rows d m = [] then backfill_ledger H m c now d else Inr d"
  obtain d1 where b: "?b = Inr d1" using assms by (cases ?b) (auto simp: admit_notes_def)
  then have 1: "store_moves T q d d1" by (auto simp: moves_backfill split: if_splits)
  have all: "store_moves T q d (fold (insert_note m now) new d1)"
    if "admit_each (seen_refs (ledger_rows d1 m)) n k qs = Inr (new, dups)" for n k new dups
    using admit_each_refs [OF that] by (intro moves_insert_all 1) (auto dest: unseen_ref)
  show ?thesis
    using assms 1 all unfolding admit_notes_def b
    by (auto simp: Let_def bind_result_Inr_iff split: sum.splits prod.splits)
qed

lemmas moves_admitted = moves_admit [where x = "Inr (c', i, d')" for c' i d', simplified]
  moves_admit [where x = "Inl (w, d')" for w d', simplified]

lemma moves_admit_into:
  assumes "store_moves T q a d" "\<And>r c. hit r \<Longrightarrow> row_move T r (move (r\<lparr>mi_case := c, mi_updated := now\<rparr>))"
  shows "store_moves T q a (snd (admit_into H hit m qs move now d))"
proof -
  have "store_moves T q a (snd (update_missions hit (\<lambda>r. move (r\<lparr>mi_case := Col c, mi_updated := now\<rparr>)) d'))"
    if "admit_notes H m k qs now d = Inr (Inr (c', i, d'))" for k c' i d' c
    using moves_admitted(1) [OF that] store_moves_trans [OF assms(1)] assms(2) by (intro moves_update_missions) auto
  then show ?thesis
    unfolding admit_into_def by (auto simp: assms(1) split: option.split sum.split prod.split)
qed

lemma moves_add_notes [moves]: "store_moves T q a d \<Longrightarrow> store_moves T q a (snd (add_human_notes_owned H m t qs now d))"
  unfolding add_human_notes_owned_def by (rule moves_admit_into) (auto simp: same_mission_def intro: row_move.meta)

lemma moves_seed_notes [moves]: "store_moves T q a d \<Longrightarrow> store_moves T q a (snd (seed_human_notes H m qs now d))"
  unfolding seed_human_notes_def by (rule moves_admit_into) (auto simp: same_mission_def intro: row_move.meta)

lemma moves_pending:
  assumes "store_moves T q a d" "pending_moves d (md_pending d) ps"
  shows "store_moves T q a (d\<lparr>md_pending := ps\<rparr>)"
  by (rule store_moves_trans [OF assms(1)]) (use assms(2) in \<open>simp add: store_moves_def list_all2_same\<close>)

text \<open>Pending notes that are changed in place.\<close>

lemma pending_in_place:
  assumes "grown same_pending ps qs" "length qs = length ps"
  shows "pending_moves d ps qs"
proof -
  have "map pn_id qs = map pn_id ps"
    using assms by (intro nth_equalityI) (auto simp: grown_iff same_pending_def)
  with assms show ?thesis by (auto simp: pending_moves_def intro: numbered_same)
qed

lemma moves_accept_pending [moves]:
  assumes "store_moves T q a d" "distinct (map mi_id (md_missions d))"
  shows "store_moves T q a (snd (accept_pending H m c x s now d))"
proof -
  have "pending_moves d (md_pending d) (md_pending d @ [new_pending d m c y s now])"
    if r: "mission_of d m = Some r" "note_open (mi_state r)" for y r
  proof -
    have "r' = r" if "r' \<in> set (md_missions d)" "mi_id r' = m" for r'
      using r(1) that assms(2) by (auto simp: mission_of_def find_Some_iff) (metis distinct_map inj_onD nth_mem)
    with r(2) have "\<not> closed_to d (new_pending d m c y s now)"
      by (auto simp: closed_to_def list_ex_iff new_pending_def note_open_def terminal_mission_def terminal_job_states_def)
    moreover have "numbered pn_id (md_pending d) \<Longrightarrow> numbered pn_id (md_pending d @ [new_pending d m c y s now])"
      by (erule numbered_append) (simp add: new_pending_def)
    ultimately show ?thesis by (simp add: pending_moves_def grown_iff nth_append)
  qed
  then show ?thesis
    unfolding accept_pending_def Let_def
    by (auto simp: assms(1) split: option.split sum.split bool.split intro!: moves_pending)
qed

lemma length_settle_each [simp]: "length (settle_each now dups fresh rows ps) = length ps"
  by (induction now dups fresh rows ps rule: settle_each.induct) (simp_all add: Let_def split_beta)

lemma grown_settle_each:
  "distinct (map pn_id ps) \<Longrightarrow> (\<forall>row \<in> set rows. \<exists>p \<in> set ps. pn_id p = pn_id row \<and> pn_state p = PN_PENDING)
    \<Longrightarrow> distinct (map pn_id rows) \<Longrightarrow> grown same_pending ps (settle_each now dups fresh rows ps)"
proof (induction now dups fresh rows ps rule: settle_each.induct)
  case (2 now dups fresh row rows ps)
  let ?i = "fst (case map_of dups (pending_ref row) of Some i \<Rightarrow> (i, fresh) | None \<Rightarrow> (case fresh of [] \<Rightarrow> (0, []) | f # fs \<Rightarrow> (f, fs)))"
  let ?rest = "snd (case map_of dups (pending_ref row) of Some i \<Rightarrow> (i, fresh) | None \<Rightarrow> (case fresh of [] \<Rightarrow> (0, []) | f # fs \<Rightarrow> (f, fs)))"
  let ?ps = "map (\<lambda>p. if pn_id p = pn_id row then p\<lparr>pn_state := PN_APPLIED, pn_note_id := ?i, pn_settled := now\<rparr> else p) ps"
  have one: "grown same_pending ps ?ps"
  proof (rule grown_map)
    fix p assume "p \<in> set ps"
    moreover obtain p' where "p' \<in> set ps" "pn_id p' = pn_id row" "pn_state p' = PN_PENDING" using 2(3) by auto
    ultimately have "pn_state p = PN_PENDING" if "pn_id p = pn_id row" using 2(2) that by (metis distinct_map inj_onD)
    then show "same_pending p (if pn_id p = pn_id row then p\<lparr>pn_state := PN_APPLIED, pn_note_id := ?i, pn_settled := now\<rparr> else p)"
      by (auto simp: same_pending_def)
  qed
  have ids: "map pn_id ?ps = map pn_id ps" by auto
  have rest: "\<forall>r \<in> set rows. \<exists>p \<in> set ?ps. pn_id p = pn_id r \<and> pn_state p = PN_PENDING"
  proof
    fix r assume r: "r \<in> set rows"
    then obtain p where "p \<in> set ps" "pn_id p = pn_id r" "pn_state p = PN_PENDING" using 2(3) by auto
    moreover have "pn_id r \<noteq> pn_id row" using 2(4) r by (auto simp: image_iff)
    ultimately show "\<exists>p \<in> set ?ps. pn_id p = pn_id r \<and> pn_state p = PN_PENDING" by (intro bexI [of _ p]) auto
  qed
  have d: "distinct (map pn_id ?ps)" "distinct (map pn_id rows)" unfolding ids using 2(2,4) by simp_all
  have "grown same_pending ?ps (settle_each now dups ?rest rows ?ps)"
    by (rule 2(1) [OF refl prod.collapse d(1) rest d(2)])
  then have "grown same_pending ps (settle_each now dups ?rest rows ?ps)"
    using grown_trans [OF _ one] unfolding same_pending_def by (metis (no_types, lifting))
  then show ?case by (simp add: split_beta Let_def)
qed (simp add: grown_refl)

lemma queued_in_pending:
  "\<forall>row \<in> set (queued_notes d m). row \<in> set (md_pending d) \<and> pn_state row = PN_PENDING"
  by (auto simp: queued_notes_def)

lemma distinct_queued: "distinct (map pn_id (md_pending d)) \<Longrightarrow> distinct (map pn_id (queued_notes d m))"
  by (simp add: queued_notes_def distinct_map_filter)

text \<open>Admission writes the ledger and nothing else.\<close>

definition ledger_only :: "mission_db \<Rightarrow> mission_db \<Rightarrow> bool" where
  "ledger_only d d' \<longleftrightarrow> (\<exists>ns. d' = d\<lparr>md_notes := ns\<rparr>)"

lemma ledger_only_refl: "ledger_only d d"
  unfolding ledger_only_def by (rule exI [of _ "md_notes d"]) simp

lemma ledger_only_trans: "ledger_only a b \<Longrightarrow> ledger_only b c \<Longrightarrow> ledger_only a c"
  by (auto simp: ledger_only_def)

lemma insert_ledger_only: "ledger_only d e \<Longrightarrow> ledger_only d (insert_note m now x e)"
  by (auto simp: ledger_only_def insert_note_def)

lemma fold_ledger_only: "ledger_only d e \<Longrightarrow> ledger_only d (fold (\<lambda>x e. insert_note m (t x) (v x) e) xs e)"
  by (induction xs arbitrary: e) (simp_all add: insert_ledger_only)

lemma backfill_ledger_only: "backfill_ledger H m c now d = Inr d' \<Longrightarrow> ledger_only d d'"
  by (auto simp: backfill_ledger_def bind_result_Inr_iff intro!: fold_ledger_only ledger_only_refl)

lemma admit_ledger_only:
  assumes "admit_notes H m c qs now d = Inr x"
  shows "case x of Inl (_, d') \<Rightarrow> ledger_only d d' | Inr (_, _, d') \<Rightarrow> ledger_only d d'"
proof -
  let ?b = "if ledger_rows d m = [] then backfill_ledger H m c now d else Inr d"
  obtain d1 where b: "?b = Inr d1" using assms by (cases ?b) (auto simp: admit_notes_def)
  then have 1: "ledger_only d d1" by (auto simp: backfill_ledger_only ledger_only_refl split: if_splits)
  then have "ledger_only d (fold (insert_note m now) new d1)" for new
    using fold_ledger_only [OF 1, of m "\<lambda>_. now" "\<lambda>x. x" new] by simp
  with assms 1 show ?thesis
    unfolding admit_notes_def b
    by (auto simp: Let_def bind_result_Inr_iff split: sum.splits prod.splits)
qed

lemma admit_keeps:
  assumes "admit_notes H m c qs now d = Inr (Inr (c', i, d'))"
  shows "md_pending d' = md_pending d \<and> md_missions d' = md_missions d"
  using admit_ledger_only [OF assms] by (auto simp: ledger_only_def)

lemma moves_consume [moves]:
  assumes "store_moves T q a d" "distinct (map pn_id (md_pending d))"
  shows "store_moves T q a (snd (consume_pending H m t now d))"
proof -
  let ?hit = "owned_by [J_RUNNING, J_PAUSING] m t" and ?rows = "queued_notes d m"
  have rej: "store_moves T q a (reject_pending m why now d)" for why
    unfolding reject_pending_def using assms(1)
    by (intro moves_pending pending_in_place grown_map) (auto simp: same_pending_def)
  have ok: "store_moves T q a (snd (update_missions ?hit (\<lambda>r. r\<lparr>mi_case := c, mi_updated := now\<rparr>)
      (d'\<lparr>md_pending := settle_each now dups fresh ?rows (md_pending d')\<rparr>)))"
    if "admit_notes H m k qs now d = Inr (Inr (c', i, d'))" for k c' i d' c dups fresh qs
  proof (rule moves_meta)
    have "grown same_pending (md_pending d) (settle_each now dups fresh ?rows (md_pending d))"
      by (rule grown_settle_each [OF assms(2) _ distinct_queued [OF assms(2)]]) (use queued_in_pending [of d m] in blast)
    then show "store_moves T q a (d'\<lparr>md_pending := settle_each now dups fresh ?rows (md_pending d')\<rparr>)"
      using admit_keeps [OF that] by (intro moves_pending pending_in_place store_moves_trans [OF assms(1) moves_admitted(1) [OF that]]) simp_all
  qed (simp add: same_mission_def)
  show ?thesis
    unfolding consume_pending_def Let_def
    by (auto simp: assms(1) rej ok [simplified split_beta] split_beta split: option.split sum.split prod.split)
qed

lemma moves_settle_authorization [moves]:
  assumes "store_moves T q a d" "mission_of d (mi_id r) = Some r" "distinct (map mi_id (md_missions d))" "mi_token r = []"
    "mi_state r = J_NEEDS_YOU \<or> mi_state r = J_PAUSED" "ANSWER (mi_id r) \<in> T"
  shows "store_moves T q a (snd (settle_authorization H r rid request resolved waiting now d))"
proof -
  let ?s = "if mi_state r = J_PAUSED then J_PAUSED else J_QUEUED"
  have r: "r \<in> set (md_missions d)" using assms(2) by (auto simp: mission_of_def find_Some_iff)
  have one: "x = r" if "x \<in> set (md_missions d)" "mi_id x = mi_id r" for x
    using assms(3) r that by (metis distinct_map inj_onD)
  have ok: "store_moves T q a (set_mission (\<lambda>x. x\<lparr>mi_state := s, mi_case := c, mi_result := w\<rparr>) (mi_id r) now (d'\<lparr>md_responses := rs\<rparr>))"
    if "s = ?s" "admit_notes H (mi_id r) k qs now d = Inr (Inr (c', i, d'))" for s k qs c' i d' c w rs
  proof -
    have d': "store_moves T q a (d'\<lparr>md_responses := rs\<rparr>)"
      by (intro moves store_moves_trans [OF assms(1) moves_admitted(1) [OF that(2)]])
    show ?thesis
    proof (cases "mi_state r = J_PAUSED")
      case True
      then show ?thesis
        unfolding set_mission_def using admit_keeps [OF that(2)] one assms(4) that(1)
        by (intro moves_update_missions [OF d'] row_move.meta) (auto simp: move_facts dest!: one)
    next
      case False
      then show ?thesis
        unfolding set_mission_def using admit_keeps [OF that(2)] one assms(4,5,6) that(1)
        by (intro moves_update_missions [OF d'] row_move.answered) (auto simp: move_facts dest!: one)
    qed
  qed
  show ?thesis
    unfolding settle_authorization_def Let_def
    by (auto simp: assms(1) split: sum.split prod.split intro!: moves_runnable_again ok)
qed

lemma moves_acknowledge [moves]:
  assumes "store_moves T q a d" "distinct (map mi_id (md_missions d))" "ANSWER m \<in> T"
  shows "store_moves T q a (snd (acknowledge_authorization H m rid now d))"
proof (cases "mission_of d m")
  case None
  then show ?thesis using assms by (simp add: acknowledge_authorization_def)
next
  case (Some r)
  then have m: "m = mi_id r" by (auto simp: mission_of_def find_Some_iff)
  show ?thesis
    using Some assms unfolding acknowledge_authorization_def Let_def m
    by (auto split: sum.split option.split bool.split intro!: moves_settle_authorization)
qed

lemma moves_continue [moves]:
  assumes "store_moves T q a d" "ANSWER m \<in> T"
  shows "store_moves T q a (snd (continue_handoff H m note now d))"
proof -
  have "store_moves T q a (snd (admit_into H (unowned_in [J_NEEDS_YOU] m) m qs
      (\<lambda>r. r\<lparr>mi_state := J_QUEUED, mi_result := w\<rparr>) now d))" for qs w
    by (rule moves_admit_into [OF assms(1)]) (use assms(2) in \<open>auto simp: same_mission_def unowned_in_def intro!: row_move.answered\<close>)
  then show ?thesis
    unfolding continue_handoff_def
    by (auto simp: assms(1) split: sum.split note_answer.split prod.split intro!: moves_runnable_again) (metis snd_conv)+
qed

lemma moves_begin_reconcile [moves]:
  assumes "store_moves T q a d" "TOKEN tok \<in> T"
  shows "store_moves T q a (snd (begin_reconcile H tok m note lease now d))"
proof -
  have take: "store_moves T q a (snd (take_cleanup (\<lambda>x. mi_id x = m \<and> mi_state x = J_RECONCILING \<and> (mi_token x = [] \<or> mi_lease x \<le> now)) tok lease now d))"
    unfolding take_cleanup_def using assms by (intro moves_update_missions row_move.cleanup) (auto simp: same_mission_def)
  have noted: "store_moves T q a d'" if n: "recovery_note H m k note now d = Inr (c, d')" for k c d'
  proof -
    let ?q = "[\<lparr>nr_text = host_note note, nr_source = u ''recovery'', nr_host = True, nr_ref = []\<rparr>]"
    obtain x where x: "admit_notes H m k ?q now d = Inr x" using n by (auto simp: recovery_note_def bind_result_Inr_iff)
    with n moves_admit [OF x, of T q] have "store_moves T q d d'"
      by (cases x) (auto simp: recovery_note_def Let_def)
    with assms(1) show ?thesis by (rule store_moves_trans)
  qed
  have move: "store_moves T q a (snd (update_missions (\<lambda>x. mi_id x = m \<and> mi_state x = J_RECOVERY_REQUIRED)
      (\<lambda>x. x\<lparr>mi_state := J_RECONCILING, mi_case := Col c, mi_token := tok, mi_lease := now + lease, mi_result := w, mi_updated := now\<rparr>) d'))"
    if "recovery_note H m k note now d = Inr (c', d')" for k c' d' c w
    using noted [OF that] assms(2) by (intro moves_update_missions row_move.cleanup) (auto simp: same_mission_def)
  show ?thesis
    unfolding begin_reconcile_def Let_def split_beta
    by (auto simp: assms(1) take bind_result_def split_beta split: option.split sum.split intro!: move)
qed

end
