(* ===== verification/WorkMoves.thy ===== *)
theory WorkMoves
  imports NoteMoves
begin

text \<open>
  The operations of \<open>MissionStore\<close> that account, checkpoint, lease, wake and reserve: they leave
  the lifecycle alone, but for the wake that starts a run and the deadline that pauses one.
\<close>

lemma moves_checkpoint [moves]:
  assumes "store_moves T q a d"
  shows "store_moves T q a (snd (record_checkpoint H now m t p payload k un d))"
proof -
  have "store_moves T q a (write_checkpoint H now m p x y n d)" for x y n
    unfolding write_checkpoint_def Let_def
    by (intro moves_refresh_storage moves_other moves_update_runtime assms) (simp add: same_runtime_def)
  then show ?thesis
    unfolding record_checkpoint_def by (auto simp: assms split: option.split sum.split prod.split)
qed

lemma moves_account [moves]: "store_moves T q a d \<Longrightarrow> store_moves T q a (snd (account_runtime E now m t x d))"
  unfolding account_runtime_def by (auto simp: same_runtime_def split: sum.split intro!: moves_update_runtime)

lemma moves_external [moves]: "store_moves T q a d \<Longrightarrow> store_moves T q a (snd (set_external_storage E m b t d))"
  unfolding set_external_storage_def by (auto simp: same_runtime_def split: sum.split intro!: moves_update_runtime)

lemma moves_clear_human_wait [moves]: "store_moves T q a d \<Longrightarrow> store_moves T q a (clear_human_wait m d)"
  unfolding clear_human_wait_def by (erule moves_update_runtime) (simp add: same_runtime_def clear_human_def)

lemma moves_set_mission_case [moves]: "store_moves T q a d \<Longrightarrow> store_moves T q a (snd (set_mission_case H m k now d))"
  unfolding set_mission_case_def by (auto split: sum.split intro!: moves_refresh_storage moves_set_case)

lemma moves_patch_case [moves]: "store_moves T q a d \<Longrightarrow> store_moves T q a (snd (patch_case H m k ss now d))"
  unfolding patch_case_def by (auto split: sum.split option.split intro!: moves_refresh_storage moves_set_case)

lemma moves_escalate_one: "store_moves T q a (snd acc) \<Longrightarrow> store_moves T q a (snd (escalate_one now row acc))"
proof -
  assume a: "store_moves T q a (snd acc)"
  have "store_moves T q a (snd (update_missions (\<lambda>r. mi_id r = m \<and> mi_state r = J_NEEDS_YOU)
      (\<lambda>r. r\<lparr>mi_state := J_PAUSED, mi_from := Some J_NEEDS_YOU, mi_result := w, mi_updated := now\<rparr>) (snd acc)))" for m w
    by (rule moves_update_missions [OF a], rule row_move.pause) (auto simp: same_mission_def)
  with a show ?thesis
    unfolding escalate_one_def Let_def split_beta by (auto simp: same_runtime_def intro!: moves_update_runtime)
qed

lemma moves_escalate [moves]: "store_moves T q a d \<Longrightarrow> store_moves T q a (snd (escalate_human_waits now d))"
proof -
  assume a: "store_moves T q a d"
  have "store_moves T q a (snd (fold (escalate_one now) rows acc))" if "store_moves T q a (snd acc)" for rows acc
    using that by (induction rows arbitrary: acc) (simp_all add: moves_escalate_one)
  then show ?thesis unfolding escalate_human_waits_def using a by simp
qed

lemma moves_claim_resource [moves]: "store_moves T q a d \<Longrightarrow> store_moves T q a (snd (claim_resource t res m secs now d))"
  unfolding claim_resource_def by (auto split: option.split intro: moves_insert_lease moves_delete_leases)

lemma moves_claim_execution [moves]: "store_moves T q a d \<Longrightarrow> store_moves T q a (snd (claim_execution t n m rt secs now d))"
  unfolding claim_execution_def by (auto split: option.split intro: moves_insert_lease)

lemma moves_renew_resource [moves]: "store_moves T q a d \<Longrightarrow> store_moves T q a (snd (renew_resource res m t secs now d))"
  by (simp add: renew_resource_def) (erule moves_map_leases, simp)

lemma moves_release_resource [moves]: "store_moves T q a d \<Longrightarrow> store_moves T q a (snd (release_resource res m t d))"
  by (simp add: release_resource_def split_beta Let_def moves)

lemma moves_release_resources [moves]: "store_moves T q a d \<Longrightarrow> store_moves T q a (snd (release_resources_for_mission m d))"
  by (simp add: release_resources_for_mission_def moves)

lemma moves_claim_slot [moves]: "store_moves T q a d \<Longrightarrow> store_moves T q a (snd (claim_active_slot t m rt secs now d))"
  unfolding claim_active_slot_def Let_def by (auto split: option.split sum.split intro: moves_insert_lease moves_delete_leases)

lemma moves_settle_slot [moves]: "store_moves T q a d \<Longrightarrow> store_moves T q a (snd (settle_active_slot E res m t wall fence now d))"
  unfolding settle_active_slot_def Let_def
  by (auto simp: same_runtime_def charge_wall_def split: option.split sum.split intro!: moves_update_runtime moves_map_leases moves_delete_leases)

lemma moves_resolve_parked [moves]: "store_moves T q a d \<Longrightarrow> store_moves T q a (resolve_parked n v d)"
  by (simp add: resolve_parked_def moves)

lemma moves_schedule_wait [moves]: "store_moves T q a d \<Longrightarrow> store_moves T q a (schedule_mission_wait m fire now d)"
proof -
  assume a: "store_moves T q a d"
  have app: "wakes_move ws (map f ws @ [x])" if "wakes_move ws (map f ws)" "wk_id x = length ws + 1" for ws f x
    using that by (auto simp: wakes_move_def intro!: grown_append numbered_append)
  show ?thesis
    unfolding schedule_mission_wait_def by (rule moves_wakes [OF a], rule app, rule wakes_settled) auto
qed

lemma moves_claim_wait [moves]: "store_moves T q a d \<Longrightarrow> store_moves T q a (snd (claim_mission_wait i d))"
  by (simp add: claim_mission_wait_def split_beta Let_def moves)

lemma moves_claim_wake [moves]:
  assumes "store_moves T q a d" "TOKEN tok \<in> T"
  shows "store_moves T q a (snd (claim_wake tok m force lease lane now d))"
proof -
  have "store_moves T q a (snd (take_run (unowned_in [J_WAITING] x) tok lease now (snd (delete_leases h d))))" for x h
    by (rule moves_take_run [OF moves_delete_leases [OF assms(1)] assms(2)]) (auto simp: unowned_in_def)
  then show ?thesis
    unfolding claim_wake_def Let_def split_beta
    by (auto simp: assms(1) split: list.split intro!: moves_started moves_fire_wake)
qed

lemma moves_record_event [moves]:
  assumes "store_moves T q a d" "q \<Longrightarrow> kind \<noteq> proposed_irreversible \<and> kind \<noteq> u ''decision'' \<and> kind \<noteq> u ''planning_turn''"
  shows "store_moves T q a (snd (record_event H m kind name nonce p now d))"
  unfolding record_event_def using assms by (auto split: sum.split intro!: moves_event)

lemma moves_reserve_action [moves]:
  assumes "store_moves T False a d"
  shows "store_moves T False a (snd (reserve_action E rid m key ir name p rt now d))"
proof -
  have "store_moves T False a (reserve_rows rid m key ir name rt x now d)" for x
    unfolding reserve_rows_def Let_def by (auto simp: assms intro!: moves_event moves_keys keys_kept(1))
  then show ?thesis
    unfolding reserve_action_def Let_def by (auto simp: assms split: sum.split option.split)
qed

lemma moves_reserve_decision [moves]:
  assumes "store_moves T False a d"
  shows "store_moves T False a (snd (reserve_decision E m rt mc p now d))"
proof -
  have "store_moves T False a (count_turn m b (add_mission_event m k n x y now d))" for b k n x y
    unfolding count_turn_def by (rule moves_update_runtime) (auto simp: assms same_runtime_def intro!: moves_event)
  then show ?thesis
    unfolding reserve_decision_def Let_def by (auto simp: assms split: sum.split option.split bool.split)
qed

lemma moves_reserve_request [moves]:
  assumes "store_moves T q a d"
  shows "store_moves T q a (snd (reserve_model_request H m rt rid pr mo pu now d))"
proof -
  have "store_moves T q a (count_call m (d\<lparr>md_requests := x\<rparr>))" for x
    unfolding count_call_def by (rule moves_update_runtime) (auto simp: assms same_runtime_def intro!: moves)
  then show ?thesis
    unfolding reserve_model_request_def Let_def by (auto simp: assms split: sum.split option.split bool.split)
qed

lemma moves_complete_request [moves]: "store_moves T q a d \<Longrightarrow> store_moves T q a (snd (complete_model_request rid o' now d))"
  by (simp add: complete_model_request_def Let_def moves)

lemma moves_bind_key [moves]: "store_moves T q a d \<Longrightarrow> store_moves T q a (snd (bind_action_key m k n rt d))"
  unfolding bind_action_key_def Let_def by (auto intro!: moves_keys keys_kept(2))

lemma moves_drop_keys:
  assumes "store_moves T q a d" "\<And>k. hit k \<Longrightarrow> DROP (ak_mission k) \<in> T"
  shows "store_moves T q a (snd (drop_keys hit m why now d))"
  unfolding drop_keys_def Let_def using assms by (auto intro!: moves_retract_keys moves_keys keys_kept(3))

lemma moves_release_key [moves]:
  assumes "store_moves T q a d" "DROP m \<in> T"
  shows "store_moves T q a (snd (release_action_key m k rt now d))"
  unfolding release_action_key_def Let_def split_beta using assms by (auto intro!: moves_drop_keys)

lemma moves_release_nonces [moves]:
  assumes "store_moves T q a d" "DROP m \<in> T"
  shows "store_moves T q a (snd (release_action_nonces m ns now d))"
  unfolding release_action_nonces_def Let_def using assms by (auto intro!: moves_drop_keys)

lemma moves_complete_key [moves]: "store_moves T q a d \<Longrightarrow> store_moves T q a (complete_action_key m n s d)"
  unfolding complete_action_key_def by (auto intro!: moves_keys keys_kept(2))

lemma insert_keys_kept: "keys_move T ks (insert_keys new ks)"
proof (induction new ks rule: insert_keys.induct)
  case (2 k new ks)
  show ?case
  proof (cases "list_ex (\<lambda>x. ak_mission x = ak_mission k \<and> ak_key x = ak_key k) ks")
    case True
    with 2 show ?thesis by simp
  next
    case False
    with 2 have "keys_move T (ks @ [k]) (insert_keys (k # new) ks)" by simp
    with keys_kept(1) show ?thesis by (rule keys_move_trans)
  qed
qed simp

lemma moves_inherit_keys [moves]: "store_moves T q a d \<Longrightarrow> store_moves T q a (snd (inherit_completed_action_keys s t d))"
  unfolding inherit_completed_action_keys_def Let_def by (auto intro!: moves_keys insert_keys_kept)

lemma moves_add_pending [moves]:
  assumes "store_moves T q a d" "distinct (map mi_id (md_missions d))"
  shows "store_moves T q a (snd (add_pending_note H m c x s now later d))"
proof -
  have e: "store_moves T q a (add_mission_event m (u ''control'') n k p now' d')" if "store_moves T q a d'" for n k p now' d'
    using that by (rule moves_event) (auto simp: proposed_irreversible_def)
  have "store_moves T q a (snd (accept_pending H m c x s now d))" using assms by (rule moves_accept_pending)
  then show ?thesis
    unfolding add_pending_note_def by (auto split: prod.split sum.split note_receipt.split intro!: e)
qed

lemma moves_consume_notes [moves]:
  assumes "store_moves T q a d" "distinct (map pn_id (md_pending d))"
  shows "store_moves T q a (snd (consume_pending_notes_owned H m t now later d))"
proof -
  have e: "store_moves T q a (add_mission_event m (u ''control'') n k p now' d')" if "store_moves T q a d'" for n k p now' d'
    using that by (rule moves_event) (auto simp: proposed_irreversible_def)
  have "store_moves T q a (snd (consume_pending H m t now d))" using assms by (rule moves_consume)
  then show ?thesis
    unfolding consume_pending_notes_owned_def by (auto split: prod.split sum.split consume_answer.split intro!: e)
qed

end
