(* ===== verification/MissionLife.thy ===== *)
theory MissionLife
  imports WorkMoves
begin

text \<open>
  Any sequence of transactions on the mission store, by any processes in any order. An
  element of \<open>mission_op\<close> is one transaction of \<open>MissionStore\<close> with its arguments, \<open>perform\<close>
  runs it, and \<open>proper_op\<close> says how the program calls it: run tokens are not empty, a run is
  claimed from a claimable state and finished into an idle one, a plain event is not a
  reservation. \<open>set_state\<close>, which the service uses on a mission it failed to set up, is not
  among them. \<open>well_kept\<close> is the invariant and \<open>store_grows\<close> what any sequence does to a store.
\<close>

subsection \<open>Transactions\<close>

datatype life_op =
  M_CLAIM pystr "job_state list" int pystr int
| M_OWNS pystr pystr int int
| M_RENEW pystr pystr int int
| M_FENCE pystr pystr pystr pystr int
| M_RECOVER "pystr \<Rightarrow> bool" int
| M_FINISH pystr pystr job_state "pystr option" bool int
| M_PARK pystr pystr pystr pystr pystr int
| M_SETTLE_PAUSING pystr pystr int
| M_PAUSE pystr int
| M_RESUME pystr int
| M_CANCEL pystr pystr int
| M_WAKE pystr pystr bool int pystr int
| M_ESCALATE int

primrec life_step :: "mission_env \<Rightarrow> life_op \<Rightarrow> mission_db \<Rightarrow> mission_db" where
  "life_step E (M_CLAIM tok expected lease m now) d = snd (claim_mission tok expected lease m now d)"
| "life_step E (M_OWNS m tok secs now) d = snd (owns_mission_run m tok secs now d)"
| "life_step E (M_RENEW m tok secs now) d = snd (renew_run E m tok secs now d)"
| "life_step E (M_FENCE m tok phase why now) d = snd (fence_mission m tok phase why now d)"
| "life_step E (M_RECOVER confirmed now) d = snd (recover_stale_runs E confirmed now d)"
| "life_step E (M_FINISH m tok s res block now) d = snd (finish_mission (mv_host E) m tok s res block now d)"
| "life_step E (M_PARK m tok name nonce res now) d = snd (park_mission (mv_host E) m tok name nonce res now d)"
| "life_step E (M_SETTLE_PAUSING m tok now) d = snd (settle_pausing m tok now d)"
| "life_step E (M_PAUSE m now) d = snd (pause_mission m now d)"
| "life_step E (M_RESUME m now) d = snd (resume_paused (mv_host E) m now d)"
| "life_step E (M_CANCEL m res now) d = snd (cancel_mission m res now d)"
| "life_step E (M_WAKE tok m force lease lane now) d = snd (claim_wake tok m force lease lane now d)"
| "life_step E (M_ESCALATE now) d = snd (escalate_human_waits now d)"

datatype cleanup_op =
  M_BEGIN_CLEANUP pystr pystr pystr int int
| M_RELEASE_CLEANUP pystr pystr
| M_OWNS_CLEANUP pystr pystr int int
| M_FINISH_CLEANUP pystr pystr int
| M_ACCEPT pystr int

primrec cleanup_step :: "mission_env \<Rightarrow> cleanup_op \<Rightarrow> mission_db \<Rightarrow> mission_db" where
  "cleanup_step E (M_BEGIN_CLEANUP tok m note lease now) d = snd (begin_reconcile (mv_host E) tok m note lease now d)"
| "cleanup_step E (M_RELEASE_CLEANUP m tok) d = snd (release_reconcile m tok d)"
| "cleanup_step E (M_OWNS_CLEANUP m tok secs now) d = snd (owns_reconcile m tok secs now d)"
| "cleanup_step E (M_FINISH_CLEANUP m tok now) d = snd (finish_reconcile m tok now d)"
| "cleanup_step E (M_ACCEPT m now) d = snd (accept_handoff m now d)"

datatype note_op =
  M_ADD_NOTES pystr pystr "note_request list" int
| M_SEED_NOTES pystr "note_request list" int
| M_ADD_PENDING pystr pystr pystr pystr int
| M_CONSUME pystr pystr int
| M_CONTINUE pystr pystr int
| M_ACKNOWLEDGE pystr pystr int

primrec note_step :: "mission_env \<Rightarrow> note_op \<Rightarrow> mission_db \<Rightarrow> mission_db" where
  "note_step E (M_ADD_NOTES m tok qs now) d = snd (add_human_notes_owned (mv_host E) m tok qs now d)"
| "note_step E (M_SEED_NOTES m qs now) d = snd (seed_human_notes (mv_host E) m qs now d)"
| "note_step E (M_ADD_PENDING m client text source now) d = snd (accept_pending (mv_host E) m client text source now d)"
| "note_step E (M_CONSUME m tok now) d = snd (consume_pending (mv_host E) m tok now d)"
| "note_step E (M_CONTINUE m note now) d = snd (continue_handoff (mv_host E) m note now d)"
| "note_step E (M_ACKNOWLEDGE m rid now) d = snd (acknowledge_authorization (mv_host E) m rid now d)"

datatype lease_op =
  M_CLAIM_RESOURCE pystr pystr pystr int int
| M_CLAIM_EXECUTION pystr pystr pystr pystr int int
| M_RENEW_RESOURCE pystr pystr pystr int int
| M_RELEASE_RESOURCE pystr pystr pystr
| M_RELEASE_ALL pystr
| M_CLAIM_SLOT pystr pystr pystr int int
| M_SETTLE_SLOT pystr pystr pystr json "pystr option" int

primrec lease_step :: "mission_env \<Rightarrow> lease_op \<Rightarrow> mission_db \<Rightarrow> mission_db" where
  "lease_step E (M_CLAIM_RESOURCE tok res m secs now) d = snd (claim_resource tok res m secs now d)"
| "lease_step E (M_CLAIM_EXECUTION tok nonce m run secs now) d = snd (claim_execution tok nonce m run secs now d)"
| "lease_step E (M_RENEW_RESOURCE res m tok secs now) d = snd (renew_resource res m tok secs now d)"
| "lease_step E (M_RELEASE_RESOURCE res m tok) d = snd (release_resource res m tok d)"
| "lease_step E (M_RELEASE_ALL m) d = snd (release_resources_for_mission m d)"
| "lease_step E (M_CLAIM_SLOT tok m run secs now) d = snd (claim_active_slot tok m run secs now d)"
| "lease_step E (M_SETTLE_SLOT res m tok wall fence now) d = snd (settle_active_slot E res m tok wall fence now d)"

datatype book_op =
  M_CHECKPOINT int pystr pystr pystr pydict "json option" bool
| M_SET_CASE_OWNED pystr pystr pydict int
| M_ACCOUNT int pystr pystr charge
| M_EXTERNAL pystr json pystr
| M_REFRESH pystr
| M_CLEAR_HUMAN pystr
| M_SET_CASE pystr pydict int
| M_PATCH pystr pydict "job_state list" int
| M_STEP pystr pystr pystr pystr int
| M_RESOLVE pystr pystr
| M_SCHEDULE pystr int int
| M_CLAIM_WAIT nat

primrec book_step :: "mission_env \<Rightarrow> book_op \<Rightarrow> mission_db \<Rightarrow> mission_db" where
  "book_step E (M_CHECKPOINT now m tok phase payload kase unowned) d = snd (record_checkpoint (mv_host E) now m tok phase payload kase unowned d)"
| "book_step E (M_SET_CASE_OWNED m tok kase now) d = snd (set_case_owned (mv_host E) m tok kase now d)"
| "book_step E (M_ACCOUNT now m tok x) d = snd (account_runtime E now m tok x d)"
| "book_step E (M_EXTERNAL m bytes tok) d = snd (set_external_storage E m bytes tok d)"
| "book_step E (M_REFRESH m) d = refresh_storage (mv_host E) m d"
| "book_step E (M_CLEAR_HUMAN m) d = clear_human_wait m d"
| "book_step E (M_SET_CASE m kase now) d = snd (set_mission_case (mv_host E) m kase now d)"
| "book_step E (M_PATCH m updates states now) d = snd (patch_case (mv_host E) m updates states now d)"
| "book_step E (M_STEP m name nonce verdict now) d = add_step m name nonce verdict now d"
| "book_step E (M_RESOLVE nonce verdict) d = resolve_parked nonce verdict d"
| "book_step E (M_SCHEDULE m fire now) d = schedule_mission_wait m fire now d"
| "book_step E (M_CLAIM_WAIT i) d = snd (claim_mission_wait i d)"

datatype reserve_op =
  M_EVENT pystr pystr pystr pystr pydict int
| M_RESERVE_ACTION pystr pystr pystr bool pystr pydict pystr int
| M_RESERVE_DECISION pystr "pystr option" bool pystr int
| M_RESERVE_REQUEST pystr pystr pystr pystr pystr pystr int
| M_COMPLETE_REQUEST pystr pystr int
| M_BIND pystr pystr pystr pystr
| M_RELEASE_KEY pystr pystr pystr int
| M_RELEASE_NONCES pystr "pystr list" int
| M_COMPLETE_KEY pystr pystr pystr
| M_INHERIT pystr pystr

primrec reserve_step :: "mission_env \<Rightarrow> reserve_op \<Rightarrow> mission_db \<Rightarrow> mission_db" where
  "reserve_step E (M_EVENT m kind name nonce payload now) d = snd (record_event (mv_host E) m kind name nonce payload now d)"
| "reserve_step E (M_RESERVE_ACTION rid m key irreversible name payload run now) d = snd (reserve_action E rid m key irreversible name payload run now d)"
| "reserve_step E (M_RESERVE_DECISION m run model_call purpose now) d = snd (reserve_decision E m run model_call purpose now d)"
| "reserve_step E (M_RESERVE_REQUEST m run rid provider model purpose now) d = snd (reserve_model_request (mv_host E) m run rid provider model purpose now d)"
| "reserve_step E (M_COMPLETE_REQUEST rid outcome now) d = snd (complete_model_request rid outcome now d)"
| "reserve_step E (M_BIND m key nonce run) d = snd (bind_action_key m key nonce run d)"
| "reserve_step E (M_RELEASE_KEY m key run now) d = snd (release_action_key m key run now d)"
| "reserve_step E (M_RELEASE_NONCES m nonces now) d = snd (release_action_nonces m nonces now d)"
| "reserve_step E (M_COMPLETE_KEY m nonce s) d = complete_action_key m nonce s d"
| "reserve_step E (M_INHERIT source target) d = snd (inherit_completed_action_keys source target d)"

datatype mission_op =
  M_CREATE pystr pystr pydict pydict pystr pystr int
| LIFE life_op
| CLEANUP cleanup_op
| NOTES note_op
| LEASES lease_op
| BOOKS book_op
| RESERVES reserve_op

primrec perform :: "mission_env \<Rightarrow> mission_op \<Rightarrow> mission_db \<Rightarrow> mission_db" where
  "perform E (M_CREATE m goal leash kase lane run now) d = snd (create_mission_row (mv_host E) m goal leash kase lane run now d)"
| "perform E (LIFE a) d = life_step E a d"
| "perform E (CLEANUP a) d = cleanup_step E a d"
| "perform E (NOTES a) d = note_step E a d"
| "perform E (LEASES a) d = lease_step E a d"
| "perform E (BOOKS a) d = book_step E a d"
| "perform E (RESERVES a) d = reserve_step E a d"

definition plain_kind :: "pystr \<Rightarrow> bool" where
  "plain_kind k \<longleftrightarrow> \<not> List.member [proposed_irreversible, u ''decision'', u ''planning_turn''] k"

definition proper_op :: "mission_op \<Rightarrow> bool" where
  "proper_op a \<longleftrightarrow> (case a of
     M_CREATE m _ _ _ _ _ _ \<Rightarrow> m \<noteq> []
   | LIFE (M_CLAIM tok expected _ _ _) \<Rightarrow> tok \<noteq> [] \<and> claimable_states expected
   | LIFE (M_WAKE tok _ _ _ _ _) \<Rightarrow> tok \<noteq> []
   | LIFE (M_FINISH _ _ s _ _ _) \<Rightarrow> idle_state s
   | CLEANUP (M_BEGIN_CLEANUP tok _ _ _ _) \<Rightarrow> tok \<noteq> []
   | RESERVES (M_EVENT _ kind _ _ _ _) \<Rightarrow> plain_kind kind
   | _ \<Rightarrow> True)"

text \<open>What an operation may do to which mission.\<close>

definition rights :: "mission_op \<Rightarrow> right list" where
  "rights a = (case a of
     LIFE (M_CLAIM tok _ _ _ _) \<Rightarrow> [TOKEN tok]
   | LIFE (M_WAKE tok _ _ _ _ _) \<Rightarrow> [TOKEN tok]
   | LIFE (M_FENCE _ tok _ _ _) \<Rightarrow> [LEAVE tok]
   | LIFE (M_RECOVER confirmed _) \<Rightarrow> [EXPIRE confirmed]
   | LIFE (M_FINISH m tok s _ _ _) \<Rightarrow> LEAVE tok # (if s = J_DONE_VERIFIED then [VERIFIES m] else [])
   | LIFE (M_PARK _ tok _ _ _ _) \<Rightarrow> [LEAVE tok]
   | LIFE (M_SETTLE_PAUSING _ tok _) \<Rightarrow> [LEAVE tok]
   | LIFE (M_PAUSE m _) \<Rightarrow> [ASK_PAUSE m]
   | LIFE (M_CANCEL m _ _) \<Rightarrow> [CANCEL m]
   | CLEANUP (M_BEGIN_CLEANUP tok _ _ _ _) \<Rightarrow> [TOKEN tok]
   | CLEANUP (M_FINISH_CLEANUP m tok _) \<Rightarrow> [CLEANED m tok, DROP m]
   | CLEANUP (M_ACCEPT m _) \<Rightarrow> [ANSWER m]
   | RESERVES (M_RELEASE_KEY m _ _ _) \<Rightarrow> [DROP m]
   | RESERVES (M_RELEASE_NONCES m _ _) \<Rightarrow> [DROP m]
   | NOTES (M_CONTINUE m _ _) \<Rightarrow> [ANSWER m]
   | NOTES (M_ACKNOWLEDGE m _ _) \<Rightarrow> [ANSWER m]
   | _ \<Rightarrow> [])"

definition rights_of :: "mission_op set \<Rightarrow> right set" where
  "rights_of A = (\<Union>a\<in>A. set (rights a))"

text \<open>The operations that add a row to the events a budget counts.\<close>

definition reserving :: "mission_op \<Rightarrow> bool" where
  "reserving a \<longleftrightarrow> (case a of RESERVES (M_RESERVE_ACTION _ _ _ _ _ _ _ _) \<Rightarrow> True | RESERVES (M_RESERVE_DECISION _ _ _ _ _) \<Rightarrow> True | _ \<Rightarrow> False)"

definition creating :: "mission_op \<Rightarrow> bool" where
  "creating a \<longleftrightarrow> (case a of M_CREATE _ _ _ _ _ _ _ \<Rightarrow> True | _ \<Rightarrow> False)"

subsection \<open>Every operation moves the store\<close>

lemmas op_defs = proper_op_def rights_def reserving_def plain_kind_def owns_mission_run_def

lemma life_moves:
  assumes "proper_op (LIFE a)" "distinct (map mi_id (md_missions d))"
  shows "store_moves (set (rights (LIFE a))) True d (life_step E a d)"
  using assms by (cases a) (simp_all add: moves op_defs)

lemma cleanup_moves: "proper_op (CLEANUP a) \<Longrightarrow> store_moves (set (rights (CLEANUP a))) True d (cleanup_step E a d)"
  by (cases a) (simp_all add: moves op_defs)

lemma note_moves:
  assumes "distinct (map mi_id (md_missions d))" "distinct (map pn_id (md_pending d))"
  shows "store_moves (set (rights (NOTES a))) True d (note_step E a d)"
  using assms by (cases a) (simp_all add: moves op_defs)

lemma lease_moves: "store_moves T True d (lease_step E a d)"
  by (cases a) (simp_all add: moves)

lemma book_moves: "store_moves T True d (book_step E a d)"
  by (cases a) (simp_all add: moves)

lemma reserve_moves:
  "proper_op (RESERVES a) \<Longrightarrow> store_moves (set (rights (RESERVES a))) (\<not> reserving (RESERVES a)) d (reserve_step E a d)"
  by (cases a) (simp_all add: moves op_defs)

lemma perform_moves:
  assumes "proper_op a" "\<not> creating a" "distinct (map mi_id (md_missions d))" "numbered pn_id (md_pending d)"
  shows "store_moves (set (rights a)) (\<not> reserving a) d (perform E a d)"
  using assms numbered_distinct [OF assms(4)] life_moves cleanup_moves note_moves lease_moves book_moves reserve_moves
  by (cases a) (simp_all add: creating_def reserving_def)

end
