(* ===== verification/MissionKeep.thy ===== *)
theory MissionKeep
  imports MissionLife
begin

subsection \<open>The invariant\<close>

definition claim_states :: "job_state list" where
  "claim_states = [J_QUEUED, J_WAITING, J_NEEDS_YOU]"

definition row_kept :: "mission_row \<Rightarrow> bool" where
  "row_kept r \<longleftrightarrow> mi_id r \<noteq> [] \<and> (mi_token r \<noteq> [] \<longrightarrow> working (mi_state r) \<or> mi_state r = J_RECONCILING)
     \<and> (working (mi_state r) \<longrightarrow> mi_token r \<noteq> []) \<and> (case mi_from r of None \<Rightarrow> True | Some s \<Rightarrow> List.member claim_states s)"

text \<open>A parent is created before its children.\<close>

primrec parents_first :: "pystr list \<Rightarrow> runtime_row list \<Rightarrow> bool" where
  "parents_first ids [] = True"
| "parents_first ids (r # rs) = ((rt_parent r = [] \<or> List.member ids (rt_parent r)) \<and> parents_first (rt_id r # ids) rs)"

definition well_kept :: "mission_db \<Rightarrow> bool" where
  "well_kept d \<longleftrightarrow> distinct (map mi_id (md_missions d)) \<and> map rt_id (md_runtime d) = map mi_id (md_missions d)
     \<and> list_all row_kept (md_missions d) \<and> parents_first [] (md_runtime d) \<and> numbered pn_id (md_pending d)
     \<and> numbered hn_id (md_notes d) \<and> numbered wk_id (md_wakes d) \<and> distinct (map lr_resource (md_leases d))
     \<and> distinct (message_refs (md_notes d))"

definition empty_missions :: mission_db where
  "empty_missions = \<lparr>md_missions = [], md_runtime = [], md_steps = [], md_wakes = [], md_leases = [], md_events = [], md_notes = [],
     md_pending = [], md_responses = [], md_checkpoints = [], md_next_checkpoint = 1, md_requests = [], md_keys = []\<rparr>"

lemma empty_well_kept: "well_kept empty_missions"
  by (simp add: well_kept_def empty_missions_def message_refs_def)

lemma row_move_kept: "row_move T r s \<Longrightarrow> TOKEN [] \<notin> T \<Longrightarrow> row_kept r \<Longrightarrow> row_kept s"
  by (erule row_move_cases)
    (auto simp: row_kept_def claim_states_def same_mission_def working_def idle_state_def resume_target_def split: option.splits if_splits)

lemma row_moves_kept: "row_moves T r s \<Longrightarrow> TOKEN [] \<notin> T \<Longrightarrow> row_kept r \<Longrightarrow> row_kept s"
  unfolding row_moves_def by (induction rule: rtranclp_induct) (auto dest: row_move_kept)

lemma moved_ids: "list_all2 (row_moves T) rs ss \<Longrightarrow> map mi_id ss = map mi_id rs"
  by (induction rule: list_all2_induct) (auto dest!: row_moves_identity simp: same_mission_def)

lemma moved_runtime_ids: "list_all2 same_runtime rs ss \<Longrightarrow> map rt_id ss = map rt_id rs"
  by (induction rule: list_all2_induct) (auto simp: same_runtime_def)

lemma moved_parents: "list_all2 same_runtime rs ss \<Longrightarrow> parents_first ids ss = parents_first ids rs"
  by (induction arbitrary: ids rule: list_all2_induct) (auto simp: same_runtime_def)

lemma moved_kept: "list_all2 (row_moves T) rs ss \<Longrightarrow> TOKEN [] \<notin> T \<Longrightarrow> list_all row_kept rs \<Longrightarrow> list_all row_kept ss"
  by (induction rule: list_all2_induct) (auto dest: row_moves_kept)

lemma moves_well_kept:
  assumes "store_moves T q d d'" "TOKEN [] \<notin> T" "well_kept d"
  shows "well_kept d'"
  using assms moved_ids moved_runtime_ids moved_parents moved_kept
  unfolding store_moves_def well_kept_def notes_move_def pending_moves_def leases_move_def wakes_move_def by metis

lemma parents_first_append:
  "parents_first ids (rs @ [r]) \<longleftrightarrow> parents_first ids rs \<and> (rt_parent r = [] \<or> rt_parent r \<in> set ids \<union> rt_id ` set rs)"
  by (induction rs arbitrary: ids) auto

text \<open>A new mission is a new row at the end of two tables.\<close>

lemma create_cases:
  obtains (same) "snd (create_mission_row H m goal leash kase lane run now d) = d"
  | (new) parent ln where
      "snd (create_mission_row H m goal leash kase lane run now d) = d\<lparr>md_missions := md_missions d @ [fresh_mission m goal leash kase now],
        md_runtime := md_runtime d @ [fresh_runtime H m parent ln run kase now]\<rparr>"
      "mission_of d m = None" "runtime_of d m = None" "parent = [] \<or> parent_open d parent"
  by (fastforce simp: create_mission_row_def Let_def split: sum.splits if_splits)

lemma fresh_kept: "m \<noteq> [] \<Longrightarrow> row_kept (fresh_mission m goal leash kase now)"
  by (simp add: row_kept_def fresh_mission_def working_def)

lemma create_well_kept:
  assumes "well_kept d" "m \<noteq> []"
  shows "well_kept (snd (create_mission_row H m goal leash kase lane run now d))"
proof (cases rule: create_cases [of H m goal leash kase lane run now d])
  case same
  then show ?thesis using assms by simp
next
  case (new parent ln)
  have "m \<notin> set (map mi_id (md_missions d))"
    using new(2) by (auto simp: mission_of_def find_None_iff)
  moreover have "parent = [] \<or> parent \<in> set (map mi_id (md_missions d))"
    using new(4) by (auto simp: parent_open_def mission_of_def find_Some_iff split: option.splits)
  moreover have "set (map rt_id (md_runtime d)) = set (map mi_id (md_missions d))" using assms(1) by (simp add: well_kept_def)
  ultimately show ?thesis
    using assms fresh_kept [of m goal leash kase now] unfolding new(1)
    by (auto simp: well_kept_def parents_first_append fresh_mission_def fresh_runtime_def)
qed

lemma perform_well_kept:
  assumes "proper_op a" "well_kept d"
  shows "well_kept (perform E a d)"
proof (cases "creating a")
  case True
  then show ?thesis using assms by (cases a) (simp_all add: creating_def proper_op_def create_well_kept)
next
  case False
  have "TOKEN [] \<notin> set (rights a)" using assms(1) by (auto simp: proper_op_def rights_def split: mission_op.splits life_op.splits cleanup_op.splits note_op.splits reserve_op.splits)
  moreover have "store_moves (set (rights a)) (\<not> reserving a) d (perform E a d)"
    using perform_moves [OF assms(1) False] assms(2) by (simp add: well_kept_def)
  ultimately show ?thesis using assms(2) moves_well_kept by blast
qed

subsection \<open>What a sequence does to a store\<close>

definition store_grows :: "mission_op set \<Rightarrow> mission_db \<Rightarrow> mission_db \<Rightarrow> bool" where
  "store_grows A d d' \<longleftrightarrow> grown (row_moves (rights_of A)) (md_missions d) (md_missions d')
     \<and> grown same_runtime (md_runtime d) (md_runtime d') \<and> grown (=) (md_notes d) (md_notes d')
     \<and> pending_moves d (md_pending d) (md_pending d') \<and> grown (=) (md_events d) (md_events d') \<and> wakes_move (md_wakes d) (md_wakes d')
     \<and> keys_move (rights_of A) (md_keys d) (md_keys d')"

lemma row_moves_mono: "row_moves T r s \<Longrightarrow> T \<subseteq> V \<Longrightarrow> row_moves V r s"
proof -
  assume a: "row_moves T r s" "T \<subseteq> V"
  have "row_move V x y" if "row_move T x y" for x y
    using that a(2) by (cases rule: row_move.cases) (auto intro: row_move.intros)
  then show ?thesis using a(1) unfolding row_moves_def by (metis (no_types, lifting) predicate2I rev_predicate2D rtranclp_mono)
qed

lemma grows_refl: "store_grows A d d"
  by (simp add: store_grows_def grown_refl)

lemma grows_mono:
  assumes "store_grows A d e" "A \<subseteq> B"
  shows "store_grows B d e"
proof -
  have "rights_of A \<subseteq> rights_of B" using assms(2) by (auto simp: rights_of_def)
  have "grown (row_moves (rights_of B)) (md_missions d) (md_missions e)"
    using assms(1) row_moves_mono [OF _ \<open>rights_of A \<subseteq> rights_of B\<close>] unfolding store_grows_def by (metis grown_mono)
  moreover have "keys_move (rights_of B) (md_keys d) (md_keys e)"
    using assms(1) \<open>rights_of A \<subseteq> rights_of B\<close> unfolding store_grows_def keys_move_def by blast
  ultimately show ?thesis using assms(1) by (simp add: store_grows_def)
qed

lemma closed_to_grows:
  assumes "grown (row_moves T) (md_missions a) (md_missions b)" "closed_to a p"
  shows "closed_to b p"
proof -
  obtain r where r: "r \<in> set (md_missions a)" "mi_id r = pn_mission p" "terminal_mission (mi_state r)"
    using assms(2) by (auto simp: closed_to_def list_ex_iff)
  with grown_member [OF assms(1)] obtain s where "s \<in> set (md_missions b)" "row_moves T r s" by blast
  with r show ?thesis
    using row_moves_identity [of T r s] row_moves_terminal [of T r s] by (auto simp: closed_to_def list_ex_iff same_mission_def)
qed

lemma grows_trans:
  assumes "store_grows A a b" "store_grows A b c"
  shows "store_grows A a c"
proof -
  have "grown (row_moves (rights_of A)) (md_missions a) (md_missions c)"
    using assms row_moves_trans unfolding store_grows_def by (metis (no_types, lifting) grown_trans)
  moreover have "grown same_runtime (md_runtime a) (md_runtime c)"
    using assms grown_trans [of same_runtime "md_runtime a" "md_runtime b" "md_runtime c"] unfolding store_grows_def same_runtime_def by force
  moreover have "pending_moves a (md_pending a) (md_pending c)"
    by (rule pending_moves_trans [of a _ "md_pending b" b]) (use assms closed_to_grows [of "rights_of A" a b] in \<open>auto simp: store_grows_def\<close>)
  moreover have "wakes_move (md_wakes a) (md_wakes c)" using assms wakes_move_trans unfolding store_grows_def by blast
  moreover have "keys_move (rights_of A) (md_keys a) (md_keys c)" using assms keys_move_trans unfolding store_grows_def by blast
  ultimately show ?thesis using assms by (auto simp: store_grows_def grown_eq)
qed

lemma moves_grow: "store_moves (set (rights a)) q d e \<Longrightarrow> store_grows {a} d e"
  by (simp add: store_moves_def store_grows_def rights_of_def all2_grown notes_move_def quietly_grown_def)

lemma create_grows: "store_grows A d (snd (create_mission_row H m goal leash kase lane run now d))"
  by (cases rule: create_cases [of H m goal leash kase lane run now d]) (simp_all add: store_grows_def grown_refl grown_append)

lemma perform_grows:
  assumes "proper_op a" "well_kept d"
  shows "store_grows {a} d (perform E a d)"
proof (cases "creating a")
  case True
  then show ?thesis by (cases a) (simp_all add: creating_def create_grows)
next
  case False
  with perform_moves [OF assms(1) False, of d E] assms(2) show ?thesis by (auto simp: well_kept_def intro: moves_grow)
qed

interpretation mission_runs: labelled_store "perform E" proper_op well_kept store_grows for E
  by unfold_locales (auto intro: perform_well_kept perform_grows grows_refl grows_mono grows_trans)

end
