(* ===== verification/MissionSample.thy ===== *)
theory MissionSample
  imports MissionKeep
begin

text \<open>
  A small store, on which the properties of missions are applied: one mission, \<open>m\<close>, with an
  empty leash and an empty case, and one run of it, \<open>t\<close>.
\<close>

abbreviation run_missions :: "mission_env \<Rightarrow> mission_op list \<Rightarrow> mission_db \<Rightarrow> mission_db" where
  "run_missions E \<equiv> run_steps (perform E)"

definition sample_env :: mission_env where
  "sample_env = \<lparr>mv_host = ascii_host, mv_round = id, mv_parse = (\<lambda>_. None)\<rparr>"

definition sample_create :: mission_op where
  "sample_create = M_CREATE (u ''m'') [] [] [] [] [] 0"

definition sample_claim :: mission_op where
  "sample_claim = LIFE (M_CLAIM (u ''t'') [J_QUEUED] 90 (u ''m'') 1)"

definition sample_reserve :: mission_op where
  "sample_reserve = RESERVES (M_RESERVE_ACTION (u ''r'') (u ''m'') (u ''key'') True (u ''send'') [] (u ''t'') 2)"

definition sample_note :: mission_op where
  "sample_note = NOTES (M_ADD_PENDING (u ''m'') (u ''c'') (u ''hi'') [] 1)"

lemma sample_ops [simp]:
  "proper_op sample_create" "proper_op sample_claim" "proper_op sample_reserve" "proper_op sample_note"
  by code_simp+

abbreviation sample :: "mission_op list \<Rightarrow> mission_db" where
  "sample ops \<equiv> run_missions sample_env ops empty_missions"

text \<open>A mission of a sample store whose row has a given state and token.\<close>

definition row_is :: "mission_db \<Rightarrow> pystr \<Rightarrow> job_state \<Rightarrow> pystr \<Rightarrow> bool" where
  "row_is d m s t \<longleftrightarrow> (case mission_of d m of None \<Rightarrow> False | Some r \<Rightarrow> mi_id r = m \<and> mi_state r = s \<and> mi_token r = t)"

lemma row_isE:
  assumes "row_is d m s t"
  obtains r where "mission_of d m = Some r" "mi_id r = m" "mi_state r = s" "mi_token r = t"
  using assms by (auto simp: row_is_def split: option.splits)

lemma sample_created: "row_is (sample [sample_create]) (u ''m'') J_QUEUED []" by code_simp

lemma sample_claimed: "row_is (sample [sample_create, sample_claim]) (u ''m'') J_RUNNING (u ''t'')" by code_simp

lemma mission_cancelled:
  "row_is (sample [sample_create, sample_claim, LIFE (M_CANCEL (u ''m'') [] 3)]) (u ''m'') J_CANCELLED []" by code_simp

lemma sample_fenced:
  "row_is (sample [sample_create, sample_claim, LIFE (M_FENCE (u ''m'') (u ''t'') [] [] 3)]) (u ''m'') J_RECOVERY_REQUIRED []" by code_simp

lemma sample_leased:
  "map lr_resource (md_leases (sample [LEASES (M_CLAIM_RESOURCE (u ''l'') (u ''disk'') (u ''m'') 60 1)])) = [u ''disk'']
    \<and> map lr_until (md_leases (sample [LEASES (M_CLAIM_RESOURCE (u ''l'') (u ''disk'') (u ''m'') 60 1)])) = [61]" by code_simp

lemma sample_reserved:
  "map (\<lambda>k. (ak_mission k, ak_key k)) (md_keys (sample [sample_create, sample_claim, sample_reserve])) = [(u ''m'', u ''key'')]" by code_simp

lemma sample_finish:
  "case finish_mission ascii_host (u ''m'') (u ''t'') J_DONE_VERIFIED None True 3 (sample [sample_create, sample_claim]) of
    (Inr b, _) \<Rightarrow> b | _ \<Rightarrow> False" by code_simp

lemma sample_noted: "pending_note_result (sample [sample_create, sample_note]) (u ''m'') (u ''c'') \<noteq> None"
proof -
  let ?d = "sample [sample_create]"
  have d: "md_pending ?d = [] \<and> md_notes ?d = [] \<and> map_option mi_case (mission_of ?d (u ''m'')) = Some (Col [])" by code_simp
  obtain r where r: "mission_of ?d (u ''m'') = Some r" "mi_state r = J_QUEUED" using sample_created by (rule row_isE)
  have strip: "strip (u ''c'') \<noteq> []" "strip (u ''hi'') \<noteq> []" by (simp_all add: strip_def u_def space_cp_def)
  have "accept_pending ascii_host (u ''m'') (u ''c'') (u ''hi'') [] 1 ?d
      = (let p = new_pending ?d (u ''m'') (u ''c'') (u ''hi'') [] 1 in (Inr (RECEIPT_NEW p), ?d\<lparr>md_pending := [p]\<rparr>))"
    using d r strip
    by (simp add: accept_pending_def pending_of_def note_open_def admit_human_note_def note_max_chars_def headroom_def ledger_size_def
        ledger_rows_def legacy_case_notes_def queued_notes_def ledger_max_notes_def ledger_max_chars_def dget_null_def dget_def loop_items_def
        terminal_mission_def terminal_job_states_def Let_def)
  then show ?thesis
    by (simp add: sample_note_def sample_env_def pending_note_result_def pending_of_def new_pending_def Let_def)
qed

end
