(* ===== verification/MissionSafety.thy ===== *)
theory MissionSafety
  imports MissionSample
begin

text \<open>
  What any sequence of transactions guarantees about a mission: its end is final, a lost run
  stays lost, a held run is taken by nobody else, an uncertain run needs a cleanup, a shared
  resource has one holder, an instruction is never rewritten, a wake fires once.
\<close>

lemma well_kept_ids: "well_kept d \<Longrightarrow> distinct (map mi_id (md_missions d))"
  by (simp add: well_kept_def)

lemma mission_of_iff:
  assumes "well_kept d"
  shows "mission_of d m = Some r \<longleftrightarrow> r \<in> set (md_missions d) \<and> mi_id r = m"
proof
  assume r: "r \<in> set (md_missions d) \<and> mi_id r = m"
  have "mission_of d m \<noteq> None" using r by (auto simp: mission_of_def find_None_iff)
  then obtain s where s: "mission_of d m = Some s" by blast
  then have "s \<in> set (md_missions d)" "mi_id s = m" by (auto simp: mission_of_def find_Some_iff)
  then have "s = r" using r well_kept_ids [OF assms] by (metis distinct_map inj_onD)
  with s show "mission_of d m = Some r" by simp
qed (auto simp: mission_of_def find_Some_iff)

lemma mission_unique:
  assumes "well_kept d" "mission_of d m = Some r" "x \<in> set (md_missions d)" "mi_id x = m"
  shows "x = r"
  using assms mission_of_iff [OF assms(1), of m x] by simp

lemma runs_keep: "list_all proper_op ops \<Longrightarrow> well_kept d \<Longrightarrow> well_kept (run_missions E ops d)"
  by (rule mission_runs.run_inv)

lemma from_empty: "list_all proper_op ops \<Longrightarrow> well_kept (run_missions E ops empty_missions)"
  by (rule runs_keep [OF _ empty_well_kept])

lemma runs_grow: "list_all proper_op ops \<Longrightarrow> well_kept d \<Longrightarrow> store_grows (set ops) d (run_missions E ops d)"
  by (rule mission_runs.run_evolves)

text \<open>The row of a mission after a run.\<close>

lemma run_row:
  assumes "list_all proper_op ops" "well_kept d" "mission_of d m = Some r"
  obtains s where "mission_of (run_missions E ops d) m = Some s" "row_moves (rights_of (set ops)) r s"
proof -
  have g: "grown (row_moves (rights_of (set ops))) (md_missions d) (md_missions (run_missions E ops d))"
    using runs_grow [OF assms(1,2)] by (simp add: store_grows_def)
  obtain s where s: "s \<in> set (md_missions (run_missions E ops d))" "row_moves (rights_of (set ops)) r s"
    using grown_member [OF g] assms(2,3) by (auto simp: mission_of_iff)
  have "mi_id s = m" using row_moves_identity [OF s(2)] assms(2,3) by (simp add: same_mission_def mission_of_iff)
  with s(1) have "mission_of (run_missions E ops d) m = Some s" using mission_of_iff [OF runs_keep [OF assms(1,2)]] by blast
  with s(2) that show thesis by blast
qed

lemma owns_iff: "well_kept d \<Longrightarrow> owns ss d m t \<longleftrightarrow> (\<exists>r. mission_of d m = Some r \<and> List.member ss (mi_state r) \<and> mi_token r = t)"
  by (auto simp: owns_def owned_by_def list_ex_iff mission_of_iff)

subsection \<open>Facts of the state machine\<close>

lemma row_move_fenced: "row_move T r s \<Longrightarrow> TOKEN t \<notin> T \<Longrightarrow> t \<noteq> [] \<Longrightarrow> mi_token r \<noteq> t \<Longrightarrow> mi_token s \<noteq> t"
  by (erule row_move_cases) auto

lemma row_moves_fenced:
  assumes "row_moves T r s" "TOKEN t \<notin> T" "t \<noteq> []" "mi_token r \<noteq> t"
  shows "mi_token s \<noteq> t"
  using assms(1,4) unfolding row_moves_def by (induction rule: rtranclp_induct) (auto dest: row_move_fenced [OF _ assms(2,3)])

definition uncertain :: "job_state \<Rightarrow> bool" where
  "uncertain s \<longleftrightarrow> s = J_RECOVERY_REQUIRED \<or> s = J_RECONCILING"

lemma row_move_uncertain:
  "row_move T r s \<Longrightarrow> \<forall>t. CLEANED (mi_id r) t \<notin> T \<Longrightarrow> uncertain (mi_state r) \<or> mi_state r = J_CANCELLED
    \<Longrightarrow> uncertain (mi_state s) \<or> mi_state s = J_CANCELLED"
  by (erule row_move_cases) (auto simp: uncertain_def working_def terminal_mission_def terminal_job_states_def)

lemma row_moves_uncertain:
  assumes "row_moves T r s" "\<forall>t. CLEANED (mi_id r) t \<notin> T" "uncertain (mi_state r)"
  shows "uncertain (mi_state s) \<or> mi_state s = J_CANCELLED"
proof -
  have "(uncertain (mi_state s) \<or> mi_state s = J_CANCELLED) \<and> mi_id s = mi_id r"
    using assms unfolding row_moves_def
  proof (induction rule: rtranclp_induct)
    case (step y z)
    then have "mi_id z = mi_id r" using row_move_identity [of T y z] by (simp add: same_mission_def)
    with step row_move_uncertain [of T y z] show ?case by simp
  qed simp
  then show ?thesis by simp
qed

definition untouched :: "right set \<Rightarrow> pystr \<Rightarrow> pystr \<Rightarrow> bool" where
  "untouched T m t \<longleftrightarrow> LEAVE t \<notin> T \<and> (\<forall>c. EXPIRE c \<in> T \<longrightarrow> \<not> c m) \<and> ASK_PAUSE m \<notin> T \<and> CANCEL m \<notin> T"

lemma row_move_held:
  "row_move T r s \<Longrightarrow> untouched T (mi_id r) (mi_token r) \<Longrightarrow> mi_state r = J_RUNNING \<Longrightarrow> mi_state s = J_RUNNING \<and> mi_token s = mi_token r"
  by (erule row_move_cases) (auto simp: untouched_def)

lemma row_moves_held:
  assumes "row_moves T r s" "untouched T (mi_id r) (mi_token r)" "mi_state r = J_RUNNING"
  shows "mi_state s = J_RUNNING \<and> mi_token s = mi_token r"
proof -
  have "mi_state s = J_RUNNING \<and> mi_token s = mi_token r \<and> mi_id s = mi_id r"
    using assms unfolding row_moves_def
  proof (induction rule: rtranclp_induct)
    case (step y z)
    with row_move_held [of T y z] row_move_identity [of T y z] show ?case by (simp add: same_mission_def)
  qed simp
  then show ?thesis by simp
qed

subsection \<open>The operations of a worker that lost its run\<close>

lemma update_none: "\<not> list_ex hit (md_missions d) \<Longrightarrow> update_missions hit f d = (0, d)"
proof -
  assume a: "\<not> list_ex hit (md_missions d)"
  have "map (\<lambda>r. if hit r then f r else r) rs = rs \<and> filter hit rs = []" if "\<not> list_ex hit rs" for rs
    using that by (induction rs) auto
  with a show ?thesis by (simp add: update_missions_def)
qed

lemma owned_wider: "\<not> list_ex (owned_by [J_RUNNING, J_PAUSING] m t) rs \<Longrightarrow> \<not> list_ex (owned_by [J_RUNNING] m t) rs"
  by (auto simp: list_ex_iff owned_by_def)

lemma find_none: "\<not> list_ex P xs \<Longrightarrow> List.find P xs = None"
  by (auto simp: find_None_iff list_ex_iff)



text \<open>
  Property C3. A worker whose token does not hold the mission stays locked out as long as its
  token is not issued again: at every later time it does not own the mission, its heartbeat is
  refused, and finishing, parking, writing the case, charging and consuming instructions change
  nothing.
\<close>

theorem lost_run_stays_lost:
  assumes "list_all proper_op (ops @ later)" "t \<noteq> []" "TOKEN t \<notin> rights_of (set later)"
    and "mission_of (run_missions E ops empty_missions) m = Some r" "mi_token r \<noteq> t"
    and d: "d = run_missions E (ops @ later) empty_missions"
  shows "\<not> owns [J_RUNNING, J_PAUSING] d m t \<and> renew_run E m t secs now d = (Inr False, d) \<and> finish_mission H m t s res block now d = (Inr False, d)
    \<and> park_mission H m t name nonce why now d = (Inr False, d) \<and> snd (set_case_owned H m t kase now d) = d
    \<and> snd (account_runtime E now m t x d) = d \<and> consume_pending H m t now d = (Inr CONSUME_LOST, d)" (is "?no \<and> _")
proof -
  let ?d = "run_missions E ops empty_missions"
  have wd: "well_kept ?d" "well_kept d" using assms(1) from_empty d by (simp_all del: run_steps_append)
  obtain q where q: "mission_of d m = Some q" "row_moves (rights_of (set later)) r q"
    using run_row [OF _ wd(1) assms(4), of later E] assms(1) d by auto
  have no: ?no using row_moves_fenced [OF q(2) assms(3,2,5)] q(1) wd(2) by (simp add: owns_iff)
  then have h: "\<not> list_ex (owned_by [J_RUNNING, J_PAUSING] m t) (md_missions d)" by (simp add: owns_def)
  have "find (owned_by [J_RUNNING, J_PAUSING] m t) (md_missions d) = None" using find_none [OF h] .
  then show ?thesis
    using no update_none [OF h] update_none [OF owned_wider [OF h]] assms(2)
    by (simp add: renew_run_def finish_mission_def park_mission_def lose_run_def set_case_owned_def account_runtime_def may_account_def
        consume_pending_def split: sum.split)
qed

theorem lost_run_stays_lost_witness:
  "renew_run sample_env (u ''m'') (u ''t'') 90 5 (sample [sample_create, sample_claim, LIFE (M_CANCEL (u ''m'') [] 3), LIFE (M_PAUSE (u ''m'') 4)])
    = (Inr False, sample [sample_create, sample_claim, LIFE (M_CANCEL (u ''m'') [] 3), LIFE (M_PAUSE (u ''m'') 4)])"
proof -
  obtain r where r: "mission_of (sample [sample_create, sample_claim, LIFE (M_CANCEL (u ''m'') [] 3)]) (u ''m'') = Some r" "mi_token r = []"
    by (rule row_isE [OF mission_cancelled])
  have p: "list_all proper_op ([sample_create, sample_claim, LIFE (M_CANCEL (u ''m'') [] 3)] @ [LIFE (M_PAUSE (u ''m'') 4)])" by (simp, code_simp+)
  have t: "u ''t'' \<noteq> []" "TOKEN (u ''t'') \<notin> rights_of (set [LIFE (M_PAUSE (u ''m'') 4)])" by (simp_all add: rights_of_def rights_def)
  have "mi_token r \<noteq> u ''t''" using r(2) t(1) by simp
  from lost_run_stays_lost [OF p t r(1) this refl] show ?thesis by simp
qed

lemma no_claim_of_owned:
  assumes "well_kept d" "mission_of d m = Some r" "mi_token r \<noteq> [] \<or> \<not> List.member ss (mi_state r)"
  shows "claim_mission tok ss lease m now d = (None, d)"
proof -
  have "\<not> list_ex (unowned_in ss m) (md_missions d)"
    using assms(3) by (auto simp: list_ex_iff unowned_in_def dest!: mission_unique [OF assms(1,2)])
  then show ?thesis by (simp add: claim_mission_def find_none)
qed

text \<open>
  Property C27. While no one pauses, cancels or fences it and it does not expire, a running mission
  stays with its worker through any other transactions: nobody else claims it, cleans it up or
  finishes it.
\<close>

theorem held_run_is_exclusive:
  assumes "list_all proper_op (ops @ later)" "mission_of (run_missions E ops empty_missions) m = Some r" "mi_state r = J_RUNNING"
    and "untouched (rights_of (set later)) m (mi_token r)" and d: "d = run_missions E (ops @ later) empty_missions"
  shows "owns [J_RUNNING] d m (mi_token r) \<and> claim_mission tok ss lease m now d = (None, d) \<and> begin_reconcile H tok m note lease now d = (Inr None, d)
    \<and> (t \<noteq> mi_token r \<longrightarrow> finish_mission H m t s res block now d = (Inr False, d))"
proof -
  let ?d = "run_missions E ops empty_missions"
  have wd: "well_kept ?d" "well_kept d" using assms(1) from_empty d by (simp_all del: run_steps_append)
  have r: "mi_id r = m" "row_kept r" using assms(2) wd(1) by (auto simp: mission_of_iff well_kept_def list_all_iff)
  obtain q where q: "mission_of d m = Some q" "row_moves (rights_of (set later)) r q"
    using run_row [OF _ wd(1) assms(2), of later E] assms(1) d by auto
  have h: "mi_state q = J_RUNNING" "mi_token q = mi_token r" using row_moves_held [OF q(2)] assms(3,4) r(1) by simp_all
  have "mi_token q \<noteq> []" using r(2) assms(3) h by (simp add: row_kept_def working_def)
  moreover have "finish_mission H m t s res block now d = (Inr False, d)" if "t \<noteq> mi_token r"
  proof -
    have "\<not> list_ex (owned_by [J_RUNNING] m t) (md_missions d)"
      using that h by (auto simp: list_ex_iff owned_by_def dest!: mission_unique [OF wd(2) q(1)])
    from update_none [OF this] show ?thesis by (simp add: finish_mission_def)
  qed
  ultimately show ?thesis
    using no_claim_of_owned [OF wd(2) q(1), of ss] q(1) h wd(2) by (simp add: owns_iff begin_reconcile_def)
qed

theorem held_run_is_exclusive_witness:
  "claim_mission (u ''x'') [J_QUEUED] 90 (u ''m'') 5 (sample [sample_create, sample_claim, LIFE (M_OWNS (u ''m'') (u ''t'') 90 2)])
    = (None, sample [sample_create, sample_claim, LIFE (M_OWNS (u ''m'') (u ''t'') 90 2)])"
proof -
  obtain r where r: "mission_of (sample [sample_create, sample_claim]) (u ''m'') = Some r" "mi_state r = J_RUNNING" "mi_token r = u ''t''"
    by (rule row_isE [OF sample_claimed])
  have p: "list_all proper_op ([sample_create, sample_claim] @ [LIFE (M_OWNS (u ''m'') (u ''t'') 90 2)])" by (simp, code_simp+)
  have f: "untouched (rights_of (set [LIFE (M_OWNS (u ''m'') (u ''t'') 90 2)])) (u ''m'') (mi_token r)"
    by (simp add: rights_of_def rights_def untouched_def)
  from held_run_is_exclusive [OF p r(1,2) f refl] show ?thesis by simp
qed

text \<open>
  Property C13. A mission whose worker was lost in an uncertain state goes back to work only
  through a completed cleanup; until then it is uncertain or cancelled and no claim of it
  succeeds; and a cleanup completes only for the holder of its live token when the mission holds
  no live resource.
\<close>

theorem uncertain_run_needs_cleanup:
  assumes "list_all proper_op (ops @ later)" "mission_of (run_missions E ops empty_missions) m = Some r" "uncertain (mi_state r)"
    and "\<forall>t. CLEANED m t \<notin> rights_of (set later)" and d: "d = run_missions E (ops @ later) empty_missions"
  shows "\<exists>s. mission_of d m = Some s \<and> (uncertain (mi_state s) \<or> mi_state s = J_CANCELLED)
    \<and> (claimable_states ss \<longrightarrow> claim_mission tok ss lease m now d = (None, d))
    \<and> (fst (finish_reconcile m t now d) \<longrightarrow> mi_state s = J_RECONCILING \<and> mi_token s = t \<and> now < mi_lease s \<and> active_resources d m now = [])"
proof -
  let ?d = "run_missions E ops empty_missions"
  have wd: "well_kept ?d" "well_kept d" using assms(1) from_empty d by (simp_all del: run_steps_append)
  have r: "mi_id r = m" using assms(2) wd(1) by (simp add: mission_of_iff)
  obtain q where q: "mission_of d m = Some q" "row_moves (rights_of (set later)) r q"
    using run_row [OF _ wd(1) assms(2), of later E] assms(1) d by auto
  have u: "uncertain (mi_state q) \<or> mi_state q = J_CANCELLED" using row_moves_uncertain [OF q(2)] assms(3,4) r by simp
  then have "claim_mission tok ss lease m now d = (None, d)" if "claimable_states ss"
    using that by (intro no_claim_of_owned [OF wd(2) q(1)]) (auto simp: claimable_states_def uncertain_def)
  moreover have "mi_state q = J_RECONCILING \<and> mi_token q = t \<and> now < mi_lease q \<and> active_resources d m now = []" if f: "fst (finish_reconcile m t now d)"
  proof -
    have "list_ex (live_cleanup m t now) (md_missions d)" "\<not> list_ex (\<lambda>l. lr_mission l = m \<and> now < lr_until l) (md_leases d)"
      using f by (auto simp: finish_reconcile_def split: if_splits)
    then show ?thesis
      by (auto simp: list_ex_iff live_cleanup_def owned_by_def active_resources_def filter_empty_conv dest!: mission_unique [OF wd(2) q(1)])
  qed
  ultimately show ?thesis using q(1) u by blast
qed

theorem uncertain_run_needs_cleanup_witness:
  "claim_mission (u ''x'') [J_QUEUED, J_WAITING] 90 (u ''m'') 5 (sample [sample_create, sample_claim, LIFE (M_FENCE (u ''m'') (u ''t'') [] [] 3), LIFE (M_PAUSE (u ''m'') 4)])
    = (None, sample [sample_create, sample_claim, LIFE (M_FENCE (u ''m'') (u ''t'') [] [] 3), LIFE (M_PAUSE (u ''m'') 4)])"
proof -
  obtain r where r: "mission_of (sample [sample_create, sample_claim, LIFE (M_FENCE (u ''m'') (u ''t'') [] [] 3)]) (u ''m'') = Some r"
      "mi_state r = J_RECOVERY_REQUIRED"
    by (rule row_isE [OF sample_fenced])
  have p: "list_all proper_op ([sample_create, sample_claim, LIFE (M_FENCE (u ''m'') (u ''t'') [] [] 3)] @ [LIFE (M_PAUSE (u ''m'') 4)])" by (simp, code_simp+)
  have f: "\<forall>t. CLEANED (u ''m'') t \<notin> rights_of (set [LIFE (M_PAUSE (u ''m'') 4)])" by (simp add: rights_of_def rights_def)
  have "uncertain (mi_state r)" "claimable_states [J_QUEUED, J_WAITING]" using r(2) by (simp_all add: uncertain_def claimable_states_def)
  with uncertain_run_needs_cleanup [OF p r(1) _ f refl, where ss = "[J_QUEUED, J_WAITING]"] show ?thesis by auto
qed



lemma settle_phase_keeps:
  "md_missions (snd (settle_phase H m s now d)) = md_missions d" "md_pending (snd (settle_phase H m s now d)) = md_pending d"
  by (auto simp: settle_phase_def mark_human_def update_runtime_def split: sum.split)

lemma update_missions_some:
  assumes "update_missions hit f d = (n, d1)" "n \<noteq> 0"
  obtains r where "r \<in> set (md_missions d)" "hit r" "f r \<in> set (md_missions d1)" "md_pending d1 = md_pending d"
proof -
  have n: "filter hit (md_missions d) \<noteq> []" using assms by (auto simp: update_missions_def)
  then obtain r where "r \<in> set (md_missions d)" "hit r" by (auto simp: filter_empty_conv)
  with assms(1) that show thesis by (force simp: update_missions_def)
qed

text \<open>The notes of a mission that is over and has none pending.\<close>

lemma over_takes_no_note:
  assumes "pending_moves d (md_pending d) ps" "queued_notes d m = []" "r \<in> set (md_missions d)" "mi_id r = m" "terminal_mission (mi_state r)"
  shows "filter (\<lambda>p. pn_mission p = m \<and> pn_state p = PN_PENDING) ps = []"
proof -
  have "\<not> (pn_mission (ps ! i) = m \<and> pn_state (ps ! i) = PN_PENDING)" if i: "i < length ps" for i
  proof (cases "i < length (md_pending d)")
    case True
    then have "same_pending (md_pending d ! i) (ps ! i)" using assms(1) by (auto simp: pending_moves_def dest: grown_nth)
    moreover have "\<not> (pn_mission (md_pending d ! i) = m \<and> pn_state (md_pending d ! i) = PN_PENDING)"
      using assms(2) True by (auto simp: queued_notes_def filter_empty_conv)
    ultimately show ?thesis by (auto simp: same_pending_def)
  next
    case False
    then have "\<not> closed_to d (ps ! i)"
      using assms(1) i by (auto simp: pending_moves_def list_all_length dest!: spec [of _ "i - length (md_pending d)"])
    with assms(3-5) show ?thesis by (auto simp: closed_to_def list_ex_iff)
  qed
  then show ?thesis by (auto simp: filter_empty_conv in_set_conv_nth)
qed

text \<open>
  Property C26. When a finish that respects pending instructions closes a mission, the mission has
  none pending then and after any later transactions: no instruction of a person is accepted and
  never seen.
\<close>

theorem clean_finish_hides_no_note:
  assumes "list_all proper_op (ops @ LIFE (M_FINISH m t s res True now) # later)" "terminal_mission s"
    and "fst (finish_mission (mv_host E) m t s res True now (run_missions E ops empty_missions)) = Inr True"
  shows "queued_notes (run_missions E (ops @ LIFE (M_FINISH m t s res True now) # later) empty_missions) m = []"
proof -
  let ?d = "run_missions E ops empty_missions"
  define e where "e = snd (finish_mission (mv_host E) m t s res True now ?d)"
  have wd: "well_kept ?d" "well_kept e" using assms(1) from_empty perform_well_kept [of "LIFE (M_FINISH m t s res True now)" ?d E] by (simp_all add: e_def)
  have run: "run_missions E (ops @ LIFE (M_FINISH m t s res True now) # later) empty_missions = run_missions E later e" by (simp add: e_def)
  obtain n d1 where u: "update_missions (owned_by [J_RUNNING] m t) (\<lambda>r. r\<lparr>mi_state := s, mi_token := [], mi_lease := 0,
      mi_result := (case res of None \<Rightarrow> mi_result r | Some x \<Rightarrow> x), mi_updated := now\<rparr>) ?d = (n, d1)" by fastforce
  have f: "\<not> list_ex (\<lambda>p. pn_mission p = m \<and> pn_state p = PN_PENDING) (md_pending ?d)" "n \<noteq> 0" "e = snd (settle_phase (mv_host E) m s now d1)"
    using assms(3) u by (auto simp: e_def finish_mission_def split: if_splits sum.splits prod.splits)
  obtain r where r: "r \<in> set (md_missions d1)" "mi_id r = m" "mi_state r = s" "md_pending d1 = md_pending ?d"
    by (rule update_missions_some [OF u f(2)]) (auto simp: owned_by_def)
  have "queued_notes e m = []"
    using f(1) r(4) settle_phase_keeps(2) by (auto simp: f(3) queued_notes_def filter_empty_conv list_ex_iff)
  moreover have "pending_moves e (md_pending e) (md_pending (run_missions E later e))"
    using runs_grow [OF _ wd(2), of later E] assms(1) by (simp add: store_grows_def)
  moreover have "r \<in> set (md_missions e)" using r(1) settle_phase_keeps(1) by (simp add: f(3))
  ultimately show ?thesis
    unfolding run queued_notes_def [of "run_missions E later e"] using over_takes_no_note [of e _ m r] r(2,3) assms(2) by blast
qed

theorem clean_finish_hides_no_note_witness:
  "queued_notes (sample [sample_create, sample_claim, LIFE (M_FINISH (u ''m'') (u ''t'') J_DONE_VERIFIED None True 3), sample_note]) (u ''m'') = []"
proof -
  have p: "list_all proper_op ([sample_create, sample_claim] @ LIFE (M_FINISH (u ''m'') (u ''t'') J_DONE_VERIFIED None True 3) # [sample_note])"
      "terminal_mission J_DONE_VERIFIED" by (simp, code_simp+)
  have "fst (finish_mission (mv_host sample_env) (u ''m'') (u ''t'') J_DONE_VERIFIED None True 3 (sample [sample_create, sample_claim])) = Inr True"
    using sample_finish by (simp add: sample_env_def split: prod.splits sum.splits)
  from clean_finish_hides_no_note [OF p this] show ?thesis by simp
qed

subsection \<open>Instructions\<close>

lemma distinct_refs:
  "distinct (message_refs ns) \<Longrightarrow> distinct (filter (\<lambda>r. r \<noteq> []) (map hn_ref (filter (\<lambda>n. hn_mission n = m) ns)))"
  by (induction ns) (auto simp: message_refs_def image_iff, metis)

text \<open>
  Property C25. The ledger of a mission is only ever appended to, in the order of its ids, and no
  message identity is in it twice, whatever is delivered again and in whatever order.
\<close>

theorem instructions_are_kept:
  assumes "list_all proper_op (ops @ later)"
  shows "(\<exists>new. ledger_rows (run_missions E (ops @ later) empty_missions) m = ledger_rows (run_missions E ops empty_missions) m @ new)
    \<and> sorted_wrt (<) (map hn_id (ledger_rows (run_missions E ops empty_missions) m))
    \<and> distinct (filter (\<lambda>r. r \<noteq> []) (map hn_ref (ledger_rows (run_missions E ops empty_missions) m)))"
proof -
  let ?d = "run_missions E ops empty_missions"
  have wd: "well_kept ?d" using assms from_empty by simp
  have "grown (=) (md_notes ?d) (md_notes (run_missions E later ?d))"
    using runs_grow [OF _ wd, of later E] assms by (simp add: store_grows_def)
  then obtain zs where zs: "md_notes (run_missions E later ?d) = md_notes ?d @ zs" by (auto simp: grown_eq)
  have "sorted_wrt (<) (map hn_id (md_notes ?d))" using wd by (simp add: well_kept_def numbered_sorted)
  then have "sorted_wrt (<) (map hn_id (ledger_rows ?d m))"
    unfolding ledger_rows_def sorted_wrt_map by (rule sorted_wrt_filter)
  moreover have "distinct (filter (\<lambda>r. r \<noteq> []) (map hn_ref (ledger_rows ?d m)))"
    using distinct_refs [of "md_notes ?d"] wd by (simp add: well_kept_def ledger_rows_def)
  ultimately show ?thesis using zs by (simp add: ledger_rows_def)
qed

theorem instructions_are_kept_witness:
  "\<exists>new. ledger_rows (sample [sample_create, sample_claim]) (u ''m'') = ledger_rows (sample [sample_create]) (u ''m'') @ new"
  using instructions_are_kept [of "[sample_create]" "[sample_claim]" sample_env "u ''m''"] by simp

text \<open>
  The receipt of an accepted instruction is found again under its client id after any
  later transactions, with its text and time, and once it is settled it does not change.
\<close>

theorem settled_note_is_final:
  assumes "list_all proper_op (ops @ later)" "pending_note_result (run_missions E ops empty_missions) m client = Some p"
  shows "\<exists>q. pending_note_result (run_missions E (ops @ later) empty_missions) m client = Some q \<and> pn_id q = pn_id p \<and> pn_note q = pn_note p
    \<and> pn_at q = pn_at p \<and> (pn_state p \<noteq> PN_PENDING \<longrightarrow> q = p)"
proof -
  let ?d = "run_missions E ops empty_missions" and ?e = "run_missions E (ops @ later) empty_missions"
  have wd: "well_kept ?d" using assms(1) from_empty by simp
  have g: "grown same_pending (md_pending ?d) (md_pending ?e)"
    using runs_grow [OF _ wd, of later E] assms(1) by (simp add: store_grows_def pending_moves_def)
  obtain i where i: "i < length (md_pending ?d)" "md_pending ?d ! i = p" "pn_mission p = m" "pn_client p = client"
      "\<And>j. j < i \<Longrightarrow> \<not> (pn_mission (md_pending ?d ! j) = m \<and> pn_client (md_pending ?d ! j) = client)"
    using assms(2) by (auto simp: pending_note_result_def pending_of_def find_Some_iff)
  have same: "same_pending (md_pending ?d ! j) (md_pending ?e ! j)" if "j \<le> i" for j using g that i(1) by (simp add: grown_iff)
  have "i < length (md_pending ?e)" using grown_length [OF g] i(1) by simp
  then have "pending_note_result ?e m client = Some (md_pending ?e ! i)"
    using i same by (auto simp: pending_note_result_def pending_of_def find_Some_iff same_pending_def intro!: exI [of _ i])
  with same [of i] i(2) show ?thesis by (auto simp: same_pending_def)
qed

theorem settled_note_is_final_witness:
  "pending_note_result (sample [sample_create, sample_note, sample_claim]) (u ''m'') (u ''c'') \<noteq> None"
proof -
  obtain p where p: "pending_note_result (sample [sample_create, sample_note]) (u ''m'') (u ''c'') = Some p" using sample_noted by blast
  have "list_all proper_op ([sample_create, sample_note] @ [sample_claim])" by simp
  from settled_note_is_final [OF this p] show ?thesis by auto
qed

subsection \<open>Wakes\<close>

text \<open>The wake an operation fires.\<close>

definition fires :: "mission_op \<Rightarrow> mission_db \<Rightarrow> nat option" where
  "fires a d = (case a of
     BOOKS (M_CLAIM_WAIT i) \<Rightarrow> if fst (claim_mission_wait i d) then Some i else None
   | LIFE (M_WAKE tok m force lease lane now) \<Rightarrow> map_option (wk_id \<circ> fst) (fst (claim_wake tok m force lease lane now d))
   | _ \<Rightarrow> None)"

definition wake_step :: "mission_env \<Rightarrow> mission_op \<Rightarrow> mission_db \<Rightarrow> nat option \<times> mission_db" where
  "wake_step E a d = (if proper_op a then (fires a d, perform E a d) else (None, d))"

definition wake_open :: "mission_db \<Rightarrow> nat \<Rightarrow> bool" where
  "wake_open d i \<longleftrightarrow> list_ex (\<lambda>w. wk_id w = i \<and> wk_state w = WK_PENDING) (md_wakes d) \<or> length (md_wakes d) < i"

lemma fire_some:
  assumes "fst (fire_wake i d) = 1"
  obtains w where "w \<in> set (md_wakes d)" "wk_id w = i" "wk_state w = WK_PENDING"
proof -
  have "filter (\<lambda>w. wk_id w = i \<and> wk_state w = WK_PENDING) (md_wakes d) \<noteq> []" using assms by (auto simp: fire_wake_def Let_def)
  with that show thesis by (auto simp: filter_empty_conv)
qed

lemma fire_kills:
  assumes "numbered wk_id (md_wakes d)" "fst (fire_wake i d) = 1" "md_wakes d1 = md_wakes (snd (fire_wake i d))"
  shows "\<not> wake_open d1 i"
proof -
  obtain w where w: "w \<in> set (md_wakes d)" "wk_id w = i" by (rule fire_some [OF assms(2)])
  have i: "i \<le> length (md_wakes d)" using numbered_bound [OF assms(1) w(1)] unfolding w(2) .
  have d1: "md_wakes d1 = map (\<lambda>w. if wk_id w = i \<and> wk_state w = WK_PENDING then w\<lparr>wk_state := WK_FIRED\<rparr> else w) (md_wakes d)"
    unfolding assms(3) by (simp add: fire_wake_def Let_def)
  have off: "\<not> list_ex (\<lambda>w. wk_id w = i \<and> wk_state w = WK_PENDING) (map (\<lambda>w. if wk_id w = i \<and> wk_state w = WK_PENDING then w\<lparr>wk_state := WK_FIRED\<rparr> else w) ws)" for ws
    by (induction ws) simp_all
  show ?thesis unfolding wake_open_def d1 length_map using i off [of "md_wakes d"] by simp
qed

lemma wakes_closed:
  assumes "wakes_move (md_wakes d) (md_wakes e)" "numbered wk_id (md_wakes d)" "\<not> wake_open d i"
  shows "\<not> wake_open e i"
proof -
  have n: "numbered wk_id (md_wakes e)" and len: "length (md_wakes d) \<le> length (md_wakes e)"
    using assms(1,2) by (auto simp: wakes_move_def dest: grown_length)
  have i: "i \<le> length (md_wakes d)" using assms(3) by (simp add: wake_open_def)
  have "\<not> (wk_id (md_wakes e ! j) = i \<and> wk_state (md_wakes e ! j) = WK_PENDING)" if j: "j < length (md_wakes e)" for j
  proof
    assume h: "wk_id (md_wakes e ! j) = i \<and> wk_state (md_wakes e ! j) = WK_PENDING"
    with numbered_nth [OF n j] i have jl: "j < length (md_wakes d)" by simp
    then have "same_wake (md_wakes d ! j) (md_wakes e ! j)" using assms(1) by (auto simp: wakes_move_def dest: grown_nth)
    with h have "wk_id (md_wakes d ! j) = i \<and> wk_state (md_wakes d ! j) = WK_PENDING" by (auto simp: same_wake_def)
    with assms(3) jl show False by (auto simp: wake_open_def list_ex_iff)
  qed
  with i len show ?thesis by (auto simp: wake_open_def list_ex_iff in_set_conv_nth)
qed

lemma claim_wake_fires:
  assumes "claim_wake tok m force lease lane now d = (Some (w, t), d')"
  obtains e where "md_wakes e = md_wakes d" "fst (fire_wake (wk_id w) e) = 1" "md_wakes d' = md_wakes (snd (fire_wake (wk_id w) e))"
proof -
  obtain ws where ws: "sort_key wk_fire (filter (wake_claimable d m force lane now) (md_wakes d)) = w # ws"
    using assms by (auto simp: claim_wake_def Let_def split_beta split: list.splits if_splits)
  define e where "e = snd (take_run (unowned_in [J_WAITING] (wk_mission w)) tok lease now (snd (delete_leases (settled_fence (wk_mission w) now) d)))"
  have "md_wakes e = md_wakes d" by (simp add: e_def take_run_def update_missions_def delete_leases_def)
  moreover have "fst (fire_wake (wk_id w) e) = 1" "md_wakes d' = md_wakes (snd (fire_wake (wk_id w) e))"
    using assms ws unfolding claim_wake_def Let_def split_beta e_def by (auto simp: started_def update_runtime_def split: if_splits)
  ultimately show thesis using that by blast
qed

lemma fires_open:
  assumes "fires a d = Some i" "well_kept d"
  shows "wake_open d i" "\<not> wake_open (perform E a d) i"
proof -
  have n: "numbered wk_id (md_wakes d)" using assms(2) by (simp add: well_kept_def)
  obtain e where e: "md_wakes e = md_wakes d" "fst (fire_wake i e) = 1" "md_wakes (perform E a d) = md_wakes (snd (fire_wake i e))"
  proof (cases "\<exists>j. a = BOOKS (M_CLAIM_WAIT j)")
    case True
    then show thesis using assms(1) that [of d] by (auto simp: fires_def claim_mission_wait_def split_beta Let_def split: if_splits)
  next
    case False
    then obtain tok m force lease lane now where a: "a = LIFE (M_WAKE tok m force lease lane now)"
      using assms(1) by (auto simp: fires_def split: mission_op.splits life_op.splits book_op.splits)
    then obtain w t where "claim_wake tok m force lease lane now d = (Some (w, t), perform E a d)" "i = wk_id w"
      using assms(1) by (cases "claim_wake tok m force lease lane now d") (auto simp: fires_def)
    then show thesis using that by (metis claim_wake_fires)
  qed
  obtain w where "w \<in> set (md_wakes e)" "wk_id w = i" "wk_state w = WK_PENDING" by (rule fire_some [OF e(2)])
  with e(1) show "wake_open d i" by (auto simp: wake_open_def list_ex_iff)
  show "\<not> wake_open (perform E a d) i" using fire_kills [of e i] n e by simp
qed

interpretation wakes: once_latch "wake_step E" wake_open well_kept for E
proof
  fix a s r s' k
  assume st: "wake_step E a s = (r, s')" and wk: "well_kept s"
  show "well_kept s'" using st wk by (auto simp: wake_step_def perform_well_kept split: if_splits)
  show "\<not> wake_open s k \<Longrightarrow> \<not> wake_open s' k"
    using st wk perform_grows [of a s E] wakes_closed [of s s' k] by (auto simp: wake_step_def store_grows_def well_kept_def split: if_splits)
next
  fix a s s' k
  assume st: "wake_step E a s = (Some k, s')" and wk: "well_kept s"
  then have "fires a s = Some k" "s' = perform E a s" by (auto simp: wake_step_def split: if_splits)
  with fires_open [OF this(1) wk] show "wake_open s k" "\<not> wake_open s' k" by simp_all
qed

text \<open>
  Property C29. Over any sequence of transactions, also improper ones that are ignored, a wake is
  won at most once, by the claim of the wake itself or of the mission that waits for it.
\<close>

theorem wake_fires_once:
  "count_list (fst (run_ops (wake_step E) ops empty_missions)) (Some i) \<le> 1"
  by (rule wakes.wins_at_most_once [OF empty_well_kept])

end
