(* ===== verification/MissionBudget.thy ===== *)
theory MissionBudget
  imports MissionSafety
begin

text \<open>
  Budgets across a campaign. A reservation is checked against the mission and every ancestor
  of it; the proposals and turns of a mission are tallied over its whole subtree. Both
  budgets are one locale, \<open>campaign_budget\<close>: what is tallied never comes back once it is
  discounted, and a reservation that passes leaves every ancestor within its limit.
\<close>

subsection \<open>Ancestors and subtrees\<close>

lemma kept_runtime:
  assumes "well_kept d"
  shows "distinct (map rt_id (md_runtime d))" "set (map rt_id (md_runtime d)) = mi_id ` set (md_missions d)"
  using assms by (simp_all add: well_kept_def)

lemma kept_nonempty:
  assumes "well_kept d" "r \<in> set (md_runtime d)"
  shows "rt_id r \<noteq> []"
proof -
  have "rt_id r \<in> mi_id ` set (md_missions d)" using kept_runtime(2) [OF assms(1)] assms(2) by auto
  with assms(1) show ?thesis by (auto simp: well_kept_def list_all_iff row_kept_def)
qed

lemma runtime_of_iff:
  assumes "well_kept d"
  shows "runtime_of d m = Some r \<longleftrightarrow> r \<in> set (md_runtime d) \<and> rt_id r = m"
proof
  assume r: "r \<in> set (md_runtime d) \<and> rt_id r = m"
  have "runtime_of d m \<noteq> None" using r by (auto simp: runtime_of_def find_None_iff)
  then obtain s where s: "runtime_of d m = Some s" by blast
  then have "s \<in> set (md_runtime d)" "rt_id s = m" by (auto simp: runtime_of_def find_Some_iff)
  then have "s = r" using r kept_runtime(1) [OF assms] by (metis distinct_map inj_onD)
  with s show "runtime_of d m = Some r" by simp
qed (auto simp: runtime_of_def find_Some_iff)

lemma kept_has_mission:
  assumes "well_kept d" "runtime_of d m = Some r"
  obtains q where "mission_of d m = Some q"
proof -
  have "m \<in> mi_id ` set (md_missions d)" using assms kept_runtime(2) [OF assms(1)] by (auto simp: runtime_of_iff)
  with that show thesis using mission_of_iff [OF assms(1)] by blast
qed

text \<open>In a well-kept store the walk loses no row, and a complete lineage is closed under parents.\<close>

lemma with_mission_ids:
  assumes "well_kept d" "set rows \<subseteq> set (md_runtime d)"
  shows "map fst (with_mission d rows) = rows \<and> list_all (\<lambda>(r, q). mission_of d (rt_id r) = Some q) (with_mission d rows)"
  using assms(2)
proof (induction rows)
  case (Cons r rs)
  then obtain q where "mission_of d (rt_id r) = Some q"
    using kept_has_mission [OF assms(1), of "rt_id r" r] runtime_of_iff [OF assms(1)] by auto
  with Cons show ?case by simp
qed simp

lemma walk_rows: "well_kept d \<Longrightarrow> set (lineage_walk n d m) \<subseteq> set (md_runtime d)"
proof (induction n arbitrary: m)
  case (Suc n)
  show ?case
  proof (cases "runtime_of d m")
    case (Some r)
    then have "r \<in> set (md_runtime d)" using runtime_of_iff [OF Suc(2)] by simp
    with Suc Some show ?thesis by simp
  qed simp
qed simp

lemma walk_start:
  assumes "well_kept d" "lineage_walk n d m \<noteq> []"
  shows "\<exists>s \<in> set (lineage_walk n d m). rt_id s = m"
proof (cases n)
  case (Suc k)
  then obtain x where x: "runtime_of d m = Some x" using assms(2) by (cases "runtime_of d m") simp_all
  then have "rt_id x = m" using runtime_of_iff [OF assms(1)] by simp
  with x Suc show ?thesis by simp
qed (use assms in simp)

lemma walk_closed:
  "well_kept d \<Longrightarrow> lineage_walk n d m \<noteq> [] \<Longrightarrow> rt_parent (last (lineage_walk n d m)) = []
    \<Longrightarrow> r \<in> set (lineage_walk n d m) \<Longrightarrow> rt_parent r = [] \<or> (\<exists>s \<in> set (lineage_walk n d m). rt_id s = rt_parent r)"
proof (induction n arbitrary: m)
  case (Suc n)
  then obtain x where x: "runtime_of d m = Some x" by (cases "runtime_of d m") simp_all
  show ?case
  proof (cases "lineage_walk n d (rt_parent x) = []")
    case True
    then show ?thesis using Suc x by simp
  next
    case False
    from walk_start [OF Suc(2) False] show ?thesis using Suc x False by auto
  qed
qed simp

lemma lineage_rows:
  assumes "well_kept d" "lineage d m = Inr rows"
  shows "map fst rows = lineage_walk 64 d m" "lineage_walk 64 d m \<noteq> []" "rt_parent (last (lineage_walk 64 d m)) = []"
    "\<And>r q. (r, q) \<in> set rows \<Longrightarrow> mission_of d (rt_id r) = Some q"
proof -
  have rows: "rows = with_mission d (lineage_walk 64 d m)" "rows \<noteq> []" "rt_parent (fst (last rows)) = []"
    using assms(2) by (auto simp: lineage_def Let_def split: if_splits)
  have f: "map fst rows = lineage_walk 64 d m"
    using with_mission_ids [OF assms(1) walk_rows [OF assms(1)]] rows(1) by simp
  show "map fst rows = lineage_walk 64 d m" by (rule f)
  show "lineage_walk 64 d m \<noteq> []" using f rows(2) by (metis map_is_Nil_conv)
  show "rt_parent (last (lineage_walk 64 d m)) = []" using f rows(2,3) by (metis last_map)
  show "mission_of d (rt_id r) = Some q" if "(r, q) \<in> set rows" for r q
    using that with_mission_ids [OF assms(1) walk_rows [OF assms(1)], of 64 m] rows(1) by (auto simp: list_all_iff)
qed

text \<open>Every mission above the acting one is in its lineage.\<close>

lemma lineage_covers:
  assumes "well_kept d" "lineage d m = Inr rows" "m \<in> set (mission_subtree d b)" "b \<noteq> []"
  obtains r q where "(r, q) \<in> set rows" "rt_id r = b" "mission_of d b = Some q"
proof -
  let ?walk = "lineage_walk 64 d m" and ?E = "set (parent_edges d)"
  note l = lineage_rows [OF assms(1,2)]
  have path: "(b, m) \<in> ?E\<^sup>*" using assms(3) by (simp add: mission_subtree_def reach_closure)
  have "x = [] \<or> (\<exists>s \<in> set ?walk. rt_id s = x)" if "(x, m) \<in> ?E\<^sup>*" for x
    using that
  proof (induction rule: converse_rtrancl_induct)
    case base
    then show ?case using walk_start [OF assms(1) l(2)] by simp
  next
    case (step p x)
    from step(1) obtain r where r: "r \<in> set (md_runtime d)" "rt_id r = x" "rt_parent r = p" by (auto simp: parent_edges_def)
    then have "x \<noteq> []" using kept_nonempty [OF assms(1) r(1)] by simp
    with step(3) obtain s where s: "s \<in> set ?walk" "rt_id s = x" by blast
    then have "s \<in> set (md_runtime d)" using walk_rows [OF assms(1)] by blast
    then have "s = r" using r s(2) runtime_of_iff [OF assms(1)] by (metis option.inject)
    with walk_closed [OF assms(1) l(2,3) s(1)] r(3) show ?case by blast
  qed
  with path assms(4) obtain s where s: "s \<in> set ?walk" "rt_id s = b" by blast
  then have "s \<in> set (map fst rows)" using l(1) by simp
  then obtain q where "(s, q) \<in> set rows" by force
  with l(4) [OF this] s(2) that show thesis by blast
qed

subsection \<open>The contract of a budget\<close>

definition below :: "(mission_db \<Rightarrow> mission_event \<Rightarrow> bool) \<Rightarrow> mission_db \<Rightarrow> pystr \<Rightarrow> mission_event list" where
  "below tallied d b = filter (\<lambda>e. tallied d e \<and> List.member (mission_subtree d b) (me_mission e)) (md_events d)"

definition in_budget :: "(mission_db \<Rightarrow> mission_event \<Rightarrow> bool) \<Rightarrow> (pydict \<Rightarrow> int result) \<Rightarrow> mission_db \<Rightarrow> bool" where
  "in_budget tallied limit d \<longleftrightarrow> (\<forall>q \<in> set (md_missions d). \<forall>c. limit (jl (mi_leash q)) = Inr c \<longrightarrow> int (length (below tallied d (mi_id q))) \<le> max 0 c)
     \<and> (\<forall>e \<in> set (md_events d). tallied d e \<longrightarrow> me_mission e \<in> mi_id ` set (md_missions d))"

lemma same_edges: "list_all2 same_runtime (md_runtime d) (md_runtime e) \<Longrightarrow> mission_subtree e = mission_subtree d"
proof -
  assume "list_all2 same_runtime (md_runtime d) (md_runtime e)"
  then have "parent_edges e = parent_edges d"
    unfolding parent_edges_def by (induction rule: list_all2_induct) (auto simp: same_runtime_def)
  then show ?thesis by (simp add: mission_subtree_def fun_eq_iff)
qed

locale campaign_budget =
  fixes tallied :: "mission_db \<Rightarrow> mission_event \<Rightarrow> bool"
    and limit :: "pydict \<Rightarrow> int result"
  assumes never_back: "md_events d' = md_events d @ new \<Longrightarrow> e \<in> set (md_events d) \<Longrightarrow> tallied d' e \<Longrightarrow> tallied d e"
    and quiet_free: "quiet e \<Longrightarrow> \<not> tallied d e"
begin

text \<open>Events that are not tallied leave every budget as it was, or lower.\<close>

lemma below_quiet:
  assumes "md_events d' = md_events d @ new" "\<forall>e \<in> set new. \<not> tallied d' e" "set (mission_subtree d' b) \<inter> K \<subseteq> set (mission_subtree d b)"
    "\<And>e. e \<in> set (md_events d) \<Longrightarrow> tallied d e \<Longrightarrow> me_mission e \<in> K"
  shows "length (below tallied d' b) \<le> length (below tallied d b)"
proof -
  have "below tallied d' b = filter (\<lambda>e. tallied d' e \<and> List.member (mission_subtree d' b) (me_mission e)) (md_events d)"
    using assms(1,2) by (auto simp: below_def filter_empty_conv)
  moreover have "length (filter P es) \<le> length (filter Q es)" if "\<forall>e \<in> set es. P e \<longrightarrow> Q e" for P Q and es :: "mission_event list"
    using that by (induction es) auto
  ultimately show ?thesis
    unfolding below_def [of tallied d b] using assms(3,4) never_back [OF assms(1)] by (auto simp: subset_iff)
qed

lemma moves_within:
  assumes "store_moves T q d d'" "in_budget tallied limit d" "\<forall>e \<in> set (drop (length (md_events d)) (md_events d')). \<not> tallied d' e"
  shows "in_budget tallied limit d'"
proof -
  have m: "list_all2 (row_moves T) (md_missions d) (md_missions d')" and rt: "list_all2 same_runtime (md_runtime d) (md_runtime d')"
    using assms(1) by (simp_all add: store_moves_def)
  obtain new where ev: "md_events d' = md_events d @ new" using assms(1) by (auto simp: store_moves_def quietly_grown_def grown_eq)
  have fresh: "\<forall>e \<in> set new. \<not> tallied d' e" using assms(3) ev by simp
  have same: "mission_subtree d' = mission_subtree d" by (rule same_edges [OF rt])
  have low: "length (below tallied d' b) \<le> length (below tallied d b)" for b
    by (rule below_quiet [OF ev fresh, where K = UNIV]) (simp_all add: same)
  have "int (length (below tallied d' (mi_id s))) \<le> max 0 c" if s: "s \<in> set (md_missions d')" "limit (jl (mi_leash s)) = Inr c" for s c
  proof -
    obtain r where r: "r \<in> set (md_missions d)" "row_moves T r s" using m s(1) by (metis in_set_conv_nth list_all2_conv_all_nth)
    have "mi_id r = mi_id s" "mi_leash r = mi_leash s" using row_moves_identity [OF r(2)] by (simp_all add: same_mission_def)
    with assms(2) r(1) s(2) low [of "mi_id s"] show ?thesis unfolding in_budget_def by (metis of_nat_le_iff order_trans)
  qed
  moreover have "me_mission e \<in> mi_id ` set (md_missions d')" if "e \<in> set (md_events d')" "tallied d' e" for e
  proof -
    have "e \<in> set (md_events d)" using that ev fresh by auto
    with that never_back [OF ev] assms(2) have "me_mission e \<in> mi_id ` set (md_missions d)" by (simp add: in_budget_def)
    with moved_ids [OF m] show ?thesis by (metis list.set_map)
  qed
  ultimately show ?thesis by (simp add: in_budget_def)
qed

lemma quiet_within:
  assumes "store_moves T True d d'" "in_budget tallied limit d"
  shows "in_budget tallied limit d'"
  by (rule moves_within [OF assms]) (use assms(1) quiet_free in \<open>auto simp: store_moves_def quietly_grown_def list_all_iff\<close>)

text \<open>A new mission starts with nothing tallied below it.\<close>

lemma create_within:
  assumes "in_budget tallied limit d" "well_kept d" "m \<noteq> []"
  shows "in_budget tallied limit (snd (create_mission_row H m goal leash kase lane run now d))"
proof (cases rule: create_cases [of H m goal leash kase lane run now d])
  case (new parent ln)
  define d' where "d' = d\<lparr>md_missions := md_missions d @ [fresh_mission m goal leash kase now], md_runtime := md_runtime d @ [fresh_runtime H m parent ln run kase now]\<rparr>"
  have ev: "md_events d' = md_events d @ []" by (simp add: d'_def)
  let ?K = "mi_id ` set (md_missions d)"
  have m: "m \<notin> ?K" using new(2) by (auto simp: mission_of_def find_None_iff)
  have edges: "set (parent_edges d') = insert (parent, m) (set (parent_edges d))" by (auto simp: d'_def parent_edges_def fresh_runtime_def)
  have into: "(x, m) \<notin> set (parent_edges d)" "(m, x) \<notin> set (parent_edges d)" for x
  proof -
    show "(x, m) \<notin> set (parent_edges d)" using m kept_runtime(2) [OF assms(2)] by (force simp: parent_edges_def)
    have "parents_first [] rs \<Longrightarrow> r \<in> set rs \<Longrightarrow> rt_parent r = [] \<or> rt_parent r \<in> rt_id ` set rs" for rs and r :: runtime_row
      by (induction rs rule: rev_induct) (auto simp: parents_first_append)
    then show "(m, x) \<notin> set (parent_edges d)"
      using m assms(3) kept_runtime(2) [OF assms(2)] assms(2) by (force simp: parent_edges_def well_kept_def)
  qed
  have old: "(b, x) \<in> (set (parent_edges d))\<^sup>*" if "(b, x) \<in> (set (parent_edges d'))\<^sup>*" "x \<noteq> m" for b x
    using that
  proof (induction rule: rtrancl_induct)
    case (step y z)
    then have "(y, z) \<in> set (parent_edges d)" using edges by auto
    moreover have "y \<noteq> m" using into(2) calculation by blast
    ultimately show ?case using step(3) by (meson rtrancl.rtrancl_into_rtrancl)
  qed simp
  have sub: "set (mission_subtree d' b) \<inter> ?K \<subseteq> set (mission_subtree d b)" for b
    using old m by (auto simp: mission_subtree_def reach_closure)
  have known: "e \<in> set (md_events d) \<Longrightarrow> tallied d e \<Longrightarrow> me_mission e \<in> ?K" for e using assms(1) by (simp add: in_budget_def)
  have low: "length (below tallied d' b) \<le> length (below tallied d b)" for b
    by (rule below_quiet [OF ev _ sub known]) simp_all
  have "x = m" if "(m, x) \<in> (set (parent_edges d'))\<^sup>*" for x
    using that by (induction rule: rtrancl_induct) (use edges into(2) assms(3) m new(4) in \<open>auto simp: parent_open_def mission_of_def find_Some_iff split: option.splits\<close>)
  then have alone: "x = m" if "x \<in> set (mission_subtree d' m)" for x using that by (simp add: mission_subtree_def reach_closure)
  have "me_mission e \<noteq> m" if "e \<in> set (md_events d)" "tallied d' e" for e
    using known [OF that(1) never_back [OF ev that]] m by auto
  then have "below tallied d' m = []" using alone ev by (auto simp: below_def filter_empty_conv)
  then have budget: "int (length (below tallied d' (mi_id q))) \<le> max 0 c"
    if q: "q \<in> set (md_missions d')" "limit (jl (mi_leash q)) = Inr c" for q c
  proof (cases "q \<in> set (md_missions d)")
    case True
    with assms(1) q(2) have "int (length (below tallied d (mi_id q))) \<le> max 0 c" unfolding in_budget_def by blast
    with low [of "mi_id q"] show ?thesis by simp
  next
    case False
    with q(1) have "mi_id q = m" by (auto simp: d'_def fresh_mission_def)
    with \<open>below tallied d' m = []\<close> show ?thesis by simp
  qed
  have "me_mission e \<in> mi_id ` set (md_missions d')" if "e \<in> set (md_events d')" "tallied d' e" for e
  proof -
    have e: "e \<in> set (md_events d)" using that(1) ev by simp
    from known [OF e never_back [OF ev e that(2)]] show ?thesis by (simp add: d'_def)
  qed
  with budget have "in_budget tallied limit d'" unfolding in_budget_def by blast
  then show ?thesis unfolding new(1) d'_def .
qed (simp add: assms(1))

text \<open>A granted reservation: every ancestor had room for one more.\<close>

lemma reserve_within:
  assumes "in_budget tallied limit d" "well_kept d" "store_moves T False d d'" "md_events d' = md_events d @ [e]" "me_mission e = m"
    and "lineage d m = Inr rows" "\<And>r q c. (r, q) \<in> set rows \<Longrightarrow> limit (jl (mi_leash q)) = Inr c \<Longrightarrow> int (length (below tallied d (rt_id r))) < c"
  shows "in_budget tallied limit d'"
proof -
  have mv: "list_all2 (row_moves T) (md_missions d) (md_missions d')" and rt: "list_all2 same_runtime (md_runtime d) (md_runtime d')"
    using assms(3) by (simp_all add: store_moves_def)
  have same: "mission_subtree d' = mission_subtree d" by (rule same_edges [OF rt])
  have mono: "length (filter P es) \<le> length (filter Q es)" if "\<forall>x \<in> set es. P x \<longrightarrow> Q x" for P Q and es :: "mission_event list"
    using that by (induction es) auto
  have old: "length (filter (\<lambda>x. tallied d' x \<and> List.member (mission_subtree d b) (me_mission x)) (md_events d)) \<le> length (below tallied d b)" for b
    unfolding below_def using never_back [OF assms(4)] by (intro mono) blast
  have one: "length (below tallied d' b) \<le> length (below tallied d b) + (if List.member (mission_subtree d b) m then 1 else 0)" for b
    using old [of b] assms(5) by (auto simp: below_def [of tallied d'] assms(4) same)
  have "int (length (below tallied d' (mi_id s))) \<le> max 0 c" if s: "s \<in> set (md_missions d')" "limit (jl (mi_leash s)) = Inr c" for s c
  proof -
    obtain r where r: "r \<in> set (md_missions d)" "row_moves T r s" using mv s(1) by (metis in_set_conv_nth list_all2_conv_all_nth)
    have id: "mi_id r = mi_id s" "mi_leash r = mi_leash s" using row_moves_identity [OF r(2)] by (simp_all add: same_mission_def)
    have in_r: "int (length (below tallied d (mi_id s))) \<le> max 0 c" using assms(1) r(1) s(2) id unfolding in_budget_def by metis
    show ?thesis
    proof (cases "m \<in> set (mission_subtree d (mi_id s))")
      case True
      have "mi_id s \<noteq> []" using assms(2) r(1) id(1) by (auto simp: well_kept_def list_all_iff row_kept_def)
      then obtain x q where x: "(x, q) \<in> set rows" "rt_id x = mi_id s" "mission_of d (mi_id s) = Some q"
        using lineage_covers [OF assms(2,6) True] by blast
      have "q = r" using mission_unique [OF assms(2) x(3) r(1) id(1)] by simp
      then have "int (length (below tallied d (mi_id s))) < c" using assms(7) [OF x(1)] s(2) id(2) x(2) by simp
      with one [of "mi_id s"] True show ?thesis by simp
    next
      case False
      with one [of "mi_id s"] in_r show ?thesis by simp
    qed
  qed
  moreover have "me_mission x \<in> mi_id ` set (md_missions d')" if x: "x \<in> set (md_events d')" "tallied d' x" for x
  proof -
    have ids: "mi_id ` set (md_missions d') = mi_id ` set (md_missions d)" using moved_ids [OF mv] by (metis list.set_map)
    show ?thesis
    proof (cases "x \<in> set (md_events d)")
      case True
      with x(2) never_back [OF assms(4)] assms(1) ids show ?thesis by (simp add: in_budget_def)
    next
      case False
      with x(1) assms(4,5) have "me_mission x = m" by simp
      moreover obtain s where "s \<in> set (lineage_walk 64 d m)" "rt_id s = m"
        using walk_start [OF assms(2) lineage_rows(2) [OF assms(2,6)]] by blast
      then have "m \<in> rt_id ` set (md_runtime d)" using walk_rows [OF assms(2)] by blast
      ultimately show ?thesis using ids kept_runtime(2) [OF assms(2)] by simp
    qed
  qed
  ultimately show ?thesis by (simp add: in_budget_def)
qed

end

subsection \<open>The two budgets of the program\<close>

definition irreversible_cap :: "mission_env \<Rightarrow> pydict \<Rightarrow> int result" where
  "irreversible_cap E leash = leash_int (mv_host E) leash ''max_irreversible_actions'' 100"

definition steps_cap :: "mission_env \<Rightarrow> pydict \<Rightarrow> int result" where
  "steps_cap E leash = leash_int (mv_host E) leash ''max_total_steps'' 1000"

interpretation proposals: campaign_budget live_proposal "irreversible_cap E" for E
  by unfold_locales (auto simp: live_proposal_def quiet_def)

interpretation turns: campaign_budget "\<lambda>_. turn_event" "steps_cap E" for E
  by unfold_locales (auto simp: quiet_def)

lemma proposals_below_eq: "proposals_below d b = below live_proposal d b"
  by (simp add: proposals_below_def below_def Let_def)

lemma turns_below_eq: "turns_below d b = length (below (\<lambda>_. turn_event) d b)"
  by (simp add: turns_below_def below_def Let_def)

lemma quotas_room:
  "action_quotas H now d m rows = Inr None \<Longrightarrow> (r, q) \<in> set rows
    \<Longrightarrow> leash_int H (jl (mi_leash q)) ''max_irreversible_actions'' 100 = Inr c \<Longrightarrow> int (length (proposals_below d (rt_id r))) < c"
  by (induction H now d m rows rule: action_quotas.induct)
    (auto simp: action_quota_def Let_def bind_result_Inr_iff split: if_splits option.splits)

lemma turns_room:
  "turns_left H d rows = Inr True \<Longrightarrow> (r, q) \<in> set rows \<Longrightarrow> leash_int H (jl (mi_leash q)) ''max_total_steps'' 1000 = Inr c
    \<Longrightarrow> int (turns_below d (rt_id r)) < c"
  by (induction rows) (auto simp: bind_result_Inr_iff split: if_splits)

text \<open>What a reservation appends, when it is granted.\<close>

lemma reserve_action_cases:
  obtains (refused) "snd (reserve_action E rid m key ir name p rt now d) = d"
  | (granted) rows x where "lineage d m = Inr rows" "ir \<Longrightarrow> action_quotas (mv_host E) now d m rows = Inr None"
      "snd (reserve_action E rid m key ir name p rt now d) = reserve_rows rid m key ir name rt x now d"
proof (cases "lineage d m")
  case (Inl why)
  then show thesis by (intro refused) (simp add: reserve_action_def Let_def)
next
  case (Inr rows)
  let ?b = "bind_result (mission_budget_reason E now d m) (\<lambda>why.
      if why \<noteq> [] then Inr (Some (why, 0)) else if ir then action_quotas (mv_host E) now d m rows else Inr None)"
  show thesis
  proof (cases ?b)
    case (Inl e)
    with Inr show thesis by (intro refused) (simp add: reserve_action_def Let_def)
  next
    case b: (Inr a)
    show thesis
    proof (cases a)
      case (Some y)
      with Inr b show thesis by (intro refused) (simp add: reserve_action_def Let_def split_beta)
    next
      case None
      have q: "action_quotas (mv_host E) now d m rows = Inr None" if ir
        using b None that by (auto simp: bind_result_Inr_iff split: if_splits)
      show thesis
      proof (cases "owns [J_RUNNING] d m rt \<and> (if key = [] then None else blocking_key d ir (rt_id (fst (last rows))) m key) = None
          \<and> (\<exists>x. js (compact_event (mv_host E) p) = Inr x)")
        case True
        then obtain x where "js (compact_event (mv_host E) p) = Inr x" by blast
        with True Inr b None show thesis by (intro granted [OF Inr q, of x]) (simp_all add: reserve_action_def Let_def)
      next
        case False
        with Inr b None show thesis
          by (intro refused) (auto simp: reserve_action_def Let_def split: option.split sum.split if_splits)
      qed
    qed
  qed
qed

lemma reserve_decision_cases:
  obtains (refused) "snd (reserve_decision E m rt mc p now d) = d"
  | (granted) rows n where "lineage d m = Inr rows" "turns_left (mv_host E) d rows = Inr True"
      "snd (reserve_decision E m rt mc p now d)
        = count_turn m mc (add_mission_event m (if mc then u ''decision'' else u ''planning_turn'') n [] [] now d)"
proof (cases "lineage d m")
  case (Inl why)
  then show thesis by (intro refused) (simp add: reserve_decision_def)
next
  case (Inr rows)
  let ?b = "bind_result (mission_budget_reason E now d m) (\<lambda>why. if why \<noteq> [] then Inr False else turns_left (mv_host E) d rows)"
  show thesis
  proof (cases "?b = Inr True \<and> \<not> (case rt of None \<Rightarrow> False | Some t \<Rightarrow> \<not> owns_live now d m t)")
    case True
    then have "turns_left (mv_host E) d rows = Inr True" by (auto simp: bind_result_Inr_iff split: if_splits)
    with True Inr show thesis by (intro granted [OF Inr]) (simp_all add: reserve_decision_def)
  next
    case False
    then show thesis using Inr by (intro refused) (auto simp: reserve_decision_def split: sum.split bool.split)
  qed
qed

lemma plain_events:
  assumes "store_moves T True d d'" "e \<in> set (drop (length (md_events d)) (md_events d'))"
  shows "quiet e"
  using assms by (auto simp: store_moves_def quietly_grown_def list_all_iff)

lemma kinds_apart:
  "proposed_irreversible \<noteq> u ''decision''" "proposed_irreversible \<noteq> u ''planning_turn''" "u ''proposed'' \<noteq> proposed_irreversible"
  "u ''proposed'' \<noteq> u ''decision''" "u ''proposed'' \<noteq> u ''planning_turn''"
  by (simp_all add: proposed_irreversible_def)

lemma reserve_action_proposals:
  assumes "in_budget live_proposal (irreversible_cap E) d" "well_kept d"
  shows "in_budget live_proposal (irreversible_cap E) (snd (reserve_action E rid m key ir name p rt now d))"
proof (cases rule: reserve_action_cases [of E rid m key ir name p rt now d])
  case (granted rows x)
  define d' where "d' = snd (reserve_action E rid m key ir name p rt now d)"
  have mv: "store_moves {} False d d'" unfolding d'_def by (rule moves_reserve_action) simp
  obtain e where e: "md_events d' = md_events d @ [e]" "me_mission e = m" "me_kind e = (if ir then proposed_irreversible else u ''proposed'')"
    unfolding d'_def granted(3) by (simp add: reserve_rows_def add_mission_event_def Let_def)
  show ?thesis
  proof (cases ir)
    case True
    have "int (length (below live_proposal d (rt_id r))) < c" if "(r, q) \<in> set rows" "irreversible_cap E (jl (mi_leash q)) = Inr c" for r q c
      using quotas_room [OF granted(2) [OF True] that(1)] that(2) by (simp add: irreversible_cap_def proposals_below_eq)
    from proposals.reserve_within [OF assms mv e(1,2) granted(1) this] show ?thesis by (simp add: d'_def)
  next
    case False
    have "\<not> live_proposal d' e" using e(3) False kinds_apart by (simp add: live_proposal_def)
    with proposals.moves_within [OF mv assms(1)] e(1) show ?thesis by (simp add: d'_def)
  qed
qed (simp add: assms(1))

lemma reserve_action_turns:
  assumes "in_budget (\<lambda>_. turn_event) (steps_cap E) d"
  shows "in_budget (\<lambda>_. turn_event) (steps_cap E) (snd (reserve_action E rid m key ir name p rt now d))"
proof (cases rule: reserve_action_cases [of E rid m key ir name p rt now d])
  case (granted rows x)
  define d' where "d' = snd (reserve_action E rid m key ir name p rt now d)"
  have mv: "store_moves {} False d d'" unfolding d'_def by (rule moves_reserve_action) simp
  obtain e where e: "md_events d' = md_events d @ [e]" "me_kind e = (if ir then proposed_irreversible else u ''proposed'')"
    unfolding d'_def granted(3) by (simp add: reserve_rows_def add_mission_event_def Let_def)
  have "\<not> turn_event e" using e(2) kinds_apart by (simp add: turn_event_def)
  with turns.moves_within [OF mv assms] e(1) show ?thesis by (simp add: d'_def)
qed (simp add: assms)

lemma reserve_decision_turns:
  assumes "in_budget (\<lambda>_. turn_event) (steps_cap E) d" "well_kept d"
  shows "in_budget (\<lambda>_. turn_event) (steps_cap E) (snd (reserve_decision E m rt mc p now d))"
proof (cases rule: reserve_decision_cases [of E m rt mc p now d])
  case (granted rows n)
  define d' where "d' = snd (reserve_decision E m rt mc p now d)"
  have mv: "store_moves {} False d d'" unfolding d'_def by (rule moves_reserve_decision) simp
  obtain e where e: "md_events d' = md_events d @ [e]" "me_mission e = m"
    unfolding d'_def granted(3) by (simp add: count_turn_def update_runtime_def add_mission_event_def)
  have "int (length (below (\<lambda>_. turn_event) d (rt_id r))) < c" if "(r, q) \<in> set rows" "steps_cap E (jl (mi_leash q)) = Inr c" for r q c
    using turns_room [OF granted(2) that(1)] that(2) by (simp add: steps_cap_def turns_below_eq)
  from turns.reserve_within [OF assms mv e granted(1) this] show ?thesis by (simp add: d'_def)
qed (simp add: assms(1))

lemma reserve_decision_proposals:
  assumes "in_budget live_proposal (irreversible_cap E) d"
  shows "in_budget live_proposal (irreversible_cap E) (snd (reserve_decision E m rt mc p now d))"
proof (cases rule: reserve_decision_cases [of E m rt mc p now d])
  case (granted rows n)
  define d' where "d' = snd (reserve_decision E m rt mc p now d)"
  have mv: "store_moves {} False d d'" unfolding d'_def by (rule moves_reserve_decision) simp
  obtain e where e: "md_events d' = md_events d @ [e]" "me_kind e = (if mc then u ''decision'' else u ''planning_turn'')"
    unfolding d'_def granted(3) by (simp add: count_turn_def update_runtime_def add_mission_event_def)
  have "\<not> live_proposal d' e" using e(2) kinds_apart by (auto simp: live_proposal_def)
  with proposals.moves_within [OF mv assms] e(1) show ?thesis by (simp add: d'_def)
qed (simp add: assms)

subsection \<open>Over any sequence of operations\<close>

definition budgets_kept :: "mission_env \<Rightarrow> mission_db \<Rightarrow> bool" where
  "budgets_kept E d \<longleftrightarrow> in_budget live_proposal (irreversible_cap E) d \<and> in_budget (\<lambda>_. turn_event) (steps_cap E) d"

lemma perform_budgets:
  assumes "proper_op a" "well_kept d" "budgets_kept E d"
  shows "budgets_kept E (perform E a d)"
proof (cases "creating a")
  case True
  then show ?thesis
    using assms by (cases a) (simp_all add: creating_def proper_op_def budgets_kept_def proposals.create_within turns.create_within)
next
  case False
  show ?thesis
  proof (cases "reserving a")
    case True
    then obtain b where b: "a = RESERVES b" by (cases a) (simp_all add: reserving_def)
    then show ?thesis
      using True assms
      by (cases b) (simp_all add: reserving_def budgets_kept_def reserve_action_proposals reserve_action_turns
          reserve_decision_proposals reserve_decision_turns)
  next
    case quiet: False
    have "store_moves (set (rights a)) True d (perform E a d)"
      using perform_moves [OF assms(1) False, of d E] assms(2) quiet by (simp add: well_kept_def)
    with assms(3) show ?thesis by (simp add: budgets_kept_def proposals.quiet_within turns.quiet_within)
  qed
qed

lemma runs_in_budget:
  "list_all proper_op ops \<Longrightarrow> well_kept d \<Longrightarrow> budgets_kept E d \<Longrightarrow> budgets_kept E (run_missions E ops d)"
  by (induction ops arbitrary: d) (simp_all add: perform_budgets perform_well_kept)

lemma empty_in_budget: "budgets_kept E empty_missions"
  by (simp add: budgets_kept_def in_budget_def empty_missions_def)

text \<open>
  Property C6. After any transactions the proposals of irreversible actions in the subtree of a
  mission, and its turns, are within the limits of its leash, however many missions below it
  reserve at once.
\<close>

theorem campaign_never_overspends:
  assumes "list_all proper_op ops" "d = run_missions E ops empty_missions" "mission_of d b = Some q"
  shows "(irreversible_cap E (jl (mi_leash q)) = Inr c \<longrightarrow> int (length (proposals_below d b)) \<le> max 0 c)
    \<and> (steps_cap E (jl (mi_leash q)) = Inr n \<longrightarrow> int (turns_below d b) \<le> max 0 n)"
proof -
  have "budgets_kept E d" using runs_in_budget [OF assms(1) empty_well_kept empty_in_budget] assms(2) by simp
  moreover have "q \<in> set (md_missions d)" "mi_id q = b" using assms(3) by (auto simp: mission_of_def find_Some_iff)
  ultimately show ?thesis by (auto simp: budgets_kept_def in_budget_def proposals_below_eq turns_below_eq)
qed

theorem campaign_never_overspends_witness:
  "length (proposals_below (sample [sample_create, sample_claim, sample_reserve]) (u ''m'')) \<le> 100"
proof -
  have "\<exists>q. mission_of (sample [sample_create, sample_claim, sample_reserve]) (u ''m'') = Some q
      \<and> irreversible_cap sample_env (jl (mi_leash q)) = Inr 100"
  proof -
    have "(case mission_of (sample [sample_create, sample_claim, sample_reserve]) (u ''m'') of None \<Rightarrow> False
      | Some q \<Rightarrow> irreversible_cap sample_env (jl (mi_leash q)) = Inr 100)" by code_simp
    then show ?thesis by (auto split: option.splits)
  qed
  then obtain q where q: "mission_of (sample [sample_create, sample_claim, sample_reserve]) (u ''m'') = Some q"
      "irreversible_cap sample_env (jl (mi_leash q)) = Inr 100" by blast
  have "list_all proper_op [sample_create, sample_claim, sample_reserve]" by simp
  from campaign_never_overspends [OF this refl q(1), of 100 0] q(2) show ?thesis by simp
qed

end
