(* ===== verification/MissionFence.thy ===== *)
theory MissionFence
  imports MissionBudget
begin

text \<open>
  What the store fences: the key of an irreversible action is used once in a campaign, the
  rows move only along the state machine, and the recovery of a worker that died puts nothing
  back in the queue that may have acted.
\<close>

subsection \<open>Keys of actions\<close>

text \<open>Two missions of one campaign have the same root.\<close>

definition campaign_root :: "mission_db \<Rightarrow> pystr \<Rightarrow> pystr option" where
  "campaign_root d m = (case lineage d m of Inl _ \<Rightarrow> None | Inr rows \<Rightarrow> Some (rt_id (fst (last rows))))"

lemma walk_reaches:
  assumes "well_kept d" "lineage_walk n d m \<noteq> []"
  shows "(rt_id (last (lineage_walk n d m)), m) \<in> (set (parent_edges d))\<^sup>*"
  using assms(2)
proof (induction n arbitrary: m)
  case (Suc n)
  then obtain x where x: "runtime_of d m = Some x" by (cases "runtime_of d m") simp_all
  then have id: "x \<in> set (md_runtime d)" "rt_id x = m" using runtime_of_iff [OF assms(1)] by simp_all
  show ?case
  proof (cases "lineage_walk n d (rt_parent x) = []")
    case True
    then show ?thesis using x id by simp
  next
    case False
    have "(rt_parent x, m) \<in> set (parent_edges d)" using id by (auto simp: parent_edges_def)
    with Suc.IH [OF False] x False show ?thesis by (auto intro: rtrancl_into_rtrancl)
  qed
qed simp

lemma root_covers:
  assumes "well_kept d" "lineage d m = Inr rows"
  shows "m \<in> set (mission_subtree d (rt_id (fst (last rows))))"
proof -
  note l = lineage_rows [OF assms]
  have "rows \<noteq> []" using l(1,2) by auto
  then have "fst (last rows) = last (lineage_walk 64 d m)" using l(1) by (metis last_map)
  with walk_reaches [OF assms(1) l(2)] show ?thesis by (simp add: mission_subtree_def reach_closure)
qed

lemma key_blocks:
  assumes "k \<in> set (md_keys d)" "if ir then ak_mission k \<in> set (mission_subtree d b) else ak_mission k = m" "ak_key k = key"
  shows "blocking_key d ir b m key \<noteq> None"
  using assms by (auto simp: blocking_key_def Let_def find_None_iff simp del: not_None_eq split: if_splits)

lemma blocked_key_refused:
  assumes "key \<noteq> []" "\<And>rows. lineage d m = Inr rows \<Longrightarrow> blocking_key d ir (rt_id (fst (last rows))) m key \<noteq> None"
  shows "fst (reserve_action E rid m key ir name p rt now d) \<noteq> Inr GRANTED" "snd (reserve_action E rid m key ir name p rt now d) = d"
  using assms by (auto simp: reserve_action_def Let_def split: sum.split option.split)

text \<open>
  Property C2. While no reservation of the mission is given back, the key of an action that was
  reserved is refused to every mission of the same campaign that asks for an irreversible action,
  and to the mission itself for any action, and the store is unchanged.
\<close>

theorem irreversible_key_is_used_once:
  assumes "list_all proper_op (ops @ later)" "k \<in> set (md_keys (run_missions E ops empty_missions))" "ak_key k \<noteq> []"
    and "DROP (ak_mission k) \<notin> rights_of (set later)" and d: "d = run_missions E (ops @ later) empty_missions"
    and "ir \<and> campaign_root d m = campaign_root d (ak_mission k) \<and> campaign_root d m \<noteq> None \<or> m = ak_mission k"
  shows "fst (reserve_action E rid m (ak_key k) ir name p rt now d) \<noteq> Inr GRANTED
    \<and> snd (reserve_action E rid m (ak_key k) ir name p rt now d) = d"
proof -
  let ?d = "run_missions E ops empty_missions"
  have wd: "well_kept ?d" "well_kept d" using assms(1) from_empty d by (simp_all del: run_steps_append)
  have "keys_move (rights_of (set later)) (md_keys ?d) (md_keys d)"
    using runs_grow [OF _ wd(1), of later E] assms(1) d by (simp add: store_grows_def)
  with assms(2,4) obtain j where j: "j \<in> set (md_keys d)" "ak_mission j = ak_mission k" "ak_key j = ak_key k"
    by (auto simp: keys_move_def)
  have "blocking_key d ir (rt_id (fst (last rows))) m (ak_key k) \<noteq> None" if rows: "lineage d m = Inr rows" for rows
  proof (rule key_blocks [OF j(1) _ j(3)])
    have "ak_mission k \<in> set (mission_subtree d (rt_id (fst (last rows))))"
      using assms(6) rows root_covers [OF wd(2)] by (auto simp: campaign_root_def split: sum.splits)
    with assms(6) j(2) show "if ir then ak_mission j \<in> set (mission_subtree d (rt_id (fst (last rows)))) else ak_mission j = m"
      by auto
  qed
  then show ?thesis using blocked_key_refused [OF assms(3)] by blast
qed

theorem irreversible_key_is_used_once_witness:
  "fst (reserve_action sample_env (u ''r2'') (u ''m'') (u ''key'') True (u ''send'') [] (u ''t'') 9
     (sample [sample_create, sample_claim, sample_reserve, LIFE (M_OWNS (u ''m'') (u ''t'') 90 2)])) \<noteq> Inr GRANTED"
proof -
  obtain k where k: "k \<in> set (md_keys (sample [sample_create, sample_claim, sample_reserve]))" "ak_mission k = u ''m''" "ak_key k = u ''key''"
    using sample_reserved by (cases "md_keys (sample [sample_create, sample_claim, sample_reserve])") auto
  have p: "list_all proper_op ([sample_create, sample_claim, sample_reserve] @ [LIFE (M_OWNS (u ''m'') (u ''t'') 90 2)])" by (simp, code_simp)
  have f: "DROP (ak_mission k) \<notin> rights_of (set [LIFE (M_OWNS (u ''m'') (u ''t'') 90 2)])" by (simp add: rights_of_def rights_def)
  have key: "ak_key k \<noteq> []" using k(3) by (simp add: u_def)
  show ?thesis
    using irreversible_key_is_used_once [OF p k(1) key f refl disjI2 [OF k(2) [symmetric]], of "u ''r2''" True "u ''send''" "[]" "u ''t''" 9] k(3)
    by simp
qed

subsection \<open>The state machine\<close>

lemma perform_row:
  assumes "proper_op a" "well_kept d" "mission_of d m = Some r"
  obtains s where "mission_of (perform E a d) m = Some s" "row_moves (set (rights a)) r s"
  using run_row [of "[a]" d m r E] assms by (auto simp: rights_of_def)

lemma fresh_row:
  assumes "well_kept d" "proper_op a" "mission_of d m = None" "mission_of (perform E a d) m = Some s"
  shows "creating a \<and> mi_state s = J_QUEUED \<and> mi_token s = []"
proof (cases "creating a")
  case True
  then obtain i goal leash kase lane run now where a: "a = M_CREATE i goal leash kase lane run now"
    by (cases a) (simp_all add: creating_def)
  show ?thesis
  proof (cases rule: create_cases [of "mv_host E" i goal leash kase lane run now d])
    case same
    with assms(3,4) a show ?thesis by simp
  next
    case (new parent ln)
    have "s \<in> set (md_missions (perform E a d))" "mi_id s = m" using assms(4) by (auto simp: mission_of_def find_Some_iff)
    moreover have "\<forall>x \<in> set (md_missions d). mi_id x \<noteq> m" using assms(3) by (auto simp: mission_of_def find_None_iff)
    ultimately show ?thesis using new(1) True by (auto simp: a fresh_mission_def)
  qed
next
  case False
  have "list_all2 (row_moves (set (rights a))) (md_missions d) (md_missions (perform E a d))"
    using perform_moves [OF assms(2) False, of d E] assms(1) by (simp add: well_kept_def store_moves_def)
  from moved_ids [OF this] have "m \<in> mi_id ` set (md_missions d)"
    using assms(4) mission_of_iff [OF perform_well_kept [OF assms(2,1)]] by (metis image_eqI list.set_map)
  with assms(3) show ?thesis by (auto simp: mission_of_def find_None_iff)
qed



subsection \<open>Recovery of lost workers\<close>

definition phase_of :: "mission_db \<Rightarrow> pystr \<Rightarrow> pystr" where
  "phase_of d m = (case runtime_of d m of None \<Rightarrow> [] | Some r \<Rightarrow> rt_phase r)"

definition recovered :: "(pystr \<Rightarrow> bool) \<Rightarrow> int \<Rightarrow> mission_db \<Rightarrow> mission_row \<Rightarrow> mission_row \<Rightarrow> bool" where
  "recovered confirmed now d r s \<longleftrightarrow> s = r
     \<or> same_mission r s \<and> stale now r \<and> confirmed (mi_id r) \<and> mi_token s = []
       \<and> (mi_state s = J_RECOVERY_REQUIRED
          \<or> (mi_state s = J_QUEUED \<or> mi_state s = J_NEEDS_YOU) \<and> safe_phase (phase_of d (mi_id r)) \<and> \<not> json_invalid (jl (mi_leash r)))"

lemma recovered_state_cases:
  "recovered_state corrupt safe why = (s, w) \<Longrightarrow>
    s = J_RECOVERY_REQUIRED \<or> (s = J_QUEUED \<or> s = J_NEEDS_YOU) \<and> safe \<and> \<not> corrupt"
  by (auto simp: recovered_state_def split: if_splits)

definition lost_row :: "job_state \<Rightarrow> pystr \<Rightarrow> int \<Rightarrow> mission_row \<Rightarrow> mission_row" where
  "lost_row s why now r = r\<lparr>mi_state := s, mi_token := [], mi_lease := 0, mi_result := why, mi_updated := now\<rparr>"

definition same_run :: "int \<Rightarrow> mission_row \<Rightarrow> mission_row \<Rightarrow> bool" where
  "same_run now q r \<longleftrightarrow> mi_id r = mi_id q \<and> working (mi_state r) \<and> mi_lease r \<le> now \<and> mi_token r = mi_token q"

lemma recover_mission_moves:
  assumes "recover_mission E confirmed now q rt d = Inr (b, e)" "confirmed (mi_id q)"
  obtains s why where "s = J_RECOVERY_REQUIRED
      \<or> (s = J_QUEUED \<or> s = J_NEEDS_YOU) \<and> safe_phase (case rt of None \<Rightarrow> [] | Some r \<Rightarrow> rt_phase r) \<and> \<not> json_invalid (jl (mi_leash q))"
    and "md_missions e = map (\<lambda>r. if same_run now q r then lost_row s why now r else r) (md_missions d)"
proof -
  from assms obtain ms where ms: "step_millis E (jl (mi_leash q)) = Inr ms"
    by (cases "step_millis E (jl (mi_leash q))") (auto simp: recover_mission_def)
  define n where "n = inflight_ms now ms q rt"
  define d1 where "d1 = (if n = 0 then d else update_runtime (\<lambda>r. rt_id r = mi_id q) (charge_wall n now) d)"
  from assms ms obtain why where why: "mission_budget_reason E now d1 (mi_id q) = Inr why"
    by (cases "mission_budget_reason E now d1 (mi_id q)") (auto simp: recover_mission_def Let_def d1_def n_def cong: if_cong)
  obtain s w where sw: "recovered_state (json_invalid (jl (mi_leash q))) (safe_phase (case rt of None \<Rightarrow> [] | Some r \<Rightarrow> rt_phase r)) why = (s, w)"
    by fastforce
  have "md_missions e = md_missions (snd (lose_run (same_run now q) s w now d1))"
    using assms ms why sw unfolding same_run_def
    by (auto simp: recover_mission_def Let_def d1_def n_def phase_moves_def update_runtime_def split_beta cong: if_cong split: if_splits)
  also have "\<dots> = map (\<lambda>r. if same_run now q r then lost_row s w now r else r) (md_missions d)"
    by (simp add: lose_run_def update_missions_def lost_row_def d1_def update_runtime_def Let_def)
  finally show thesis using that recovered_state_cases [OF sw] by blast
qed

lemma mission_of_distinct:
  assumes "distinct (map mi_id (md_missions d))" "s \<in> set (md_missions d)" "mi_id s = m"
  shows "mission_of d m = Some s"
proof -
  have "mission_of d m \<noteq> None" using assms by (auto simp: mission_of_def find_None_iff simp del: not_None_eq)
  then obtain x where x: "mission_of d m = Some x" by blast
  then have "x \<in> set (md_missions d)" "mi_id x = m" by (auto simp: mission_of_def find_Some_iff)
  with assms have "x = s" by (metis distinct_map inj_onD)
  with x show ?thesis by simp
qed

lemma recover_mission_rows:
  assumes "recover_mission E confirmed now q (runtime_of d0 (mi_id q)) d = Inr (b, e)"
    and "list_all2 (recovered confirmed now d0) rs (md_missions d)" "q \<in> set rs" "stale now q" "distinct (map mi_id rs)"
  shows "list_all2 (recovered confirmed now d0) rs (md_missions e)"
proof (cases "confirmed (mi_id q)")
  case True
  obtain s why where sw: "s = J_RECOVERY_REQUIRED
      \<or> (s = J_QUEUED \<or> s = J_NEEDS_YOU) \<and> safe_phase (phase_of d0 (mi_id q)) \<and> \<not> json_invalid (jl (mi_leash q))"
    and e: "md_missions e = map (\<lambda>r. if same_run now q r then lost_row s why now r else r) (md_missions d)"
    using recover_mission_moves [OF assms(1) True] unfolding phase_of_def by blast
  have "recovered confirmed now d0 r (if same_run now q t then lost_row s why now t else t)"
    if rt: "recovered confirmed now d0 r t" "r \<in> set rs" for r t
  proof (cases "same_run now q t")
    case h: True
    have "t = r" using rt(1) h by (auto simp: recovered_def same_run_def working_def)
    moreover have "r = q" using h \<open>t = r\<close> rt(2) assms(3,5) unfolding same_run_def by (metis distinct_map inj_onD)
    ultimately show ?thesis using h sw True assms(4) by (auto simp: recovered_def same_mission_def lost_row_def)
  qed (use rt in simp)
  with assms(2) show ?thesis by (auto simp: e list_all2_conv_all_nth)
next
  case False
  then show ?thesis using assms(1,2) by (auto simp: recover_mission_def Let_def add_mission_event_def)
qed

lemma recover_each_rows:
  assumes "recover_each E confirmed now (map (\<lambda>q. (q, runtime_of d0 (mi_id q))) qs) n d = Inr (k, e)"
    and "list_all2 (recovered confirmed now d0) rs (md_missions d)" "\<forall>q \<in> set qs. q \<in> set rs \<and> stale now q" "distinct (map mi_id rs)"
  shows "list_all2 (recovered confirmed now d0) rs (md_missions e)"
  using assms
proof (induction qs arbitrary: n d)
  case (Cons q qs)
  then obtain b d1 where 1: "recover_mission E confirmed now q (runtime_of d0 (mi_id q)) d = Inr (b, d1)"
    by (cases "recover_mission E confirmed now q (runtime_of d0 (mi_id q)) d") auto
  have "list_all2 (recovered confirmed now d0) rs (md_missions d1)"
    using recover_mission_rows [OF 1 Cons.prems(2)] Cons.prems(3,4) by simp
  with Cons.IH [of "if b then n + 1 else n" d1] Cons.prems 1 show ?case by simp
qed simp

text \<open>
  Property C8. The watchdog changes a mission only when its heartbeat expired and its worker is
  confirmed dead; it fences the worker, and puts the mission back to the queue or to a person only
  when the last phase was a model-only one and the leash can be read, otherwise recovery is
  required.
\<close>

theorem recovery_requeues_only_safe_runs:
  assumes "list_all proper_op ops" "d = run_missions E ops empty_missions" "mission_of d m = Some r"
    and "recover_stale_runs E confirmed now d = (n, e)"
  shows "\<exists>s. mission_of e m = Some s \<and> (s = r
      \<or> stale now r \<and> confirmed m \<and> mi_token s = [] \<and> mi_leash s = mi_leash r
        \<and> (mi_state s = J_RECOVERY_REQUIRED
           \<or> (mi_state s = J_QUEUED \<or> mi_state s = J_NEEDS_YOU) \<and> safe_phase (phase_of d m) \<and> \<not> json_invalid (jl (mi_leash r))))"
proof -
  have wd: "well_kept d" using assms(1,2) from_empty by simp
  have r: "r \<in> set (md_missions d)" "mi_id r = m" using assms(3) mission_of_iff [OF wd] by auto
  have refl: "list_all2 (recovered confirmed now d) (md_missions d) (md_missions d)" by (simp add: list_all2_same recovered_def)
  have all: "list_all2 (recovered confirmed now d) (md_missions d) (md_missions e)"
  proof (cases "recover_each E confirmed now (map (\<lambda>q. (q, runtime_of d (mi_id q))) (filter (stale now) (md_missions d))) 0 d")
    case (Inl x)
    with assms(4) refl show ?thesis by (simp add: recover_stale_runs_def)
  next
    case (Inr x)
    then have "recover_each E confirmed now (map (\<lambda>q. (q, runtime_of d (mi_id q))) (filter (stale now) (md_missions d))) 0 d = Inr (fst x, e)"
      using assms(4) by (cases x) (simp add: recover_stale_runs_def)
    from recover_each_rows [OF this refl] well_kept_ids [OF wd] show ?thesis by simp
  qed
  have same: "mi_id s = mi_id q" if "recovered confirmed now d q s" for q s
    using that by (auto simp: recovered_def same_mission_def)
  have "map mi_id (md_missions e) = map mi_id (md_missions d)"
    using all by (induction rule: list_all2_induct) (simp_all add: same)
  then have "distinct (map mi_id (md_missions e))" using well_kept_ids [OF wd] by simp
  obtain s where s: "s \<in> set (md_missions e)" "recovered confirmed now d r s"
    using all r(1) by (metis in_set_conv_nth list_all2_conv_all_nth)
  have "mission_of e m = Some s"
    using s(1) same [OF s(2)] r(2) \<open>distinct (map mi_id (md_missions e))\<close> by (simp add: mission_of_distinct)
  with s(2) r(2) show ?thesis by (auto simp: recovered_def same_mission_def)
qed

theorem recovery_requeues_only_safe_runs_witness:
  "\<exists>s. mission_of (snd (recover_stale_runs sample_env (\<lambda>_. True) 200 (sample [sample_create, sample_claim]))) (u ''m'') = Some s"
proof -
  obtain r where r: "mission_of (sample [sample_create, sample_claim]) (u ''m'') = Some r" by (rule row_isE [OF sample_claimed])
  have "list_all proper_op [sample_create, sample_claim]" by simp
  from recovery_requeues_only_safe_runs [OF this refl r surjective_pairing, of "\<lambda>_. True" 200] show ?thesis by blast
qed

end
