(* ===== verification/Consent.thy ===== *)
theory Consent
  imports MissionCase Url
begin

text \<open>
  What a mission may authorize by itself: a planner's request and its identity, the standing
  facts of the user's settings, the reuse of an authorization that was resolved before, the wait
  of one branch, the required branches of a campaign, and the skipping of optional steps (the
  functions above \<open>MissionStore\<close> in \<open>mission.py\<close>, and \<open>mission_intervention.py\<close>).
\<close>

subsection \<open>Names\<close>

definition auth_risks :: "(pystr \<times> int) list" where
  "auth_risks = [(u ''low'', 0), (u ''medium'', 1), (u ''high'', 2), (u ''critical'', 3)]"

definition auth_rank :: "pystr \<Rightarrow> int" where
  "auth_rank r = (case map_of auth_risks r of None \<Rightarrow> 1 | Some n \<Rightarrow> n)"

definition person_required_auth :: "pystr list" where
  "person_required_auth = map u [''captcha'', ''biometric'', ''kyc'', ''identity_proof'', ''legal_signature'',
     ''payment'', ''spending'', ''person_required_mfa'', ''security_key'']"

definition coverage_terminal :: "pystr list" where
  "coverage_terminal = map u [''completed'', ''exhausted'', ''scheduled'', ''deferred'', ''skipped'']"

definition coverage_open :: "pystr list" where
  "coverage_open = map u [''pending'', ''active'', ''attempted'', ''blocked'']"

definition blocker_kinds :: "pystr list" where
  "blocker_kinds = map u [''policy'', ''eligibility'', ''missing_authority'', ''technical'', ''deadline'', ''no_suitable_action'']"

subsection \<open>Texts\<close>

text \<open>\<open>str(args.get(k1) or args.get(k2) or ... or dflt)\<close>.\<close>

definition pick :: "pyhost \<Rightarrow> pydict \<Rightarrow> string list \<Rightarrow> pystr \<Rightarrow> pystr" where
  "pick H args ks dflt = (case filter truthy (map (\<lambda>k. dget_null args (u k)) ks) of [] \<Rightarrow> dflt | v # _ \<Rightarrow> py_str H v)"

text \<open>The escapes of \<open>json.dumps\<close> for characters that are not printable ASCII.\<close>

definition hex4 :: "nat \<Rightarrow> pystr" where
  "hex4 c = [92, 117] @ map hex_digit [c div 4096 mod 16, c div 256 mod 16, c div 16 mod 16, c mod 16]"

definition ascii_cp :: "nat \<Rightarrow> pystr" where
  "ascii_cp c = (if 32 \<le> c \<and> c \<le> 126 then [c] else if c < 65536 then hex4 c
     else hex4 (55296 + (c - 65536) div 1024) @ hex4 (56320 + (c - 65536) mod 1024))"

definition ascii_json :: "pystr \<Rightarrow> pystr" where
  "ascii_json s = concat (map ascii_cp s)"

definition digest20 :: "pyhost \<Rightarrow> pystr \<Rightarrow> pystr" where
  "digest20 H s = take 20 (sha256_hex H s)"

definition claim_cp :: "nat \<Rightarrow> bool" where
  "claim_cp c \<longleftrightarrow> 97 \<le> c \<and> c \<le> 122 \<or> is_digit_cp c \<or> c = 95 \<or> c = 46 \<or> c = 45"

definition domain_letter :: "nat \<Rightarrow> bool" where
  "domain_letter c \<longleftrightarrow> 97 \<le> c \<and> c \<le> 122 \<or> is_digit_cp c \<or> c = 46 \<or> c = 45"

subsection \<open>Requests\<close>

text \<open>The age that a summary asks for. Ignoring case, the long s is an s.\<close>

definition age_fold :: "nat \<Rightarrow> nat" where
  "age_fold c = (if c = 383 then 115 else lower_cp c)"

definition after_word :: "pystr \<Rightarrow> pystr \<Rightarrow> pystr option" where
  "after_word w s = (if map age_fold (take (length w) s) = w then Some (drop (length w) s) else None)"

definition age_number :: "pystr \<Rightarrow> pystr option" where
  "age_number s = List.find (\<lambda>n. starts_with s n) (map u [''16'', ''18'', ''21''])"

definition age_after :: "pystr \<Rightarrow> pystr \<Rightarrow> pystr option" where
  "age_after s w = (case after_word w s of None \<Rightarrow> None | Some r \<Rightarrow> age_number (dropWhile space_cp r))"

definition age_here :: "pystr \<Rightarrow> pystr option" where
  "age_here s =
     (case List.find (\<lambda>w. age_after s w \<noteq> None) [u ''at least'', u ''aged'', u ''age'', [28385]] of
        Some w \<Rightarrow> age_after s w
      | None \<Rightarrow>
          (case age_number s of
             None \<Rightarrow> None
           | Some n \<Rightarrow>
               if list_ex (\<lambda>w. after_word w (dropWhile space_cp (drop 2 s)) \<noteq> None) [u ''years old'', u ''year old'', [23681]]
               then Some n else None))"

fun age_search :: "pystr \<Rightarrow> pystr option" where
  "age_search [] = None"
| "age_search (c # s) = (case age_here (c # s) of Some n \<Rightarrow> Some n | None \<Rightarrow> age_search s)"

definition clean_kind :: "pystr \<Rightarrow> pystr" where
  "clean_kind k = or_str (take 80 (map (\<lambda>c. if claim_cp c then c else 95) k)) (u ''routine'')"

definition clean_claim :: "pystr \<Rightarrow> pystr" where
  "clean_claim c = (if list_all claim_cp c \<and> length c \<le> 100 then c else [])"

definition clean_risk :: "pystr \<Rightarrow> pystr" where
  "clean_risk r = (if map_of auth_risks r = None then u ''medium'' else r)"

definition request_domain :: "pyhost \<Rightarrow> pydict \<Rightarrow> pystr result" where
  "request_domain H args =
     (let url = strip (pick H args [''url''] []); given = py_lower H (strip (pick H args [''domain'', ''platform''] [])) in
      if url = [] then Inr (take 253 (filter domain_letter given))
      else case urlsplit H url of
          None \<Rightarrow> Inl (ValueError ''Invalid URL'')
        | Some (_, net) \<Rightarrow> Inr (take 253 (filter domain_letter (py_lower H (or_str (url_hostname H net) given)))))"

definition request_material :: "pyhost \<Rightarrow> pydict \<Rightarrow> pystr \<Rightarrow> pystr \<Rightarrow> pydict" where
  "request_material H args summary domain =
     [(u ''kind'', JStr (clean_kind (py_lower H (strip (pick H args [''kind'', ''category''] (u ''routine'')))))),
      (u ''claim'', JStr (clean_claim (py_lower H (strip (pick H args [''claim''] []))))),
      (u ''risk'', JStr (clean_risk (py_lower H (strip (pick H args [''risk''] (u ''medium'')))))),
      (u ''domain'', JStr domain),
      (u ''operation'', JStr (take 120 (py_lower H (strip (pick H args [''operation'', ''button'', ''action''] (u ''authorize'')))))),
      (u ''summary_digest'', JStr (sha256_hex H summary))]"

definition authorization_request :: "pyhost \<Rightarrow> int \<Rightarrow> pydict \<Rightarrow> pystr \<Rightarrow> pydict result" where
  "authorization_request H now args reason =
     bind_result (request_domain H args) (\<lambda>domain.
       let raw = strip (pick H args [''summary''] (or_str reason (u ''authorization required'')));
           summary = take 1000 raw; material = request_material H args raw domain;
           inferred = (if py_lower H (strip (pick H args [''claim''] [])) \<noteq> [] then []
             else case age_search summary of None \<Rightarrow> [] | Some n \<Rightarrow> u ''age_at_least_'' @ n) in
       Inr ((u ''id'', JStr (u ''auth_'' @ digest20 H (ascii_json (canon_text H (JObj material))))) # material
         @ [(u ''summary'', JStr summary), (u ''summary_chars'', JInt (int (length raw))), (u ''inferred_claim'', JStr inferred),
            (u ''blocking'', JBool (truthy (dget_null args (u ''blocking'')))), (u ''requested_at'', JInt now)]))"

subsection \<open>Standing facts\<close>

text \<open>\<open>cfg k d\<close> is the answer of \<open>settings.get(k, d)\<close>.\<close>

record standing =
  sa_auto :: bool
  sa_defer :: bool
  sa_max_risk :: pystr
  sa_claims :: "(pystr \<times> bool) list"

definition setting_on :: "pyhost \<Rightarrow> json \<Rightarrow> bool" where
  "setting_on H v \<longleftrightarrow> List.member (map u [''1'', ''true'', ''yes'', ''on'']) (py_lower H (strip (str_or_empty H v)))"

definition age_band :: "pyhost \<Rightarrow> (string \<Rightarrow> string \<Rightarrow> json) \<Rightarrow> int result" where
  "age_band H cfg =
     (case py_int H (cfg ''PROFILE_AGE_BAND'' ''unset'') of
        Inr n \<Rightarrow> Inr n | Inl (ValueError _) \<Rightarrow> Inr 0 | Inl (TypeError _) \<Rightarrow> Inr 0 | Inl e \<Rightarrow> Inl e)"

definition age_claim :: "int \<Rightarrow> pystr" where
  "age_claim t = u ''age_at_least_'' @ dec t"

definition standing_authority :: "pyhost \<Rightarrow> (string \<Rightarrow> string \<Rightarrow> json) \<Rightarrow> standing result" where
  "standing_authority H cfg =
     bind_result (age_band H cfg) (\<lambda>age.
       let risk = py_lower H (py_str H (or_json (cfg ''MAX_AUTO_AUTH_RISK'' ''medium'') (JStr (u ''medium'')))) in
       Inr \<lparr>sa_auto = setting_on H (cfg ''AUTO_APPLY_PROFILE_CLAIMS'' ''off''),
         sa_defer = setting_on H (cfg ''DEFER_MISSING_AUTHORIZATIONS'' ''on''),
         sa_max_risk = (if risk = u ''low'' \<or> risk = u ''medium'' then risk else u ''medium''),
         sa_claims = map (\<lambda>t. (age_claim t, t \<le> age)) [16, 18, 21]\<rparr>)"

definition standing_authorizes :: "pyhost \<Rightarrow> pydict \<Rightarrow> standing \<Rightarrow> bool \<times> pystr" where
  "standing_authorizes H request a =
     (let kind = pick H request [''kind''] (u ''routine''); risk = pick H request [''risk''] (u ''medium'');
          claim = pick H request [''claim''] [] in
      if List.member person_required_auth kind then (False, kind @ u '' always requires the person'')
      else if auth_rank (sa_max_risk a) < auth_rank risk
      then (False, risk @ u '' risk exceeds the '' @ sa_max_risk a @ u '' standing ceiling'')
      else if claim = [] then (False, u ''no exact standing grant matches this request'')
      else if kind \<noteq> u ''profile_claim'' then (False, u ''standing profile facts only authorize an explicit profile_claim'')
      else if \<not> sa_auto a then (False, u ''automatic profile claims are disabled'')
      else if map_of (sa_claims a) claim \<noteq> Some True then (False, u ''the exact profile claim is not confirmed'')
      else (True, u ''exact user-confirmed profile claim''))"

subsection \<open>Resolved authorizations\<close>

definition same_requirement :: "pyhost \<Rightarrow> pydict \<Rightarrow> pydict \<Rightarrow> bool" where
  "same_requirement H request item \<longleftrightarrow>
     (let shown = pick H item [''summary''] []; requested = pick H request [''summary''] [] in
      shown = requested \<and> or_json (dget_null item (u ''summary_digest'')) (JStr (sha256_hex H shown))
        = or_json (dget_null request (u ''summary_digest'')) (JStr (sha256_hex H requested)))"

definition operation_text :: "pyhost \<Rightarrow> pydict \<Rightarrow> pystr" where
  "operation_text H d = squeeze (py_lower H (pick H d [''operation''] []))"

definition answers_request :: "pyhost \<Rightarrow> pydict \<Rightarrow> pydict \<Rightarrow> bool" where
  "answers_request H request item \<longleftrightarrow>
     truthy (dget_null item (u ''resolution''))
     \<and> (dget_null item (u ''resolution'') = JStr (u ''user_handled'') \<longrightarrow> same_requirement H request item)
     \<and> (pick H request [''id''] [] \<noteq> [] \<and> pick H item [''id''] [] = pick H request [''id''] []
        \<or> pick H item [''kind''] [] = pick H request [''kind''] []
          \<and> py_lower H (pick H item [''domain''] []) = py_lower H (pick H request [''domain''] [])
          \<and> auth_rank (pick H request [''risk''] (u ''medium'')) \<le> auth_rank (pick H item [''risk''] (u ''medium''))
          \<and> (if pick H request [''claim''] [] \<noteq> [] then pick H item [''claim''] [] = pick H request [''claim''] []
             else operation_text H request \<noteq> [] \<and> operation_text H item = operation_text H request))"

fun resolved_authorization :: "pyhost \<Rightarrow> pydict \<Rightarrow> json list \<Rightarrow> pydict option" where
  "resolved_authorization H request [] = None"
| "resolved_authorization H request (JObj item # rs) =
     (if answers_request H request item then Some item else resolved_authorization H request rs)"
| "resolved_authorization H request (_ # rs) = resolved_authorization H request rs"

subsection \<open>The wait of one branch\<close>

text \<open>\<open>max(1, min(int(args.get("seconds", 3600)), 31536000))\<close>, and 3600 when it cannot be read.\<close>

definition wait_seconds :: "pyhost \<Rightarrow> pydict \<Rightarrow> int result" where
  "wait_seconds H args =
     (case (case dget args (u ''seconds'') of None \<Rightarrow> Inr 3600 | Some v \<Rightarrow> py_int H v) of
        Inr n \<Rightarrow> Inr (max 1 (min n 31536000))
      | Inl (ValueError _) \<Rightarrow> Inr 3600 | Inl (TypeError _) \<Rightarrow> Inr 3600 | Inl e \<Rightarrow> Inl e)"

definition followup_request :: "pyhost \<Rightarrow> int \<Rightarrow> pydict \<Rightarrow> pystr \<Rightarrow> pydict option result" where
  "followup_request H now args reason =
     (let named = strip (pick H args [''branch'', ''key''] []); branch = take 180 (squeeze named) in
      if named = [] then Inr None
      else bind_result (wait_seconds H args) (\<lambda>secs.
        Inr (Some [(u ''id'', JStr (u ''followup_'' @ digest20 H (py_lower H branch))), (u ''branch'', JStr branch),
          (u ''summary'', JStr (take 500 (strip (pick H args [''summary''] (or_str reason branch))))),
          (u ''seconds'', JInt secs), (u ''due_at'', JInt (now + secs)), (u ''scheduled_at'', JInt now),
          (u ''status'', JStr (u ''scheduled''))])))"

subsection \<open>Required branches of a campaign\<close>

definition required_row :: "pydict \<Rightarrow> bool" where
  "required_row row = (case dget row (u ''required'') of None \<Rightarrow> True | Some v \<Rightarrow> truthy v)"

definition coverage_row :: "pyhost \<Rightarrow> json \<Rightarrow> pydict list" where
  "coverage_row H v =
     (case v of
        JObj raw \<Rightarrow>
          (let branch = take 180 (squeeze (strip (pick H raw [''branch''] [])));
               status = py_lower H (strip (pick H raw [''status''] (u ''pending''))) in
           if branch = [] then []
           else [dset (dset (dset raw (u ''branch'') (JStr branch))
             (u ''status'') (JStr (if List.member (coverage_open @ coverage_terminal) status then status else u ''pending'')))
             (u ''required'') (JBool (required_row raw))])
      | _ \<Rightarrow> [])"

definition campaign_coverage :: "pyhost \<Rightarrow> pydict \<Rightarrow> pydict list result" where
  "campaign_coverage H kase =
     bind_result (loop_items (dget_null kase (u ''_campaign_coverage''))) (\<lambda>rows. Inr (last_items 40 (concat (map (coverage_row H) rows))))"

definition row_open :: "pydict \<Rightarrow> bool" where
  "row_open row \<longleftrightarrow> required_row row \<and> \<not> list_ex (\<lambda>s. dget_null row (u ''status'') = JStr s) coverage_terminal"

definition open_campaign_coverage :: "pyhost \<Rightarrow> pydict \<Rightarrow> pydict list result" where
  "open_campaign_coverage H kase = bind_result (campaign_coverage H kase) (\<lambda>rows. Inr (filter row_open rows))"

text \<open>\<open>re.findall(r"[a-z0-9]+", s)\<close>.\<close>

definition plain_cp :: "nat \<Rightarrow> bool" where
  "plain_cp c \<longleftrightarrow> 97 \<le> c \<and> c \<le> 122 \<or> is_digit_cp c"

definition plain_words :: "pystr \<Rightarrow> pystr list" where
  "plain_words s = py_split (map (\<lambda>c. if plain_cp c then c else 32) s)"

definition lifecycle_words :: "pystr list" where
  "lifecycle_words = map u [''launch'', ''signup'', ''sign'', ''up'', ''onboarding'', ''presence'', ''account'', ''campaign'', ''branch'', ''assets'']"

definition branch_key :: "pyhost \<Rightarrow> pystr \<Rightarrow> pystr" where
  "branch_key H s = join [32] (filter (\<lambda>w. \<not> List.member lifecycle_words w) (plain_words (py_lower H s)))"

definition branch_of :: "pyhost \<Rightarrow> pydict \<Rightarrow> pystr" where
  "branch_of H row = pick H row [''branch''] []"

definition positions :: "('a \<Rightarrow> bool) \<Rightarrow> 'a list \<Rightarrow> nat list" where
  "positions P xs = filter (\<lambda>i. P (xs ! i)) [0..<length xs]"

definition coverage_branch_index :: "pyhost \<Rightarrow> pydict list \<Rightarrow> pystr \<Rightarrow> nat option" where
  "coverage_branch_index H rows name =
     (let branch = strip name; wanted = branch_key H branch in
      case positions (\<lambda>row. py_lower H (branch_of H row) = py_lower H branch) rows of
        [i] \<Rightarrow> Some i
      | _ \<Rightarrow> (case positions (\<lambda>row. wanted \<noteq> [] \<and> branch_key H (branch_of H row) = wanted) rows of [i] \<Rightarrow> Some i | _ \<Rightarrow> None))"

text \<open>\<open>[str(x).strip()[:300] for x in xs if str(x).strip()]\<close>.\<close>

definition route_texts :: "pyhost \<Rightarrow> json list \<Rightarrow> pystr list" where
  "route_texts H xs = map (take 300) (filter (\<lambda>t. t \<noteq> []) (map (strip \<circ> py_str H) xs))"

definition routes_in :: "pyhost \<Rightarrow> pydict \<Rightarrow> pystr list result" where
  "routes_in H d = bind_result (loop_items (dget_null d (u ''alternatives_tried''))) (\<lambda>xs. Inr (route_texts H xs))"

definition whole_routes :: "pyhost \<Rightarrow> pydict \<Rightarrow> pystr list result" where
  "whole_routes H d = bind_result (loop_items (dget_null d (u ''alternatives_tried'')))
     (\<lambda>xs. Inr (filter (\<lambda>t. t \<noteq> []) (map (strip \<circ> py_str H) xs)))"

definition blocker_of :: "pyhost \<Rightarrow> pydict \<Rightarrow> pystr" where
  "blocker_of H args = py_lower H (strip (pick H args [''blocker_kind''] []))"

datatype coverage_refusal = NO_BRANCH | BAD_STATUS | NO_DETAIL | BLOCKED_KIND | NO_ROUTE | SAME_ROUTE
  | EXHAUSTED_KIND | FEW_ROUTES pystr | NO_FOLLOWUP

definition permanent_blocker :: "pystr \<Rightarrow> bool" where
  "permanent_blocker b \<longleftrightarrow> List.member (map u [''policy'', ''eligibility'', ''deadline'']) b"

definition blocked_refusal :: "pyhost \<Rightarrow> pydict \<Rightarrow> pydict \<Rightarrow> coverage_refusal option result" where
  "blocked_refusal H args prior =
     bind_result (routes_in H args) (\<lambda>routes. bind_result (whole_routes H prior) (\<lambda>before.
       Inr (if \<not> List.member blocker_kinds (blocker_of H args) \<or> blocker_of H args = u ''deadline'' then Some BLOCKED_KIND
         else if routes = [] then Some NO_ROUTE
         else if pick H prior [''status''] [] = u ''blocked'' \<and> list_all (List.member before) routes then Some SAME_ROUTE
         else None)))"

definition exhausted_refusal :: "pyhost \<Rightarrow> pydict \<Rightarrow> coverage_refusal option result" where
  "exhausted_refusal H args =
     bind_result (routes_in H args) (\<lambda>routes.
       Inr (if \<not> List.member blocker_kinds (blocker_of H args) then Some EXHAUSTED_KIND
         else if length (dedup routes) < (if permanent_blocker (blocker_of H args) then 1 else 2) then Some (FEW_ROUTES (blocker_of H args))
         else None))"

definition scheduled_refusal :: "pyhost \<Rightarrow> pydict \<Rightarrow> pystr \<Rightarrow> coverage_refusal option result" where
  "scheduled_refusal H kase branch =
     bind_result (loop_items (dget_null kase (u ''pending_followups''))) (\<lambda>xs.
       Inr (if list_ex (\<lambda>x. case x of JObj d \<Rightarrow> py_lower H (branch_of H d) = py_lower H branch | _ \<Rightarrow> False) xs then None
         else Some NO_FOLLOWUP))"

text \<open>Why an update of a branch is refused, or \<open>None\<close>.\<close>

definition coverage_refused :: "pyhost \<Rightarrow> pydict \<Rightarrow> pydict \<Rightarrow> pydict list \<Rightarrow> pystr \<Rightarrow> pystr \<Rightarrow> pystr \<Rightarrow> coverage_refusal option result" where
  "coverage_refused H kase args rows branch status detail =
     (case (if branch = [] then None else coverage_branch_index H rows branch) of
        None \<Rightarrow> Inr (Some NO_BRANCH)
      | Some i \<Rightarrow>
          if \<not> List.member (coverage_open @ coverage_terminal) status then Inr (Some BAD_STATUS)
          else if List.member coverage_terminal status \<and> detail = [] then Inr (Some NO_DETAIL)
          else if status = u ''blocked'' then blocked_refusal H args (rows ! i)
          else if status = u ''exhausted'' then exhausted_refusal H args
          else if status = u ''scheduled'' then scheduled_refusal H kase branch
          else Inr None)"

definition refusal_text :: "coverage_refusal \<Rightarrow> pystr" where
  "refusal_text r = (case r of
     NO_BRANCH \<Rightarrow> u ''coverage branch is not present in the required campaign backlog''
   | BAD_STATUS \<Rightarrow> u ''coverage status must be one of '' @ join (u '', '') (sorted_strs (coverage_open @ coverage_terminal))
   | NO_DETAIL \<Rightarrow> u ''terminal coverage status requires a concise reason or evidence''
   | BLOCKED_KIND \<Rightarrow> u ''blocked coverage requires blocker_kind: '' @ join (u '', '') (sorted_strs (removeAll (u ''deadline'') blocker_kinds))
   | NO_ROUTE \<Rightarrow> u ''blocked coverage requires the attempted route in alternatives_tried''
   | SAME_ROUTE \<Rightarrow> u ''repeated blocked coverage requires a distinct new route in alternatives_tried, or a durable scheduled retry''
   | EXHAUSTED_KIND \<Rightarrow> u ''exhausted coverage requires blocker_kind: '' @ join (u '', '') (sorted_strs blocker_kinds)
   | FEW_ROUTES b \<Rightarrow> u ''exhausted coverage requires auditable alternatives_tried ('' @ dec (if permanent_blocker b then 1 else 2)
       @ u '' distinct route(s) for '' @ b @ u '')''
   | NO_FOLLOWUP \<Rightarrow> u ''scheduled coverage requires a matching durable follow-up'')"

subsection \<open>Steps that may be left out\<close>

definition skip_allowed :: "pyhost \<Rightarrow> pydict list \<Rightarrow> pystr \<Rightarrow> bool" where
  "skip_allowed H rows branch \<longleftrightarrow>
     (case filter (\<lambda>row. casefold H (branch_of H row) = casefold H branch) rows of
        [row] \<Rightarrow> \<not> required_row row | _ \<Rightarrow> False)"

definition skip_request :: "pyhost \<Rightarrow> pydict \<Rightarrow> pystr \<Rightarrow> pydict list \<Rightarrow> pydict option" where
  "skip_request H args reason rows =
     (let raw = strip (pick H args [''summary''] []); summary = take 1000 raw;
          explanation = take 1000 (strip (if reason \<noteq> [] then reason else pick H args [''reason''] []));
          branch = take 180 (strip (pick H args [''campaign_branch'', ''branch''] []));
          ident = [(u ''branch'', JStr branch), (u ''summary'', JStr summary), (u ''summary_digest'', JStr (sha256_hex H raw)),
            (u ''domain'', JStr (take 253 (pick H args [''domain''] []))), (u ''kind'', JStr (take 80 (pick H args [''kind''] (u ''optional''))))] in
      if dget args (u ''optional'') \<noteq> Some (JBool True) \<or> truthy (dget_null args (u ''blocking'')) then None
      else if summary = [] \<or> explanation = [] then None
      else if rows \<noteq> [] \<and> \<not> skip_allowed H rows branch then None
      else Some ((u ''id'', JStr (u ''skip_'' @ digest20 H (ascii_json (sorted_text H (JObj ident))))) # ident @ [(u ''reason'', JStr explanation)]))"

end
