(* ===== verification/MissionAsk.thy ===== *)
theory MissionAsk
  imports Consent MissionNotes MissionWork
begin

text \<open>
  The turns of \<open>MissionDriver\<close> that are no actions: a request for authority, the refresh of
  requests and timers, a wait, an update of the coverage of a campaign, an optional step that is
  skipped, and the end of a run. A turn is a sequence of transactions of the store; the clock
  is read once.
\<close>

subsection \<open>Steps of a turn\<close>

datatype drive_answer = CONTINUE | AT job_state

definition and_then :: "'a result \<times> mission_db \<Rightarrow> ('a \<Rightarrow> mission_db \<Rightarrow> 'b result \<times> mission_db) \<Rightarrow> 'b result \<times> mission_db" where
  "and_then x f = (case x of (Inl e, d) \<Rightarrow> (Inl e, d) | (Inr a, d) \<Rightarrow> f a d)"

definition attempt :: "'a result \<Rightarrow> mission_db \<Rightarrow> ('a \<Rightarrow> mission_db \<Rightarrow> 'b result \<times> mission_db) \<Rightarrow> 'b result \<times> mission_db" where
  "attempt r d f = and_then (r, d) f"

definition driver_state :: "pystr \<Rightarrow> job_state \<Rightarrow> mission_db \<Rightarrow> job_state" where
  "driver_state m fallback d = (case mission_of d m of None \<Rightarrow> fallback | Some r \<Rightarrow> mi_state r)"

definition lost_state :: "pystr \<Rightarrow> pystr \<Rightarrow> int \<Rightarrow> mission_db \<Rightarrow> drive_answer result \<times> mission_db" where
  "lost_state m tok now d = (let d1 = snd (settle_pausing m tok now d) in (Inr (AT (driver_state m J_FAILED d1)), d1))"

text \<open>The case is stored under the token; a worker that lost its run leaves the turn.\<close>

definition save_case :: "mission_env \<Rightarrow> pystr \<Rightarrow> pystr \<Rightarrow> int \<Rightarrow> pydict \<Rightarrow> mission_db
    \<Rightarrow> (mission_db \<Rightarrow> drive_answer result \<times> mission_db) \<Rightarrow> drive_answer result \<times> mission_db" where
  "save_case E m tok now kase d f =
     and_then (set_case_owned (mv_host E) m tok kase now d) (\<lambda>ok d1. if ok then f d1 else lost_state m tok now d1)"

definition tell :: "mission_env \<Rightarrow> pystr \<Rightarrow> string \<Rightarrow> string \<Rightarrow> pystr \<Rightarrow> pydict \<Rightarrow> int \<Rightarrow> mission_db
    \<Rightarrow> (mission_db \<Rightarrow> drive_answer result \<times> mission_db) \<Rightarrow> drive_answer result \<times> mission_db" where
  "tell E m kind name nonce payload now d f =
     and_then (record_event (mv_host E) m (u kind) (u name) nonce payload now d) (\<lambda>_ d1. f d1)"

definition go_on :: "mission_db \<Rightarrow> drive_answer result \<times> mission_db" where
  "go_on d = (Inr CONTINUE, d)"

subsection \<open>The end of a run\<close>

text \<open>\<open>hook s res\<close> is the answer of the stop hook: the reason when it blocks.\<close>

definition leave :: "mission_env \<Rightarrow> pystr \<Rightarrow> pystr \<Rightarrow> job_state \<Rightarrow> pystr option \<Rightarrow> int \<Rightarrow> mission_db \<Rightarrow> drive_answer result \<times> mission_db" where
  "leave E m tok s res now d =
     and_then (finish_run (mv_host E) m tok s res False now now d) (\<lambda>ok d1.
       if ok then (Inr (AT (driver_state m s d1)), d1) else lost_state m tok now d1)"

definition consumed_payload :: "job_state \<Rightarrow> consume_answer \<Rightarrow> pydict" where
  "consumed_payload s x =
     [(u ''blocked_state'', JStr (mission_state_text s)),
      (u ''applied'', JInt (case x of CONSUMED n \<Rightarrow> int n | _ \<Rightarrow> 0)),
      (u ''rejected'', JInt (case x of CONSUME_REJECTED n _ \<Rightarrow> int n | _ \<Rightarrow> 0))]"

definition absorb_late_notes :: "mission_env \<Rightarrow> pystr \<Rightarrow> pystr \<Rightarrow> job_state \<Rightarrow> int \<Rightarrow> mission_db \<Rightarrow> drive_answer result \<times> mission_db" where
  "absorb_late_notes E m tok s now d =
     and_then (consume_pending_notes_owned (mv_host E) m tok now now d) (\<lambda>x d1.
       if x = CONSUME_LOST then lost_state m tok now d1
       else tell E m ''control'' ''completion_deferred_for_note'' [] (consumed_payload s x) now d1 (\<lambda>d2.
         leave E m tok J_WAITING (Some (u ''a new instruction arrived before completion was recorded; it is durable scope now and the Mission continues instead of finishing''))
           now (schedule_mission_wait m now now d2)))"

definition driver_finish :: "mission_env \<Rightarrow> (job_state \<Rightarrow> pystr \<Rightarrow> pystr option) \<Rightarrow> pystr \<Rightarrow> pystr \<Rightarrow> job_state \<Rightarrow> pystr option \<Rightarrow> bool \<Rightarrow> int
    \<Rightarrow> mission_db \<Rightarrow> drive_answer result \<times> mission_db" where
  "driver_finish E hook m tok s0 res0 block now d =
     (let blocked = (if terminal_mission s0 then hook s0 (case res0 of None \<Rightarrow> [] | Some x \<Rightarrow> take 2000 x) else None);
          s = (if blocked = None then s0 else J_NEEDS_YOU);
          res = (case blocked of None \<Rightarrow> res0
            | Some why \<Rightarrow> Some (u ''Stop hook blocked completion: '' @ or_str why (u ''policy check did not pass'')))
      in and_then (finish_run (mv_host E) m tok s res block now now d) (\<lambda>ok d1.
           if ok then (Inr (AT (driver_state m s d1)), d1)
           else if block \<and> queued_notes d1 m \<noteq> [] then absorb_late_notes E m tok s now d1
           else lost_state m tok now d1))"

subsection \<open>Repeated requests\<close>

definition progress_event :: "mission_event \<Rightarrow> bool" where
  "progress_event e \<longleftrightarrow> me_kind e = u ''result'' \<or> List.member (map (\<lambda>(a, b). (u a, u b))
     [(''coverage'', ''updated''), (''followup'', ''checked''), (''authorization'', ''standing_resolved''),
      (''authorization'', ''resolved_reused''), (''intervention'', ''optional_skipped'')]) (me_kind e, me_name e)"

primrec repeated_in :: "pystr \<Rightarrow> pystr \<Rightarrow> pystr \<Rightarrow> mission_event list \<Rightarrow> bool" where
  "repeated_in kind name ident [] = False"
| "repeated_in kind name ident (e # es) =
     (if progress_event e then False
      else if me_kind e = kind \<and> me_name e = name \<and> me_nonce e = ident then True
      else repeated_in kind name ident es)"

definition repeated_without_progress :: "mission_event list \<Rightarrow> pystr \<Rightarrow> pystr \<Rightarrow> pystr \<Rightarrow> bool" where
  "repeated_without_progress es kind name ident = repeated_in kind name ident (rev es)"

text \<open>Objects of a field of the case; anything that cannot be iterated raises.\<close>

definition field_items :: "pydict \<Rightarrow> string \<Rightarrow> json list result" where
  "field_items kase k = loop_items (dget_null kase (u k))"

definition field_objects :: "pydict \<Rightarrow> string \<Rightarrow> pydict list result" where
  "field_objects kase k = bind_result (field_items kase k) (\<lambda>xs. Inr (objects_of xs))"

definition same_id :: "pydict \<Rightarrow> pydict \<Rightarrow> bool" where
  "same_id x y \<longleftrightarrow> dget_null x (u ''id'') = dget_null y (u ''id'')"

definition put_objects :: "string \<Rightarrow> nat \<Rightarrow> pydict list \<Rightarrow> pydict \<Rightarrow> pydict" where
  "put_objects k n xs kase = dset kase (u k) (JList (last_items n (map JObj xs)))"

definition put_items :: "string \<Rightarrow> nat \<Rightarrow> json list \<Rightarrow> pydict \<Rightarrow> pydict" where
  "put_items k n xs kase = dset kase (u k) (JList (last_items n xs))"

definition add_resolved :: "json list \<Rightarrow> pydict \<Rightarrow> json list" where
  "add_resolved rs item = (if list_ex (\<lambda>x. case x of JObj y \<Rightarrow> same_id y item | _ \<Rightarrow> False) rs then rs else rs @ [JObj item])"

definition standing_item :: "pydict \<Rightarrow> int \<Rightarrow> pystr \<Rightarrow> pydict" where
  "standing_item request now why = dset (dset (dset request (u ''resolved_at'') (JInt now))
     (u ''resolution'') (JStr (u ''standing_authority''))) (u ''reason'') (JStr why)"

text \<open>An answer of a person that the store kept for a request.\<close>

definition durable_answer :: "pyhost \<Rightarrow> mission_db \<Rightarrow> pystr \<Rightarrow> pydict \<Rightarrow> json list" where
  "durable_answer H d m request =
     (case handled_authorization d m (pick H request [''id''] []) of None \<Rightarrow> [] | Some x \<Rightarrow> if x = [] then [] else [JObj x])"

definition branch_names :: "pyhost \<Rightarrow> pydict list \<Rightarrow> pystr list" where
  "branch_names H rows = map (branch_of H) (take 6 rows)"

subsection \<open>A request for authority\<close>

definition long_summary_signal :: pystr where
  "long_summary_signal = u ''Authorization request was not shown or approved: summary exceeds 1000 characters. Restate the complete specific requirement concisely; preserve the actual action, target, amount, and essential conditions. Do not hide scope after a long preamble.''"

definition rest_after :: "pyhost \<Rightarrow> pydict list \<Rightarrow> pydict \<Rightarrow> pydict list" where
  "rest_after H pending item = filter (\<lambda>x. resolved_authorization H x [JObj item] = None) pending"

definition next_attempt :: "pyhost \<Rightarrow> pydict \<Rightarrow> string \<Rightarrow> int result" where
  "next_attempt H d k = bind_result (case dget d (u k) of None \<Rightarrow> Inr 1 | Some v \<Rightarrow> py_int H v) (\<lambda>n. Inr (n + 1))"

text \<open>The request as it is put among the pending ones.\<close>

definition deferred_request :: "pyhost \<Rightarrow> pydict \<Rightarrow> pydict list \<Rightarrow> (pydict \<times> pydict list) result" where
  "deferred_request H request pending =
     (case List.find (same_id request) pending of
        None \<Rightarrow> (let r = dset request (u ''attempts'') (JInt 1) in Inr (r, pending @ [r]))
      | Some p \<Rightarrow> bind_result (next_attempt H p ''attempts'') (\<lambda>n.
          let r = dset (case dget p (u ''requested_at'') of None \<Rightarrow> request | Some v \<Rightarrow> dset request (u ''requested_at'') v) (u ''attempts'') (JInt n)
          in Inr (r, map (\<lambda>x. if same_id request x then r else x) pending)))"

definition take_fields :: "pydict \<Rightarrow> string list \<Rightarrow> pydict" where
  "take_fields d ks = map (\<lambda>k. (u k, dget_null d (u k))) ks"

definition park_signal :: "pyhost \<Rightarrow> pydict list \<Rightarrow> pystr" where
  "park_signal H rows = u ''Authorization deferred; required coverage remains: '' @ join (u '', '') (branch_names H rows)
     @ u ''. Continue an independent branch. If every remaining branch needs this permission, explain that dependency with blocking=true.''"

definition reuse_authorization :: "mission_env \<Rightarrow> pystr \<Rightarrow> pystr \<Rightarrow> int \<Rightarrow> pydict \<Rightarrow> pydict \<Rightarrow> pydict \<Rightarrow> json list \<Rightarrow> pydict list \<Rightarrow> mission_db
    \<Rightarrow> drive_answer result \<times> mission_db" where
  "reuse_authorization E m tok now kase request item resolved pending d =
     (let H = mv_host E; rid = pick H request [''id''] [];
          kase1 = put_items ''resolved_authorizations'' 20 (add_resolved resolved item)
            (dset kase (u ''pending_authorizations'') (JList (map JObj (rest_after H pending item))))
      in save_case E m tok now kase1 d (\<lambda>d1.
           tell E m ''authorization'' ''resolved_reused'' rid
             (take_fields request [''kind'', ''claim'', ''domain''] @ [(u ''matched_id'', dget_null item (u ''id'')), (u ''resolution'', dget_null item (u ''resolution''))])
             now (add_step m (u ''needs_authorization'') rid (u ''already-authorized'') now d1) go_on))"

definition grant_standing :: "mission_env \<Rightarrow> pystr \<Rightarrow> pystr \<Rightarrow> int \<Rightarrow> pydict \<Rightarrow> pydict \<Rightarrow> pystr \<Rightarrow> json list \<Rightarrow> pydict list \<Rightarrow> mission_db
    \<Rightarrow> drive_answer result \<times> mission_db" where
  "grant_standing E m tok now kase request why resolved pending d =
     (let H = mv_host E; rid = pick H request [''id''] [];
          kase1 = put_items ''resolved_authorizations'' 20 (resolved @ [JObj (standing_item request now why)])
            (dset kase (u ''pending_authorizations'') (JList (map JObj (filter (\<lambda>x. \<not> same_id request x) pending))))
      in save_case E m tok now kase1 d (\<lambda>d1.
           tell E m ''authorization'' ''standing_resolved'' rid
             (take_fields request [''kind'', ''claim'', ''domain''] @ [(u ''reason'', JStr why)])
             now (add_step m (u ''needs_authorization'') rid (u ''standing-authorized'') now d1) go_on))"

definition defer_authorization :: "mission_env \<Rightarrow> pystr \<Rightarrow> pystr \<Rightarrow> int \<Rightarrow> pydict \<Rightarrow> pydict \<Rightarrow> standing \<Rightarrow> pystr \<Rightarrow> pydict list \<Rightarrow> mission_db
    \<Rightarrow> drive_answer result \<times> mission_db" where
  "defer_authorization E m tok now kase request a why pending d =
     (let H = mv_host E; rid = pick H request [''id''] [];
          again = list_ex (same_id request) pending
            \<and> repeated_without_progress (mission_events d m 80) (u ''authorization'') (u ''deferred'') rid
      in attempt (deferred_request H request pending) d (\<lambda>(r, waiting) d0.
         let kase1 = put_objects ''pending_authorizations'' 20 waiting kase;
             blocking = truthy (dget_null r (u ''blocking''));
             park = blocking \<or> again \<or> \<not> sa_defer a
         in save_case E m tok now kase1 d0 (\<lambda>d1.
           tell E m ''authorization'' ''deferred'' rid
             (take_fields r [''kind'', ''claim'', ''risk'', ''domain'', ''summary''] @ [(u ''reason'', JStr why)])
             now (add_step m (u ''needs_authorization'') rid (u ''pending'') now d1) (\<lambda>d2.
           attempt (open_campaign_coverage H kase1) d2 (\<lambda>rows d3.
             if park \<and> rows \<noteq> [] \<and> \<not> blocking \<and> sa_defer a
             then save_case E m tok now (dset kase1 (u ''signal'') (JStr (park_signal H rows))) d3 (\<lambda>d4.
               tell E m ''authorization'' ''park_refused'' rid [(u ''open'', JInt (int (length rows)))] now d4 go_on)
             else if park
             then leave E m tok J_NEEDS_YOU (Some (or_str (pick H r [''summary''] []) (u ''authorization is the only remaining dependency''))) now d3
             else go_on d3)))))"

definition handle_authorization :: "mission_env \<Rightarrow> (string \<Rightarrow> string \<Rightarrow> json) \<Rightarrow> pystr \<Rightarrow> pystr \<Rightarrow> int \<Rightarrow> pydict \<Rightarrow> pydict \<Rightarrow> pystr \<Rightarrow> mission_db
    \<Rightarrow> drive_answer result \<times> mission_db" where
  "handle_authorization E cfg m tok now kase args reason d =
     (let H = mv_host E in
      attempt (authorization_request H now args reason) d (\<lambda>request d.
      if (case dget_null request (u ''summary_chars'') of JInt n \<Rightarrow> 1000 < n | _ \<Rightarrow> False)
      then save_case E m tok now (dset kase (u ''signal'') (JStr long_summary_signal)) d (\<lambda>d1.
        tell E m ''authorization'' ''summary_refused'' [] [(u ''characters'', dget_null request (u ''summary_chars''))] now d1 go_on)
      else
      attempt (standing_authority H cfg) d (\<lambda>a d.
      attempt (field_objects kase ''pending_authorizations'') d (\<lambda>pending d.
      attempt (field_items kase ''resolved_authorizations'') d (\<lambda>resolved d.
        case resolved_authorization H request (resolved @ durable_answer H d m request) of
          Some item \<Rightarrow> reuse_authorization E m tok now kase request item resolved pending d
        | None \<Rightarrow>
            (case standing_authorizes H request a of
               (True, why) \<Rightarrow> grant_standing E m tok now kase request why resolved pending d
             | (False, why) \<Rightarrow> defer_authorization E m tok now kase request a why pending d))))))"

subsection \<open>Refreshing the requests that wait\<close>

text \<open>The pending requests one after the other: what stays pending, what is resolved, whether anything changed.\<close>

fun refresh_each :: "mission_env \<Rightarrow> pystr \<Rightarrow> int \<Rightarrow> standing \<Rightarrow> pydict list \<Rightarrow> pydict list \<times> json list \<times> bool \<Rightarrow> mission_db
    \<Rightarrow> (pydict list \<times> json list \<times> bool) result \<times> mission_db" where
  "refresh_each E m now a [] acc d = (Inr acc, d)"
| "refresh_each E m now a (r # rs) (keep, resolved, changed) d =
     (let H = mv_host E; rid = pick H r [''id''] [] in
      case resolved_authorization H r (resolved @ durable_answer H d m r) of
        Some item \<Rightarrow> and_then (record_event H m (u ''authorization'') (u ''resolved_reused'') rid
            (take_fields r [''kind'', ''claim'', ''domain''] @ [(u ''matched_id'', dget_null item (u ''id'')),
              (u ''reason'', JStr (u ''equal-or-stronger Mission authorization was already resolved''))]) now d)
          (\<lambda>_ d1. refresh_each E m now a rs (keep, add_resolved resolved item, True) d1)
      | None \<Rightarrow>
          (case standing_authorizes H r a of
             (False, _) \<Rightarrow> refresh_each E m now a rs (keep @ [r], resolved, changed) d
           | (True, why) \<Rightarrow> and_then (record_event H m (u ''authorization'') (u ''standing_resolved'') rid
                 (take_fields r [''kind'', ''claim'', ''domain''] @ [(u ''reason'', JStr why)]) now d)
               (\<lambda>_ d1. refresh_each E m now a rs (keep, resolved @ [JObj (standing_item r now why)], True) d1)))"

text \<open>The answer is whether the worker still owns the mission, and the standing facts.\<close>

definition refresh_authorizations :: "mission_env \<Rightarrow> (string \<Rightarrow> string \<Rightarrow> json) \<Rightarrow> pystr \<Rightarrow> pystr \<Rightarrow> int \<Rightarrow> pydict \<Rightarrow> mission_db
    \<Rightarrow> (bool \<times> standing) result \<times> mission_db" where
  "refresh_authorizations E cfg m tok now kase d =
     attempt (standing_authority (mv_host E) cfg) d (\<lambda>a d.
     attempt (field_objects kase ''pending_authorizations'') d (\<lambda>pending d.
     attempt (field_items kase ''resolved_authorizations'') d (\<lambda>resolved d.
     and_then (refresh_each E m now a pending ([], resolved, False) d) (\<lambda>(keep, resolved, changed) d1.
       if \<not> changed then (Inr (True, a), d1)
       else and_then (set_case_owned (mv_host E) m tok
           (put_items ''resolved_authorizations'' 20 resolved (dset kase (u ''pending_authorizations'') (JList (map JObj keep)))) now d1)
         (\<lambda>ok d2. (Inr (ok, a), d2))))))"

subsection \<open>Timers of branches\<close>

definition latest_checkpoint :: "mission_db \<Rightarrow> pystr \<Rightarrow> checkpoint_row option" where
  "latest_checkpoint d m = List.find (\<lambda>c. ck_mission c = m) (rev (md_checkpoints d))"

text \<open>The timer that woke the run: its branch is due even if the clock says otherwise.\<close>

definition woken_by_timer :: "mission_db \<Rightarrow> pystr \<Rightarrow> bool" where
  "woken_by_timer d m \<longleftrightarrow>
     (case latest_checkpoint d m of
        None \<Rightarrow> False
      | Some c \<Rightarrow> ck_phase c = u ''claimed'' \<and> (case ck_payload c of JObj p \<Rightarrow> truthy (dget_null p (u ''wake_wait_id'')) | _ \<Rightarrow> False))"

definition int_field :: "pyhost \<Rightarrow> pydict \<Rightarrow> string \<Rightarrow> int \<Rightarrow> int result" where
  "int_field H d k dflt = (let v = dget_null d (u k) in if truthy v then py_int H v else Inr dflt)"

primrec earliest :: "pyhost \<Rightarrow> pydict \<times> int \<Rightarrow> pydict list \<Rightarrow> (pydict \<times> int) result" where
  "earliest H best [] = Inr best"
| "earliest H best (x # xs) = bind_result (int_field H x ''due_at'' 0) (\<lambda>t. earliest H (if t < snd best then (x, t) else best) xs)"

definition forced_due :: "pyhost \<Rightarrow> bool \<Rightarrow> pydict list \<Rightarrow> pystr result" where
  "forced_due H woken pending =
     (case pending of
        x # xs \<Rightarrow> if woken then bind_result (int_field H x ''due_at'' 0) (\<lambda>t. bind_result (earliest H (x, t) xs) (\<lambda>b. Inr (pick H (fst b) [''id''] [])))
          else Inr []
      | [] \<Rightarrow> Inr [])"

fun due_each :: "mission_env \<Rightarrow> pystr \<Rightarrow> int \<Rightarrow> pystr \<Rightarrow> pydict list \<Rightarrow> pydict list \<times> pydict list \<times> bool \<Rightarrow> mission_db
    \<Rightarrow> (pydict list \<times> pydict list \<times> bool) result \<times> mission_db" where
  "due_each E m now forced [] acc d = (Inr acc, d)"
| "due_each E m now forced (x # xs) (keep, due, changed) d =
     (let H = mv_host E; i = pick H x [''id''] [] in
      attempt (int_field H x ''due_at'' 0) d (\<lambda>t d.
        if now < t \<and> i \<noteq> forced then due_each E m now forced xs (keep @ [x], due, changed) d
        else
          let y = dset (dset x (u ''status'') (JStr (u ''due''))) (u ''surfaced_at'') (JInt now);
              due1 = (if List.member (map (\<lambda>z. pick H z [''id''] []) due) i then due else due @ [y])
          in and_then (record_event H m (u ''followup'') (u ''due'') i (take_fields y [''branch'', ''summary'', ''due_at'']) now d)
            (\<lambda>_ d1. due_each E m now forced xs (keep, due1, True) d1)))"

definition refresh_followups :: "mission_env \<Rightarrow> pystr \<Rightarrow> pystr \<Rightarrow> int \<Rightarrow> pydict \<Rightarrow> mission_db \<Rightarrow> bool result \<times> mission_db" where
  "refresh_followups E m tok now kase d =
     (let H = mv_host E in
      attempt (field_objects kase ''pending_followups'') d (\<lambda>pending d.
      attempt (field_objects kase ''_due_followups'') d (\<lambda>due d.
      attempt (forced_due H (woken_by_timer d m) pending) d (\<lambda>forced d.
      and_then (due_each E m now forced pending ([], due, False) d) (\<lambda>(keep, due, changed) d1.
        if \<not> changed then (Inr True, d1)
        else set_case_owned H m tok (put_objects ''_due_followups'' 20 due (put_objects ''pending_followups'' 20 keep kase)) now d1)))))"

definition bound_to :: "pyhost \<Rightarrow> pystr \<Rightarrow> pydict \<Rightarrow> bool" where
  "bound_to H b x \<longleftrightarrow> b \<noteq> [] \<and> List.member (map (\<lambda>k. py_lower H (strip (pick H x [k] []))) [''branch'', ''id'']) b"

definition take_first :: "('a \<Rightarrow> bool) \<Rightarrow> 'a list \<Rightarrow> ('a \<times> 'a list) option" where
  "take_first P xs = (case dropWhile (\<lambda>x. \<not> P x) xs of [] \<Rightarrow> None | x # ys \<Rightarrow> Some (x, takeWhile (\<lambda>x. \<not> P x) xs @ ys))"

definition checked_item :: "pydict \<Rightarrow> int \<Rightarrow> pystr \<Rightarrow> pystr \<Rightarrow> pydict" where
  "checked_item x now capability verdict = dset (dset (dset (dset x (u ''status'') (JStr (u ''checked''))) (u ''checked_at'') (JInt now))
     (u ''capability'') (JStr (take 120 capability))) (u ''verdict'') (JStr (take 80 verdict))"

definition consume_due_followup :: "mission_env \<Rightarrow> pystr \<Rightarrow> pystr \<Rightarrow> pystr \<Rightarrow> pystr \<Rightarrow> pydict \<Rightarrow> int \<Rightarrow> mission_db \<Rightarrow> bool result \<times> mission_db" where
  "consume_due_followup E m tok capability verdict args now d =
     (let H = mv_host E in
      case mission_of d m of
        None \<Rightarrow> (Inr False, d)
      | Some r \<Rightarrow>
          let kase = jl (mi_case r); b = py_lower H (strip (pick H args [''followup_branch'', ''followup_id''] [])) in
          attempt (field_objects kase ''_due_followups'') d (\<lambda>due d.
          case take_first (bound_to H b) due of
            None \<Rightarrow> (Inr True, d)
          | Some (x, rest) \<Rightarrow>
              let y = checked_item x now capability verdict in
              attempt (field_items kase ''resolved_followups'') d (\<lambda>resolved d.
              and_then (set_case_owned H m tok (put_items ''resolved_followups'' 20 (resolved @ [JObj y]) (put_objects ''_due_followups'' 20 rest kase)) now d)
                (\<lambda>ok d1. if \<not> ok then (Inr False, d1)
                  else and_then (record_event H m (u ''followup'') (u ''checked'') (pick H y [''id''] [])
                    (take_fields y [''branch'', ''summary''] @ [(u ''capability'', JStr capability), (u ''verdict'', JStr verdict)]) now d1)
                    (\<lambda>_ d2. (Inr True, d2))))))"

subsection \<open>Waiting\<close>

text \<open>\<open>when_of s\<close> is the time that \<open>datetime.fromisoformat\<close> reads, in whole seconds, UTC when the text has no zone.\<close>

definition deadline_epoch :: "pyhost \<Rightarrow> (pystr \<Rightarrow> int option) \<Rightarrow> pydict \<Rightarrow> int result" where
  "deadline_epoch H when_of leash =
     (case dget_null leash (u ''expires'') of
        JNull \<Rightarrow> Inr 0
      | JInt i \<Rightarrow> Inr i
      | JFloat (Fin q) \<Rightarrow> Inr (trunc_rat q)
      | JFloat _ \<Rightarrow> Inl (ValueError ''Mission leash expires must be finite'')
      | v \<Rightarrow> if v = JStr [] then Inr 0
          else (case when_of (concat (map (\<lambda>c. if c = 90 then u ''+00:00'' else [c]) (strip (py_str H v)))) of
             None \<Rightarrow> Inl (ValueError ''Mission leash expires is invalid'') | Some t \<Rightarrow> Inr t))"

definition wake_ceiling :: "pyhost \<Rightarrow> int \<Rightarrow> int \<Rightarrow> mission_db \<Rightarrow> pystr \<Rightarrow> int" where
  "wake_ceiling H deadline now d m =
     (case filter (\<lambda>t. t \<noteq> 0) [deadline, elapsed_ceiling_epoch H now d m] of [] \<Rightarrow> 0 | t # ts \<Rightarrow> foldr min ts t)"

definition clamped_seconds :: "int \<Rightarrow> int \<Rightarrow> int \<Rightarrow> int" where
  "clamped_seconds secs ceil now = (if ceil = 0 then secs else max 1 (min secs (max 1 (ceil - now))))"

text \<open>The request with the deadline of the mission as the latest time.\<close>

definition by_deadline :: "pyhost \<Rightarrow> int \<Rightarrow> pydict \<Rightarrow> pydict result" where
  "by_deadline H deadline r =
     (if deadline = 0 then Inr r
      else bind_result (int_field H r ''due_at'' deadline) (\<lambda>t. Inr (dset r (u ''due_at'') (JInt (min t deadline)))))"

definition wait_whole :: "mission_env \<Rightarrow> pystr \<Rightarrow> pystr \<Rightarrow> int \<Rightarrow> pydict \<Rightarrow> pydict \<Rightarrow> pystr \<Rightarrow> int \<Rightarrow> pydict list \<Rightarrow> mission_db
    \<Rightarrow> drive_answer result \<times> mission_db" where
  "wait_whole E m tok now kase args reason secs rows d =
     (let H = mv_host E; blocking = truthy (dget_null args (u ''blocking'')); transient = truthy (dget_null args (u ''transient'')) in
      if rows \<noteq> [] \<and> \<not> transient
      then save_case E m tok now (dset kase (u ''signal'') (JStr (take 800
          (u ''Whole-Mission wait refused: required campaign coverage remains: '' @ join (u '', '') (branch_names H rows))))) d (\<lambda>d1.
        tell E m ''coverage'' ''wait_refused'' [] [(u ''open'', JInt (int (length rows))), (u ''branches'', JList (map JStr (branch_names H rows))),
          (u ''requested_blocking'', JBool blocking)] now d1 go_on)
      else tell E m ''control'' ''wait'' [] [(u ''seconds'', JInt secs), (u ''reason'', JStr reason), (u ''blocking'', JBool blocking),
          (u ''transient'', JBool transient)] now (schedule_mission_wait m (now + secs) now d)
        (leave E m tok J_WAITING (Some (or_str reason (u ''waiting '' @ dec secs @ u ''s''))) now))"

text \<open>The branch that waits among the pending ones, and whether it was asked for without work in between.\<close>

definition rescheduled :: "pyhost \<Rightarrow> pydict \<Rightarrow> pydict list \<Rightarrow> bool \<Rightarrow> (pydict \<times> pydict list) result" where
  "rescheduled H r pending again =
     (case List.find (same_id r) pending of
        None \<Rightarrow> (let r1 = dset r (u ''attempts'') (JInt 1) in Inr (r1, pending @ [r1]))
      | Some p \<Rightarrow>
          bind_result (bind_result (int_field H r ''scheduled_at'' 0) (int_field H p ''scheduled_at'')) (\<lambda>since.
          bind_result (int_field H p ''attempts'' 1) (\<lambda>n.
          bind_result (bind_result (int_field H r ''due_at'' 0) (\<lambda>t. if again then int_field H p ''due_at'' t else Inr t)) (\<lambda>due.
            let r1 = dset (dset (dset r (u ''scheduled_at'') (JInt since)) (u ''attempts'') (JInt (n + 1))) (u ''due_at'') (JInt due)
            in Inr (r1, map (\<lambda>x. if same_id r x then r1 else x) pending)))))"

fun min_due :: "pyhost \<Rightarrow> int \<Rightarrow> pydict list \<Rightarrow> int result" where
  "min_due H dflt [] = Inr dflt"
| "min_due H dflt [x] = int_field H x ''due_at'' dflt"
| "min_due H dflt (x # xs) = bind_result (int_field H x ''due_at'' dflt) (\<lambda>t. bind_result (min_due H dflt xs) (\<lambda>s. Inr (min t s)))"

definition wait_branch :: "mission_env \<Rightarrow> pystr \<Rightarrow> pystr \<Rightarrow> int \<Rightarrow> pydict \<Rightarrow> pydict \<Rightarrow> pystr \<Rightarrow> int \<Rightarrow> mission_db
    \<Rightarrow> drive_answer result \<times> mission_db" where
  "wait_branch E m tok now kase r reason deadline d =
     (let H = mv_host E; rid = pick H r [''id''] [] in
      attempt (field_objects kase ''pending_followups'') d (\<lambda>pending d.
      attempt (field_objects kase ''_due_followups'') d (\<lambda>due d.
      let again = list_ex (same_id r) pending \<and> repeated_without_progress (mission_events d m 80) (u ''followup'') (u ''scheduled'') rid in
      attempt (rescheduled H r pending again) d (\<lambda>(r1, waiting) d.
      let kase1 = put_objects ''_due_followups'' 20 (filter (\<lambda>x. \<not> same_id r x) due) (put_objects ''pending_followups'' 20 waiting kase) in
      attempt (open_campaign_coverage H kase1) d (\<lambda>rows d.
      let kase2 = (if again \<and> rows \<noteq> [] then dset kase1 (u ''signal'') (JStr (take 800
            (u ''Monitoring branch scheduled, but whole-Mission wait refused because required campaign coverage remains: ''
              @ join (u '', '') (branch_names H rows)))) else kase1) in
      save_case E m tok now kase2 d (\<lambda>d1.
      tell E m ''followup'' ''scheduled'' rid (take_fields r1 [''branch'', ''summary'', ''seconds'', ''due_at'', ''attempts'']) now
          (add_step m (u ''wait'') rid (u ''scheduled'') now d1) (\<lambda>d2.
        if \<not> again then go_on d2
        else if rows \<noteq> []
        then tell E m ''coverage'' ''wait_refused'' rid [(u ''open'', JInt (int (length rows))), (u ''branches'', JList (map JStr (branch_names H rows))),
            (u ''scheduled_branch'', dget_null r1 (u ''branch''))] now (add_step m (u ''wait'') rid (u ''coverage-open'') now d2) go_on
        else attempt (min_due H (now + 60) waiting) d2 (\<lambda>first d3.
          let wake_at = (if deadline = 0 then first else min first deadline); why = or_str reason (pick H r1 [''summary''] []) in
          tell E m ''control'' ''wait'' [] [(u ''seconds'', JInt (max 0 (wake_at - now))), (u ''reason'', JStr why),
              (u ''branches'', JInt (int (length waiting)))] now (schedule_mission_wait m wake_at now d3)
            (leave E m tok J_WAITING (Some why) now)))))))))"

definition handle_wait :: "mission_env \<Rightarrow> (pystr \<Rightarrow> int option) \<Rightarrow> pystr \<Rightarrow> pystr \<Rightarrow> int \<Rightarrow> pydict \<Rightarrow> pydict \<Rightarrow> pydict \<Rightarrow> pystr \<Rightarrow> mission_db
    \<Rightarrow> drive_answer result \<times> mission_db" where
  "handle_wait E when_of m tok now leash kase args reason d =
     (let H = mv_host E in
      attempt (wait_seconds H args) d (\<lambda>asked d.
      attempt (deadline_epoch H when_of leash) d (\<lambda>deadline d.
      let secs = clamped_seconds asked (wake_ceiling H deadline now d m) now; args1 = dset args (u ''seconds'') (JInt secs) in
      attempt (followup_request H now args1 reason) d (\<lambda>request d.
      attempt (case request of None \<Rightarrow> Inr None | Some r \<Rightarrow> bind_result (by_deadline H deadline r) (\<lambda>r. Inr (Some r))) d (\<lambda>request d.
      attempt (open_campaign_coverage H kase) d (\<lambda>rows d.
        case request of
          None \<Rightarrow> wait_whole E m tok now kase args1 reason secs rows d
        | Some r \<Rightarrow>
            if truthy (dget_null args1 (u ''blocking'')) \<or> truthy (dget_null args1 (u ''transient''))
            then wait_whole E m tok now kase args1 reason secs rows d
            else wait_branch E m tok now kase r reason deadline d))))))"

subsection \<open>Coverage of a campaign\<close>

definition blocked_row :: "pyhost \<Rightarrow> pydict \<Rightarrow> pydict \<Rightarrow> pydict result" where
  "blocked_row H args row =
     bind_result (routes_in H row) (\<lambda>before. bind_result (routes_in H args) (\<lambda>routes. bind_result (int_field H row ''blocked_attempts'' 0) (\<lambda>n.
       let kind = (let a = pick H args [''blocker_kind''] [] in if a \<noteq> [] then a else pick H row [''blocker_kind''] (u ''technical'')) in
       Inr (dset (dset (dset row (u ''blocker_kind'') (JStr (take 80 kind)))
         (u ''alternatives_tried'') (JList (map JStr (last_items 12 (dedup (before @ routes))))))
         (u ''blocked_attempts'') (JInt (n + 1))))))"

definition exhausted_row :: "pyhost \<Rightarrow> pydict \<Rightarrow> pydict \<Rightarrow> pydict result" where
  "exhausted_row H args row =
     bind_result (routes_in H args) (\<lambda>routes.
       Inr (dset (dset row (u ''blocker_kind'') (JStr (take 80 (pick H args [''blocker_kind''] []))))
         (u ''alternatives_tried'') (JList (map JStr (last_items 12 (dedup routes))))))"

definition covered_row :: "pyhost \<Rightarrow> pydict \<Rightarrow> pydict \<Rightarrow> pystr \<Rightarrow> pystr \<Rightarrow> int \<Rightarrow> pydict result" where
  "covered_row H args row status detail now =
     (let row1 = dset (dset row (u ''status'') (JStr status)) (u ''updated_at'') (JInt now);
          row2 = (if detail = [] then row1 else dset row1 (u ''summary'') (JStr detail)) in
      if status = u ''blocked'' then blocked_row H args row2
      else if status = u ''exhausted'' then exhausted_row H args row2 else Inr row2)"

definition blocked_signal :: "pystr \<Rightarrow> pystr" where
  "blocked_signal branch = take 800 (u ''Coverage branch '' @ branch @ u '' is temporarily blocked and remains open. Try a distinct compliant route, schedule a retry, or provide auditable exhaustion evidence.'')"

definition covered_case :: "pydict \<Rightarrow> pydict list \<Rightarrow> pystr \<Rightarrow> pystr \<Rightarrow> pydict" where
  "covered_case kase rows branch status =
     (if status = u ''blocked''
      then put_objects ''_campaign_coverage'' 40 rows (dset kase (u ''signal'') (JStr (blocked_signal branch)))
      else dpop (put_objects ''_campaign_coverage'' 40 rows kase) (u ''signal''))"

definition update_branch :: "pyhost \<Rightarrow> pydict \<Rightarrow> pystr" where
  "update_branch H args = take 180 (squeeze (strip (pick H args [''branch''] [])))"

definition update_status :: "pyhost \<Rightarrow> pydict \<Rightarrow> pystr" where
  "update_status H args = py_lower H (strip (pick H args [''status''] []))"

definition update_detail :: "pyhost \<Rightarrow> pydict \<Rightarrow> pystr \<Rightarrow> pystr" where
  "update_detail H args reason = take 1000 (strip (pick H args [''summary'', ''evidence''] reason))"

definition update_refused :: "pyhost \<Rightarrow> pydict \<Rightarrow> pydict \<Rightarrow> pystr \<Rightarrow> pydict list \<Rightarrow> coverage_refusal option result" where
  "update_refused H kase args reason rows =
     coverage_refused H kase args rows (update_branch H args) (update_status H args) (update_detail H args reason)"

definition handle_coverage_update :: "mission_env \<Rightarrow> pystr \<Rightarrow> pystr \<Rightarrow> int \<Rightarrow> pydict \<Rightarrow> pydict \<Rightarrow> pystr \<Rightarrow> mission_db
    \<Rightarrow> drive_answer result \<times> mission_db" where
  "handle_coverage_update E m tok now kase args reason d =
     (let H = mv_host E; branch = update_branch H args; status = update_status H args; detail = update_detail H args reason in
      attempt (campaign_coverage H kase) d (\<lambda>rows d.
      attempt (update_refused H kase args reason rows) d (\<lambda>refusal d.
        case refusal of
          Some why \<Rightarrow>
            save_case E m tok now (dset kase (u ''signal'') (JStr (take 800 (u ''Coverage update refused for '' @ or_str branch (u ''unnamed branch'')
                @ u '': '' @ refusal_text why)))) d (\<lambda>d1.
              tell E m ''coverage'' ''update_refused'' [] [(u ''branch'', JStr branch), (u ''status'', JStr status),
                (u ''reason'', JStr (refusal_text why))] now d1 go_on)
        | None \<Rightarrow>
            (case coverage_branch_index H rows branch of
               None \<Rightarrow> go_on d
             | Some i \<Rightarrow>
                 let name = pick H (rows ! i) [''branch''] branch in
                 attempt (covered_row H args (rows ! i) status detail now) d (\<lambda>row d.
                 let kase1 = covered_case kase (rows[i := row]) name status in
                 save_case E m tok now kase1 d (\<lambda>d1.
                 tell E m ''coverage'' ''updated'' name
                   ([(u ''branch'', JStr name), (u ''requested_branch'', JStr branch), (u ''status'', JStr status), (u ''summary'', JStr detail)]
                     @ take_fields row [''blocker_kind'', ''alternatives_tried''])
                   now (add_step m (u ''update_coverage'') name status now d1) (\<lambda>d2.
                 and_then (record_checkpoint H now m tok (u ''coverage_updated'') [(u ''branch'', JStr name), (u ''status'', JStr status)]
                   (Some (JObj kase1)) False d2) (\<lambda>_ d3. go_on d3))))))))"

subsection \<open>An optional step that is skipped\<close>

definition not_asked_as :: "pydict \<Rightarrow> json \<Rightarrow> bool" where
  "not_asked_as request x \<longleftrightarrow> (case x of
     JObj y \<Rightarrow> \<not> same_id y request \<or> dget_null y (u ''summary'') \<noteq> dget_null request (u ''summary'') | _ \<Rightarrow> True)"

definition skipped_coverage :: "pyhost \<Rightarrow> pydict \<Rightarrow> pydict list \<Rightarrow> pydict list" where
  "skipped_coverage H item rows = map (\<lambda>row. if casefold H (branch_of H row) = casefold H (branch_of H item)
     then dset (dset (dset row (u ''status'') (JStr (u ''skipped''))) (u ''summary'') (dget_null item (u ''reason'')))
       (u ''updated_at'') (dget_null item (u ''at'')) else row) rows"

definition skip_signal :: "pyhost \<Rightarrow> pydict \<Rightarrow> pystr" where
  "skip_signal H item = u ''Optional step was skipped, not authorized or completed: '' @ pick H item [''summary''] []
     @ u ''. Continue independent work; include the omission in the final report. Do not request this optional step again.''"

definition skipped_case :: "pyhost \<Rightarrow> pydict \<Rightarrow> pydict \<Rightarrow> pydict \<Rightarrow> pydict list \<Rightarrow> json list \<Rightarrow> pydict list \<Rightarrow> pydict" where
  "skipped_case H kase request item skipped pending rows =
     (let k1 = put_objects ''skipped_steps'' 40 skipped kase;
          k2 = dset k1 (u ''pending_authorizations'') (JList (filter (not_asked_as request) pending));
          k3 = (if rows = [] then k2 else dset k2 (u ''_campaign_coverage'') (JList (map JObj (skipped_coverage H item rows))))
      in dset k3 (u ''signal'') (JStr (skip_signal H item)))"

text \<open>The answer is \<open>None\<close> when the step cannot be skipped and the request is treated as any other.\<close>

definition skip_optional_step :: "mission_env \<Rightarrow> pystr \<Rightarrow> pystr \<Rightarrow> int \<Rightarrow> pydict \<Rightarrow> pydict \<Rightarrow> pystr \<Rightarrow> mission_db
    \<Rightarrow> (drive_answer result \<times> mission_db) option" where
  "skip_optional_step E m tok now kase args reason d =
     (let H = mv_host E in
      case campaign_coverage H kase of
        Inl e \<Rightarrow> Some (Inl e, d)
      | Inr rows \<Rightarrow>
          (case skip_request H args reason rows of
             None \<Rightarrow> None
           | Some item \<Rightarrow>
               (case bind_result (authorization_request H now args reason) (\<lambda>request.
                   bind_result (iter_field kase ''pending_authorizations'') (\<lambda>pending. Inr (request, pending))) of
                  Inl e \<Rightarrow> Some (Inl e, d)
                | Inr (request, pending) \<Rightarrow>
                    if list_ex (\<lambda>x. case x of JObj y \<Rightarrow> same_id y request \<and> truthy (dget_null y (u ''blocking'')) | _ \<Rightarrow> False) pending then None
                    else Some (
                      attempt (iter_field kase ''skipped_steps'') d (\<lambda>old d.
                      let sid = pick H item [''id''] []; known = List.find (same_id item) (objects_of old) in
                      attempt (case known of Some k \<Rightarrow> Inr (Some k) | None \<Rightarrow> optional_skip H d m sid) d (\<lambda>previous d.
                      let t = (case previous of None \<Rightarrow> JNull | Some k \<Rightarrow> dget_null k (u ''at''));
                          item1 = dset item (u ''at'') (if truthy t then t else JInt now);
                          skipped = (if known = None then objects_of old @ [item1] else objects_of old);
                          kase1 = skipped_case H kase request item1 skipped pending rows in
                      save_case E m tok now kase1 d (\<lambda>d1.
                      (if previous \<noteq> None then (\<lambda>f. f d1)
                       else tell E m ''intervention'' ''optional_skipped'' sid item1 now (add_step m (u ''skip_optional'') sid (u ''skipped'') now d1))
                      (\<lambda>d2. and_then (record_checkpoint H now m tok (u ''optional_skipped'') [(u ''id'', JStr sid)] (Some (JObj kase1)) False d2)
                         (\<lambda>_ d3. go_on d3)))))))))"

end
