(* ===== verification/MissionTurn.thy ===== *)
theory MissionTurn
  imports MissionAsk MissionSample
begin

text \<open>
  How a turn of the driver is followed through its transactions. A property of the store that
  every transaction keeps, and a property of the cases that are stored, are the parameters of
  \<open>turn_logic\<close>; the rules of the locale carry both through every turn.
\<close>

subsection \<open>Compaction\<close>

definition verbatim_fields :: "pystr list" where
  "verbatim_fields = removeAll (u ''_mission_summary'') (removeAll (u ''_recent_results'') (removeAll (u ''human_updates'') kept_fields))"

lemma dget_filter: "P k \<Longrightarrow> dget (filter (\<lambda>(k, _). P k) d) k = dget d k"
  unfolding dget_def by (induction d) auto

lemma dget_dset_other: "k \<noteq> j \<Longrightarrow> dget (dset d j v) k = dget d k"
  by simp

text \<open>The fields that carry authority survive the compaction of a case unchanged.\<close>

lemma compaction_keeps:
  assumes "compact_case_storage H d = Inr c" "List.member verbatim_fields k"
  shows "dget c k = dget d k"
proof -
  have k: "List.member kept_fields k" "k \<noteq> u ''_mission_summary''" "k \<noteq> u ''_recent_results''" "k \<noteq> u ''human_updates''"
    using assms(2) by (auto simp: verbatim_fields_def)
  have small: "dget (compacted H x rs) k = dget x k" for x rs
    using k unfolding compacted_def Let_def by (simp add: dget_filter)
  obtain rs where rs: "loop_items (dget_null d (u ''_recent_results'')) = Inr rs"
    using assms(1) by (auto simp: compact_case_storage_def bind_result_Inr_iff)
  define d1 where "d1 = (if last_items 12 rs \<noteq> [] then dset d (u ''_recent_results'') (JList (last_items 12 rs)) else d)"
  obtain us where us: "human_note_projection H (dget_null d1 (u ''human_updates'')) = Inr us"
    using assms(1) rs by (auto simp: compact_case_storage_def bind_result_Inr_iff Let_def d1_def)
  define d2 where "d2 = (if us \<noteq> [] then dset d1 (u ''human_updates'') (JList us) else d1)"
  have "dget d2 k = dget d k" using k by (simp add: d1_def d2_def)
  moreover have "c = d2 \<or> c = compacted H d2 (last_items 12 rs)"
  proof -
    have "compact_case_storage H d = bind_result (js d2) (\<lambda>_. if length (js_text H d2) \<le> case_limit then Inr d2
        else Inr (compacted H d2 (last_items 12 rs)))"
      by (simp only: compact_case_storage_def rs us bind_result_simps Let_def d1_def [symmetric] d2_def [symmetric])
    with assms(1) show ?thesis by (auto simp: bind_result_Inr_iff split: if_splits)
  qed
  ultimately show ?thesis using small by auto
qed

lemma compaction_keeps_null: "compact_case_storage H d = Inr c \<Longrightarrow> List.member verbatim_fields k \<Longrightarrow> dget_null c k = dget_null d k"
  by (simp add: dget_null_dget compaction_keeps)

subsection \<open>Authorizations of a case\<close>

definition grants :: "pydict \<Rightarrow> pydict list" where
  "grants c = (case dget_null c (u ''resolved_authorizations'') of JList xs \<Rightarrow> objects_of xs | _ \<Rightarrow> [])"

lemma grants_same: "dget c (u ''resolved_authorizations'') = dget d (u ''resolved_authorizations'') \<Longrightarrow> grants c = grants d"
  by (simp add: grants_def dget_null_dget)

lemma grants_compact: "compact_case_storage H k = Inr c \<Longrightarrow> grants c = grants k"
  by (rule grants_same, rule compaction_keeps) (simp_all add: verbatim_fields_def kept_fields_def)

lemma dget_dpop: "dget (dpop d k) j = (if j = k then None else dget d j)"
  unfolding dpop_def dget_def by (induction d) auto

lemma grants_other [simp]:
  "k \<noteq> u ''resolved_authorizations'' \<Longrightarrow> grants (dset c k v) = grants c"
  "s \<noteq> ''resolved_authorizations'' \<Longrightarrow> grants (put_objects s n xs c) = grants c"
  "s \<noteq> ''resolved_authorizations'' \<Longrightarrow> grants (put_items s n ys c) = grants c"
  "k \<noteq> u ''resolved_authorizations'' \<Longrightarrow> grants (dpop c k) = grants c"
  by (rule grants_same, simp add: put_objects_def put_items_def dget_dpop)+

lemma objects_of_iff [simp]: "g \<in> set (objects_of xs) \<longleftrightarrow> JObj g \<in> set xs"
  by (force simp: objects_of_def split: json.splits)

lemma grants_put [simp]: "grants (put_items ''resolved_authorizations'' n rs c) = objects_of (last_items n rs)"
  by (simp add: grants_def put_items_def dget_null_dget)

lemma grants_iterated: "field_items c ''resolved_authorizations'' = Inr rs \<Longrightarrow> JObj g \<in> set rs \<Longrightarrow> g \<in> set (grants c)"
  by (cases "dget_null c (u ''resolved_authorizations'')") (auto simp: field_items_def loop_items_def grants_def split: if_splits)

lemma resolved_member: "resolved_authorization H r rs = Some item \<Longrightarrow> JObj item \<in> set rs \<and> answers_request H r item"
  by (induction H r rs rule: resolved_authorization.induct) (auto split: if_splits)

text \<open>The reasons for which an authorization may enter a case.\<close>

definition justified :: "pyhost \<Rightarrow> (string \<Rightarrow> string \<Rightarrow> json) \<Rightarrow> int \<Rightarrow> mission_db \<Rightarrow> pystr \<Rightarrow> pydict \<Rightarrow> pydict \<Rightarrow> bool" where
  "justified H cfg now d m request g \<longleftrightarrow>
     handled_authorization d m (pick H request [''id''] []) = Some g \<and> answers_request H request g
     \<or> (case standing_authority H cfg of Inl _ \<Rightarrow> False
        | Inr a \<Rightarrow> fst (standing_authorizes H request a) \<and> g = standing_item request now (snd (standing_authorizes H request a)))"

lemma durable_member: "JObj g \<in> set (durable_answer H d m r) \<Longrightarrow> handled_authorization d m (pick H r [''id''] []) = Some g"
  by (auto simp: durable_answer_def split: option.splits if_splits)

lemma found_justified:
  assumes "resolved_authorization H r (rs @ durable_answer H d m r) = Some item"
  shows "JObj item \<in> set rs \<or> justified H cfg now d m r item"
  using resolved_member [OF assms] by (auto simp: justified_def dest: durable_member)

lemma add_resolved_member: "JObj g \<in> set (add_resolved rs item) \<Longrightarrow> JObj g \<in> set rs \<or> g = item"
  by (auto simp: add_resolved_def split: if_splits)

subsection \<open>How a branch of a campaign can change\<close>

text \<open>The coverage that an accepted update, or an accepted omission, stores.\<close>

definition covering :: "pyhost \<Rightarrow> int \<Rightarrow> pydict \<Rightarrow> pydict \<Rightarrow> pystr \<Rightarrow> json \<Rightarrow> bool" where
  "covering H now kase args reason v \<longleftrightarrow>
     (\<exists>rows i row. campaign_coverage H kase = Inr rows \<and> update_refused H kase args reason rows = Inr None
        \<and> coverage_branch_index H rows (update_branch H args) = Some i
        \<and> covered_row H args (rows ! i) (update_status H args) (update_detail H args reason) now = Inr row
        \<and> v = JList (last_items 40 (map JObj (rows[i := row]))))"

definition skipping :: "pyhost \<Rightarrow> pydict \<Rightarrow> pydict \<Rightarrow> pystr \<Rightarrow> json \<Rightarrow> bool" where
  "skipping H kase args reason v \<longleftrightarrow>
     (\<exists>rows item t. campaign_coverage H kase = Inr rows \<and> rows \<noteq> [] \<and> skip_request H args reason rows = Some item
        \<and> v = JList (map JObj (skipped_coverage H (dset item (u ''at'') t) rows)))"

subsection \<open>When a wait can end\<close>

definition wakes_at :: "pyhost \<Rightarrow> (pystr \<Rightarrow> int option) \<Rightarrow> int \<Rightarrow> pydict \<Rightarrow> int \<Rightarrow> bool" where
  "wakes_at H when_of now leash t \<longleftrightarrow>
     (case deadline_epoch H when_of leash of Inl _ \<Rightarrow> False | Inr deadline \<Rightarrow> deadline \<noteq> 0 \<longrightarrow> t \<le> max (now + 1) deadline)"

lemma clamped_deadline:
  assumes "deadline \<noteq> 0"
  shows "now + clamped_seconds asked (wake_ceiling H deadline now d m) now \<le> max (now + 1) deadline"
proof -
  have "wake_ceiling H deadline now d m \<noteq> 0 \<and> wake_ceiling H deadline now d m \<le> deadline"
    using assms by (auto simp: wake_ceiling_def min_def)
  then show ?thesis by (auto simp: clamped_seconds_def)
qed

subsection \<open>Following a turn\<close>

lemma attempt_Inr [simp]: "attempt (Inr x) d f = f x d"
  by (simp add: attempt_def and_then_def)

lemma plain_turn_kinds:
  "plain_kind (u ''authorization'')" "plain_kind (u ''coverage'')" "plain_kind (u ''control'')" "plain_kind (u ''followup'')"
  "plain_kind (u ''intervention'')" "plain_kind (u ''gate'')" "plain_kind (u ''watchdog'')" "plain_kind (u ''result'')"
  "plain_kind (u ''agent'')" "plain_kind (u ''goal_verification'')"
  by (simp_all add: plain_kind_def proposed_irreversible_def)

text \<open>How a turn can end a run.\<close>

definition turn_end :: "job_state \<Rightarrow> bool" where
  "turn_end s \<longleftrightarrow> List.member [J_WAITING, J_NEEDS_YOU, J_FAILED] s"

lemma turn_ends: "turn_end J_WAITING" "turn_end J_NEEDS_YOU" "turn_end J_FAILED"
  by (simp_all add: turn_end_def)

locale turn_logic =
  fixes E :: mission_env
    and m :: pystr
    and tok :: pystr
    and I :: "mission_db \<Rightarrow> bool"
    and G :: "pydict \<Rightarrow> bool"
    and fine :: "pydict \<Rightarrow> bool"
    and closes :: "json \<Rightarrow> bool"
    and fires :: "int \<Rightarrow> bool"
  assumes told: "plain_kind kind \<Longrightarrow> I d \<Longrightarrow> I (snd (record_event (mv_host E) m kind name nonce p now d))"
    and stepped: "I d \<Longrightarrow> I (add_step m name nonce vd now d)"
    and timed: "fires fire \<Longrightarrow> I d \<Longrightarrow> I (schedule_mission_wait m fire now d)"
    and noted: "I d \<Longrightarrow> I (snd (record_checkpoint (mv_host E) now m t phase p ck un d))"
    and settled: "I d \<Longrightarrow> I (snd (settle_pausing m tok now d))"
    and finished: "turn_end s \<Longrightarrow> I d \<Longrightarrow> I (snd (finish_mission (mv_host E) m tok s res block now d))"
    and saved: "G c \<Longrightarrow> I d \<Longrightarrow> I (snd (set_case_owned (mv_host E) m tok c now d))"
    and G_set: "k \<noteq> u ''resolved_authorizations'' \<Longrightarrow> k \<noteq> u ''_campaign_coverage'' \<Longrightarrow> G c \<Longrightarrow> G (dset c k v)"
    and G_cover: "G c \<Longrightarrow> closes v \<Longrightarrow> G (dset c (u ''_campaign_coverage'') v)"
    and G_pop: "k \<noteq> u ''resolved_authorizations'' \<Longrightarrow> k \<noteq> u ''_campaign_coverage'' \<Longrightarrow> G c \<Longrightarrow> G (dpop c k)"
    and G_grants: "G c \<Longrightarrow> (\<And>g. JObj g \<in> set rs \<Longrightarrow> fine g) \<Longrightarrow> G (put_items ''resolved_authorizations'' n rs c)"
    and G_old: "G c \<Longrightarrow> field_items c ''resolved_authorizations'' = Inr rs \<Longrightarrow> JObj g \<in> set rs \<Longrightarrow> fine g"
    and G_case: "I d \<Longrightarrow> mission_of d m = Some r \<Longrightarrow> G (jl (mi_case r))"
begin

text \<open>The steps of a turn.\<close>

lemma k_if: "(b \<Longrightarrow> I (snd x)) \<Longrightarrow> (\<not> b \<Longrightarrow> I (snd y)) \<Longrightarrow> I (snd (if b then x else y))"
  by simp

lemma k_and_then:
  assumes "I (snd x)" "\<And>a. fst x = Inr a \<Longrightarrow> I (snd x) \<Longrightarrow> I (snd (f a (snd x)))"
  shows "I (snd (and_then x f))"
  using assms by (cases x) (auto simp: and_then_def split: sum.split)

lemma k_attempt:
  assumes "I d" "\<And>a. r = Inr a \<Longrightarrow> I (snd (f a d))"
  shows "I (snd (attempt r d f))"
  using assms by (auto simp: attempt_def and_then_def split: sum.split)

lemma k_lost: "I d \<Longrightarrow> I (snd (lost_state m tok now d))"
  by (simp add: lost_state_def Let_def settled)

lemma k_finish_run: "turn_end s \<Longrightarrow> I d \<Longrightarrow> I (snd (finish_run (mv_host E) m tok s res block now later d))"
  using finished [of s d res block now]
  by (auto simp: finish_run_def Let_def split_beta noted split: prod.splits sum.splits bool.splits)

lemma k_leave: "turn_end s \<Longrightarrow> I d \<Longrightarrow> I (snd (leave E m tok s res now d))"
  unfolding leave_def by (rule k_and_then) (auto simp: k_finish_run k_lost)

lemma k_go_on: "I d \<Longrightarrow> I (snd (go_on d))"
  by (simp add: go_on_def)

lemma k_tell:
  assumes "plain_kind (u kind)" "I d" "\<And>d1. I d1 \<Longrightarrow> I (snd (f d1))"
  shows "I (snd (tell E m kind name nonce p now d f))"
  unfolding tell_def by (rule k_and_then) (use assms in \<open>auto simp: told\<close>)

lemma k_save:
  assumes "G c" "I d" "\<And>d1. I d1 \<Longrightarrow> I (snd (f d1))"
  shows "I (snd (save_case E m tok now c d f))"
  unfolding save_case_def by (rule k_and_then) (use assms in \<open>auto intro: saved k_lost\<close>)

lemma k_note:
  assumes "I d" "\<And>d1. I d1 \<Longrightarrow> I (snd (f d1))"
  shows "I (snd (and_then (record_checkpoint (mv_host E) now m t phase p k un d) (\<lambda>_ d1. f d1)))"
  by (rule k_and_then) (use assms in \<open>auto simp: noted\<close>)

lemma G_put:
  "G c \<Longrightarrow> u s \<noteq> u ''resolved_authorizations'' \<Longrightarrow> u s \<noteq> u ''_campaign_coverage'' \<Longrightarrow> G (put_objects s n xs c)"
  "G c \<Longrightarrow> u s \<noteq> u ''resolved_authorizations'' \<Longrightarrow> u s \<noteq> u ''_campaign_coverage'' \<Longrightarrow> G (put_items s n ys c)"
  by (simp_all add: put_objects_def put_items_def G_set)

lemmas k_rules = k_if k_save k_tell k_note k_attempt k_leave k_lost k_go_on stepped timed told noted
lemmas k_facts = plain_turn_kinds turn_ends G_set G_pop G_put

end
context turn_logic
begin

lemma k_reuse:
  assumes "I d" "G kase" "\<And>g. JObj g \<in> set rs \<Longrightarrow> fine g" "fine item"
  shows "I (snd (reuse_authorization E m tok now kase request item rs pending d))"
  unfolding reuse_authorization_def Let_def
  by (rule k_save, rule G_grants)
    (use assms in \<open>auto intro!: k_tell k_go_on stepped dest!: add_resolved_member simp: k_facts\<close>)

lemma k_standing:
  assumes "I d" "G kase" "\<And>g. JObj g \<in> set rs \<Longrightarrow> fine g" "fine (standing_item request now why)"
  shows "I (snd (grant_standing E m tok now kase request why rs pending d))"
  unfolding grant_standing_def Let_def
  by (rule k_save, rule G_grants) (use assms in \<open>auto intro!: k_tell k_go_on stepped simp: k_facts\<close>)

lemma k_defer:
  assumes "I d" "G kase"
  shows "I (snd (defer_authorization E m tok now kase request a why pending d))"
  unfolding defer_authorization_def Let_def split_beta
  by (rule k_rules assms | assumption | simp add: k_facts assms(2))+

definition decided :: "(string \<Rightarrow> string \<Rightarrow> json) \<Rightarrow> int \<Rightarrow> mission_db \<Rightarrow> pydict \<Rightarrow> bool" where
  "decided cfg now d request \<longleftrightarrow> (\<forall>g. justified (mv_host E) cfg now d m request g \<longrightarrow> fine g)"

lemma found_fine:
  assumes "resolved_authorization (mv_host E) r (rs @ durable_answer (mv_host E) d m r) = Some item"
    and "decided cfg now d r" "\<And>g. JObj g \<in> set rs \<Longrightarrow> fine g"
  shows "fine item"
  using found_justified [OF assms(1), of cfg now] assms(2,3) by (auto simp: decided_def)

lemma standing_fine:
  assumes "standing_authority (mv_host E) cfg = Inr a" "standing_authorizes (mv_host E) r a = (True, why)" "decided cfg now d r"
  shows "fine (standing_item r now why)"
  using assms by (auto simp: decided_def justified_def)

lemma k_authorization:
  assumes "I d" "G kase" "\<And>request. authorization_request (mv_host E) now args reason = Inr request \<Longrightarrow> decided cfg now d request"
  shows "I (snd (handle_authorization E cfg m tok now kase args reason d))"
proof (cases "authorization_request (mv_host E) now args reason")
  case (Inl e)
  then show ?thesis using assms(1) by (simp add: handle_authorization_def attempt_def and_then_def)
next
  case (Inr request)
  let ?H = "mv_host E"
  note q = assms(3) [OF Inr]
  have one: "I (snd (case resolved_authorization ?H request (rs @ durable_answer ?H d m request) of
      Some item \<Rightarrow> reuse_authorization E m tok now kase request item rs pending d
    | None \<Rightarrow> (case standing_authorizes ?H request a of
        (True, why) \<Rightarrow> grant_standing E m tok now kase request why rs pending d
      | (False, why) \<Rightarrow> defer_authorization E m tok now kase request a why pending d)))"
    if a: "standing_authority ?H cfg = Inr a" and rs: "field_items kase ''resolved_authorizations'' = Inr rs" for a rs pending
    using found_fine [OF _ q] standing_fine [OF a _ q] G_old [OF assms(2) rs] k_reuse [OF assms(1,2)] k_standing [OF assms(1,2)] k_defer [OF assms(1,2)]
    by (auto split: option.split prod.split bool.split)
  show ?thesis
    unfolding handle_authorization_def Let_def Inr attempt_Inr
    by (rule k_rules assms | assumption | erule one | simp add: k_facts assms(2))+
qed

lemma responses_event: "md_responses (snd (record_event H i kind name nonce p now d)) = md_responses d"
  by (simp add: record_event_def add_mission_event_def split: sum.split)

lemma decided_same: "md_responses d1 = md_responses d \<Longrightarrow> decided cfg now d r \<Longrightarrow> decided cfg now d1 r"
  by (simp add: decided_def justified_def handled_authorization_def response_of_def)

lemma k_refresh_each:
  assumes a: "standing_authority (mv_host E) cfg = Inr a"
  shows "I d \<Longrightarrow> (\<And>r. r \<in> set rs \<Longrightarrow> decided cfg now d r) \<Longrightarrow> (\<And>g. JObj g \<in> set (fst (snd acc)) \<Longrightarrow> fine g)
    \<Longrightarrow> I (snd (refresh_each E m now a rs acc d)) \<and>
      (\<forall>out. fst (refresh_each E m now a rs acc d) = Inr out \<longrightarrow> (\<forall>g. JObj g \<in> set (fst (snd out)) \<longrightarrow> fine g))"
proof (induction rs arbitrary: acc d)
  case (Cons r rs)
  obtain keep res ch where acc: "acc = (keep, res, ch)" by (cases acc)
  have next_ok: "I (snd (and_then (record_event (mv_host E) m (u ''authorization'') name rid p now d) (\<lambda>_ d1. refresh_each E m now a rs acc1 d1)))
      \<and> (\<forall>out. fst (and_then (record_event (mv_host E) m (u ''authorization'') name rid p now d) (\<lambda>_ d1. refresh_each E m now a rs acc1 d1)) = Inr out
          \<longrightarrow> (\<forall>g. JObj g \<in> set (fst (snd out)) \<longrightarrow> fine g))"
    if "\<And>g. JObj g \<in> set (fst (snd acc1)) \<Longrightarrow> fine g" for name rid p acc1
  proof -
    obtain x d1 where e: "record_event (mv_host E) m (u ''authorization'') name rid p now d = (x, d1)" by fastforce
    have "I d1" using told [OF plain_turn_kinds(1) Cons.prems(1), of name rid p now] e by simp
    moreover have "decided cfg now d1 s" if "s \<in> set rs" for s
      using decided_same [of d1 d] responses_event [of "mv_host E" m "u ''authorization''" name rid p now d] e Cons.prems(2) [of s] that by simp
    ultimately have "I (snd (refresh_each E m now a rs acc1 d1)) \<and>
      (\<forall>out. fst (refresh_each E m now a rs acc1 d1) = Inr out \<longrightarrow> (\<forall>g. JObj g \<in> set (fst (snd out)) \<longrightarrow> fine g))"
      using Cons.IH [of d1 acc1] that by blast
    with e \<open>I d1\<close> show ?thesis by (simp add: and_then_def split: sum.split)
  qed
  show ?case
  proof (cases "resolved_authorization (mv_host E) r (res @ durable_answer (mv_host E) d m r)")
    case (Some item)
    have "fine item" using found_fine [OF Some] Cons.prems(2) [of r] Cons.prems(3) acc by simp
    then have "JObj g \<in> set (add_resolved res item) \<Longrightarrow> fine g" for g
      using Cons.prems(3) acc by (auto dest!: add_resolved_member)
    then show ?thesis using Some next_ok [of "(keep, add_resolved res item, True)"] by (simp add: acc Let_def)
  next
    case None
    obtain yes why where w: "standing_authorizes (mv_host E) r a = (yes, why)" by fastforce
    show ?thesis
    proof (cases yes)
      case True
      have "JObj g \<in> set (res @ [JObj (standing_item r now why)]) \<Longrightarrow> fine g" for g
        using standing_fine [OF a, of r why] w True Cons.prems(2) [of r] Cons.prems(3) acc by auto
      then show ?thesis using None w True next_ok [of "(keep, res @ [JObj (standing_item r now why)], True)"] by (simp add: acc Let_def)
    next
      case False
      then show ?thesis using None w Cons.IH [of d "(keep @ [r], res, ch)"] Cons.prems by (simp add: acc Let_def)
    qed
  qed
qed auto

lemma k_refresh_authorizations:
  assumes "I d" "G kase" "\<And>r. JObj r \<in> set (case field_items kase ''pending_authorizations'' of Inr xs \<Rightarrow> xs | _ \<Rightarrow> []) \<Longrightarrow> decided cfg now d r"
  shows "I (snd (refresh_authorizations E cfg m tok now kase d))"
proof -
  have one: "I (snd (and_then (refresh_each E m now a pending ([], rs, False) d) (\<lambda>(keep, resolved, changed) d1.
       if \<not> changed then (Inr (True, a), d1)
       else and_then (set_case_owned (mv_host E) m tok
           (put_items ''resolved_authorizations'' 20 resolved (dset kase (u ''pending_authorizations'') (JList (map JObj keep)))) now d1)
         (\<lambda>ok d2. (Inr (ok, a), d2)))))"
    if a: "standing_authority (mv_host E) cfg = Inr a" and p: "field_objects kase ''pending_authorizations'' = Inr pending"
      and rs: "field_items kase ''resolved_authorizations'' = Inr rs" for a pending rs
  proof -
    have "r \<in> set pending \<Longrightarrow> decided cfg now d r" for r
      using p assms(3) [of r] by (auto simp: field_objects_def bind_result_Inr_iff)
    then have each: "I (snd (refresh_each E m now a pending ([], rs, False) d)) \<and>
      (\<forall>out. fst (refresh_each E m now a pending ([], rs, False) d) = Inr out \<longrightarrow> (\<forall>g. JObj g \<in> set (fst (snd out)) \<longrightarrow> fine g))"
      by (rule k_refresh_each [OF a assms(1)]) (use G_old [OF assms(2) rs] in auto)
    show ?thesis
      by (rule k_and_then) (use each assms(2) in \<open>auto intro!: k_and_then saved G_grants G_set split: prod.split\<close>)
  qed
  show ?thesis
    unfolding refresh_authorizations_def
    by (rule k_attempt assms | assumption | erule one)+
qed

end

context turn_logic
begin

lemma k_due_each: "I d \<Longrightarrow> I (snd (due_each E m now forced xs acc d))"
proof (induction xs arbitrary: acc d)
  case (Cons x xs)
  obtain keep due ch where acc: "acc = (keep, due, ch)" by (cases acc)
  show ?case
    unfolding acc due_each.simps Let_def
    by (rule k_attempt k_and_then k_if told Cons.IH Cons.prems | assumption | simp add: k_facts)+
qed simp

lemma k_refresh_followups:
  assumes "I d" "G kase"
  shows "I (snd (refresh_followups E m tok now kase d))"
  unfolding refresh_followups_def Let_def split_beta
  by (rule k_attempt k_and_then k_if saved k_due_each assms | assumption | simp add: k_facts assms(2))+

lemma k_consume_due_followup:
  assumes "I d"
  shows "I (snd (consume_due_followup E m tok capability verdict args now d))"
proof (cases "mission_of d m")
  case (Some r)
  note g = G_case [OF assms Some]
  show ?thesis
    unfolding consume_due_followup_def Some Let_def option.case
    by (rule k_attempt k_and_then k_if saved told assms | assumption | simp add: k_facts g split: option.split prod.split | intro allI impI conjI)+
qed (simp add: consume_due_followup_def assms)

lemma k_wait_whole:
  assumes "I d" "G kase" "fires (now + secs)"
  shows "I (snd (wait_whole E m tok now kase args reason secs rows d))"
  unfolding wait_whole_def Let_def
  by (rule k_rules assms | assumption | simp add: k_facts assms(2))+

lemma k_wait_branch:
  assumes "I d" "G kase" "\<And>t. deadline \<noteq> 0 \<longrightarrow> t \<le> deadline \<Longrightarrow> fires t"
  shows "I (snd (wait_branch E m tok now kase r reason deadline d))"
  unfolding wait_branch_def Let_def split_beta
  by (rule k_rules assms | assumption | simp add: k_facts assms(2))+

lemma k_wait:
  assumes "I d" "G kase" "\<And>t. wakes_at (mv_host E) when_of now leash t \<Longrightarrow> fires t"
  shows "I (snd (handle_wait E when_of m tok now leash kase args reason d))"
proof -
  have whole: "I (snd (wait_whole E m tok now kase args1 reason (clamped_seconds asked (wake_ceiling (mv_host E) deadline now d m) now) rows d))"
    if "wait_seconds (mv_host E) args = Inr asked" "deadline_epoch (mv_host E) when_of leash = Inr deadline" for asked deadline args1 rows
    by (rule k_wait_whole [OF assms(1,2)], rule assms(3)) (use that in \<open>simp add: wakes_at_def clamped_deadline\<close>)
  have branch: "I (snd (wait_branch E m tok now kase r reason deadline d))" if "deadline_epoch (mv_host E) when_of leash = Inr deadline" for r deadline
    by (rule k_wait_branch [OF assms(1,2)], rule assms(3)) (use that in \<open>auto simp: wakes_at_def\<close>)
  show ?thesis
    unfolding handle_wait_def Let_def
    by (rule k_attempt assms(1) | assumption | simp add: whole branch split: option.split)+
qed

lemma k_coverage:
  assumes "I d" "G kase" "\<And>v. covering (mv_host E) now kase args reason v \<Longrightarrow> closes v"
  shows "I (snd (handle_coverage_update E m tok now kase args reason d))"
proof -
  let ?H = "mv_host E"
  have c: "G (covered_case kase (rows[i := row]) name (update_status ?H args))"
    if "campaign_coverage ?H kase = Inr rows" "update_refused ?H kase args reason rows = Inr None"
      "coverage_branch_index ?H rows (update_branch ?H args) = Some i"
      "covered_row ?H args (rows ! i) (update_status ?H args) (update_detail ?H args reason) now = Inr row" for rows i row name
  proof -
    have "closes (JList (last_items 40 (map JObj (rows[i := row]))))"
      by (rule assms(3)) (use that in \<open>auto simp: covering_def\<close>)
    then show ?thesis by (simp add: covered_case_def put_objects_def k_facts G_cover assms(2))
  qed
  show ?thesis
    unfolding handle_coverage_update_def Let_def
    by (rule k_rules assms | assumption | erule (3) c | simp add: k_facts assms(2) c split: option.split | intro allI impI conjI)+
qed

lemma k_skip:
  assumes "I d" "G kase" "\<And>v. skipping (mv_host E) kase args reason v \<Longrightarrow> closes v" "skip_optional_step E m tok now kase args reason d = Some x"
  shows "I (snd x)"
proof -
  have c: "G (skipped_case (mv_host E) kase request (dset item (u ''at'') t) skipped pending rows)"
    if "campaign_coverage (mv_host E) kase = Inr rows" "skip_request (mv_host E) args reason rows = Some item" for request item t skipped pending rows
  proof -
    have "closes (JList (map JObj (skipped_coverage (mv_host E) (dset item (u ''at'') t) rows)))" if "rows \<noteq> []"
      by (rule assms(3)) (use that \<open>campaign_coverage (mv_host E) kase = Inr rows\<close> \<open>skip_request (mv_host E) args reason rows = Some item\<close> in \<open>auto simp: skipping_def\<close>)
    then show ?thesis by (simp add: skipped_case_def Let_def k_facts G_cover assms(2))
  qed
  have told_skip: "I (snd ((if b then (\<lambda>f. f d1) else tell E m ''intervention'' ''optional_skipped'' sid p now (add_step m nm sid vd now d1)) f))"
    if "I d1" "\<And>d2. I d2 \<Longrightarrow> I (snd (f d2))" for b d1 sid p nm vd f
    using that by (auto intro!: k_tell stepped simp: k_facts)
  show ?thesis
    using assms(4) unfolding skip_optional_step_def Let_def
    by (auto split: sum.splits option.splits if_splits prod.splits intro!: k_attempt k_save told_skip k_note k_go_on c assms(1))
qed

end

subsection \<open>Turns\<close>

datatype turn =
  T_ASK pydict pystr
| T_REFRESH
| T_DUE
| T_CHECKED pystr pystr pydict
| T_WAIT pydict pystr
| T_COVER pydict pystr
| T_SKIP pydict pystr

primrec take_turn :: "mission_env \<Rightarrow> (string \<Rightarrow> string \<Rightarrow> json) \<Rightarrow> (pystr \<Rightarrow> int option) \<Rightarrow> pystr \<Rightarrow> pystr \<Rightarrow> int \<Rightarrow> pydict \<Rightarrow> pydict
    \<Rightarrow> turn \<Rightarrow> mission_db \<Rightarrow> mission_db" where
  "take_turn E cfg when_of m tok now leash kase (T_ASK args reason) d = snd (handle_authorization E cfg m tok now kase args reason d)"
| "take_turn E cfg when_of m tok now leash kase T_REFRESH d = snd (refresh_authorizations E cfg m tok now kase d)"
| "take_turn E cfg when_of m tok now leash kase T_DUE d = snd (refresh_followups E m tok now kase d)"
| "take_turn E cfg when_of m tok now leash kase (T_CHECKED capability verdict args) d = snd (consume_due_followup E m tok capability verdict args now d)"
| "take_turn E cfg when_of m tok now leash kase (T_WAIT args reason) d = snd (handle_wait E when_of m tok now leash kase args reason d)"
| "take_turn E cfg when_of m tok now leash kase (T_COVER args reason) d = snd (handle_coverage_update E m tok now kase args reason d)"
| "take_turn E cfg when_of m tok now leash kase (T_SKIP args reason) d =
     (case skip_optional_step E m tok now kase args reason d of None \<Rightarrow> d | Some x \<Rightarrow> snd x)"

text \<open>The requests that a turn is about.\<close>

definition asked :: "pyhost \<Rightarrow> int \<Rightarrow> pydict \<Rightarrow> turn \<Rightarrow> pydict \<Rightarrow> bool" where
  "asked H now kase t request \<longleftrightarrow>
     (case t of
        T_ASK args reason \<Rightarrow> authorization_request H now args reason = Inr request
      | T_REFRESH \<Rightarrow> JObj request \<in> set (case field_items kase ''pending_authorizations'' of Inr xs \<Rightarrow> xs | _ \<Rightarrow> [])
      | _ \<Rightarrow> False)"

text \<open>The coverage that a turn may store.\<close>

definition covers_with :: "pyhost \<Rightarrow> int \<Rightarrow> pydict \<Rightarrow> turn \<Rightarrow> json \<Rightarrow> bool" where
  "covers_with H now kase t v \<longleftrightarrow>
     (case t of T_COVER args reason \<Rightarrow> covering H now kase args reason v | T_SKIP args reason \<Rightarrow> skipping H kase args reason v | _ \<Rightarrow> False)"

definition waits :: "turn \<Rightarrow> bool" where
  "waits t \<longleftrightarrow> (case t of T_WAIT _ _ \<Rightarrow> True | _ \<Rightarrow> False)"

context turn_logic
begin

lemma k_turn:
  assumes "I d" "G kase" "\<And>request. asked (mv_host E) now kase t request \<Longrightarrow> decided cfg now d request"
    and "\<And>v. covers_with (mv_host E) now kase t v \<Longrightarrow> closes v"
    and "\<And>w. waits t \<Longrightarrow> wakes_at (mv_host E) when_of now leash w \<Longrightarrow> fires w"
  shows "I (take_turn E cfg when_of m tok now leash kase t d)"
proof (cases t)
  case (T_SKIP args reason)
  then show ?thesis using k_skip [OF assms(1,2), of args reason now] assms(4) by (auto simp: covers_with_def assms(1) split: option.split)
qed (use assms in \<open>auto simp: asked_def covers_with_def waits_def intro!: k_authorization k_refresh_authorizations k_refresh_followups k_consume_due_followup k_wait k_coverage\<close>)

end

end
