(* ===== verification/MissionConsent.thy ===== *)
theory MissionConsent
  imports MissionTurn MissionSafety
begin

text \<open>
  What the turns of a mission that are no actions may change: which authorizations a case can
  gain, how a required branch of a campaign can be closed, when a timer can fire, and that a
  turn is a sequence of transactions of the store.
\<close>

subsection \<open>What holds of every stored case\<close>

named_theorems keeps

definition cases_ok :: "(pydict \<Rightarrow> bool) \<Rightarrow> pystr \<Rightarrow> mission_db \<Rightarrow> bool" where
  "cases_ok P m d \<longleftrightarrow> list_all (\<lambda>r. mi_id r = m \<longrightarrow> P (jl (mi_case r))) (md_missions d)"

lemma cases_same: "md_missions d' = md_missions d \<Longrightarrow> cases_ok P m d \<Longrightarrow> cases_ok P m d'"
  by (simp add: cases_ok_def)

lemma cases_update:
  "(\<And>r. mi_id (f r) = mi_id r \<and> mi_case (f r) = mi_case r) \<Longrightarrow> cases_ok P m d \<Longrightarrow> cases_ok P m (snd (update_missions hit f d))"
  by (simp add: cases_ok_def update_missions_def list_all_length)

lemma cases_more [keeps]:
  "cases_ok P m (d\<lparr>md_steps := s\<rparr>) = cases_ok P m d" "cases_ok P m (d\<lparr>md_events := e\<rparr>) = cases_ok P m d"
  "cases_ok P m (d\<lparr>md_wakes := w\<rparr>) = cases_ok P m d" "cases_ok P m (d\<lparr>md_runtime := rt\<rparr>) = cases_ok P m d"
  "cases_ok P m (d\<lparr>md_checkpoints := c, md_next_checkpoint := n\<rparr>) = cases_ok P m d"
  by (simp_all add: cases_ok_def)

lemma cases_add_step [keeps]: "cases_ok P m (add_step i name nonce v now d) = cases_ok P m d"
  by (simp add: add_step_def keeps)

lemma cases_event [keeps]: "cases_ok P m (add_mission_event i kind name nonce p now d) = cases_ok P m d"
  by (simp add: add_mission_event_def keeps)

lemma cases_wait [keeps]: "cases_ok P m (schedule_mission_wait i fire now d) = cases_ok P m d"
  by (simp add: schedule_mission_wait_def keeps)

lemma cases_runtime [keeps]: "cases_ok P m (update_runtime hit f d) = cases_ok P m d"
  by (simp add: update_runtime_def keeps)

lemma cases_record_event [keeps]: "cases_ok P m (snd (record_event H i kind name nonce p now d)) = cases_ok P m d"
  by (simp add: record_event_def keeps split: sum.split)

lemma missions_storage: "md_missions (refresh_storage H i d) = md_missions d"
  by (simp add: refresh_storage_def update_runtime_def)

lemma missions_checkpoint: "md_missions (write_checkpoint H now i phase p c n d) = md_missions d"
  by (simp add: write_checkpoint_def Let_def missions_storage update_runtime_def)

lemma cases_checkpoint [keeps]: "cases_ok P m (snd (record_checkpoint H now i tok phase p k un d)) = cases_ok P m d"
  unfolding record_checkpoint_def by (simp add: cases_ok_def missions_checkpoint split: option.split sum.split)

lemma cases_settle_pausing: "cases_ok P m d \<Longrightarrow> cases_ok P m (snd (settle_pausing i tok now d))"
  unfolding settle_pausing_def lose_run_def Let_def split_beta by (simp add: keeps cases_update)

lemma cases_settle_phase [keeps]: "cases_ok P m (snd (settle_phase H i s now d)) = cases_ok P m d"
  by (simp add: settle_phase_def mark_human_def keeps split: sum.split)

lemma cases_finish: "cases_ok P m d \<Longrightarrow> cases_ok P m (snd (finish_mission H i tok s res block now d))"
proof -
  assume d: "cases_ok P m d"
  define e where "e = snd (update_missions (owned_by [J_RUNNING] i tok) (\<lambda>r. r\<lparr>mi_state := s, mi_token := [], mi_lease := 0,
      mi_result := (case res of None \<Rightarrow> mi_result r | Some x \<Rightarrow> x), mi_updated := now\<rparr>) d)"
  have "cases_ok P m e" unfolding e_def by (rule cases_update [OF _ d]) simp
  then have "cases_ok P m (snd (settle_phase H i s now e))" by (simp add: keeps)
  with d \<open>cases_ok P m e\<close> show ?thesis
    unfolding finish_mission_def Let_def split_beta e_def by (auto split: sum.split)
qed

lemma cases_set_case:
  assumes "cases_ok P m d" "\<And>c. compact_case_storage H kase = Inr c \<Longrightarrow> P c"
  shows "cases_ok P m (snd (set_case_owned H i tok kase now d))"
proof (cases "bind_result (compact_case_storage H kase) js")
  case (Inr c)
  then have "P c" using assms(2) by (auto simp: bind_result_Inr_iff js_def split: if_splits)
  with assms(1) Inr show ?thesis
    by (auto simp: set_case_owned_def update_missions_def cases_ok_def list_all_length jl_def)
qed (use assms in \<open>simp add: set_case_owned_def\<close>)


subsection \<open>A turn as transactions\<close>

text \<open>Some transactions of the store, with some rights, lead from one store to another.\<close>

definition transacts :: "mission_env \<Rightarrow> right set \<Rightarrow> mission_db \<Rightarrow> mission_db \<Rightarrow> bool" where
  "transacts E T d d' \<longleftrightarrow> (\<exists>ops. list_all proper_op ops \<and> rights_of (set ops) \<subseteq> T \<and> d' = run_missions E ops d)"

lemma transacts_refl: "transacts E T d d"
  unfolding transacts_def by (rule exI [of _ "[]"]) (simp add: rights_of_def)

lemma transacts_step:
  assumes "transacts E T d d1" "proper_op a" "set (rights a) \<subseteq> T" "d2 = perform E a d1"
  shows "transacts E T d d2"
proof -
  obtain ops where "list_all proper_op ops" "rights_of (set ops) \<subseteq> T" "d1 = run_missions E ops d"
    using assms(1) by (auto simp: transacts_def)
  then have "list_all proper_op (ops @ [a]) \<and> rights_of (set (ops @ [a])) \<subseteq> T \<and> d2 = run_missions E (ops @ [a]) d"
    using assms(2-4) by (auto simp: rights_of_def)
  then show ?thesis unfolding transacts_def by blast
qed

lemma transacts_wider: "transacts E T d d' \<Longrightarrow> T \<subseteq> U \<Longrightarrow> transacts E U d d'"
  unfolding transacts_def by blast

interpretation flow: turn_logic E m tok "transacts E {LEAVE tok} d0" "\<lambda>_. True" "\<lambda>_. True" "\<lambda>_. True" "\<lambda>_. True" for E m tok d0
proof unfold_locales
  fix kind name nonce p now d
  assume k: "plain_kind kind" and t: "transacts E {LEAVE tok} d0 d"
  show "transacts E {LEAVE tok} d0 (snd (record_event (mv_host E) m kind name nonce p now d))"
    by (rule transacts_step [OF t, where a = "RESERVES (M_EVENT m kind name nonce p now)"]) (simp_all add: k proper_op_def rights_def)
next
  fix name nonce vd now d
  assume "transacts E {LEAVE tok} d0 d"
  then show "transacts E {LEAVE tok} d0 (add_step m name nonce vd now d)"
    by (rule transacts_step [where a = "BOOKS (M_STEP m name nonce vd now)"]) (simp_all add: proper_op_def rights_def)
next
  fix fire now d
  assume "transacts E {LEAVE tok} d0 d"
  then show "transacts E {LEAVE tok} d0 (schedule_mission_wait m fire now d)"
    by (rule transacts_step [where a = "BOOKS (M_SCHEDULE m fire now)"]) (simp_all add: proper_op_def rights_def)
next
  fix now t phase p ck un d
  assume "transacts E {LEAVE tok} d0 d"
  then show "transacts E {LEAVE tok} d0 (snd (record_checkpoint (mv_host E) now m t phase p ck un d))"
    by (rule transacts_step [where a = "BOOKS (M_CHECKPOINT now m t phase p ck un)"]) (simp_all add: proper_op_def rights_def)
next
  fix now d
  assume "transacts E {LEAVE tok} d0 d"
  then show "transacts E {LEAVE tok} d0 (snd (settle_pausing m tok now d))"
    by (rule transacts_step [where a = "LIFE (M_SETTLE_PAUSING m tok now)"]) (simp_all add: proper_op_def rights_def)
next
  fix s res block now d
  assume i: "turn_end s" and t: "transacts E {LEAVE tok} d0 d"
  show "transacts E {LEAVE tok} d0 (snd (finish_mission (mv_host E) m tok s res block now d))"
    by (rule transacts_step [OF t, where a = "LIFE (M_FINISH m tok s res block now)"]) (use i in \<open>auto simp: turn_end_def idle_state_def proper_op_def rights_def\<close>)
next
  fix c now d
  assume "transacts E {LEAVE tok} d0 d"
  then show "transacts E {LEAVE tok} d0 (snd (set_case_owned (mv_host E) m tok c now d))"
    by (rule transacts_step [where a = "BOOKS (M_SET_CASE_OWNED m tok c now)"]) (simp_all add: proper_op_def rights_def)
qed simp_all

subsection \<open>The authorizations of a case in a turn\<close>

lemma cases_of: "cases_ok P m d \<Longrightarrow> mission_of d m = Some r \<Longrightarrow> P (jl (mi_case r))"
  by (auto simp: cases_ok_def mission_of_def find_Some_iff list_all_length)

interpretation consent: turn_logic E m tok "cases_ok (\<lambda>c. set (grants c) \<subseteq> A) m" "\<lambda>c. set (grants c) \<subseteq> A" "\<lambda>g. g \<in> A" "\<lambda>_. True" "\<lambda>_. True" for E m tok A
proof unfold_locales
  fix c now d
  assume c: "set (grants c) \<subseteq> A" and d: "cases_ok (\<lambda>c. set (grants c) \<subseteq> A) m d"
  show "cases_ok (\<lambda>c. set (grants c) \<subseteq> A) m (snd (set_case_owned (mv_host E) m tok c now d))"
    by (rule cases_set_case [OF d]) (simp add: grants_compact c)
next
  fix c rs n
  assume "\<And>g. JObj g \<in> set rs \<Longrightarrow> g \<in> A"
  then show "set (grants (put_items ''resolved_authorizations'' n rs c)) \<subseteq> A"
    using set_last_items [of n rs] by (auto simp: subset_iff)
qed (auto simp: keeps cases_settle_pausing cases_finish dest: grants_iterated cases_of)


subsection \<open>Properties of turns\<close>

lemma grants_of_row:
  assumes "well_kept d" "mission_of d m = Some r"
  shows "cases_ok (\<lambda>c. set (grants c) \<subseteq> set (grants (jl (mi_case r))) \<union> B) m d"
  using mission_unique [OF assms] by (auto simp: cases_ok_def list_all_iff)

text \<open>A request that the standing facts of the settings cover.\<close>

definition confirmed_claim :: "pyhost \<Rightarrow> (string \<Rightarrow> string \<Rightarrow> json) \<Rightarrow> pydict \<Rightarrow> bool" where
  "confirmed_claim H cfg request \<longleftrightarrow>
     pick H request [''kind''] (u ''routine'') = u ''profile_claim'' \<and> auth_rank (pick H request [''risk''] (u ''medium'')) \<le> 1
     \<and> setting_on H (cfg ''AUTO_APPLY_PROFILE_CLAIMS'' ''off'')
     \<and> (\<exists>t age. List.member [16, 18, 21] t \<and> age_band H cfg = Inr age \<and> t \<le> age \<and> pick H request [''claim''] [] = age_claim t)"

lemma standing_confirmed:
  assumes "standing_authority H cfg = Inr a" "fst (standing_authorizes H request a)"
  shows "confirmed_claim H cfg request"
proof -
  obtain age where age: "age_band H cfg = Inr age" and a: "sa_auto a = setting_on H (cfg ''AUTO_APPLY_PROFILE_CLAIMS'' ''off'')"
      "sa_claims a = map (\<lambda>t. (age_claim t, t \<le> age)) [16, 18, 21]" "sa_max_risk a = u ''low'' \<or> sa_max_risk a = u ''medium''"
    using assms(1) by (auto simp: standing_authority_def bind_result_Inr_iff Let_def)
  have r: "auth_rank (pick H request [''risk''] (u ''medium'')) \<le> auth_rank (sa_max_risk a)" "sa_auto a"
      "pick H request [''kind''] (u ''routine'') = u ''profile_claim''" "map_of (sa_claims a) (pick H request [''claim''] []) = Some True"
    using assms(2) by (auto simp: standing_authorizes_def Let_def split: if_splits)
  have "auth_rank (sa_max_risk a) \<le> 1" using a(3) by (auto simp: auth_rank_def auth_risks_def)
  moreover have "\<exists>t. List.member [16, 18, 21] t \<and> t \<le> age \<and> pick H request [''claim''] [] = age_claim t"
    using map_of_SomeD [OF r(4)] unfolding a(2) by auto
  ultimately show ?thesis using r age a(1) by (auto simp: confirmed_claim_def)
qed


text \<open>A turn is a sequence of transactions, with no right but the one to leave its run.\<close>

lemma turn_transacts: "transacts E {LEAVE tok} d (take_turn E cfg when_of m tok now leash kase t d)"
  by (rule flow.k_turn) (simp_all add: transacts_refl flow.decided_def)

subsection \<open>The coverage of a campaign in a turn\<close>

abbreviation coverage_of :: "pydict \<Rightarrow> json" where
  "coverage_of c \<equiv> dget_null c (u ''_campaign_coverage'')"

lemma coverage_compact: "compact_case_storage H k = Inr c \<Longrightarrow> coverage_of c = coverage_of k"
  unfolding dget_null_dget by (subst compaction_keeps) (simp_all add: verbatim_fields_def kept_fields_def)

interpretation campaign: turn_logic E m tok "cases_ok (\<lambda>c. coverage_of c \<in> V) m" "\<lambda>c. coverage_of c \<in> V" "\<lambda>_. True" "\<lambda>v. v \<in> V" "\<lambda>_. True" for E m tok V
proof unfold_locales
  fix c now d
  assume c: "coverage_of c \<in> V" and d: "cases_ok (\<lambda>c. coverage_of c \<in> V) m d"
  show "cases_ok (\<lambda>c. coverage_of c \<in> V) m (snd (set_case_owned (mv_host E) m tok c now d))"
    by (rule cases_set_case [OF d]) (simp add: coverage_compact c)
qed (auto simp: keeps cases_settle_pausing cases_finish dget_null_dget dget_dpop put_items_def dest: cases_of)

lemma coverage_of_row:
  assumes "well_kept d" "mission_of d m = Some r"
  shows "cases_ok (\<lambda>c. coverage_of c \<in> insert (coverage_of (jl (mi_case r))) V) m d"
  using mission_unique [OF assms] by (auto simp: cases_ok_def list_all_iff)

lemma coverage_after:
  assumes "list_all proper_op ops" "d = run_missions E ops empty_missions" "mission_of d m = Some r"
    and "mission_of (take_turn E cfg when_of m tok now leash (jl (mi_case r)) t d) m = Some s"
  shows "coverage_of (jl (mi_case s)) = coverage_of (jl (mi_case r)) \<or> covers_with (mv_host E) now (jl (mi_case r)) t (coverage_of (jl (mi_case s)))"
proof -
  let ?k = "jl (mi_case r)"
  let ?V = "insert (coverage_of ?k) {v. covers_with (mv_host E) now ?k t v}"
  have "cases_ok (\<lambda>c. coverage_of c \<in> ?V) m (take_turn E cfg when_of m tok now leash ?k t d)"
  proof (rule campaign.k_turn)
    show "cases_ok (\<lambda>c. coverage_of c \<in> ?V) m d"
      by (rule coverage_of_row) (use assms(1-3) from_empty in simp_all)
    show "campaign.decided E m cfg now d request" for request
      by (simp add: campaign.decided_def)
  qed simp_all
  from cases_of [OF this assms(4)] show ?thesis by auto
qed

text \<open>What a row that was covered says.\<close>

definition row_text :: "pydict \<Rightarrow> string \<Rightarrow> pystr" where
  "row_text row k = (case dget row (u k) of Some (JStr s) \<Rightarrow> s | _ \<Rightarrow> [])"

definition row_routes :: "pydict \<Rightarrow> json list" where
  "row_routes row = (case dget row (u ''alternatives_tried'') of Some (JList xs) \<Rightarrow> xs | _ \<Rightarrow> [])"

definition evidenced :: "pyhost \<Rightarrow> pydict \<Rightarrow> pydict \<Rightarrow> pystr \<Rightarrow> pydict \<Rightarrow> bool" where
  "evidenced H kase args branch row \<longleftrightarrow>
     List.member (coverage_open @ coverage_terminal) (row_text row ''status'')
     \<and> (List.member coverage_terminal (row_text row ''status'') \<longrightarrow> row_text row ''summary'' \<noteq> [])
     \<and> (row_text row ''status'' = u ''exhausted'' \<longrightarrow>
          List.member blocker_kinds (blocker_of H args)
          \<and> (if permanent_blocker (blocker_of H args) then 1 else 2) \<le> length (row_routes row) \<and> distinct (row_routes row))
     \<and> (row_text row ''status'' = u ''scheduled'' \<longrightarrow>
          (\<exists>x. JObj x \<in> set (case field_items kase ''pending_followups'' of Inr xs \<Rightarrow> xs | _ \<Rightarrow> [])
             \<and> py_lower H (branch_of H x) = py_lower H branch))"

lemma distinct_last_items: "distinct xs \<Longrightarrow> distinct (last_items n xs)"
  by (simp add: last_items_def)

lemma list_ex_object: "list_ex (\<lambda>x. case x of JObj d \<Rightarrow> P d | _ \<Rightarrow> False) xs \<longleftrightarrow> (\<exists>d. JObj d \<in> set xs \<and> P d)"
proof (induction xs)
  case (Cons x xs)
  then show ?case by (cases x) auto
qed simp

lemma last_items_Nil: "last_items n xs = [] \<longleftrightarrow> n = 0 \<or> xs = []"
  by (cases xs) (auto simp: last_items_def)

lemma covered_row_fields:
  assumes "covered_row H args row0 status detail now = Inr row"
  shows "dget row (u ''status'') = Some (JStr status)" "detail \<noteq> [] \<Longrightarrow> dget row (u ''summary'') = Some (JStr detail)"
    and "status = u ''exhausted'' \<Longrightarrow> \<exists>routes. routes_in H args = Inr routes
      \<and> dget row (u ''alternatives_tried'') = Some (JList (map JStr (last_items 12 (dedup routes))))"
  using assms by (auto simp: covered_row_def blocked_row_def exhausted_row_def bind_result_Inr_iff Let_def split: if_splits)

lemma update_accepted:
  assumes "update_refused H kase args reason rows = Inr None"
  shows "List.member (coverage_open @ coverage_terminal) (update_status H args)"
    and "List.member coverage_terminal (update_status H args) \<Longrightarrow> update_detail H args reason \<noteq> []"
    and "update_status H args = u ''exhausted'' \<Longrightarrow> exhausted_refusal H args = Inr None"
    and "update_status H args = u ''scheduled'' \<Longrightarrow> scheduled_refusal H kase (update_branch H args) = Inr None"
  using assms by (auto simp: update_refused_def coverage_refused_def split: option.splits if_splits)

lemma covering_evidenced:
  assumes "covered_row H args row0 (update_status H args) (update_detail H args reason) now = Inr row"
    and ok: "update_refused H kase args reason rows = Inr None"
  shows "evidenced H kase args (update_branch H args) row"
proof -
  note f = covered_row_fields [OF assms(1)] and a = update_accepted [OF ok]
  have "List.member blocker_kinds (blocker_of H args) \<and> (if permanent_blocker (blocker_of H args) then 1 else 2) \<le> length (row_routes row)
      \<and> distinct (row_routes row)" if "update_status H args = u ''exhausted''"
    using f(3) [OF that] a(3) [OF that] distinct_dedup
    by (auto simp: exhausted_refusal_def bind_result_Inr_iff row_routes_def distinct_map inj_on_def distinct_last_items Suc_le_eq last_items_Nil split: if_splits)
  moreover have "\<exists>x. JObj x \<in> set (case field_items kase ''pending_followups'' of Inr xs \<Rightarrow> xs | _ \<Rightarrow> [])
      \<and> py_lower H (branch_of H x) = py_lower H (update_branch H args)" if "update_status H args = u ''scheduled''"
    using a(4) [OF that]
    by (auto simp: scheduled_refusal_def bind_result_Inr_iff field_items_def list_ex_object split: if_splits)
  ultimately show ?thesis
    using f(1,2) a(1,2) by (simp add: evidenced_def row_text_def)
qed

lemma skipped_not_required:
  assumes "skip_request H args reason rows = Some item" "rows \<noteq> []" "row \<in> set rows"
    and "casefold H (branch_of H row) = casefold H (branch_of H item)"
  shows "\<not> required_row row"
proof -
  define b where "b = take 180 (strip (pick H args [''campaign_branch'', ''branch''] []))"
  have "dget item (u ''branch'') = Some (JStr b)" and ok: "skip_allowed H rows b"
    using assms(1,2) by (auto simp: skip_request_def Let_def b_def dget_def split: if_splits)
  then have "branch_of H item = b" by (simp add: branch_of_def pick_def dget_null_dget)
  moreover obtain x where x: "filter (\<lambda>row. casefold H (branch_of H row) = casefold H b) rows = [x]" "\<not> required_row x"
    using ok by (auto simp: skip_allowed_def split: list.splits)
  ultimately have "row \<in> set [x]" using assms(3,4) unfolding x(1) [symmetric] by simp
  with x(2) show ?thesis by simp
qed


subsection \<open>The timers of a turn\<close>

definition timers_in :: "int set \<Rightarrow> mission_db \<Rightarrow> bool" where
  "timers_in F d \<longleftrightarrow> (\<forall>w\<in>set (md_wakes d). wk_fire w \<in> F)"

lemma timers_same: "md_wakes d' = md_wakes d \<Longrightarrow> timers_in F d' = timers_in F d"
  by (simp add: timers_in_def)

lemma wakes_plain:
  "md_wakes (snd (update_missions hit f d)) = md_wakes d"
  "md_wakes (add_mission_event i kind name nonce x now d) = md_wakes d"
  "md_wakes (snd (record_event H i kind name nonce p now d)) = md_wakes d"
  "md_wakes (add_step i name nonce vd now d) = md_wakes d"
  "md_wakes (refresh_storage H i d) = md_wakes d"
  "md_wakes (write_checkpoint H now i phase pj ckj n d) = md_wakes d"
  "md_wakes (snd (record_checkpoint H now i t phase p ck un d)) = md_wakes d"
  by (simp_all add: update_missions_def add_mission_event_def record_event_def add_step_def refresh_storage_def update_runtime_def
      write_checkpoint_def record_checkpoint_def Let_def split: sum.split option.split)

lemma wakes_settle: "md_wakes (snd (settle_pausing i tok now d)) = md_wakes d"
  by (simp add: settle_pausing_def lose_run_def update_missions_def update_runtime_def Let_def split_beta)

lemma wakes_phase: "md_wakes (snd (settle_phase H i s now d)) = md_wakes d"
  by (simp add: settle_phase_def mark_human_def update_runtime_def wakes_plain split: sum.split)

lemma wakes_finish: "md_wakes (snd (finish_mission H i tok s res block now d)) = md_wakes d"
proof -
  define e where "e = snd (update_missions (owned_by [J_RUNNING] i tok) (\<lambda>r. r\<lparr>mi_state := s, mi_token := [], mi_lease := 0,
      mi_result := (case res of None \<Rightarrow> mi_result r | Some x \<Rightarrow> x), mi_updated := now\<rparr>) d)"
  have "md_wakes e = md_wakes d" "md_wakes (snd (settle_phase H i s now e)) = md_wakes d"
    by (simp_all add: e_def wakes_plain wakes_phase)
  then show ?thesis
    unfolding finish_mission_def Let_def split_beta e_def by (auto split: sum.split)
qed

lemma wakes_set_case: "md_wakes (snd (set_case_owned H i tok c now d)) = md_wakes d"
  by (simp add: set_case_owned_def Let_def split_beta wakes_plain split: sum.split)

interpretation timing: turn_logic E m tok "timers_in F" "\<lambda>_. True" "\<lambda>_. True" "\<lambda>_. True" "\<lambda>t. t \<in> F" for E m tok F
proof unfold_locales
  fix fire now d
  assume "fire \<in> F" "timers_in F d"
  then show "timers_in F (schedule_mission_wait m fire now d)" by (auto simp: timers_in_def schedule_mission_wait_def)
qed (simp_all add: timers_in_def wakes_plain wakes_settle wakes_finish wakes_set_case)


end
