(* ===== verification/ConsentSample.thy ===== *)
theory ConsentSample
  imports MissionConsent
begin

text \<open>
  Stores on which the properties of turns are applied: a campaign whose only branch is closed, a
  pending request that the settings answer, and a wait under a deadline.
\<close>

text \<open>A campaign of one branch, and an update that closes it.\<close>

definition sample_campaign :: pydict where
  "sample_campaign = [(u ''_campaign_coverage'', JList [JObj [(u ''branch'', JStr (u ''mail''))]])]"

definition sample_update :: pydict where
  "sample_update = [(u ''branch'', JStr (u ''mail'')), (u ''status'', JStr (u ''exhausted'')), (u ''blocker_kind'', JStr (u ''policy'')),
     (u ''summary'', JStr (u ''no'')), (u ''alternatives_tried'', JList [JStr (u ''form'')])]"

definition sample_open :: pydict where
  "sample_open = [(u ''branch'', JStr (u ''mail'')), (u ''status'', JStr (u ''pending'')), (u ''required'', JBool True)]"


lemma sample_words:
  "strip (u ''mail'') = u ''mail''" "strip (u ''exhausted'') = u ''exhausted''" "strip (u ''policy'') = u ''policy''" "strip (u ''no'') = u ''no''"
  "strip (u ''form'') = u ''form''" "strip (u ''pending'') = u ''pending''" "squeeze (u ''mail'') = u ''mail''"
  "py_lower H (u ''mail'') = u ''mail''" "py_lower H (u ''exhausted'') = u ''exhausted''" "py_lower H (u ''pending'') = u ''pending''" "py_lower H (u ''policy'') = u ''policy''"
  by (simp_all add: strip_def space_cp_def u_def squeeze_def py_split_def py_lower_def is_ascii_def lower_cp_def)

lemmas field_defs = pick_def dget_null_def dget_def

lemma update_facts: "update_branch H sample_update = u ''mail''" "update_status H sample_update = u ''exhausted''" "update_detail H sample_update x = u ''no''"
  "blocker_of H sample_update = u ''policy''" "routes_in H sample_update = Inr [u ''form'']"
  by (simp_all add: update_branch_def update_status_def update_detail_def sample_update_def field_defs sample_words blocker_of_def routes_in_def route_texts_def loop_items_def)
  
lemma open_facts: "campaign_coverage H sample_campaign = Inr [sample_open]"
  by (simp add: campaign_coverage_def sample_campaign_def sample_open_def field_defs sample_words coverage_row_def loop_items_def coverage_open_def last_items_def required_row_def)

lemma index_facts: "coverage_branch_index H [sample_open] (u ''mail'') = Some 0"
  by (simp add: coverage_branch_index_def positions_def sample_open_def branch_of_def field_defs sample_words Let_def)

lemma accepted_facts: "update_refused H k sample_update x [sample_open] = Inr None"
  by (simp add: update_refused_def update_facts coverage_refused_def index_facts coverage_open_def coverage_terminal_def exhausted_refusal_def
    blocker_kinds_def permanent_blocker_def dedup_def)

definition sample_closed :: pydict where
  "sample_closed = [(u ''branch'', JStr (u ''mail'')), (u ''status'', JStr (u ''exhausted'')), (u ''required'', JBool True), (u ''updated_at'', JInt 5),
    (u ''summary'', JStr (u ''no'')), (u ''blocker_kind'', JStr (u ''policy'')), (u ''alternatives_tried'', JList [JStr (u ''form'')])]"
lemma covered_facts: "covered_row H sample_update sample_open (u ''exhausted'') (u ''no'') 5 = Inr sample_closed"
  by (simp add: covered_row_def exhausted_row_def update_facts sample_open_def sample_closed_def dedup_def last_items_def)
   (simp add: sample_update_def field_defs)
lemma case_facts: "covered_case sample_campaign [sample_closed] b (u ''exhausted'') = [(u ''_campaign_coverage'', JList [JObj sample_closed])]"
  by (simp add: covered_case_def sample_campaign_def put_objects_def last_items_def dpop_def)
lemma text_facts: "length (js_text ascii_host [(u ''_campaign_coverage'', JList [JObj sample_closed])]) \<le> case_limit"
  by (simp add: js_text_def sample_closed_def u_def json_quote_def case_limit_def json_escape_cp_def dec_def nat_text_def dec_digits.simps)

lemma compact_facts: "compact_case_storage ascii_host [(u ''_campaign_coverage'', JList [JObj sample_closed])] = Inr [(u ''_campaign_coverage'', JList [JObj sample_closed])]"
    "js [(u ''_campaign_coverage'', JList [JObj sample_closed])] = Inr [(u ''_campaign_coverage'', JList [JObj sample_closed])]"
proof -
  have f: "finite_json (JObj sample_closed)" by (simp add: sample_closed_def)
  then show j: "js [(u ''_campaign_coverage'', JList [JObj sample_closed])] = Inr [(u ''_campaign_coverage'', JList [JObj sample_closed])]"
    by (simp add: js_def)
  show "compact_case_storage ascii_host [(u ''_campaign_coverage'', JList [JObj sample_closed])] = Inr [(u ''_campaign_coverage'', JList [JObj sample_closed])]"
    using j text_facts by (simp add: compact_case_storage_def field_defs loop_items_def last_items_def human_note_projection_def Let_def)
qed

definition sample_day :: "mission_op list" where
  "sample_day = [M_CREATE (u ''m'') [] [] sample_campaign [] [] 0, sample_claim]"

lemma day_rows: "map (\<lambda>r. (mi_id r, mi_state r, mi_token r, mi_case r)) (md_missions (sample sample_day)) = [(u ''m'', J_RUNNING, u ''t'', Col sample_campaign)]"
  by code_simp

lemma day_closes:
  assumes "md_missions d = [r]" "mi_id r = u ''m''" "mi_state r = J_RUNNING" "mi_token r = u ''t''"
  shows "cases_ok (\<lambda>c. coverage_of c \<in> {JList [JObj sample_closed]}) (u ''m'')
    (take_turn sample_env cfg when_of (u ''m'') (u ''t'') 5 leash sample_campaign (T_COVER sample_update []) d)"
proof -
  let ?c = "[(u ''_campaign_coverage'', JList [JObj sample_closed])]"
  let ?d1 = "d\<lparr>md_missions := [r\<lparr>mi_case := Col ?c, mi_updated := 5\<rparr>]\<rparr>"
  have save: "save_case sample_env (u ''m'') (u ''t'') 5 ?c d f = f ?d1" for f
    using assms by (simp add: save_case_def and_then_def set_case_owned_def compact_facts update_missions_def owned_by_def sample_env_def)
  have d1: "cases_ok (\<lambda>c. coverage_of c \<in> {JList [JObj sample_closed]}) (u ''m'') ?d1"
    by (simp add: cases_ok_def field_defs)
  show ?thesis
    unfolding take_turn.simps handle_coverage_update_def Let_def open_facts attempt_Inr update_facts accepted_facts option.case index_facts nth_Cons_0
      covered_facts list_update_code case_facts save
    by (rule campaign.k_tell campaign.k_note campaign.k_go_on campaign.stepped d1 | assumption | simp add: plain_turn_kinds)+
qed


text \<open>A pending request that the settings answer.\<close>

definition sample_settings :: "string \<Rightarrow> string \<Rightarrow> json" where
  "sample_settings k d = (if k = ''PROFILE_AGE_BAND'' then JInt 21 else if k = ''AUTO_APPLY_PROFILE_CLAIMS'' then JStr (u ''on'') else JStr (u d))"

definition sample_request :: pydict where
  "sample_request = [(u ''id'', JStr (u ''a'')), (u ''kind'', JStr (u ''profile_claim'')), (u ''claim'', JStr (u ''age_at_least_18'')), (u ''risk'', JStr (u ''low''))]"

definition sample_asking :: pydict where
  "sample_asking = [(u ''pending_authorizations'', JList [JObj sample_request])]"

definition sample_why :: pystr where
  "sample_why = u ''exact user-confirmed profile claim''"

definition sample_answered :: pydict where
  "sample_answered = [(u ''pending_authorizations'', JList []), (u ''resolved_authorizations'', JList [JObj (standing_item sample_request 5 sample_why)])]"

lemma standing_words: "strip (u ''on'') = u ''on''" "strip (u ''off'') = u ''off''" "py_lower H (u ''on'') = u ''on''" "py_lower H (u ''medium'') = u ''medium''"
  "age_claim 18 = u ''age_at_least_18''" "age_claim 16 = u ''age_at_least_16''" "age_claim 21 = u ''age_at_least_21''"
  by (simp_all add: strip_def space_cp_def u_def py_lower_def is_ascii_def lower_cp_def age_claim_def dec_def nat_text_def dec_digits.simps)

lemma standing_facts: "\<exists>a. standing_authority H sample_settings = Inr a \<and> standing_authorizes H sample_request a = (True, sample_why)"
  by (simp add: standing_authority_def age_band_def sample_settings_def Let_def setting_on_def standing_words or_json_def str_or_empty_def
     standing_authorizes_def sample_request_def field_defs person_required_auth_def auth_rank_def auth_risks_def sample_why_def)

lemma request_facts: "pick H sample_request [''id''] [] = u ''a''"
  by (simp add: sample_request_def field_defs)

lemma answered_text: "length (js_text ascii_host sample_answered) \<le> case_limit"
  by (simp add: sample_answered_def standing_item_def sample_request_def js_text_def sample_why_def u_def json_quote_def case_limit_def json_escape_cp_def dec_def nat_text_def dec_digits.simps)

lemma answered_facts: "compact_case_storage ascii_host sample_answered = Inr sample_answered" "js sample_answered = Inr sample_answered"
proof -
  show j: "js sample_answered = Inr sample_answered"
    by (simp add: js_def sample_answered_def standing_item_def sample_request_def)
  have "dget_null sample_answered (u ''_recent_results'') = JNull" "dget_null sample_answered (u ''human_updates'') = JNull"
    by (simp_all add: sample_answered_def field_defs)
  with j answered_text show "compact_case_storage ascii_host sample_answered = Inr sample_answered"
    by (simp add: compact_case_storage_def loop_items_def last_items_def human_note_projection_def Let_def)
qed

lemma told_sample:
  assumes "finite_json (JObj p)"
  shows "\<exists>x. record_event H i kind name nonce p now d = (Inr (), add_mission_event i kind name nonce x now d)"
  using assms by (auto simp: record_event_def js_def compact_event_def cut_payload_def Let_def)

lemma asking_answered:
  assumes "md_missions d = [r]" "md_responses d = []" "mi_id r = u ''m''" "mi_state r = J_RUNNING" "mi_token r = u ''t''"
  shows "mission_of (take_turn sample_env sample_settings when_of (u ''m'') (u ''t'') 5 leash sample_asking T_REFRESH d) (u ''m'')
    = Some (r\<lparr>mi_case := Col sample_answered, mi_updated := 5\<rparr>)"
proof -
  let ?H = "mv_host sample_env"
  have env: "?H = ascii_host" by (simp add: sample_env_def)
  obtain a where a: "standing_authority ?H sample_settings = Inr a" "standing_authorizes ?H sample_request a = (True, sample_why)"
    using standing_facts by blast
  have f: "field_objects sample_asking ''pending_authorizations'' = Inr [sample_request]" "field_items sample_asking ''resolved_authorizations'' = Inr []"
    by (simp_all add: field_objects_def field_items_def sample_asking_def field_defs loop_items_def objects_of_def)
  have n: "durable_answer ?H d (u ''m'') sample_request = []"
    by (simp add: durable_answer_def handled_authorization_def response_of_def assms(2))
  let ?p = "take_fields sample_request [''kind'', ''claim'', ''domain''] @ [(u ''reason'', JStr sample_why)]"
  have "finite_json (JObj ?p)" by (simp add: take_fields_def sample_request_def field_defs)
  then obtain x where x: "record_event ?H (u ''m'') (u ''authorization'') (u ''standing_resolved'') (u ''a'') ?p 5 d
      = (Inr (), add_mission_event (u ''m'') (u ''authorization'') (u ''standing_resolved'') (u ''a'') x 5 d)"
    using told_sample by blast
  let ?d1 = "add_mission_event (u ''m'') (u ''authorization'') (u ''standing_resolved'') (u ''a'') x 5 d"
  have each: "refresh_each sample_env (u ''m'') 5 a [sample_request] ([], [], False) d
      = (Inr ([], [JObj (standing_item sample_request 5 sample_why)], True), ?d1)"
    by (simp add: n a(2) request_facts x and_then_def Let_def)
  have c: "put_items ''resolved_authorizations'' 20 [JObj (standing_item sample_request 5 sample_why)] (dset sample_asking (u ''pending_authorizations'') (JList (map JObj [])))
      = sample_answered"
    by (simp add: put_items_def sample_asking_def sample_answered_def last_items_def)
  have "md_missions ?d1 = [r]" by (simp add: add_mission_event_def assms(1))
  then have set: "set_case_owned ?H (u ''m'') (u ''t'') sample_answered 5 ?d1 = (Inr True, ?d1\<lparr>md_missions := [r\<lparr>mi_case := Col sample_answered, mi_updated := 5\<rparr>]\<rparr>)"
    using assms(3-5) by (simp add: env set_case_owned_def answered_facts update_missions_def owned_by_def)
  have "take_turn sample_env sample_settings when_of (u ''m'') (u ''t'') 5 leash sample_asking T_REFRESH d
      = ?d1\<lparr>md_missions := [r\<lparr>mi_case := Col sample_answered, mi_updated := 5\<rparr>]\<rparr>"
    unfolding take_turn.simps refresh_authorizations_def a(1) f attempt_Inr each and_then_def prod.case sum.case if_False not_True_eq_False c set by simp
  then show ?thesis using assms(3) by (simp add: mission_of_def)
qed

definition asking_ops :: "mission_op list" where
  "asking_ops = [M_CREATE (u ''m'') [] [] sample_asking [] [] 0, sample_claim]"

lemma asking_rows: "map (\<lambda>r. (mi_id r, mi_state r, mi_token r, mi_case r)) (md_missions (sample asking_ops)) = [(u ''m'', J_RUNNING, u ''t'', Col sample_asking)]
    \<and> md_responses (sample asking_ops) = []"
  by code_simp



text \<open>A wait of an hour, under a leash that ends in half a minute.\<close>

definition sample_deadline :: pydict where
  "sample_deadline = [(u ''expires'', JInt 40)]"

definition sample_wait :: turn where
  "sample_wait = T_WAIT [(u ''seconds'', JInt 3600)] []"

lemma wakes_finish_run: "md_wakes (snd (finish_run H i tok s res block now later d)) = md_wakes d"
  using wakes_finish [of H i tok s res block now d]
  by (auto simp: finish_run_def Let_def split_beta wakes_plain split: prod.splits sum.splits bool.splits)

lemma wakes_leave: "md_wakes (snd (leave E i tok s res now d)) = md_wakes d"
  using wakes_finish_run [of "mv_host E" i tok s res False now now d]
  by (auto simp: leave_def and_then_def lost_state_def Let_def wakes_settle split: prod.splits sum.splits)

lemma no_ceiling: "elapsed_ceiling_epoch ascii_host 5 (sample [sample_create, sample_claim]) (u ''m'') = 0
    \<and> md_wakes (sample [sample_create, sample_claim]) = []"
  by code_simp

lemma wait_fires:
  "map wk_fire (md_wakes (take_turn sample_env cfg when_of (u ''m'') (u ''t'') 5 sample_deadline [] sample_wait (sample [sample_create, sample_claim]))) = [40]"
proof -
  let ?d = "sample [sample_create, sample_claim]" and ?H = "mv_host sample_env"
  have env: "?H = ascii_host" by (simp add: sample_env_def)
  let ?a = "[(u ''seconds'', JInt 3600)]" and ?b = "[(u ''seconds'', JInt 35)]"
  have f: "wait_seconds ?H ?a = Inr 3600" "deadline_epoch ?H when_of sample_deadline = Inr 40" "followup_request ?H 5 ?b [] = Inr None"
    "open_campaign_coverage ?H [] = Inr []"
    by (simp_all add: wait_seconds_def deadline_epoch_def sample_deadline_def followup_request_def field_defs strip_def open_campaign_coverage_def campaign_coverage_def
        loop_items_def last_items_def)
  have w: "wake_ceiling ?H 40 5 ?d (u ''m'') = 40" using no_ceiling by (simp add: wake_ceiling_def env)
  have c: "clamped_seconds 3600 40 5 = 35" by (simp add: clamped_seconds_def)
  have b: "dset ?a (u ''seconds'') (JInt 35) = ?b" by simp
  have "take_turn sample_env cfg when_of (u ''m'') (u ''t'') 5 sample_deadline [] sample_wait ?d
      = snd (wait_whole sample_env (u ''m'') (u ''t'') 5 [] ?b [] 35 [] ?d)"
    unfolding sample_wait_def take_turn.simps handle_wait_def Let_def f w c b attempt_Inr option.case ..
  moreover have "md_wakes (snd (wait_whole sample_env (u ''m'') (u ''t'') 5 [] ?b [] 35 [] ?d)) = md_wakes (schedule_mission_wait (u ''m'') 40 5 ?d)"
    using wakes_plain(3) [of ?H "u ''m''" "u ''control''" "u ''wait''" "[]"] told_sample [where p = "[(u ''seconds'', JInt 35), (u ''reason'', JStr []), (u ''blocking'', JBool False), (u ''transient'', JBool False)]"
        and H = ?H and i = "u ''m''" and kind = "u ''control''" and name = "u ''wait''" and nonce = "[]" and now = 5 and d = "schedule_mission_wait (u ''m'') 40 5 ?d"]
    by (auto simp: wait_whole_def tell_def and_then_def field_defs wakes_leave wakes_plain)
  ultimately show ?thesis using no_ceiling by (simp add: schedule_mission_wait_def)
qed


end
