(* ===== verification/MissionGuard.thy ===== *)
theory MissionGuard
  imports Consent Regex Mission
begin

text \<open>
  What a proposed action of a mission is checked for before it is reserved
  (\<open>MissionDriver._bound_refusal\<close>): credentials and personal data in its arguments,
  consequential navigation, the domains of the leash, purchases. And the identity under which it
  is reserved (\<open>_action_key\<close>). A pattern is a function to the rests of a text after its
  matches, the first one first; \<open>.\<close> is any character but a line feed.
\<close>

subsection \<open>Patterns\<close>

text \<open>Digits beyond ASCII: \<open>str.isdigit\<close> and \<open>\d\<close>.\<close>

record unicode =
  un_host :: pyhost
  un_isdigit :: "nat \<Rightarrow> bool"
  un_decimal :: "nat \<Rightarrow> bool"

definition digit_cp :: "unicode \<Rightarrow> nat \<Rightarrow> bool" where
  "digit_cp N c \<longleftrightarrow> (if c < 128 then is_digit_cp c else un_isdigit N c)"

definition decimal_cp :: "unicode \<Rightarrow> nat \<Rightarrow> bool" where
  "decimal_cp N c \<longleftrightarrow> (if c < 128 then is_digit_cp c else un_decimal N c)"

type_synonym pat = "pystr \<Rightarrow> pystr list"

definition p_lit :: "string \<Rightarrow> pat" where
  "p_lit w s = (if lit_at (u w) s then [drop (length w) s] else [])"

definition p_one :: "(nat \<Rightarrow> bool) \<Rightarrow> pat" where
  "p_one P s = (case s of [] \<Rightarrow> [] | c # r \<Rightarrow> if P c then [r] else [])"

definition p_opt :: "pat \<Rightarrow> pat" where
  "p_opt p s = p s @ [s]"

definition p_seq :: "pat \<Rightarrow> pat \<Rightarrow> pat" where
  "p_seq p q s = concat (map q (p s))"

definition p_alt :: "pat list \<Rightarrow> pat" where
  "p_alt ps s = concat (map (\<lambda>p. p s) ps)"

primrec p_all :: "pat list \<Rightarrow> pat" where
  "p_all [] = (\<lambda>s. [s])"
| "p_all (p # ps) = p_seq p (p_all ps)"

text \<open>Between \<open>lo\<close> and \<open>hi\<close> characters, the most first.\<close>

definition p_reps :: "(nat \<Rightarrow> bool) \<Rightarrow> nat \<Rightarrow> nat \<Rightarrow> pat" where
  "p_reps P lo hi s = map (\<lambda>n. drop n s) (rev [lo..<Suc (min hi (length (takeWhile P s)))])"

definition p_blank :: "nat \<Rightarrow> pat" where
  "p_blank lo s = p_reps space_cp lo (length s) s"

definition p_dot :: pat where
  "p_dot = p_opt (p_one (\<lambda>c. c \<noteq> 10))"

definition p_words :: "string list \<Rightarrow> pat" where
  "p_words ws = p_alt (map p_lit ws)"

definition anywhere :: "pat \<Rightarrow> pystr \<Rightarrow> bool" where
  "anywhere p s \<longleftrightarrow> list_ex (\<lambda>i. p (drop i s) \<noteq> []) [0..<Suc (length s)]"

definition whole :: "pat \<Rightarrow> pystr \<Rightarrow> bool" where
  "whole p s \<longleftrightarrow> List.member (p s) []"

text \<open>A boundary of a word at the rest \<open>r\<close> of \<open>s\<close>.\<close>

definition edge_at :: "pyhost \<Rightarrow> pystr \<Rightarrow> pystr \<Rightarrow> bool" where
  "edge_at H s r \<longleftrightarrow> boundary H s (length s - length r)"

subsection \<open>Names of fields\<close>

definition p_dotted :: "string \<Rightarrow> string \<Rightarrow> pat" where
  "p_dotted a b = p_all [p_lit a, p_dot, p_lit b]"

definition sensitive_key :: "pystr \<Rightarrow> bool" where
  "sensitive_key = anywhere (p_alt ([p_words [''pass'', ''secret'', ''token'', ''otp'', ''cvv'', ''cvc'', ''ssn'', ''phone'', ''mobile'', ''postal'', ''birth'', ''dob'']]
     @ map (\<lambda>(a, b). p_dotted a b) [(''api'', ''key''), (''one'', ''time''), (''verification'', ''code''), (''card'', ''number''), (''social'', ''security''),
       (''e'', ''mail''), (''street'', ''address''), (''zip'', ''code''), (''user'', ''name'')]))"

definition handle_cp :: "nat \<Rightarrow> bool" where
  "handle_cp c \<longleftrightarrow> is_alpha_cp c \<or> is_digit_cp c \<or> c = 95 \<or> c = 46 \<or> c = 45"

definition public_handle :: "pystr \<Rightarrow> json \<Rightarrow> bool" where
  "public_handle key v \<longleftrightarrow>
     anywhere (p_alt [p_dotted ''user'' ''name'', p_dotted ''public'' ''handle'', p_dotted ''profile'' ''handle'']) key
     \<and> (case v of JStr s \<Rightarrow> s \<noteq> [] \<and> length s \<le> 64 \<and> list_all handle_cp s | _ \<Rightarrow> False)"

definition absent_words :: "string list" where
  "absent_words = [''na'', ''n/a'', ''none'', ''null'', ''unknown'', ''unavailable'', ''missing'']"

definition placeholder :: "pystr \<Rightarrow> bool" where
  "placeholder = whole (p_alt [p_words (absent_words @ [''redacted'', ''[redacted]'', ''<redacted>'']),
     p_all [p_lit ''not'', p_blank 1, p_words [''available'', ''known'', ''configured'', ''provided'', ''entered'']]])"

definition reference_cp :: "nat \<Rightarrow> bool" where
  "reference_cp c \<longleftrightarrow> 97 \<le> c \<and> c \<le> 122 \<or> is_digit_cp c \<or> c = 95"

text \<open>\<open>{{work_identity:name:account}}\<close>, the one reference that may stand for a value.\<close>

definition is_reference :: "pystr \<Rightarrow> bool" where
  "is_reference s \<longleftrightarrow>
     (let a = u ''{{work_identity:''; z = u '':account}}''; name = drop (length a) (take (length s - length z) s) in
      length a + length z < length s \<and> starts_with s a \<and> ends_with s z \<and> list_all reference_cp name)"

subsection \<open>Values\<close>

text \<open>With \<open>re.I\<close> a range of ASCII letters also matches four characters that fold to one.\<close>

definition letter_cp :: "nat \<Rightarrow> bool" where
  "letter_cp c \<longleftrightarrow> is_alpha_cp c \<or> List.member [304, 305, 383, 8490] c"

definition local_cp :: "nat \<Rightarrow> bool" where
  "local_cp c \<longleftrightarrow> letter_cp c \<or> is_digit_cp c \<or> List.member [46, 95, 37, 43, 45] c"

definition site_cp :: "nat \<Rightarrow> bool" where
  "site_cp c \<longleftrightarrow> letter_cp c \<or> is_digit_cp c \<or> c = 46 \<or> c = 45"

definition name_end :: "pyhost \<Rightarrow> pystr \<Rightarrow> bool" where
  "name_end H s \<longleftrightarrow> (case s of [] \<Rightarrow> True | c # _ \<Rightarrow> \<not> (word_cp H c \<or> c = 46 \<or> c = 45))"

text \<open>The text after the at sign: a name with a dot before its last label of two letters or more.\<close>

definition site_after :: "pyhost \<Rightarrow> pystr \<Rightarrow> bool" where
  "site_after H s \<longleftrightarrow>
     list_ex (\<lambda>p. s ! p = 46 \<and> (let l = takeWhile letter_cp (drop (Suc p) s) in
        2 \<le> length l \<and> name_end H (drop (Suc p + length l) s)))
       [1..<length (takeWhile site_cp s)]"

definition email_from :: "pyhost \<Rightarrow> pystr \<Rightarrow> bool" where
  "email_from H s \<longleftrightarrow>
     (let l = takeWhile local_cp s; r = drop (length l) s in l \<noteq> [] \<and> (case r of [] \<Rightarrow> False | c # t \<Rightarrow> c = 64 \<and> site_after H t))"

definition email_value :: "pyhost \<Rightarrow> pystr \<Rightarrow> bool" where
  "email_value H s \<longleftrightarrow>
     list_ex (\<lambda>i. (i = 0 \<or> \<not> (word_cp H (s ! (i - 1)) \<or> List.member [46, 43, 45] (s ! (i - 1)))) \<and> email_from H (drop i s)) [0..<length s]"

definition phone_cp :: "unicode \<Rightarrow> nat \<Rightarrow> bool" where
  "phone_cp N c \<longleftrightarrow> decimal_cp N c \<or> space_cp c \<or> List.member [40, 41, 46, 45] c"

text \<open>The longest number at the beginning of a text: a digit or a parenthesis, five characters or more, a digit.\<close>

definition number_here :: "unicode \<Rightarrow> pystr \<Rightarrow> pystr option" where
  "number_here N s =
     (case s of
        [] \<Rightarrow> None
      | c # r \<Rightarrow>
          if \<not> (decimal_cp N c \<or> c = 40) then None
          else (case filter (\<lambda>q. decimal_cp N (r ! q)) [5..<length (takeWhile (phone_cp N) r)] of
             [] \<Rightarrow> None | qs \<Rightarrow> Some (take (last qs + 2) s)))"

definition signed_number :: "unicode \<Rightarrow> pystr \<Rightarrow> pystr option" where
  "signed_number N s =
     (case s of
        [] \<Rightarrow> None
      | c # r \<Rightarrow> if c = 43 then map_option (Cons c) (number_here N r) else number_here N s)"

definition phone_value :: "unicode \<Rightarrow> pystr \<Rightarrow> bool" where
  "phone_value N s \<longleftrightarrow> 7 \<le> length (filter (digit_cp N) s) \<and> list_ex (\<lambda>i. number_here N (drop i s) \<noteq> None) [0..<length s]"

definition code_cp :: "nat \<Rightarrow> bool" where
  "code_cp c \<longleftrightarrow> is_alpha_cp c \<or> is_digit_cp c \<or> c = 45"

definition says :: pat where
  "says = p_all [p_blank 0, p_words [''is'', ''='', '':''], p_blank 0]"

text \<open>A phone number that a text names: the first one that is named decides.\<close>

definition named_number :: "unicode \<Rightarrow> pystr \<Rightarrow> pystr option" where
  "named_number N s =
     (let tries = p_all [p_words [''phone'', ''mobile''], p_opt (p_seq (p_blank 1) (p_lit ''number'')), says] s in
      case filter (\<lambda>r. signed_number N r \<noteq> None) tries of [] \<Rightarrow> None | r # _ \<Rightarrow> signed_number N r)"

fun first_number :: "unicode \<Rightarrow> pystr \<Rightarrow> pystr option" where
  "first_number N [] = None"
| "first_number N (c # s) = (case named_number N (c # s) of Some v \<Rightarrow> Some v | None \<Rightarrow> first_number N s)"

definition code_at :: "pyhost \<Rightarrow> pystr \<Rightarrow> nat \<Rightarrow> bool" where
  "code_at H s i \<longleftrightarrow>
     list_ex (edge_at H s)
       (p_all [p_alt [p_lit ''otp'', p_seq (p_dotted ''one'' ''time'') (p_opt (p_seq (p_blank 1) (p_lit ''code''))),
           p_dotted ''verification'' ''code'', p_lit ''passcode''],
         says, p_reps (\<lambda>c. code_cp c \<or> letter_cp c) 4 12] (drop i s))"

definition absent_at :: "pyhost \<Rightarrow> pystr \<Rightarrow> pystr \<Rightarrow> bool" where
  "absent_at H s r \<longleftrightarrow> p_words absent_words r \<noteq> [] \<or> list_ex (edge_at H s) (p_words [''not'', ''redacted''] r)"

definition secret_at :: "pyhost \<Rightarrow> pystr \<Rightarrow> nat \<Rightarrow> bool" where
  "secret_at H s i \<longleftrightarrow>
     list_ex (\<lambda>r. \<not> absent_at H s r \<and> 4 \<le> length (takeWhile (\<lambda>c. \<not> space_cp c) r))
       (p_all [p_alt [p_words [''password'', ''secret''], p_dotted ''api'' ''key'', p_dotted ''access'' ''token''], says] (drop i s))"

definition card_digit :: "unicode \<Rightarrow> pat" where
  "card_digit N = p_seq (p_one (decimal_cp N)) (p_opt (p_one (\<lambda>c. c = 32 \<or> c = 45)))"

definition card_value :: "unicode \<Rightarrow> pat" where
  "card_value N = p_all [p_alt [p_seq (p_lit ''card'') (p_opt (p_seq (p_blank 1) (p_lit ''number''))), p_words [''cvv'', ''cvc'']],
     says, card_digit N, card_digit N, card_digit N, p_one (decimal_cp N)]"

definition embedded_sensitive_value :: "unicode \<Rightarrow> pystr \<Rightarrow> bool" where
  "embedded_sensitive_value N s \<longleftrightarrow>
     (let H = un_host N in
      email_value H s
      \<or> (case first_number N s of None \<Rightarrow> False | Some v \<Rightarrow> phone_value N v)
      \<or> list_ex (code_at H s) [0..<length s]
      \<or> list_ex (secret_at H s) [0..<length s]
      \<or> anywhere (card_value N) s)"

definition no_value :: "json \<Rightarrow> bool" where
  "no_value v \<longleftrightarrow> List.member [JNull, JStr [], JList [], JObj [], JBool False, JInt 0, JFloat (Fin 0)] v"

definition keyed_sensitive_value :: "unicode \<Rightarrow> pystr \<Rightarrow> json \<Rightarrow> bool" where
  "keyed_sensitive_value N key v \<longleftrightarrow>
     sensitive_key key \<and> \<not> public_handle key v \<and> \<not> no_value v \<and>
     (case v of
        JStr s \<Rightarrow>
          (let x = strip s in
           x \<noteq> [] \<and> \<not> placeholder x \<and> \<not> is_reference x \<and>
           (if anywhere (p_dotted ''e'' ''mail'') key then email_value (un_host N) x
            else if anywhere (p_words [''phone'', ''mobile'']) key then phone_value N x
            else if anywhere (p_alt [p_words [''otp'', ''passcode''], p_dotted ''one'' ''time'', p_dotted ''verification'' ''code'']) key
            then 4 \<le> length x \<and> length x \<le> 12 \<and> list_all code_cp x
            else True))
      | _ \<Rightarrow> True)"

text \<open>Where a value holds a secret: the path of the first one, empty when there is none.\<close>

definition child_path :: "pystr \<Rightarrow> pystr \<Rightarrow> pystr" where
  "child_path path key = (let s = path @ [46] @ key in rev (dropWhile (\<lambda>c. c = 46) (rev (dropWhile (\<lambda>c. c = 46) s))))"

fun sensitive_path :: "unicode \<Rightarrow> json \<Rightarrow> pystr \<Rightarrow> pystr"
  and sensitive_fields :: "unicode \<Rightarrow> pydict \<Rightarrow> pystr \<Rightarrow> pystr"
  and sensitive_items :: "unicode \<Rightarrow> json list \<Rightarrow> nat \<Rightarrow> pystr \<Rightarrow> pystr" where
  "sensitive_path N (JObj d) path = sensitive_fields N d path"
| "sensitive_path N (JList xs) path = sensitive_items N xs 0 path"
| "sensitive_path N (JStr s) path = (if embedded_sensitive_value N s then or_str path (u ''text'') else [])"
| "sensitive_path N v path = []"
| "sensitive_fields N [] path = []"
| "sensitive_fields N ((k, v) # d) path =
     (if starts_with k [95] then sensitive_fields N d path
      else if keyed_sensitive_value N k v then child_path path k
      else let found = sensitive_path N v (child_path path k) in if found \<noteq> [] then found else sensitive_fields N d path)"
| "sensitive_items N [] i path = []"
| "sensitive_items N (v # vs) i path =
     (let found = sensitive_path N v (path @ [91] @ dec (int i) @ [93]) in if found \<noteq> [] then found else sensitive_items N vs (Suc i) path)"

subsection \<open>Targets\<close>

text \<open>The path of a URL, a question mark and its query.\<close>

definition url_request :: "pystr \<Rightarrow> pystr" where
  "url_request s =
     (let (_, rest) = url_scheme (url_clean s);
          body = (if take 2 rest = [47, 47] then drop (2 + length (url_netloc rest)) rest else rest);
          plain = takeWhile (\<lambda>c. c \<noteq> 35) body in
      takeWhile (\<lambda>c. c \<noteq> 63) plain @ [63] @ drop 1 (dropWhile (\<lambda>c. c \<noteq> 63) plain))"

definition consequential_words :: pat where
  "consequential_words = p_alt [p_all [p_lit ''log'', p_opt (p_lit ''-''), p_lit ''out''], p_all [p_lit ''sign'', p_opt (p_lit ''-''), p_lit ''out''],
     p_words [''unsubscribe'', ''delete'', ''remove'', ''deactivate'', ''activate'', ''verify'', ''confirm'']]"

definition consequential_navigation :: "pystr \<Rightarrow> bool" where
  "consequential_navigation s \<longleftrightarrow>
     (let ok = (\<lambda>r. r = [] \<or> r = [10] \<or> List.member [47, 63, 38, 61] (hd r)) in
      list_ex (\<lambda>i. (i = 0 \<or> List.member [47, 63, 38, 61] (s ! (i - 1))) \<and> list_ex ok (consequential_words (drop i s))) [0..<Suc (length s)])"

definition commerce_words :: "pyhost \<Rightarrow> pystr \<Rightarrow> bool" where
  "commerce_words H = search H (rseqs [RWordB, ralts (map (\<lambda>w. RLit (u w)) [''pay'', ''purchase'', ''buy'', ''checkout'']
     @ [rseqs [RLit (u ''place''), opt_re (ROne [45, 95, 32]), RLit (u ''order'')]]), RWordB])"

text \<open>What the driver knows of a capability.\<close>

datatype semantic_args = SEMANTIC_KEYS "string list" | SEMANTIC_BY "pydict \<Rightarrow> pydict result" | SEMANTIC_NONE

record tool_spec =
  ts_name :: pystr
  ts_risk :: pystr
  ts_reversible :: bool
  ts_semantic :: semantic_args

definition amount_given :: "pydict \<Rightarrow> bool" where
  "amount_given args \<longleftrightarrow> list_ex (\<lambda>k. \<not> List.member [JNull, JStr [], JInt 0, JStr (u ''0''), JBool False, JFloat (Fin 0)] (dget_null args (u k)))
     [''spend_usd'', ''amount_usd'']"

definition text_of_field :: "pyhost \<Rightarrow> pydict \<Rightarrow> string \<Rightarrow> pystr" where
  "text_of_field H d k = str_or_empty H (dget_null d (u k))"

primrec hosts_of :: "pyhost \<Rightarrow> pystr list \<Rightarrow> pystr list result" where
  "hosts_of H [] = Inr []"
| "hosts_of H (s # ss) =
     (if s = [] then hosts_of H ss
      else case urlsplit H s of
          None \<Rightarrow> Inl (ValueError ''Invalid URL'')
        | Some (_, net) \<Rightarrow> bind_result (hosts_of H ss) (\<lambda>hs. Inr (url_hostname H net # hs)))"

primrec safe_navigation :: "pyhost \<Rightarrow> pystr list \<Rightarrow> bool result" where
  "safe_navigation H [] = Inr True"
| "safe_navigation H (s # ss) =
     (if urlsplit H s = None then Inl (ValueError ''Invalid URL'')
      else if consequential_navigation (url_request s) then Inr False else safe_navigation H ss)"

datatype bound_refusal = SECRET_AT pystr | CONSEQUENTIAL | OUTSIDE pystr | NOT_PAY | NO_AMOUNT

definition bound_refusal_of :: "unicode \<Rightarrow> pydict \<Rightarrow> tool_spec \<Rightarrow> pydict \<Rightarrow> pydict \<Rightarrow> bound_refusal option result" where
  "bound_refusal_of N leash cap args snap =
     (let H = un_host N; secret = sensitive_path N (JObj args) [];
          urls = [text_of_field H args ''url'', text_of_field H args ''target'', text_of_field H snap ''url''];
          trigger = join [32] (map (text_of_field H args) [''button'', ''submit'', ''submit_selector'']) in
      if secret \<noteq> [] then Inr (Some (SECRET_AT secret))
      else bind_result (if ts_reversible cap then safe_navigation H urls else Inr True) (\<lambda>safe.
        if \<not> safe then Inr (Some CONSEQUENTIAL)
        else bind_result (hosts_of H urls) (\<lambda>hosts.
             bind_result (if truthy (dget_null leash (u ''allowed_domains'')) then loop_items (dget_null leash (u ''allowed_domains'')) else Inr []) (\<lambda>allowed.
          let pats = map (\<lambda>x. py_lower H (py_str H x)) allowed;
              foreign = filter (\<lambda>h. \<not> list_ex (fnmatchcase (py_lower H h)) pats) hosts in
          if truthy (dget_null leash (u ''allowed_domains'')) \<and> foreign \<noteq> [] then Inr (Some (OUTSIDE (hd foreign)))
          else if ts_risk cap \<noteq> u ''pay'' \<and> commerce_words H trigger then Inr (Some NOT_PAY)
          else if ts_risk cap = u ''pay'' \<and> \<not> amount_given args then Inr (Some NO_AMOUNT)
          else Inr None))))"

definition human_required :: "bound_refusal \<Rightarrow> bool" where
  "human_required r \<longleftrightarrow> (case r of SECRET_AT _ \<Rightarrow> True | _ \<Rightarrow> False)"

definition bound_text :: "pyhost \<Rightarrow> bound_refusal \<Rightarrow> pystr" where
  "bound_text H r = (case r of
     SECRET_AT p \<Rightarrow> u ''credential/PII field '' @ p @ u '' must be entered in the browser without persisting it in Mission state''
   | CONSEQUENTIAL \<Rightarrow> u ''consequential navigation requires an irreversible gated capability''
   | OUTSIDE h \<Rightarrow> u ''target domain '' @ repr_text H h @ u '' is outside leash.allowed_domains''
   | NOT_PAY \<Rightarrow> u ''commerce requires a dedicated pay capability with a bound amount''
   | NO_AMOUNT \<Rightarrow> u ''payment amount must be explicit and payload-bound'')"

subsection \<open>The identity of an action\<close>

definition verification_only :: "string list" where
  "verification_only = [''_case'', ''_leash'', ''reason'', ''idempotency_key'', ''success_text'', ''success_url_contains'', ''expect_title'']"

definition semantic_part :: "tool_spec \<Rightarrow> pydict \<Rightarrow> pydict result" where
  "semantic_part cap args =
     (case ts_semantic cap of
        SEMANTIC_NONE \<Rightarrow> Inl (ValueError ''irreversible capability has no semantic_args projection'')
      | SEMANTIC_BY f \<Rightarrow> f (filter (\<lambda>(k, _). \<not> List.member (map u verification_only) k) args)
      | SEMANTIC_KEYS ks \<Rightarrow> Inr (concat (map (\<lambda>k. case dget args (u k) of None \<Rightarrow> [] | Some v \<Rightarrow> [(u k, v)]) ks)))"

text \<open>The marks of browser elements, \<open>[e12]\<close> or \<open>[ref=12]\<close>, are left out of a target.\<close>

definition mark_pat :: "unicode \<Rightarrow> pat" where
  "mark_pat N = p_all [p_lit ''['', p_opt (p_alt [p_lit ''e'', p_seq (p_lit ''ref'') (p_opt (p_one (\<lambda>c. c = 58 \<or> c = 61)))]),
     (\<lambda>s. p_reps (decimal_cp N) 1 (length s) s), p_lit '']'']"

fun unmarked :: "unicode \<Rightarrow> nat \<Rightarrow> pystr \<Rightarrow> pystr" where
  "unmarked N 0 s = s"
| "unmarked N (Suc n) [] = []"
| "unmarked N (Suc n) (c # s) = (case mark_pat N (c # s) of r # _ \<Rightarrow> unmarked N n r | [] \<Rightarrow> c # unmarked N n s)"

definition stable_target :: "unicode \<Rightarrow> pydict \<Rightarrow> pydict" where
  "stable_target N snap =
     (let kept = concat (map (\<lambda>k. let v = dget_null snap (u k) in if v = JNull \<or> v = JStr [] then [] else [(u k, v)]) [''url'', ''button'', ''form_digest'']);
          line = str_or_empty (un_host N) (dget_null snap (u ''target'')) in
      if line = [] then kept else kept @ [(u ''target'', JStr (squeeze (unmarked N (length line) line)))])"

definition mission_action_key :: "unicode \<Rightarrow> tool_spec \<Rightarrow> pydict \<Rightarrow> pydict \<Rightarrow> pystr result" where
  "mission_action_key N cap args snap =
     (if ts_reversible cap then Inr []
      else bind_result (semantic_part cap args) (\<lambda>clean.
        Inr (sha256_hex (un_host N) (canon_text (un_host N)
          (JObj [(u ''capability'', JStr (ts_name cap)), (u ''args'', JObj clean), (u ''target'', JObj (stable_target N snap))])))))"

subsection \<open>Targets that are polled, and submissions\<close>

text \<open>\<open>_observe_target\<close>: what a read polls, without query and fragment.\<close>

definition observe_target :: "pyhost \<Rightarrow> pydict \<Rightarrow> (bool \<times> pystr) result" where
  "observe_target H args =
     (let raw = strip (pick H args [''url'', ''target''] []); authed = truthy (dget_null args (u ''authed'')) \<or> truthy (dget_null args (u ''inbox'')) in
      if raw = [] then Inr (authed, py_lower H (strip (pick H args [''inbox'', ''channel''] (u ''default''))))
      else case urlsplit H raw of
          None \<Rightarrow> Inl (ValueError ''Invalid URL'')
        | Some (sch, net) \<Rightarrow> Inr (authed, py_lower H (or_str sch (u ''https'')) @ u ''://'' @ py_lower H (url_hostname H net)
            @ or_str (takeWhile (\<lambda>c. c \<noteq> 63) (url_request raw)) (u ''/'')))"

text \<open>A submission needs the newest browser preparation to be verified.\<close>

definition payload_text :: "pyhost \<Rightarrow> pydict \<Rightarrow> string \<Rightarrow> pystr" where
  "payload_text H p k = str_or_empty H (dget_null p (u k))"

definition submit_ready :: "pyhost \<Rightarrow> mission_event list \<Rightarrow> bool \<times> pystr" where
  "submit_ready H es =
     (case List.find (\<lambda>e. me_kind e = u ''result'' \<and> me_name e = u ''browse'') (rev es) of
        None \<Rightarrow> (False, u ''no independently verified browser preparation exists'')
      | Some e \<Rightarrow>
          let p = me_payload e; v = payload_text H p ''verdict'' in
          if v = u ''verified'' then (True, u ''latest browser preparation independently verified'')
          else (False, u ''latest browser preparation was '' @ or_str v (u ''not verified'') @ u '': ''
            @ take 300 (or_str (payload_text H p ''reason'') (u ''no verification evidence''))))"

subsection \<open>A secret is found wherever it is\<close>

inductive secret_in :: "unicode \<Rightarrow> json \<Rightarrow> bool" for N where
  in_text: "embedded_sensitive_value N s \<Longrightarrow> secret_in N (JStr s)"
| in_item: "\<lbrakk>v \<in> set vs; secret_in N v\<rbrakk> \<Longrightarrow> secret_in N (JList vs)"
| in_keyed: "\<lbrakk>(k, v) \<in> set d; \<not> starts_with k [95]; keyed_sensitive_value N k v\<rbrakk> \<Longrightarrow> secret_in N (JObj d)"
| in_field: "\<lbrakk>(k, v) \<in> set d; \<not> starts_with k [95]; secret_in N v\<rbrakk> \<Longrightarrow> secret_in N (JObj d)"

inductive_simps secret_simps: "secret_in N (JStr s)" "secret_in N (JList vs)" "secret_in N (JObj d)"
  "secret_in N JNull" "secret_in N (JBool b)" "secret_in N (JInt i)" "secret_in N (JFloat x)"

text \<open>Full stops alone are no sensitive name, so the path of a named secret is not empty.\<close>

lemma no_word_in_stops: "ieq (of_char c) 46 = False \<Longrightarrow> p_lit (c # w) (replicate n 46) = []"
  by (cases n) (simp_all add: p_lit_def u_def)

lemma stops_not_sensitive: "\<not> sensitive_key (replicate n 46)"
  unfolding sensitive_key_def anywhere_def list_ex_iff
  by (simp add: p_alt_def p_words_def p_dotted_def p_seq_def no_word_in_stops ieq_def)

lemma sensitive_key_char: "sensitive_key k \<Longrightarrow> \<exists>c\<in>set k. c \<noteq> 46"
  using stops_not_sensitive [of "length k"] by (rule contrapos_np) (simp add: replicate_length_same)

lemma kept_in_dropWhile: "c \<in> set s \<Longrightarrow> \<not> P c \<Longrightarrow> c \<in> set (dropWhile P s)"
  by (induction s) auto

lemma trimmed_stops: "c \<in> set s \<Longrightarrow> c \<noteq> 46 \<Longrightarrow> rev (dropWhile (\<lambda>c. c = 46) (rev (dropWhile (\<lambda>c. c = 46) s))) \<noteq> []"
  using kept_in_dropWhile [of c s "\<lambda>c. c = 46"] by (auto simp: dropWhile_eq_Nil_conv)

lemma child_path_named: "keyed_sensitive_value N k v \<Longrightarrow> child_path path k \<noteq> []"
  using sensitive_key_char [of k] trimmed_stops [of _ "path @ [46] @ k"]
  by (auto simp: keyed_sensitive_value_def child_path_def Let_def)

lemma secret_among:
  "secret_in N (JObj ((k, v) # d)) \<longleftrightarrow> \<not> starts_with k [95] \<and> (keyed_sensitive_value N k v \<or> secret_in N v) \<or> secret_in N (JObj d)"
  "secret_in N (JList (v # vs)) \<longleftrightarrow> secret_in N v \<or> secret_in N (JList vs)"
  "\<not> secret_in N (JObj [])" "\<not> secret_in N (JList [])"
  by (auto simp: secret_simps)

lemma sensitive_path_finds:
  "sensitive_path N v path \<noteq> [] \<longleftrightarrow> secret_in N v"
  "sensitive_fields N d path \<noteq> [] \<longleftrightarrow> secret_in N (JObj d)"
  "sensitive_items N vs i path \<noteq> [] \<longleftrightarrow> secret_in N (JList vs)"
  by (induction N v path and N d path and N vs i path rule: sensitive_path_sensitive_fields_sensitive_items.induct)
    (simp_all add: Let_def secret_among child_path_named or_str_def secret_simps(1,4-7))

subsection \<open>What an admitted action satisfies\<close>

lemma hosts_of_member:
  "hosts_of H us = Inr hs \<Longrightarrow> s \<in> set us \<Longrightarrow> s \<noteq> [] \<Longrightarrow> \<exists>sch net. urlsplit H s = Some (sch, net) \<and> url_hostname H net \<in> set hs"
  by (induction us arbitrary: hs) (auto simp: bind_result_Inr_iff split: if_splits option.splits)

lemma safe_navigation_all: "safe_navigation H us = Inr True \<Longrightarrow> s \<in> set us \<Longrightarrow> \<not> consequential_navigation (url_request s)"
  by (induction us) (auto split: if_splits)

definition action_urls :: "unicode \<Rightarrow> pydict \<Rightarrow> pydict \<Rightarrow> pystr list" where
  "action_urls N args snap = [text_of_field (un_host N) args ''url'', text_of_field (un_host N) args ''target'', text_of_field (un_host N) snap ''url'']"

definition action_trigger :: "unicode \<Rightarrow> pydict \<Rightarrow> pystr" where
  "action_trigger N args = join [32] (map (text_of_field (un_host N) args) [''button'', ''submit'', ''submit_selector''])"

text \<open>An address within the domains of a leash.\<close>

definition in_domains :: "unicode \<Rightarrow> json list \<Rightarrow> pystr \<Rightarrow> bool" where
  "in_domains N allowed s \<longleftrightarrow>
     (\<exists>sch net. urlsplit (un_host N) s = Some (sch, net)
        \<and> (\<exists>p\<in>set allowed. fnmatchcase (py_lower (un_host N) (url_hostname (un_host N) net)) (py_lower (un_host N) (py_str (un_host N) p))))"

lemma admitted_checks:
  assumes "bound_refusal_of N leash cap args snap = Inr None"
  shows "sensitive_path N (JObj args) [] = []"
    and "ts_reversible cap \<Longrightarrow> safe_navigation (un_host N) (action_urls N args snap) = Inr True"
    and "\<exists>hs. hosts_of (un_host N) (action_urls N args snap) = Inr hs
      \<and> (\<forall>allowed. dget_null leash (u ''allowed_domains'') = JList allowed \<longrightarrow> allowed \<noteq> [] \<longrightarrow>
          (\<forall>h\<in>set hs. \<exists>p\<in>set allowed. fnmatchcase (py_lower (un_host N) h) (py_lower (un_host N) (py_str (un_host N) p))))"
    and "if ts_risk cap = u ''pay'' then amount_given args else \<not> commerce_words (un_host N) (action_trigger N args)"
  using assms unfolding bound_refusal_of_def Let_def action_urls_def [symmetric] action_trigger_def [symmetric]
  by (auto simp: bind_result_Inr_iff filter_empty_conv list_ex_iff loop_items_def split: if_splits)


text \<open>A page in the one domain of a leash.\<close>

definition sample_names :: unicode where
  "sample_names = \<lparr>un_host = ascii_host, un_isdigit = \<lambda>c. False, un_decimal = \<lambda>c. False\<rparr>"

definition sample_browse :: tool_spec where
  "sample_browse = \<lparr>ts_name = u ''browse'', ts_risk = u ''read'', ts_reversible = True, ts_semantic = SEMANTIC_NONE\<rparr>"

definition sample_page :: pydict where
  "sample_page = [(u ''url'', JStr (u ''//a''))]"

definition sample_domains :: pydict where
  "sample_domains = [(u ''allowed_domains'', JList [JStr (u ''a'')])]"

lemma sample_admitted: "bound_refusal_of sample_names sample_domains sample_browse sample_page [] = Inr None"
  by code_simp


end
