(* ===== verification/Spec2Isabelle.thy ===== *)
theory Spec2Isabelle
  imports Authorize Scheduler Mandate Trust TreeUsage MissionFence ConsentSample MissionGuard
begin

text \<open>
  Collie (\<open>src/harness\<close>) is an agent runtime whose core logic is a chain of decisions about
  authority: what a tool call is, who may allow it, how the answer is obtained and kept, and
  how an irreversible action is performed at most once and accounted for. This development
  models that chain.

  \<^bold>\<open>The parts and how they interact.\<close> A call of the tool loop (\<open>loop.py\<close>, \<open>_authorize\<close>) goes
  to the gate (\<open>gate.py\<close>), which classifies it (\<open>risk.py\<close>, \<open>overrides.py\<close>, the policy of MCP
  tools in \<open>mcpclient.py\<close> and \<open>mcpbroker.py\<close>), and for an external effect builds an intent and
  asks the authority engine (\<open>authority.py\<close>), which consults the request's contract and the
  ledger of grants. A navigation is judged by \<open>browserpolicy.py\<close>. When the answer is to ask,
  an approver (\<open>approve.py\<close>, or the durable inbox \<open>inbox.py\<close>) gets a person's answer, and the
  gate records it. A delegated job (\<open>jobs.py\<close>) is compiled from plain words by \<open>mandate.py\<close>,
  carries a leash (\<open>leash.py\<close>), performs its actions through the action store (\<open>actions.py\<close>),
  is woken by the scheduler (\<open>scheduler.py\<close>) and is closed by a verifier (\<open>verifier.py\<close>).
  \<open>trust.py\<close> and \<open>capability_policy.py\<close> say which repositories and requests may widen what
  runs without asking.

  \<^bold>\<open>Theories.\<close>
  \<^item> Prelude: strings as lists of code points, JSON values, exceptions as values, the string
    methods of Python the program uses. What the interpreter decides beyond ASCII, and other
    host facts, are the fields of the record \<open>pyhost\<close>, an argument of every definition that
    uses them. Glob, Url, Regex and Shlex model \<open>fnmatch\<close>, \<open>urlsplit\<close>, the patterns given to
    \<open>re.search\<close> and \<open>shlex.split\<close>.
  \<^item> Latch: the contract behind every "first one wins" update, a locale whose client lemmas say
    that each key is won at most once over any run. Authority, Inbox and Actions interpret it on
    their own operations.
  \<^item> Risk, Intent, Authority, BrowserPolicy, Gate: classification, intents, grants, the site
    policy and the gate's verdict and its recorded answers.
  \<^item> Present, Inbox, Authorize: what a person is shown, the parked question and its waiters, and
    the loop's decision with its audit rows.
  \<^item> Leash, Verifier, Actions, Jobs, Scheduler, Mandate: the delegated job.
  \<^item> Trust: directory trust and the capability policy of a request.
  \<^item> Delegation, RunTree, RunOps, TreeSafety, TreeAuthority, TreeControl, TreeUsage: the tree of
    runs (\<open>tasktree.py\<close>). Delegation derives the leash of a specialist from its parent's;
    RunTree has the rows, RunOps every operation of \<open>TaskTreeStore\<close>, and the other four the
    invariant of the store and what follows for authority, cancellation and usage.
  \<^item> Reach: the recursive queries, as a loop with its termination and its closure.
  \<^item> MissionCase, Mission, MissionOps, MissionNotes, MissionWork: the store of missions
    (\<open>mission.py\<close>, class \<open>MissionStore\<close> and the functions above it). MissionCase keeps cases,
    events and projections bounded; Mission has the tables, lineage and budgets; MissionOps a run
    from its claim to its end, pausing, recovery and cleanup; MissionNotes the instructions of
    people; MissionWork slots, turns, reservations and wakes.
  \<^item> MissionMoves, NoteMoves, WorkMoves: the state machine \<open>row_move\<close> of one mission and the proof
    that each operation moves the store along it. MissionLife: the transactions as a data type and
    \<open>perform\<close>. MissionKeep: the invariant and what any sequence does to a store, an instance of
    the locale \<open>labelled_store\<close> of Latch. MissionSample: a small store for the examples.
  \<^item> MissionSafety, MissionBudget, MissionFence: what any sequence of transactions guarantees.
  \<^item> Consent, MissionAsk: the turns of \<open>MissionDriver\<close> in which a decision asks for consent, waits,
    updates the coverage of a campaign or skips an optional step (\<open>_handle_authorization\<close>,
    \<open>_handle_wait\<close>, \<open>_handle_coverage_update\<close>, \<open>_skip_optional_step\<close>), and those that refresh what
    was asked for. Consent has the pure functions of \<open>mission.py\<close> and \<open>mission_intervention.py\<close> they
    rest on, MissionAsk the turns, which write through the transactions above and nothing else.
  \<^item> MissionTurn: the locale \<open>turn_logic\<close>, the rules of such turns for any predicate of the store
    that every write of a case, every timer and every event keeps. MissionConsent interprets it four
    times: a turn is a sequence of transactions with the right to leave its run only, it invents no
    authority, it closes a branch on evidence only, and it wakes no later than the deadline.
    ConsentSample applies these to concrete stores.
  \<^item> MissionGuard: the checks of a proposed action before it is reserved (\<open>_bound_refusal\<close>), with its
    regular expressions written out, and the identity it is reserved under (\<open>_action_key\<close>).

  \<^bold>\<open>Modelling.\<close> A Python object with state is a record that operations take and return; a table
  is a list of rows and an \<open>UPDATE\<close> reports how many rows it changed; an exception is a value of
  \<open>exc + 'a\<close>. A column of JSON text is the value it decodes to, \<open>None\<close> when it does not decode.
  The clock, new keys, digests, the network, the file system, the model provider and the person
  are arguments. Where several processes share a store, a run is a list of operations, the
  operations of a process whose reads are out of date included, so a theorem over all lists is a
  theorem over all interleavings of the store's atomic statements.

  \<^bold>\<open>What the lemmas show.\<close> The properties are numbered C1 to C40 in the order of their
  importance; each stands in the theory of its component. Actions: a side effect fires at most
  once, never unconfirmed, never with another payload, never without a receipt. Authorize, Gate
  and Authority: the exact conditions and the only reasons under which a call runs, that refusals
  mint nothing, that one-shot grants are used once and revocation is final, that answers bind the
  run. Inbox: the first answer wins, consent is stated, no waiter is lost. Jobs, Scheduler,
  Verifier, Mandate, Leash: a leash is obeyed, a job is verified only by evidence, no wait is
  stranded, a compiled job is scoped. Risk, Intent, BrowserPolicy, Present, Trust: classification
  fails closed, effects below a commit are listed, sensitive sites keep the prompt, notices are
  honest, trust and capabilities do not leak. The run tree: authority only shrinks on the way down,
  siblings write apart, a cancellation reaches the whole subtree, an outcome is delivered once,
  usage covers the children's. Missions: a lost worker is locked out, an end is final, an uncertain
  run needs a cleanup, a key of an irreversible action is used once in a campaign, no budget of an
  ancestor is exceeded, an instruction is kept and seen, a wake fires once. Of a mission, the
  operations are shown to refine a state machine that says which right each step takes.

  \<^bold>\<open>Termination and bounds.\<close> Every function is total, by structural recursion or a measure.
  Integers are Python's unbounded integers. Three loops carry a bound. The climb of a claim to the
  root of the run tree is bounded by the number of rows, and \<open>claim_climb_terminates\<close> shows that
  this is enough in every reachable store. The walks to the root of a mission and of a run stop at
  64 and the shrinking of a model's context after 80 rounds, as in the code; a lineage that is not
  complete after 64 steps is refused, and a context that does not fit after 80 rounds is replaced
  by a fixed one, so \<open>model_case_fits\<close> holds.

  \<^bold>\<open>Transactions.\<close> A method of a store that runs in one \<open>BEGIN IMMEDIATE\<close> transaction is one
  definition from the store to an answer and the new store; an exception rolls it back. Methods of
  several transactions are composed of such definitions and each transaction is an element of
  \<open>mission_op\<close> of its own, so interleavings within a method are covered. \<open>proper_op\<close> says how the
  program calls the store: tokens are not empty, a claim names claimable states, a run is finished
  into a state that is not working. \<open>set_state\<close>, which the service calls on a mission it failed to
  set up, is defined but not among the transactions.

  \<^bold>\<open>Not modelled.\<close> The agent loop around the authorization path, providers, runners, tool bodies,
  the web, desktop and messaging surfaces, and of the driver of missions the planning of a step, the
  dispatch of a capability and the collection of evidence. The payloads of two kinds of events of a
  turn, of a deferred request and of absorbed instructions, are kept without the identities of the
  instructions. Of the modelled files: schema creation and
  migration, the repair of a database when it is opened, key files, the scheduler's thread and
  prechecks, the advisory texts of a mission (\<open>do_not_repeat\<close>, the activity ledger).
  The text of a refusal of the action store and the executor is not kept, only that it is one.
\<close>

end
